(* ===== verification/Kv_Prelude.thy ===== *)
theory Kv_Prelude
  imports Main "HOL-Library.Word" "HOL-Library.Monad_Syntax" "HOL-Library.Finite_Map"
    "HOL-Library.Multiset" "HOL-Library.Char_ord" "HOL-Library.List_Lexorder"
begin

text \<open>
  Shared vocabulary of the development.

  Go's fixed-width integers are words: a \<^verbatim>\<open>uint32\<close> is a \<open>u32\<close> and wraps around as in
  Go; an \<^verbatim>\<open>int32\<close> is the same 32 bits read through the signed order (\<open><s\<close>, \<open>\<le>s\<close>), so the
  conversions \<^verbatim>\<open>int32(x)\<close> and \<^verbatim>\<open>uint32(x)\<close> of the source are the identity on the bits.
  Go maps are finite maps (\<open>fmap\<close>), \<^verbatim>\<open>delete(m, k)\<close> is \<open>fmdrop k m\<close>, \<^verbatim>\<open>len(m)\<close> is
  \<open>map_len m\<close>.  Strings are byte lists.

  A Go run-time panic (index out of range, nil dereference, slice bounds, division by zero,
  send on a closed channel) is the value \<open>None\<close> of a result \<open>'a option\<close>; a returned
  \<^verbatim>\<open>error\<close> is \<open>Inl\<close> of a sum.  That an operation does not panic is therefore a theorem of
  the form \<open>\<exists>r. op s = Some r\<close>.
\<close>

type_synonym u32 = "32 word"
type_synonym u64 = "64 word"
type_synonym i32 = "32 word"

text \<open>Time stamps and durations in nanoseconds; the zero \<^verbatim>\<open>time.Time\<close> is \<open>0\<close>.\<close>

type_synonym time = int
type_synonym duration = int

named_theorems panic_simps \<open>when the run-time helpers return, and what\<close>
named_theorems frame_simps \<open>fields an operation does not write\<close>
named_theorems step_intros \<open>preservation of the invariants by single operations\<close>

subsection \<open>Slices\<close>

text \<open>
  \<^verbatim>\<open>xs[a:b]\<close> and \<^verbatim>\<open>xs[a:]\<close>: out-of-range bounds panic.  Go admits an upper bound up to the
  capacity; the upper bounds of the modelled code are bounded by the length or fail \<open>a \<le> b\<close>.
\<close>

definition slice :: "'a list \<Rightarrow> nat \<Rightarrow> nat \<Rightarrow> 'a list option" where
  "slice xs a b = (if a \<le> b \<and> b \<le> length xs then Some (take (b - a) (drop a xs)) else None)"

definition slice_from :: "'a list \<Rightarrow> nat \<Rightarrow> 'a list option" where
  "slice_from xs a = slice xs a (length xs)"

lemma slice_Some [panic_simps]: "a \<le> b \<Longrightarrow> b \<le> length xs \<Longrightarrow> slice xs a b = Some (take (b - a) (drop a xs))"
  by (simp add: slice_def)

lemma slice_None_iff: "slice xs a b = None \<longleftrightarrow> b < a \<or> length xs < b"
  by (auto simp: slice_def)

lemma slice_from_Some [panic_simps]: "a \<le> length xs \<Longrightarrow> slice_from xs a = Some (drop a xs)"
  by (simp add: slice_from_def slice_def)

lemma slice_from_None_iff: "slice_from xs a = None \<longleftrightarrow> length xs < a"
  by (auto simp: slice_from_def slice_def)

subsection \<open>Formatting\<close>

text \<open>\<^verbatim>\<open>%d\<close> of an unsigned value.\<close>

fun fmt_d :: "nat \<Rightarrow> string" where
  "fmt_d n = (if n < 10 then [char_of (48 + n)] else fmt_d (n div 10) @ [char_of (48 + n mod 10)])"

declare fmt_d.simps [simp del]

subsection \<open>Finite maps\<close>

definition map_len :: "('k, 'v) fmap \<Rightarrow> nat" where
  "map_len m = fcard (fmdom m)"

text \<open>\<^verbatim>\<open>_, exists := m[k]\<close>.\<close>

abbreviation has_key :: "('k, 'v) fmap \<Rightarrow> 'k \<Rightarrow> bool" where
  "has_key m k \<equiv> fmlookup m k \<noteq> None"

subsection \<open>Words\<close>

lemma unat_of_nat_u32: "n < 2 ^ 32 \<Longrightarrow> unat (of_nat n :: u32) = n"
  by (simp add: unat_of_nat)

lemma unat_inj_u32: "unat (a :: u32) = unat b \<longleftrightarrow> a = b"
  by (simp add: word_unat_eq_iff)

lemma unat_lt_u32: "unat (a :: u32) < 4294967296"
proof -
  have "unat a < 2 ^ LENGTH(32)"
    by (rule unsigned_less)
  then show ?thesis
    by simp
qed

lemma unat_add_u32: "unat (a :: u32) + unat b < 2 ^ 32 \<Longrightarrow> unat (a + b) = unat a + unat b"
  by (simp add: unat_word_ariths)

lemma unat_mult_u32: "unat (a :: u32) * unat b < 2 ^ 32 \<Longrightarrow> unat (a * b) = unat a * unat b"
  by (simp add: unat_word_ariths)

lemma unat_pred_u32: "(a :: u32) \<noteq> 0 \<Longrightarrow> unat (a - 1) = unat a - 1"
  by (simp add: unat_minus_one)

lemma unat_gt_0_u32: "0 < unat (a :: u32) \<longleftrightarrow> a \<noteq> 0"
  by (simp add: unat_gt_0)

lemma nonneg_i32_iff: "(0 :: i32) \<le>s w \<longleftrightarrow> unat w < 2 ^ 31"
proof -
  have "(0 :: i32) \<le>s w \<longleftrightarrow> \<not> bit w (LENGTH(32) - Suc 0)"
    unfolding bit_last_iff by (simp add: word_sle_eq not_less)
  also have "\<dots> \<longleftrightarrow> drop_bit (LENGTH(32) - Suc 0) w = 0"
    by (simp only: drop_bit_eq_zero_iff_not_bit_last)
  also have "\<dots> \<longleftrightarrow> unat w < 2 ^ 31"
    by (simp add: word_unat_eq_iff unat_drop_bit_eq drop_bit_eq_div div_eq_0_iff unat_div)
  finally show ?thesis .
qed

lemma neg_i32_iff: "w <s (0 :: i32) \<longleftrightarrow> \<not> unat w < 2 ^ 31"
  by (simp add: signed.not_le [symmetric] nonneg_i32_iff)

lemma minus_one_neg [simp]: "\<not> (0 :: i32) \<le>s - 1"
  by (simp add: word_sle_eq)

subsection \<open>Lists\<close>

lemma distinct_set_length_le:
  assumes "distinct (xs :: u32 list)" and "\<forall>x \<in> set xs. unat x < n"
  shows "length xs \<le> n"
proof -
  have "inj_on unat (set xs)"
    by (simp add: inj_on_def unat_inj_u32)
  then have "card (unat ` set xs) = length xs"
    using assms(1) by (simp add: card_image distinct_card)
  moreover have "unat ` set xs \<subseteq> {..<n}"
    using assms(2) by auto
  ultimately show ?thesis
    using card_mono [of "{..<n}" "unat ` set xs"] by simp
qed

subsection \<open>Postconditions\<close>

text \<open>\<open>post Q r\<close>: if the operation completes, its result satisfies \<open>Q\<close>.\<close>

definition post :: "('a \<Rightarrow> bool) \<Rightarrow> 'a option \<Rightarrow> bool" where
  "post Q r \<longleftrightarrow> (\<forall>x. r = Some x \<longrightarrow> Q x)"

lemma post_simps [simp]:
  "post Q None" "post Q (Some x) \<longleftrightarrow> Q x" "post Q (m \<bind> f) \<longleftrightarrow> post (\<lambda>x. post Q (f x)) m"
  "post Q (map_option g m) \<longleftrightarrow> post (\<lambda>x. Q (g x)) m"
  by (auto simp: post_def split: bind_splits)

lemma postD: "post Q r \<Longrightarrow> r = Some x \<Longrightarrow> Q x"
  by (simp add: post_def)

lemma postI: "(\<And>x. r = Some x \<Longrightarrow> Q x) \<Longrightarrow> post Q r"
  by (simp add: post_def)

lemma post_any: "(\<And>x. Q x) \<Longrightarrow> post Q m"
  by (simp add: post_def)

end
