(* ===== verification/Kv_Errors.thy ===== *)
theory Kv_Errors
  imports Kv_Prelude
begin

text \<open>
  The error values of the engine (\<^verbatim>\<open>internal/errors/error.go\<close>) and the parts of Go's
  \<^verbatim>\<open>errors\<close>, \<^verbatim>\<open>fmt\<close> and \<^verbatim>\<open>context\<close> packages the engine uses: \<^verbatim>\<open>fmt.Errorf\<close> with \<^verbatim>\<open>%w\<close>,
  \<^verbatim>\<open>errors.Join\<close>, \<^verbatim>\<open>errors.As\<close>, \<^verbatim>\<open>errors.Is\<close> and the two context errors.  A nil error is
  \<open>None\<close> of \<open>error option\<close>.
\<close>

type_synonym Code = string

definition CodeInvalidArgument :: Code where "CodeInvalidArgument = ''invalid_argument''"
definition CodeQueueFull :: Code where "CodeQueueFull = ''queue_full''"
definition CodeRequestTimeout :: Code where "CodeRequestTimeout = ''request_timeout''"
definition CodeRequestCanceled :: Code where "CodeRequestCanceled = ''request_canceled''"
definition CodeExecutorUnavailable :: Code where "CodeExecutorUnavailable = ''executor_unavailable''"
definition CodeInternal :: Code where "CodeInternal = ''internal''"

lemmas Code_defs = CodeInvalidArgument_def CodeQueueFull_def CodeRequestTimeout_def
  CodeRequestCanceled_def CodeExecutorUnavailable_def CodeInternal_def

text \<open>
  \<open>AppError code message op cause retryable\<close> is a non-nil \<^verbatim>\<open>*AppError\<close>; \<open>Errorf\<close> is the result of
  \<^verbatim>\<open>fmt.Errorf\<close> with the errors its \<^verbatim>\<open>%w\<close> verbs wrap, \<open>Joined\<close> the result of \<^verbatim>\<open>errors.Join\<close>;
  \<open>OtherError\<close> stands for an error of another package.
\<close>

datatype error =
    AppError Code string string "error option" bool
  | Errorf string "error list"
  | Joined "error list"
  | ContextCanceled
  | ContextDeadlineExceeded
  | OtherError string

type_synonym 'a result = "error + 'a"

fun join_lines :: "string list \<Rightarrow> string" where
  "join_lines [] = []"
| "join_lines [s] = s"
| "join_lines (s # ss) = s @ CHR 10 # join_lines ss"

fun error_Error :: "error \<Rightarrow> string" where
  "error_Error (AppError code message op cause _) =
     (if op \<noteq> [] \<and> message \<noteq> [] then op @ '': '' @ message
      else if message \<noteq> [] then message
      else if op \<noteq> [] then op
      else case cause of Some c \<Rightarrow> error_Error c | None \<Rightarrow> code)"
| "error_Error (Errorf message _) = message"
| "error_Error (Joined es) = join_lines (map error_Error es)"
| "error_Error ContextCanceled = ''context canceled''"
| "error_Error ContextDeadlineExceeded = ''context deadline exceeded''"
| "error_Error (OtherError message) = message"

fun error_Unwrap :: "error \<Rightarrow> error list" where
  "error_Unwrap (AppError _ _ _ cause _) = (case cause of None \<Rightarrow> [] | Some c \<Rightarrow> [c])"
| "error_Unwrap (Errorf _ es) = es"
| "error_Unwrap (Joined es) = es"
| "error_Unwrap _ = []"

definition errors_New :: "Code \<Rightarrow> string \<Rightarrow> error" where
  "errors_New code message = AppError code message [] None False"

definition errors_Wrap :: "Code \<Rightarrow> string \<Rightarrow> string \<Rightarrow> error option \<Rightarrow> error" where
  "errors_Wrap code op message cause = AppError code message op cause False"

text \<open>
  \<^verbatim>\<open>errors.As(err, &appErr)\<close> walks the tree of wrapped errors in pre-order and stops at the first
  \<^verbatim>\<open>*AppError\<close>; here it yields that error's code.  \<^verbatim>\<open>errors.Is\<close> walks the same tree.
\<close>

fun asAppError :: "error \<Rightarrow> Code option" and asAppErrors :: "error list \<Rightarrow> Code option" where
  "asAppError (AppError code _ _ _ _) = Some code"
| "asAppError (Errorf _ es) = asAppErrors es"
| "asAppError (Joined es) = asAppErrors es"
| "asAppError ContextCanceled = None"
| "asAppError ContextDeadlineExceeded = None"
| "asAppError (OtherError _) = None"
| "asAppErrors [] = None"
| "asAppErrors (e # es) = (case asAppError e of Some c \<Rightarrow> Some c | None \<Rightarrow> asAppErrors es)"

fun errors_Is :: "error \<Rightarrow> error \<Rightarrow> bool" where
  "errors_Is (AppError c m op cause r) t \<longleftrightarrow>
     (case cause of None \<Rightarrow> False | Some e \<Rightarrow> errors_Is e t)"
| "errors_Is (Errorf _ es) t \<longleftrightarrow> (\<exists>e \<in> set es. errors_Is e t)"
| "errors_Is (Joined es) t \<longleftrightarrow> (\<exists>e \<in> set es. errors_Is e t)"
| "errors_Is e t \<longleftrightarrow> e = t"

definition CodeOf :: "error option \<Rightarrow> Code" where
  "CodeOf err = (case err of
     None \<Rightarrow> []
   | Some e \<Rightarrow> (case asAppError e of
       Some c \<Rightarrow> c
     | None \<Rightarrow>
         if errors_Is e ContextCanceled then CodeRequestCanceled
         else if errors_Is e ContextDeadlineExceeded then CodeRequestTimeout
         else CodeInternal))"

datatype ConnectCode =
    ConnectInvalidArgument | ConnectResourceExhausted | ConnectDeadlineExceeded
  | ConnectCanceled | ConnectUnavailable | ConnectInternal | ConnectUnknown

definition ToConnectCode :: "error option \<Rightarrow> ConnectCode" where
  "ToConnectCode err =
     (let c = CodeOf err in
      if c = CodeInvalidArgument then ConnectInvalidArgument
      else if c = CodeQueueFull then ConnectResourceExhausted
      else if c = CodeRequestTimeout then ConnectDeadlineExceeded
      else if c = CodeRequestCanceled then ConnectCanceled
      else if c = CodeExecutorUnavailable then ConnectUnavailable
      else if c = CodeInternal then ConnectInternal
      else ConnectUnknown)"

definition ToConnectError :: "error option \<Rightarrow> (ConnectCode \<times> error) option" where
  "ToConnectError err = map_option (\<lambda>e. (ToConnectCode err, e)) err"

subsection \<open>Facts the components use\<close>

lemma CodeOf_New [simp]: "CodeOf (Some (errors_New c msg)) = c"
  by (simp add: CodeOf_def errors_New_def)

text \<open>
  Wrapping with \<^verbatim>\<open>fmt.Errorf("...%w", err)\<close> keeps the code an error is reported with, however
  deep the wrapped error is.
\<close>

lemma CodeOf_Errorf: "CodeOf (Some (Errorf msg [e])) = CodeOf (Some e)"
  by (simp add: CodeOf_def split: option.splits)

end
