(* ===== verification/Kv_Model.thy ===== *)
theory Kv_Model
  imports Kv_Errors
begin

text \<open>
  The data model of the engine: \<^verbatim>\<open>internal/model\<close> (requests, work items, events, batches, block
  metadata, transfer plans) and the protobuf enumerations and messages it is converted from and
  to.  Field names are the source's, with a prefix per structure.  Pointers the code may leave
  nil are options.
\<close>

subsection \<open>Enumerations\<close>

text \<open>Protobuf enumerations are open: an unknown wire value is kept as its number.\<close>

datatype FinishReason =
    FinishReasonUnspecified | FinishReasonStop | FinishReasonLength | FinishReasonTimeout
  | FinishReasonError | FinishReasonUnknown int

datatype WorkPhase = WorkPhasePrefill | WorkPhaseDecode | WorkPhaseUnknown int

datatype EventType =
    EventTypePrefillChunk | EventTypePrefillFinished | EventTypeDecodeChunk
  | EventTypeRequestFinished | EventTypeRequestFailed | EventTypeRequestCanceled
  | EventTypeUnknown int

datatype RequestPhase =
    RequestPhaseQueued | RequestPhasePrefillReady | RequestPhasePrefillRunning
  | RequestPhaseDecodeReady | RequestPhaseDecodeRunning | RequestPhaseFinished
  | RequestPhaseCanceled | RequestPhaseTimeout | RequestPhaseFailed

text \<open>\<^verbatim>\<open>RequestPhase\<close> is a byte numbered by \<^verbatim>\<open>iota\<close>; its order is the order of the constants.\<close>

primrec phase_ord :: "RequestPhase \<Rightarrow> nat" where
  "phase_ord RequestPhaseQueued = 0"
| "phase_ord RequestPhasePrefillReady = 1"
| "phase_ord RequestPhasePrefillRunning = 2"
| "phase_ord RequestPhaseDecodeReady = 3"
| "phase_ord RequestPhaseDecodeRunning = 4"
| "phase_ord RequestPhaseFinished = 5"
| "phase_ord RequestPhaseCanceled = 6"
| "phase_ord RequestPhaseTimeout = 7"
| "phase_ord RequestPhaseFailed = 8"

lemma phase_ord_inj: "phase_ord p = phase_ord q \<longleftrightarrow> p = q"
  by (cases p; cases q) simp_all

instantiation RequestPhase :: linorder
begin

definition less_eq_RequestPhase :: "RequestPhase \<Rightarrow> RequestPhase \<Rightarrow> bool" where
  "p \<le> q \<longleftrightarrow> phase_ord p \<le> phase_ord q"

definition less_RequestPhase :: "RequestPhase \<Rightarrow> RequestPhase \<Rightarrow> bool" where
  "p < q \<longleftrightarrow> phase_ord p < phase_ord q"

instance
  by standard (auto simp: less_eq_RequestPhase_def less_RequestPhase_def phase_ord_inj)

end

subsection \<open>Blocks, allocations and transfers (block.go)\<close>

record Block =
  blk_Hash :: string
  blk_RefCount :: u32
  blk_TokenCount :: u32
  blk_Cached :: bool
  blk_InFreeQueue :: bool
  blk_PrevFree :: i32
  blk_NextFree :: i32

record BlockAllocation =
  al_RequestID :: string
  al_WorkID :: string
  al_BlockSize :: u32
  al_Phase :: WorkPhase
  al_BlockTable :: "u32 list"
  al_BlockHashes :: "string list"
  al_AllocatedBlocks :: "u32 list"
  al_TokensAfterCommit :: u32

record TransferPlan =
  tp_TransferID :: string
  tp_SourceExecutorID :: string
  tp_SourceBlockIDs :: "u32 list"
  tp_DestinationExecutorID :: string
  tp_DestinationBlockIDs :: "u32 list"
  tp_BlockHashes :: "string list"

subsection \<open>Components (component.go)\<close>

record Usage =
  us_InputTokens :: u32
  us_OutputTokens :: u32
  us_TotalTokens :: u32

definition zero_Usage :: Usage where
  "zero_Usage = \<lparr>us_InputTokens = 0, us_OutputTokens = 0, us_TotalTokens = 0\<rparr>"

record Timing =
  tm_Queue :: duration
  tm_BatchWait :: duration
  tm_Execution :: duration
  tm_Total :: duration

definition zero_Timing :: Timing where
  "zero_Timing = \<lparr>tm_Queue = 0, tm_BatchWait = 0, tm_Execution = 0, tm_Total = 0\<rparr>"

record PrefixMatch =
  pm_Hit :: bool
  pm_CachedTokens :: u32
  pm_BlockIDs :: "u32 list"
  pm_HashesTotal :: "string list"

record PrefixCandidate =
  pc_ExecutorID :: string
  pc_CachedTokens :: u32
  pc_MatchedHashes :: "string list"

record EngineRuntimeStats =
  rs_PrefillQueueLength :: u64
  rs_DecodeQueueLength :: u64
  rs_ActiveRequests :: u64
  rs_InflightBatches :: u64
  rs_BusyExecutors :: u64
  rs_IdleExecutors :: u64

record ExecutorStats =
  es_ExecutorId :: string
  es_RuntimeEpoch :: u32
  es_ModelId :: string
  es_ModelType :: string
  es_Dtype :: string
  es_DeviceType :: string
  es_TensorParallelSize :: u32
  es_BlockSize :: u32
  es_NumKvBlocks :: u32
  es_NumHiddenLayers :: u32
  es_NumKvHeads :: u32
  es_HeadDim :: u32
  es_TotalMemoryBytes :: u64
  es_AvailableMemoryBytes :: u64
  es_KVCacheBytes :: u64
  es_ModelRevision :: string
  es_KVLayoutVersion :: u32
  es_KVCompatibilityID :: string
  es_TransferEndpoint :: string

subsection \<open>Models (llm.go)\<close>

type_synonym LLMModelID = string

definition MockModel :: LLMModelID where "MockModel = ''mock''"
definition Qwen3Model :: LLMModelID where "Qwen3Model = ''Qwen/Qwen3-0.6B''"

definition ParseModelID :: "string \<Rightarrow> LLMModelID result" where
  "ParseModelID modelID =
     (if modelID = Qwen3Model \<or> modelID = ''Qwen3-0.6B'' \<or> modelID = ''qwen3'' then Inr Qwen3Model
      else if modelID = MockModel \<or> modelID = [] then Inr MockModel
      else Inl (errors_New CodeInvalidArgument (''invalid model id: '' @ modelID)))"

record LLMModelSpec =
  lm_ID :: LLMModelID
  lm_ModelType :: string
  lm_TokenizerID :: string
  lm_ExecutorID :: string

subsection \<open>Requests, work items and events (domain.go)\<close>

record Request =
  rq_RequestId :: string
  rq_UserId :: string
  rq_ExecutorID :: string
  rq_ModelID :: LLMModelID
  rq_Prompt :: string
  rq_MaxTokens :: u32
  rq_Timeout :: duration
  rq_Deadline :: time
  rq_CacheSalt :: string
  rq_Cache :: "PrefixMatch option"
  rq_TokenIDs :: "u32 list"
  rq_PromptTokens :: u32
  rq_ComputedTokens :: u32
  rq_GeneratedTokens :: u32
  rq_Phase :: RequestPhase
  rq_FinishReason :: FinishReason
  rq_OutputText :: string
  rq_CreatedAt :: time
  rq_FirstTokenAt :: time
  rq_FinishedAt :: time
  rq_Usage :: Usage
  rq_Labels :: "(string, string) fmap"

record WorkItem =
  wk_WorkId :: string
  wk_RequestId :: string
  wk_ExecutorID :: string
  wk_Phase :: WorkPhase
  wk_Deadline :: time
  wk_MaxTokens :: u32
  wk_ModelID :: LLMModelID
  wk_Cache :: "PrefixMatch option"
  wk_TokenIDs :: "u32 list"
  wk_TokenCntTotal :: u32
  wk_BlockAllocation :: "BlockAllocation option"
  wk_PrefillOffset :: u32
  wk_GeneratedTokens :: u32
  wk_NumNewTokens :: u32
  wk_EnqueuedAt :: time
  wk_ReadyAt :: time

record Event =
  ev_WorkId :: string
  ev_RequestId :: string
  ev_BatchId :: string
  ev_ExecutorId :: string
  ev_Type :: EventType
  ev_ChunkIndex :: u64
  ev_TokenId :: u32
  ev_Done :: bool
  ev_Usage :: Usage
  ev_Timing :: Timing
  ev_FinishReason :: FinishReason
  ev_At :: time
  ev_Err :: "error option"

record Batch =
  bt_BatchID :: string
  bt_ExecutorID :: string
  bt_BatchSize :: u32
  bt_CreateAt :: time
  bt_Items :: "WorkItem list"

record GenerateOutput =
  out_RequestId :: string
  out_Index :: u64
  out_DeltaText :: string
  out_FinishReason :: FinishReason
  out_Done :: bool
  out_Usage :: Usage
  out_Timing :: Timing
  out_BatchID :: string
  out_BatchSize :: u32
  out_ExecutorId :: string
  out_Err :: "error option"

subsection \<open>Conversions from and to the wire (transfer.go)\<close>

record GenerateRequest =
  gr_RequestId :: string
  gr_ModelId :: string
  gr_Prompt :: string
  gr_MaxTokens :: u32
  gr_TimeoutMs :: u32
  gr_UserId :: string
  gr_Labels :: "(string, string) fmap"

text \<open>\<^verbatim>\<open>time.Millisecond\<close> in nanoseconds.  The products below stay far inside an \<^verbatim>\<open>int64\<close>.\<close>

definition Millisecond :: duration where "Millisecond = 1000000"

definition ProtoMsgToModel :: "time \<Rightarrow> GenerateRequest \<Rightarrow> Request result" where
  "ProtoMsgToModel now i =
     (let salt = (if gr_UserId i = [] then ''request:'' @ gr_RequestId i
                  else ''user:'' @ gr_UserId i)
      in case ParseModelID (gr_ModelId i) of
        Inl e \<Rightarrow> Inl e
      | Inr modelID \<Rightarrow> Inr \<lparr>
          rq_RequestId = gr_RequestId i,
          rq_UserId = gr_UserId i,
          rq_ExecutorID = [],
          rq_ModelID = modelID,
          rq_Prompt = gr_Prompt i,
          rq_MaxTokens = gr_MaxTokens i,
          rq_Timeout = uint (gr_TimeoutMs i) * Millisecond,
          rq_Deadline = now + uint (gr_TimeoutMs i) * Millisecond,
          rq_CacheSalt = salt,
          rq_Cache = None,
          rq_TokenIDs = [],
          rq_PromptTokens = 0,
          rq_ComputedTokens = 0,
          rq_GeneratedTokens = 0,
          rq_Phase = RequestPhaseQueued,
          rq_FinishReason = FinishReasonUnspecified,
          rq_OutputText = [],
          rq_CreatedAt = 0,
          rq_FirstTokenAt = 0,
          rq_FinishedAt = 0,
          rq_Usage = zero_Usage,
          rq_Labels = gr_Labels i\<rparr>)"

definition durationToMilliseconds :: "duration \<Rightarrow> u32" where
  "durationToMilliseconds d = (if d \<le> 0 then 0 else of_int (d div Millisecond))"

definition errorMessage :: "error option \<Rightarrow> string" where
  "errorMessage err = (case err of None \<Rightarrow> [] | Some e \<Rightarrow> error_Error e)"

record ProtoTiming =
  pt_QueueMs :: u32
  pt_BatchWaitMs :: u32
  pt_ExecutionMs :: u32
  pt_TotalMs :: u32

record BatchInfo =
  bi_BatchId :: string
  bi_BatchSize :: u32

record GenerateResponse =
  gs_RequestId :: string
  gs_OutputText :: string
  gs_FinishReason :: FinishReason
  gs_Usage :: Usage
  gs_Timing :: ProtoTiming
  gs_Batch :: BatchInfo
  gs_ExecutorId :: string
  gs_ErrorMessage :: string

definition ModelToProtoMsg :: "GenerateOutput \<Rightarrow> GenerateResponse" where
  "ModelToProtoMsg i = \<lparr>
     gs_RequestId = out_RequestId i,
     gs_OutputText = out_DeltaText i,
     gs_FinishReason = out_FinishReason i,
     gs_Usage = out_Usage i,
     gs_Timing = \<lparr>
       pt_QueueMs = durationToMilliseconds (tm_Queue (out_Timing i)),
       pt_BatchWaitMs = durationToMilliseconds (tm_BatchWait (out_Timing i)),
       pt_ExecutionMs = durationToMilliseconds (tm_Execution (out_Timing i)),
       pt_TotalMs = durationToMilliseconds (tm_Total (out_Timing i))\<rparr>,
     gs_Batch = \<lparr>bi_BatchId = out_BatchID i, bi_BatchSize = out_BatchSize i\<rparr>,
     gs_ExecutorId = out_ExecutorId i,
     gs_ErrorMessage = errorMessage (out_Err i)\<rparr>"

record GenerateResponseChunk =
  gc_RequestId :: string
  gc_Index :: u32
  gc_DeltaText :: string
  gc_Done :: bool
  gc_FinishReason :: FinishReason
  gc_Usage :: Usage
  gc_ErrorMessage :: string

definition ModelToProtoMsgStream :: "GenerateOutput \<Rightarrow> GenerateResponseChunk" where
  "ModelToProtoMsgStream i = \<lparr>
     gc_RequestId = out_RequestId i,
     gc_Index = ucast (out_Index i),
     gc_DeltaText = out_DeltaText i,
     gc_Done = out_Done i,
     gc_FinishReason = out_FinishReason i,
     gc_Usage = out_Usage i,
     gc_ErrorMessage = errorMessage (out_Err i)\<rparr>"

record GetRuntimeResponse =
  rr_ExecutorId :: string
  rr_RuntimeEpoch :: u32
  rr_ModelId :: string
  rr_ModelType :: string
  rr_Dtype :: string
  rr_DeviceType :: string
  rr_TensorParallelSize :: u32
  rr_BlockSize :: u32
  rr_NumKvBlocks :: u32
  rr_NumHiddenLayers :: u32
  rr_NumKvHeads :: u32
  rr_HeadDim :: u32
  rr_TotalMemoryBytes :: u64
  rr_AvailableMemoryBytes :: u64
  rr_KvCacheBytes :: u64
  rr_ModelRevision :: string
  rr_KvLayoutVersion :: u32
  rr_KvCompatibilityId :: string
  rr_TransferEndpoint :: string

definition RuntimeProtoToModel :: "GetRuntimeResponse \<Rightarrow> ExecutorStats" where
  "RuntimeProtoToModel res = \<lparr>
     es_ExecutorId = rr_ExecutorId res,
     es_RuntimeEpoch = rr_RuntimeEpoch res,
     es_ModelId = rr_ModelId res,
     es_ModelType = rr_ModelType res,
     es_Dtype = rr_Dtype res,
     es_DeviceType = rr_DeviceType res,
     es_TensorParallelSize = rr_TensorParallelSize res,
     es_BlockSize = rr_BlockSize res,
     es_NumKvBlocks = rr_NumKvBlocks res,
     es_NumHiddenLayers = rr_NumHiddenLayers res,
     es_NumKvHeads = rr_NumKvHeads res,
     es_HeadDim = rr_HeadDim res,
     es_TotalMemoryBytes = rr_TotalMemoryBytes res,
     es_AvailableMemoryBytes = rr_AvailableMemoryBytes res,
     es_KVCacheBytes = rr_KvCacheBytes res,
     es_ModelRevision = rr_ModelRevision res,
     es_KVLayoutVersion = rr_KvLayoutVersion res,
     es_KVCompatibilityID = rr_KvCompatibilityId res,
     es_TransferEndpoint = rr_TransferEndpoint res\<rparr>"

subsection \<open>Cache salts\<close>

text \<open>The salt of a request depends on its user alone, or on the request when it names none.\<close>

lemma ProtoMsgToModel_salt:
  "ProtoMsgToModel now i = Inr r \<Longrightarrow>
   rq_CacheSalt r = (if gr_UserId i = [] then ''request:'' @ gr_RequestId i else ''user:'' @ gr_UserId i)"
  by (auto simp: ProtoMsgToModel_def Let_def split: sum.splits)

end
