(* ===== verification/Block_Queue.thy ===== *)
theory Block_Queue
  imports Kv_Model
begin

text \<open>
  The per-executor block manager's state (\<^verbatim>\<open>manager\<close> in \<^verbatim>\<open>internal/block/block.go\<close>) and its free
  queue (\<^verbatim>\<open>internal/block/queue.go\<close> and \<^verbatim>\<open>removeFreeBlock\<close>): an intrusive doubly linked list threaded
  through the block array by \<^verbatim>\<open>int32\<close> indices, \<^verbatim>\<open>-1\<close> being the empty sentinel.  The theory shows
  that the pointer operations implement a plain list of block identifiers: pop takes the head,
  append adds at the tail, remove deletes anywhere; and that none of them panics.
\<close>

subsection \<open>State\<close>

text \<open>
  The block gauges and counters of \<^verbatim>\<open>internal/metrics/kv_block.go\<close>.  Every metric carries the
  executor's label and a manager uses its own executor's label only, so each manager keeps its
  own values.
\<close>

record BlockMetrics =
  mt_active :: u64
  mt_free :: u64
  mt_cached :: u64
  mt_allocationFailures :: nat
  mt_evictedBlocks :: nat

definition newBlock :: BlockMetrics where
  "newBlock = \<lparr>mt_active = 0, mt_free = 0, mt_cached = 0, mt_allocationFailures = 0, mt_evictedBlocks = 0\<rparr>"

definition ObserveBlockStats :: "u64 \<Rightarrow> u64 \<Rightarrow> u64 \<Rightarrow> BlockMetrics \<Rightarrow> BlockMetrics" where
  "ObserveBlockStats active free cached b = b\<lparr>mt_active := active, mt_free := free, mt_cached := cached\<rparr>"

definition IncAllocationFailure :: "BlockMetrics \<Rightarrow> BlockMetrics" where
  "IncAllocationFailure b = b\<lparr>mt_allocationFailures := mt_allocationFailures b + 1\<rparr>"

definition IncEvictedBlock :: "BlockMetrics \<Rightarrow> BlockMetrics" where
  "IncEvictedBlock b = b\<lparr>mt_evictedBlocks := mt_evictedBlocks b + 1\<rparr>"

record manager =
  m_executorID :: string
  m_blockSize :: u32
  m_blocks :: "Block list"
  m_freeHead :: i32
  m_freeTail :: i32
  m_freeCount :: u32
  m_requestBlocks :: "(string, u32 list) fmap"
  m_cachedBlocks :: "(string, u32) fmap"
  m_pendingAllocations :: "(string, BlockAllocation) fmap"
  m_metrics :: BlockMetrics

text \<open>Reading and writing \<^verbatim>\<open>m.blocks[bid]\<close>; an index outside the array panics.\<close>

definition block_at :: "u32 \<Rightarrow> manager \<Rightarrow> Block option" where
  "block_at bid m = (if unat bid < length (m_blocks m) then Some (m_blocks m ! unat bid) else None)"

definition block_upd :: "u32 \<Rightarrow> (Block \<Rightarrow> Block) \<Rightarrow> manager \<Rightarrow> manager option" where
  "block_upd bid f m =
     (if unat bid < length (m_blocks m)
      then Some (m\<lparr>m_blocks := (m_blocks m)[unat bid := f (m_blocks m ! unat bid)]\<rparr>)
      else None)"

subsection \<open>Operations (queue.go)\<close>

definition appendFreeBlock :: "u32 \<Rightarrow> manager \<Rightarrow> manager option" where
  "appendFreeBlock bid m = do {
     m1 \<leftarrow> block_upd bid (\<lambda>b. b\<lparr>blk_RefCount := 0, blk_InFreeQueue := True,
              blk_PrevFree := m_freeTail m, blk_NextFree := - 1\<rparr>) m;
     m2 \<leftarrow> (if 0 \<le>s m_freeTail m1
            then block_upd (m_freeTail m1) (\<lambda>b. b\<lparr>blk_NextFree := bid\<rparr>) m1
            else Some (m1\<lparr>m_freeHead := bid\<rparr>));
     Some (m2\<lparr>m_freeTail := bid, m_freeCount := m_freeCount m2 + 1\<rparr>)
   }"

definition pushFree :: "u32 \<Rightarrow> manager \<Rightarrow> manager option" where
  "pushFree bid m = do {
     b \<leftarrow> block_at bid m;
     if blk_RefCount b = 0 then Some m
     else do {
       m1 \<leftarrow> block_upd bid (\<lambda>b. b\<lparr>blk_RefCount := blk_RefCount b - 1\<rparr>) m;
       if 0 < blk_RefCount b - 1 then Some m1
       else appendFreeBlock bid m1
     }
   }"

definition popFree :: "manager \<Rightarrow> ((u32 \<times> bool) \<times> manager) option" where
  "popFree m =
     (if m_freeHead m <s 0 \<or> m_freeCount m = 0 then Some ((0, False), m)
      else do {
        let bid = m_freeHead m;
        b \<leftarrow> block_at bid m;
        m1 \<leftarrow> (if blk_Cached b
               then map_option (\<lambda>m. m\<lparr>m_metrics := IncEvictedBlock (m_metrics m)\<rparr>)
                      (block_upd bid (\<lambda>b. b\<lparr>blk_Cached := False\<rparr>)
                        (m\<lparr>m_cachedBlocks := fmdrop (blk_Hash b) (m_cachedBlocks m)\<rparr>))
               else Some m);
        m2 \<leftarrow> block_upd bid (\<lambda>b. b\<lparr>blk_Hash := [], blk_TokenCount := 0, blk_RefCount := 1\<rparr>) m1;
        let next = blk_NextFree b;
        m3 \<leftarrow> (if 0 \<le>s next
               then block_upd next (\<lambda>b. b\<lparr>blk_PrevFree := - 1\<rparr>) (m2\<lparr>m_freeHead := next\<rparr>)
               else Some (m2\<lparr>m_freeHead := next, m_freeTail := - 1\<rparr>));
        m4 \<leftarrow> block_upd bid (\<lambda>b. b\<lparr>blk_InFreeQueue := False, blk_PrevFree := - 1,
                 blk_NextFree := - 1\<rparr>) m3;
        Some ((bid, True), m4\<lparr>m_freeCount := m_freeCount m4 - 1\<rparr>)
      })"

definition removeFreeBlock :: "u32 \<Rightarrow> manager \<Rightarrow> manager option" where
  "removeFreeBlock bid m = do {
     b \<leftarrow> block_at bid m;
     if \<not> blk_InFreeQueue b then Some m
     else do {
       m1 \<leftarrow> (if 0 \<le>s blk_PrevFree b
              then block_upd (blk_PrevFree b) (\<lambda>p. p\<lparr>blk_NextFree := blk_NextFree b\<rparr>) m
              else Some (m\<lparr>m_freeHead := blk_NextFree b\<rparr>));
       b1 \<leftarrow> block_at bid m1;
       m2 \<leftarrow> (if 0 \<le>s blk_NextFree b1
              then block_upd (blk_NextFree b1) (\<lambda>p. p\<lparr>blk_PrevFree := blk_PrevFree b1\<rparr>) m1
              else Some (m1\<lparr>m_freeTail := blk_PrevFree b1\<rparr>));
       m3 \<leftarrow> block_upd bid (\<lambda>b. b\<lparr>blk_InFreeQueue := False, blk_NextFree := - 1,
                blk_PrevFree := - 1\<rparr>) m2;
       Some (m3\<lparr>m_freeCount := m_freeCount m3 - 1\<rparr>)
     }
   }"

lemmas block_access_defs = block_at_def block_upd_def

subsection \<open>Doubly linked segments\<close>

text \<open>
  \<open>dlseg P N p c xs n l\<close>: starting at the link \<open>c\<close>, whose predecessor is \<open>p\<close>, the successor
  links \<open>N\<close> run through \<open>xs\<close> and end at \<open>n\<close>; the predecessor links \<open>P\<close> run back and the last
  node is \<open>l\<close> (\<open>p\<close> when \<open>xs\<close> is empty).
\<close>

fun dlseg :: "(u32 \<Rightarrow> i32) \<Rightarrow> (u32 \<Rightarrow> i32) \<Rightarrow> i32 \<Rightarrow> i32 \<Rightarrow> u32 list \<Rightarrow> i32 \<Rightarrow> i32 \<Rightarrow> bool" where
  "dlseg P N p c [] n l \<longleftrightarrow> c = n \<and> l = p"
| "dlseg P N p c (x # xs) n l \<longleftrightarrow> c = x \<and> P x = p \<and> dlseg P N x (N x) xs n l"

lemma dlseg_append:
  "dlseg P N p c (xs @ ys) n l \<longleftrightarrow> (\<exists>c' l'. dlseg P N p c xs c' l' \<and> dlseg P N l' c' ys n l)"
  by (induction xs arbitrary: p c) auto

lemma dlseg_cong:
  assumes "\<And>x. x \<in> set xs \<Longrightarrow> P x = P' x" and "\<And>x. x \<in> set xs \<Longrightarrow> N x = N' x"
  shows "dlseg P N p c xs n l \<longleftrightarrow> dlseg P' N' p c xs n l"
  using assms by (induction xs arbitrary: p c) auto

text \<open>The first predecessor link and the last successor link can be redirected.\<close>

lemma dlseg_change_first:
  assumes "dlseg P N p x (x # xs) n l" and "\<And>y. y \<in> set xs \<Longrightarrow> P' y = P y" and "P' x = p'"
  shows "dlseg P' N p' x (x # xs) n l"
  using assms dlseg_cong [of xs P' P N N] by auto

lemma dlseg_change_last:
  assumes "dlseg P N p c (xs @ [x]) n l" and "\<And>y. y \<in> set xs \<Longrightarrow> N' y = N y" and "N' x = n'"
  shows "dlseg P N' p c (xs @ [x]) n' l"
  using assms dlseg_cong [of xs P P N' N] by (auto simp: dlseg_append)

lemma dlseg_last: "dlseg P N p c (xs @ [x]) n l \<Longrightarrow> l = x \<and> N x = n"
  by (auto simp: dlseg_append)

text \<open>Cutting one node out of a segment.\<close>

lemma dlseg_cut:
  assumes seg: "dlseg P N p c (as @ x # cs) n l" and d: "distinct (as @ x # cs)"
    and P': "\<And>z. z \<in> set (as @ cs) \<Longrightarrow> P' z = (if cs \<noteq> [] \<and> z = N x then P x else P z)"
    and N': "\<And>z. z \<in> set (as @ cs) \<Longrightarrow> N' z = (if as \<noteq> [] \<and> z = P x then N x else N z)"
  shows "dlseg P' N' p (if as = [] then N x else c) (as @ cs) n (if cs = [] then P x else l)"
proof -
  obtain q where as: "dlseg P N p c as x q" and q: "P x = q" and cs: "dlseg P N x (N x) cs n l"
    using seg by (auto simp: dlseg_append)
  have "dlseg P' N' p (if as = [] then N x else c) as (N x) q"
  proof (cases as rule: rev_cases)
    case Nil
    with as show ?thesis by simp
  next
    case (snoc bs y)
    then have y: "q = y" "y \<notin> set bs"
      using as d by (auto dest: dlseg_last)
    have hd: "cs \<noteq> [] \<Longrightarrow> N x \<in> set cs"
      using cs by (cases cs) auto
    have "dlseg P N' p c (bs @ [y]) (N x) q"
      by (rule dlseg_change_last [of P N _ _ _ _ x]) (use as snoc y q N' in auto)
    moreover have "dlseg P' N' p c as (N x) q \<longleftrightarrow> dlseg P N' p c as (N x) q"
      by (rule dlseg_cong) (use P' d hd in auto)
    ultimately show ?thesis using snoc by simp
  qed
  moreover have "dlseg P' N' q (N x) cs n (if cs = [] then P x else l)"
  proof (cases cs)
    case Nil
    with cs q show ?thesis by simp
  next
    case (Cons y ys)
    have lst: "as \<noteq> [] \<Longrightarrow> q \<in> set as"
      using as dlseg_last [of P N p c "butlast as" "last as" x q] by (metis append_butlast_last_id last_in_set)
    have "dlseg P' N' y (N y) ys n l \<longleftrightarrow> dlseg P N y (N y) ys n l"
      by (rule dlseg_cong) (use P' N' d cs Cons lst q in auto)
    moreover have "N' y = N y" "P' y = q"
      using P' N' cs Cons d lst q by auto
    ultimately show ?thesis using cs Cons by simp
  qed
  ultimately show ?thesis
    unfolding dlseg_append by blast
qed

subsection \<open>The list a manager's free queue represents\<close>

definition prv :: "manager \<Rightarrow> u32 \<Rightarrow> i32" where
  "prv m i = blk_PrevFree (m_blocks m ! unat i)"

definition nxt :: "manager \<Rightarrow> u32 \<Rightarrow> i32" where
  "nxt m i = blk_NextFree (m_blocks m ! unat i)"

text \<open>
  The queue represents \<open>fl\<close>: the links thread it, exactly the blocks marked \<^verbatim>\<open>InFreeQueue\<close> are
  on it, and the counter is its length.  At most \<open>2 ^ 31\<close> blocks, so that every block index is a
  non-negative \<^verbatim>\<open>int32\<close>.
\<close>

definition free_ok :: "manager \<Rightarrow> u32 list \<Rightarrow> bool" where
  "free_ok m fl \<longleftrightarrow>
     dlseg (prv m) (nxt m) (- 1) (m_freeHead m) fl (- 1) (m_freeTail m) \<and>
     distinct fl \<and>
     (\<forall>i. i \<in> set fl \<longleftrightarrow> unat i < length (m_blocks m) \<and> blk_InFreeQueue (m_blocks m ! unat i)) \<and>
     unat (m_freeCount m) = length fl \<and>
     length (m_blocks m) \<le> 2 ^ 31"

text \<open>A block without its links, and the parts of the manager the free queue does not touch.\<close>

definition unlink :: "Block \<Rightarrow> Block" where
  "unlink b = b\<lparr>blk_PrevFree := 0, blk_NextFree := 0\<rparr>"

definition cores :: "manager \<Rightarrow> Block list" where
  "cores m = map unlink (m_blocks m)"

definition rest :: "manager \<Rightarrow> manager" where
  "rest m = m\<lparr>m_blocks := [], m_freeHead := 0, m_freeTail := 0, m_freeCount := 0\<rparr>"

lemma unlink_simps [simp]:
  "blk_Hash (unlink b) = blk_Hash b" "blk_RefCount (unlink b) = blk_RefCount b"
  "blk_TokenCount (unlink b) = blk_TokenCount b" "blk_Cached (unlink b) = blk_Cached b"
  "blk_InFreeQueue (unlink b) = blk_InFreeQueue b"
  by (simp_all add: unlink_def)

lemma unlink_updates [simp]:
  "unlink (b\<lparr>blk_Hash := h\<rparr>) = (unlink b)\<lparr>blk_Hash := h\<rparr>"
  "unlink (b\<lparr>blk_RefCount := r\<rparr>) = (unlink b)\<lparr>blk_RefCount := r\<rparr>"
  "unlink (b\<lparr>blk_TokenCount := t\<rparr>) = (unlink b)\<lparr>blk_TokenCount := t\<rparr>"
  "unlink (b\<lparr>blk_Cached := c\<rparr>) = (unlink b)\<lparr>blk_Cached := c\<rparr>"
  "unlink (b\<lparr>blk_InFreeQueue := q\<rparr>) = (unlink b)\<lparr>blk_InFreeQueue := q\<rparr>"
  "unlink (b\<lparr>blk_PrevFree := p\<rparr>) = unlink b"
  "unlink (b\<lparr>blk_NextFree := p\<rparr>) = unlink b"
  by (simp_all add: unlink_def)

lemma length_cores [simp]: "length (cores m) = length (m_blocks m)"
  by (simp add: cores_def)

lemma cores_nth [simp]: "i < length (m_blocks m) \<Longrightarrow> cores m ! i = unlink (m_blocks m ! i)"
  by (simp add: cores_def)

lemma rest_fields:
  assumes "rest m' = rest m"
  shows "m_executorID m' = m_executorID m" "m_blockSize m' = m_blockSize m"
    "m_requestBlocks m' = m_requestBlocks m" "m_cachedBlocks m' = m_cachedBlocks m"
    "m_pendingAllocations m' = m_pendingAllocations m" "m_metrics m' = m_metrics m"
  using arg_cong [OF assms, of m_executorID] arg_cong [OF assms, of m_blockSize]
    arg_cong [OF assms, of m_requestBlocks] arg_cong [OF assms, of m_cachedBlocks]
    arg_cong [OF assms, of m_pendingAllocations] arg_cong [OF assms, of m_metrics]
  by (simp_all add: rest_def)

lemma block_at_Some [panic_simps]: "unat i < length (m_blocks m) \<Longrightarrow> block_at i m = Some (m_blocks m ! unat i)"
  by (simp add: block_at_def)

lemma block_upd_Some [panic_simps]:
  "unat i < length (m_blocks m) \<Longrightarrow>
   block_upd i f m = Some (m\<lparr>m_blocks := (m_blocks m)[unat i := f (m_blocks m ! unat i)]\<rparr>)"
  by (simp add: block_upd_def)

lemma nth_upd_u32 [simp]:
  "unat (i :: u32) < length xs \<Longrightarrow> xs[unat i := v] ! unat j = (if j = i then v else xs ! unat j)"
  by (auto simp: nth_list_update unat_inj_u32)

lemma free_okD:
  assumes "free_ok m fl"
  shows "x \<in> set fl \<Longrightarrow> unat x < length (m_blocks m)"
    "x \<in> set fl \<Longrightarrow> blk_InFreeQueue (m_blocks m ! unat x)"
    "unat x < length (m_blocks m) \<Longrightarrow> 0 \<le>s x"
  using assms by (auto simp: free_ok_def nonneg_i32_iff)

lemma free_ok_length: "free_ok m fl \<Longrightarrow> length fl \<le> length (m_blocks m)"
  by (rule distinct_set_length_le) (auto simp: free_ok_def)

lemma m_freeCount_zero: "free_ok m fl \<Longrightarrow> m_freeCount m = 0 \<longleftrightarrow> fl = []"
  by (simp add: free_ok_def flip: unat_eq_zero)

text \<open>Writes that keep a block's links and its queue mark leave the represented list alone.\<close>

lemma free_ok_block_upd:
  assumes "free_ok m fl" and "unat i < length (m_blocks m)"
    and "blk_PrevFree b = prv m i" "blk_NextFree b = nxt m i"
    and "blk_InFreeQueue b = blk_InFreeQueue (m_blocks m ! unat i)"
  shows "free_ok (m\<lparr>m_blocks := (m_blocks m)[unat i := b]\<rparr>) fl"
proof -
  let ?m' = "m\<lparr>m_blocks := (m_blocks m)[unat i := b]\<rparr>"
  have "prv ?m' = prv m" "nxt ?m' = nxt m"
    using assms(2,3,4) by (auto simp: prv_def nxt_def fun_eq_iff)
  then show ?thesis
    using assms by (auto simp: free_ok_def)
qed

lemma free_ok_other_fields:
  assumes "m_blocks m' = m_blocks m" "m_freeHead m' = m_freeHead m" "m_freeTail m' = m_freeTail m"
    "m_freeCount m' = m_freeCount m"
  shows "free_ok m' fl \<longleftrightarrow> free_ok m fl"
proof -
  have "prv m' = prv m" "nxt m' = nxt m"
    using assms by (auto simp: prv_def nxt_def fun_eq_iff)
  then show ?thesis using assms by (simp add: free_ok_def)
qed

subsection \<open>The operations implement the list operations\<close>

text \<open>The contents a block has when it is handed out.\<close>

definition fresh_core :: Block where
  "fresh_core = \<lparr>blk_Hash = [], blk_RefCount = 1, blk_TokenCount = 0, blk_Cached = False,
     blk_InFreeQueue = False, blk_PrevFree = 0, blk_NextFree = 0\<rparr>"

text \<open>The prefix-cache entry a popped block gives up.\<close>

definition evict :: "Block \<Rightarrow> manager \<Rightarrow> manager" where
  "evict b m = (if blk_Cached b
     then m\<lparr>m_cachedBlocks := fmdrop (blk_Hash b) (m_cachedBlocks m),
            m_metrics := IncEvictedBlock (m_metrics m)\<rparr>
     else m)"

lemma popFree_Nil:
  assumes "free_ok m []"
  shows "popFree m = Some ((0, False), m)"
  using assms by (simp add: popFree_def free_ok_def unat_eq_zero)

lemma cores_upd: "map unlink (bs[i := b]) = (map unlink bs)[i := unlink b]"
  by (simp add: map_update)

text \<open>The state after a pop from a queue whose next element is the link \<open>y\<close>.\<close>

definition popped :: "u32 \<Rightarrow> i32 \<Rightarrow> manager \<Rightarrow> manager" where
  "popped x y m =
     (let b = m_blocks m ! unat x;
          bs = (if 0 \<le>s y then (m_blocks m)[unat y := (m_blocks m ! unat y)\<lparr>blk_PrevFree := - 1\<rparr>]
                else m_blocks m)
      in (evict b m)\<lparr>
        m_blocks := bs[unat x := fresh_core\<lparr>blk_PrevFree := - 1, blk_NextFree := - 1\<rparr>],
        m_freeHead := y, m_freeTail := (if 0 \<le>s y then m_freeTail m else - 1),
        m_freeCount := m_freeCount m - 1\<rparr>)"

lemma fresh_core_eq: "b\<lparr>blk_Cached := False, blk_Hash := [], blk_TokenCount := 0, blk_RefCount := 1,
     blk_InFreeQueue := False, blk_PrevFree := p, blk_NextFree := n\<rparr> =
   fresh_core\<lparr>blk_PrevFree := p, blk_NextFree := n\<rparr>"
  by (simp add: fresh_core_def)

lemma fresh_core_eq_uncached: "\<not> blk_Cached b \<Longrightarrow>
   b\<lparr>blk_Hash := [], blk_TokenCount := 0, blk_RefCount := 1,
     blk_InFreeQueue := False, blk_PrevFree := p, blk_NextFree := n\<rparr> =
   fresh_core\<lparr>blk_PrevFree := p, blk_NextFree := n\<rparr>"
  by (simp add: fresh_core_def)

lemma list_update_between: "i \<noteq> j \<Longrightarrow> xs[i := a, j := b, i := c] = xs[j := b, i := c]"
  by (metis list_update_overwrite list_update_swap)

lemma popFree_eq:
  assumes "m_freeHead m = x" "0 \<le>s x" "m_freeCount m \<noteq> 0" "unat x < length (m_blocks m)"
    and "blk_NextFree (m_blocks m ! unat x) = y" "0 \<le>s y \<Longrightarrow> unat y < length (m_blocks m) \<and> y \<noteq> x"
  shows "popFree m = Some ((x, True), popped x y m)"
proof (cases "0 \<le>s y")
  case True
  with assms(6) have y: "y \<noteq> x" "unat y < length (m_blocks m)" "unat x \<noteq> unat y"
    by (auto simp: unat_inj_u32)
  show ?thesis
    using assms(1-5) True y
    by (cases "blk_Cached (m_blocks m ! unat x)")
      (simp_all add: popFree_def panic_simps popped_def Let_def evict_def signed.not_less
        list_update_between fresh_core_eq fresh_core_eq_uncached)
next
  case False
  then show ?thesis
    using assms(1-5)
    by (cases "blk_Cached (m_blocks m ! unat x)")
      (simp_all add: popFree_def panic_simps popped_def Let_def evict_def signed.not_less
        fresh_core_eq fresh_core_eq_uncached)
qed

lemma evict_frame [simp]:
  "m_blocks (evict b m) = m_blocks m" "m_freeHead (evict b m) = m_freeHead m"
  "m_freeTail (evict b m) = m_freeTail m" "m_freeCount (evict b m) = m_freeCount m"
  "m_requestBlocks (evict b m) = m_requestBlocks m" "m_blockSize (evict b m) = m_blockSize m"
  "m_pendingAllocations (evict b m) = m_pendingAllocations m" "m_executorID (evict b m) = m_executorID m"
  by (simp_all add: evict_def)

lemma popped_links:
  assumes "unat x < length (m_blocks m)" "0 \<le>s y \<Longrightarrow> unat y < length (m_blocks m)" "z \<noteq> x"
  shows "prv (popped x y m) z = (if 0 \<le>s y \<and> z = y then - 1 else prv m z)"
    "nxt (popped x y m) z = nxt m z"
  using assms by (auto simp: prv_def nxt_def popped_def Let_def)

lemma popped_cores:
  assumes "unat x < length (m_blocks m)" "0 \<le>s y \<Longrightarrow> unat y < length (m_blocks m)"
  shows "cores (popped x y m) = (cores m)[unat x := fresh_core]"
  using assms
  by (auto simp: popped_def Let_def cores_def map_update unlink_def fresh_core_def
      intro!: nth_equalityI simp: nth_list_update)

lemma popFree_Cons:
  assumes ok: "free_ok m (x # xs)"
  shows "\<exists>m'. popFree m = Some ((x, True), m') \<and> free_ok m' xs \<and>
     cores m' = (cores m)[unat x := fresh_core] \<and>
     rest m' = rest (evict (m_blocks m ! unat x) m)"
proof -
  let ?y = "nxt m x" and ?m = "popped x (nxt m x) m"
  have head: "m_freeHead m = x" and seg: "dlseg (prv m) (nxt m) x ?y xs (- 1) (m_freeTail m)"
    and xs: "x \<notin> set xs" "distinct xs" and cnt: "unat (m_freeCount m) = Suc (length xs)"
    and x: "unat x < length (m_blocks m)" and nn: "0 \<le>s x"
    using ok free_okD [OF ok] by (auto simp: free_ok_def)
  have "m_freeCount m \<noteq> 0"
    using cnt by auto
  then have c0: "m_freeCount m \<noteq> 0" "unat (m_freeCount m - 1) = length xs"
    using cnt by (simp_all add: unat_pred_u32)
  have y: "unat ?y < length (m_blocks m) \<and> ?y \<noteq> x" if "0 \<le>s ?y"
    using seg that xs(1) free_okD(1) [OF ok] by (cases xs) auto
  have links: "\<And>z. z \<noteq> x \<Longrightarrow> prv ?m z = (if 0 \<le>s ?y \<and> z = ?y then - 1 else prv m z)"
      "\<And>z. z \<noteq> x \<Longrightarrow> nxt ?m z = nxt m z"
    using popped_links [OF x] y by blast+
  have "dlseg (prv ?m) (nxt ?m) (- 1) ?y xs (- 1) (if 0 \<le>s ?y then m_freeTail m else - 1)"
  proof (cases xs)
    case Nil
    with seg show ?thesis by simp
  next
    case (Cons z zs)
    then have "0 \<le>s ?y" "z = ?y"
      using seg free_okD(1,3) [OF ok] by auto
    moreover have zs: "u \<in> set zs \<Longrightarrow> u \<noteq> x \<and> u \<noteq> ?y" for u
      using xs Cons seg by auto
    have "dlseg (prv ?m) (nxt ?m) z (nxt m z) zs (- 1) (m_freeTail m) \<longleftrightarrow>
        dlseg (prv m) (nxt m) z (nxt m z) zs (- 1) (m_freeTail m)"
      by (rule dlseg_cong) (auto simp: links dest: zs)
    ultimately show ?thesis
      using seg Cons xs by (auto simp: links)
  qed
  moreover have "i \<in> set xs \<longleftrightarrow> unat i < length (m_blocks ?m) \<and> blk_InFreeQueue (m_blocks ?m ! unat i)" for i
    using ok xs(1) x y by (auto simp: free_ok_def popped_def Let_def fresh_core_def)
  ultimately have "free_ok ?m xs"
    using ok xs(2) c0 by (simp add: free_ok_def popped_def Let_def)
  moreover have "popFree m = Some ((x, True), ?m)"
    using head nn c0(1) x y by (intro popFree_eq) (auto simp: nxt_def)
  ultimately show ?thesis
    using popped_cores [OF x] y by (auto simp: popped_def Let_def rest_def evict_def)
qed

definition appended :: "u32 \<Rightarrow> manager \<Rightarrow> manager" where
  "appended x m =
     (let b = (m_blocks m ! unat x)\<lparr>blk_RefCount := 0, blk_InFreeQueue := True,
                 blk_PrevFree := m_freeTail m, blk_NextFree := - 1\<rparr>;
          t = m_freeTail m;
          bs = (m_blocks m)[unat x := b]
      in m\<lparr>m_blocks := (if 0 \<le>s t then bs[unat t := (m_blocks m ! unat t)\<lparr>blk_NextFree := x\<rparr>] else bs),
           m_freeHead := (if 0 \<le>s t then m_freeHead m else x),
           m_freeTail := x, m_freeCount := m_freeCount m + 1\<rparr>)"

lemma appendFreeBlock_eq:
  assumes "unat x < length (m_blocks m)"
    and "0 \<le>s m_freeTail m \<longrightarrow> unat (m_freeTail m) < length (m_blocks m) \<and> m_freeTail m \<noteq> x"
  shows "appendFreeBlock x m = Some (appended x m)"
  using assms by (auto simp: appendFreeBlock_def appended_def Let_def panic_simps)

lemma appended_links:
  assumes "unat x < length (m_blocks m)"
    and "0 \<le>s m_freeTail m \<longrightarrow> unat (m_freeTail m) < length (m_blocks m) \<and> m_freeTail m \<noteq> x"
  shows "prv (appended x m) z = (if z = x then m_freeTail m else prv m z)"
    "nxt (appended x m) z = (if z = x then - 1 else if 0 \<le>s m_freeTail m \<and> z = m_freeTail m then x else nxt m z)"
  using assms by (auto simp: prv_def nxt_def appended_def Let_def)

lemma appendFreeBlock_ok:
  assumes ok: "free_ok m fl" and x: "unat x < length (m_blocks m)" "x \<notin> set fl"
  shows "\<exists>m'. appendFreeBlock x m = Some m' \<and> free_ok m' (fl @ [x]) \<and>
     cores m' = (cores m)[unat x := (cores m ! unat x)\<lparr>blk_RefCount := 0, blk_InFreeQueue := True\<rparr>] \<and>
     rest m' = rest m"
proof -
  let ?t = "m_freeTail m" and ?m = "appended x m"
  have seg: "dlseg (prv m) (nxt m) (- 1) (m_freeHead m) fl (- 1) ?t"
    and cnt: "unat (m_freeCount m) = length fl" and len: "length (m_blocks m) \<le> 2 ^ 31"
    using ok by (auto simp: free_ok_def)
  have t: "if fl = [] then ?t = - 1 \<and> m_freeHead m = - 1 else ?t = last fl"
    using seg dlseg_last [of "prv m" "nxt m" "- 1" "m_freeHead m" "butlast fl" "last fl" "- 1" ?t] by auto
  have tr: "0 \<le>s ?t \<longrightarrow> unat ?t < length (m_blocks m) \<and> ?t \<noteq> x"
    using t free_okD(1) [OF ok, of "last fl"] x(2) by (auto split: if_splits)
  note links = appended_links [OF x(1) tr]
  have "dlseg (prv ?m) (nxt ?m) (- 1) (if 0 \<le>s ?t then m_freeHead m else x) (fl @ [x]) (- 1) x"
  proof (cases "fl = []")
    case True
    with t show ?thesis
      by (simp add: links)
  next
    case False
    then have last: "fl = butlast fl @ [?t]" and nn: "0 \<le>s ?t"
      using t free_okD(1,3) [OF ok] by (auto simp: append_butlast_last_id)
    then have d: "?t \<notin> set (butlast fl)"
      using ok by (metis distinct_butlast free_ok_def not_distinct_conv_prefix)
    have "dlseg (prv m) (nxt m) (- 1) (m_freeHead m) (butlast fl @ [?t]) (- 1) ?t"
      using seg last by simp
    then have "dlseg (prv m) (nxt ?m) (- 1) (m_freeHead m) (butlast fl @ [?t]) x ?t"
      by (rule dlseg_change_last) (use d nn x(2) in_set_butlastD tr in \<open>fastforce simp: links\<close>)+
    moreover have "dlseg (prv ?m) (nxt ?m) (- 1) (m_freeHead m) fl x ?t \<longleftrightarrow>
        dlseg (prv m) (nxt ?m) (- 1) (m_freeHead m) fl x ?t"
      by (rule dlseg_cong) (use x in \<open>auto simp: links\<close>)
    ultimately show ?thesis
      using last nn by (simp add: dlseg_append links)
  qed
  moreover have "i \<in> set (fl @ [x]) \<longleftrightarrow>
      unat i < length (m_blocks ?m) \<and> blk_InFreeQueue (m_blocks ?m ! unat i)" for i
    using ok x tr by (auto simp: free_ok_def appended_def Let_def)
  moreover have "unat (m_freeCount m + 1) = length fl + 1"
    using cnt len free_ok_length [OF ok] by (simp add: unat_add_u32)
  ultimately have "free_ok ?m (fl @ [x])"
    using ok x(2) by (simp add: free_ok_def appended_def Let_def)
  moreover have "cores ?m = (cores m)[unat x := (cores m ! unat x)\<lparr>blk_RefCount := 0, blk_InFreeQueue := True\<rparr>]"
    using x(1) tr by (auto simp: appended_def Let_def cores_def map_update unlink_def
        intro!: nth_equalityI simp: nth_list_update unat_inj_u32)
  ultimately show ?thesis
    using appendFreeBlock_eq [OF x(1) tr] by (auto simp: appended_def Let_def rest_def)
qed

definition removed :: "u32 \<Rightarrow> manager \<Rightarrow> manager" where
  "removed x m =
     (let b = m_blocks m ! unat x; p = blk_PrevFree b; n = blk_NextFree b;
          bs1 = (if 0 \<le>s p then (m_blocks m)[unat p := (m_blocks m ! unat p)\<lparr>blk_NextFree := n\<rparr>]
                 else m_blocks m);
          bs2 = (if 0 \<le>s n then bs1[unat n := (m_blocks m ! unat n)\<lparr>blk_PrevFree := p\<rparr>] else bs1)
      in m\<lparr>m_blocks := bs2[unat x := b\<lparr>blk_InFreeQueue := False, blk_NextFree := - 1, blk_PrevFree := - 1\<rparr>],
           m_freeHead := (if 0 \<le>s p then m_freeHead m else n),
           m_freeTail := (if 0 \<le>s n then m_freeTail m else p),
           m_freeCount := m_freeCount m - 1\<rparr>)"

lemma removeFreeBlock_eq:
  assumes "unat x < length (m_blocks m)" "blk_InFreeQueue (m_blocks m ! unat x)"
    and "0 \<le>s prv m x \<longrightarrow> unat (prv m x) < length (m_blocks m) \<and> prv m x \<noteq> x"
    and "0 \<le>s nxt m x \<longrightarrow> unat (nxt m x) < length (m_blocks m) \<and> nxt m x \<noteq> x \<and> nxt m x \<noteq> prv m x"
  shows "removeFreeBlock x m = Some (removed x m)"
  using assms
  by (auto simp: removeFreeBlock_def removed_def Let_def panic_simps prv_def nxt_def)

lemma removed_links:
  assumes "unat x < length (m_blocks m)"
    and "0 \<le>s prv m x \<longrightarrow> unat (prv m x) < length (m_blocks m) \<and> prv m x \<noteq> x"
    and "0 \<le>s nxt m x \<longrightarrow> unat (nxt m x) < length (m_blocks m) \<and> nxt m x \<noteq> x \<and> nxt m x \<noteq> prv m x"
    and "z \<noteq> x"
  shows "prv (removed x m) z = (if 0 \<le>s nxt m x \<and> z = nxt m x then prv m x else prv m z)"
    "nxt (removed x m) z = (if 0 \<le>s prv m x \<and> z = prv m x then nxt m x else nxt m z)"
  using assms by (auto simp: prv_def nxt_def removed_def Let_def)

lemma removed_cores:
  assumes "unat x < length (m_blocks m)"
    and "0 \<le>s prv m x \<longrightarrow> unat (prv m x) < length (m_blocks m) \<and> prv m x \<noteq> x"
    and "0 \<le>s nxt m x \<longrightarrow> unat (nxt m x) < length (m_blocks m) \<and> nxt m x \<noteq> x \<and> nxt m x \<noteq> prv m x"
  shows "cores (removed x m) = (cores m)[unat x := (cores m ! unat x)\<lparr>blk_InFreeQueue := False\<rparr>]"
  using assms
  by (auto simp: removed_def Let_def cores_def map_update unlink_def prv_def nxt_def
      intro!: nth_equalityI simp: nth_list_update unat_inj_u32)

lemma removeFreeBlock_ok:
  assumes ok: "free_ok m (as @ x # cs)"
  shows "\<exists>m'. removeFreeBlock x m = Some m' \<and> free_ok m' (as @ cs) \<and>
     cores m' = (cores m)[unat x := (cores m ! unat x)\<lparr>blk_InFreeQueue := False\<rparr>] \<and>
     rest m' = rest m"
proof -
  let ?m = "removed x m"
  have seg: "dlseg (prv m) (nxt m) (- 1) (m_freeHead m) (as @ x # cs) (- 1) (m_freeTail m)"
    and d: "distinct (as @ x # cs)" and cnt: "unat (m_freeCount m) = Suc (length (as @ cs))"
    and inq: "unat x < length (m_blocks m)" "blk_InFreeQueue (m_blocks m ! unat x)"
    using ok free_okD [OF ok, of x] by (auto simp: free_ok_def)
  obtain q where q: "dlseg (prv m) (nxt m) (- 1) (m_freeHead m) as x q" "prv m x = q"
    and r: "dlseg (prv m) (nxt m) x (nxt m x) cs (- 1) (m_freeTail m)"
    using seg by (auto simp: dlseg_append)
  have p: "if as = [] then prv m x = - 1 else prv m x = last as"
    using q dlseg_last [of "prv m" "nxt m" "- 1" "m_freeHead m" "butlast as" "last as" x q] by auto
  have n: "if cs = [] then nxt m x = - 1 else nxt m x = hd cs"
    using r by (cases cs) auto
  have rng: "\<And>y. y \<in> set (as @ cs) \<Longrightarrow> unat y < length (m_blocks m) \<and> 0 \<le>s y"
    using free_okD(1,3) [OF ok] by auto
  have pn: "0 \<le>s prv m x \<longleftrightarrow> as \<noteq> []" "0 \<le>s nxt m x \<longleftrightarrow> cs \<noteq> []"
    using p n rng [of "last as"] rng [of "hd cs"] by (auto split: if_splits)
  have c1: "0 \<le>s prv m x \<longrightarrow> unat (prv m x) < length (m_blocks m) \<and> prv m x \<noteq> x"
    using p pn rng [of "last as"] d last_in_set [of as] by auto
  have "hd cs \<noteq> last as" if "as \<noteq> []" "cs \<noteq> []"
    using d hd_in_set [OF that(2)] last_in_set [OF that(1)] by auto
  then have c2: "0 \<le>s nxt m x \<longrightarrow> unat (nxt m x) < length (m_blocks m) \<and> nxt m x \<noteq> x \<and> nxt m x \<noteq> prv m x"
    using n p pn rng [of "hd cs"] d hd_in_set [of cs] by (auto split: if_splits)
  note links = removed_links [OF inq(1) c1 c2]
  have zx: "\<And>z. z \<in> set (as @ cs) \<Longrightarrow> z \<noteq> x"
    using d by auto
  have "dlseg (prv ?m) (nxt ?m) (- 1) (if as = [] then nxt m x else m_freeHead m) (as @ cs) (- 1)
          (if cs = [] then prv m x else m_freeTail m)"
    by (rule dlseg_cut [OF seg d]) (simp_all add: links zx pn)
  moreover have "i \<in> set (as @ cs) \<longleftrightarrow>
      unat i < length (m_blocks ?m) \<and> blk_InFreeQueue (m_blocks ?m ! unat i)" for i
    using ok inq c1 c2 d
    by (auto simp: free_ok_def removed_def Let_def simp flip: prv_def nxt_def)
  moreover have "m_freeCount m \<noteq> 0"
    using cnt by auto
  then have "unat (m_freeCount m - 1) = length (as @ cs)"
    using cnt by (simp add: unat_pred_u32)
  ultimately have "free_ok ?m (as @ cs)"
    using ok d pn by (auto simp: free_ok_def removed_def Let_def simp flip: prv_def nxt_def)
  then show ?thesis
    using removeFreeBlock_eq [OF inq c1 c2] removed_cores [OF inq(1) c1 c2]
    by (auto simp: removed_def Let_def rest_def)
qed

text \<open>
  \<^verbatim>\<open>pushFree\<close> drops one reference; the block joins the tail of the queue when it was the last one.
  Dropping a reference of a block nobody references does nothing.
\<close>

lemma pushFree_last:
  assumes "free_ok m fl" "unat x < length (m_blocks m)" "x \<notin> set fl" "blk_RefCount (m_blocks m ! unat x) = 1"
  shows "\<exists>m'. pushFree x m = Some m' \<and> free_ok m' (fl @ [x]) \<and>
     cores m' = (cores m)[unat x := (cores m ! unat x)\<lparr>blk_RefCount := 0, blk_InFreeQueue := True\<rparr>] \<and>
     rest m' = rest m"
proof -
  let ?m1 = "m\<lparr>m_blocks := (m_blocks m)[unat x := (m_blocks m ! unat x)\<lparr>blk_RefCount := 0\<rparr>]\<rparr>"
  have "free_ok ?m1 fl"
    using assms(1,2) by (intro free_ok_block_upd) (auto simp: prv_def nxt_def)
  then obtain m' where "appendFreeBlock x ?m1 = Some m'" "free_ok m' (fl @ [x])"
    "cores m' = (cores ?m1)[unat x := (cores ?m1 ! unat x)\<lparr>blk_RefCount := 0, blk_InFreeQueue := True\<rparr>]"
    "rest m' = rest ?m1"
    using appendFreeBlock_ok [of ?m1 fl x] assms(2,3) by auto
  then show ?thesis
    using assms(2,4) by (auto simp: pushFree_def panic_simps rest_def cores_def map_update)
qed

lemma pushFree_more:
  assumes "free_ok m fl" "unat x < length (m_blocks m)" "1 < blk_RefCount (m_blocks m ! unat x)"
  shows "\<exists>m'. pushFree x m = Some m' \<and> free_ok m' fl \<and>
     cores m' = (cores m)[unat x := (cores m ! unat x)\<lparr>blk_RefCount := blk_RefCount (cores m ! unat x) - 1\<rparr>] \<and>
     rest m' = rest m"
proof -
  let ?r = "blk_RefCount (m_blocks m ! unat x)"
  have r: "?r \<noteq> 0" "?r - 1 \<noteq> 0"
    using assms(3) by auto
  let ?m1 = "m\<lparr>m_blocks := (m_blocks m)[unat x := (m_blocks m ! unat x)\<lparr>blk_RefCount := ?r - 1\<rparr>]\<rparr>"
  have "free_ok ?m1 fl"
    using assms(1,2) by (intro free_ok_block_upd) (auto simp: prv_def nxt_def)
  moreover have "pushFree x m = Some ?m1"
    using assms(2) r by (simp add: pushFree_def panic_simps word_neq_0_conv [symmetric])
  ultimately show ?thesis
    using assms(2) by (auto simp: rest_def cores_def map_update)
qed

lemma pushFree_unreferenced:
  assumes "unat x < length (m_blocks m)" "blk_RefCount (m_blocks m ! unat x) = 0"
  shows "pushFree x m = Some m"
  using assms by (simp add: pushFree_def panic_simps)

subsection \<open>Walking the queue\<close>

fun free_walk :: "nat \<Rightarrow> i32 \<Rightarrow> manager \<Rightarrow> u32 list" where
  "free_walk 0 c m = []"
| "free_walk (Suc n) c m = (if 0 \<le>s c then c # free_walk n (nxt m c) m else [])"

text \<open>Following the successor links from the head for \<^verbatim>\<open>freeCount\<close> steps.\<close>

definition free_ids :: "manager \<Rightarrow> u32 list" where
  "free_ids m = free_walk (unat (m_freeCount m)) (m_freeHead m) m"

definition free_wf :: "manager \<Rightarrow> bool" where
  "free_wf m \<longleftrightarrow> free_ok m (free_ids m)"

lemma free_walk_dlseg:
  "dlseg P (nxt m) p c xs n l \<Longrightarrow> \<forall>x \<in> set xs. 0 \<le>s x \<Longrightarrow> free_walk (length xs) c m = xs"
  by (induction xs arbitrary: p c) auto

lemma free_ok_ids: "free_ok m fl \<Longrightarrow> free_ids m = fl"
proof -
  assume ok: "free_ok m fl"
  then have "free_walk (length fl) (m_freeHead m) m = fl"
    using free_okD(1,3) [OF ok] by (intro free_walk_dlseg) (auto simp: free_ok_def)
  then show ?thesis
    using ok by (simp add: free_ids_def free_ok_def)
qed

lemma free_ok_wf: "free_ok m fl \<Longrightarrow> free_wf m"
  using free_ok_ids [of m fl] by (simp add: free_wf_def)

subsection \<open>The free queue as an interface\<close>

text \<open>
  What the allocator relies on: a queue of distinct identifiers out of a fixed set, served in
  order, from which any element can be withdrawn.
\<close>

primrec pops :: "('m \<Rightarrow> ((u32 \<times> bool) \<times> 'm) option) \<Rightarrow> nat \<Rightarrow> 'm \<Rightarrow> (u32 list \<times> 'm) option" where
  "pops pop 0 m = Some ([], m)"
| "pops pop (Suc n) m = do {
     ((x, ok), m1) \<leftarrow> pop m;
     if ok then do { (xs, m2) \<leftarrow> pops pop n m1; Some (x # xs, m2) } else None
   }"

locale free_queue =
  fixes pop :: "'m \<Rightarrow> ((u32 \<times> bool) \<times> 'm) option"
    and append :: "u32 \<Rightarrow> 'm \<Rightarrow> 'm option"
    and remove :: "u32 \<Rightarrow> 'm \<Rightarrow> 'm option"
    and queued :: "'m \<Rightarrow> u32 list"
    and valid :: "'m \<Rightarrow> bool"
    and known :: "'m \<Rightarrow> u32 set"
  assumes pop_empty: "valid m \<Longrightarrow> queued m = [] \<Longrightarrow> pop m = Some ((0, False), m)"
    and pop_head: "valid m \<Longrightarrow> queued m = x # xs \<Longrightarrow>
      \<exists>m'. pop m = Some ((x, True), m') \<and> valid m' \<and> queued m' = xs \<and> known m' = known m"
    and append_tail: "valid m \<Longrightarrow> x \<in> known m \<Longrightarrow> x \<notin> set (queued m) \<Longrightarrow>
      \<exists>m'. append x m = Some m' \<and> valid m' \<and> queued m' = queued m @ [x] \<and> known m' = known m"
    and remove_any: "valid m \<Longrightarrow> x \<in> set (queued m) \<Longrightarrow>
      \<exists>m'. remove x m = Some m' \<and> valid m' \<and> queued m' = remove1 x (queued m) \<and> known m' = known m"
    and queued_known: "valid m \<Longrightarrow> set (queued m) \<subseteq> known m"
    and queued_distinct: "valid m \<Longrightarrow> distinct (queued m)"
begin

lemma pops_take:
  "valid m \<Longrightarrow> n \<le> length (queued m) \<Longrightarrow>
   \<exists>m'. pops pop n m = Some (take n (queued m), m') \<and> valid m' \<and>
        queued m' = drop n (queued m) \<and> known m' = known m"
proof (induction n arbitrary: m)
  case 0
  then show ?case by simp
next
  case (Suc n)
  then obtain x xs where q: "queued m = x # xs" and n: "n \<le> length xs"
    by (cases "queued m") auto
  obtain m1 where "pop m = Some ((x, True), m1)" "valid m1" "queued m1 = xs" "known m1 = known m"
    using pop_head [OF Suc.prems(1) q] by blast
  with Suc.IH [of m1] n q show ?case by auto
qed

text \<open>A returned element is served after everything that was queued before it.\<close>

lemma append_served_last:
  assumes "valid m" "x \<in> known m" "x \<notin> set (queued m)"
  shows "\<exists>m1 m2. append x m = Some m1 \<and> pops pop (Suc (length (queued m))) m1 = Some (queued m @ [x], m2)"
proof -
  obtain m1 where "append x m = Some m1" "valid m1" "queued m1 = queued m @ [x]"
    using append_tail [OF assms] by blast
  then show ?thesis
    using pops_take [of m1 "Suc (length (queued m))"] by auto
qed

text \<open>A withdrawn element is not served, and the others keep their order.\<close>

lemma remove_not_served:
  assumes "valid m" "x \<in> set (queued m)"
  shows "\<exists>m1 m2. remove x m = Some m1 \<and>
     pops pop (length (queued m) - 1) m1 = Some (filter (\<lambda>y. y \<noteq> x) (queued m), m2)"
proof -
  obtain m1 where m1: "remove x m = Some m1" "valid m1" "queued m1 = remove1 x (queued m)"
    using remove_any [OF assms] by blast
  moreover have "remove1 x (queued m) = filter (\<lambda>y. y \<noteq> x) (queued m)"
    using queued_distinct [OF assms(1)] by (simp add: distinct_remove1_removeAll removeAll_filter_not_eq neq_commute)
  moreover have "length (queued m1) = length (queued m) - 1"
    using m1(3) assms(2) by (simp add: length_remove1)
  ultimately show ?thesis
    using pops_take [of m1 "length (queued m) - 1"] by auto
qed

end

definition block_ids :: "manager \<Rightarrow> u32 set" where
  "block_ids m = {i. unat i < length (m_blocks m)}"

lemma cores_length_eq: "cores m' = (cores m)[i := b] \<Longrightarrow> length (m_blocks m') = length (m_blocks m)"
  by (metis length_cores length_list_update)

lemma block_ids_cores: "cores m' = (cores m)[i := b] \<Longrightarrow> block_ids m' = block_ids m"
  by (simp add: block_ids_def cores_length_eq)

interpretation fq: free_queue popFree appendFreeBlock removeFreeBlock free_ids free_wf block_ids
proof unfold_locales
  fix m assume "free_wf m" "free_ids m = []"
  then show "popFree m = Some ((0, False), m)"
    by (simp add: free_wf_def popFree_Nil)
next
  fix m x xs assume "free_wf m" "free_ids m = x # xs"
  then show "\<exists>m'. popFree m = Some ((x, True), m') \<and> free_wf m' \<and> free_ids m' = xs \<and> block_ids m' = block_ids m"
    using popFree_Cons [of m x xs] by (auto simp: free_wf_def free_ok_ids block_ids_cores)
next
  fix m x assume "free_wf m" "x \<in> block_ids m" "x \<notin> set (free_ids m)"
  then show "\<exists>m'. appendFreeBlock x m = Some m' \<and> free_wf m' \<and> free_ids m' = free_ids m @ [x] \<and>
      block_ids m' = block_ids m"
    using appendFreeBlock_ok [of m "free_ids m" x] block_ids_cores
    by (metis (no_types, lifting) block_ids_def free_ok_ids free_wf_def mem_Collect_eq)
next
  fix m x assume w: "free_wf m" and "x \<in> set (free_ids m)"
  then obtain as cs where s: "free_ids m = as @ x # cs" "x \<notin> set as"
    by (meson split_list_first)
  then have "free_ok m (as @ x # cs)" and "remove1 x (free_ids m) = as @ cs"
    using w by (simp_all add: free_wf_def remove1_append)
  then show "\<exists>m'. removeFreeBlock x m = Some m' \<and> free_wf m' \<and> free_ids m' = remove1 x (free_ids m) \<and>
      block_ids m' = block_ids m"
    using removeFreeBlock_ok [of m as x cs] block_ids_cores free_ok_wf free_ok_ids by metis
next
  fix m assume w: "free_wf m"
  then show "set (free_ids m) \<subseteq> block_ids m"
    using free_okD(1) [of m "free_ids m"] by (auto simp: free_wf_def block_ids_def)
  show "distinct (free_ids m)"
    using w by (simp add: free_wf_def free_ok_def)
qed

end
