(* ===== verification/Sha256.thy ===== *)
theory Sha256
  imports Kv_Prelude
begin

text \<open>
  The standard-library functions the engine hashes with: \<^verbatim>\<open>crypto/sha256.Sum256\<close> (FIPS 180-4),
  \<^verbatim>\<open>encoding/hex.EncodeToString\<close> and \<^verbatim>\<open>encoding/binary.BigEndian.PutUint32\<close>, on byte lists.
\<close>

unbundle bit_operations_syntax

type_synonym byte = "8 word"

definition bytes_of_string :: "string \<Rightarrow> byte list" where
  "bytes_of_string s = map of_char s"

definition be32 :: "u32 \<Rightarrow> byte list" where
  "be32 w = [ucast (drop_bit 24 w), ucast (drop_bit 16 w), ucast (drop_bit 8 w), ucast w]"

definition of_be32 :: "byte \<Rightarrow> byte \<Rightarrow> byte \<Rightarrow> byte \<Rightarrow> u32" where
  "of_be32 a b c d =
     push_bit 24 (ucast a) OR push_bit 16 (ucast b) OR push_bit 8 (ucast c) OR ucast d"

subsection \<open>Hexadecimal encoding\<close>

definition hex_digit :: "nat \<Rightarrow> char" where
  "hex_digit n = (''0123456789abcdef'' ! n)"

definition hex_byte :: "byte \<Rightarrow> string" where
  "hex_byte b = [hex_digit (unat b div 16), hex_digit (unat b mod 16)]"

definition hex_encode :: "byte list \<Rightarrow> string" where
  "hex_encode bs = concat (map hex_byte bs)"

subsection \<open>SHA-256\<close>

definition sha_K :: "u32 list" where
  "sha_K = [
    1116352408, 1899447441, 3049323471, 3921009573, 961987163, 1508970993, 2453635748, 2870763221,
    3624381080, 310598401, 607225278, 1426881987, 1925078388, 2162078206, 2614888103, 3248222580,
    3835390401, 4022224774, 264347078, 604807628, 770255983, 1249150122, 1555081692, 1996064986,
    2554220882, 2821834349, 2952996808, 3210313671, 3336571891, 3584528711, 113926993, 338241895,
    666307205, 773529912, 1294757372, 1396182291, 1695183700, 1986661051, 2177026350, 2456956037,
    2730485921, 2820302411, 3259730800, 3345764771, 3516065817, 3600352804, 4094571909, 275423344,
    430227734, 506948616, 659060556, 883997877, 958139571, 1322822218, 1537002063, 1747873779,
    1955562222, 2024104815, 2227730452, 2361852424, 2428436474, 2756734187, 3204031479, 3329325298]"

definition sha_H0 :: "u32 list" where
  "sha_H0 = [1779033703, 3144134277, 1013904242, 2773480762, 1359893119, 2600822924, 528734635, 1541459225]"

definition rotr32 :: "nat \<Rightarrow> u32 \<Rightarrow> u32" where
  "rotr32 n w = drop_bit n w OR push_bit (32 - n) w"

definition sha_pad :: "byte list \<Rightarrow> byte list" where
  "sha_pad m =
     (let n = length m; k = (119 - n mod 64) mod 64; bits = (of_nat (8 * n) :: u64)
      in m @ [0x80] @ replicate k 0 @ be32 (ucast (drop_bit 32 bits)) @ be32 (ucast bits))"

fun sha_words :: "byte list \<Rightarrow> u32 list" where
  "sha_words (a # b # c # d # bs) = of_be32 a b c d # sha_words bs"
| "sha_words _ = []"

text \<open>The message schedule, newest word first.\<close>

primrec sha_extend :: "nat \<Rightarrow> u32 list \<Rightarrow> u32 list" where
  "sha_extend 0 ws = ws"
| "sha_extend (Suc n) ws =
     (let w15 = ws ! 14; w2 = ws ! 1;
          s0 = rotr32 7 w15 XOR rotr32 18 w15 XOR drop_bit 3 w15;
          s1 = rotr32 17 w2 XOR rotr32 19 w2 XOR drop_bit 10 w2
      in sha_extend n ((ws ! 15 + s0 + ws ! 6 + s1) # ws))"

type_synonym sha_state = "u32 \<times> u32 \<times> u32 \<times> u32 \<times> u32 \<times> u32 \<times> u32 \<times> u32"

fun sha_round :: "sha_state \<Rightarrow> u32 \<times> u32 \<Rightarrow> sha_state" where
  "sha_round (a, b, c, d, e, f, g, h) (k, w) =
     (let s1 = rotr32 6 e XOR rotr32 11 e XOR rotr32 25 e;
          ch = (e AND f) XOR (NOT e AND g);
          t1 = h + s1 + ch + k + w;
          s0 = rotr32 2 a XOR rotr32 13 a XOR rotr32 22 a;
          maj = (a AND b) XOR (a AND c) XOR (b AND c);
          t2 = s0 + maj
      in (t1 + t2, a, b, c, d + t1, e, f, g))"

fun sha_state_of :: "u32 list \<Rightarrow> sha_state" where
  "sha_state_of [a, b, c, d, e, f, g, h] = (a, b, c, d, e, f, g, h)"
| "sha_state_of _ = (0, 0, 0, 0, 0, 0, 0, 0)"

fun sha_list_of :: "sha_state \<Rightarrow> u32 list" where
  "sha_list_of (a, b, c, d, e, f, g, h) = [a, b, c, d, e, f, g, h]"

definition sha_block :: "u32 list \<Rightarrow> byte list \<Rightarrow> u32 list" where
  "sha_block hs chunk =
     (let ws = rev (sha_extend 48 (rev (sha_words chunk)))
      in map2 (+) hs (sha_list_of (foldl sha_round (sha_state_of hs) (zip sha_K ws))))"

fun sha_blocks :: "nat \<Rightarrow> u32 list \<Rightarrow> byte list \<Rightarrow> u32 list" where
  "sha_blocks 0 hs bs = hs"
| "sha_blocks (Suc n) hs bs = sha_blocks n (sha_block hs (take 64 bs)) (drop 64 bs)"

definition sha256 :: "byte list \<Rightarrow> byte list" where
  "sha256 m = (let p = sha_pad m in concat (map be32 (sha_blocks (length p div 64) sha_H0 p)))"

subsection \<open>Facts\<close>

lemma length_be32 [simp]: "length (be32 w) = 4"
  by (simp add: be32_def)

lemma be32_inj: "be32 v = be32 w \<longleftrightarrow> v = w"
proof
  assume "be32 v = be32 w"
  then have e: "(ucast (drop_bit 24 v) :: byte) = ucast (drop_bit 24 w)"
    "(ucast (drop_bit 16 v) :: byte) = ucast (drop_bit 16 w)"
    "(ucast (drop_bit 8 v) :: byte) = ucast (drop_bit 8 w)" "(ucast v :: byte) = ucast w"
    by (simp_all add: be32_def)
  show "v = w"
  proof (rule bit_word_eqI)
    fix n assume n: "n < LENGTH(32)"
    consider "n < 8" | "8 \<le> n" "n < 16" | "16 \<le> n" "n < 24" | "24 \<le> n" "n < 32"
      using n by fastforce
    then show "bit v n \<longleftrightarrow> bit w n"
    proof cases
      case 1 then show ?thesis using arg_cong [OF e(4), of "\<lambda>b. bit b n"] by (simp add: bit_ucast_iff)
    next
      case 2
      then have "n - 8 < 8" by linarith
      with 2 show ?thesis using arg_cong [OF e(3), of "\<lambda>b. bit b (n - 8)"] by (simp add: bit_ucast_iff bit_drop_bit_eq)
    next
      case 3
      then have "n - 16 < 8" by linarith
      with 3 show ?thesis using arg_cong [OF e(2), of "\<lambda>b. bit b (n - 16)"] by (simp add: bit_ucast_iff bit_drop_bit_eq)
    next
      case 4
      then have "n - 24 < 8" by linarith
      with 4 show ?thesis using arg_cong [OF e(1), of "\<lambda>b. bit b (n - 24)"] by (simp add: bit_ucast_iff bit_drop_bit_eq)
    qed
  qed
qed simp

lemma length_sha_list_of [simp]: "length (sha_list_of st) = 8"
  by (cases st rule: sha_list_of.cases) simp

lemma length_sha_blocks: "length hs = 8 \<Longrightarrow> length (sha_blocks n hs bs) = 8"
  by (induction n hs bs rule: sha_blocks.induct)
    (auto simp: sha_block_def Let_def split: prod.splits)

lemma length_concat_be32: "length (concat (map be32 ws)) = 4 * length ws"
  by (induction ws) auto

lemma length_sha256 [simp]: "length (sha256 m) = 32"
  by (simp add: sha256_def Let_def length_concat_be32 length_sha_blocks sha_H0_def)

lemma concat_be32_inj: "concat (map be32 vs) = concat (map be32 ws) \<longleftrightarrow> vs = ws"
proof (induction vs arbitrary: ws)
  case Nil
  then show ?case by (cases ws) (auto simp: be32_def)
next
  case (Cons v vs)
  then show ?case by (cases ws) (auto simp: be32_inj, simp add: be32_def)
qed

lemma bytes_of_string_inj: "bytes_of_string s = bytes_of_string t \<longleftrightarrow> s = t"
proof -
  have "inj (of_char :: char \<Rightarrow> byte)"
  proof (rule injI)
    fix c d :: char assume "(of_char c :: byte) = of_char d"
    then have "unat (of_nat (of_char c) :: byte) = unat (of_nat (of_char d) :: byte)"
      by (simp add: of_nat_of_char)
    then show "c = d"
      by (simp add: unat_of_nat)
  qed
  then show ?thesis
    by (simp add: bytes_of_string_def inj_map_eq_map)
qed

lemma length_bytes_of_string [simp]: "length (bytes_of_string s) = length s"
  by (simp add: bytes_of_string_def)

lemma hex_digit_inj: "i < 16 \<Longrightarrow> j < 16 \<Longrightarrow> hex_digit i = hex_digit j \<longleftrightarrow> i = j"
  unfolding hex_digit_def by (rule nth_eq_iff_index_eq) simp_all

lemma hex_byte_inj: "hex_byte a = hex_byte b \<longleftrightarrow> a = b"
proof
  assume h: "hex_byte a = hex_byte b"
  have u: "unat c < 256" for c :: byte
  proof -
    have "unat c < 2 ^ LENGTH(8)" by (rule unsigned_less)
    then show ?thesis by simp
  qed
  have "unat a div 16 = unat b div 16" "unat a mod 16 = unat b mod 16"
    using h u [of a] u [of b] by (auto simp: hex_byte_def hex_digit_inj)
  then have "unat a = unat b"
    by (metis div_mult_mod_eq)
  then show "a = b"
    by (simp add: word_unat_eq_iff)
qed simp

lemma hex_encode_inj: "hex_encode as = hex_encode bs \<longleftrightarrow> as = bs"
proof (induction as arbitrary: bs)
  case Nil
  then show ?case by (cases bs) (auto simp: hex_encode_def hex_byte_def)
next
  case (Cons a as)
  then show ?case
  proof (cases bs)
    case (Cons b bs')
    have "length (hex_byte a) = length (hex_byte b)"
      by (simp add: hex_byte_def)
    with Cons Cons.IH [of bs'] show ?thesis
      by (simp add: hex_encode_def hex_byte_inj)
  qed (simp add: hex_encode_def hex_byte_def)
qed

lemma length_hex_encode [simp]: "length (hex_encode bs) = 2 * length bs"
  by (induction bs) (simp_all add: hex_encode_def hex_byte_def)

end
