(* ===== verification/Block_Manager.thy ===== *)
theory Block_Manager
  imports Block_Queue Sha256
begin

text \<open>
  The per-executor KV block manager, \<^verbatim>\<open>internal/block/block.go\<close>: prefix hashing and matching,
  allocation of blocks to work items, commit and rollback of allocations, release of a request's
  blocks, and the block-level half of a KV transfer (pin, reserve, import, release).  Every
  operation holds the manager's mutex for its whole duration, so each is one atomic step.
\<close>

subsection \<open>Prefix hashes\<close>

definition hashBlock :: "string \<Rightarrow> u32 list \<Rightarrow> string" where
  "hashBlock prevHash tokens =
     hex_encode (sha256 (bytes_of_string prevHash @ concat (map be32 tokens)))"

text \<open>The loop of \<^verbatim>\<open>blockHashes\<close> from index \<open>i\<close> on, \<open>n\<close> rounds to go.\<close>

primrec blockHashesLoop :: "u32 \<Rightarrow> u32 list \<Rightarrow> nat \<Rightarrow> u32 \<Rightarrow> string \<Rightarrow> string list option" where
  "blockHashesLoop bs tokens 0 i prev = Some []"
| "blockHashesLoop bs tokens (Suc n) i prev = do {
     let start = i * bs;
     let stop = start + bs;
     chunk \<leftarrow> slice tokens (unat start) (unat stop);
     let curr = hashBlock prev chunk;
     hs \<leftarrow> blockHashesLoop bs tokens n (i + 1) curr;
     Some (curr # hs)
   }"

definition blockHashes :: "manager \<Rightarrow> Request \<Rightarrow> string list option" where
  "blockHashes m req =
     (if m_blockSize m = 0 then None
      else let fullBlocks = (of_nat (length (rq_TokenIDs req)) :: u32) div m_blockSize m
           in blockHashesLoop (m_blockSize m) (rq_TokenIDs req) (unat fullBlocks) 0 (rq_CacheSalt req))"

definition matchableBlockHashes :: "manager \<Rightarrow> Request \<Rightarrow> (string list \<times> string list) option" where
  "matchableBlockHashes m req = do {
     hashesTotal \<leftarrow> blockHashes m req;
     let n = length (rq_TokenIDs req);
     let maxMatchedBlocks = (if 0 < n then (n - 1) div unat (m_blockSize m) else 0);
     Some (hashesTotal, take (min (length hashesTotal) maxMatchedBlocks) hashesTotal)
   }"

subsection \<open>Helpers\<close>

definition requiredKVTokens :: "WorkItem \<Rightarrow> u32" where
  "requiredKVTokens work = (case wk_Phase work of
     WorkPhasePrefill \<Rightarrow> wk_PrefillOffset work + wk_NumNewTokens work
   | WorkPhaseDecode \<Rightarrow> wk_TokenCntTotal work
   | WorkPhaseUnknown _ \<Rightarrow> 0)"

definition ceilDiv :: "u32 \<Rightarrow> u32 \<Rightarrow> u32 option" where
  "ceilDiv v divisor =
     (if v = 0 then Some 0
      else if divisor = 0 then None
      else Some ((v + divisor - 1) div divisor))"

definition observeBlockStats :: "manager \<Rightarrow> manager" where
  "observeBlockStats m =
     (let free = (ucast (m_freeCount m) :: u64);
          active = of_nat (length (m_blocks m)) - free;
          cached = of_nat (map_len (m_cachedBlocks m))
      in m\<lparr>m_metrics := ObserveBlockStats active free cached (m_metrics m)\<rparr>)"

subsection \<open>Construction\<close>

definition newManager :: "ExecutorStats option \<Rightarrow> manager result" where
  "newManager runtime = (case runtime of
     None \<Rightarrow> Inl (Errorf ''executor runtime must not be nil'' [])
   | Some r \<Rightarrow>
       if es_ExecutorId r = [] then Inl (Errorf ''executor ID must not be empty'' [])
       else if es_BlockSize r = 0 then Inl (Errorf ''block size must be greater than zero'' [])
       else if es_NumKvBlocks r = 0 then Inl (Errorf ''number of blocks must be greater than zero'' [])
       else
         let n = unat (es_NumKvBlocks r);
             bs = map (\<lambda>i. \<lparr>blk_Hash = [], blk_RefCount = 0, blk_TokenCount = 0, blk_Cached = False,
                     blk_InFreeQueue = True,
                     blk_PrevFree = of_int (int i - 1), blk_NextFree = of_nat (i + 1)\<rparr>) [0..<n];
             bs1 = bs[0 := (bs ! 0)\<lparr>blk_PrevFree := - 1\<rparr>];
             bs2 = bs1[n - 1 := (bs1 ! (n - 1))\<lparr>blk_NextFree := - 1\<rparr>]
         in Inr (observeBlockStats \<lparr>
              m_executorID = es_ExecutorId r,
              m_blockSize = es_BlockSize r,
              m_blocks = bs2,
              m_freeHead = 0,
              m_freeTail = es_NumKvBlocks r - 1,
              m_freeCount = es_NumKvBlocks r,
              m_requestBlocks = fmempty,
              m_cachedBlocks = fmempty,
              m_pendingAllocations = fmempty,
              m_metrics = newBlock\<rparr>))"

subsection \<open>Referencing blocks\<close>

text \<open>\<^verbatim>\<open>touch(ids...)\<close>: take a reference on each block, withdrawing it from the free queue.\<close>

fun touch :: "u32 list \<Rightarrow> manager \<Rightarrow> manager option" where
  "touch [] m = Some m"
| "touch (x # xs) m = do {
     b \<leftarrow> block_at x m;
     m1 \<leftarrow> (if blk_InFreeQueue b then removeFreeBlock x m else Some m);
     m2 \<leftarrow> block_upd x (\<lambda>b. b\<lparr>blk_RefCount := blk_RefCount b + 1\<rparr>) m1;
     touch xs m2
   }"

text \<open>The loops \<^verbatim>\<open>for _, id := range ids { m.pushFree(id) }\<close>.\<close>

fun pushFrees :: "u32 list \<Rightarrow> manager \<Rightarrow> manager option" where
  "pushFrees [] m = Some m"
| "pushFrees (x # xs) m = do { m1 \<leftarrow> pushFree x m; pushFrees xs m1 }"

text \<open>The loop of \<^verbatim>\<open>allocate\<close>: \<open>n\<close> rounds to go, \<open>ids\<close> taken so far.\<close>

fun allocateLoop :: "nat \<Rightarrow> u32 list \<Rightarrow> manager \<Rightarrow> (u32 list option \<times> manager) option" where
  "allocateLoop 0 ids m = Some (Some ids, m)"
| "allocateLoop (Suc n) ids m = do {
     ((x, ok), m1) \<leftarrow> popFree m;
     if \<not> ok then do { m2 \<leftarrow> pushFrees ids m1; Some (None, m2) }
     else do {
       m2 \<leftarrow> block_upd x (\<lambda>b. b\<lparr>blk_RefCount := 1, blk_InFreeQueue := False\<rparr>) m1;
       allocateLoop n (ids @ [x]) m2
     }
   }"

definition allocate :: "u32 \<Rightarrow> manager \<Rightarrow> (u32 list option \<times> manager) option" where
  "allocate n m = (if m_freeCount m < n then Some (None, m) else allocateLoop (unat n) [] m)"

subsection \<open>Prefix matching\<close>

fun matchLoop :: "string list \<Rightarrow> u32 list \<Rightarrow> manager \<Rightarrow> (u32 list \<times> manager) option" where
  "matchLoop [] ids m = Some (ids, m)"
| "matchLoop (h # hs) ids m = (case fmlookup (m_cachedBlocks m) h of
     None \<Rightarrow> Some (ids, m)
   | Some x \<Rightarrow> do { m1 \<leftarrow> touch [x] m; matchLoop hs (ids @ [x]) m1 })"

definition manager_MatchPrefix :: "Request \<Rightarrow> manager \<Rightarrow> ((PrefixMatch \<times> Request) \<times> manager) option" where
  "manager_MatchPrefix req m = do {
     (hashesTotal, hashesToMatch) \<leftarrow> matchableBlockHashes m req;
     (ids, m1) \<leftarrow> matchLoop hashesToMatch [] m;
     let m2 = observeBlockStats (m1\<lparr>m_requestBlocks := fmupd (rq_RequestId req) ids (m_requestBlocks m1)\<rparr>);
     let cache = \<lparr>pm_Hit = (ids \<noteq> []), pm_CachedTokens = of_nat (length ids) * m_blockSize m,
                  pm_BlockIDs = ids, pm_HashesTotal = hashesTotal\<rparr>;
     Some ((cache, req\<lparr>rq_Cache := Some cache\<rparr>), m2)
   }"

fun probeLoop :: "string list \<Rightarrow> manager \<Rightarrow> string list option" where
  "probeLoop [] m = Some []"
| "probeLoop (h # hs) m = (case fmlookup (m_cachedBlocks m) h of
     None \<Rightarrow> Some []
   | Some x \<Rightarrow> do {
       b \<leftarrow> block_at x m;
       if \<not> blk_Cached b \<or> blk_Hash b \<noteq> h \<or> blk_TokenCount b \<noteq> m_blockSize m then Some []
       else do { r \<leftarrow> probeLoop hs m; Some (h # r) }
     })"

definition probePrefix :: "Request \<Rightarrow> manager \<Rightarrow> PrefixCandidate option" where
  "probePrefix req m = do {
     (_, hashesToMatch) \<leftarrow> matchableBlockHashes m req;
     matched \<leftarrow> probeLoop hashesToMatch m;
     Some \<lparr>pc_ExecutorID = m_executorID m, pc_CachedTokens = of_nat (length matched) * m_blockSize m,
           pc_MatchedHashes = matched\<rparr>
   }"

subsection \<open>Allocation, commit, rollback, release\<close>

text \<open>
  \<^verbatim>\<open>AllocateBlocks\<close> returns the success flag and the work item, whose \<^verbatim>\<open>BlockAllocation\<close> it sets;
  a work item without a prefix match is dereferenced and panics.
\<close>

definition manager_AllocateBlocks :: "WorkItem \<Rightarrow> manager \<Rightarrow> ((bool \<times> WorkItem) \<times> manager) option" where
  "manager_AllocateBlocks work m = do {
     (existBlocks, m1) \<leftarrow> (case fmlookup (m_requestBlocks m) (wk_RequestId work) of
         Some ids \<Rightarrow> Some (ids, m)
       | None \<Rightarrow> do {
           cache \<leftarrow> wk_Cache work;
           let ids = pm_BlockIDs cache;
           if ids \<noteq> [] then Some (ids, m\<lparr>m_requestBlocks := fmupd (wk_RequestId work) ids (m_requestBlocks m)\<rparr>)
           else Some ([], m)
         });
     let requiredKVToken = requiredKVTokens work;
     requiredTotalBlocks \<leftarrow> ceilDiv requiredKVToken (m_blockSize m1);
     let requiredBlocks = (if (of_nat (length existBlocks) :: u32) < requiredTotalBlocks
                           then requiredTotalBlocks - of_nat (length existBlocks) else 0);
     (allocated, m2) \<leftarrow> allocate requiredBlocks m1;
     case allocated of
       None \<Rightarrow> Some ((False, work), m2\<lparr>m_metrics := IncAllocationFailure (m_metrics m2)\<rparr>)
     | Some ids \<Rightarrow> do {
         let blockTable = existBlocks @ ids;
         cache \<leftarrow> wk_Cache work;
         let al = \<lparr>al_RequestID = wk_RequestId work, al_WorkID = wk_WorkId work,
                   al_BlockSize = m_blockSize m2, al_Phase = wk_Phase work,
                   al_BlockTable = blockTable, al_BlockHashes = pm_HashesTotal cache,
                   al_AllocatedBlocks = ids, al_TokensAfterCommit = requiredKVToken\<rparr>;
         let m3 = m2\<lparr>m_requestBlocks := fmupd (wk_RequestId work) blockTable (m_requestBlocks m2),
                     m_pendingAllocations := fmupd (wk_WorkId work) al (m_pendingAllocations m2)\<rparr>;
         Some ((True, work\<lparr>wk_BlockAllocation := Some al\<rparr>), observeBlockStats m3)
       }
   }"

fun commitTokens :: "u32 \<Rightarrow> u32 \<Rightarrow> u32 list \<Rightarrow> manager \<Rightarrow> manager option" where
  "commitTokens idx tokensAfter [] m = Some m"
| "commitTokens idx tokensAfter (x # xs) m = do {
     let start = idx * m_blockSize m;
     let cnt = (if tokensAfter \<le> start then 0
                else if m_blockSize m \<le> tokensAfter - start then m_blockSize m
                else tokensAfter - start);
     m1 \<leftarrow> block_upd x (\<lambda>b. b\<lparr>blk_TokenCount := cnt\<rparr>) m;
     commitTokens (idx + 1) tokensAfter xs m1
   }"

fun commitCache :: "BlockAllocation \<Rightarrow> nat \<Rightarrow> u32 list \<Rightarrow> manager \<Rightarrow> manager option" where
  "commitCache al idx [] m = Some m"
| "commitCache al idx (x # xs) m = do {
     b \<leftarrow> block_at x m;
     m1 \<leftarrow> (if al_Phase al \<noteq> WorkPhasePrefill \<or> blk_Cached b \<or> blk_TokenCount b \<noteq> al_BlockSize al \<or>
                length (al_BlockHashes al) \<le> idx
            then Some m
            else if has_key (m_cachedBlocks m) (al_BlockHashes al ! idx) then Some m
            else map_option (\<lambda>m. m\<lparr>m_cachedBlocks := fmupd (al_BlockHashes al ! idx) x (m_cachedBlocks m)\<rparr>)
                   (block_upd x (\<lambda>b. b\<lparr>blk_Hash := al_BlockHashes al ! idx, blk_Cached := True\<rparr>) m));
     commitCache al (Suc idx) xs m1
   }"

definition manager_Commit :: "string \<Rightarrow> manager \<Rightarrow> manager option" where
  "manager_Commit workId m = (case fmlookup (m_pendingAllocations m) workId of
     None \<Rightarrow> Some m
   | Some al \<Rightarrow> do {
       let m1 = m\<lparr>m_pendingAllocations := fmdrop workId (m_pendingAllocations m)\<rparr>;
       m2 \<leftarrow> commitTokens 0 (al_TokensAfterCommit al) (al_BlockTable al) m1;
       m3 \<leftarrow> commitCache al 0 (al_BlockTable al) m2;
       Some (observeBlockStats m3)
     })"

text \<open>A missing key reads as the nil slice.\<close>

definition requestBlocksOf :: "string \<Rightarrow> manager \<Rightarrow> u32 list" where
  "requestBlocksOf r m = (case fmlookup (m_requestBlocks m) r of None \<Rightarrow> [] | Some ids \<Rightarrow> ids)"

definition manager_Rollback :: "string \<Rightarrow> manager \<Rightarrow> manager option" where
  "manager_Rollback workID m = (case fmlookup (m_pendingAllocations m) workID of
     None \<Rightarrow> Some m
   | Some al \<Rightarrow> do {
       let m1 = m\<lparr>m_pendingAllocations := fmdrop workID (m_pendingAllocations m)\<rparr>;
       let blocks0 = requestBlocksOf (al_RequestID al) m1;
       let blocks = (if length (al_AllocatedBlocks al) \<le> length blocks0
                     then take (length blocks0 - length (al_AllocatedBlocks al)) blocks0 else blocks0);
       let m2 = m1\<lparr>m_requestBlocks := (if blocks = [] then fmdrop (al_RequestID al) (m_requestBlocks m1)
                                        else fmupd (al_RequestID al) blocks (m_requestBlocks m1))\<rparr>;
       m3 \<leftarrow> pushFrees (al_AllocatedBlocks al) m2;
       Some (observeBlockStats m3)
     })"

definition manager_FreeRequest :: "string \<Rightarrow> manager \<Rightarrow> manager option" where
  "manager_FreeRequest requestID m = do {
     let blocks = requestBlocksOf requestID m;
     let m1 = m\<lparr>m_requestBlocks := fmdrop requestID (m_requestBlocks m),
                m_pendingAllocations :=
                  fmfilter (\<lambda>w. case fmlookup (m_pendingAllocations m) w of
                                  Some al \<Rightarrow> al_RequestID al \<noteq> requestID | None \<Rightarrow> True)
                           (m_pendingAllocations m)\<rparr>;
     m2 \<leftarrow> pushFrees blocks m1;
     Some (observeBlockStats m2)
   }"

subsection \<open>Transfers\<close>

fun pinLookup :: "string list \<Rightarrow> manager \<Rightarrow> u32 list result option" where
  "pinLookup [] m = Some (Inr [])"
| "pinLookup (h # hs) m = (case fmlookup (m_cachedBlocks m) h of
     None \<Rightarrow> Some (Inl (Errorf (''cached block '' @ h @ '' not found'') []))
   | Some x \<Rightarrow> do {
       b \<leftarrow> block_at x m;
       if \<not> blk_Cached b \<or> blk_Hash b \<noteq> h \<or> blk_TokenCount b \<noteq> m_blockSize m
       then Some (Inl (Errorf (''cached block '' @ h @ '' is not transferable'') []))
       else do {
         r \<leftarrow> pinLookup hs m;
         Some (case r of Inl e \<Rightarrow> Inl e | Inr xs \<Rightarrow> Inr (x # xs))
       }
     })"

definition pinCachedBlocks :: "string list \<Rightarrow> manager \<Rightarrow> (u32 list result \<times> manager) option" where
  "pinCachedBlocks hashes m = do {
     r \<leftarrow> pinLookup hashes m;
     case r of
       Inl e \<Rightarrow> Some (Inl e, m)
     | Inr ids \<Rightarrow> do { m1 \<leftarrow> touch ids m; Some (Inr ids, observeBlockStats m1) }
   }"

definition reserveTransferBlocks :: "u32 \<Rightarrow> manager \<Rightarrow> (u32 list option \<times> manager) option" where
  "reserveTransferBlocks n m = do {
     (ids, m1) \<leftarrow> allocate n m;
     Some (ids, observeBlockStats m1)
   }"

fun checkReserved :: "u32 list \<Rightarrow> manager \<Rightarrow> error option option" where
  "checkReserved [] m = Some None"
| "checkReserved (x # xs) m =
     (if length (m_blocks m) \<le> unat x
      then Some (Some (Errorf (''destination block '' @ fmt_d (unat x) @ '' is out of range'') []))
      else do {
        b \<leftarrow> block_at x m;
        if blk_InFreeQueue b \<or> blk_RefCount b = 0
        then Some (Some (Errorf (''destination block '' @ fmt_d (unat x) @ '' is not reserved'') []))
        else checkReserved xs m
      })"

fun importLoop :: "(u32 \<times> string) list \<Rightarrow> manager \<Rightarrow> manager option" where
  "importLoop [] m = Some m"
| "importLoop ((x, h) # xs) m = do {
     m1 \<leftarrow> (if (case fmlookup (m_cachedBlocks m) h of Some y \<Rightarrow> y \<noteq> x | None \<Rightarrow> False) then Some m
            else map_option (\<lambda>m. m\<lparr>m_cachedBlocks := fmupd h x (m_cachedBlocks m)\<rparr>)
                   (block_upd x (\<lambda>b. b\<lparr>blk_Hash := h, blk_TokenCount := m_blockSize m, blk_Cached := True\<rparr>) m));
     m2 \<leftarrow> pushFree x m1;
     importLoop xs m2
   }"

definition commitImportedBlocks :: "u32 list \<Rightarrow> string list \<Rightarrow> manager \<Rightarrow> (error option \<times> manager) option" where
  "commitImportedBlocks ids hashes m =
     (if length ids \<noteq> length hashes
      then Some (Some (Errorf ''destination block and hash counts differ'' []), m)
      else do {
        bad \<leftarrow> checkReserved ids m;
        case bad of
          Some e \<Rightarrow> Some (Some e, m)
        | None \<Rightarrow> do { m1 \<leftarrow> importLoop (zip ids hashes) m; Some (None, observeBlockStats m1) }
      })"

definition releaseTransferBlocks :: "u32 list \<Rightarrow> manager \<Rightarrow> manager option" where
  "releaseTransferBlocks ids m = do { m1 \<leftarrow> pushFrees ids m; Some (observeBlockStats m1) }"

end
