(* ===== verification/Block_Refs.thy ===== *)
theory Block_Refs
  imports Block_Manager
begin

text \<open>
  Reference accounting of the block manager.  The references a manager has handed out form a
  multiset \<open>R\<close> of block identifiers; the invariant says that the reference counts are exactly
  the multiplicities of \<open>R\<close>, that a block is on the free queue exactly when nobody references it,
  and that the prefix index and the blocks' cache marks agree.
\<close>

subsection \<open>The invariant over a multiset of references\<close>

abbreviation bl :: "manager \<Rightarrow> u32 \<Rightarrow> Block" where
  "bl m x \<equiv> m_blocks m ! unat x"

definition refs_ok :: "u32 multiset \<Rightarrow> manager \<Rightarrow> bool" where
  "refs_ok R m \<longleftrightarrow>
     (\<forall>x. unat x < length (m_blocks m) \<longrightarrow>
        unat (blk_RefCount (bl m x)) = count R x \<and>
        (blk_InFreeQueue (bl m x) \<longleftrightarrow> blk_RefCount (bl m x) = 0)) \<and>
     (\<forall>x \<in># R. unat x < length (m_blocks m))"

definition cache_ok :: "manager \<Rightarrow> bool" where
  "cache_ok m \<longleftrightarrow> (\<forall>h x. fmlookup (m_cachedBlocks m) h = Some x \<longleftrightarrow>
     unat x < length (m_blocks m) \<and> blk_Cached (bl m x) \<and> blk_Hash (bl m x) = h)"

definition core_inv :: "u32 multiset \<Rightarrow> manager \<Rightarrow> bool" where
  "core_inv R m \<longleftrightarrow> free_wf m \<and> refs_ok R m \<and> cache_ok m"

text \<open>What the queue and the counts do not touch: hash, token count and cache mark.\<close>

definition meta :: "Block \<Rightarrow> string \<times> u32 \<times> bool" where
  "meta b = (blk_Hash b, blk_TokenCount b, blk_Cached b)"

definition metas :: "manager \<Rightarrow> (string \<times> u32 \<times> bool) list" where
  "metas m = map meta (m_blocks m)"

lemma length_metas [simp]: "length (metas m) = length (m_blocks m)"
  by (simp add: metas_def)

lemma metas_cores: "metas m = map meta (cores m)"
  by (simp add: metas_def cores_def meta_def)

lemma metas_length_eq: "metas m' = metas m \<Longrightarrow> length (m_blocks m') = length (m_blocks m)"
  by (metis length_metas)

lemma metas_nth:
  assumes "metas m' = metas m" "unat x < length (m_blocks m)"
  shows "blk_Hash (bl m' x) = blk_Hash (bl m x)" "blk_TokenCount (bl m' x) = blk_TokenCount (bl m x)"
    "blk_Cached (bl m' x) = blk_Cached (bl m x)"
proof -
  have "metas m' ! unat x = metas m ! unat x"
    using assms(1) by simp
  then show "blk_Hash (bl m' x) = blk_Hash (bl m x)" "blk_TokenCount (bl m' x) = blk_TokenCount (bl m x)"
    "blk_Cached (bl m' x) = blk_Cached (bl m x)"
    using assms(2) metas_length_eq [OF assms(1)] by (simp_all add: metas_def meta_def)
qed

lemma cache_ok_metas:
  assumes "metas m' = metas m" "m_cachedBlocks m' = m_cachedBlocks m"
  shows "cache_ok m' \<longleftrightarrow> cache_ok m"
proof -
  have "unat x < length (m_blocks m') \<and> blk_Cached (bl m' x) \<and> blk_Hash (bl m' x) = h \<longleftrightarrow>
      unat x < length (m_blocks m) \<and> blk_Cached (bl m x) \<and> blk_Hash (bl m x) = h" for h x
    using metas_nth [OF assms(1), of x] metas_length_eq [OF assms(1)] by auto
  then show ?thesis
    by (simp add: cache_ok_def assms(2))
qed

lemma bl_cores: "cores m' = (cores m)[unat i := b] \<Longrightarrow> unat i < length (m_blocks m) \<Longrightarrow>
    unat x < length (m_blocks m) \<Longrightarrow> unlink (bl m' x) = (if x = i then b else unlink (bl m x))"
  by (metis cores_length_eq cores_nth length_cores nth_upd_u32)

lemma bl_fields_cores:
  assumes "cores m' = (cores m)[unat i := b]" "unat i < length (m_blocks m)" "unat x < length (m_blocks m)"
  shows "blk_RefCount (bl m' x) = (if x = i then blk_RefCount b else blk_RefCount (bl m x))"
    "blk_InFreeQueue (bl m' x) = (if x = i then blk_InFreeQueue b else blk_InFreeQueue (bl m x))"
    "blk_Hash (bl m' x) = (if x = i then blk_Hash b else blk_Hash (bl m x))"
    "blk_TokenCount (bl m' x) = (if x = i then blk_TokenCount b else blk_TokenCount (bl m x))"
    "blk_Cached (bl m' x) = (if x = i then blk_Cached b else blk_Cached (bl m x))"
  using bl_cores [OF assms] unlink_simps by metis+

lemma metas_cores_upd:
  assumes "cores m' = (cores m)[unat i := b]" "unat i < length (m_blocks m)"
    and "blk_Hash b = blk_Hash (bl m i)" "blk_TokenCount b = blk_TokenCount (bl m i)" "blk_Cached b = blk_Cached (bl m i)"
  shows "metas m' = metas m"
proof -
  have "metas m' = (metas m)[unat i := meta b]"
    using assms(1) by (simp add: metas_cores map_update)
  also have "\<dots> = metas m"
    using assms(2-) by (simp add: metas_def meta_def list_update_same_conv)
  finally show ?thesis .
qed

lemma cores_block_upd: "cores (m\<lparr>m_blocks := (m_blocks m)[i := b]\<rparr>) = (cores m)[i := unlink b]"
  by (simp add: cores_def map_update)

subsection \<open>Taking and dropping one reference\<close>

lemma core_inv_freeD: "core_inv R m \<Longrightarrow> free_ok m (free_ids m)"
  by (simp add: core_inv_def free_wf_def)

lemma core_inv_queued: "core_inv R m \<Longrightarrow> unat x < length (m_blocks m) \<Longrightarrow> x \<in> set (free_ids m) \<longleftrightarrow> x \<notin># R"
  using core_inv_freeD [of R m]
  by (auto simp: core_inv_def refs_ok_def free_ok_def count_eq_zero_iff simp flip: unat_eq_zero)

lemma core_invI:
  assumes "free_ok m fl" "refs_ok R m" "cache_ok m"
  shows "core_inv R m"
  using assms free_ok_wf by (simp add: core_inv_def)

text \<open>One reference taken.\<close>

lemma touch_one:
  assumes inv: "core_inv R m" and x: "unat x < length (m_blocks m)" and ov: "count R x + 1 < 2 ^ 32"
  shows "\<exists>m'. touch [x] m = Some m' \<and> core_inv (add_mset x R) m' \<and> metas m' = metas m \<and> rest m' = rest m"
proof -
  have ok: "free_ok m (free_ids m)" and refs: "refs_ok R m" and cache: "cache_ok m"
    using inv by (auto simp: core_inv_def free_wf_def)
  have "\<exists>m1 fl. (if blk_InFreeQueue (bl m x) then removeFreeBlock x m else Some m) = Some m1 \<and> free_ok m1 fl \<and>
      cores m1 = (cores m)[unat x := (cores m ! unat x)\<lparr>blk_InFreeQueue := False\<rparr>] \<and> rest m1 = rest m"
  proof (cases "blk_InFreeQueue (bl m x)")
    case True
    then have "x \<in> set (free_ids m)"
      using ok x by (simp add: free_ok_def)
    then obtain as cs where "free_ids m = as @ x # cs"
      by (meson split_list)
    then show ?thesis
      using removeFreeBlock_ok [of m as x cs] ok True by auto
  next
    case False
    then have "(cores m)[unat x := (cores m ! unat x)\<lparr>blk_InFreeQueue := False\<rparr>] = cores m"
      using x by (simp add: list_update_same_conv)
    then show ?thesis using False ok by auto
  qed
  then obtain m1 fl where m1: "(if blk_InFreeQueue (bl m x) then removeFreeBlock x m else Some m) = Some m1"
    "free_ok m1 fl" "cores m1 = (cores m)[unat x := (cores m ! unat x)\<lparr>blk_InFreeQueue := False\<rparr>]" "rest m1 = rest m"
    by blast
  have l1: "length (m_blocks m1) = length (m_blocks m)"
    using m1(3) by (rule cores_length_eq)
  let ?b = "(bl m1 x)\<lparr>blk_RefCount := blk_RefCount (bl m1 x) + 1\<rparr>"
  let ?m' = "m1\<lparr>m_blocks := (m_blocks m1)[unat x := ?b]\<rparr>"
  have t: "touch [x] m = Some ?m'"
    using m1(1) x l1 by (simp add: panic_simps split del: if_split)
  have free: "free_ok ?m' fl"
    using m1(2) x l1 by (intro free_ok_block_upd) (auto simp: prv_def nxt_def)
  note f = bl_fields_cores [OF m1(3) x]
  have "unat (blk_RefCount (bl m x) + 1) = count R x + 1"
    using refs x ov by (simp add: refs_ok_def unat_add_u32)
  moreover from this have "blk_RefCount (bl m x) + 1 \<noteq> 0"
    by (metis Suc_eq_plus1 nat.distinct(1) unat_0)
  ultimately have "refs_ok (add_mset x R) ?m'"
    using refs x l1 f by (auto simp: refs_ok_def)
  moreover have "metas m1 = metas m"
    using metas_cores_upd [OF m1(3) x] x by simp
  then have mt: "metas ?m' = metas m"
    using metas_cores_upd [OF cores_block_upd, of x m1 ?b] x l1 by simp
  moreover have "rest ?m' = rest m"
    using m1(4) by (simp add: rest_def)
  moreover have "cache_ok ?m'"
    using cache cache_ok_metas [OF mt] rest_fields(4) [OF \<open>rest ?m' = rest m\<close>] by simp
  ultimately show ?thesis
    using t core_invI [OF free] by blast
qed

text \<open>One reference dropped.\<close>

lemma pushFree_one:
  assumes inv: "core_inv R m" and x: "x \<in># R"
  shows "\<exists>m'. pushFree x m = Some m' \<and> core_inv (R - {#x#}) m' \<and> metas m' = metas m \<and> rest m' = rest m"
proof -
  have ok: "free_ok m (free_ids m)" and refs: "refs_ok R m" and cache: "cache_ok m"
    using inv by (auto simp: core_inv_def free_wf_def)
  have r: "unat x < length (m_blocks m)"
    using refs x by (simp add: refs_ok_def)
  then have cnt: "unat (blk_RefCount (bl m x)) = count R x" and c0: "0 < count R x"
    using refs x by (auto simp: refs_ok_def)
  obtain m' fl b where m': "pushFree x m = Some m'" "free_ok m' fl" "cores m' = (cores m)[unat x := b]" "rest m' = rest m"
    and b: "b = (if count R x = 1 then (cores m ! unat x)\<lparr>blk_RefCount := 0, blk_InFreeQueue := True\<rparr>
                 else (cores m ! unat x)\<lparr>blk_RefCount := blk_RefCount (cores m ! unat x) - 1\<rparr>)"
  proof (cases "count R x = 1")
    case True
    moreover from this have "blk_RefCount (bl m x) = 1"
      using cnt by (metis unat_1 unat_inj_u32)
    ultimately show ?thesis
      using pushFree_last [OF ok r] core_inv_queued [OF inv r] x that by auto
  next
    case False
    then have "1 < blk_RefCount (bl m x)"
      using cnt c0 False by (simp add: word_less_nat_alt del: count_greater_zero_iff)
    with False show ?thesis
      using pushFree_more [OF ok r] that by auto
  qed
  note f = bl_fields_cores [OF m'(3) r]
  have rc: "unat (blk_RefCount b) = count R x - 1" "blk_InFreeQueue b \<longleftrightarrow> blk_RefCount b = 0"
  proof -
    have nz: "blk_RefCount (bl m x) \<noteq> 0"
      using cnt c0 by (auto simp: count_eq_zero_iff)
    show u: "unat (blk_RefCount b) = count R x - 1"
      using b r cnt nz by (auto simp: unat_pred_u32)
    show "blk_InFreeQueue b \<longleftrightarrow> blk_RefCount b = 0"
    proof (cases "count R x = 1")
      case True then show ?thesis using b r by simp
    next
      case False
      then have "unat (blk_RefCount b) \<noteq> 0" using u c0 by linarith
      moreover have "blk_InFreeQueue b = blk_InFreeQueue (bl m x)" using False b r by simp
      moreover have "\<not> blk_InFreeQueue (bl m x)" using refs r nz by (simp add: refs_ok_def)
      ultimately show ?thesis by auto
    qed
  qed
  have "refs_ok (R - {#x#}) m'"
    using refs r f rc cores_length_eq [OF m'(3)] by (auto simp: refs_ok_def dest: in_diffD)
  moreover have mt: "metas m' = metas m"
    using metas_cores_upd [OF m'(3) r] b r by (auto split: if_splits)
  moreover have "cache_ok m'"
    using cache cache_ok_metas [OF mt] rest_fields(4) [OF m'(4)] by simp
  ultimately show ?thesis
    using m'(1,4) core_invI [OF m'(2)] by blast
qed

text \<open>The loops.\<close>

lemma touch_Cons: "touch (x # xs) m = Option.bind (touch [x] m) (touch xs)"
  by simp

lemma touch_list:
  assumes "core_inv R m" and "\<forall>x \<in> set ids. unat x < length (m_blocks m)"
    and "\<forall>x. count R x + length ids < 2 ^ 32"
  shows "\<exists>m'. touch ids m = Some m' \<and> core_inv (R + mset ids) m' \<and> metas m' = metas m \<and> rest m' = rest m"
  using assms
proof (induction ids arbitrary: m R)
  case Nil
  then show ?case by simp
next
  case (Cons x xs)
  have "count R x + 1 < 2 ^ 32"
    using Cons.prems(3) [rule_format, of x] by simp
  then obtain m1 where m1: "touch [x] m = Some m1" "core_inv (add_mset x R) m1" "metas m1 = metas m" "rest m1 = rest m"
    using touch_one [OF Cons.prems(1)] Cons.prems(2) by auto
  have "count (add_mset x R) y + length xs < 2 ^ 32" for y
    using Cons.prems(3) [rule_format, of y] by simp
  then obtain m' where "touch xs m1 = Some m'" "core_inv (add_mset x R + mset xs) m'" "metas m' = metas m1" "rest m' = rest m1"
    using Cons.IH [OF m1(2)] Cons.prems(2) metas_length_eq [OF m1(3)] by auto
  then show ?case
    unfolding touch_Cons [of x xs] m1(1) using m1(3,4) by simp
qed

lemma pushFrees_list:
  assumes "core_inv R m" and "mset ids \<subseteq># R"
  shows "\<exists>m'. pushFrees ids m = Some m' \<and> core_inv (R - mset ids) m' \<and> metas m' = metas m \<and> rest m' = rest m"
  using assms
proof (induction ids arbitrary: m R)
  case Nil
  then show ?case by simp
next
  case (Cons x xs)
  then have "x \<in># R" "mset xs \<subseteq># R - {#x#}"
    by (auto simp: insert_subset_eq_iff)
  then show ?case
    using pushFree_one [OF Cons.prems(1)] Cons.IH [of "R - {#x#}"]
    by (metis (no_types, lifting) bind.bind_lunit diff_diff_add_mset mset.simps(2) add_mset_add_single add.commute pushFrees.simps(2))
qed

subsection \<open>Allocation\<close>

text \<open>
  What handing out the blocks \<open>ids\<close> leaves alone: the request tables, the pending allocations
  and the contents of every other block; the blocks handed out are blank.
\<close>

definition alloc_frame :: "u32 list \<Rightarrow> manager \<Rightarrow> manager \<Rightarrow> bool" where
  "alloc_frame ids m m' \<longleftrightarrow>
     m_executorID m' = m_executorID m \<and> m_blockSize m' = m_blockSize m \<and>
     m_requestBlocks m' = m_requestBlocks m \<and> m_pendingAllocations m' = m_pendingAllocations m \<and>
     length (m_blocks m') = length (m_blocks m) \<and>
     (\<forall>x. unat x < length (m_blocks m) \<longrightarrow>
        meta (bl m' x) = (if x \<in> set ids then ([], 0, False) else meta (bl m x)))"

lemma alloc_frame_refl [simp]: "alloc_frame [] m m"
  by (simp add: alloc_frame_def)

lemma alloc_frame_trans:
  "alloc_frame [x] m m1 \<Longrightarrow> alloc_frame xs m1 m2 \<Longrightarrow> alloc_frame (x # xs) m m2"
  by (auto simp: alloc_frame_def)

lemma cache_okD: "cache_ok m \<Longrightarrow> fmlookup (m_cachedBlocks m) h = Some x \<longleftrightarrow>
    unat x < length (m_blocks m) \<and> blk_Cached (bl m x) \<and> blk_Hash (bl m x) = h"
  by (simp add: cache_ok_def)

lemma cache_ok_evict:
  assumes ok: "cache_ok m" and x: "unat x < length (m_blocks m)"
    and len: "length (m_blocks m') = length (m_blocks m)" and b: "\<not> blk_Cached (bl m' x)"
    and f: "\<And>y. unat y < length (m_blocks m) \<Longrightarrow> y \<noteq> x \<Longrightarrow>
        blk_Cached (bl m' y) = blk_Cached (bl m y) \<and> blk_Hash (bl m' y) = blk_Hash (bl m y)"
    and c: "m_cachedBlocks m' = (if blk_Cached (bl m x) then fmdrop (blk_Hash (bl m x)) (m_cachedBlocks m)
              else m_cachedBlocks m)"
  shows "cache_ok m'"
  unfolding cache_ok_def len
proof (intro allI)
  fix h y
  show "fmlookup (m_cachedBlocks m') h = Some y \<longleftrightarrow>
      unat y < length (m_blocks m) \<and> blk_Cached (bl m' y) \<and> blk_Hash (bl m' y) = h"
  proof (cases "y = x")
    case True
    then show ?thesis
      using cache_okD [OF ok, of h x] b c by auto
  next
    case False
    have "fmlookup (m_cachedBlocks m') h = Some y \<longleftrightarrow> fmlookup (m_cachedBlocks m) h = Some y"
      using cache_okD [OF ok, of h x] c False x by auto
    then show ?thesis
      using cache_okD [OF ok, of h y] f [of y] False by auto
  qed
qed

lemma popFree_one:
  assumes inv: "core_inv R m" and q: "free_ids m = x # xs"
  shows "\<exists>m'. popFree m = Some ((x, True), m') \<and> core_inv (add_mset x R) m' \<and> free_ids m' = xs \<and>
     alloc_frame [x] m m' \<and> block_upd x (\<lambda>b. b\<lparr>blk_RefCount := 1, blk_InFreeQueue := False\<rparr>) m' = Some m'"
proof -
  have ok: "free_ok m (x # xs)" and refs: "refs_ok R m" and cache: "cache_ok m"
    using inv q by (auto simp: core_inv_def free_wf_def)
  obtain m' where m': "popFree m = Some ((x, True), m')" "free_ok m' xs"
    "cores m' = (cores m)[unat x := fresh_core]" "rest m' = rest (evict (bl m x) m)"
    using popFree_Cons [OF ok] by blast
  have x: "unat x < length (m_blocks m)" and xR: "x \<notin># R"
    using free_okD(1) [OF ok] core_inv_queued [OF inv] q by auto
  note f = bl_fields_cores [OF m'(3) x] and len = cores_length_eq [OF m'(3)]
  have fresh: "blk_RefCount fresh_core = 1" "\<not> blk_InFreeQueue fresh_core" "blk_Hash fresh_core = []"
    "blk_TokenCount fresh_core = 0" "\<not> blk_Cached fresh_core"
    by (simp_all add: fresh_core_def)
  have "refs_ok (add_mset x R) m'"
    using refs x xR f fresh len by (auto simp: refs_ok_def not_in_iff)
  moreover have "m_cachedBlocks m' = (if blk_Cached (bl m x) then fmdrop (blk_Hash (bl m x)) (m_cachedBlocks m) else m_cachedBlocks m)"
    using rest_fields(4) [OF m'(4)] by (simp add: evict_def)
  then have "cache_ok m'"
    by (intro cache_ok_evict [OF cache x len]) (auto simp: f x fresh)
  ultimately have "core_inv (add_mset x R) m'"
    using m'(2) core_invI by blast
  moreover have "alloc_frame [x] m m'"
    using f fresh len rest_fields [OF m'(4)] by (auto simp: alloc_frame_def meta_def)
  moreover have "(bl m' x)\<lparr>blk_RefCount := 1, blk_InFreeQueue := False\<rparr> = bl m' x"
    using f [OF x] fresh by simp
  then have "block_upd x (\<lambda>b. b\<lparr>blk_RefCount := 1, blk_InFreeQueue := False\<rparr>) m' = Some m'"
    using x len by (simp add: panic_simps)
  ultimately show ?thesis
    using m'(1) free_ok_ids [OF m'(2)] by blast
qed

lemma pops_refs:
  assumes "core_inv R m" and "n \<le> length (free_ids m)"
  shows "\<exists>m'. pops popFree n m = Some (take n (free_ids m), m') \<and> core_inv (R + mset (take n (free_ids m))) m' \<and>
     alloc_frame (take n (free_ids m)) m m' \<and>
     (\<forall>ids. allocateLoop n ids m = Some (Some (ids @ take n (free_ids m)), m'))"
  using assms
proof (induction n arbitrary: m R)
  case 0
  then show ?case by simp
next
  case (Suc n)
  then obtain x xs where q: "free_ids m = x # xs"
    by (cases "free_ids m") auto
  obtain m1 where m1: "popFree m = Some ((x, True), m1)" "core_inv (add_mset x R) m1" "free_ids m1 = xs"
    "alloc_frame [x] m m1" "block_upd x (\<lambda>b. b\<lparr>blk_RefCount := 1, blk_InFreeQueue := False\<rparr>) m1 = Some m1"
    using popFree_one [OF Suc.prems(1) q] by blast
  obtain m' where "pops popFree n m1 = Some (take n xs, m')" "core_inv (add_mset x R + mset (take n xs)) m'"
    "alloc_frame (take n xs) m1 m'" "\<forall>ids. allocateLoop n ids m1 = Some (Some (ids @ take n xs), m')"
    using Suc.IH [OF m1(2)] m1(3) Suc.prems(2) q by auto
  then show ?case
    using m1 q alloc_frame_trans [OF m1(4)] by simp
qed

text \<open>
  \<^verbatim>\<open>allocate(n)\<close> hands out the first \<open>n\<close> blocks of the free queue, or changes nothing when there
  are fewer.
\<close>

lemma allocate_spec:
  assumes inv: "core_inv R m"
  shows "if unat n \<le> length (free_ids m)
    then \<exists>m'. allocate n m = Some (Some (take (unat n) (free_ids m)), m') \<and>
           core_inv (R + mset (take (unat n) (free_ids m))) m' \<and>
           alloc_frame (take (unat n) (free_ids m)) m m' \<and> free_ids m' = drop (unat n) (free_ids m)
    else allocate n m = Some (None, m)"
proof -
  have c: "unat (m_freeCount m) = length (free_ids m)"
    using core_inv_freeD [OF inv] by (simp add: free_ok_def)
  show ?thesis
  proof (cases "unat n \<le> length (free_ids m)")
    case True
    then have "\<not> m_freeCount m < n"
      using c by (simp add: word_less_nat_alt)
    moreover obtain m' where "pops popFree (unat n) m = Some (take (unat n) (free_ids m), m')"
      "core_inv (R + mset (take (unat n) (free_ids m))) m'" "alloc_frame (take (unat n) (free_ids m)) m m'"
      "allocateLoop (unat n) [] m = Some (Some (take (unat n) (free_ids m)), m')"
      using pops_refs [OF inv True] by fastforce
    moreover from this(1) have "free_ids m' = drop (unat n) (free_ids m)"
      using fq.pops_take [OF _ True] inv by (auto simp: core_inv_def)
    ultimately show ?thesis
      using True by (auto simp: allocate_def)
  next
    case False
    then show ?thesis
      using c by (simp add: allocate_def word_less_nat_alt)
  qed
qed

end
