(* ===== verification/Prefix_Hash.thy ===== *)
theory Prefix_Hash
  imports Block_Manager
begin

text \<open>
  The prefix hashes of \<^verbatim>\<open>internal/block/block.go\<close>: \<^verbatim>\<open>blockHashes\<close> computes a hash chain over the full
  blocks of a prompt, seeded with the request's cache salt.  The theory relates the loop, with
  its 32-bit index arithmetic, to a plain definition of the chain, and shows what an equality of
  two chained hashes says about the salts and the token prefixes.
\<close>

subsection \<open>The chain\<close>

primrec hash_chain :: "nat \<Rightarrow> nat \<Rightarrow> string \<Rightarrow> u32 list \<Rightarrow> string list" where
  "hash_chain b 0 prev tokens = []"
| "hash_chain b (Suc n) prev tokens =
     (let h = hashBlock prev (take b tokens) in h # hash_chain b n h (drop b tokens))"

lemma length_hash_chain [simp]: "length (hash_chain b n prev tokens) = n"
  by (induction n arbitrary: prev tokens) (simp_all add: Let_def)

lemma take_hash_chain: "take k (hash_chain b n prev tokens) = hash_chain b (min k n) prev tokens"
proof (induction n arbitrary: k prev tokens)
  case (Suc n)
  then show ?case by (cases k) (simp_all add: Let_def)
qed simp

text \<open>The \<open>i\<close>-th hash of the chain is a function of the first \<open>i + 1\<close> blocks.\<close>

lemma hash_chain_take: "n * b \<le> length tokens \<Longrightarrow> hash_chain b n prev tokens = hash_chain b n prev (take (n * b) tokens)"
proof (induction n arbitrary: prev tokens)
  case (Suc n)
  have "hash_chain b n h (drop b tokens) = hash_chain b n h (take (n * b) (drop b tokens))" for h
    using Suc.prems by (intro Suc.IH) simp
  then show ?case
    by (simp add: Let_def min_def drop_take)
qed simp

lemma blockHashesLoop_chain:
  assumes "bs \<noteq> 0" "length tokens < 2 ^ 32" "(unat i + n) * unat bs \<le> length tokens"
  shows "blockHashesLoop bs tokens n i prev = Some (hash_chain (unat bs) n prev (drop (unat i * unat bs) tokens))"
  using assms(3)
proof (induction n arbitrary: i prev)
  case 0
  then show ?case by simp
next
  case (Suc n)
  let ?b = "unat bs" and ?s = "unat i * unat bs"
  have b1: "1 \<le> ?b"
    using assms(1) by (simp add: Suc_le_eq unat_gt_0)
  have le: "?s + ?b + n * ?b \<le> length tokens"
    using Suc.prems by (simp add: algebra_simps)
  have start: "unat (i * bs) = ?s"
    using le assms(2) by (intro unat_mult_u32) simp
  have stop: "unat (i * bs + bs) = ?s + ?b"
    using le assms(2) start by (subst unat_add_u32) simp_all
  have "unat i \<le> ?s"
    using b1 by simp
  then have "unat i + 1 < 2 ^ 32"
    using le b1 assms(2) by linarith
  then have i1: "unat (i + 1) = unat i + 1"
    by (subst unat_add_u32) simp_all
  have "slice tokens (unat (i * bs)) (unat (i * bs + bs)) = Some (take ?b (drop ?s tokens))"
    using le by (simp add: start stop slice_def)
  moreover have "blockHashesLoop bs tokens n (i + 1) h =
      Some (hash_chain ?b n h (drop ((unat i + 1) * ?b) tokens))" for h
  proof -
    have "(unat (i + 1) + n) * ?b \<le> length tokens"
      unfolding i1 using le by (simp add: algebra_simps)
    from Suc.IH [OF this, of h] show ?thesis
      unfolding i1 .
  qed
  ultimately show ?case
    by (simp add: Let_def algebra_simps)
qed

text \<open>\<^verbatim>\<open>blockHashes\<close> returns the chain over all full blocks and never panics.\<close>

lemma blockHashes_chain:
  assumes "m_blockSize m \<noteq> 0" "length (rq_TokenIDs req) < 2 ^ 32"
  shows "blockHashes m req = Some (hash_chain (unat (m_blockSize m))
     (length (rq_TokenIDs req) div unat (m_blockSize m)) (rq_CacheSalt req) (rq_TokenIDs req))"
proof -
  have "unat ((of_nat (length (rq_TokenIDs req)) :: u32) div m_blockSize m) =
      length (rq_TokenIDs req) div unat (m_blockSize m)"
    using assms(2) by (simp add: unat_div_distrib unat_of_nat)
  then show ?thesis
    using assms by (simp add: blockHashes_def Let_def blockHashesLoop_chain)
qed

text \<open>
  The reusable hashes are those of the blocks that end before the last token, so the last token
  of a prompt is always computed again.
\<close>

lemma matchableBlockHashes_chain:
  assumes "m_blockSize m \<noteq> 0" "length (rq_TokenIDs req) < 2 ^ 32"
  defines "n \<equiv> length (rq_TokenIDs req)" and "b \<equiv> unat (m_blockSize m)"
  shows "matchableBlockHashes m req =
    Some (hash_chain b (n div b) (rq_CacheSalt req) (rq_TokenIDs req),
          hash_chain b ((n - 1) div b) (rq_CacheSalt req) (rq_TokenIDs req))"
proof -
  have "min ((n - 1) div b) (n div b) = (n - 1) div b"
    by (simp add: div_le_mono min_def)
  then have "min (n div b) (if 0 < n then (n - 1) div b else 0) = (n - 1) div b"
    by (auto simp: min.commute)
  then show ?thesis
    using blockHashes_chain [OF assms(1,2)]
    by (simp add: matchableBlockHashes_def take_hash_chain n_def b_def Let_def min.assoc min.commute)
qed

lemma matchable_bound: "0 < n \<Longrightarrow> 0 < b \<Longrightarrow> ((n - 1) div b) * b < (n :: nat)"
  by (metis Suc_pred' div_times_less_eq_dividend le_imp_less_Suc)

subsection \<open>What a hash identifies\<close>

text \<open>
  The byte strings hashed along a chain.  SHA-256 is taken to have no collision among the
  strings that two given chains hash, the assumption under which content addressing is sound.
\<close>

definition hash_input :: "string \<Rightarrow> u32 list \<Rightarrow> byte list" where
  "hash_input prev tokens = bytes_of_string prev @ concat (map be32 tokens)"

primrec chain_inputs :: "nat \<Rightarrow> nat \<Rightarrow> string \<Rightarrow> u32 list \<Rightarrow> byte list set" where
  "chain_inputs b 0 prev tokens = {}"
| "chain_inputs b (Suc n) prev tokens =
     insert (hash_input prev (take b tokens))
       (chain_inputs b n (hashBlock prev (take b tokens)) (drop b tokens))"

lemma hashBlock_input: "hashBlock prev tokens = hex_encode (sha256 (hash_input prev tokens))"
  by (simp add: hashBlock_def hash_input_def)

lemma length_hashBlock [simp]: "length (hashBlock prev tokens) = 64"
  by (simp add: hashBlock_def)

lemma hash_input_inj:
  assumes "hash_input p ts = hash_input q us" "length ts = length us"
  shows "p = q \<and> ts = us"
proof -
  have "length (bytes_of_string p) = length (bytes_of_string q)"
    using arg_cong [OF assms(1), of length] assms(2) by (simp add: hash_input_def length_concat_be32)
  then show ?thesis
    using assms(1) by (simp add: hash_input_def bytes_of_string_inj concat_be32_inj del: length_bytes_of_string)
qed

lemma hash_chain_nth:
  "i < n \<Longrightarrow> hash_chain b n prev tokens ! i =
     hashBlock (if i = 0 then prev else hash_chain b n prev tokens ! (i - 1)) (take b (drop (i * b) tokens))"
proof (induction n arbitrary: i prev tokens)
  case (Suc n)
  show ?case
  proof (cases i)
    case (Suc k)
    then have "hash_chain b n (hashBlock prev (take b tokens)) (drop b tokens) ! k =
        hashBlock (if k = 0 then hashBlock prev (take b tokens)
                   else hash_chain b n (hashBlock prev (take b tokens)) (drop b tokens) ! (k - 1))
          (take b (drop (k * b) (drop b tokens)))"
      using Suc.prems by (intro Suc.IH) simp
    then show ?thesis
      using Suc by (cases k) (simp_all add: Let_def add.commute)
  qed (simp add: Let_def)
qed simp

lemma chain_inputs_nth:
  "i < n \<Longrightarrow> hash_input (if i = 0 then prev else hash_chain b n prev tokens ! (i - 1)) (take b (drop (i * b) tokens))
     \<in> chain_inputs b n prev tokens"
proof (induction n arbitrary: i prev tokens)
  case (Suc n)
  show ?case
  proof (cases i)
    case (Suc k)
    then have "hash_input (if k = 0 then hashBlock prev (take b tokens)
                   else hash_chain b n (hashBlock prev (take b tokens)) (drop b tokens) ! (k - 1))
          (take b (drop (k * b) (drop b tokens))) \<in> chain_inputs b n (hashBlock prev (take b tokens)) (drop b tokens)"
      using Suc.prems by (intro Suc.IH) simp
    then show ?thesis
      using Suc by (cases k) (simp_all add: Let_def add.commute)
  qed (simp add: Let_def)
qed simp

text \<open>Hashes are hexadecimal, salts are not: a salt carries a colon.\<close>

lemma hex_digit_not_colon: "i < 16 \<Longrightarrow> hex_digit i \<noteq> CHR '':''"
proof -
  assume "i < 16"
  then have "hex_digit i \<in> set ''0123456789abcdef''"
    unfolding hex_digit_def by (intro nth_mem) simp
  then show ?thesis by auto
qed

lemma hex_encode_not_colon: "CHR '':'' \<notin> set (hex_encode bs)"
proof -
  have "CHR '':'' \<notin> set (hex_byte b)" for b
  proof -
    have "unat b < 2 ^ LENGTH(8)" by (rule unsigned_less)
    then have "unat b div 16 < 16" "unat b mod 16 < 16" by auto
    then show ?thesis
      using hex_digit_not_colon by (metis empty_iff empty_set hex_byte_def set_ConsD)
  qed
  then show ?thesis by (simp add: hex_encode_def)
qed

lemma hash_chain_not_colon: "i < n \<Longrightarrow> CHR '':'' \<notin> set (hash_chain b n s ts ! i)"
  using hash_chain_nth [of i n b s ts] hex_encode_not_colon by (simp add: hashBlock_input)

lemma hash_chain_step:
  assumes inj: "inj_on sha256 (chain_inputs b n s ts \<union> chain_inputs b k u us)"
    and len: "n * b \<le> length ts" "k * b \<le> length us"
    and ij: "i < n" "j < k" "hash_chain b n s ts ! i = hash_chain b k u us ! j"
  shows "(if i = 0 then s else hash_chain b n s ts ! (i - 1)) = (if j = 0 then u else hash_chain b k u us ! (j - 1)) \<and>
    take b (drop (i * b) ts) = take b (drop (j * b) us)"
proof (rule hash_input_inj)
  let ?x = "hash_input (if i = 0 then s else hash_chain b n s ts ! (i - 1)) (take b (drop (i * b) ts))"
  let ?y = "hash_input (if j = 0 then u else hash_chain b k u us ! (j - 1)) (take b (drop (j * b) us))"
  have "sha256 ?x = sha256 ?y"
    using ij(3) hash_chain_nth [OF ij(1), of b s ts] hash_chain_nth [OF ij(2), of b u us]
    by (simp add: hashBlock_input hex_encode_inj)
  then show "?x = ?y"
    using inj chain_inputs_nth [OF ij(1), of s b ts] chain_inputs_nth [OF ij(2), of u b us]
    by (simp add: inj_on_eq_iff)
  have "Suc i * b \<le> n * b" "Suc j * b \<le> k * b"
    using ij(1,2) by (simp_all only: mult_le_mono1 Suc_leI)
  then show "length (take b (drop (i * b) ts)) = length (take b (drop (j * b) us))"
    using len by simp
qed

text \<open>
  Two chained hashes agree only when they are at the same position of chains with the same salt
  and the same tokens up to the end of that block.
\<close>

lemma hash_chain_identifies:
  assumes inj: "inj_on sha256 (chain_inputs b n s ts \<union> chain_inputs b k u us)"
    and salts: "CHR '':'' \<in> set s" "CHR '':'' \<in> set u"
    and len: "n * b \<le> length ts" "k * b \<le> length us"
    and ij: "i < n" "j < k" "hash_chain b n s ts ! i = hash_chain b k u us ! j"
  shows "i = j \<and> s = u \<and> take (Suc i * b) ts = take (Suc i * b) us"
  using ij
proof (induction i arbitrary: j)
  case (0 j)
  have st: "s = (if j = 0 then u else hash_chain b k u us ! (j - 1))" "take b ts = take b (drop (j * b) us)"
    using hash_chain_step [OF inj len 0] by simp_all
  then have "j = 0"
    using salts(1) hash_chain_not_colon [of "j - 1" k b u us] 0(2) by (auto split: if_splits)
  with st show ?case by simp
next
  case (Suc i j)
  have st: "hash_chain b n s ts ! i = (if j = 0 then u else hash_chain b k u us ! (j - 1))"
      "take b (drop (Suc i * b) ts) = take b (drop (j * b) us)"
    using hash_chain_step [OF inj len Suc.prems] by simp_all
  then have j: "j \<noteq> 0"
    using salts(2) hash_chain_not_colon [of i n b s ts] Suc.prems(1) by (auto split: if_splits)
  then have "i = j - 1 \<and> s = u \<and> take (Suc i * b) ts = take (Suc i * b) us"
    using st(1) Suc.prems by (intro Suc.IH) auto
  moreover from this have "j = Suc i"
    using j by simp
  moreover have "take (Suc (Suc i) * b) vs = take (Suc i * b) vs @ take b (drop (Suc i * b) vs)" for vs :: "u32 list"
    using take_add [of "Suc i * b" b vs] by (simp add: add.commute)
  ultimately show ?case
    using st(2) by (simp del: mult_Suc)
qed

end
