(* ===== verification/Block_Invariant.thy ===== *)
theory Block_Invariant
  imports Block_Refs Prefix_Hash
begin

text \<open>
  The invariant of a block manager between operations, and that every operation keeps it and
  does not panic.  Outstanding references are the blocks in the request tables, a multiset \<open>P\<close>
  of blocks pinned as the source of a transfer, and a multiset \<open>V\<close> of blocks reserved as the
  destination of one; the registry accounts for \<open>P\<close> and \<open>V\<close>.  A reserved block is blank and
  nobody else references it.
\<close>

subsection \<open>The invariant\<close>

definition tables :: "(string, u32 list) fmap \<Rightarrow> u32 multiset" where
  "tables rb = (\<Sum>r \<in> fset (fmdom rb). mset (the (fmlookup rb r)))"

lemma tables_empty [simp]: "tables fmempty = {#}"
  by (simp add: tables_def)

lemma tables_drop_sum: "tables (fmdrop r rb) = (\<Sum>q \<in> fset (fmdom rb) - {r}. mset (the (fmlookup rb q)))"
  unfolding tables_def by (rule sum.cong) auto

lemma tables_split: "tables rb = tables (fmdrop r rb) + mset (case fmlookup rb r of None \<Rightarrow> [] | Some ids \<Rightarrow> ids)"
proof (cases "fmlookup rb r")
  case None
  then have "fset (fmdom rb) - {r} = fset (fmdom rb)"
    by (auto simp: fmdom_notI)
  with None show ?thesis
    unfolding tables_drop_sum by (simp add: tables_def)
next
  case (Some ids)
  then have "r \<in> fset (fmdom rb)"
    by (simp add: fmdomI)
  with Some show ?thesis
    unfolding tables_drop_sum by (simp add: tables_def sum.remove [of _ r] add.commute)
qed

lemma tables_upd: "tables (fmupd r ids rb) = tables (fmdrop r rb) + mset ids"
  using tables_split [of "fmupd r ids rb" r] by (simp add: fmdrop_fmupd_same)

text \<open>
  A pending allocation is filed under its own work item, carries the manager's block size and the
  request's current table, and the blocks it added are the end of that table.  No request has two.
\<close>

definition work_ok :: "manager \<Rightarrow> string \<Rightarrow> BlockAllocation \<Rightarrow> bool" where
  "work_ok m w al \<longleftrightarrow> al_WorkID al = w \<and> al_BlockSize al = m_blockSize m \<and>
     fmlookup (m_requestBlocks m) (al_RequestID al) = Some (al_BlockTable al) \<and>
     (\<exists>pre. al_BlockTable al = pre @ al_AllocatedBlocks al)"

definition pend_ok :: "manager \<Rightarrow> bool" where
  "pend_ok m \<longleftrightarrow>
     (\<forall>w al. fmlookup (m_pendingAllocations m) w = Some al \<longrightarrow> work_ok m w al) \<and>
     (\<forall>w w' al al'. fmlookup (m_pendingAllocations m) w = Some al \<longrightarrow>
        fmlookup (m_pendingAllocations m) w' = Some al' \<longrightarrow> al_RequestID al = al_RequestID al' \<longrightarrow> w = w')"

definition idle :: "string \<Rightarrow> manager \<Rightarrow> bool" where
  "idle r m \<longleftrightarrow> (\<forall>w al. fmlookup (m_pendingAllocations m) w = Some al \<longrightarrow> al_RequestID al \<noteq> r)"

lemma pend_okD: "pend_ok m \<Longrightarrow> fmlookup (m_pendingAllocations m) w = Some al \<Longrightarrow> work_ok m w al"
  by (simp add: pend_ok_def)

lemma pend_ok_other:
  assumes "pend_ok m" "idle r m" "m_pendingAllocations m' = m_pendingAllocations m" "m_blockSize m' = m_blockSize m"
    "\<And>q. q \<noteq> r \<Longrightarrow> fmlookup (m_requestBlocks m') q = fmlookup (m_requestBlocks m) q"
  shows "pend_ok m'"
proof -
  have "work_ok m' w al" if "fmlookup (m_pendingAllocations m) w = Some al" for w al
    using that assms(2,4,5) pend_okD [OF assms(1) that] by (simp add: work_ok_def idle_def)
  then show ?thesis
    using assms(1,3) by (simp add: pend_ok_def)
qed

lemma pend_ok_drop:
  assumes "pend_ok m" "fmlookup (m_pendingAllocations m) w = Some al"
  shows "pend_ok (m\<lparr>m_pendingAllocations := fmdrop w (m_pendingAllocations m)\<rparr>)"
    "idle (al_RequestID al) (m\<lparr>m_pendingAllocations := fmdrop w (m_pendingAllocations m)\<rparr>)"
proof -
  have "w' = w" if "fmlookup (m_pendingAllocations m) w' = Some al'" "al_RequestID al' = al_RequestID al" for w' al'
    using assms that unfolding pend_ok_def by blast
  then show "idle (al_RequestID al) (m\<lparr>m_pendingAllocations := fmdrop w (m_pendingAllocations m)\<rparr>)"
    by (auto simp: idle_def split: if_splits)
  show "pend_ok (m\<lparr>m_pendingAllocations := fmdrop w (m_pendingAllocations m)\<rparr>)"
    using assms by (auto simp: pend_ok_def work_ok_def split: if_splits)
qed

lemma pend_ok_add:
  assumes "pend_ok m" "idle (al_RequestID al) m" "work_ok m w al"
  shows "pend_ok (m\<lparr>m_pendingAllocations := fmupd w al (m_pendingAllocations m)\<rparr>)"
proof -
  let ?m' = "m\<lparr>m_pendingAllocations := fmupd w al (m_pendingAllocations m)\<rparr>"
  have ne: "al_RequestID al' \<noteq> al_RequestID al" if "fmlookup (m_pendingAllocations m) w' = Some al'" for w' al'
    using assms(2) that by (simp add: idle_def)
  have "work_ok ?m' w' al'" if "fmlookup (m_pendingAllocations ?m') w' = Some al'" for w' al'
    using that assms(3) pend_okD [OF assms(1)] by (auto simp: work_ok_def split: if_splits)
  moreover have "w1 = w2"
    if "fmlookup (m_pendingAllocations ?m') w1 = Some a1" "fmlookup (m_pendingAllocations ?m') w2 = Some a2"
      "al_RequestID a1 = al_RequestID a2" for w1 w2 a1 a2
    using assms(1) ne that by (auto simp: pend_ok_def split: if_splits)
  ultimately show ?thesis
    unfolding pend_ok_def by blast
qed

definition refs :: "u32 multiset \<Rightarrow> u32 multiset \<Rightarrow> manager \<Rightarrow> u32 multiset" where
  "refs P V m = tables (m_requestBlocks m) + P + V"

definition resv_ok :: "u32 multiset \<Rightarrow> u32 multiset \<Rightarrow> manager \<Rightarrow> bool" where
  "resv_ok P V m \<longleftrightarrow> (\<forall>x \<in># V. count (refs P V m) x = 1 \<and> \<not> blk_Cached (bl m x))"

definition mgr_inv :: "u32 multiset \<Rightarrow> u32 multiset \<Rightarrow> manager \<Rightarrow> bool" where
  "mgr_inv P V m \<longleftrightarrow> core_inv (refs P V m) m \<and> resv_ok P V m \<and> pend_ok m \<and> m_blockSize m \<noteq> 0"

text \<open>No reference count is close to overflowing: room for \<open>k\<close> more references.\<close>

definition refs_room :: "u32 multiset \<Rightarrow> u32 multiset \<Rightarrow> manager \<Rightarrow> nat \<Rightarrow> bool" where
  "refs_room P V m k \<longleftrightarrow> size (refs P V m) + k < 2 ^ 32"

lemma refs_roomD: "refs_room P V m k \<Longrightarrow> count (refs P V m) x + k < 2 ^ 32"
  using count_le_size [of "refs P V m" x] by (simp add: refs_room_def)

lemma mgr_invD:
  assumes "mgr_inv P V m"
  shows "core_inv (refs P V m) m" "resv_ok P V m" "pend_ok m" "m_blockSize m \<noteq> 0"
  using assms by (auto simp: mgr_inv_def)

text \<open>A block of a request table is not reserved.\<close>

lemma table_not_reserved:
  assumes "mgr_inv P V m" "x \<in># tables (m_requestBlocks m)"
  shows "x \<notin># V"
proof
  assume "x \<in># V"
  then have "count (refs P V m) x = 1" "0 < count V x" "0 < count (tables (m_requestBlocks m)) x"
    using assms by (auto simp: mgr_inv_def resv_ok_def)
  then show False
    by (simp add: refs_def)
qed

lemma refs_in_range: "mgr_inv P V m \<Longrightarrow> x \<in># refs P V m \<Longrightarrow> unat x < length (m_blocks m)"
  by (simp add: mgr_inv_def core_inv_def refs_ok_def)

lemma requestBlocks_refs:
  assumes "x \<in> set (requestBlocksOf r m)"
  shows "x \<in># tables (m_requestBlocks m)"
  using assms tables_split [of "m_requestBlocks m" r] by (auto simp: requestBlocksOf_def split: option.splits)

subsection \<open>Fields the invariants do not read\<close>

lemma free_walk_cong: "m_blocks m' = m_blocks m \<Longrightarrow> free_walk n c m' = free_walk n c m"
  by (induction n arbitrary: c) (simp_all add: nxt_def)

lemma core_inv_cong:
  assumes "m_blocks m' = m_blocks m" "m_freeHead m' = m_freeHead m" "m_freeTail m' = m_freeTail m"
    "m_freeCount m' = m_freeCount m" "m_cachedBlocks m' = m_cachedBlocks m"
  shows "core_inv R m' \<longleftrightarrow> core_inv R m"
proof -
  have "free_ids m' = free_ids m"
    using assms free_walk_cong [OF assms(1)] by (simp add: free_ids_def)
  then have "free_wf m' \<longleftrightarrow> free_wf m"
    using free_ok_other_fields [OF assms(1-4)] by (simp add: free_wf_def)
  then show ?thesis
    using assms by (simp add: core_inv_def refs_ok_def cache_ok_def)
qed

lemma core_inv_fields [simp]:
  "core_inv R (m\<lparr>m_metrics := v\<rparr>) \<longleftrightarrow> core_inv R m"
  "core_inv R (m\<lparr>m_requestBlocks := rb\<rparr>) \<longleftrightarrow> core_inv R m"
  "core_inv R (m\<lparr>m_pendingAllocations := pa\<rparr>) \<longleftrightarrow> core_inv R m"
  by (rule core_inv_cong; simp)+

lemma observeBlockStats_frame [simp]:
  "m_blocks (observeBlockStats m) = m_blocks m" "m_requestBlocks (observeBlockStats m) = m_requestBlocks m"
  "m_cachedBlocks (observeBlockStats m) = m_cachedBlocks m"
  "m_pendingAllocations (observeBlockStats m) = m_pendingAllocations m"
  "m_blockSize (observeBlockStats m) = m_blockSize m" "m_executorID (observeBlockStats m) = m_executorID m"
  "m_freeHead (observeBlockStats m) = m_freeHead m" "m_freeTail (observeBlockStats m) = m_freeTail m"
  "m_freeCount (observeBlockStats m) = m_freeCount m"
  by (simp_all add: observeBlockStats_def Let_def)

lemma core_inv_observe [simp]: "core_inv R (observeBlockStats m) \<longleftrightarrow> core_inv R m"
  by (rule core_inv_cong) simp_all

lemma free_ids_observe [simp]: "free_ids (observeBlockStats m) = free_ids m"
  by (simp add: free_ids_def free_walk_cong [of "observeBlockStats m" m])

lemma pend_ok_cong:
  assumes "m_requestBlocks m' = m_requestBlocks m" "m_pendingAllocations m' = m_pendingAllocations m"
    "m_blockSize m' = m_blockSize m"
  shows "pend_ok m' \<longleftrightarrow> pend_ok m"
  using assms by (simp add: pend_ok_def work_ok_def)

lemma mgr_inv_cong:
  assumes "m_blocks m' = m_blocks m" "m_freeHead m' = m_freeHead m" "m_freeTail m' = m_freeTail m"
    "m_freeCount m' = m_freeCount m" "m_cachedBlocks m' = m_cachedBlocks m"
    "m_requestBlocks m' = m_requestBlocks m" "m_pendingAllocations m' = m_pendingAllocations m"
    "m_blockSize m' = m_blockSize m"
  shows "mgr_inv P V m' \<longleftrightarrow> mgr_inv P V m"
  using core_inv_cong [OF assms(1-5)] pend_ok_cong [OF assms(6-8)] assms
  by (simp add: mgr_inv_def refs_def resv_ok_def)

lemma mgr_inv_observe [simp]: "mgr_inv P V (observeBlockStats m) \<longleftrightarrow> mgr_inv P V m"
  by (rule mgr_inv_cong) simp_all

lemma mgr_inv_metrics [simp]: "mgr_inv P V (m\<lparr>m_metrics := v\<rparr>) \<longleftrightarrow> mgr_inv P V m"
  by (rule mgr_inv_cong) simp_all

subsection \<open>Construction\<close>

lemma dlseg_upt:
  assumes "a < n" and "\<And>i. a \<le> i \<Longrightarrow> i < n \<Longrightarrow>
      P (of_nat i) = (if i = a then p else of_nat (i - 1)) \<and> N (of_nat i) = (if i + 1 = n then - 1 else of_nat (i + 1))"
  shows "dlseg P N p (of_nat a) (map of_nat [a..<n]) (- 1) (of_nat (n - 1))"
  using assms
proof (induction "n - a" arbitrary: a p)
  case 0
  then show ?case by simp
next
  case (Suc k)
  have u: "[a..<n] = a # [Suc a..<n]"
    using Suc.prems(1) by (simp add: upt_conv_Cons)
  have a: "P (of_nat a) = p" "N (of_nat a) = (if a + 1 = n then - 1 else of_nat (a + 1))"
    using Suc.prems by simp_all
  show ?case
  proof (cases "a + 1 = n")
    case True
    then show ?thesis using a u by auto
  next
    case False
    then have "dlseg P N (of_nat a) (of_nat (Suc a)) (map of_nat [Suc a..<n]) (- 1) (of_nat (n - 1))"
      using Suc.prems Suc.hyps(2) by (intro Suc.hyps(1)) auto
    then show ?thesis using a u False by simp
  qed
qed

text \<open>The blocks a new manager starts with.\<close>

lemma newManager_blocks:
  assumes "newManager (Some r) = Inr m"
  defines "n \<equiv> unat (es_NumKvBlocks r)"
  shows "0 < n" "length (m_blocks m) = n"
    "i < n \<Longrightarrow> m_blocks m ! i = \<lparr>blk_Hash = [], blk_RefCount = 0, blk_TokenCount = 0, blk_Cached = False,
       blk_InFreeQueue = True, blk_PrevFree = (if i = 0 then - 1 else of_nat (i - 1)),
       blk_NextFree = (if i + 1 = n then - 1 else of_nat (i + 1))\<rparr>"
    "m_freeHead m = 0" "m_freeTail m = of_nat (n - 1)" "unat (m_freeCount m) = n"
    "m_requestBlocks m = fmempty" "m_cachedBlocks m = fmempty" "m_pendingAllocations m = fmempty"
    "m_blockSize m \<noteq> 0" "m_blockSize m = es_BlockSize r" "m_executorID m = es_ExecutorId r"
proof -
  have k: "es_NumKvBlocks r \<noteq> 0" "es_BlockSize r \<noteq> 0"
    using assms(1) by (auto simp: newManager_def split: if_splits)
  then show n0: "0 < n"
    by (simp add: n_def unat_gt_0)
  have tail: "es_NumKvBlocks r - 1 = of_nat (n - 1)"
    using n0 by (simp add: n_def)
  show "length (m_blocks m) = n" "m_freeHead m = 0" "m_freeTail m = of_nat (n - 1)" "unat (m_freeCount m) = n"
    "m_requestBlocks m = fmempty" "m_cachedBlocks m = fmempty" "m_pendingAllocations m = fmempty"
    "m_blockSize m \<noteq> 0" "m_blockSize m = es_BlockSize r" "m_executorID m = es_ExecutorId r"
    using assms(1) k tail by (auto simp: newManager_def Let_def n_def split: if_splits)
  show "m_blocks m ! i = \<lparr>blk_Hash = [], blk_RefCount = 0, blk_TokenCount = 0, blk_Cached = False,
       blk_InFreeQueue = True, blk_PrevFree = (if i = 0 then - 1 else of_nat (i - 1)),
       blk_NextFree = (if i + 1 = n then - 1 else of_nat (i + 1))\<rparr>" if "i < n"
    using assms(1) k that n0
    by (auto simp: newManager_def Let_def n_def nth_list_update split: if_splits)
qed

lemma newManager_inv:
  assumes new: "newManager (Some r) = Inr m" and n: "unat (es_NumKvBlocks r) \<le> 2 ^ 31"
  shows "mgr_inv {#} {#} m" "free_ids m = map of_nat [0..<unat (es_NumKvBlocks r)]"
proof -
  let ?n = "unat (es_NumKvBlocks r)" and ?fl = "map of_nat [0..<unat (es_NumKvBlocks r)] :: u32 list"
  note b = newManager_blocks [OF new]
  have u: "unat (of_nat i :: u32) = i" if "i < ?n" for i
    using that n by (intro unat_of_nat_u32) simp
  have seg: "dlseg (prv m) (nxt m) (- 1) (m_freeHead m) ?fl (- 1) (m_freeTail m)"
    using dlseg_upt [of 0 ?n "prv m" "- 1" "nxt m"] b u by (simp add: prv_def nxt_def)
  have mem: "x \<in> set ?fl \<longleftrightarrow> unat x < ?n" for x :: u32
    using u by (force simp: image_iff)
  have "distinct ?fl"
    using u by (auto simp: distinct_map inj_on_def) (metis atLeastLessThan_iff u)
  with seg mem have ok: "free_ok m ?fl"
    using b n by (auto simp: free_ok_def)
  then show "free_ids m = ?fl"
    by (rule free_ok_ids)
  have "refs_ok {#} m" "cache_ok m"
    using b by (auto simp: refs_ok_def cache_ok_def)
  then show "mgr_inv {#} {#} m"
    using core_invI [OF ok] b by (simp add: mgr_inv_def pend_ok_def refs_def resv_ok_def)
qed

subsection \<open>Prefix matching\<close>

text \<open>The cached blocks for the longest cached prefix of a list of hashes.\<close>

definition cached_prefix :: "manager \<Rightarrow> string list \<Rightarrow> string list" where
  "cached_prefix m hs = takeWhile (has_key (m_cachedBlocks m)) hs"

definition matched_ids :: "manager \<Rightarrow> string list \<Rightarrow> u32 list" where
  "matched_ids m hs = map (\<lambda>h. the (fmlookup (m_cachedBlocks m) h)) (cached_prefix m hs)"

lemma matched_ids_cached: "x \<in> set (matched_ids m hs) \<Longrightarrow> \<exists>h. fmlookup (m_cachedBlocks m) h = Some x"
  using set_takeWhileD by (fastforce simp: matched_ids_def cached_prefix_def)

lemma matchLoop_spec:
  assumes "core_inv R m" and "\<forall>x. count R x + length hs < 2 ^ 32"
  shows "\<exists>m'. matchLoop hs ids m = Some (ids @ matched_ids m hs, m') \<and>
     core_inv (R + mset (matched_ids m hs)) m' \<and> metas m' = metas m \<and> rest m' = rest m"
  using assms
proof (induction hs arbitrary: ids m R)
  case Nil
  then show ?case by (simp add: matched_ids_def cached_prefix_def)
next
  case (Cons h hs)
  show ?case
  proof (cases "fmlookup (m_cachedBlocks m) h")
    case None
    then show ?thesis
      using Cons.prems(1) by (simp add: matched_ids_def cached_prefix_def)
  next
    case (Some x)
    then have x: "unat x < length (m_blocks m)"
      using Cons.prems(1) by (simp add: core_inv_def cache_okD)
    have "count R x + 1 < 2 ^ 32"
      using Cons.prems(2) [rule_format, of x] by simp
    then obtain m1 where m1: "touch [x] m = Some m1" "core_inv (add_mset x R) m1" "metas m1 = metas m" "rest m1 = rest m"
      using touch_one [OF Cons.prems(1) x] by blast
    have "count (add_mset x R) y + length hs < 2 ^ 32" for y
      using Cons.prems(2) [rule_format, of y] by simp
    moreover have "matched_ids m1 hs = matched_ids m hs"
      using rest_fields(4) [OF m1(4)] by (simp add: matched_ids_def cached_prefix_def)
    ultimately obtain m' where "matchLoop hs (ids @ [x]) m1 = Some ((ids @ [x]) @ matched_ids m hs, m')"
      "core_inv (add_mset x R + mset (matched_ids m hs)) m'" "metas m' = metas m1" "rest m' = rest m1"
      using Cons.IH [OF m1(2), of "ids @ [x]"] by auto
    moreover have "matched_ids m (h # hs) = x # matched_ids m hs"
      using Some by (simp add: matched_ids_def cached_prefix_def)
    ultimately show ?thesis
      using Some m1 by (simp del: touch.simps)
  qed
qed

text \<open>
  \<^verbatim>\<open>MatchPrefix\<close> for a request that holds no blocks: it returns the blocks of the longest cached
  prefix among the reusable hashes, takes one reference on each and records them as the request's
  block table.
\<close>

lemma MatchPrefix_spec:
  assumes inv: "mgr_inv P V m" and len: "length (rq_TokenIDs req) < 2 ^ 32"
    and room: "refs_room P V m (length (rq_TokenIDs req))"
    and new: "requestBlocksOf (rq_RequestId req) m = []"
    and idle: "idle (rq_RequestId req) m"
  defines "b \<equiv> unat (m_blockSize m)" and "n \<equiv> length (rq_TokenIDs req)"
  defines "ids \<equiv> matched_ids m (hash_chain b ((n - 1) div b) (rq_CacheSalt req) (rq_TokenIDs req))"
  defines "cache \<equiv> \<lparr>pm_Hit = (ids \<noteq> []), pm_CachedTokens = of_nat (length ids) * m_blockSize m, pm_BlockIDs = ids,
      pm_HashesTotal = hash_chain b (n div b) (rq_CacheSalt req) (rq_TokenIDs req)\<rparr>"
  shows "\<exists>m'. manager_MatchPrefix req m = Some ((cache, req\<lparr>rq_Cache := Some cache\<rparr>), m') \<and> mgr_inv P V m' \<and>
     m_requestBlocks m' = fmupd (rq_RequestId req) ids (m_requestBlocks m) \<and>
     m_cachedBlocks m' = m_cachedBlocks m \<and> metas m' = metas m \<and> m_blockSize m' = m_blockSize m \<and>
     m_pendingAllocations m' = m_pendingAllocations m"
proof -
  let ?r = "rq_RequestId req" and ?hs = "hash_chain b ((n - 1) div b) (rq_CacheSalt req) (rq_TokenIDs req)"
  note inv' = mgr_invD [OF inv]
  have "length ?hs \<le> n"
    by (metis diff_le_self div_le_dividend le_trans length_hash_chain)
  then have "\<forall>x. count (refs P V m) x + length ?hs < 2 ^ 32"
    using refs_roomD [OF room] n_def by (metis add_le_mono le_less_trans le_refl)
  then obtain m1 where m1: "matchLoop ?hs [] m = Some (ids, m1)" "core_inv (refs P V m + mset ids) m1"
    "metas m1 = metas m" "rest m1 = rest m"
    using matchLoop_spec [OF inv'(1), of ?hs "[]"] ids_def by auto
  let ?m' = "observeBlockStats (m1\<lparr>m_requestBlocks := fmupd ?r ids (m_requestBlocks m1)\<rparr>)"
  note rf = rest_fields [OF m1(4)]
  have "tables (m_requestBlocks m) = tables (fmdrop ?r (m_requestBlocks m))"
    using tables_split [of "m_requestBlocks m" ?r] new by (auto simp: requestBlocksOf_def split: option.splits)
  then have R: "refs P V ?m' = refs P V m + mset ids"
    using rf by (simp add: refs_def tables_upd ac_simps)
  have cached: "blk_Cached (bl m x)" if "x \<in> set ids" for x
  proof -
    have "\<exists>h. fmlookup (m_cachedBlocks m) h = Some x"
      using that unfolding ids_def by (rule matched_ids_cached)
    then obtain h where "fmlookup (m_cachedBlocks m) h = Some x"
      by blast
    then show ?thesis
      using inv'(1) cache_okD [of m h x] by (simp add: core_inv_def)
  qed
  have "resv_ok P V ?m'"
    unfolding resv_ok_def R
  proof
    fix x assume x: "x \<in># V"
    then have "x \<notin> set ids" "unat x < length (m_blocks m)"
      using cached inv'(2) refs_in_range [OF inv] by (auto simp: resv_ok_def refs_def)
    then show "count (refs P V m + mset ids) x = 1 \<and> \<not> blk_Cached (bl ?m' x)"
      using x inv'(2) metas_nth(3) [OF m1(3)] by (simp add: resv_ok_def count_mset_0_iff)
  qed
  moreover have "pend_ok ?m'"
    using rf by (intro pend_ok_other [OF inv'(3) idle]) auto
  moreover have "core_inv (refs P V ?m') ?m'"
    unfolding R using m1(2) by simp
  ultimately have "mgr_inv P V ?m'"
    using inv'(4) rf(2) by (simp add: mgr_inv_def)
  moreover have "manager_MatchPrefix req m = Some ((cache, req\<lparr>rq_Cache := Some cache\<rparr>), ?m')"
    using matchableBlockHashes_chain [OF inv'(4) len] m1(1)
    by (simp add: manager_MatchPrefix_def Let_def cache_def b_def n_def)
  moreover have "metas ?m' = metas m"
    using m1(3) by (simp add: metas_def)
  ultimately show ?thesis
    using rf by auto
qed

text \<open>The matched tokens end before the last token of the prompt.\<close>

lemma matched_tokens_bound:
  fixes s :: string
  assumes inv: "mgr_inv P V m" and len: "length ts < 2 ^ 32"
  defines "b \<equiv> unat (m_blockSize m)"
  defines "ids \<equiv> matched_ids m (hash_chain b ((length ts - 1) div b) s ts)"
  shows "unat (of_nat (length ids) * m_blockSize m) = length ids * b" "unat (of_nat (length ids) * m_blockSize m) \<le> length ts - 1"
proof -
  let ?n = "length ts" and ?hs = "hash_chain b ((length ts - 1) div b) s ts"
  have b0: "0 < b"
    using mgr_invD(4) [OF inv] by (simp add: b_def unat_gt_0)
  have "length ids \<le> (?n - 1) div b"
    using length_takeWhile_le [of _ ?hs] by (simp add: ids_def matched_ids_def cached_prefix_def)
  then have le: "length ids * b \<le> (?n - 1) div b * b"
    by simp
  also have "\<dots> \<le> ?n - 1"
    by simp
  finally have n: "length ids * b \<le> ?n - 1" .
  have "length ids \<le> length ids * b"
    using b0 by simp
  then have "unat (of_nat (length ids) :: u32) = length ids" "length ids * b < 2 ^ 32"
    using len n unat_of_nat_u32 [of "length ids"] by linarith+
  then show "unat (of_nat (length ids) * m_blockSize m) = length ids * b"
    by (subst unat_mult_u32) (simp_all add: b_def)
  then show "unat (of_nat (length ids) * m_blockSize m) \<le> ?n - 1"
    using n by simp
qed

end
