(* ===== verification/Block_Lifecycle.thy ===== *)
theory Block_Lifecycle
  imports Block_Invariant
begin

text \<open>
  The life of a request's blocks: \<^verbatim>\<open>AllocateBlocks\<close>, \<^verbatim>\<open>Commit\<close>, \<^verbatim>\<open>Rollback\<close> and \<^verbatim>\<open>FreeRequest\<close>
  keep the manager's invariant, never panic on a state that has it, and do exactly what their
  contract says to the request tables, the free queue and the prefix index.
\<close>

subsection \<open>Reserved blocks\<close>

lemma resv_ok_keep:
  assumes "resv_ok P V m"
    and "\<And>x. x \<in># V \<Longrightarrow> count (refs P V m') x = count (refs P V m) x \<and> blk_Cached (bl m' x) = blk_Cached (bl m x)"
  shows "resv_ok P V m'"
  using assms by (simp add: resv_ok_def)

lemma mgr_invI:
  assumes "core_inv (refs P V m) m" "resv_ok P V m" "pend_ok m" "m_blockSize m \<noteq> 0"
  shows "mgr_inv P V m"
  using assms by (simp add: mgr_inv_def)

lemma reserved_refs: "x \<in># V \<Longrightarrow> x \<in># refs P V m"
  by (simp add: refs_def)

lemma free_not_refs:
  assumes "mgr_inv P V m" "x \<in> set (free_ids m)"
  shows "x \<notin># refs P V m" "unat x < length (m_blocks m)"
proof -
  note c = mgr_invD(1) [OF assms(1)]
  show "unat x < length (m_blocks m)"
    using free_okD(1) [OF core_inv_freeD [OF c]] assms(2) by blast
  then show "x \<notin># refs P V m"
    using core_inv_queued [OF c] assms(2) by blast
qed

text \<open>The free queue holds exactly the blocks nobody references.\<close>

lemma free_set:
  assumes "mgr_inv P V m"
  shows "set (free_ids m) = {x. unat x < length (m_blocks m) \<and> x \<notin># refs P V m}"
proof -
  note c = mgr_invD(1) [OF assms]
  have "unat x < length (m_blocks m)" if "x \<in> set (free_ids m)" for x
    using free_not_refs(2) [OF assms that] .
  then show ?thesis
    using core_inv_queued [OF c] by blast
qed

lemma table_count_0:
  assumes "mgr_inv P V m" "x \<in># V"
  shows "x \<notin># tables (m_requestBlocks m)"
  using table_not_reserved [OF assms(1)] assms(2) by blast

lemma alloc_frame_meta:
  assumes "alloc_frame ids m m'" "unat x < length (m_blocks m)" "x \<notin> set ids"
  shows "blk_Cached (bl m' x) = blk_Cached (bl m x)" "blk_Hash (bl m' x) = blk_Hash (bl m x)"
    "blk_TokenCount (bl m' x) = blk_TokenCount (bl m x)"
proof -
  have "meta (bl m' x) = meta (bl m x)"
    using assms by (simp add: alloc_frame_def)
  then show "blk_Cached (bl m' x) = blk_Cached (bl m x)" "blk_Hash (bl m' x) = blk_Hash (bl m x)"
    "blk_TokenCount (bl m' x) = blk_TokenCount (bl m x)"
    by (simp_all add: meta_def)
qed

subsection \<open>Rounding up\<close>

definition blocks_for :: "nat \<Rightarrow> nat \<Rightarrow> nat" where
  "blocks_for b tokens = (tokens + b - 1) div b"

lemma ceilDiv_spec:
  assumes "b \<noteq> 0" and "unat v + unat b \<le> 2 ^ 32"
  shows "ceilDiv v b = Some (of_nat (blocks_for (unat b) (unat v)))" "blocks_for (unat b) (unat v) < 2 ^ 32"
proof -
  have b0: "0 < unat b"
    using assms(1) by (simp add: unat_gt_0)
  have le: "blocks_for (unat b) (unat v) \<le> unat v + unat b - 1"
    by (simp add: blocks_for_def)
  then show lt: "blocks_for (unat b) (unat v) < 2 ^ 32"
    using assms(2) b0 by linarith
  show "ceilDiv v b = Some (of_nat (blocks_for (unat b) (unat v)))"
  proof (cases "v = 0")
    case True
    then show ?thesis
      using b0 by (simp add: ceilDiv_def blocks_for_def)
  next
    case False
    have "unat (v + b - 1) = unat v + unat b - 1"
    proof -
      have "unat v + unat (b - 1) = unat v + unat b - 1" "unat v + unat b - 1 < 2 ^ 32"
        using unat_pred_u32 [OF assms(1)] assms(2) b0 by linarith+
      then show ?thesis
        using unat_add_u32 [of v "b - 1"] by (metis add_diff_eq)
    qed
    then have "unat ((v + b - 1) div b) = blocks_for (unat b) (unat v)"
      by (simp add: blocks_for_def unat_div)
    then show ?thesis
      using False assms(1) lt by (simp add: ceilDiv_def unat_of_nat_u32 flip: unat_inj_u32)
  qed
qed

lemma blocks_for_covers:
  assumes "0 < b"
  shows "tokens \<le> blocks_for b tokens * b" "blocks_for b tokens * b < tokens + b"
proof -
  let ?q = "(tokens + b - 1) div b"
  have m: "?q * b + (tokens + b - 1) mod b = tokens + b - 1"
    by simp
  moreover have "(tokens + b - 1) mod b < b"
    using assms by simp
  ultimately show "tokens \<le> blocks_for b tokens * b" "blocks_for b tokens * b < tokens + b"
    using assms unfolding blocks_for_def by linarith+
qed

subsection \<open>Allocation\<close>

text \<open>
  The blocks a work item still needs, and the pending allocation that records them.  A request
  whose table is gone is served only when its prefix match is empty; the other case is treated
  separately.
\<close>

definition blocks_needed :: "WorkItem \<Rightarrow> manager \<Rightarrow> nat" where
  "blocks_needed work m =
     blocks_for (unat (m_blockSize m)) (unat (requiredKVTokens work)) - length (requestBlocksOf (wk_RequestId work) m)"

definition table_known :: "WorkItem \<Rightarrow> manager \<Rightarrow> bool" where
  "table_known work m \<longleftrightarrow> has_key (m_requestBlocks m) (wk_RequestId work) \<or>
     (case wk_Cache work of Some c \<Rightarrow> pm_BlockIDs c = [] | None \<Rightarrow> False)"

definition allocation_for :: "WorkItem \<Rightarrow> PrefixMatch \<Rightarrow> manager \<Rightarrow> BlockAllocation" where
  "allocation_for work cache m =
     (let ids = take (blocks_needed work m) (free_ids m)
      in \<lparr>al_RequestID = wk_RequestId work, al_WorkID = wk_WorkId work, al_BlockSize = m_blockSize m,
          al_Phase = wk_Phase work, al_BlockTable = requestBlocksOf (wk_RequestId work) m @ ids,
          al_BlockHashes = pm_HashesTotal cache, al_AllocatedBlocks = ids,
          al_TokensAfterCommit = requiredKVTokens work\<rparr>)"

lemma requestBlocks_length:
  assumes "refs_room P V m k"
  shows "length (requestBlocksOf r m) + k < 2 ^ 32"
proof -
  have "length (requestBlocksOf r m) \<le> size (tables (m_requestBlocks m))"
    using tables_split [of "m_requestBlocks m" r] by (simp add: requestBlocksOf_def split: option.splits)
  then show ?thesis
    using assms by (simp add: refs_room_def refs_def)
qed

lemma AllocateBlocks_eq:
  assumes inv: "mgr_inv P V m" and room: "refs_room P V m 0"
    and known: "table_known work m" and cache: "wk_Cache work = Some cache"
    and fits: "unat (requiredKVTokens work) + unat (m_blockSize m) \<le> 2 ^ 32"
  defines "need \<equiv> of_nat (blocks_needed work m) :: u32"
  shows "unat need = blocks_needed work m"
    and "allocate need m = Some (None, m2) \<Longrightarrow>
       manager_AllocateBlocks work m = Some ((False, work), m2\<lparr>m_metrics := IncAllocationFailure (m_metrics m2)\<rparr>)"
    and "allocate need m = Some (Some ids, m2) \<Longrightarrow> table = requestBlocksOf (wk_RequestId work) m @ ids \<Longrightarrow>
       al = \<lparr>al_RequestID = wk_RequestId work, al_WorkID = wk_WorkId work, al_BlockSize = m_blockSize m2,
           al_Phase = wk_Phase work, al_BlockTable = table, al_BlockHashes = pm_HashesTotal cache,
           al_AllocatedBlocks = ids, al_TokensAfterCommit = requiredKVTokens work\<rparr> \<Longrightarrow>
       manager_AllocateBlocks work m = Some ((True, work\<lparr>wk_BlockAllocation := Some al\<rparr>),
           observeBlockStats (m2\<lparr>m_requestBlocks := fmupd (wk_RequestId work) table (m_requestBlocks m2),
             m_pendingAllocations := fmupd (wk_WorkId work) al (m_pendingAllocations m2)\<rparr>))"
proof -
  let ?q = "blocks_for (unat (m_blockSize m)) (unat (requiredKVTokens work))"
  let ?e = "requestBlocksOf (wk_RequestId work) m"
  note cd = ceilDiv_spec [OF mgr_invD(4) [OF inv] fits]
  have q: "unat (of_nat ?q :: u32) = ?q" and e: "unat (of_nat (length ?e) :: u32) = length ?e"
    using cd(2) requestBlocks_length [OF room, of "wk_RequestId work"] unat_of_nat_u32 by simp_all
  show "unat need = blocks_needed work m"
    unfolding need_def using cd(2) by (intro unat_of_nat_u32) (simp add: blocks_needed_def)
  have lt: "(of_nat (length ?e) :: u32) < of_nat ?q \<longleftrightarrow> length ?e < ?q"
    using q e by (simp add: word_less_nat_alt)
  have need: "(if (of_nat (length ?e) :: u32) < of_nat ?q then of_nat ?q - of_nat (length ?e) else 0) = need"
    unfolding lt need_def by (simp add: blocks_needed_def of_nat_diff)
  have exist: "(case fmlookup (m_requestBlocks m) (wk_RequestId work) of
         Some ids \<Rightarrow> Some (ids, m)
       | None \<Rightarrow> do {
           cache \<leftarrow> wk_Cache work;
           let ids = pm_BlockIDs cache;
           if ids \<noteq> [] then Some (ids, m\<lparr>m_requestBlocks := fmupd (wk_RequestId work) ids (m_requestBlocks m)\<rparr>)
           else Some ([], m)
         }) = Some (?e, m)"
    using known cache by (auto simp: table_known_def requestBlocksOf_def split: option.splits)
  show "manager_AllocateBlocks work m = Some ((False, work), m2\<lparr>m_metrics := IncAllocationFailure (m_metrics m2)\<rparr>)"
    if "allocate need m = Some (None, m2)"
    unfolding manager_AllocateBlocks_def exist unfolding cache using that
    by (simp add: Let_def cd(1) need split del: if_split)
  show "manager_AllocateBlocks work m = Some ((True, work\<lparr>wk_BlockAllocation := Some al\<rparr>),
           observeBlockStats (m2\<lparr>m_requestBlocks := fmupd (wk_RequestId work) table (m_requestBlocks m2),
             m_pendingAllocations := fmupd (wk_WorkId work) al (m_pendingAllocations m2)\<rparr>))"
    if "allocate need m = Some (Some ids, m2)" "table = ?e @ ids"
      "al = \<lparr>al_RequestID = wk_RequestId work, al_WorkID = wk_WorkId work, al_BlockSize = m_blockSize m2,
           al_Phase = wk_Phase work, al_BlockTable = table, al_BlockHashes = pm_HashesTotal cache,
           al_AllocatedBlocks = ids, al_TokensAfterCommit = requiredKVTokens work\<rparr>"
    unfolding manager_AllocateBlocks_def exist unfolding cache using that
    by (simp add: Let_def cd(1) need split del: if_split)
qed

lemma tables_extend:
  "tables (fmupd r (requestBlocksOf r m @ ids) (m_requestBlocks m)) = tables (m_requestBlocks m) + mset ids"
  using tables_split [of "m_requestBlocks m" r]
  by (simp add: tables_upd requestBlocksOf_def split: option.splits)

lemma free_ids_fields [simp]:
  "free_ids (m\<lparr>m_metrics := v\<rparr>) = free_ids m"
  "free_ids (m\<lparr>m_requestBlocks := rb\<rparr>) = free_ids m"
  "free_ids (m\<lparr>m_pendingAllocations := pa\<rparr>) = free_ids m"
  by (simp_all add: free_ids_def free_walk_cong [where m' = "m\<lparr>m_metrics := v\<rparr>" and m = m]
      free_walk_cong [where m' = "m\<lparr>m_requestBlocks := rb\<rparr>" and m = m]
      free_walk_cong [where m' = "m\<lparr>m_pendingAllocations := pa\<rparr>" and m = m])

text \<open>
  \<^verbatim>\<open>AllocateBlocks\<close> on a request with no allocation in flight: when the free queue has the blocks
  the work still needs, exactly these are taken from its head, appended to the request's table
  and recorded as pending; otherwise nothing changes but the failure counter.
\<close>

lemma AllocateBlocks_ok:
  assumes inv: "mgr_inv P V m" and room: "refs_room P V m 0" and idle: "idle (wk_RequestId work) m"
    and known: "table_known work m" and cache: "wk_Cache work = Some cache"
    and fits: "unat (requiredKVTokens work) + unat (m_blockSize m) \<le> 2 ^ 32"
    and enough: "blocks_needed work m \<le> length (free_ids m)"
  defines "al \<equiv> allocation_for work cache m"
  shows "\<exists>m'. manager_AllocateBlocks work m = Some ((True, work\<lparr>wk_BlockAllocation := Some al\<rparr>), m') \<and>
     mgr_inv P V m' \<and>
     m_requestBlocks m' = fmupd (wk_RequestId work) (al_BlockTable al) (m_requestBlocks m) \<and>
     m_pendingAllocations m' = fmupd (wk_WorkId work) al (m_pendingAllocations m) \<and>
     free_ids m' = drop (blocks_needed work m) (free_ids m) \<and> m_blockSize m' = m_blockSize m \<and>
     length (m_blocks m') = length (m_blocks m)"
proof -
  let ?r = "wk_RequestId work" and ?n = "of_nat (blocks_needed work m) :: u32"
  let ?ids = "take (blocks_needed work m) (free_ids m)"
  note eq = AllocateBlocks_eq [OF inv room known cache fits] and inv' = mgr_invD [OF inv]
  obtain m2 where m2: "allocate ?n m = Some (Some ?ids, m2)" "core_inv (refs P V m + mset ?ids) m2"
      "alloc_frame ?ids m m2" "free_ids m2 = drop (blocks_needed work m) (free_ids m)"
    using allocate_spec [OF inv'(1), of ?n] enough unfolding eq(1) by auto
  have fr: "m_blockSize m2 = m_blockSize m" "m_requestBlocks m2 = m_requestBlocks m"
      "m_pendingAllocations m2 = m_pendingAllocations m" "length (m_blocks m2) = length (m_blocks m)"
    using m2(3) by (simp_all add: alloc_frame_def)
  have al: "al_RequestID al = ?r" "al_WorkID al = wk_WorkId work" "al_BlockSize al = m_blockSize m"
      "al_BlockTable al = requestBlocksOf ?r m @ ?ids" "al_AllocatedBlocks al = ?ids"
    by (simp_all add: al_def allocation_for_def Let_def)
  let ?m3 = "m2\<lparr>m_requestBlocks := fmupd ?r (al_BlockTable al) (m_requestBlocks m)\<rparr>"
  let ?m4 = "?m3\<lparr>m_pendingAllocations := fmupd (wk_WorkId work) al (m_pendingAllocations m)\<rparr>"
  have R: "refs P V ?m4 = refs P V m + mset ?ids"
    using tables_extend [of ?r m ?ids] by (simp add: refs_def al ac_simps)
  have "pend_ok ?m3"
    by (rule pend_ok_other [OF inv'(3) idle]) (simp_all add: fr)
  moreover have "idle ?r ?m3"
    using idle by (simp add: idle_def fr)
  moreover have "work_ok ?m3 (wk_WorkId work) al"
    by (simp add: work_ok_def al fr)
  ultimately have "pend_ok ?m4"
    using pend_ok_add [of ?m3 al "wk_WorkId work"] al(1) fr(3) by simp
  moreover have "resv_ok P V ?m4"
  proof (rule resv_ok_keep [OF inv'(2)])
    fix x assume x: "x \<in># V"
    then have "x \<notin> set ?ids"
      using free_not_refs(1) [OF inv, of x] reserved_refs by (meson in_set_takeD)
    moreover have "unat x < length (m_blocks m)"
      using x reserved_refs refs_in_range [OF inv] by blast
    ultimately show "count (refs P V ?m4) x = count (refs P V m) x \<and> blk_Cached (bl ?m4 x) = blk_Cached (bl m x)"
      using alloc_frame_meta(1) [OF m2(3)] unfolding R by (simp add: count_mset_0_iff)
  qed
  moreover have "core_inv (refs P V ?m4) ?m4"
    unfolding R using m2(2) by simp
  ultimately have "mgr_inv P V (observeBlockStats ?m4)"
    using inv'(4) fr by (simp add: mgr_invI)
  moreover have "manager_AllocateBlocks work m = Some ((True, work\<lparr>wk_BlockAllocation := Some al\<rparr>), observeBlockStats ?m4)"
    using eq(3) [OF m2(1) refl refl] by (simp add: al_def allocation_for_def Let_def fr)
  ultimately show ?thesis
    using m2(4) fr by auto
qed

lemma AllocateBlocks_full:
  assumes inv: "mgr_inv P V m" and room: "refs_room P V m 0"
    and known: "table_known work m" and cache: "wk_Cache work = Some cache"
    and fits: "unat (requiredKVTokens work) + unat (m_blockSize m) \<le> 2 ^ 32"
    and enough: "length (free_ids m) < blocks_needed work m"
  shows "manager_AllocateBlocks work m = Some ((False, work), m\<lparr>m_metrics := IncAllocationFailure (m_metrics m)\<rparr>)"
proof -
  note eq = AllocateBlocks_eq [OF inv room known cache fits]
  have "allocate (of_nat (blocks_needed work m)) m = Some (None, m)"
    using allocate_spec [OF mgr_invD(1) [OF inv], of "of_nat (blocks_needed work m)"] enough unfolding eq(1) by simp
  then show ?thesis
    by (rule eq(2))
qed

subsection \<open>Release and rollback\<close>

text \<open>
  Dropping the references \<open>ids\<close> that a state change has just taken out of the request tables.
\<close>

lemma release_blocks:
  assumes inv: "mgr_inv P V m" and m1: "m_blocks m1 = m_blocks m" "m_freeHead m1 = m_freeHead m"
      "m_freeTail m1 = m_freeTail m" "m_freeCount m1 = m_freeCount m" "m_cachedBlocks m1 = m_cachedBlocks m"
      "m_blockSize m1 = m_blockSize m"
    and t: "tables (m_requestBlocks m) = tables (m_requestBlocks m1) + mset ids" and pend: "pend_ok m1"
  shows "\<exists>m'. pushFrees ids m1 = Some m' \<and> mgr_inv P V (observeBlockStats m') \<and> metas m' = metas m \<and>
     rest m' = rest m1"
proof -
  note inv' = mgr_invD [OF inv]
  have "core_inv (refs P V m) m1"
    using inv'(1) core_inv_cong [OF m1(1-5)] by simp
  moreover have R: "refs P V m = refs P V m1 + mset ids"
    using t by (simp add: refs_def ac_simps)
  ultimately obtain m' where m': "pushFrees ids m1 = Some m'" "core_inv (refs P V m1) m'"
      "metas m' = metas m1" "rest m' = rest m1"
    using pushFrees_list [of "refs P V m" m1 ids] by auto
  note rf = rest_fields [OF m'(4)]
  have R': "refs P V m' = refs P V m1"
    using rf by (simp add: refs_def)
  have mt: "metas m' = metas m"
    using m'(3) m1(1) by (simp add: metas_def)
  have "resv_ok P V m'"
  proof (rule resv_ok_keep [OF inv'(2)])
    fix x assume x: "x \<in># V"
    have "x \<notin># mset ids"
      using table_count_0 [OF inv x] t by auto
    moreover have "unat x < length (m_blocks m)"
      using x reserved_refs refs_in_range [OF inv] by blast
    ultimately show "count (refs P V m') x = count (refs P V m) x \<and> blk_Cached (bl m' x) = blk_Cached (bl m x)"
      using metas_nth(3) [OF mt] by (simp add: R R' count_mset_0_iff)
  qed
  moreover have "pend_ok m'"
    using pend pend_ok_cong [of m' m1] rf by simp
  ultimately have "mgr_inv P V m'"
    using m'(2) inv'(4) rf m1(6) by (intro mgr_invI) (simp_all add: R')
  then show ?thesis
    using m'(1,4) mt by simp
qed

lemma FreeRequest_spec:
  assumes inv: "mgr_inv P V m"
  shows "\<exists>m'. manager_FreeRequest r m = Some m' \<and> mgr_inv P V m' \<and>
     m_requestBlocks m' = fmdrop r (m_requestBlocks m) \<and> idle r m' \<and> metas m' = metas m \<and>
     m_cachedBlocks m' = m_cachedBlocks m \<and> m_blockSize m' = m_blockSize m \<and>
     (\<forall>w al. fmlookup (m_pendingAllocations m') w = Some al \<longleftrightarrow>
        fmlookup (m_pendingAllocations m) w = Some al \<and> al_RequestID al \<noteq> r)"
proof -
  let ?keep = "\<lambda>w. case fmlookup (m_pendingAllocations m) w of Some al \<Rightarrow> al_RequestID al \<noteq> r | None \<Rightarrow> True"
  let ?m1 = "m\<lparr>m_requestBlocks := fmdrop r (m_requestBlocks m),
      m_pendingAllocations := fmfilter ?keep (m_pendingAllocations m)\<rparr>"
  have look: "fmlookup (m_pendingAllocations ?m1) w = Some al \<longleftrightarrow>
      fmlookup (m_pendingAllocations m) w = Some al \<and> al_RequestID al \<noteq> r" for w al
    by (auto split: option.splits)
  have "work_ok ?m1 w al" if "fmlookup (m_pendingAllocations ?m1) w = Some al" for w al
    using that pend_okD [OF mgr_invD(3) [OF inv], of w al] unfolding look by (simp add: work_ok_def)
  then have "pend_ok ?m1"
    using mgr_invD(3) [OF inv] unfolding pend_ok_def look by blast
  moreover have "tables (m_requestBlocks m) = tables (m_requestBlocks ?m1) + mset (requestBlocksOf r m)"
    using tables_split [of "m_requestBlocks m" r] by (simp add: requestBlocksOf_def)
  ultimately obtain m' where m': "pushFrees (requestBlocksOf r m) ?m1 = Some m'" "mgr_inv P V (observeBlockStats m')"
      "metas m' = metas m" "rest m' = rest ?m1"
    using release_blocks [OF inv, of ?m1 "requestBlocksOf r m"] by auto
  note rf = rest_fields [OF m'(4)]
  have "manager_FreeRequest r m = Some (observeBlockStats m')"
    using m'(1) by (simp add: manager_FreeRequest_def Let_def)
  moreover have "idle r (observeBlockStats m')"
    using look rf(5) by (simp add: idle_def)
  moreover have "metas (observeBlockStats m') = metas m"
    using m'(3) by (simp add: metas_def)
  ultimately show ?thesis
    using m'(2) look rf by auto
qed

text \<open>
  \<^verbatim>\<open>Rollback\<close> of a pending work item gives the request its previous table back (no table at all
  when it was empty) and returns exactly the blocks of that work item.
\<close>

lemma Rollback_spec:
  assumes inv: "mgr_inv P V m" and w: "fmlookup (m_pendingAllocations m) w = Some al"
    and table: "al_BlockTable al = pre @ al_AllocatedBlocks al"
  shows "\<exists>m'. manager_Rollback w m = Some m' \<and> mgr_inv P V m' \<and>
     m_requestBlocks m' = (if pre = [] then fmdrop (al_RequestID al) (m_requestBlocks m)
                           else fmupd (al_RequestID al) pre (m_requestBlocks m)) \<and>
     m_pendingAllocations m' = fmdrop w (m_pendingAllocations m) \<and> metas m' = metas m \<and>
     m_cachedBlocks m' = m_cachedBlocks m \<and> m_blockSize m' = m_blockSize m"
proof -
  let ?r = "al_RequestID al" and ?ids = "al_AllocatedBlocks al"
  let ?m0 = "m\<lparr>m_pendingAllocations := fmdrop w (m_pendingAllocations m)\<rparr>"
  let ?rb = "if pre = [] then fmdrop ?r (m_requestBlocks m) else fmupd ?r pre (m_requestBlocks m)"
  let ?m1 = "?m0\<lparr>m_requestBlocks := ?rb\<rparr>"
  have look: "fmlookup (m_requestBlocks m) ?r = Some (pre @ ?ids)"
    using pend_okD [OF mgr_invD(3) [OF inv] w] table by (simp add: work_ok_def)
  have "pend_ok ?m1"
    by (rule pend_ok_other [OF pend_ok_drop [OF mgr_invD(3) [OF inv] w]]) auto
  moreover have "tables (m_requestBlocks m) = tables ?rb + mset ?ids"
    using tables_split [of "m_requestBlocks m" ?r] look by (simp add: tables_upd)
  ultimately obtain m' where m': "pushFrees ?ids ?m1 = Some m'" "mgr_inv P V (observeBlockStats m')"
      "metas m' = metas m" "rest m' = rest ?m1"
    using release_blocks [OF inv, of ?m1 ?ids] by auto
  note rf = rest_fields [OF m'(4)]
  have "requestBlocksOf ?r ?m0 = pre @ ?ids"
    using look by (simp add: requestBlocksOf_def)
  then have "manager_Rollback w m = Some (observeBlockStats m')"
    using w m'(1) by (cases "pre = []") (simp_all add: manager_Rollback_def Let_def)
  moreover have "metas (observeBlockStats m') = metas m"
    using m'(3) by (simp add: metas_def)
  ultimately show ?thesis
    using m'(2) rf by auto
qed

lemma Rollback_unknown: "fmlookup (m_pendingAllocations m) w = None \<Longrightarrow> manager_Rollback w m = Some m"
  by (simp add: manager_Rollback_def)

end
