(* ===== verification/Block_Commit.thy ===== *)
theory Block_Commit
  imports Block_Lifecycle
begin

text \<open>
  \<^verbatim>\<open>Commit\<close>: token counts of the request's blocks and publication of full prompt blocks in the
  prefix index.
\<close>

subsection \<open>Writing to one block\<close>

lemma core_inv_block_write:
  assumes inv: "core_inv R m" and x: "unat x < length (m_blocks m)"
    and b: "blk_RefCount b = blk_RefCount (bl m x)" "blk_InFreeQueue b = blk_InFreeQueue (bl m x)"
      "blk_PrevFree b = blk_PrevFree (bl m x)" "blk_NextFree b = blk_NextFree (bl m x)"
    and m': "m_blocks m' = (m_blocks m)[unat x := b]" "m_freeHead m' = m_freeHead m"
      "m_freeTail m' = m_freeTail m" "m_freeCount m' = m_freeCount m"
    and cache: "cache_ok m'"
  shows "core_inv R m'" "free_ids m' = free_ids m"
proof -
  have "free_ok (m\<lparr>m_blocks := (m_blocks m)[unat x := b]\<rparr>) (free_ids m)"
    using core_inv_freeD [OF inv] b by (intro free_ok_block_upd) (auto simp: prv_def nxt_def x)
  then have ok: "free_ok m' (free_ids m)"
    using free_ok_other_fields [of m' "m\<lparr>m_blocks := (m_blocks m)[unat x := b]\<rparr>"] m' by simp
  then show "free_ids m' = free_ids m"
    by (rule free_ok_ids)
  have "refs_ok R m"
    using inv by (simp add: core_inv_def)
  then have "refs_ok R m'"
    using b x m'(1) by (auto simp: refs_ok_def nth_list_update unat_inj_u32)
  then show "core_inv R m'"
    using core_invI [OF ok] cache by blast
qed

subsection \<open>Token counts\<close>

text \<open>How many of \<open>t\<close> tokens fall into block \<open>idx\<close> of a table.\<close>

definition committed_tokens :: "u32 \<Rightarrow> u32 \<Rightarrow> u32 \<Rightarrow> u32" where
  "committed_tokens bs t idx =
     (if t \<le> idx * bs then 0 else if bs \<le> t - idx * bs then bs else t - idx * bs)"

lemma committed_tokens_nat:
  assumes "unat idx * unat bs < 2 ^ 32"
  shows "unat (committed_tokens bs t idx) = min (unat bs) (unat t - unat idx * unat bs)"
proof (cases "t \<le> idx * bs")
  case True
  then show ?thesis
    using unat_mult_u32 [OF assms] by (simp add: committed_tokens_def word_le_nat_alt)
next
  case False
  then have "unat (t - idx * bs) = unat t - unat idx * unat bs"
    using unat_mult_u32 [OF assms] by (simp add: unat_sub)
  then show ?thesis
    using False by (simp add: committed_tokens_def word_le_nat_alt)
qed

lemma commitTokens_spec:
  assumes "core_inv R m" and "\<forall>x \<in> set ids. unat x < length (m_blocks m)"
  shows "\<exists>m'. commitTokens idx t ids m = Some m' \<and> core_inv R m' \<and> free_ids m' = free_ids m \<and> rest m' = rest m \<and>
     length (m_blocks m') = length (m_blocks m) \<and>
     (\<forall>x. unat x < length (m_blocks m) \<longrightarrow>
        blk_Hash (bl m' x) = blk_Hash (bl m x) \<and> blk_Cached (bl m' x) = blk_Cached (bl m x) \<and>
        (x \<notin> set ids \<longrightarrow> blk_TokenCount (bl m' x) = blk_TokenCount (bl m x))) \<and>
     (distinct ids \<longrightarrow> (\<forall>i < length ids.
        blk_TokenCount (bl m' (ids ! i)) = committed_tokens (m_blockSize m) t (idx + of_nat i)))"
  using assms
proof (induction ids arbitrary: idx m)
  case Nil
  then show ?case by simp
next
  case (Cons x xs)
  have x: "unat x < length (m_blocks m)"
    using Cons.prems(2) by simp
  let ?b = "(bl m x)\<lparr>blk_TokenCount := committed_tokens (m_blockSize m) t idx\<rparr>"
  let ?m1 = "m\<lparr>m_blocks := (m_blocks m)[unat x := ?b]\<rparr>"
  have "cache_ok ?m1"
    using Cons.prems(1) x by (auto simp: core_inv_def cache_ok_def nth_list_update unat_inj_u32)
  then have m1: "core_inv R ?m1" "free_ids ?m1 = free_ids m"
    using core_inv_block_write [OF Cons.prems(1) x, of ?b ?m1] by simp_all
  have step: "commitTokens idx t (x # xs) m = commitTokens (idx + 1) t xs ?m1"
    using x by (simp add: panic_simps committed_tokens_def Let_def)
  obtain m' where m': "commitTokens (idx + 1) t xs ?m1 = Some m'" "core_inv R m'" "free_ids m' = free_ids ?m1"
      "rest m' = rest ?m1" "length (m_blocks m') = length (m_blocks ?m1)"
      "\<forall>y. unat y < length (m_blocks ?m1) \<longrightarrow>
         blk_Hash (bl m' y) = blk_Hash (bl ?m1 y) \<and> blk_Cached (bl m' y) = blk_Cached (bl ?m1 y) \<and>
         (y \<notin> set xs \<longrightarrow> blk_TokenCount (bl m' y) = blk_TokenCount (bl ?m1 y))"
      "distinct xs \<longrightarrow> (\<forall>i < length xs.
         blk_TokenCount (bl m' (xs ! i)) = committed_tokens (m_blockSize ?m1) t (idx + 1 + of_nat i))"
    using Cons.IH [OF m1(1), of "idx + 1"] Cons.prems(2) by auto
  have "blk_TokenCount (bl m' ((x # xs) ! i)) = committed_tokens (m_blockSize m) t (idx + of_nat i)"
    if "distinct (x # xs)" "i < length (x # xs)" for i
  proof (cases i)
    case 0
    then show ?thesis using m'(6) that x by simp
  next
    case (Suc j)
    then show ?thesis using m'(7) that by (simp add: ac_simps)
  qed
  moreover have "blk_Hash (bl m' y) = blk_Hash (bl m y) \<and> blk_Cached (bl m' y) = blk_Cached (bl m y) \<and>
      (y \<notin> set (x # xs) \<longrightarrow> blk_TokenCount (bl m' y) = blk_TokenCount (bl m y))" if "unat y < length (m_blocks m)" for y
    using m'(6) that x by (auto simp: nth_list_update unat_inj_u32)
  moreover have "rest ?m1 = rest m"
    by (simp add: rest_def)
  ultimately show ?case
    unfolding step using m' m1(2) by auto
qed

subsection \<open>Publication\<close>

lemma cache_ok_publish:
  assumes ok: "cache_ok m" and x: "unat x < length (m_blocks m)" and new: "fmlookup (m_cachedBlocks m) h = None"
    and unc: "\<not> blk_Cached (bl m x)" and b: "blk_Hash b = h" "blk_Cached b"
    and m': "m_blocks m' = (m_blocks m)[unat x := b]" "m_cachedBlocks m' = fmupd h x (m_cachedBlocks m)"
  shows "cache_ok m'"
  unfolding cache_ok_def
proof (intro allI)
  fix g y
  have bl: "bl m' y = (if y = x then b else bl m y)" "length (m_blocks m') = length (m_blocks m)"
    using x m'(1) by (auto simp: nth_list_update unat_inj_u32)
  show "fmlookup (m_cachedBlocks m') g = Some y \<longleftrightarrow>
      unat y < length (m_blocks m') \<and> blk_Cached (bl m' y) \<and> blk_Hash (bl m' y) = g"
  proof (cases "y = x")
    case True
    then show ?thesis
      using cache_okD [OF ok, of g x] unc b x bl m'(2) by auto
  next
    case False
    then show ?thesis
      using cache_okD [OF ok, of g y] new bl m'(2) by auto
  qed
qed

text \<open>
  What publishing the table \<open>ids\<close> of an allocation does: cached blocks keep their hash, the index
  only grows, each new entry is a full block of the table under the hash of its position, and every
  full block that was not cached before has its hash in the index afterwards.
\<close>

definition pub_keeps :: "u32 list \<Rightarrow> manager \<Rightarrow> manager \<Rightarrow> bool" where
  "pub_keeps ids m m' \<longleftrightarrow>
     (\<forall>x. unat x < length (m_blocks m) \<longrightarrow>
        blk_TokenCount (bl m' x) = blk_TokenCount (bl m x) \<and>
        (blk_Cached (bl m x) \<or> x \<notin> set ids \<longrightarrow>
           blk_Hash (bl m' x) = blk_Hash (bl m x) \<and> blk_Cached (bl m' x) = blk_Cached (bl m x))) \<and>
     (\<forall>h x. fmlookup (m_cachedBlocks m) h = Some x \<longrightarrow> fmlookup (m_cachedBlocks m') h = Some x)"

definition pub_sound :: "BlockAllocation \<Rightarrow> nat \<Rightarrow> u32 list \<Rightarrow> manager \<Rightarrow> manager \<Rightarrow> bool" where
  "pub_sound al idx ids m m' \<longleftrightarrow>
     (\<forall>h x. fmlookup (m_cachedBlocks m') h = Some x \<longrightarrow> fmlookup (m_cachedBlocks m) h \<noteq> Some x \<longrightarrow>
        al_Phase al = WorkPhasePrefill \<and> blk_TokenCount (bl m x) = al_BlockSize al \<and>
        (\<exists>i < length ids. x = ids ! i \<and> idx + i < length (al_BlockHashes al) \<and> h = al_BlockHashes al ! (idx + i)))"

definition pub_complete :: "BlockAllocation \<Rightarrow> nat \<Rightarrow> u32 list \<Rightarrow> manager \<Rightarrow> manager \<Rightarrow> bool" where
  "pub_complete al idx ids m m' \<longleftrightarrow>
     (distinct ids \<longrightarrow> al_Phase al = WorkPhasePrefill \<longrightarrow>
        (\<forall>i < length ids. idx + i < length (al_BlockHashes al) \<longrightarrow>
           blk_TokenCount (bl m (ids ! i)) = al_BlockSize al \<longrightarrow> \<not> blk_Cached (bl m (ids ! i)) \<longrightarrow>
           has_key (m_cachedBlocks m') (al_BlockHashes al ! (idx + i))))"

definition published :: "BlockAllocation \<Rightarrow> nat \<Rightarrow> u32 list \<Rightarrow> manager \<Rightarrow> manager \<Rightarrow> bool" where
  "published al idx ids m m' \<longleftrightarrow> pub_keeps ids m m' \<and> pub_sound al idx ids m m' \<and> pub_complete al idx ids m m'"

definition publish_frame :: "manager \<Rightarrow> manager \<Rightarrow> bool" where
  "publish_frame m m' \<longleftrightarrow> length (m_blocks m') = length (m_blocks m) \<and> free_ids m' = free_ids m \<and>
     m_requestBlocks m' = m_requestBlocks m \<and> m_pendingAllocations m' = m_pendingAllocations m \<and>
     m_blockSize m' = m_blockSize m \<and> m_executorID m' = m_executorID m"

text \<open>One round of the loop.\<close>

lemma commitCache_one:
  assumes inv: "core_inv R m" and x: "unat x < length (m_blocks m)"
  shows "\<exists>m'. commitCache al idx [x] m = Some m' \<and> core_inv R m' \<and> publish_frame m m' \<and> published al idx [x] m m'"
proof -
  let ?h = "al_BlockHashes al ! idx"
  let ?skip = "al_Phase al \<noteq> WorkPhasePrefill \<or> blk_Cached (bl m x) \<or> blk_TokenCount (bl m x) \<noteq> al_BlockSize al \<or>
      length (al_BlockHashes al) \<le> idx"
  show ?thesis
  proof (cases "?skip \<or> has_key (m_cachedBlocks m) ?h")
    case True
    then have "commitCache al idx [x] m = Some m"
      using x by (auto simp: panic_simps)
    moreover have "pub_keeps [x] m m" "pub_sound al idx [x] m m" "pub_complete al idx [x] m m"
      using True linorder_not_less by (simp_all add: pub_keeps_def pub_sound_def pub_complete_def) blast
    ultimately show ?thesis
      using inv by (auto simp: publish_frame_def published_def)
  next
    case False
    let ?b = "(bl m x)\<lparr>blk_Hash := ?h, blk_Cached := True\<rparr>"
    let ?m' = "m\<lparr>m_blocks := (m_blocks m)[unat x := ?b], m_cachedBlocks := fmupd ?h x (m_cachedBlocks m)\<rparr>"
    have "commitCache al idx [x] m = Some ?m'"
      using False x by (auto simp: panic_simps)
    moreover have "cache_ok ?m'"
      using inv False cache_ok_publish [OF _ x, of ?h ?b ?m'] by (simp add: core_inv_def)
    then have "core_inv R ?m'" "free_ids ?m' = free_ids m"
      using core_inv_block_write [OF inv x, of ?b ?m'] by simp_all
    moreover have "pub_keeps [x] m ?m'"
      using False x by (auto simp: pub_keeps_def nth_list_update unat_inj_u32)
    moreover have "pub_sound al idx [x] m ?m'" "pub_complete al idx [x] m ?m'"
      using False by (simp_all add: pub_sound_def pub_complete_def)
    ultimately show ?thesis
      by (auto simp: publish_frame_def published_def)
  qed
qed

lemma commitCache_Cons: "commitCache al idx (x # xs) m = Option.bind (commitCache al idx [x] m) (commitCache al (Suc idx) xs)"
  by (simp add: bind_assoc split: option.split)

lemma pub_sound_Cons:
  assumes k: "pub_keeps [x] m m1" and s: "pub_sound al idx [x] m m1" "pub_sound al (Suc idx) xs m1 m'" and xs: "\<forall>y \<in> set xs. unat y < length (m_blocks m)"
  shows "pub_sound al idx (x # xs) m m'"
  unfolding pub_sound_def
proof (intro allI impI)
  fix h y assume y: "fmlookup (m_cachedBlocks m') h = Some y" "fmlookup (m_cachedBlocks m) h \<noteq> Some y"
  show "al_Phase al = WorkPhasePrefill \<and> blk_TokenCount (bl m y) = al_BlockSize al \<and>
    (\<exists>i < length (x # xs). y = (x # xs) ! i \<and> idx + i < length (al_BlockHashes al) \<and> h = al_BlockHashes al ! (idx + i))"
  proof (cases "fmlookup (m_cachedBlocks m1) h = Some y")
    case True
    then show ?thesis
      using s(1) y(2) unfolding pub_sound_def by fastforce
  next
    case False
    then obtain i where i: "al_Phase al = WorkPhasePrefill" "blk_TokenCount (bl m1 y) = al_BlockSize al" "i < length xs"
        "y = xs ! i" "Suc idx + i < length (al_BlockHashes al)" "h = al_BlockHashes al ! (Suc idx + i)"
      using s(2) y(1) unfolding pub_sound_def by blast
    moreover have "blk_TokenCount (bl m1 y) = blk_TokenCount (bl m y)"
      using k xs i(3,4) by (simp add: pub_keeps_def)
    ultimately show ?thesis
      by (intro conjI exI [of _ "Suc i"]) simp_all
  qed
qed

lemma pub_complete_Cons:
  assumes k: "pub_keeps [x] m m1" "pub_keeps xs m1 m'" and c: "pub_complete al idx [x] m m1" "pub_complete al (Suc idx) xs m1 m'"
    and xs: "\<forall>y \<in> set xs. unat y < length (m_blocks m)"
  shows "pub_complete al idx (x # xs) m m'"
  unfolding pub_complete_def
proof (intro allI impI)
  fix i assume i: "distinct (x # xs)" "al_Phase al = WorkPhasePrefill" "i < length (x # xs)"
    "idx + i < length (al_BlockHashes al)" "blk_TokenCount (bl m ((x # xs) ! i)) = al_BlockSize al"
    "\<not> blk_Cached (bl m ((x # xs) ! i))"
  show "has_key (m_cachedBlocks m') (al_BlockHashes al ! (idx + i))"
  proof (cases i)
    case 0
    then have "has_key (m_cachedBlocks m1) (al_BlockHashes al ! idx)"
      using c(1) i by (simp add: pub_complete_def)
    then show ?thesis
      using k(2) 0 by (auto simp: pub_keeps_def)
  next
    case (Suc j)
    then have "xs ! j \<noteq> x" "unat (xs ! j) < length (m_blocks m)"
      using i(1,3) xs nth_mem [of j xs] by auto
    then have "blk_TokenCount (bl m1 (xs ! j)) = al_BlockSize al" "\<not> blk_Cached (bl m1 (xs ! j))"
      using k(1) i(5,6) Suc by (simp_all add: pub_keeps_def)
    then show ?thesis
      using c(2) i Suc by (simp add: pub_complete_def)
  qed
qed

lemma published_Cons:
  assumes "published al idx [x] m m1" "published al (Suc idx) xs m1 m'"
    "length (m_blocks m1) = length (m_blocks m)" "\<forall>y \<in> set xs. unat y < length (m_blocks m)"
  shows "published al idx (x # xs) m m'"
proof -
  have "pub_keeps (x # xs) m m'"
    using assms by (simp add: published_def pub_keeps_def)
  then show ?thesis
    using assms(1,2,4) pub_sound_Cons pub_complete_Cons unfolding published_def by blast
qed

lemma commitCache_spec:
  assumes "core_inv R m" and "\<forall>x \<in> set ids. unat x < length (m_blocks m)"
  shows "\<exists>m'. commitCache al idx ids m = Some m' \<and> core_inv R m' \<and> publish_frame m m' \<and> published al idx ids m m'"
  using assms
proof (induction ids arbitrary: idx m)
  case Nil
  then show ?case
    by (simp add: publish_frame_def published_def pub_keeps_def pub_sound_def pub_complete_def)
next
  case (Cons x xs)
  then have x: "unat x < length (m_blocks m)" by simp
  obtain m1 where m1: "commitCache al idx [x] m = Some m1" "core_inv R m1" "publish_frame m m1" "published al idx [x] m m1"
    using commitCache_one [OF Cons.prems(1) x] by blast
  then have l: "length (m_blocks m1) = length (m_blocks m)"
    by (simp add: publish_frame_def)
  obtain m' where m': "commitCache al (Suc idx) xs m1 = Some m'" "core_inv R m'" "publish_frame m1 m'"
      "published al (Suc idx) xs m1 m'"
    using Cons.IH [OF m1(2), of "Suc idx"] Cons.prems(2) l by auto
  have "published al idx (x # xs) m m'"
    using published_Cons [OF m1(4) m'(4) l] Cons.prems(2) by simp
  moreover have "publish_frame m m'"
    using m1(3) m'(3) by (simp add: publish_frame_def)
  moreover have "commitCache al idx (x # xs) m = Some m'"
    unfolding commitCache_Cons [of al idx x xs m] m1(1) by (simp add: m'(1))
  ultimately show ?case
    using m'(2) by blast
qed

subsection \<open>The whole operation\<close>

lemma pending_in_range:
  assumes "mgr_inv P V m" "fmlookup (m_pendingAllocations m) w = Some al" "x \<in> set (al_BlockTable al)"
  shows "unat x < length (m_blocks m)"
proof -
  have "x \<in># tables (m_requestBlocks m)"
    using pend_okD [OF mgr_invD(3) [OF assms(1)] assms(2)] requestBlocks_refs [of x "al_RequestID al" m] assms(3)
    by (simp add: work_ok_def requestBlocksOf_def)
  then show ?thesis
    using refs_in_range [OF assms(1)] by (simp add: refs_def)
qed

text \<open>
  \<^verbatim>\<open>Commit\<close> of a pending work item: the state \<open>t\<close> between the two loops has the token counts and
  the final state \<open>m'\<close> what was published.
\<close>

lemma Commit_spec:
  assumes inv: "mgr_inv P V m" and w: "fmlookup (m_pendingAllocations m) w = Some al"
  shows "\<exists>t m'. manager_Commit w m = Some m' \<and> mgr_inv P V m' \<and>
     m_requestBlocks m' = m_requestBlocks m \<and> m_pendingAllocations m' = fmdrop w (m_pendingAllocations m) \<and>
     m_blockSize m' = m_blockSize m \<and> free_ids m' = free_ids m \<and> length (m_blocks m') = length (m_blocks m) \<and>
     m_cachedBlocks t = m_cachedBlocks m \<and> length (m_blocks t) = length (m_blocks m) \<and>
     (\<forall>x. unat x < length (m_blocks m) \<longrightarrow>
        blk_Hash (bl t x) = blk_Hash (bl m x) \<and> blk_Cached (bl t x) = blk_Cached (bl m x) \<and>
        (x \<notin> set (al_BlockTable al) \<longrightarrow> blk_TokenCount (bl t x) = blk_TokenCount (bl m x))) \<and>
     (distinct (al_BlockTable al) \<longrightarrow> (\<forall>i < length (al_BlockTable al).
        blk_TokenCount (bl t (al_BlockTable al ! i)) =
          committed_tokens (m_blockSize m) (al_TokensAfterCommit al) (of_nat i))) \<and>
     published al 0 (al_BlockTable al) t m'"
proof -
  let ?ids = "al_BlockTable al" and ?m1 = "m\<lparr>m_pendingAllocations := fmdrop w (m_pendingAllocations m)\<rparr>"
  note inv' = mgr_invD [OF inv]
  have tab: "x \<in># tables (m_requestBlocks m)" if "x \<in> set ?ids" for x
    using that pend_okD [OF inv'(3) w] requestBlocks_refs [of x "al_RequestID al" m]
    by (simp add: work_ok_def requestBlocksOf_def)
  have range: "\<forall>x \<in> set ?ids. unat x < length (m_blocks ?m1)"
    using tab refs_in_range [OF inv] by (simp add: refs_def)
  have "core_inv (refs P V m) ?m1"
    using inv'(1) by simp
  then obtain t where t: "commitTokens 0 (al_TokensAfterCommit al) ?ids ?m1 = Some t" "core_inv (refs P V m) t"
      "free_ids t = free_ids ?m1" "rest t = rest ?m1" "length (m_blocks t) = length (m_blocks ?m1)"
      "\<forall>x. unat x < length (m_blocks ?m1) \<longrightarrow>
        blk_Hash (bl t x) = blk_Hash (bl ?m1 x) \<and> blk_Cached (bl t x) = blk_Cached (bl ?m1 x) \<and>
        (x \<notin> set ?ids \<longrightarrow> blk_TokenCount (bl t x) = blk_TokenCount (bl ?m1 x))"
      "distinct ?ids \<longrightarrow> (\<forall>i < length ?ids. blk_TokenCount (bl t (?ids ! i)) =
          committed_tokens (m_blockSize ?m1) (al_TokensAfterCommit al) (0 + of_nat i))"
    using commitTokens_spec [OF _ range, of _ 0 "al_TokensAfterCommit al"] by blast
  note rf = rest_fields [OF t(4)]
  have "\<forall>x \<in> set ?ids. unat x < length (m_blocks t)"
    using range t(5) by simp
  then obtain m' where m': "commitCache al 0 ?ids t = Some m'" "core_inv (refs P V m) m'" "publish_frame t m'"
      "published al 0 ?ids t m'"
    using commitCache_spec [OF t(2)] by blast
  have fr: "m_requestBlocks m' = m_requestBlocks m" "m_pendingAllocations m' = fmdrop w (m_pendingAllocations m)"
      "m_blockSize m' = m_blockSize m" "free_ids m' = free_ids m" "length (m_blocks m') = length (m_blocks m)"
    using m'(3) rf t(3,5) by (simp_all add: publish_frame_def)
  have R: "refs P V m' = refs P V m"
    using fr by (simp add: refs_def)
  have "resv_ok P V m'"
  proof (rule resv_ok_keep [OF inv'(2)])
    fix x assume x: "x \<in># V"
    then have "x \<notin> set ?ids" "unat x < length (m_blocks m)"
      using tab table_count_0 [OF inv x] reserved_refs refs_in_range [OF inv] by blast+
    then show "count (refs P V m') x = count (refs P V m) x \<and> blk_Cached (bl m' x) = blk_Cached (bl m x)"
      using R m'(4) t(5,6) by (simp add: published_def pub_keeps_def)
  qed
  moreover have "pend_ok m'"
    using pend_ok_drop(1) [OF inv'(3) w] pend_ok_cong [of m' ?m1] fr by simp
  ultimately have "mgr_inv P V m'"
    using m'(2) inv'(4) R fr by (intro mgr_invI) simp_all
  moreover have "manager_Commit w m = Some (observeBlockStats m')"
    using w t(1) m'(1) by (simp add: manager_Commit_def Let_def)
  moreover have "published al 0 ?ids t (observeBlockStats m')"
    using m'(4) by (simp add: published_def pub_keeps_def pub_sound_def pub_complete_def)
  ultimately show ?thesis
    using fr rf t(5,6,7) by (intro exI [of _ t] exI [of _ "observeBlockStats m'"]) simp
qed

lemma Commit_unknown: "fmlookup (m_pendingAllocations m) w = None \<Longrightarrow> manager_Commit w m = Some m"
  by (simp add: manager_Commit_def)

end
