(* ===== verification/Block_Transfer.thy ===== *)
theory Block_Transfer
  imports Block_Commit
begin

text \<open>
  The block-level half of a KV transfer: pinning the source blocks, reserving blank destination
  blocks, importing them into the prefix index and releasing either side.  The manager's invariant
  tracks the pins \<open>P\<close> and the reservations \<open>V\<close> through every step.
\<close>

subsection \<open>Pinning the source\<close>

definition transferable :: "manager \<Rightarrow> string \<Rightarrow> bool" where
  "transferable m h \<longleftrightarrow> (case fmlookup (m_cachedBlocks m) h of None \<Rightarrow> False
     | Some x \<Rightarrow> blk_TokenCount (bl m x) = m_blockSize m)"

lemma pinLookup_spec:
  assumes "cache_ok m"
  shows "pinLookup hs m = Some (Inr (map (\<lambda>h. the (fmlookup (m_cachedBlocks m) h)) hs)) \<and> (\<forall>h \<in> set hs. transferable m h) \<or>
     (\<exists>e. pinLookup hs m = Some (Inl e)) \<and> (\<exists>h \<in> set hs. \<not> transferable m h)"
proof (induction hs)
  case Nil
  then show ?case by simp
next
  case (Cons h hs)
  show ?case
  proof (cases "fmlookup (m_cachedBlocks m) h")
    case None
    then show ?thesis by (simp add: transferable_def)
  next
    case (Some x)
    then have "unat x < length (m_blocks m)" "blk_Cached (bl m x)" "blk_Hash (bl m x) = h"
      using cache_okD [OF assms, of h x] by simp_all
    then show ?thesis
      using Cons.IH Some by (auto simp: panic_simps transferable_def)
  qed
qed

lemma pin_ok:
  assumes inv: "mgr_inv P V m" and room: "refs_room P V m (length hs)" and hs: "\<forall>h \<in> set hs. transferable m h"
  defines "ids \<equiv> map (\<lambda>h. the (fmlookup (m_cachedBlocks m) h)) hs"
  shows "\<exists>m'. pinCachedBlocks hs m = Some (Inr ids, m') \<and> mgr_inv (P + mset ids) V m' \<and> metas m' = metas m \<and>
     m_requestBlocks m' = m_requestBlocks m \<and> m_pendingAllocations m' = m_pendingAllocations m \<and>
     m_cachedBlocks m' = m_cachedBlocks m \<and> m_blockSize m' = m_blockSize m"
proof -
  note inv' = mgr_invD [OF inv]
  have cache: "cache_ok m"
    using inv'(1) by (simp add: core_inv_def)
  have cached: "unat x < length (m_blocks m) \<and> blk_Cached (bl m x)" if "x \<in> set ids" for x
  proof -
    from that obtain h where h: "h \<in> set hs" "x = the (fmlookup (m_cachedBlocks m) h)"
      by (auto simp: ids_def)
    then have "fmlookup (m_cachedBlocks m) h = Some x"
      using hs by (auto simp: transferable_def split: option.splits)
    then show ?thesis
      using cache_okD [OF cache, of h x] by simp
  qed
  have "\<forall>x. count (refs P V m) x + length ids < 2 ^ 32"
    using refs_roomD [OF room] by (simp add: ids_def)
  then obtain m1 where m1: "touch ids m = Some m1" "core_inv (refs P V m + mset ids) m1" "metas m1 = metas m"
      "rest m1 = rest m"
    using touch_list [OF inv'(1), of ids] cached by blast
  note rf = rest_fields [OF m1(4)]
  have R: "refs (P + mset ids) V m1 = refs P V m + mset ids"
    using rf by (simp add: refs_def ac_simps)
  have "resv_ok (P + mset ids) V m1"
    unfolding resv_ok_def R
  proof
    fix x assume x: "x \<in># V"
    then have nc: "\<not> blk_Cached (bl m x)" "count (refs P V m) x = 1"
      using inv'(2) by (simp_all add: resv_ok_def)
    moreover have "x \<notin> set ids"
      using cached nc by blast
    moreover have "unat x < length (m_blocks m)"
      using x reserved_refs refs_in_range [OF inv] by blast
    ultimately show "count (refs P V m + mset ids) x = 1 \<and> \<not> blk_Cached (bl m1 x)"
      using metas_nth(3) [OF m1(3)] by (simp add: count_mset_0_iff)
  qed
  moreover have "pend_ok m1"
    using inv'(3) pend_ok_cong [of m1 m] rf by simp
  ultimately have "mgr_inv (P + mset ids) V m1"
    using m1(2) inv'(4) rf by (intro mgr_invI) (simp_all add: R)
  moreover have "pinLookup hs m = Some (Inr ids)"
    using pinLookup_spec [OF cache, of hs] hs by (auto simp: ids_def)
  then have "pinCachedBlocks hs m = Some (Inr ids, observeBlockStats m1)"
    using m1(1) by (simp add: pinCachedBlocks_def)
  moreover have "metas (observeBlockStats m1) = metas m"
    using m1(3) by (simp add: metas_def)
  ultimately show ?thesis
    using rf by auto
qed

lemma pin_fails:
  assumes "mgr_inv P V m" "h \<in> set hs" "\<not> transferable m h"
  shows "\<exists>e. pinCachedBlocks hs m = Some (Inl e, m)"
proof -
  have "cache_ok m"
    using mgr_invD(1) [OF assms(1)] by (simp add: core_inv_def)
  then obtain e where "pinLookup hs m = Some (Inl e)"
    using pinLookup_spec [of m hs] assms(2,3) by blast
  then show ?thesis
    by (simp add: pinCachedBlocks_def)
qed

subsection \<open>Reserving the destination\<close>

lemma reserve_ok:
  assumes inv: "mgr_inv P V m" and enough: "unat n \<le> length (free_ids m)"
  defines "ids \<equiv> take (unat n) (free_ids m)"
  shows "\<exists>m'. reserveTransferBlocks n m = Some (Some ids, m') \<and> mgr_inv P (V + mset ids) m' \<and>
     free_ids m' = drop (unat n) (free_ids m) \<and> alloc_frame ids m m'"
proof -
  note inv' = mgr_invD [OF inv]
  obtain m1 where m1: "allocate n m = Some (Some ids, m1)" "core_inv (refs P V m + mset ids) m1"
      "alloc_frame ids m m1" "free_ids m1 = drop (unat n) (free_ids m)"
    using allocate_spec [OF inv'(1), of n] enough by (auto simp: ids_def)
  have fr: "m_blockSize m1 = m_blockSize m" "m_requestBlocks m1 = m_requestBlocks m"
      "m_pendingAllocations m1 = m_pendingAllocations m"
    using m1(3) by (simp_all add: alloc_frame_def)
  have R: "refs P (V + mset ids) m1 = refs P V m + mset ids"
    using fr by (simp add: refs_def ac_simps)
  have d: "distinct ids"
    using core_inv_freeD [OF inv'(1)] by (simp add: ids_def free_ok_def)
  have new: "x \<notin># refs P V m" "unat x < length (m_blocks m)" if "x \<in> set ids" for x
    using free_not_refs [OF inv, of x] that in_set_takeD unfolding ids_def by fast+
  have "resv_ok P (V + mset ids) m1"
    unfolding resv_ok_def R
  proof
    fix x assume x: "x \<in># V + mset ids"
    show "count (refs P V m + mset ids) x = 1 \<and> \<not> blk_Cached (bl m1 x)"
    proof (cases "x \<in> set ids")
      case True
      then have "meta (bl m1 x) = ([], 0, False)"
        using m1(3) new(2) by (simp add: alloc_frame_def)
      then show ?thesis
        using True d new(1) by (simp add: meta_def not_in_iff distinct_count_atmost_1)
    next
      case False
      then have "x \<in># V"
        using x by simp
      then show ?thesis
        using inv'(2) False alloc_frame_meta(1) [OF m1(3) _ False] reserved_refs refs_in_range [OF inv]
        by (auto simp: resv_ok_def count_mset_0_iff)
    qed
  qed
  moreover have "pend_ok m1"
    using inv'(3) pend_ok_cong [of m1 m] fr by simp
  ultimately have "mgr_inv P (V + mset ids) m1"
    using m1(2) inv'(4) fr by (intro mgr_invI) (simp_all add: R)
  moreover have "alloc_frame ids m (observeBlockStats m1)"
    using m1(3) by (simp add: alloc_frame_def)
  ultimately show ?thesis
    using m1(1,4) by (auto simp: reserveTransferBlocks_def)
qed

lemma reserve_fails:
  assumes "mgr_inv P V m" "length (free_ids m) < unat n"
  shows "reserveTransferBlocks n m = Some (None, observeBlockStats m)"
  using allocate_spec [OF mgr_invD(1) [OF assms(1)], of n] assms(2) by (simp add: reserveTransferBlocks_def)

subsection \<open>Releasing either side\<close>

lemma pushFrees_inv:
  assumes inv: "mgr_inv P V m" and P: "P' \<subseteq># P" and V: "V' \<subseteq># V"
    and ids: "mset ids = P' + V'"
  shows "\<exists>m'. pushFrees ids m = Some m' \<and> mgr_inv (P - P') (V - V') m' \<and> metas m' = metas m \<and> rest m' = rest m"
proof -
  note inv' = mgr_invD [OF inv]
  have le: "count P' x \<le> count P x" "count V' x \<le> count V x" for x
    using P V by (simp_all add: mset_subset_eq_count)
  have "mset ids \<subseteq># refs P V m"
    using le by (intro mset_subset_eqI) (simp add: refs_def ids add.assoc add_mono trans_le_add2)
  then obtain m' where m': "pushFrees ids m = Some m'" "core_inv (refs P V m - mset ids) m'" "metas m' = metas m"
      "rest m' = rest m"
    using pushFrees_list [OF inv'(1)] by blast
  note rf = rest_fields [OF m'(4)]
  have R: "refs (P - P') (V - V') m' = refs P V m - mset ids"
  proof (rule multiset_eqI)
    fix x
    show "count (refs (P - P') (V - V') m') x = count (refs P V m - mset ids) x"
      using le [of x] rf by (simp add: refs_def ids)
  qed
  have "resv_ok (P - P') (V - V') m'"
    unfolding resv_ok_def R
  proof
    fix x assume x: "x \<in># V - V'"
    then have "x \<in># V"
      by (rule in_diffD)
    then have c: "count (refs P V m) x = 1" "\<not> blk_Cached (bl m x)" "unat x < length (m_blocks m)"
      using inv'(2) reserved_refs refs_in_range [OF inv] by (auto simp: resv_ok_def)
    have "0 < count V x - count V' x"
      using x by (simp flip: count_greater_zero_iff)
    then have "count (mset ids) x = 0"
      using c(1) le [of x] unfolding ids refs_def by simp
    then show "count (refs P V m - mset ids) x = 1 \<and> \<not> blk_Cached (bl m' x)"
      using c metas_nth(3) [OF m'(3) c(3)] by (simp only: count_diff diff_zero simp_thms)
  qed
  moreover have "pend_ok m'"
    using inv'(3) pend_ok_cong [of m' m] rf by simp
  ultimately have "mgr_inv (P - P') (V - V') m'"
    using m'(2) inv'(4) rf by (intro mgr_invI) (simp_all add: R)
  then show ?thesis
    using m' by blast
qed

lemma release_pins:
  assumes "mgr_inv P V m" "mset ids \<subseteq># P"
  shows "\<exists>m'. releaseTransferBlocks ids m = Some m' \<and> mgr_inv (P - mset ids) V m' \<and>
     m_requestBlocks m' = m_requestBlocks m \<and> m_cachedBlocks m' = m_cachedBlocks m \<and> metas m' = metas m"
proof -
  obtain m1 where m1: "pushFrees ids m = Some m1" "mgr_inv (P - mset ids) V m1" "metas m1 = metas m" "rest m1 = rest m"
    using pushFrees_inv [OF assms, of "{#}" ids] by auto
  have "metas (observeBlockStats m1) = metas m"
    using m1(3) by (simp add: metas_def)
  then show ?thesis
    using m1 rest_fields [OF m1(4)] by (simp add: releaseTransferBlocks_def)
qed

lemma release_reserved:
  assumes "mgr_inv P V m" "mset ids \<subseteq># V"
  shows "\<exists>m'. releaseTransferBlocks ids m = Some m' \<and> mgr_inv P (V - mset ids) m' \<and>
     m_requestBlocks m' = m_requestBlocks m \<and> m_cachedBlocks m' = m_cachedBlocks m \<and> metas m' = metas m"
proof -
  obtain m1 where m1: "pushFrees ids m = Some m1" "mgr_inv P (V - mset ids) m1" "metas m1 = metas m" "rest m1 = rest m"
    using pushFrees_inv [OF assms(1), of "{#}" "mset ids" ids] assms(2) by auto
  have "metas (observeBlockStats m1) = metas m"
    using m1(3) by (simp add: metas_def)
  then show ?thesis
    using m1 rest_fields [OF m1(4)] by (simp add: releaseTransferBlocks_def)
qed

subsection \<open>Importing\<close>

definition import_frame :: "manager \<Rightarrow> manager \<Rightarrow> bool" where
  "import_frame m m' \<longleftrightarrow> m_requestBlocks m' = m_requestBlocks m \<and>
     m_pendingAllocations m' = m_pendingAllocations m \<and> m_blockSize m' = m_blockSize m \<and>
     m_executorID m' = m_executorID m \<and> length (m_blocks m') = length (m_blocks m) \<and>
     (\<forall>h x. fmlookup (m_cachedBlocks m) h = Some x \<longrightarrow> fmlookup (m_cachedBlocks m') h = Some x) \<and>
     (\<forall>x. unat x < length (m_blocks m) \<longrightarrow> blk_Cached (bl m x) \<longrightarrow> meta (bl m' x) = meta (bl m x))"

lemma import_frame_refl [simp]: "import_frame m m"
  by (simp add: import_frame_def)

lemma import_frame_trans: "import_frame m m1 \<Longrightarrow> import_frame m1 m2 \<Longrightarrow> import_frame m m2"
  by (simp add: import_frame_def meta_def)

text \<open>The write that publishes a reserved block, and the state it leads to.\<close>

lemma import_write:
  assumes inv: "mgr_inv P V m" and x: "x \<in># V" and new: "fmlookup (m_cachedBlocks m) h = None"
  defines "b \<equiv> (bl m x)\<lparr>blk_Hash := h, blk_TokenCount := m_blockSize m, blk_Cached := True\<rparr>"
  defines "m1 \<equiv> m\<lparr>m_blocks := (m_blocks m)[unat x := b], m_cachedBlocks := fmupd h x (m_cachedBlocks m)\<rparr>"
  shows "core_inv (refs P V m) m1" "import_frame m m1"
proof -
  note inv' = mgr_invD [OF inv]
  have r: "unat x < length (m_blocks m)" and unc: "\<not> blk_Cached (bl m x)"
    using x reserved_refs refs_in_range [OF inv] inv'(2) by (auto simp: resv_ok_def)
  have "cache_ok m1"
    using cache_ok_publish [OF _ r new unc, of b m1] inv'(1) by (simp add: core_inv_def m1_def b_def)
  then show "core_inv (refs P V m) m1"
    by (intro core_inv_block_write(1) [OF inv'(1) r, of b m1]) (simp_all add: m1_def b_def)
  show "import_frame m m1"
    using new unc r by (auto simp: import_frame_def m1_def nth_list_update unat_inj_u32)
qed

lemma import_one:
  assumes inv: "mgr_inv P V m" and x: "x \<in># V"
  shows "\<exists>m'. importLoop [(x, h)] m = Some m' \<and> mgr_inv P (V - {#x#}) m' \<and> import_frame m m' \<and>
     has_key (m_cachedBlocks m') h \<and>
     (fmlookup (m_cachedBlocks m) h = None \<longrightarrow> transferable m' h \<and> fmlookup (m_cachedBlocks m') h = Some x)"
proof -
  note inv' = mgr_invD [OF inv]
  have r: "unat x < length (m_blocks m)" and unc: "\<not> blk_Cached (bl m x)"
    using x reserved_refs refs_in_range [OF inv] inv'(2) by (auto simp: resv_ok_def)
  let ?b = "(bl m x)\<lparr>blk_Hash := h, blk_TokenCount := m_blockSize m, blk_Cached := True\<rparr>"
  let ?w = "m\<lparr>m_blocks := (m_blocks m)[unat x := ?b], m_cachedBlocks := fmupd h x (m_cachedBlocks m)\<rparr>"
  define m1 where "m1 = (if has_key (m_cachedBlocks m) h then m else ?w)"
  have nx: "fmlookup (m_cachedBlocks m) h \<noteq> Some x"
    using cache_okD [of m h x] unc inv'(1) by (simp add: core_inv_def)
  have m1: "core_inv (refs P V m) m1" "import_frame m m1" "has_key (m_cachedBlocks m1) h"
    using import_write [OF inv x, of h] inv'(1) by (auto simp: m1_def)
  have V1: "y \<noteq> x" "unat y < length (m_blocks m)" "count (refs P V m) y = 1" "\<not> blk_Cached (bl m1 y)"
    if "y \<in># V - {#x#}" for y
  proof -
    have y: "y \<in># V" "0 < count (V - {#x#}) y"
      using in_diffD [OF that] that unfolding count_greater_zero_iff by blast+
    then show c: "count (refs P V m) y = 1" and l: "unat y < length (m_blocks m)"
      using inv'(2) reserved_refs refs_in_range [OF inv] by (auto simp: resv_ok_def)
    show "y \<noteq> x"
      using y(2) c by (auto simp: refs_def)
    then show "\<not> blk_Cached (bl m1 y)"
      using y(1) inv'(2) r by (simp add: m1_def resv_ok_def nth_list_update unat_inj_u32)
  qed
  obtain m' where m': "pushFree x m1 = Some m'" "core_inv (refs P V m - {#x#}) m'" "metas m' = metas m1" "rest m' = rest m1"
    using pushFree_one [OF m1(1)] x reserved_refs by blast
  note rf = rest_fields [OF m'(4)]
  have loop: "importLoop [(x, h)] m = Some m'"
    using m'(1) nx r by (cases "fmlookup (m_cachedBlocks m) h") (auto simp: m1_def panic_simps)
  have R: "refs P (V - {#x#}) m' = refs P V m - {#x#}"
    using rf(3) m1(2) multiset_diff_union_assoc [of "{#x#}" V "tables (m_requestBlocks m) + P"] x
    by (simp add: refs_def import_frame_def)
  have len: "length (m_blocks m1) = length (m_blocks m)"
    using m1(2) by (simp add: import_frame_def)
  have "resv_ok P (V - {#x#}) m'"
    unfolding resv_ok_def R using V1 metas_nth(3) [OF m'(3)] len by auto
  moreover have "pend_ok m'"
    using inv'(3) pend_ok_cong [of m' m] rf m1(2) by (simp add: import_frame_def)
  ultimately have "mgr_inv P (V - {#x#}) m'"
    using m'(2) inv'(4) rf m1(2) by (intro mgr_invI) (simp_all add: R import_frame_def)
  moreover have "import_frame m1 m'"
    using rf metas_nth [OF m'(3)] metas_length_eq [OF m'(3)] by (simp add: import_frame_def meta_def)
  then have "import_frame m m'"
    using m1(2) import_frame_trans by blast
  moreover have "transferable m' h \<and> fmlookup (m_cachedBlocks m') h = Some x" if "fmlookup (m_cachedBlocks m) h = None"
    using that rf r metas_nth(2) [OF m'(3), of x] len by (simp add: transferable_def m1_def)
  ultimately show ?thesis
    using loop rf(4) m1(3) by auto
qed

lemma importLoop_Cons: "importLoop ((x, h) # xs) m = Option.bind (importLoop [(x, h)] m) (importLoop xs)"
  by (simp add: bind_assoc)

lemma importLoop_spec:
  assumes "mgr_inv P V m" "mset (map fst xs) \<subseteq># V"
  shows "\<exists>m'. importLoop xs m = Some m' \<and> mgr_inv P (V - mset (map fst xs)) m' \<and> import_frame m m' \<and>
     (\<forall>h \<in> set (map snd xs). has_key (m_cachedBlocks m') h)"
  using assms
proof (induction xs arbitrary: m V)
  case Nil
  then show ?case by simp
next
  case (Cons p xs)
  obtain x h where p: "p = (x, h)" by (cases p)
  then have x: "x \<in># V" and sub: "mset (map fst xs) \<subseteq># V - {#x#}"
    using Cons.prems(2) by (auto simp: insert_subset_eq_iff)
  obtain m1 where m1: "importLoop [(x, h)] m = Some m1" "mgr_inv P (V - {#x#}) m1" "import_frame m m1"
      "has_key (m_cachedBlocks m1) h"
    using import_one [OF Cons.prems(1) x] by blast
  obtain m' where m': "importLoop xs m1 = Some m'" "mgr_inv P (V - {#x#} - mset (map fst xs)) m'" "import_frame m1 m'"
      "\<forall>h \<in> set (map snd xs). has_key (m_cachedBlocks m') h"
    using Cons.IH [OF m1(2) sub] by blast
  have "importLoop (p # xs) m = Some m'"
    unfolding p importLoop_Cons [of x h xs m] m1(1) by (simp add: m'(1))
  moreover have "has_key (m_cachedBlocks m') h"
    using m'(3) m1(4) by (auto simp: import_frame_def)
  ultimately show ?case
    using m' m1(3) p import_frame_trans by (auto simp: diff_diff_add_mset)
qed

lemma checkReserved_ok:
  assumes "mgr_inv P V m" "set ids \<subseteq> set_mset V"
  shows "checkReserved ids m = Some None"
  using assms(2)
proof (induction ids)
  case Nil
  then show ?case by simp
next
  case (Cons x xs)
  then have x: "x \<in># refs P V m"
    by (simp add: refs_def)
  then have r: "unat x < length (m_blocks m)"
    using refs_in_range [OF assms(1)] by blast
  then have "unat (blk_RefCount (bl m x)) = count (refs P V m) x" "blk_InFreeQueue (bl m x) \<longleftrightarrow> blk_RefCount (bl m x) = 0"
    using mgr_invD(1) [OF assms(1)] by (simp_all add: core_inv_def refs_ok_def)
  moreover from this(1) have "blk_RefCount (bl m x) \<noteq> 0"
    using x by (metis count_eq_zero_iff unat_0)
  ultimately show ?case
    using Cons r by (simp add: panic_simps)
qed

text \<open>
  \<^verbatim>\<open>commitImportedBlocks\<close> on reserved blocks: every hash is in the index afterwards, existing
  entries are kept, and the blocks are no longer reserved.
\<close>

lemma import_ok:
  assumes inv: "mgr_inv P V m" and sub: "mset ids \<subseteq># V" and len: "length ids = length hashes"
  shows "\<exists>m'. commitImportedBlocks ids hashes m = Some (None, m') \<and> mgr_inv P (V - mset ids) m' \<and> import_frame m m' \<and>
     (\<forall>h \<in> set hashes. has_key (m_cachedBlocks m') h)"
proof -
  have "set ids \<subseteq> set_mset V"
    using set_mset_mono [OF sub] by simp
  then have "checkReserved ids m = Some None"
    using checkReserved_ok [OF inv] by blast
  moreover obtain m1 where m1: "importLoop (zip ids hashes) m = Some m1" "mgr_inv P (V - mset ids) m1" "import_frame m m1"
      "\<forall>h \<in> set hashes. has_key (m_cachedBlocks m1) h"
    using importLoop_spec [OF inv, of "zip ids hashes"] sub len by auto
  moreover have "import_frame m (observeBlockStats m1)"
    using m1(3) by (simp add: import_frame_def)
  ultimately show ?thesis
    using len by (simp add: commitImportedBlocks_def)
qed

end
