(* ===== verification/Block_Registry.thy ===== *)
theory Block_Registry
  imports Block_Transfer
begin

text \<open>
  The registry of block managers, \<^verbatim>\<open>internal/block/registry.go\<close>: one manager per executor, dispatch
  of the request operations to the manager of the executor, and the two-sided KV transfers, whose
  plans the registry keeps between \<^verbatim>\<open>PrepareTransfer\<close> and \<^verbatim>\<open>CommitTransfer\<close> or
  \<^verbatim>\<open>RollbackTransfer\<close>.
\<close>

subsection \<open>State and operations\<close>

record registry =
  r_managers :: "(string, manager) fmap"
  r_executorIDs :: "string list"
  r_pendingTransfers :: "(string, TransferPlan) fmap"

text \<open>\<^verbatim>\<open>runtimes\<close> maps an executor to a pointer, which may be nil.\<close>

fun newManagers :: "(string, ExecutorStats option) fmap \<Rightarrow> string list \<Rightarrow> (string, manager) fmap \<Rightarrow>
    (string, manager) fmap result" where
  "newManagers runtimes [] ms = Inr ms"
| "newManagers runtimes (executorID # es) ms = (case fmlookup runtimes executorID of
     Some (Some runtime) \<Rightarrow>
       if es_ExecutorId runtime \<noteq> executorID
       then Inl (Errorf (''executor runtime ID '' @ es_ExecutorId runtime @ '' does not match registered ID '' @ executorID) [])
       else (case newManager (Some runtime) of
           Inl err \<Rightarrow> Inl (Errorf (''create block manager for executor '' @ executorID @ '': '' @ error_Error err) [err])
         | Inr m \<Rightarrow> newManagers runtimes es (fmupd executorID m ms))
   | _ \<Rightarrow> Inl (Errorf (''executor '' @ executorID @ '' returned no runtime'') []))"

definition NewRegistry :: "(string, ExecutorStats option) fmap \<Rightarrow> registry result" where
  "NewRegistry runtimes =
     (if map_len runtimes = 0 then Inl (Errorf ''block registry requires at least one executor'' [])
      else let ids = sorted_list_of_fset (fmdom runtimes)
           in case newManagers runtimes ids fmempty of
                Inl err \<Rightarrow> Inl err
              | Inr ms \<Rightarrow> Inr \<lparr>r_managers = ms, r_executorIDs = ids, r_pendingTransfers = fmempty\<rparr>)"

definition managerFor :: "string \<Rightarrow> registry \<Rightarrow> manager result" where
  "managerFor executorID r = (case fmlookup (r_managers r) executorID of
     None \<Rightarrow> Inl (Errorf (''block manager for executor '' @ executorID @ '' not found'') [])
   | Some m \<Rightarrow> Inr m)"

text \<open>The managers are pointers: an operation on one is seen through the registry.\<close>

definition setManager :: "string \<Rightarrow> manager \<Rightarrow> registry \<Rightarrow> registry" where
  "setManager e m r = r\<lparr>r_managers := fmupd e m (r_managers r)\<rparr>"

definition ExecutorIDs :: "registry \<Rightarrow> string list" where
  "ExecutorIDs r = r_executorIDs r"

fun probeAll :: "Request \<Rightarrow> string list \<Rightarrow> registry \<Rightarrow> PrefixCandidate list option" where
  "probeAll req [] r = Some []"
| "probeAll req (e # es) r = do {
     m \<leftarrow> fmlookup (r_managers r) e;
     c \<leftarrow> probePrefix req m;
     cs \<leftarrow> probeAll req es r;
     Some (c # cs)
   }"

definition ProbePrefixes :: "Request \<Rightarrow> registry \<Rightarrow> PrefixCandidate list option" where
  "ProbePrefixes req r = probeAll req (r_executorIDs r) r"

definition registry_MatchPrefix :: "Request \<Rightarrow> registry \<Rightarrow> ((PrefixMatch \<times> Request) result \<times> registry) option" where
  "registry_MatchPrefix req r = (case managerFor (rq_ExecutorID req) r of
     Inl err \<Rightarrow> Some (Inl err, r)
   | Inr m \<Rightarrow> do {
       (res, m') \<leftarrow> manager_MatchPrefix req m;
       Some (Inr res, setManager (rq_ExecutorID req) m' r)
     })"

definition registry_AllocateBlocks :: "WorkItem \<Rightarrow> registry \<Rightarrow> ((bool \<times> WorkItem) result \<times> registry) option" where
  "registry_AllocateBlocks work r = (case managerFor (wk_ExecutorID work) r of
     Inl err \<Rightarrow> Some (Inl err, r)
   | Inr m \<Rightarrow> do {
       (res, m') \<leftarrow> manager_AllocateBlocks work m;
       Some (Inr res, setManager (wk_ExecutorID work) m' r)
     })"

definition registry_Commit :: "string \<Rightarrow> string \<Rightarrow> registry \<Rightarrow> (error option \<times> registry) option" where
  "registry_Commit executorID workID r = (case managerFor executorID r of
     Inl err \<Rightarrow> Some (Some err, r)
   | Inr m \<Rightarrow> do { m' \<leftarrow> manager_Commit workID m; Some (None, setManager executorID m' r) })"

definition registry_Rollback :: "string \<Rightarrow> string \<Rightarrow> registry \<Rightarrow> (error option \<times> registry) option" where
  "registry_Rollback executorID workID r = (case managerFor executorID r of
     Inl err \<Rightarrow> Some (Some err, r)
   | Inr m \<Rightarrow> do { m' \<leftarrow> manager_Rollback workID m; Some (None, setManager executorID m' r) })"

definition registry_FreeRequest :: "string \<Rightarrow> string \<Rightarrow> registry \<Rightarrow> (error option \<times> registry) option" where
  "registry_FreeRequest executorID requestID r = (case managerFor executorID r of
     Inl err \<Rightarrow> Some (Some err, r)
   | Inr m \<Rightarrow> do { m' \<leftarrow> manager_FreeRequest requestID m; Some (None, setManager executorID m' r) })"

definition cloneTransferPlan :: "TransferPlan \<Rightarrow> TransferPlan" where
  "cloneTransferPlan plan = plan"

text \<open>
  The part of \<^verbatim>\<open>PrepareTransfer\<close> under the transfer lock: pin at the source, reserve at the
  destination, and release the pins when the destination is full.
\<close>

definition prepareLocked :: "string \<Rightarrow> string \<Rightarrow> string \<Rightarrow> string list \<Rightarrow> manager \<Rightarrow> manager \<Rightarrow> registry \<Rightarrow>
    (TransferPlan result \<times> registry) option" where
  "prepareLocked transferID sourceID destinationID hashes source destination r =
     (if has_key (r_pendingTransfers r) transferID
      then Some (Inl (Errorf (''transfer '' @ transferID @ '' already exists'') []), r)
      else do {
        (pinned, source1) \<leftarrow> pinCachedBlocks hashes source;
        case pinned of
          Inl err \<Rightarrow> Some (Inl err, setManager sourceID source1 r)
        | Inr sourceBlockIDs \<Rightarrow> do {
            (reserved, destination1) \<leftarrow> reserveTransferBlocks (of_nat (length hashes)) destination;
            case reserved of
              None \<Rightarrow> do {
                source2 \<leftarrow> releaseTransferBlocks sourceBlockIDs source1;
                Some (Inl (Errorf (''destination executor '' @ destinationID @ '' has insufficient free blocks'') []),
                      setManager destinationID destination1 (setManager sourceID source2 r))
              }
            | Some destinationBlockIDs \<Rightarrow>
                let plan = \<lparr>tp_TransferID = transferID, tp_SourceExecutorID = sourceID,
                            tp_SourceBlockIDs = sourceBlockIDs, tp_DestinationExecutorID = destinationID,
                            tp_DestinationBlockIDs = destinationBlockIDs, tp_BlockHashes = hashes\<rparr>;
                    r1 = setManager destinationID destination1 (setManager sourceID source1 r)
                in Some (Inr (cloneTransferPlan plan),
                         r1\<lparr>r_pendingTransfers := fmupd transferID plan (r_pendingTransfers r1)\<rparr>)
          }
      })"

definition PrepareTransfer :: "string \<Rightarrow> string \<Rightarrow> string \<Rightarrow> string list \<Rightarrow> registry \<Rightarrow>
    (TransferPlan result \<times> registry) option" where
  "PrepareTransfer transferID sourceID destinationID hashes r =
     (if transferID = [] then Some (Inl (Errorf ''transfer ID must not be empty'' []), r)
      else if sourceID = destinationID then Some (Inl (Errorf ''source and destination executors must differ'' []), r)
      else if hashes = [] then Some (Inl (Errorf ''transfer requires at least one block hash'' []), r)
      else (case managerFor sourceID r of
          Inl err \<Rightarrow> Some (Inl err, r)
        | Inr source \<Rightarrow> (case managerFor destinationID r of
              Inl err \<Rightarrow> Some (Inl err, r)
            | Inr destination \<Rightarrow>
                if m_blockSize source \<noteq> m_blockSize destination
                then Some (Inl (Errorf ''source and destination block sizes differ'' []), r)
                else prepareLocked transferID sourceID destinationID hashes source destination r)))"

definition CommitTransfer :: "string \<Rightarrow> registry \<Rightarrow> (error option \<times> registry) option" where
  "CommitTransfer transferID r = (case fmlookup (r_pendingTransfers r) transferID of
     None \<Rightarrow> Some (Some (Errorf (''transfer '' @ transferID @ '' not found'') []), r)
   | Some plan \<Rightarrow> do {
       destination \<leftarrow> fmlookup (r_managers r) (tp_DestinationExecutorID plan);
       (err, destination1) \<leftarrow> commitImportedBlocks (tp_DestinationBlockIDs plan) (tp_BlockHashes plan) destination;
       let r1 = setManager (tp_DestinationExecutorID plan) destination1 r;
       case err of
         Some e \<Rightarrow> Some (Some e, r1)
       | None \<Rightarrow> do {
           source \<leftarrow> fmlookup (r_managers r1) (tp_SourceExecutorID plan);
           source1 \<leftarrow> releaseTransferBlocks (tp_SourceBlockIDs plan) source;
           let r2 = setManager (tp_SourceExecutorID plan) source1 r1;
           Some (None, r2\<lparr>r_pendingTransfers := fmdrop transferID (r_pendingTransfers r2)\<rparr>)
         }
     })"

definition RollbackTransfer :: "string \<Rightarrow> registry \<Rightarrow> (error option \<times> registry) option" where
  "RollbackTransfer transferID r = (case fmlookup (r_pendingTransfers r) transferID of
     None \<Rightarrow> Some (Some (Errorf (''transfer '' @ transferID @ '' not found'') []), r)
   | Some plan \<Rightarrow> do {
       destination \<leftarrow> fmlookup (r_managers r) (tp_DestinationExecutorID plan);
       destination1 \<leftarrow> releaseTransferBlocks (tp_DestinationBlockIDs plan) destination;
       let r1 = setManager (tp_DestinationExecutorID plan) destination1 r;
       source \<leftarrow> fmlookup (r_managers r1) (tp_SourceExecutorID plan);
       source1 \<leftarrow> releaseTransferBlocks (tp_SourceBlockIDs plan) source;
       let r2 = setManager (tp_SourceExecutorID plan) source1 r1;
       Some (None, r2\<lparr>r_pendingTransfers := fmdrop transferID (r_pendingTransfers r2)\<rparr>)
     })"

subsection \<open>The contract of a transfer endpoint\<close>

text \<open>
  What the registry relies on.  An endpoint state satisfies \<open>inv P V\<close> when \<open>P\<close> are the blocks
  pinned and \<open>V\<close> the blocks reserved by outstanding transfers.
\<close>

locale kv_endpoint =
  fixes inv :: "u32 multiset \<Rightarrow> u32 multiset \<Rightarrow> 'm \<Rightarrow> bool"
    and room :: "u32 multiset \<Rightarrow> u32 multiset \<Rightarrow> 'm \<Rightarrow> nat \<Rightarrow> bool"
    and pin :: "string list \<Rightarrow> 'm \<Rightarrow> (u32 list result \<times> 'm) option"
    and reserve :: "u32 \<Rightarrow> 'm \<Rightarrow> (u32 list option \<times> 'm) option"
    and imp :: "u32 list \<Rightarrow> string list \<Rightarrow> 'm \<Rightarrow> (error option \<times> 'm) option"
    and release :: "u32 list \<Rightarrow> 'm \<Rightarrow> 'm option"
    and indexed :: "'m \<Rightarrow> string \<Rightarrow> bool"
  assumes room_u32: "room P V m k \<Longrightarrow> k < 2 ^ 32"
    and pin_law: "inv P V m \<Longrightarrow> room P V m (length hs) \<Longrightarrow> \<exists>res m'. pin hs m = Some (res, m') \<and>
      (case res of Inl e \<Rightarrow> m' = m
       | Inr ids \<Rightarrow> length ids = length hs \<and> inv (P + mset ids) V m' \<and> (\<forall>h \<in> set hs. indexed m h) \<and> indexed m' = indexed m)"
    and reserve_law: "inv P V m \<Longrightarrow> \<exists>res m'. reserve n m = Some (res, m') \<and>
      (case res of None \<Rightarrow> inv P V m' | Some ids \<Rightarrow> length ids = unat n \<and> inv P (V + mset ids) m')"
    and import_law: "inv P V m \<Longrightarrow> mset ids \<subseteq># V \<Longrightarrow> length ids = length hs \<Longrightarrow>
      \<exists>m'. imp ids hs m = Some (None, m') \<and> inv P (V - mset ids) m' \<and> (\<forall>h. indexed m h \<or> h \<in> set hs \<longrightarrow> indexed m' h)"
    and release_pin_law: "inv P V m \<Longrightarrow> mset ids \<subseteq># P \<Longrightarrow>
      \<exists>m'. release ids m = Some m' \<and> inv (P - mset ids) V m' \<and> indexed m' = indexed m"
    and release_reserve_law: "inv P V m \<Longrightarrow> mset ids \<subseteq># V \<Longrightarrow>
      \<exists>m'. release ids m = Some m' \<and> inv P (V - mset ids) m' \<and> indexed m' = indexed m"
begin

text \<open>
  The three outcomes of preparing a transfer from \<open>s\<close> to \<open>d\<close>: the source refuses and nothing
  changes; the destination refuses and the pins are returned; or both sides hold as many blocks as
  there are hashes.
\<close>

lemma prepare_outcomes:
  assumes "inv P V s" "room P V s (length hs)" "inv P' V' d"
  shows "(\<exists>e. pin hs s = Some (Inl e, s)) \<or>
    (\<exists>src s1 d1 s2. pin hs s = Some (Inr src, s1) \<and> reserve (of_nat (length hs)) d = Some (None, d1) \<and>
       release src s1 = Some s2 \<and> inv P V s2 \<and> inv P' V' d1) \<or>
    (\<exists>src s1 dst d1. pin hs s = Some (Inr src, s1) \<and> reserve (of_nat (length hs)) d = Some (Some dst, d1) \<and>
       length src = length hs \<and> length dst = length hs \<and> inv (P + mset src) V s1 \<and> inv P' (V' + mset dst) d1)"
proof -
  obtain res s1 where pin: "pin hs s = Some (res, s1)" "case res of Inl e \<Rightarrow> s1 = s
       | Inr ids \<Rightarrow> length ids = length hs \<and> inv (P + mset ids) V s1 \<and> (\<forall>h \<in> set hs. indexed s h) \<and> indexed s1 = indexed s"
    using pin_law [OF assms(1,2)] by blast
  have n: "unat (of_nat (length hs) :: u32) = length hs"
    using room_u32 [OF assms(2)] by (rule unat_of_nat_u32)
  show ?thesis
  proof (cases res)
    case (Inl e)
    then show ?thesis using pin by auto
  next
    case (Inr src)
    then have s1: "length src = length hs" "inv (P + mset src) V s1"
      using pin(2) by auto
    obtain dres d1 where d: "reserve (of_nat (length hs)) d = Some (dres, d1)"
      "case dres of None \<Rightarrow> inv P' V' d1 | Some ids \<Rightarrow> length ids = length hs \<and> inv P' (V' + mset ids) d1"
      using reserve_law [OF assms(3), of "of_nat (length hs)"] unfolding n by blast
    show ?thesis
    proof (cases dres)
      case None
      obtain s2 where "release src s1 = Some s2" "inv P V s2"
        using release_pin_law [OF s1(2), of src] by auto
      then show ?thesis
        using pin(1) d None Inr by auto
    next
      case (Some dst)
      then show ?thesis
        using pin(1) d s1 Inr by auto
    qed
  qed
qed

text \<open>Finishing a transfer either way returns exactly the blocks of its plan.\<close>

lemma commit_outcome:
  assumes "inv P V s" "inv P' V' d" "mset src \<subseteq># P" "mset dst \<subseteq># V'" "length dst = length hs"
  shows "\<exists>s1 d1. imp dst hs d = Some (None, d1) \<and> release src s = Some s1 \<and>
    inv (P - mset src) V s1 \<and> inv P' (V' - mset dst) d1 \<and> (\<forall>h \<in> set hs. indexed d1 h)"
  using import_law [OF assms(2,4,5)] release_pin_law [OF assms(1,3)] by blast

lemma rollback_outcome:
  assumes "inv P V s" "inv P' V' d" "mset src \<subseteq># P" "mset dst \<subseteq># V'"
  shows "\<exists>s1 d1. release dst d = Some d1 \<and> release src s = Some s1 \<and>
    inv (P - mset src) V s1 \<and> inv P' (V' - mset dst) d1 \<and> indexed d1 = indexed d"
  using release_reserve_law [OF assms(2,4)] release_pin_law [OF assms(1,3)] by blast

end

text \<open>The block manager is such an endpoint.\<close>

definition indexed :: "manager \<Rightarrow> string \<Rightarrow> bool" where
  "indexed m h \<longleftrightarrow> has_key (m_cachedBlocks m) h"

lemma indexed_cong: "m_cachedBlocks m' = m_cachedBlocks m \<Longrightarrow> indexed m' = indexed m"
  by (rule ext) (simp add: indexed_def)

interpretation ep: kv_endpoint mgr_inv refs_room pinCachedBlocks reserveTransferBlocks commitImportedBlocks
    releaseTransferBlocks indexed
proof (unfold_locales, goal_cases)
  case (1 P V m k)
  then show ?case by (simp add: refs_room_def)
next
  case (2 P V m hs)
  show ?case
  proof (cases "\<forall>h \<in> set hs. transferable m h")
    case True
    have ix: "\<forall>h \<in> set hs. indexed m h"
      using True by (auto simp: transferable_def indexed_def split: option.splits)
    let ?ids = "map (\<lambda>h. the (fmlookup (m_cachedBlocks m) h)) hs"
    obtain m' where m': "pinCachedBlocks hs m = Some (Inr ?ids, m')" "mgr_inv (P + mset ?ids) V m'"
        "m_cachedBlocks m' = m_cachedBlocks m"
      using pin_ok [OF 2 True] by (elim exE conjE)
    have "indexed m' = indexed m"
      by (rule indexed_cong [OF m'(3)])
    then show ?thesis
      using m'(1,2) ix by (intro exI [of _ "Inr ?ids"] exI [of _ m']) simp
  next
    case False
    then show ?thesis
      using pin_fails [OF 2(1)] by fastforce
  qed
next
  case (3 P V m n)
  show ?case
  proof (cases "unat n \<le> length (free_ids m)")
    case True
    then show ?thesis using reserve_ok [OF 3 True] by force
  next
    case False
    then show ?thesis using reserve_fails [OF 3, of n] 3 by auto
  qed
next
  case (4 P V m ids hs)
  obtain m' where "commitImportedBlocks ids hs m = Some (None, m')" "mgr_inv P (V - mset ids) m'" "import_frame m m'"
      "\<forall>h \<in> set hs. has_key (m_cachedBlocks m') h"
    using import_ok [OF 4] by blast
  then show ?case
    by (auto simp: indexed_def import_frame_def)
next
  case (5 P V m ids)
  then show ?case using release_pins [OF 5] indexed_cong by blast
next
  case (6 P V m ids)
  then show ?case using release_reserved [OF 6] indexed_cong by blast
qed

subsection \<open>The invariant\<close>

text \<open>The blocks outstanding transfers pin and reserve at executor \<open>e\<close>.\<close>

definition fmsum :: "('v \<Rightarrow> 'a multiset) \<Rightarrow> ('k, 'v) fmap \<Rightarrow> 'a multiset" where
  "fmsum f m = (\<Sum>k \<in> fset (fmdom m). f (the (fmlookup m k)))"

lemma fmsum_empty [simp]: "fmsum f fmempty = {#}"
  by (simp add: fmsum_def)

lemma fmsum_drop:
  assumes "fmlookup m k = Some v"
  shows "fmsum f m = fmsum f (fmdrop k m) + f v"
proof -
  have "k \<in> fset (fmdom m)"
    using assms by (simp add: fmdomI)
  moreover have "fmsum f (fmdrop k m) = (\<Sum>q \<in> fset (fmdom m) - {k}. f (the (fmlookup m q)))"
    unfolding fmsum_def by (rule sum.cong) auto
  ultimately show ?thesis
    using assms by (simp add: fmsum_def sum.remove [of _ k] add.commute)
qed

lemma fmsum_upd: "fmlookup m k = None \<Longrightarrow> fmsum f (fmupd k v m) = fmsum f m + f v"
  using fmsum_drop [of "fmupd k v m" k v f] by (simp add: fmdrop_fmupd_same fmdrop_idle fmdom_notI)

definition pins :: "registry \<Rightarrow> string \<Rightarrow> u32 multiset" where
  "pins r e = fmsum (\<lambda>p. if tp_SourceExecutorID p = e then mset (tp_SourceBlockIDs p) else {#}) (r_pendingTransfers r)"

definition reserved :: "registry \<Rightarrow> string \<Rightarrow> u32 multiset" where
  "reserved r e = fmsum (\<lambda>p. if tp_DestinationExecutorID p = e then mset (tp_DestinationBlockIDs p) else {#})
     (r_pendingTransfers r)"

definition plan_ok :: "registry \<Rightarrow> string \<Rightarrow> TransferPlan \<Rightarrow> bool" where
  "plan_ok r t p \<longleftrightarrow> tp_TransferID p = t \<and> tp_SourceExecutorID p \<noteq> tp_DestinationExecutorID p \<and>
     has_key (r_managers r) (tp_SourceExecutorID p) \<and> has_key (r_managers r) (tp_DestinationExecutorID p) \<and>
     length (tp_SourceBlockIDs p) = length (tp_BlockHashes p) \<and>
     length (tp_DestinationBlockIDs p) = length (tp_BlockHashes p)"

definition reg_inv :: "registry \<Rightarrow> bool" where
  "reg_inv r \<longleftrightarrow>
     (\<forall>e m. fmlookup (r_managers r) e = Some m \<longrightarrow> mgr_inv (pins r e) (reserved r e) m) \<and>
     (\<forall>t p. fmlookup (r_pendingTransfers r) t = Some p \<longrightarrow> plan_ok r t p) \<and>
     set (r_executorIDs r) = fset (fmdom (r_managers r)) \<and> distinct (r_executorIDs r)"

lemma reg_invD:
  assumes "reg_inv r"
  shows "fmlookup (r_managers r) e = Some m \<Longrightarrow> mgr_inv (pins r e) (reserved r e) m"
    "fmlookup (r_pendingTransfers r) t = Some p \<Longrightarrow> plan_ok r t p"
  using assms by (auto simp: reg_inv_def)

lemma setManager_simps [simp]:
  "r_pendingTransfers (setManager e m r) = r_pendingTransfers r"
  "r_executorIDs (setManager e m r) = r_executorIDs r"
  "fmlookup (r_managers (setManager e m r)) e' = (if e' = e then Some m else fmlookup (r_managers r) e')"
  "pins (setManager e m r) = pins r" "reserved (setManager e m r) = reserved r"
  by (auto simp: setManager_def pins_def reserved_def)

text \<open>Replacing the manager of an existing executor by one with the same obligations.\<close>

lemma reg_inv_setManager:
  assumes "reg_inv r" "fmlookup (r_managers r) e = Some m" "mgr_inv (pins r e) (reserved r e) m'"
  shows "reg_inv (setManager e m' r)"
proof -
  have "fset (fmdom (r_managers (setManager e m' r))) = fset (fmdom (r_managers r))"
    using assms(2) by (auto simp: setManager_def fmdomI)
  moreover have "plan_ok (setManager e m' r) t p" if "plan_ok r t p" for t p
    using that by (simp add: plan_ok_def)
  ultimately show ?thesis
    using assms by (simp add: reg_inv_def)
qed

end
