(* ===== verification/Kv_Metrics.thy ===== *)
theory Kv_Metrics
  imports Kv_Model
begin

text \<open>
  The engine metrics, \<^verbatim>\<open>internal/metrics/metrics.go\<close> and \<^verbatim>\<open>runtime.go\<close>.  A counter is a number, a
  counter with labels a finite map from label values to numbers, a gauge a signed number and a
  histogram the list of its observations in order, in the unit they are observed in; durations are
  kept in nanoseconds.  Exposition over HTTP is Prometheus' own and not modelled.
\<close>

record metrics =
  mx_requestsTotal :: "(string \<times> string, nat) fmap"
  mx_requestDuration :: "duration list"
  mx_ttft :: "duration list"
  mx_tbt :: "duration list"
  mx_queueWait :: "duration list"
  mx_execution :: "(string, duration list) fmap"
  mx_batchSize :: "(string, int list) fmap"
  mx_batchItemsTotal :: "(string, int) fmap"
  mx_batchesTotal :: "(string \<times> string, nat) fmap"
  mx_prefillQueueLength :: int
  mx_decodeQueueLength :: int
  mx_activeRequests :: int
  mx_inflightBatches :: int
  mx_prefixCacheRequestsTotal :: "(string, nat) fmap"
  mx_prefixCacheTokensSavedTotal :: nat
  mx_queueRejectedTotal :: nat
  mx_executorErrorsTotal :: "(string, nat) fmap"
  mx_runtimeStats :: EngineRuntimeStats

definition NewMetrics :: metrics where
  "NewMetrics = \<lparr>mx_requestsTotal = fmempty, mx_requestDuration = [], mx_ttft = [], mx_tbt = [], mx_queueWait = [],
     mx_execution = fmempty, mx_batchSize = fmempty, mx_batchItemsTotal = fmempty, mx_batchesTotal = fmempty,
     mx_prefillQueueLength = 0, mx_decodeQueueLength = 0, mx_activeRequests = 0, mx_inflightBatches = 0,
     mx_prefixCacheRequestsTotal = fmempty, mx_prefixCacheTokensSavedTotal = 0, mx_queueRejectedTotal = 0,
     mx_executorErrorsTotal = fmempty,
     mx_runtimeStats = \<lparr>rs_PrefillQueueLength = 0, rs_DecodeQueueLength = 0, rs_ActiveRequests = 0,
       rs_InflightBatches = 0, rs_BusyExecutors = 0, rs_IdleExecutors = 0\<rparr>\<rparr>"

text \<open>\<^verbatim>\<open>WithLabelValues(k).Add(n)\<close>: an absent label starts at zero.\<close>

definition vec_add :: "'k \<Rightarrow> 'n::comm_monoid_add \<Rightarrow> ('k, 'n) fmap \<Rightarrow> ('k, 'n) fmap" where
  "vec_add k n v = fmupd k ((case fmlookup v k of None \<Rightarrow> 0 | Some c \<Rightarrow> c) + n) v"

definition vec_observe :: "'k \<Rightarrow> 'a \<Rightarrow> ('k, 'a list) fmap \<Rightarrow> ('k, 'a list) fmap" where
  "vec_observe k x v = fmupd k ((case fmlookup v k of None \<Rightarrow> [] | Some xs \<Rightarrow> xs) @ [x]) v"

definition IncRequest :: "string \<Rightarrow> string \<Rightarrow> metrics \<Rightarrow> metrics" where
  "IncRequest status executorID m = m\<lparr>mx_requestsTotal := vec_add (status, executorID) 1 (mx_requestsTotal m)\<rparr>"

definition ObserveRequestDuration :: "duration \<Rightarrow> metrics \<Rightarrow> metrics" where
  "ObserveRequestDuration s m = m\<lparr>mx_requestDuration := mx_requestDuration m @ [s]\<rparr>"

definition ObserveTTFT :: "duration \<Rightarrow> metrics \<Rightarrow> metrics" where
  "ObserveTTFT s m = m\<lparr>mx_ttft := mx_ttft m @ [s]\<rparr>"

definition ObserveTBT :: "duration \<Rightarrow> metrics \<Rightarrow> metrics" where
  "ObserveTBT s m = m\<lparr>mx_tbt := mx_tbt m @ [s]\<rparr>"

definition ObserveQueueWait :: "duration \<Rightarrow> metrics \<Rightarrow> metrics" where
  "ObserveQueueWait s m = m\<lparr>mx_queueWait := mx_queueWait m @ [s]\<rparr>"

definition ObserveExecution :: "duration \<Rightarrow> string \<Rightarrow> metrics \<Rightarrow> metrics" where
  "ObserveExecution s executorID m = m\<lparr>mx_execution := vec_observe executorID s (mx_execution m)\<rparr>"

text \<open>A counter panics when it is decreased; the sizes passed here are lengths.\<close>

definition ObserveBatch :: "nat \<Rightarrow> nat \<Rightarrow> nat \<Rightarrow> metrics \<Rightarrow> metrics" where
  "ObserveBatch items prefillItems decodeItems m =
     m\<lparr>mx_batchSize := vec_observe ''mixed'' (int items) (mx_batchSize m),
       mx_batchItemsTotal := vec_add ''decode'' (int decodeItems) (vec_add ''prefill'' (int prefillItems) (mx_batchItemsTotal m))\<rparr>"

definition IncBatches :: "string \<Rightarrow> metrics \<Rightarrow> metrics" where
  "IncBatches executorID m = m\<lparr>mx_batchesTotal := vec_add (executorID, ''mixed'') 1 (mx_batchesTotal m)\<rparr>"

definition IncQueueRejected :: "metrics \<Rightarrow> metrics" where
  "IncQueueRejected m = m\<lparr>mx_queueRejectedTotal := mx_queueRejectedTotal m + 1\<rparr>"

definition IncExecutorErrors :: "string \<Rightarrow> metrics \<Rightarrow> metrics" where
  "IncExecutorErrors executorID m = m\<lparr>mx_executorErrorsTotal := vec_add executorID 1 (mx_executorErrorsTotal m)\<rparr>"

definition IncPrefixCacheRequests :: "bool \<Rightarrow> metrics \<Rightarrow> metrics" where
  "IncPrefixCacheRequests hit m =
     m\<lparr>mx_prefixCacheRequestsTotal := vec_add (if hit then ''hit'' else ''miss'') 1 (mx_prefixCacheRequestsTotal m)\<rparr>"

definition AddPrefixCacheTokensSaved :: "u64 \<Rightarrow> metrics \<Rightarrow> metrics" where
  "AddPrefixCacheTokensSaved tokens m =
     m\<lparr>mx_prefixCacheTokensSavedTotal := mx_prefixCacheTokensSavedTotal m + unat tokens\<rparr>"

definition Snapshot :: "metrics \<Rightarrow> EngineRuntimeStats" where
  "Snapshot m = mx_runtimeStats m"

subsection \<open>Gauges with a copy in the runtime statistics (runtime.go)\<close>

definition SetPrefillQueueLength :: "int \<Rightarrow> metrics \<Rightarrow> metrics" where
  "SetPrefillQueueLength n m = m\<lparr>mx_prefillQueueLength := n,
     mx_runtimeStats := (mx_runtimeStats m)\<lparr>rs_PrefillQueueLength := of_int n\<rparr>\<rparr>"

definition SetDecodeQueueLength :: "int \<Rightarrow> metrics \<Rightarrow> metrics" where
  "SetDecodeQueueLength n m = m\<lparr>mx_decodeQueueLength := n,
     mx_runtimeStats := (mx_runtimeStats m)\<lparr>rs_DecodeQueueLength := of_int n\<rparr>\<rparr>"

definition SetActiveRequests :: "int \<Rightarrow> metrics \<Rightarrow> metrics" where
  "SetActiveRequests n m = m\<lparr>mx_activeRequests := n,
     mx_runtimeStats := (mx_runtimeStats m)\<lparr>rs_ActiveRequests := of_int n\<rparr>\<rparr>"

definition SetInflightBatches :: "int \<Rightarrow> metrics \<Rightarrow> metrics" where
  "SetInflightBatches n m = m\<lparr>mx_inflightBatches := n,
     mx_runtimeStats := (mx_runtimeStats m)\<lparr>rs_InflightBatches := of_int n\<rparr>\<rparr>"

end
