(* ===== verification/Request_State.thy ===== *)
theory Request_State
  imports Block_Registry Kv_Metrics
begin

text \<open>
  The request state machine, \<^verbatim>\<open>internal/state/state_machine.go\<close>: the table of live requests, the
  event channel of each, and the transitions that executor events, cancellation, failure and
  deadlines make.  The manager's lock covers the table; events are sent after it is released, so
  each operation is given both as its locked part and as the whole.
\<close>

subsection \<open>Channels\<close>

text \<open>
  \<^verbatim>\<open>make(chan *model.Event, 5)\<close>.  A channel is a reference into a store, since subscribers keep it
  after it has left the table.
\<close>

record channel =
  ch_buf :: "Event list"
  ch_closed :: bool

definition chan_cap :: nat where "chan_cap = 5"

record state_manager =
  sm_requests :: "(string, Request) fmap"
  sm_subscribeCh :: "(string, nat) fmap"
  sm_channels :: "(nat, channel) fmap"
  sm_nextChannel :: nat
  sm_blockRegistry :: registry
  sm_activeRequests :: int
  sm_metrics :: metrics

definition NewRequestLifecycleStateManager :: "registry \<Rightarrow> metrics \<Rightarrow> state_manager" where
  "NewRequestLifecycleStateManager reg mx = \<lparr>sm_requests = fmempty, sm_subscribeCh = fmempty, sm_channels = fmempty,
     sm_nextChannel = 0, sm_blockRegistry = reg, sm_activeRequests = 0, sm_metrics = mx\<rparr>"

text \<open>
  \<^verbatim>\<open>ch <- e\<close> does not complete (\<open>None\<close>) on a closed channel, where it panics, and on a full one,
  where it waits for the receiver; \<^verbatim>\<open>close(ch)\<close> panics on a closed channel.  A receive takes the
  oldest event, or reports the channel closed once it is drained.
\<close>

definition chan_send :: "nat \<Rightarrow> Event \<Rightarrow> state_manager \<Rightarrow> state_manager option" where
  "chan_send c e s = (case fmlookup (sm_channels s) c of
     None \<Rightarrow> None
   | Some ch \<Rightarrow>
       if ch_closed ch \<or> chan_cap \<le> length (ch_buf ch) then None
       else Some (s\<lparr>sm_channels := fmupd c (ch\<lparr>ch_buf := ch_buf ch @ [e]\<rparr>) (sm_channels s)\<rparr>))"

definition chan_close :: "nat \<Rightarrow> state_manager \<Rightarrow> state_manager option" where
  "chan_close c s = (case fmlookup (sm_channels s) c of
     None \<Rightarrow> None
   | Some ch \<Rightarrow>
       if ch_closed ch then None
       else Some (s\<lparr>sm_channels := fmupd c (ch\<lparr>ch_closed := True\<rparr>) (sm_channels s)\<rparr>))"

definition chan_recv :: "nat \<Rightarrow> state_manager \<Rightarrow> (Event option \<times> state_manager) option" where
  "chan_recv c s = (case fmlookup (sm_channels s) c of
     None \<Rightarrow> None
   | Some ch \<Rightarrow> (case ch_buf ch of
         e # es \<Rightarrow> Some (Some e, s\<lparr>sm_channels := fmupd c (ch\<lparr>ch_buf := es\<rparr>) (sm_channels s)\<rparr>)
       | [] \<Rightarrow> if ch_closed ch then Some (None, s) else None))"

subsection \<open>Bookkeeping\<close>

definition increaseActiveRequestAndCacheHit :: "bool \<Rightarrow> u32 \<Rightarrow> state_manager \<Rightarrow> state_manager" where
  "increaseActiveRequestAndCacheHit hit cachedTokens s =
     (let n = sm_activeRequests s + 1;
          m1 = IncPrefixCacheRequests hit (SetActiveRequests n (sm_metrics s));
          m2 = (if hit then AddPrefixCacheTokensSaved (ucast cachedTokens) m1 else m1)
      in s\<lparr>sm_activeRequests := n, sm_metrics := m2\<rparr>)"

text \<open>An error of \<^verbatim>\<open>FreeRequest\<close> is only logged.\<close>

definition deleteRequest :: "string \<Rightarrow> state_manager \<Rightarrow> state_manager option" where
  "deleteRequest requestId s = do {
     let req = fmlookup (sm_requests s) requestId;
     let s1 = s\<lparr>sm_requests := fmdrop requestId (sm_requests s), sm_subscribeCh := fmdrop requestId (sm_subscribeCh s)\<rparr>;
     reg \<leftarrow> (case req of
         None \<Rightarrow> Some (sm_blockRegistry s1)
       | Some rq \<Rightarrow> map_option snd (registry_FreeRequest (rq_ExecutorID rq) requestId (sm_blockRegistry s1)));
     let n = sm_activeRequests s1 - 1;
     Some (s1\<lparr>sm_blockRegistry := reg, sm_activeRequests := n, sm_metrics := SetActiveRequests n (sm_metrics s1)\<rparr>)
   }"

definition zero_Event :: Event where
  "zero_Event = \<lparr>ev_WorkId = [], ev_RequestId = [], ev_BatchId = [], ev_ExecutorId = [], ev_Type = EventTypePrefillChunk,
     ev_ChunkIndex = 0, ev_TokenId = 0, ev_Done = False, ev_Usage = zero_Usage, ev_Timing = zero_Timing,
     ev_FinishReason = FinishReasonUnspecified, ev_At = 0, ev_Err = None\<rparr>"

definition zero_WorkItem :: WorkItem where
  "zero_WorkItem = \<lparr>wk_WorkId = [], wk_RequestId = [], wk_ExecutorID = [], wk_Phase = WorkPhasePrefill, wk_Deadline = 0,
     wk_MaxTokens = 0, wk_ModelID = [], wk_Cache = None, wk_TokenIDs = [], wk_TokenCntTotal = 0, wk_BlockAllocation = None,
     wk_PrefillOffset = 0, wk_GeneratedTokens = 0, wk_NumNewTokens = 0, wk_EnqueuedAt = 0, wk_ReadyAt = 0\<rparr>"

subsection \<open>Registration\<close>

text \<open>
  The clock reading \<open>now\<close> and the fresh identifier \<open>uuid\<close> are arguments.  The failing branches
  leave the table as it was; the channel made for the request is then unreachable.
\<close>

definition sm_Create :: "time \<Rightarrow> string \<Rightarrow> Request \<Rightarrow> state_manager \<Rightarrow> (WorkItem result \<times> state_manager) option" where
  "sm_Create now uuid req s =
     (if has_key (sm_requests s) (rq_RequestId req)
      then Some (Inl (errors_New CodeInvalidArgument ''request already exists''), s)
      else
        let req1 = req\<lparr>rq_Phase := RequestPhasePrefillReady\<rparr>;
            s1 = s\<lparr>sm_channels := fmupd (sm_nextChannel s) \<lparr>ch_buf = [], ch_closed = False\<rparr> (sm_channels s),
                   sm_nextChannel := sm_nextChannel s + 1\<rparr>;
            executorIDs = ExecutorIDs (sm_blockRegistry s1)
        in if rq_ExecutorID req1 = [] \<and> length executorIDs \<noteq> 1
           then Some (Inl (errors_New CodeExecutorUnavailable ''request has no executor binding''), s1)
           else do {
             let req2 = (if rq_ExecutorID req1 = [] then req1\<lparr>rq_ExecutorID := executorIDs ! 0\<rparr> else req1);
             (res, reg) \<leftarrow> registry_MatchPrefix req2 (sm_blockRegistry s1);
             let s2 = s1\<lparr>sm_blockRegistry := reg\<rparr>;
             case res of
               Inl err \<Rightarrow> Some (Inl err, s2)
             | Inr (prefixMatch, req3) \<Rightarrow> do {
                 let req4 = req3\<lparr>rq_ComputedTokens := pm_CachedTokens prefixMatch\<rparr>;
                 let s3 = increaseActiveRequestAndCacheHit (pm_Hit prefixMatch) (pm_CachedTokens prefixMatch)
                   (s2\<lparr>sm_requests := fmupd (rq_RequestId req) req4 (sm_requests s2),
                       sm_subscribeCh := fmupd (rq_RequestId req) (sm_nextChannel s) (sm_subscribeCh s2)\<rparr>);
                 tokens \<leftarrow> slice_from (rq_TokenIDs req4) (unat (pm_CachedTokens prefixMatch));
                 let workItem = zero_WorkItem\<lparr>wk_WorkId := uuid, wk_RequestId := rq_RequestId req4,
                       wk_ExecutorID := rq_ExecutorID req4, wk_Phase := WorkPhasePrefill, wk_Deadline := rq_Deadline req4,
                       wk_MaxTokens := rq_MaxTokens req4, wk_ModelID := rq_ModelID req4, wk_Cache := Some prefixMatch,
                       wk_TokenIDs := tokens, wk_TokenCntTotal := of_nat (length (rq_TokenIDs req4)),
                       wk_PrefillOffset := pm_CachedTokens prefixMatch,
                       wk_NumNewTokens := rq_PromptTokens req4 - pm_CachedTokens prefixMatch, wk_ReadyAt := now\<rparr>;
                 Some (Inr (if rq_PromptTokens req4 \<le> pm_CachedTokens prefixMatch
                            then workItem\<lparr>wk_Phase := WorkPhaseDecode, wk_NumNewTokens := 1\<rparr> else workItem), s3)
               }
           })"

definition sm_Get :: "string \<Rightarrow> state_manager \<Rightarrow> Request option" where
  "sm_Get requestId s = fmlookup (sm_requests s) requestId"

definition sm_Subscribe :: "string \<Rightarrow> state_manager \<Rightarrow> nat result" where
  "sm_Subscribe requestId s = (case fmlookup (sm_subscribeCh s) requestId of
     None \<Rightarrow> Inl (errors_New CodeInternal ''subscribe channel doesn't exist'')
   | Some ch \<Rightarrow> Inr ch)"

subsection \<open>Leaving the table\<close>

text \<open>
  The locked part common to \<^verbatim>\<open>Cancel\<close>, \<^verbatim>\<open>Fail\<close> and \<^verbatim>\<open>Finish\<close>: it returns the channel to notify.  The
  phase written to the request object is not observable once the object has left the table.
\<close>

definition leaveLocked :: "string \<Rightarrow> state_manager \<Rightarrow> (nat option \<times> state_manager) option" where
  "leaveLocked requestId s = do {
     let subCh = fmlookup (sm_subscribeCh s) requestId;
     s1 \<leftarrow> (if has_key (sm_requests s) requestId then deleteRequest requestId s
            else Some (s\<lparr>sm_subscribeCh := fmdrop requestId (sm_subscribeCh s)\<rparr>));
     Some (subCh, s1)
   }"

definition sm_Cancel :: "string \<Rightarrow> state_manager \<Rightarrow> state_manager option" where
  "sm_Cancel requestId s = do {
     (subCh, s1) \<leftarrow> leaveLocked requestId s;
     case subCh of None \<Rightarrow> Some s1 | Some c \<Rightarrow> chan_close c s1
   }"

definition sm_Finish :: "string \<Rightarrow> state_manager \<Rightarrow> state_manager option" where
  "sm_Finish requestId s = do {
     (subCh, s1) \<leftarrow> leaveLocked requestId s;
     case subCh of None \<Rightarrow> Some s1 | Some c \<Rightarrow> chan_close c s1
   }"

definition failEvent :: "time \<Rightarrow> string \<Rightarrow> string \<Rightarrow> error option \<Rightarrow> Event" where
  "failEvent now uuid requestId err = zero_Event\<lparr>ev_WorkId := uuid, ev_RequestId := requestId,
     ev_Type := EventTypeRequestFailed, ev_Done := True, ev_FinishReason := FinishReasonError, ev_At := now, ev_Err := err\<rparr>"

definition sm_Fail :: "time \<Rightarrow> string \<Rightarrow> string \<Rightarrow> error option \<Rightarrow> state_manager \<Rightarrow> state_manager option" where
  "sm_Fail now uuid requestId err s = do {
     (subCh, s1) \<leftarrow> leaveLocked requestId s;
     case subCh of
       None \<Rightarrow> Some s1
     | Some c \<Rightarrow> do { s2 \<leftarrow> chan_send c (failEvent now uuid requestId err) s1; chan_close c s2 }
   }"

definition sm_CanSchedule :: "time \<Rightarrow> string \<Rightarrow> WorkItem \<Rightarrow> state_manager \<Rightarrow> (bool \<times> state_manager) option" where
  "sm_CanSchedule now uuid work s = (case fmlookup (sm_requests s) (wk_RequestId work) of
     None \<Rightarrow> Some (False, s)
   | Some req \<Rightarrow>
       if rq_Deadline req \<noteq> 0 \<and> rq_Deadline req < now
       then do {
         let subCh = fmlookup (sm_subscribeCh s) (wk_RequestId work);
         s1 \<leftarrow> deleteRequest (wk_RequestId work) s;
         case subCh of
           None \<Rightarrow> Some (False, s1)
         | Some c \<Rightarrow> do {
             s2 \<leftarrow> chan_send c (failEvent now uuid (wk_RequestId work)
                     (Some (errors_New CodeRequestTimeout ''request timeout''))) s1;
             s3 \<leftarrow> chan_close c s2;
             Some (False, s3)
           }
       }
       else Some (rq_Phase req \<notin> {RequestPhaseFinished, RequestPhaseCanceled, RequestPhaseTimeout, RequestPhaseFailed}, s))"

subsection \<open>Executor events\<close>

text \<open>
  The switch of \<^verbatim>\<open>OnEvent\<close>: the request and the event as updated, and the work items that follow.
\<close>

definition decodeItem :: "time \<Rightarrow> string \<Rightarrow> Event \<Rightarrow> Request \<Rightarrow> WorkItem" where
  "decodeItem now uuid e req = zero_WorkItem\<lparr>wk_WorkId := uuid, wk_RequestId := ev_RequestId e,
     wk_ExecutorID := rq_ExecutorID req, wk_Phase := WorkPhaseDecode, wk_Deadline := rq_Deadline req,
     wk_MaxTokens := rq_MaxTokens req, wk_ModelID := rq_ModelID req, wk_Cache := rq_Cache req,
     wk_TokenIDs := rq_TokenIDs req, wk_TokenCntTotal := of_nat (length (rq_TokenIDs req)),
     wk_GeneratedTokens := rq_GeneratedTokens req, wk_NumNewTokens := 1, wk_ReadyAt := now\<rparr>"

definition onPrefillChunk :: "time \<Rightarrow> string \<Rightarrow> Event \<Rightarrow> Request \<Rightarrow> (Request \<times> Event \<times> WorkItem list) option" where
  "onPrefillChunk now uuid e req = do {
     let computed = rq_ComputedTokens req + us_InputTokens (ev_Usage e);
     let usage = (rq_Usage req)\<lparr>us_InputTokens := computed, us_TotalTokens := computed + rq_GeneratedTokens req\<rparr>;
     let req1 = req\<lparr>rq_ComputedTokens := computed, rq_Usage := usage, rq_Phase := RequestPhasePrefillRunning\<rparr>;
     let numNewTokens = rq_PromptTokens req1 - computed;
     tokens \<leftarrow> slice (rq_TokenIDs req1) (unat computed) (unat (computed + numNewTokens));
     let item = zero_WorkItem\<lparr>wk_WorkId := uuid, wk_RequestId := ev_RequestId e, wk_ExecutorID := rq_ExecutorID req1,
       wk_Phase := WorkPhasePrefill, wk_Deadline := rq_Deadline req1, wk_MaxTokens := rq_MaxTokens req1,
       wk_ModelID := rq_ModelID req1, wk_Cache := rq_Cache req1, wk_TokenIDs := tokens,
       wk_TokenCntTotal := rq_PromptTokens req1, wk_PrefillOffset := computed, wk_NumNewTokens := numNewTokens,
       wk_ReadyAt := now\<rparr>;
     Some (req1, e\<lparr>ev_Usage := usage\<rparr>, [item])
   }"

definition onPrefillFinished :: "time \<Rightarrow> string \<Rightarrow> Event \<Rightarrow> Request \<Rightarrow> (Request \<times> Event \<times> WorkItem list) option" where
  "onPrefillFinished now uuid e req =
     (let added = rq_ComputedTokens req + us_InputTokens (ev_Usage e);
          computed = (if rq_PromptTokens req < added then rq_PromptTokens req else added);
          generated = rq_GeneratedTokens req + us_OutputTokens (ev_Usage e);
          usage = \<lparr>us_InputTokens = computed, us_OutputTokens = generated, us_TotalTokens = computed + generated\<rparr>;
          req1 = req\<lparr>rq_ComputedTokens := computed, rq_GeneratedTokens := generated,
                     rq_TokenIDs := rq_TokenIDs req @ [ev_TokenId e], rq_Usage := usage, rq_Phase := RequestPhaseDecodeReady\<rparr>
      in Some (req1, e\<lparr>ev_Usage := usage\<rparr>, [decodeItem now uuid e req1]))"

definition onDecodeChunk :: "time \<Rightarrow> string \<Rightarrow> Event \<Rightarrow> Request \<Rightarrow> (Request \<times> Event \<times> WorkItem list) option" where
  "onDecodeChunk now uuid e req =
     (let generated = rq_GeneratedTokens req + us_OutputTokens (ev_Usage e);
          usage = \<lparr>us_InputTokens = rq_PromptTokens req, us_OutputTokens = generated,
                   us_TotalTokens = rq_PromptTokens req + generated\<rparr>;
          req1 = req\<lparr>rq_GeneratedTokens := generated, rq_Usage := usage, rq_TokenIDs := rq_TokenIDs req @ [ev_TokenId e]\<rparr>;
          e1 = e\<lparr>ev_Usage := usage\<rparr>
      in if ev_Done e \<or> rq_MaxTokens req1 \<le> generated
         then let reason = (if ev_FinishReason e = FinishReasonUnspecified then FinishReasonLength else ev_FinishReason e)
              in Some (req1\<lparr>rq_Phase := RequestPhaseFinished, rq_FinishedAt := now, rq_FinishReason := reason\<rparr>,
                       e1\<lparr>ev_FinishReason := reason, ev_Done := True\<rparr>, [])
         else let req2 = req1\<lparr>rq_Phase := RequestPhaseDecodeRunning\<rparr>
              in Some (req2, e1, [decodeItem now uuid e req2]))"

definition applyEvent :: "time \<Rightarrow> string \<Rightarrow> Event \<Rightarrow> Request \<Rightarrow> (Request \<times> Event \<times> WorkItem list) option" where
  "applyEvent now uuid e req = (case ev_Type e of
     EventTypePrefillChunk \<Rightarrow> onPrefillChunk now uuid e req
   | EventTypePrefillFinished \<Rightarrow> onPrefillFinished now uuid e req
   | EventTypeDecodeChunk \<Rightarrow> onDecodeChunk now uuid e req
   | EventTypeRequestFinished \<Rightarrow> Some (req\<lparr>rq_Phase := RequestPhaseFinished\<rparr>, e, [])
   | EventTypeRequestFailed \<Rightarrow> Some (req\<lparr>rq_Phase := RequestPhaseFailed\<rparr>, e, [])
   | EventTypeRequestCanceled \<Rightarrow> Some (req\<lparr>rq_Phase := RequestPhaseCanceled\<rparr>, e, [])
   | EventTypeUnknown _ \<Rightarrow> Some (req, e, []))"

text \<open>
  The locked part returns \<open>None\<close> inside for an unknown request; \<^verbatim>\<open>OnEvent\<close> then sends the event to
  the channel it finds under a second, separate lock.  The event is shared with the caller, which
  reads the flags the switch sets, so it is returned.
\<close>

definition onEventLocked :: "time \<Rightarrow> string \<Rightarrow> Event \<Rightarrow> state_manager \<Rightarrow>
    ((Event \<times> WorkItem list) option \<times> state_manager) option" where
  "onEventLocked now uuid e s = (case fmlookup (sm_requests s) (ev_RequestId e) of
     None \<Rightarrow> Some (None, s)
   | Some req \<Rightarrow> do {
       (req1, e1, items) \<leftarrow> applyEvent now uuid e req;
       Some (Some (e1, items), s\<lparr>sm_requests := fmupd (ev_RequestId e) req1 (sm_requests s)\<rparr>)
     })"

definition sm_OnEvent :: "time \<Rightarrow> string \<Rightarrow> Event \<Rightarrow> state_manager \<Rightarrow> ((WorkItem list \<times> Event) \<times> state_manager) option" where
  "sm_OnEvent now uuid e s = do {
     (r, s1) \<leftarrow> onEventLocked now uuid e s;
     case r of
       None \<Rightarrow> Some (([], e), s1)
     | Some (e1, items) \<Rightarrow> (case fmlookup (sm_subscribeCh s1) (ev_RequestId e1) of
           None \<Rightarrow> Some ((items, e1), s1)
         | Some c \<Rightarrow> do { s2 \<leftarrow> chan_send c e1 s1; Some ((items, e1), s2) })
   }"

end
