(* ===== verification/Registry_Invariant.thy ===== *)
theory Registry_Invariant
  imports Block_Registry
begin

text \<open>
  Every registry operation keeps the registry invariant and does not panic, a transfer takes and
  returns exactly the blocks of its plan, and the states reachable by any sequence of operations
  satisfy the invariant.
\<close>

subsection \<open>Construction\<close>

definition small :: "ExecutorStats option \<Rightarrow> bool" where
  "small rt \<longleftrightarrow> (case rt of Some s \<Rightarrow> unat (es_NumKvBlocks s) \<le> 2 ^ 31 | None \<Rightarrow> True)"

lemma newManagers_spec:
  assumes "newManagers runtimes es ms0 = Inr ms" and "\<forall>rt \<in> fmran' runtimes. small rt"
    and "\<forall>e m. fmlookup ms0 e = Some m \<longrightarrow> mgr_inv {#} {#} m"
  shows "(\<forall>e m. fmlookup ms e = Some m \<longrightarrow> mgr_inv {#} {#} m) \<and> fset (fmdom ms) = fset (fmdom ms0) \<union> set es"
  using assms
proof (induction es arbitrary: ms0)
  case Nil
  then show ?case by simp
next
  case (Cons e es)
  obtain rt m where rt: "fmlookup runtimes e = Some (Some rt)" "newManager (Some rt) = Inr m"
      "newManagers runtimes es (fmupd e m ms0) = Inr ms"
    using Cons.prems(1) by (auto split: option.splits if_splits sum.splits)
  have "small (Some rt)"
    using Cons.prems(2) rt(1) by (auto simp: fmran'I)
  then have "mgr_inv {#} {#} m"
    using newManager_inv(1) [OF rt(2)] by (simp add: small_def)
  then have "\<forall>e' m'. fmlookup (fmupd e m ms0) e' = Some m' \<longrightarrow> mgr_inv {#} {#} m'"
    using Cons.prems(3) by simp
  note IH = Cons.IH [OF rt(3) Cons.prems(2) this]
  have "fset (fmdom (fmupd e m ms0)) = insert e (fset (fmdom ms0))"
    by simp
  then show ?case
    using IH by (simp add: insert_commute)
qed

lemma NewRegistry_inv:
  assumes "NewRegistry runtimes = Inr r" and "\<forall>rt \<in> fmran' runtimes. small rt"
  shows "reg_inv r" "set (r_executorIDs r) = fset (fmdom runtimes)" "sorted (r_executorIDs r)"
    "r_pendingTransfers r = fmempty"
proof -
  let ?ids = "sorted_list_of_fset (fmdom runtimes)"
  obtain ms where ms: "newManagers runtimes ?ids fmempty = Inr ms"
      "r = \<lparr>r_managers = ms, r_executorIDs = ?ids, r_pendingTransfers = fmempty\<rparr>"
    using assms(1) by (auto simp: NewRegistry_def Let_def split: if_splits sum.splits)
  have "(\<forall>e m. fmlookup ms e = Some m \<longrightarrow> mgr_inv {#} {#} m) \<and> fset (fmdom ms) = fset (fmdom runtimes)"
    using newManagers_spec [OF ms(1) assms(2)] by simp
  then show "reg_inv r"
    by (simp add: reg_inv_def ms(2) pins_def reserved_def sorted_list_of_fset.rep_eq)
  show "set (r_executorIDs r) = fset (fmdom runtimes)" "sorted (r_executorIDs r)"
    "r_pendingTransfers r = fmempty"
    by (simp_all add: ms(2) sorted_list_of_fset.rep_eq)
qed

subsection \<open>Request operations\<close>

definition same_transfers :: "registry \<Rightarrow> registry \<Rightarrow> bool" where
  "same_transfers r r' \<longleftrightarrow> r_pendingTransfers r' = r_pendingTransfers r \<and> r_executorIDs r' = r_executorIDs r"

lemma same_transfers_set [simp]: "same_transfers r (setManager e m r)" "same_transfers r r"
  by (simp_all add: same_transfers_def)

text \<open>An unknown executor is reported and nothing changes.\<close>

lemma registry_unknown_executor:
  assumes "fmlookup (r_managers r) e = None"
  shows "\<exists>err. managerFor e r = Inl err" "managerFor e r = Inl err \<Longrightarrow> registry_Commit e w r = Some (Some err, r)"
    "managerFor e r = Inl err \<Longrightarrow> registry_Rollback e w r = Some (Some err, r)"
    "managerFor e r = Inl err \<Longrightarrow> registry_FreeRequest e q r = Some (Some err, r)"
  using assms by (auto simp: managerFor_def registry_Commit_def registry_Rollback_def registry_FreeRequest_def)

lemma managerFor_Some [simp]: "fmlookup (r_managers r) e = Some m \<Longrightarrow> managerFor e r = Inr m"
  by (simp add: managerFor_def)

lemma registry_Commit_inv:
  assumes inv: "reg_inv r"
  shows "\<exists>err r'. registry_Commit e w r = Some (err, r') \<and> reg_inv r' \<and> same_transfers r r' \<and>
     (err = None \<longleftrightarrow> has_key (r_managers r) e)"
proof (cases "fmlookup (r_managers r) e")
  case None
  then show ?thesis using inv by (simp add: registry_Commit_def managerFor_def)
next
  case (Some m)
  note mi = reg_invD(1) [OF inv Some]
  obtain m' where "manager_Commit w m = Some m'" "mgr_inv (pins r e) (reserved r e) m'"
  proof (cases "fmlookup (m_pendingAllocations m) w")
    case None
    then show ?thesis using Commit_unknown mi that by blast
  next
    case (Some al)
    then show ?thesis using Commit_spec [OF mi] that by blast
  qed
  then show ?thesis
    using Some reg_inv_setManager [OF inv Some] by (simp add: registry_Commit_def)
qed

lemma registry_Rollback_inv:
  assumes inv: "reg_inv r"
  shows "\<exists>err r'. registry_Rollback e w r = Some (err, r') \<and> reg_inv r' \<and> same_transfers r r' \<and>
     (err = None \<longleftrightarrow> has_key (r_managers r) e)"
proof (cases "fmlookup (r_managers r) e")
  case None
  then show ?thesis using inv by (simp add: registry_Rollback_def managerFor_def)
next
  case (Some m)
  note mi = reg_invD(1) [OF inv Some]
  obtain m' where "manager_Rollback w m = Some m'" "mgr_inv (pins r e) (reserved r e) m'"
  proof (cases "fmlookup (m_pendingAllocations m) w")
    case None
    then show ?thesis using Rollback_unknown mi that by blast
  next
    case al: (Some al)
    then obtain pre where "al_BlockTable al = pre @ al_AllocatedBlocks al"
      using pend_okD [OF mgr_invD(3) [OF mi] al] by (auto simp: work_ok_def)
    then show ?thesis using Rollback_spec [OF mi al] that by blast
  qed
  then show ?thesis
    using Some reg_inv_setManager [OF inv Some] by (simp add: registry_Rollback_def)
qed

lemma registry_FreeRequest_inv:
  assumes inv: "reg_inv r"
  shows "\<exists>err r'. registry_FreeRequest e q r = Some (err, r') \<and> reg_inv r' \<and> same_transfers r r' \<and>
     (err = None \<longleftrightarrow> has_key (r_managers r) e)"
proof (cases "fmlookup (r_managers r) e")
  case None
  then show ?thesis using inv by (simp add: registry_FreeRequest_def managerFor_def)
next
  case (Some m)
  obtain m' where "manager_FreeRequest q m = Some m'" "mgr_inv (pins r e) (reserved r e) m'"
    using FreeRequest_spec [OF reg_invD(1) [OF inv Some]] by blast
  then show ?thesis
    using Some reg_inv_setManager [OF inv Some] by (simp add: registry_FreeRequest_def)
qed

text \<open>
  The conditions the scheduler meets before matching and allocating, at the manager of the
  request's executor.
\<close>

definition may_match :: "Request \<Rightarrow> registry \<Rightarrow> bool" where
  "may_match req r \<longleftrightarrow> length (rq_TokenIDs req) < 2 ^ 32 \<and>
     (\<forall>m. fmlookup (r_managers r) (rq_ExecutorID req) = Some m \<longrightarrow>
        refs_room (pins r (rq_ExecutorID req)) (reserved r (rq_ExecutorID req)) m (length (rq_TokenIDs req)) \<and>
        requestBlocksOf (rq_RequestId req) m = [] \<and> idle (rq_RequestId req) m)"

definition may_allocate :: "WorkItem \<Rightarrow> registry \<Rightarrow> bool" where
  "may_allocate work r \<longleftrightarrow> wk_Cache work \<noteq> None \<and>
     (\<forall>m. fmlookup (r_managers r) (wk_ExecutorID work) = Some m \<longrightarrow>
        refs_room (pins r (wk_ExecutorID work)) (reserved r (wk_ExecutorID work)) m 0 \<and>
        idle (wk_RequestId work) m \<and> table_known work m \<and>
        unat (requiredKVTokens work) + unat (m_blockSize m) \<le> 2 ^ 32)"

text \<open>The conditions hold for a request the manager has never seen.\<close>

lemma registry_MatchPrefix_spec:
  assumes inv: "reg_inv r" and may: "may_match req r" and m: "fmlookup (r_managers r) (rq_ExecutorID req) = Some m"
  shows "\<exists>cache m'. registry_MatchPrefix req r =
      Some (Inr (cache, req\<lparr>rq_Cache := Some cache\<rparr>), setManager (rq_ExecutorID req) m' r) \<and>
     reg_inv (setManager (rq_ExecutorID req) m' r) \<and>
     m_requestBlocks m' = fmupd (rq_RequestId req) (pm_BlockIDs cache) (m_requestBlocks m) \<and>
     m_pendingAllocations m' = m_pendingAllocations m \<and> m_blockSize m' = m_blockSize m \<and>
     unat (pm_CachedTokens cache) \<le> length (rq_TokenIDs req) \<and>
     (rq_TokenIDs req \<noteq> [] \<longrightarrow> unat (pm_CachedTokens cache) < length (rq_TokenIDs req))"
proof -
  let ?b = "unat (m_blockSize m)" and ?n = "length (rq_TokenIDs req)" and ?e = "rq_ExecutorID req"
  let ?ids = "matched_ids m (hash_chain ?b ((?n - 1) div ?b) (rq_CacheSalt req) (rq_TokenIDs req))"
  let ?cache = "\<lparr>pm_Hit = (?ids \<noteq> []), pm_CachedTokens = of_nat (length ?ids) * m_blockSize m, pm_BlockIDs = ?ids,
      pm_HashesTotal = hash_chain ?b (?n div ?b) (rq_CacheSalt req) (rq_TokenIDs req)\<rparr>"
  note mi = reg_invD(1) [OF inv m]
  have pre: "?n < 2 ^ 32" "refs_room (pins r ?e) (reserved r ?e) m ?n" "requestBlocksOf (rq_RequestId req) m = []"
      "idle (rq_RequestId req) m"
    using may m by (simp_all add: may_match_def)
  obtain m' where m': "manager_MatchPrefix req m = Some ((?cache, req\<lparr>rq_Cache := Some ?cache\<rparr>), m')"
      "mgr_inv (pins r ?e) (reserved r ?e) m'" "m_requestBlocks m' = fmupd (rq_RequestId req) ?ids (m_requestBlocks m)"
      "m_pendingAllocations m' = m_pendingAllocations m" "m_blockSize m' = m_blockSize m"
    using MatchPrefix_spec [OF mi pre] by blast
  have "unat (pm_CachedTokens ?cache) \<le> ?n - 1"
    using matched_tokens_bound [OF mi pre(1)] by simp
  then have "unat (pm_CachedTokens ?cache) \<le> ?n" "rq_TokenIDs req \<noteq> [] \<longrightarrow> unat (pm_CachedTokens ?cache) < ?n"
    by (cases "rq_TokenIDs req"; simp)+
  then show ?thesis
    using m' m reg_inv_setManager [OF inv m m'(2)]
    by (intro exI [of _ ?cache] exI [of _ m']) (simp add: registry_MatchPrefix_def)
qed

lemma registry_FreeRequest_spec:
  assumes inv: "reg_inv r" and m: "fmlookup (r_managers r) e = Some m"
  shows "\<exists>m'. registry_FreeRequest e q r = Some (None, setManager e m' r) \<and> reg_inv (setManager e m' r) \<and>
     m_requestBlocks m' = fmdrop q (m_requestBlocks m) \<and> idle q m' \<and> m_blockSize m' = m_blockSize m \<and>
     (\<forall>w al. fmlookup (m_pendingAllocations m') w = Some al \<longleftrightarrow>
        fmlookup (m_pendingAllocations m) w = Some al \<and> al_RequestID al \<noteq> q)"
proof -
  obtain m' where m': "manager_FreeRequest q m = Some m'" "mgr_inv (pins r e) (reserved r e) m'"
      "m_requestBlocks m' = fmdrop q (m_requestBlocks m)" "idle q m'" "m_blockSize m' = m_blockSize m"
      "\<forall>w al. fmlookup (m_pendingAllocations m') w = Some al \<longleftrightarrow>
        fmlookup (m_pendingAllocations m) w = Some al \<and> al_RequestID al \<noteq> q"
    using FreeRequest_spec [OF reg_invD(1) [OF inv m], of q] by blast
  then show ?thesis
    using m reg_inv_setManager [OF inv m m'(2)] by (auto simp: registry_FreeRequest_def)
qed

lemma registry_MatchPrefix_inv:
  assumes inv: "reg_inv r" and may: "may_match req r"
  shows "\<exists>res r'. registry_MatchPrefix req r = Some (res, r') \<and> reg_inv r' \<and> same_transfers r r'"
proof (cases "fmlookup (r_managers r) (rq_ExecutorID req)")
  case None
  then show ?thesis using inv by (simp add: registry_MatchPrefix_def managerFor_def)
next
  case (Some m)
  obtain res m' where "manager_MatchPrefix req m = Some (res, m')"
      "mgr_inv (pins r (rq_ExecutorID req)) (reserved r (rq_ExecutorID req)) m'"
    using MatchPrefix_spec [OF reg_invD(1) [OF inv Some]] may Some unfolding may_match_def by blast
  then show ?thesis
    using Some reg_inv_setManager [OF inv Some] by (simp add: registry_MatchPrefix_def)
qed

lemma registry_AllocateBlocks_inv:
  assumes inv: "reg_inv r" and may: "may_allocate work r"
  shows "\<exists>res r'. registry_AllocateBlocks work r = Some (res, r') \<and> reg_inv r' \<and> same_transfers r r'"
proof (cases "fmlookup (r_managers r) (wk_ExecutorID work)")
  case None
  then show ?thesis using inv by (simp add: registry_AllocateBlocks_def managerFor_def)
next
  case (Some m)
  let ?P = "pins r (wk_ExecutorID work)" and ?V = "reserved r (wk_ExecutorID work)"
  obtain cache where c: "wk_Cache work = Some cache"
    using may by (auto simp: may_allocate_def)
  have mi: "mgr_inv ?P ?V m" and g: "refs_room ?P ?V m 0" "idle (wk_RequestId work) m" "table_known work m"
      "unat (requiredKVTokens work) + unat (m_blockSize m) \<le> 2 ^ 32"
    using reg_invD(1) [OF inv Some] may Some by (simp_all add: may_allocate_def)
  obtain res m' where "manager_AllocateBlocks work m = Some (res, m')" "mgr_inv ?P ?V m'"
  proof (cases "blocks_needed work m \<le> length (free_ids m)")
    case True
    then show ?thesis using AllocateBlocks_ok [OF mi g(1,2,3) c g(4)] that by blast
  next
    case False
    then have "manager_AllocateBlocks work m = Some ((False, work), m\<lparr>m_metrics := IncAllocationFailure (m_metrics m)\<rparr>)"
      using AllocateBlocks_full [OF mi g(1,3) c g(4)] by simp
    then show ?thesis using mi that by simp
  qed
  then show ?thesis
    using Some reg_inv_setManager [OF inv Some] by (simp add: registry_AllocateBlocks_def)
qed

subsection \<open>Transfers\<close>

lemma pins_start:
  assumes "fmlookup (r_pendingTransfers r) t = None" "r_pendingTransfers r' = fmupd t p (r_pendingTransfers r)"
  shows "pins r' e = pins r e + (if tp_SourceExecutorID p = e then mset (tp_SourceBlockIDs p) else {#})"
    "reserved r' e = reserved r e + (if tp_DestinationExecutorID p = e then mset (tp_DestinationBlockIDs p) else {#})"
  unfolding pins_def reserved_def assms(2) by (rule fmsum_upd [OF assms(1)])+

lemma pins_finish:
  assumes "fmlookup (r_pendingTransfers r) t = Some p" "r_pendingTransfers r' = fmdrop t (r_pendingTransfers r)"
  shows "pins r e = pins r' e + (if tp_SourceExecutorID p = e then mset (tp_SourceBlockIDs p) else {#})"
    "reserved r e = reserved r' e + (if tp_DestinationExecutorID p = e then mset (tp_DestinationBlockIDs p) else {#})"
  unfolding pins_def reserved_def assms(2) by (rule fmsum_drop [OF assms(1)])+

lemma plan_ok_mono: "plan_ok r t p \<Longrightarrow> \<forall>e. has_key (r_managers r) e \<longrightarrow> has_key (r_managers r') e \<Longrightarrow> plan_ok r' t p"
  by (simp add: plan_ok_def)

text \<open>Starting a transfer: the two managers hold the plan's blocks.\<close>

lemma reg_inv_start:
  assumes inv: "reg_inv r" and t: "fmlookup (r_pendingTransfers r) t = None" and p: "tp_TransferID p = t"
      "tp_SourceExecutorID p = a" "tp_DestinationExecutorID p = b" "a \<noteq> b"
      "length (tp_SourceBlockIDs p) = length (tp_BlockHashes p)" "length (tp_DestinationBlockIDs p) = length (tp_BlockHashes p)"
    and ab: "has_key (r_managers r) a" "has_key (r_managers r) b"
    and s: "mgr_inv (pins r a + mset (tp_SourceBlockIDs p)) (reserved r a) s"
    and d: "mgr_inv (pins r b) (reserved r b + mset (tp_DestinationBlockIDs p)) d"
  shows "reg_inv ((setManager b d (setManager a s r))\<lparr>r_pendingTransfers := fmupd t p (r_pendingTransfers r)\<rparr>)"
    (is "reg_inv ?r'")
proof -
  have pend: "r_pendingTransfers ?r' = fmupd t p (r_pendingTransfers r)"
    by simp
  note pr = pins_start [OF t pend]
  have look: "fmlookup (r_managers ?r') e = (if e = b then Some d else if e = a then Some s else fmlookup (r_managers r) e)" for e
    by (simp add: setManager_def)
  have "mgr_inv (pins ?r' e) (reserved ?r' e) m" if "fmlookup (r_managers ?r') e = Some m" for e m
    using that reg_invD(1) [OF inv, of e m] s d p(2-4) unfolding look pr by (simp split: if_splits)
  moreover have mono: "\<forall>e. has_key (r_managers r) e \<longrightarrow> has_key (r_managers ?r') e"
    unfolding look by simp
  have "plan_ok ?r' u q" if "fmlookup (r_pendingTransfers ?r') u = Some q" for u q
  proof (cases "u = t")
    case True
    then show ?thesis
      using that p ab unfolding pend by (auto simp: plan_ok_def)
  next
    case False
    then show ?thesis
      using that reg_invD(2) [OF inv, of u q] plan_ok_mono [OF _ mono] unfolding pend by simp
  qed
  moreover have "fset (fmdom (r_managers ?r')) = fset (fmdom (r_managers r))"
    using ab by (auto simp: setManager_def fmdomI)
  ultimately show ?thesis
    using inv by (simp add: reg_inv_def)
qed

text \<open>Finishing it: the two managers have given them back.\<close>

lemma reg_inv_finish:
  assumes inv: "reg_inv r" and t: "fmlookup (r_pendingTransfers r) t = Some p"
    and s: "mgr_inv (pins r (tp_SourceExecutorID p) - mset (tp_SourceBlockIDs p)) (reserved r (tp_SourceExecutorID p)) s"
    and d: "mgr_inv (pins r (tp_DestinationExecutorID p))
              (reserved r (tp_DestinationExecutorID p) - mset (tp_DestinationBlockIDs p)) d"
  shows "reg_inv ((setManager (tp_SourceExecutorID p) s (setManager (tp_DestinationExecutorID p) d r))
     \<lparr>r_pendingTransfers := fmdrop t (r_pendingTransfers r)\<rparr>)" (is "reg_inv ?r'")
proof -
  let ?a = "tp_SourceExecutorID p" and ?b = "tp_DestinationExecutorID p"
  have pend: "r_pendingTransfers ?r' = fmdrop t (r_pendingTransfers r)"
    by simp
  note pr = pins_finish [OF t pend]
  have ok: "?a \<noteq> ?b" "has_key (r_managers r) ?a" "has_key (r_managers r) ?b"
    using reg_invD(2) [OF inv t] by (simp_all add: plan_ok_def)
  have look: "fmlookup (r_managers ?r') e = (if e = ?a then Some s else if e = ?b then Some d else fmlookup (r_managers r) e)" for e
    by (simp add: setManager_def)
  have P: "pins r ?a - mset (tp_SourceBlockIDs p) = pins ?r' ?a" "pins r e = pins ?r' e" if "e \<noteq> ?a" for e
    using pr(1) [of ?a] pr(1) [of e] that by simp_all
  have V: "reserved r ?b - mset (tp_DestinationBlockIDs p) = reserved ?r' ?b" "reserved r e = reserved ?r' e" if "e \<noteq> ?b" for e
    using pr(2) [of ?b] pr(2) [of e] that by simp_all
  have "mgr_inv (pins ?r' e) (reserved ?r' e) m" if m: "fmlookup (r_managers ?r') e = Some m" for e m
  proof -
    consider "e = ?a" | "e = ?b" | "e \<noteq> ?a" "e \<noteq> ?b" by blast
    then show ?thesis
    proof cases
      case 1
      then show ?thesis
        using m s P(1) V(2) [of ?a] ok(1) unfolding look by (metis option.sel)
    next
      case 2
      then show ?thesis
        using m d P(2) [of ?b] V(1) ok(1) unfolding look by (metis option.sel)
    next
      case 3
      then show ?thesis
        using m reg_invD(1) [OF inv, of e m] P(2) [of e] V(2) [of e] unfolding look by (metis (mono_tags))
    qed
  qed
  moreover have mono: "\<forall>e. has_key (r_managers r) e \<longrightarrow> has_key (r_managers ?r') e"
    unfolding look by simp
  have "plan_ok ?r' u q" if "fmlookup (r_pendingTransfers ?r') u = Some q" for u q
    using that reg_invD(2) [OF inv, of u q] plan_ok_mono [OF _ mono] unfolding pend by (simp split: if_splits)
  moreover have "fset (fmdom (r_managers ?r')) = fset (fmdom (r_managers r))"
    using ok by (auto simp: setManager_def fmdomI)
  ultimately show ?thesis
    using inv by (simp add: reg_inv_def)
qed

definition may_prepare :: "string \<Rightarrow> string list \<Rightarrow> registry \<Rightarrow> bool" where
  "may_prepare a hs r \<longleftrightarrow>
     (\<forall>m. fmlookup (r_managers r) a = Some m \<longrightarrow> refs_room (pins r a) (reserved r a) m (length hs))"

lemma prepareLocked_inv:
  assumes inv: "reg_inv r" and ab: "a \<noteq> b" and s: "fmlookup (r_managers r) a = Some s" and d: "fmlookup (r_managers r) b = Some d"
    and may: "may_prepare a hs r"
  shows "\<exists>res r'. prepareLocked t a b hs s d r = Some (res, r') \<and> reg_inv r' \<and>
     (case res of Inl e \<Rightarrow> r_pendingTransfers r' = r_pendingTransfers r
      | Inr p \<Rightarrow> r_pendingTransfers r' = fmupd t p (r_pendingTransfers r) \<and>
          \<not> has_key (r_pendingTransfers r) t \<and> tp_TransferID p = t \<and>
          tp_SourceExecutorID p = a \<and> tp_DestinationExecutorID p = b \<and> tp_BlockHashes p = hs)"
proof (cases "fmlookup (r_pendingTransfers r) t")
  case (Some p)
  then show ?thesis using inv by (simp add: prepareLocked_def)
next
  case None
  note si = reg_invD(1) [OF inv s] and di = reg_invD(1) [OF inv d]
  have room: "refs_room (pins r a) (reserved r a) s (length hs)"
    using may s by (simp add: may_prepare_def)
  consider (unpinned) e where "pinCachedBlocks hs s = Some (Inl e, s)"
    | (full) src s1 d1 s2 where "pinCachedBlocks hs s = Some (Inr src, s1)"
        "reserveTransferBlocks (of_nat (length hs)) d = Some (None, d1)" "releaseTransferBlocks src s1 = Some s2"
        "mgr_inv (pins r a) (reserved r a) s2" "mgr_inv (pins r b) (reserved r b) d1"
    | (ready) src s1 dst d1 where "pinCachedBlocks hs s = Some (Inr src, s1)"
        "reserveTransferBlocks (of_nat (length hs)) d = Some (Some dst, d1)" "length src = length hs" "length dst = length hs"
        "mgr_inv (pins r a + mset src) (reserved r a) s1" "mgr_inv (pins r b) (reserved r b + mset dst) d1"
    using ep.prepare_outcomes [OF si room di] by blast
  then show ?thesis
  proof cases
    case unpinned
    then show ?thesis
      using None reg_inv_setManager [OF inv s si] by (simp add: prepareLocked_def)
  next
    case full
    have "reg_inv (setManager b d1 (setManager a s2 r))"
      using reg_inv_setManager [OF reg_inv_setManager [OF inv s full(4)], of b d d1] full(5) d ab by simp
    then show ?thesis
      using None full by (simp add: prepareLocked_def)
  next
    case ready
    let ?p = "\<lparr>tp_TransferID = t, tp_SourceExecutorID = a, tp_SourceBlockIDs = src, tp_DestinationExecutorID = b,
        tp_DestinationBlockIDs = dst, tp_BlockHashes = hs\<rparr>"
    have "reg_inv ((setManager b d1 (setManager a s1 r))\<lparr>r_pendingTransfers := fmupd t ?p (r_pendingTransfers r)\<rparr>)"
      using ready s d ab by (intro reg_inv_start [OF inv None]) simp_all
    then show ?thesis
      using None ready by (simp add: prepareLocked_def cloneTransferPlan_def Let_def)
  qed
qed

lemma PrepareTransfer_inv:
  assumes inv: "reg_inv r" and may: "may_prepare a hs r"
  shows "\<exists>res r'. PrepareTransfer t a b hs r = Some (res, r') \<and> reg_inv r' \<and>
     (case res of Inl e \<Rightarrow> r_pendingTransfers r' = r_pendingTransfers r
      | Inr p \<Rightarrow> r_pendingTransfers r' = fmupd t p (r_pendingTransfers r) \<and>
          \<not> has_key (r_pendingTransfers r) t \<and> tp_TransferID p = t \<and>
          tp_SourceExecutorID p = a \<and> tp_DestinationExecutorID p = b \<and> tp_BlockHashes p = hs)"
proof (cases "t = [] \<or> a = b \<or> hs = [] \<or> \<not> has_key (r_managers r) a \<or> \<not> has_key (r_managers r) b")
  case True
  then show ?thesis
    using inv by (auto simp: PrepareTransfer_def managerFor_def split: option.splits)
next
  case False
  then obtain s d where sd: "fmlookup (r_managers r) a = Some s" "fmlookup (r_managers r) b = Some d"
    by auto
  show ?thesis
  proof (cases "m_blockSize s = m_blockSize d")
    case True
    then have "PrepareTransfer t a b hs r = prepareLocked t a b hs s d r"
      using False sd by (simp add: PrepareTransfer_def)
    then show ?thesis
      using prepareLocked_inv [OF inv _ sd may] False by simp
  next
    case neq: False
    then show ?thesis
      using False sd inv by (simp add: PrepareTransfer_def)
  qed
qed

text \<open>The blocks of a pending plan are among the ones its managers account for.\<close>

lemma plan_blocks:
  assumes "fmlookup (r_pendingTransfers r) t = Some p"
  shows "mset (tp_SourceBlockIDs p) \<subseteq># pins r (tp_SourceExecutorID p)"
    "mset (tp_DestinationBlockIDs p) \<subseteq># reserved r (tp_DestinationExecutorID p)"
  using pins_finish [OF assms, of "r\<lparr>r_pendingTransfers := fmdrop t (r_pendingTransfers r)\<rparr>"] by simp_all

lemma CommitTransfer_inv:
  assumes inv: "reg_inv r" and t: "fmlookup (r_pendingTransfers r) t = Some p"
  shows "\<exists>r' d'. CommitTransfer t r = Some (None, r') \<and> reg_inv r' \<and>
     r_pendingTransfers r' = fmdrop t (r_pendingTransfers r) \<and>
     fmlookup (r_managers r') (tp_DestinationExecutorID p) = Some d' \<and> (\<forall>h \<in> set (tp_BlockHashes p). indexed d' h)"
proof -
  have ok: "plan_ok r t p"
    by (rule reg_invD(2) [OF inv t])
  then obtain s d where sd: "fmlookup (r_managers r) (tp_SourceExecutorID p) = Some s"
      "fmlookup (r_managers r) (tp_DestinationExecutorID p) = Some d" "tp_SourceExecutorID p \<noteq> tp_DestinationExecutorID p"
      "length (tp_DestinationBlockIDs p) = length (tp_BlockHashes p)"
    by (auto simp: plan_ok_def)
  obtain s1 d1 where o: "commitImportedBlocks (tp_DestinationBlockIDs p) (tp_BlockHashes p) d = Some (None, d1)"
      "releaseTransferBlocks (tp_SourceBlockIDs p) s = Some s1"
      "mgr_inv (pins r (tp_SourceExecutorID p) - mset (tp_SourceBlockIDs p)) (reserved r (tp_SourceExecutorID p)) s1"
      "mgr_inv (pins r (tp_DestinationExecutorID p)) (reserved r (tp_DestinationExecutorID p) - mset (tp_DestinationBlockIDs p)) d1"
      "\<forall>h \<in> set (tp_BlockHashes p). indexed d1 h"
    using ep.commit_outcome [OF reg_invD(1) [OF inv sd(1)] reg_invD(1) [OF inv sd(2)] plan_blocks [OF t] sd(4)] by blast
  show ?thesis
    using t sd o reg_inv_finish [OF inv t o(3,4)] by (simp add: CommitTransfer_def Let_def)
qed

lemma RollbackTransfer_inv:
  assumes inv: "reg_inv r" and t: "fmlookup (r_pendingTransfers r) t = Some p"
  shows "\<exists>r' d d'. RollbackTransfer t r = Some (None, r') \<and> reg_inv r' \<and>
     r_pendingTransfers r' = fmdrop t (r_pendingTransfers r) \<and>
     fmlookup (r_managers r) (tp_DestinationExecutorID p) = Some d \<and>
     fmlookup (r_managers r') (tp_DestinationExecutorID p) = Some d' \<and> indexed d' = indexed d"
proof -
  have ok: "plan_ok r t p"
    by (rule reg_invD(2) [OF inv t])
  then obtain s d where sd: "fmlookup (r_managers r) (tp_SourceExecutorID p) = Some s"
      "fmlookup (r_managers r) (tp_DestinationExecutorID p) = Some d" "tp_SourceExecutorID p \<noteq> tp_DestinationExecutorID p"
    by (auto simp: plan_ok_def)
  obtain s1 d1 where o: "releaseTransferBlocks (tp_DestinationBlockIDs p) d = Some d1"
      "releaseTransferBlocks (tp_SourceBlockIDs p) s = Some s1"
      "mgr_inv (pins r (tp_SourceExecutorID p) - mset (tp_SourceBlockIDs p)) (reserved r (tp_SourceExecutorID p)) s1"
      "mgr_inv (pins r (tp_DestinationExecutorID p)) (reserved r (tp_DestinationExecutorID p) - mset (tp_DestinationBlockIDs p)) d1"
      "indexed d1 = indexed d"
    using ep.rollback_outcome [OF reg_invD(1) [OF inv sd(1)] reg_invD(1) [OF inv sd(2)] plan_blocks [OF t]] by blast
  show ?thesis
    using t sd o reg_inv_finish [OF inv t o(3,4)] by (simp add: RollbackTransfer_def Let_def)
qed

end
