(* ===== verification/Registry_Safety.thy ===== *)
theory Registry_Safety
  imports Registry_Invariant
begin

text \<open>
  The registry as a transition system: any sequence of its operations, each issued under the
  conditions the scheduler meets, from any freshly built registry.  Reachable states satisfy the
  registry invariant, from which the safety properties of block ownership follow.
\<close>

subsection \<open>Steps and reachable states\<close>

inductive reg_step :: "registry \<Rightarrow> registry \<Rightarrow> bool" where
  MatchPrefix: "may_match req r \<Longrightarrow> registry_MatchPrefix req r = Some (res, r') \<Longrightarrow> reg_step r r'"
| AllocateBlocks: "may_allocate work r \<Longrightarrow> registry_AllocateBlocks work r = Some (ares, r') \<Longrightarrow> reg_step r r'"
| Commit: "registry_Commit e w r = Some (err, r') \<Longrightarrow> reg_step r r'"
| Rollback: "registry_Rollback e w r = Some (err, r') \<Longrightarrow> reg_step r r'"
| FreeRequest: "registry_FreeRequest e q r = Some (err, r') \<Longrightarrow> reg_step r r'"
| PrepareTransfer: "may_prepare a hs r \<Longrightarrow> PrepareTransfer t a b hs r = Some (pres, r') \<Longrightarrow> reg_step r r'"
| CommitTransfer: "CommitTransfer t r = Some (err, r') \<Longrightarrow> reg_step r r'"
| RollbackTransfer: "RollbackTransfer t r = Some (err, r') \<Longrightarrow> reg_step r r'"

inductive reachable :: "(string, ExecutorStats option) fmap \<Rightarrow> registry \<Rightarrow> bool" for runtimes where
  init: "NewRegistry runtimes = Inr r \<Longrightarrow> reachable runtimes r"
| step: "reachable runtimes r \<Longrightarrow> reg_step r r' \<Longrightarrow> reachable runtimes r'"

lemma CommitTransfer_any:
  assumes "reg_inv r"
  shows "\<exists>err r'. CommitTransfer t r = Some (err, r') \<and> reg_inv r'"
proof (cases "fmlookup (r_pendingTransfers r) t")
  case None
  then show ?thesis using assms by (simp add: CommitTransfer_def)
next
  case (Some p)
  then show ?thesis using CommitTransfer_inv [OF assms Some] by blast
qed

lemma RollbackTransfer_any:
  assumes "reg_inv r"
  shows "\<exists>err r'. RollbackTransfer t r = Some (err, r') \<and> reg_inv r'"
proof (cases "fmlookup (r_pendingTransfers r) t")
  case None
  then show ?thesis using assms by (simp add: RollbackTransfer_def)
next
  case (Some p)
  then show ?thesis using RollbackTransfer_inv [OF assms Some] by blast
qed

lemma reg_step_inv:
  assumes "reg_step r r'" "reg_inv r"
  shows "reg_inv r'"
  using assms
proof cases
  case (MatchPrefix req res)
  then show ?thesis using registry_MatchPrefix_inv [OF assms(2)] by fastforce
next
  case (AllocateBlocks work ares)
  then show ?thesis using registry_AllocateBlocks_inv [OF assms(2)] by fastforce
next
  case (Commit e w err)
  then show ?thesis using registry_Commit_inv [OF assms(2), of e w] by auto
next
  case (Rollback e w err)
  then show ?thesis using registry_Rollback_inv [OF assms(2), of e w] by auto
next
  case (FreeRequest e q err)
  then show ?thesis using registry_FreeRequest_inv [OF assms(2), of e q] by auto
next
  case (PrepareTransfer a hs t b pres)
  then show ?thesis using PrepareTransfer_inv [OF assms(2), of a hs t b] by auto
next
  case (CommitTransfer t err)
  then show ?thesis using CommitTransfer_any [OF assms(2), of t] by auto
next
  case (RollbackTransfer t err)
  then show ?thesis using RollbackTransfer_any [OF assms(2), of t] by auto
qed

lemma reachable_inv:
  assumes "reachable runtimes r" "\<forall>rt \<in> fmran' runtimes. small rt"
  shows "reg_inv r"
  using assms(1)
proof induction
  case (init r)
  then show ?case by (rule NewRegistry_inv(1) [OF _ assms(2)])
next
  case (step r r')
  then show ?case using reg_step_inv by blast
qed

subsection \<open>Ownership\<close>

text \<open>A block is held by a request or by a pending transfer.\<close>

definition held :: "registry \<Rightarrow> string \<Rightarrow> manager \<Rightarrow> u32 \<Rightarrow> bool" where
  "held r e m x \<longleftrightarrow> (\<exists>q ids. fmlookup (m_requestBlocks m) q = Some ids \<and> x \<in> set ids) \<or>
     (\<exists>t p. fmlookup (r_pendingTransfers r) t = Some p \<and>
        (tp_SourceExecutorID p = e \<and> x \<in> set (tp_SourceBlockIDs p) \<or>
         tp_DestinationExecutorID p = e \<and> x \<in> set (tp_DestinationBlockIDs p)))"

lemma fmsum_member:
  assumes "x \<in># fmsum f m"
  shows "\<exists>k v. fmlookup m k = Some v \<and> x \<in># f v"
proof -
  have "\<exists>k \<in> fset (fmdom m). x \<in># f (the (fmlookup m k))"
    using assms by (simp add: fmsum_def set_mset_sum)
  then show ?thesis
    by (metis fmlookup_dom_iff option.sel)
qed

lemma tables_member:
  assumes "x \<in># tables rb"
  shows "\<exists>q ids. fmlookup rb q = Some ids \<and> x \<in> set ids"
  using fmsum_member [of x mset rb] assms by (simp add: tables_def fmsum_def)

lemma member_tables:
  assumes "fmlookup rb q = Some ids" "x \<in> set ids"
  shows "x \<in># tables rb"
  using assms tables_split [of rb q] by simp

lemma held_iff_refs:
  "held r e m x \<longleftrightarrow> x \<in># refs (pins r e) (reserved r e) m"
proof
  assume "held r e m x"
  then show "x \<in># refs (pins r e) (reserved r e) m"
    unfolding held_def
  proof (elim disjE exE conjE)
    fix q ids assume "fmlookup (m_requestBlocks m) q = Some ids" "x \<in> set ids"
    then show ?thesis using member_tables by (auto simp: refs_def)
  next
    fix t p assume p: "fmlookup (r_pendingTransfers r) t = Some p" "tp_SourceExecutorID p = e" "x \<in> set (tp_SourceBlockIDs p)"
    then show ?thesis using mset_subset_eqD [OF plan_blocks(1) [OF p(1)]] by (auto simp: refs_def)
  next
    fix t p assume p: "fmlookup (r_pendingTransfers r) t = Some p" "tp_DestinationExecutorID p = e"
      "x \<in> set (tp_DestinationBlockIDs p)"
    then show ?thesis using mset_subset_eqD [OF plan_blocks(2) [OF p(1)]] by (auto simp: refs_def)
  qed
next
  assume "x \<in># refs (pins r e) (reserved r e) m"
  then consider "x \<in># tables (m_requestBlocks m)" | "x \<in># pins r e" | "x \<in># reserved r e"
    by (auto simp: refs_def)
  then show "held r e m x"
  proof cases
    case 1
    then show ?thesis using tables_member by (auto simp: held_def)
  next
    case 2
    then show ?thesis unfolding pins_def held_def by (auto dest!: fmsum_member split: if_splits)
  next
    case 3
    then show ?thesis unfolding reserved_def held_def by (auto dest!: fmsum_member split: if_splits)
  qed
qed

lemma ownership:
  assumes inv: "reg_inv r" and m: "fmlookup (r_managers r) e = Some m" and x: "unat x < length (m_blocks m)"
  shows "x \<in> set (free_ids m) \<longleftrightarrow> \<not> held r e m x"
    "unat (blk_RefCount (bl m x)) = count (refs (pins r e) (reserved r e) m) x"
    "distinct (free_ids m)" "length (free_ids m) = unat (m_freeCount m)"
proof -
  note ci = mgr_invD(1) [OF reg_invD(1) [OF inv m]]
  show "x \<in> set (free_ids m) \<longleftrightarrow> \<not> held r e m x"
    unfolding held_iff_refs by (rule core_inv_queued [OF ci x])
  show "unat (blk_RefCount (bl m x)) = count (refs (pins r e) (reserved r e) m) x"
    using ci x by (simp add: core_inv_def refs_ok_def)
  show "distinct (free_ids m)" "length (free_ids m) = unat (m_freeCount m)"
    using core_inv_freeD [OF ci] by (simp_all add: free_ok_def)
qed

end
