(* ===== verification/Request_Invariant.thy ===== *)
theory Request_Invariant
  imports Request_State Registry_Safety
begin

text \<open>
  The invariant of the request table: every live request has exactly one open channel, runs on a
  known executor and owns the block tables filed under its name, and no request that has left the
  table owns any.  Every operation keeps it; leaving the table frees the blocks and closes the
  channel exactly once.
\<close>

subsection \<open>The invariant\<close>

definition channels_ok :: "state_manager \<Rightarrow> bool" where
  "channels_ok s \<longleftrightarrow>
     (\<forall>q. has_key (sm_subscribeCh s) q \<longleftrightarrow> has_key (sm_requests s) q) \<and>
     (\<forall>q c. fmlookup (sm_subscribeCh s) q = Some c \<longrightarrow> (\<exists>ch. fmlookup (sm_channels s) c = Some ch \<and> \<not> ch_closed ch)) \<and>
     (\<forall>p q c. fmlookup (sm_subscribeCh s) p = Some c \<longrightarrow> fmlookup (sm_subscribeCh s) q = Some c \<longrightarrow> p = q) \<and>
     (\<forall>c. has_key (sm_channels s) c \<longrightarrow> c < sm_nextChannel s)"

text \<open>Block tables and pending allocations belong to live requests bound to that executor.\<close>

definition tables_live :: "(string, Request) fmap \<Rightarrow> registry \<Rightarrow> bool" where
  "tables_live reqs reg \<longleftrightarrow> (\<forall>e m q. fmlookup (r_managers reg) e = Some m \<longrightarrow>
     has_key (m_requestBlocks m) q \<or> \<not> idle q m \<longrightarrow>
     (\<exists>rq. fmlookup reqs q = Some rq \<and> rq_ExecutorID rq = e))"

definition request_ok :: "registry \<Rightarrow> string \<Rightarrow> Request \<Rightarrow> bool" where
  "request_ok reg q rq \<longleftrightarrow> rq_RequestId rq = q \<and> has_key (r_managers reg) (rq_ExecutorID rq) \<and> rq_Cache rq \<noteq> None"

definition sm_inv :: "state_manager \<Rightarrow> bool" where
  "sm_inv s \<longleftrightarrow> reg_inv (sm_blockRegistry s) \<and> channels_ok s \<and> tables_live (sm_requests s) (sm_blockRegistry s) \<and>
     (\<forall>q rq. fmlookup (sm_requests s) q = Some rq \<longrightarrow> request_ok (sm_blockRegistry s) q rq) \<and>
     sm_activeRequests s = int (map_len (sm_requests s))"

lemma sm_invD:
  assumes "sm_inv s"
  shows "reg_inv (sm_blockRegistry s)" "channels_ok s" "tables_live (sm_requests s) (sm_blockRegistry s)"
    "fmlookup (sm_requests s) q = Some rq \<Longrightarrow> request_ok (sm_blockRegistry s) q rq"
    "sm_activeRequests s = int (map_len (sm_requests s))"
  using assms by (auto simp: sm_inv_def)

lemma map_len_upd: "fmlookup m k = None \<Longrightarrow> map_len (fmupd k v m) = Suc (map_len m)"
  by (simp add: map_len_def fcard_finsert_disjoint fmdom_notI)

lemma map_len_replace: "fmlookup m k = Some w \<Longrightarrow> map_len (fmupd k v m) = map_len m"
  by (simp add: map_len_def fmdomI finsert_absorb)

lemma map_len_drop: "fmlookup m k = Some v \<Longrightarrow> Suc (map_len (fmdrop k m)) = map_len m"
proof -
  assume a: "fmlookup m k = Some v"
  have "fmupd k v (fmdrop k m) = m"
    using a by (intro fmap_ext) auto
  then show ?thesis
    using map_len_upd [of "fmdrop k m" k v] by simp
qed

text \<open>A new registry's managers hold nothing.\<close>

lemma newManagers_fresh:
  assumes "newManagers rts es ms0 = Inr ms" "fmlookup ms e = Some m"
    "\<forall>e m. fmlookup ms0 e = Some m \<longrightarrow> m_requestBlocks m = fmempty \<and> m_pendingAllocations m = fmempty"
  shows "m_requestBlocks m = fmempty \<and> m_pendingAllocations m = fmempty"
  using assms
proof (induction es arbitrary: ms0)
  case Nil
  then show ?case by simp
next
  case (Cons x es)
  from Cons.prems(1) obtain rt m1 where "newManager (Some rt) = Inr m1" "newManagers rts es (fmupd x m1 ms0) = Inr ms"
    by (auto split: option.splits if_splits sum.splits)
  moreover from this(1) have "m_requestBlocks m1 = fmempty \<and> m_pendingAllocations m1 = fmempty"
    using newManager_blocks(7,9) by blast
  ultimately show ?case
    using Cons.IH [OF _ Cons.prems(2)] Cons.prems(3) by simp
qed

lemma NewRegistry_fresh:
  assumes "NewRegistry rts = Inr reg" "fmlookup (r_managers reg) e = Some m"
  shows "m_requestBlocks m = fmempty \<and> m_pendingAllocations m = fmempty"
proof -
  obtain ms where "newManagers rts (sorted_list_of_fset (fmdom rts)) fmempty = Inr ms" "r_managers reg = ms"
    using assms(1) by (auto simp: NewRegistry_def Let_def split: if_splits sum.splits)
  then show ?thesis
    using newManagers_fresh [of rts _ fmempty ms e m] assms(2) by simp
qed

lemma sm_inv_new:
  assumes "reg_inv reg" "\<And>e m. fmlookup (r_managers reg) e = Some m \<Longrightarrow>
      m_requestBlocks m = fmempty \<and> m_pendingAllocations m = fmempty"
  shows "sm_inv (NewRequestLifecycleStateManager reg mx)"
  using assms by (auto simp: sm_inv_def NewRequestLifecycleStateManager_def channels_ok_def tables_live_def idle_def map_len_def)

subsection \<open>Channels\<close>

definition chan_room :: "nat \<Rightarrow> state_manager \<Rightarrow> bool" where
  "chan_room c s \<longleftrightarrow> (\<exists>ch. fmlookup (sm_channels s) c = Some ch \<and> \<not> ch_closed ch \<and> length (ch_buf ch) < chan_cap)"

text \<open>Fields the channel operations leave alone.\<close>

definition chan_frame :: "state_manager \<Rightarrow> state_manager \<Rightarrow> bool" where
  "chan_frame s s' \<longleftrightarrow> sm_requests s' = sm_requests s \<and> sm_subscribeCh s' = sm_subscribeCh s \<and>
     sm_nextChannel s' = sm_nextChannel s \<and> sm_blockRegistry s' = sm_blockRegistry s \<and>
     sm_activeRequests s' = sm_activeRequests s \<and> sm_metrics s' = sm_metrics s"

lemma chan_frame_trans: "chan_frame s s1 \<Longrightarrow> chan_frame s1 s2 \<Longrightarrow> chan_frame s s2"
  by (simp add: chan_frame_def)

lemma chan_send_ok:
  assumes "fmlookup (sm_channels s) c = Some ch" "\<not> ch_closed ch" "length (ch_buf ch) < chan_cap"
  shows "\<exists>s'. chan_send c e s = Some s' \<and> chan_frame s s' \<and>
     sm_channels s' = fmupd c (ch\<lparr>ch_buf := ch_buf ch @ [e]\<rparr>) (sm_channels s)"
  using assms by (simp add: chan_send_def chan_frame_def)

text \<open>A send that does not complete meets a closed or a full channel, or none at all.\<close>

lemma chan_send_None_iff: "chan_send c e s = None \<longleftrightarrow> \<not> chan_room c s"
  by (auto simp: chan_send_def chan_room_def split: option.splits)

lemma chan_close_ok:
  assumes "fmlookup (sm_channels s) c = Some ch" "\<not> ch_closed ch"
  shows "\<exists>s'. chan_close c s = Some s' \<and> chan_frame s s' \<and>
     sm_channels s' = fmupd c (ch\<lparr>ch_closed := True\<rparr>) (sm_channels s)"
  using assms by (simp add: chan_close_def chan_frame_def)

text \<open>Replacing a channel's contents keeps the invariant, as does closing one nobody is filed under.\<close>

lemma sm_inv_channel:
  assumes inv: "sm_inv s" and f: "chan_frame s s'" and c: "sm_channels s' = fmupd c ch (sm_channels s)"
    and k: "has_key (sm_channels s) c" and open': "ch_closed ch \<Longrightarrow> \<forall>q. fmlookup (sm_subscribeCh s) q \<noteq> Some c"
  shows "sm_inv s'"
proof -
  have "channels_ok s'"
    using sm_invD(2) [OF inv] f c k open' by (auto simp: channels_ok_def chan_frame_def split: if_splits)
  then show ?thesis
    using inv f by (simp add: sm_inv_def chan_frame_def)
qed

subsection \<open>Leaving the table\<close>

definition gone :: "string \<Rightarrow> state_manager \<Rightarrow> bool" where
  "gone q s \<longleftrightarrow> fmlookup (sm_requests s) q = None \<and> fmlookup (sm_subscribeCh s) q = None \<and>
     (\<forall>e m. fmlookup (r_managers (sm_blockRegistry s)) e = Some m \<longrightarrow>
        fmlookup (m_requestBlocks m) q = None \<and> idle q m)"

lemma gone_frame: "chan_frame s s' \<Longrightarrow> gone q s' \<longleftrightarrow> gone q s"
  by (simp add: gone_def chan_frame_def)

lemma idle_mono:
  "idle p m \<Longrightarrow> \<forall>w al. fmlookup (m_pendingAllocations m') w = Some al \<longrightarrow> fmlookup (m_pendingAllocations m) w = Some al \<Longrightarrow> idle p m'"
  unfolding idle_def by blast

lemma not_live_gone:
  assumes "sm_inv s" "fmlookup (sm_requests s) q = None"
  shows "gone q s"
proof -
  have "fmlookup (sm_subscribeCh s) q = None"
    using sm_invD(2) [OF assms(1)] assms(2) unfolding channels_ok_def by (metis option.exhaust_sel)
  moreover have "fmlookup (m_requestBlocks m) q = None \<and> idle q m"
    if "fmlookup (r_managers (sm_blockRegistry s)) e = Some m" for e m
    using sm_invD(3) [OF assms(1)] assms(2) that unfolding tables_live_def by fastforce
  ultimately show ?thesis
    using assms(2) by (simp add: gone_def)
qed

lemma deleteRequest_spec:
  assumes inv: "sm_inv s" and q: "fmlookup (sm_requests s) q = Some rq"
  shows "\<exists>s'. deleteRequest q s = Some s' \<and> sm_inv s' \<and> gone q s' \<and>
     sm_requests s' = fmdrop q (sm_requests s) \<and> sm_subscribeCh s' = fmdrop q (sm_subscribeCh s) \<and>
     sm_channels s' = sm_channels s \<and> sm_nextChannel s' = sm_nextChannel s"
proof -
  let ?reg = "sm_blockRegistry s" and ?e = "rq_ExecutorID rq"
  have ok: "request_ok ?reg q rq"
    by (rule sm_invD(4) [OF inv q])
  then obtain m where m: "fmlookup (r_managers ?reg) ?e = Some m"
    by (auto simp: request_ok_def)
  obtain m' where m': "registry_FreeRequest ?e q ?reg = Some (None, setManager ?e m' ?reg)" "reg_inv (setManager ?e m' ?reg)"
      "m_requestBlocks m' = fmdrop q (m_requestBlocks m)" "idle q m'"
      "\<forall>w al. fmlookup (m_pendingAllocations m') w = Some al \<longleftrightarrow> fmlookup (m_pendingAllocations m) w = Some al \<and> al_RequestID al \<noteq> q"
    using registry_FreeRequest_spec [OF sm_invD(1) [OF inv] m, of q] by blast
  let ?n = "sm_activeRequests s - 1"
  let ?s' = "s\<lparr>sm_requests := fmdrop q (sm_requests s), sm_subscribeCh := fmdrop q (sm_subscribeCh s),
      sm_blockRegistry := setManager ?e m' ?reg, sm_activeRequests := ?n, sm_metrics := SetActiveRequests ?n (sm_metrics s)\<rparr>"
  have d: "deleteRequest q s = Some ?s'"
    using q m'(1) by (simp add: deleteRequest_def Let_def)
  have id': "idle p m'" if "idle p m" for p
    using idle_mono [OF that, of m'] m'(5) by blast
  have live: "\<exists>rq'. fmlookup (fmdrop q (sm_requests s)) p = Some rq' \<and> rq_ExecutorID rq' = e"
    if em: "fmlookup (r_managers (setManager ?e m' ?reg)) e = Some m1" and own: "has_key (m_requestBlocks m1) p \<or> \<not> idle p m1" for e m1 p
  proof (cases "e = ?e")
    case True
    then have m1: "m1 = m'" using em by simp
    then have p: "p \<noteq> q" "has_key (m_requestBlocks m) p \<or> \<not> idle p m"
      using own m'(3,4) id' by (auto split: if_splits)
    then show ?thesis
      using sm_invD(3) [OF inv] m True unfolding tables_live_def by fastforce
  next
    case False
    then have "fmlookup (r_managers ?reg) e = Some m1"
      using em by simp
    then obtain rq' where "fmlookup (sm_requests s) p = Some rq'" "rq_ExecutorID rq' = e"
      using sm_invD(3) [OF inv] own unfolding tables_live_def by blast
    moreover from this have "p \<noteq> q"
      using q False by auto
    ultimately show ?thesis by simp
  qed
  have "channels_ok ?s'"
    using sm_invD(2) [OF inv] by (auto simp: channels_ok_def split: if_splits)
  moreover have "request_ok (setManager ?e m' ?reg) p r" if "fmlookup (fmdrop q (sm_requests s)) p = Some r" for p r
    using sm_invD(4) [OF inv, of p r] that by (auto simp: request_ok_def split: if_splits)
  moreover have "?n = int (map_len (fmdrop q (sm_requests s)))"
    using sm_invD(5) [OF inv] map_len_drop [OF q] by simp
  ultimately have inv': "sm_inv ?s'"
    using m'(2) live unfolding sm_inv_def tables_live_def by simp
  then show ?thesis
    using d not_live_gone [OF inv', of q] by simp
qed

text \<open>The locked part leaves no trace of the request but its channel, which is still open.\<close>

lemma leaveLocked_spec:
  assumes inv: "sm_inv s"
  shows "\<exists>s'. leaveLocked q s = Some (fmlookup (sm_subscribeCh s) q, s') \<and> sm_inv s' \<and> gone q s' \<and>
     sm_requests s' = fmdrop q (sm_requests s) \<and> sm_subscribeCh s' = fmdrop q (sm_subscribeCh s) \<and>
     sm_channels s' = sm_channels s"
proof (cases "fmlookup (sm_requests s) q")
  case None
  then have g: "gone q s"
    by (rule not_live_gone [OF inv])
  then have "fmdrop q (sm_subscribeCh s) = sm_subscribeCh s" "fmdrop q (sm_requests s) = sm_requests s"
    by (simp_all add: gone_def fmdrop_idle fmdom_notI)
  then show ?thesis
    using None g inv by (simp add: leaveLocked_def)
next
  case (Some rq)
  then show ?thesis
    using deleteRequest_spec [OF inv Some] by (auto simp: leaveLocked_def)
qed

lemma subscribed_open:
  assumes "sm_inv s" "fmlookup (sm_subscribeCh s) q = Some c"
  shows "\<exists>ch. fmlookup (sm_channels s) c = Some ch \<and> \<not> ch_closed ch"
    "fmlookup (fmdrop q (sm_subscribeCh s)) p \<noteq> Some c"
  using sm_invD(2) [OF assms(1)] assms(2) unfolding channels_ok_def by (auto split: if_splits)

definition closed_for :: "string \<Rightarrow> state_manager \<Rightarrow> state_manager \<Rightarrow> bool" where
  "closed_for q s s' \<longleftrightarrow> (\<forall>c. fmlookup (sm_subscribeCh s) q = Some c \<longrightarrow>
     (\<exists>ch. fmlookup (sm_channels s') c = Some ch \<and> ch_closed ch))"

lemma leave_close:
  assumes inv: "sm_inv s"
  shows "\<exists>s'. do { (subCh, s1) \<leftarrow> leaveLocked q s; case subCh of None \<Rightarrow> Some s1 | Some c \<Rightarrow> chan_close c s1 } = Some s' \<and>
     sm_inv s' \<and> gone q s' \<and> sm_requests s' = fmdrop q (sm_requests s) \<and> closed_for q s s'"
proof -
  obtain s1 where s1: "leaveLocked q s = Some (fmlookup (sm_subscribeCh s) q, s1)" "sm_inv s1" "gone q s1"
      "sm_requests s1 = fmdrop q (sm_requests s)" "sm_subscribeCh s1 = fmdrop q (sm_subscribeCh s)" "sm_channels s1 = sm_channels s"
    using leaveLocked_spec [OF inv] by blast
  show ?thesis
  proof (cases "fmlookup (sm_subscribeCh s) q")
    case None
    then show ?thesis using s1 by (simp add: closed_for_def)
  next
    case (Some c)
    obtain ch where ch: "fmlookup (sm_channels s1) c = Some ch" "\<not> ch_closed ch"
      using subscribed_open(1) [OF inv Some] s1(6) by auto
    obtain s' where s': "chan_close c s1 = Some s'" "chan_frame s1 s'"
        "sm_channels s' = fmupd c (ch\<lparr>ch_closed := True\<rparr>) (sm_channels s1)"
      using chan_close_ok [OF ch] by blast
    have "sm_inv s'"
      using sm_inv_channel [OF s1(2) s'(2,3)] ch(1) subscribed_open(2) [OF inv Some] s1(5) by simp
    then show ?thesis
      using s1 s' Some gone_frame [OF s'(2)] by (auto simp: closed_for_def chan_frame_def)
  qed
qed

lemma sm_Cancel_spec:
  "sm_inv s \<Longrightarrow> \<exists>s'. sm_Cancel q s = Some s' \<and> sm_inv s' \<and> gone q s' \<and>
     sm_requests s' = fmdrop q (sm_requests s) \<and> closed_for q s s'"
  unfolding sm_Cancel_def by (rule leave_close)

lemma sm_Finish_spec:
  "sm_inv s \<Longrightarrow> \<exists>s'. sm_Finish q s = Some s' \<and> sm_inv s' \<and> gone q s' \<and>
     sm_requests s' = fmdrop q (sm_requests s) \<and> closed_for q s s'"
  unfolding sm_Finish_def by (rule leave_close)

text \<open>\<^verbatim>\<open>Fail\<close> and an expired deadline deliver a last event first, for which the channel needs room.\<close>

definition sub_room :: "string \<Rightarrow> state_manager \<Rightarrow> bool" where
  "sub_room q s \<longleftrightarrow> (\<forall>c. fmlookup (sm_subscribeCh s) q = Some c \<longrightarrow> chan_room c s)"

definition last_event :: "Event \<Rightarrow> string \<Rightarrow> state_manager \<Rightarrow> state_manager \<Rightarrow> bool" where
  "last_event e q s s' \<longleftrightarrow> (\<forall>c ch. fmlookup (sm_subscribeCh s) q = Some c \<longrightarrow> fmlookup (sm_channels s) c = Some ch \<longrightarrow>
     fmlookup (sm_channels s') c = Some \<lparr>ch_buf = ch_buf ch @ [e], ch_closed = True\<rparr>)"

lemma send_close:
  assumes inv: "sm_inv s1" and c: "fmlookup (sm_channels s1) c = Some ch" "\<not> ch_closed ch" "length (ch_buf ch) < chan_cap"
    and unsub: "\<forall>p. fmlookup (sm_subscribeCh s1) p \<noteq> Some c"
  shows "\<exists>s2 s3. chan_send c e s1 = Some s2 \<and> chan_close c s2 = Some s3 \<and> sm_inv s3 \<and> chan_frame s1 s3 \<and>
     fmlookup (sm_channels s3) c = Some \<lparr>ch_buf = ch_buf ch @ [e], ch_closed = True\<rparr>"
proof -
  let ?ch = "ch\<lparr>ch_buf := ch_buf ch @ [e]\<rparr>"
  obtain s2 where s2: "chan_send c e s1 = Some s2" "chan_frame s1 s2" "sm_channels s2 = fmupd c ?ch (sm_channels s1)"
    using chan_send_ok [OF c] by blast
  have i2: "sm_inv s2"
    by (rule sm_inv_channel [OF inv s2(2,3)]) (use c in simp_all)
  have "fmlookup (sm_channels s2) c = Some ?ch" "\<not> ch_closed ?ch"
    using s2(3) c(2) by simp_all
  then obtain s3 where s3: "chan_close c s2 = Some s3" "chan_frame s2 s3"
      "sm_channels s3 = fmupd c (?ch\<lparr>ch_closed := True\<rparr>) (sm_channels s2)"
    using chan_close_ok by blast
  have "sm_inv s3"
    by (rule sm_inv_channel [OF i2 s3(2,3)]) (use s2 unsub in \<open>simp_all add: chan_frame_def\<close>)
  then show ?thesis
    using s2 s3 chan_frame_trans by auto
qed

lemma leave_send_close:
  assumes inv: "sm_inv s" and room: "sub_room q s"
  shows "\<exists>s'. do { (subCh, s1) \<leftarrow> leaveLocked q s;
       case subCh of None \<Rightarrow> Some s1 | Some c \<Rightarrow> do { s2 \<leftarrow> chan_send c e s1; chan_close c s2 } } = Some s' \<and>
     sm_inv s' \<and> gone q s' \<and> sm_requests s' = fmdrop q (sm_requests s) \<and> last_event e q s s'"
proof -
  obtain s1 where s1: "leaveLocked q s = Some (fmlookup (sm_subscribeCh s) q, s1)" "sm_inv s1" "gone q s1"
      "sm_requests s1 = fmdrop q (sm_requests s)" "sm_subscribeCh s1 = fmdrop q (sm_subscribeCh s)" "sm_channels s1 = sm_channels s"
    using leaveLocked_spec [OF inv] by blast
  show ?thesis
  proof (cases "fmlookup (sm_subscribeCh s) q")
    case None
    then show ?thesis using s1 by (simp add: last_event_def)
  next
    case (Some c)
    obtain ch where ch: "fmlookup (sm_channels s1) c = Some ch" "\<not> ch_closed ch" "length (ch_buf ch) < chan_cap"
      using room Some s1(6) by (auto simp: sub_room_def chan_room_def)
    have "\<forall>p. fmlookup (sm_subscribeCh s1) p \<noteq> Some c"
      using subscribed_open(2) [OF inv Some] s1(5) by simp
    then obtain s2 s3 where s3: "chan_send c e s1 = Some s2" "chan_close c s2 = Some s3" "sm_inv s3" "chan_frame s1 s3"
        "fmlookup (sm_channels s3) c = Some \<lparr>ch_buf = ch_buf ch @ [e], ch_closed = True\<rparr>"
      using send_close [OF s1(2) ch] by blast
    then show ?thesis
      using s1 Some ch(1) gone_frame [OF s3(4)] by (auto simp: last_event_def chan_frame_def)
  qed
qed

lemma sm_Fail_spec:
  assumes "sm_inv s" "sub_room q s"
  shows "\<exists>s'. sm_Fail now uuid q err s = Some s' \<and> sm_inv s' \<and> gone q s' \<and>
     sm_requests s' = fmdrop q (sm_requests s) \<and> last_event (failEvent now uuid q err) q s s'"
  unfolding sm_Fail_def by (rule leave_send_close [OF assms])

definition expired :: "time \<Rightarrow> Request \<Rightarrow> bool" where
  "expired now rq \<longleftrightarrow> rq_Deadline rq \<noteq> 0 \<and> rq_Deadline rq < now"

definition terminal :: "RequestPhase \<Rightarrow> bool" where
  "terminal p \<longleftrightarrow> p \<in> {RequestPhaseFinished, RequestPhaseCanceled, RequestPhaseTimeout, RequestPhaseFailed}"

lemma sm_CanSchedule_spec:
  assumes inv: "sm_inv s" and room: "sub_room (wk_RequestId work) s"
  shows "\<exists>ok s'. sm_CanSchedule now uuid work s = Some (ok, s') \<and> sm_inv s' \<and>
     (ok \<longleftrightarrow> (\<exists>rq. fmlookup (sm_requests s) (wk_RequestId work) = Some rq \<and> \<not> expired now rq \<and> \<not> terminal (rq_Phase rq))) \<and>
     (if \<exists>rq. fmlookup (sm_requests s) (wk_RequestId work) = Some rq \<and> expired now rq
      then gone (wk_RequestId work) s' \<and> sm_requests s' = fmdrop (wk_RequestId work) (sm_requests s) \<and>
        last_event (failEvent now uuid (wk_RequestId work) (Some (errors_New CodeRequestTimeout ''request timeout'')))
          (wk_RequestId work) s s'
      else s' = s)"
proof (cases "fmlookup (sm_requests s) (wk_RequestId work)")
  case None
  then show ?thesis using inv by (intro exI [of _ False] exI [of _ s]) (simp add: sm_CanSchedule_def)
next
  case (Some rq)
  let ?q = "wk_RequestId work"
  let ?e = "failEvent now uuid ?q (Some (errors_New CodeRequestTimeout ''request timeout''))"
  show ?thesis
  proof (cases "expired now rq")
    case False
    then show ?thesis
      using Some inv by (auto simp: sm_CanSchedule_def expired_def terminal_def)
  next
    case True
    obtain s1 where s1: "deleteRequest ?q s = Some s1" "sm_inv s1" "gone ?q s1" "sm_requests s1 = fmdrop ?q (sm_requests s)"
        "sm_subscribeCh s1 = fmdrop ?q (sm_subscribeCh s)" "sm_channels s1 = sm_channels s"
      using deleteRequest_spec [OF inv Some] by blast
    obtain c where c: "fmlookup (sm_subscribeCh s) ?q = Some c"
      using sm_invD(2) [OF inv] Some unfolding channels_ok_def by (metis option.exhaust_sel option.distinct(1))
    obtain ch where ch: "fmlookup (sm_channels s1) c = Some ch" "\<not> ch_closed ch" "length (ch_buf ch) < chan_cap"
      using room c s1(6) by (auto simp: sub_room_def chan_room_def)
    have "\<forall>p. fmlookup (sm_subscribeCh s1) p \<noteq> Some c"
      using subscribed_open(2) [OF inv c] s1(5) by simp
    then obtain s2 s3 where s3: "chan_send c ?e s1 = Some s2" "chan_close c s2 = Some s3" "sm_inv s3" "chan_frame s1 s3"
        "fmlookup (sm_channels s3) c = Some \<lparr>ch_buf = ch_buf ch @ [?e], ch_closed = True\<rparr>"
      using send_close [OF s1(2) ch] by blast
    have "sm_CanSchedule now uuid work s = Some (False, s3)"
      using Some True c s1(1) s3(1,2) by (simp add: sm_CanSchedule_def expired_def Let_def)
    moreover have "last_event ?e ?q s s3"
      using c ch(1) s1(6) s3(5) by (simp add: last_event_def)
    ultimately show ?thesis
      using Some True s1(3,4) s3(3,4) gone_frame [OF s3(4)] by (auto simp: chan_frame_def)
  qed
qed

subsection \<open>Registration\<close>

text \<open>The executor a request is bound to when it names none.\<close>

definition bound_executor :: "Request \<Rightarrow> state_manager \<Rightarrow> string" where
  "bound_executor req s = (if rq_ExecutorID req = [] then ExecutorIDs (sm_blockRegistry s) ! 0 else rq_ExecutorID req)"

definition may_bind :: "Request \<Rightarrow> state_manager \<Rightarrow> bool" where
  "may_bind req s \<longleftrightarrow> (rq_ExecutorID req = [] \<longrightarrow> length (ExecutorIDs (sm_blockRegistry s)) = 1) \<and>
     has_key (r_managers (sm_blockRegistry s)) (bound_executor req s)"

definition match_room :: "Request \<Rightarrow> state_manager \<Rightarrow> bool" where
  "match_room req s \<longleftrightarrow> length (rq_TokenIDs req) < 2 ^ 32 \<and>
     (\<forall>e m. fmlookup (r_managers (sm_blockRegistry s)) e = Some m \<longrightarrow>
        refs_room (pins (sm_blockRegistry s) e) (reserved (sm_blockRegistry s) e) m (length (rq_TokenIDs req)))"

lemma sm_Create_duplicate:
  "has_key (sm_requests s) (rq_RequestId req) \<Longrightarrow>
   sm_Create now uuid req s = Some (Inl (errors_New CodeInvalidArgument ''request already exists''), s)"
  by (simp add: sm_Create_def)

text \<open>A refused request leaves the table, the registry and the counters as they were.\<close>

lemma sm_Create_refused:
  assumes inv: "sm_inv s" and new: "fmlookup (sm_requests s) (rq_RequestId req) = None" and no: "\<not> may_bind req s"
  shows "\<exists>err s'. sm_Create now uuid req s = Some (Inl err, s') \<and> sm_inv s' \<and> sm_requests s' = sm_requests s \<and>
     sm_subscribeCh s' = sm_subscribeCh s \<and> sm_blockRegistry s' = sm_blockRegistry s"
proof -
  let ?c = "sm_nextChannel s"
  let ?s1 = "s\<lparr>sm_channels := fmupd ?c \<lparr>ch_buf = [], ch_closed = False\<rparr> (sm_channels s), sm_nextChannel := ?c + 1\<rparr>"
  have "channels_ok ?s1"
    using sm_invD(2) [OF inv] by (fastforce simp: channels_ok_def)
  then have i1: "sm_inv ?s1"
    using inv by (simp add: sm_inv_def)
  show ?thesis
  proof (cases "rq_ExecutorID req = [] \<and> length (ExecutorIDs (sm_blockRegistry s)) \<noteq> 1")
    case True
    then show ?thesis using new i1 by (simp add: sm_Create_def Let_def)
  next
    case False
    then have "\<not> has_key (r_managers (sm_blockRegistry s)) (bound_executor req s)"
      using no by (auto simp: may_bind_def)
    then show ?thesis
      using new False i1 by (auto simp: sm_Create_def Let_def registry_MatchPrefix_def managerFor_def bound_executor_def)
  qed
qed

text \<open>Filing a request under a fresh channel.\<close>

lemma channels_ok_new:
  assumes ok: "channels_ok s" and "sm_requests s' = fmupd q rq (sm_requests s)"
    and "sm_subscribeCh s' = fmupd q (sm_nextChannel s) (sm_subscribeCh s)"
    and "sm_channels s' = fmupd (sm_nextChannel s) \<lparr>ch_buf = [], ch_closed = False\<rparr> (sm_channels s)"
    and "sm_nextChannel s' = sm_nextChannel s + 1"
  shows "channels_ok s'"
proof -
  let ?c = "sm_nextChannel s"
  have old: "fmlookup (sm_subscribeCh s) p \<noteq> Some ?c" for p
    using ok unfolding channels_ok_def by (metis less_irrefl option.distinct(1))
  have "\<exists>ch. fmlookup (sm_channels s') c = Some ch \<and> \<not> ch_closed ch" if "fmlookup (sm_subscribeCh s') p = Some c" for p c
    using that ok assms(3,4) unfolding channels_ok_def by (cases "p = q") auto
  moreover have "p = p'" if "fmlookup (sm_subscribeCh s') p = Some c" "fmlookup (sm_subscribeCh s') p' = Some c" for p p' c
    using that ok old assms(3) unfolding channels_ok_def by (cases "p = q"; cases "p' = q") auto
  moreover have "c < sm_nextChannel s'" if "has_key (sm_channels s') c" for c
    using that ok assms(4,5) unfolding channels_ok_def by (cases "c = ?c") (auto simp: less_SucI)
  moreover have "has_key (sm_subscribeCh s') p \<longleftrightarrow> has_key (sm_requests s') p" for p
    using ok assms(2,3) unfolding channels_ok_def by (cases "p = q") simp_all
  ultimately show ?thesis
    unfolding channels_ok_def by blast
qed

text \<open>The ways \<^verbatim>\<open>Create\<close> returns; all but the first leave behind the channel they opened.\<close>

definition opened :: "state_manager \<Rightarrow> state_manager" where
  "opened s = s\<lparr>sm_channels := fmupd (sm_nextChannel s) \<lparr>ch_buf = [], ch_closed = False\<rparr> (sm_channels s), sm_nextChannel := sm_nextChannel s + 1\<rparr>"

lemma MatchPrefix_request:
  assumes "registry_MatchPrefix req reg = Some (Inr (cache, req1), reg1)"
  shows "req1 = req\<lparr>rq_Cache := Some cache\<rparr>" "\<exists>m m1. manager_MatchPrefix req m = Some ((cache, req1), m1)"
proof -
  obtain m m1 where m: "manager_MatchPrefix req m = Some ((cache, req1), m1)"
    using assms by (auto simp: registry_MatchPrefix_def split: sum.splits bind_splits)
  then show "\<exists>m m1. manager_MatchPrefix req m = Some ((cache, req1), m1)"
    by blast
  show "req1 = req\<lparr>rq_Cache := Some cache\<rparr>"
    using m by (auto simp: manager_MatchPrefix_def Let_def split: bind_splits)
qed

lemma sm_CreateE:
  assumes c: "sm_Create now uuid req s = Some (r, s')"
  obtains (known) err where "fmlookup (sm_requests s) (rq_RequestId req) \<noteq> None" "r = Inl err" "s' = s"
  | (refused) err reg where "fmlookup (sm_requests s) (rq_RequestId req) = None" "r = Inl err" "s' = (opened s)\<lparr>sm_blockRegistry := reg\<rparr>"
  | (filed) e cache req1 reg mx work where "fmlookup (sm_requests s) (rq_RequestId req) = None" "r = Inr work"
      "registry_MatchPrefix (req\<lparr>rq_Phase := RequestPhasePrefillReady, rq_ExecutorID := e\<rparr>) (sm_blockRegistry s) = Some (Inr (cache, req1), reg)"
      "req1 = req\<lparr>rq_Phase := RequestPhasePrefillReady, rq_ExecutorID := e, rq_Cache := Some cache\<rparr>"
      "s' = (opened s)\<lparr>sm_blockRegistry := reg, sm_requests := fmupd (rq_RequestId req) (req1\<lparr>rq_ComputedTokens := pm_CachedTokens cache\<rparr>) (sm_requests s),
         sm_subscribeCh := fmupd (rq_RequestId req) (sm_nextChannel s) (sm_subscribeCh s), sm_activeRequests := sm_activeRequests s + 1, sm_metrics := mx\<rparr>"
      "wk_RequestId work = rq_RequestId req" "slice_from (rq_TokenIDs req) (unat (pm_CachedTokens cache)) = Some (wk_TokenIDs work)"
      "if rq_PromptTokens req \<le> pm_CachedTokens cache then wk_Phase work = WorkPhaseDecode \<and> wk_NumNewTokens work = 1
       else wk_Phase work = WorkPhasePrefill \<and> wk_NumNewTokens work = rq_PromptTokens req - pm_CachedTokens cache"
proof (cases "fmlookup (sm_requests s) (rq_RequestId req)")
  case (Some rq)
  then have "s' = s \<and> (\<exists>err. r = Inl err)"
    using c by (auto simp: sm_Create_def)
  then show thesis
    using known Some by blast
next
  case None
  let ?base = "req\<lparr>rq_Phase := RequestPhasePrefillReady\<rparr>"
  let ?req = "if rq_ExecutorID req = [] then ?base\<lparr>rq_ExecutorID := ExecutorIDs (sm_blockRegistry s) ! 0\<rparr> else ?base"
  show thesis
  proof (cases "rq_ExecutorID req = [] \<and> length (ExecutorIDs (sm_blockRegistry s)) \<noteq> 1")
    case True
    then have "s' = (opened s)\<lparr>sm_blockRegistry := sm_blockRegistry s\<rparr> \<and> (\<exists>err. r = Inl err)"
      using c None by (auto simp: sm_Create_def opened_def Let_def)
    then show thesis
      using refused None by blast
  next
    case False
    have "?base = ?base\<lparr>rq_ExecutorID := rq_ExecutorID req\<rparr>"
      by (cases req) simp
    then obtain e where e: "?req = ?base\<lparr>rq_ExecutorID := e\<rparr>"
      by metis
    obtain res reg where m: "registry_MatchPrefix ?req (sm_blockRegistry s) = Some (res, reg)"
      using c None False
      by (cases "rq_ExecutorID req = []"; cases "registry_MatchPrefix ?req (sm_blockRegistry s)") (auto simp: sm_Create_def Let_def)
    show thesis
    proof (cases res)
      case (Inl err)
      then have "s' = (opened s)\<lparr>sm_blockRegistry := reg\<rparr> \<and> r = Inl err"
        using c None False m by (cases "rq_ExecutorID req = []"; auto simp: sm_Create_def opened_def Let_def)
      then show thesis
        using refused None by blast
    next
      case (Inr x)
      obtain cache req1 where x: "x = (cache, req1)"
        by (cases x)
      have m1: "registry_MatchPrefix ?req (sm_blockRegistry s) = Some (Inr (cache, req1), reg)"
        using m Inr x by simp
      note rq = MatchPrefix_request(1) [OF m1]
      have f: "rq_TokenIDs req1 = rq_TokenIDs req" "rq_PromptTokens req1 = rq_PromptTokens req" "rq_RequestId req1 = rq_RequestId req"
        unfolding rq e by simp_all
      obtain tokens where t: "slice_from (rq_TokenIDs req) (unat (pm_CachedTokens cache)) = Some tokens"
        using c None False m1 f by (cases "rq_ExecutorID req = []"; auto simp: sm_Create_def Let_def split: bind_splits)
      have "(\<exists>work. r = Inr work \<and> wk_RequestId work = rq_RequestId req \<and> wk_TokenIDs work = tokens \<and>
          (if rq_PromptTokens req \<le> pm_CachedTokens cache then wk_Phase work = WorkPhaseDecode \<and> wk_NumNewTokens work = 1
           else wk_Phase work = WorkPhasePrefill \<and> wk_NumNewTokens work = rq_PromptTokens req - pm_CachedTokens cache)) \<and>
        s' = (opened s)\<lparr>sm_blockRegistry := reg, sm_requests := fmupd (rq_RequestId req) (req1\<lparr>rq_ComputedTokens := pm_CachedTokens cache\<rparr>) (sm_requests s),
           sm_subscribeCh := fmupd (rq_RequestId req) (sm_nextChannel s) (sm_subscribeCh s), sm_activeRequests := sm_activeRequests s + 1, sm_metrics := sm_metrics s'\<rparr>"
        using c None False m1 f t
        by (cases "rq_ExecutorID req = []"; auto simp: sm_Create_def opened_def increaseActiveRequestAndCacheHit_def Let_def)
      then show thesis
        using filed [OF None _ m1 [unfolded e]] rq [unfolded e] t by auto
    qed
  qed
qed
text \<open>Filing a request under its executor, whose manager takes up a table for it.\<close>

lemma sm_inv_register:
  assumes inv: "sm_inv s" and new: "fmlookup (sm_requests s) q = None" and m0: "fmlookup (r_managers (sm_blockRegistry s)) e = Some m0"
    and m': "reg_inv (setManager e m' (sm_blockRegistry s))" "m_requestBlocks m' = fmupd q bs (m_requestBlocks m0)"
      "m_pendingAllocations m' = m_pendingAllocations m0"
    and rq: "rq_ExecutorID rq' = e" "request_ok (setManager e m' (sm_blockRegistry s)) q rq'"
    and s': "sm_requests s' = fmupd q rq' (sm_requests s)" "sm_subscribeCh s' = fmupd q (sm_nextChannel s) (sm_subscribeCh s)"
      "sm_channels s' = fmupd (sm_nextChannel s) \<lparr>ch_buf = [], ch_closed = False\<rparr> (sm_channels s)" "sm_nextChannel s' = sm_nextChannel s + 1"
      "sm_blockRegistry s' = setManager e m' (sm_blockRegistry s)" "sm_activeRequests s' = sm_activeRequests s + 1"
  shows "sm_inv s'"
proof -
  let ?reg = "sm_blockRegistry s"
  have "channels_ok s'"
    by (rule channels_ok_new [OF sm_invD(2) [OF inv] s'(1-4)])
  moreover have "tables_live (sm_requests s') (sm_blockRegistry s')"
    unfolding s' tables_live_def
  proof (intro allI impI)
    fix k m p assume em: "fmlookup (r_managers (setManager e m' ?reg)) k = Some m" and own: "has_key (m_requestBlocks m) p \<or> \<not> idle p m"
    show "\<exists>rq. fmlookup (fmupd q rq' (sm_requests s)) p = Some rq \<and> rq_ExecutorID rq = k"
    proof (cases "k = e \<and> p = q")
      case False
      then have "\<exists>m1. fmlookup (r_managers ?reg) k = Some m1 \<and> (has_key (m_requestBlocks m1) p \<or> \<not> idle p m1)"
        using em own m0 m'(2,3) by (cases "k = e") (auto simp: idle_def)
      then obtain rq where "fmlookup (sm_requests s) p = Some rq" "rq_ExecutorID rq = k"
        using sm_invD(3) [OF inv] unfolding tables_live_def by blast
      then show ?thesis
        using new by auto
    qed (use rq(1) in simp)
  qed
  moreover have "request_ok (setManager e m' ?reg) p rq" if "fmlookup (fmupd q rq' (sm_requests s)) p = Some rq" for p rq
    using that sm_invD(4) [OF inv, of p rq] rq(2) by (auto simp: request_ok_def split: if_splits)
  ultimately show ?thesis
    using m'(1) sm_invD(5) [OF inv] map_len_upd [OF new] unfolding sm_inv_def s' by simp
qed

text \<open>The executor of the request is the bound one, and its work item has the tokens after the cached prefix.\<close>

lemma sm_Create_returns:
  fixes req :: Request and s :: state_manager
  defines "e \<equiv> bound_executor req s"
  defines "rq \<equiv> req\<lparr>rq_Phase := RequestPhasePrefillReady, rq_ExecutorID := e\<rparr>"
  assumes new: "fmlookup (sm_requests s) (rq_RequestId req) = None" and bind: "may_bind req s"
    and m: "registry_MatchPrefix rq (sm_blockRegistry s) = Some (Inr (cache, rq\<lparr>rq_Cache := Some cache\<rparr>), reg)"
    and lt: "pm_CachedTokens cache < rq_PromptTokens req" "unat (pm_CachedTokens cache) < length (rq_TokenIDs req)"
  shows "sm_Create now uuid req s = Some (Inr (zero_WorkItem\<lparr>wk_WorkId := uuid, wk_RequestId := rq_RequestId req, wk_ExecutorID := e,
      wk_Phase := WorkPhasePrefill, wk_Deadline := rq_Deadline req, wk_MaxTokens := rq_MaxTokens req, wk_ModelID := rq_ModelID req,
      wk_Cache := Some cache, wk_TokenIDs := drop (unat (pm_CachedTokens cache)) (rq_TokenIDs req),
      wk_TokenCntTotal := of_nat (length (rq_TokenIDs req)), wk_PrefillOffset := pm_CachedTokens cache,
      wk_NumNewTokens := rq_PromptTokens req - pm_CachedTokens cache, wk_ReadyAt := now\<rparr>),
    increaseActiveRequestAndCacheHit (pm_Hit cache) (pm_CachedTokens cache)
      (s\<lparr>sm_channels := fmupd (sm_nextChannel s) \<lparr>ch_buf = [], ch_closed = False\<rparr> (sm_channels s), sm_nextChannel := sm_nextChannel s + 1,
         sm_blockRegistry := reg, sm_requests := fmupd (rq_RequestId req) (rq\<lparr>rq_Cache := Some cache, rq_ComputedTokens := pm_CachedTokens cache\<rparr>) (sm_requests s),
         sm_subscribeCh := fmupd (rq_RequestId req) (sm_nextChannel s) (sm_subscribeCh s)\<rparr>))"
proof (cases "rq_ExecutorID req = []")
  case True
  then show ?thesis
    using new bind m lt by (simp add: sm_Create_def Let_def may_bind_def e_def rq_def bound_executor_def panic_simps not_le)
next
  case False
  then have e: "e = rq_ExecutorID req"
    by (simp add: e_def bound_executor_def)
  have rq: "rq = req\<lparr>rq_Phase := RequestPhasePrefillReady\<rparr>"
    unfolding rq_def e by (cases req) simp
  show ?thesis
    using new False m lt unfolding rq by (simp add: sm_Create_def Let_def e panic_simps not_le)
qed

lemma sm_Create_ok:
  assumes inv: "sm_inv s" and new: "fmlookup (sm_requests s) (rq_RequestId req) = None" and bind: "may_bind req s"
    and room: "match_room req s" and prompt: "rq_PromptTokens req = of_nat (length (rq_TokenIDs req))" "rq_TokenIDs req \<noteq> []"
  defines "q \<equiv> rq_RequestId req" and "e \<equiv> bound_executor req s"
  shows "\<exists>work s' cache m. sm_Create now uuid req s = Some (Inr work, s') \<and> sm_inv s' \<and>
     sm_requests s' = fmupd q (req\<lparr>rq_Phase := RequestPhasePrefillReady, rq_ExecutorID := e, rq_Cache := Some cache,
       rq_ComputedTokens := pm_CachedTokens cache\<rparr>) (sm_requests s) \<and>
     sm_subscribeCh s' = fmupd q (sm_nextChannel s) (sm_subscribeCh s) \<and>
     fmlookup (sm_channels s') (sm_nextChannel s) = Some \<lparr>ch_buf = [], ch_closed = False\<rparr> \<and>
     fmlookup (r_managers (sm_blockRegistry s')) e = Some m \<and> fmlookup (m_requestBlocks m) q = Some (pm_BlockIDs cache) \<and>
     unat (pm_CachedTokens cache) < length (rq_TokenIDs req) \<and>
     wk_WorkId work = uuid \<and> wk_RequestId work = q \<and> wk_ExecutorID work = e \<and> wk_Phase work = WorkPhasePrefill \<and>
     wk_Cache work = Some cache \<and> wk_PrefillOffset work = pm_CachedTokens cache \<and>
     wk_TokenIDs work = drop (unat (pm_CachedTokens cache)) (rq_TokenIDs req) \<and>
     unat (wk_NumNewTokens work) = length (wk_TokenIDs work) \<and>
     wk_TokenCntTotal work = of_nat (length (rq_TokenIDs req))"
proof -
  let ?reg = "sm_blockRegistry s" and ?c = "sm_nextChannel s" and ?n = "length (rq_TokenIDs req)"
  let ?rq = "req\<lparr>rq_Phase := RequestPhasePrefillReady, rq_ExecutorID := e\<rparr>"
  obtain m0 where m0: "fmlookup (r_managers ?reg) e = Some m0"
    using bind by (auto simp: may_bind_def e_def)
  note g = not_live_gone [OF inv new]
  then have "fmlookup (m_requestBlocks m0) q = None" "idle q m0"
    using m0 by (auto simp: gone_def q_def)
  then have "may_match ?rq ?reg"
    using room m0 by (simp add: may_match_def match_room_def requestBlocksOf_def q_def)
  then obtain cache m' where mt: "registry_MatchPrefix ?rq ?reg = Some (Inr (cache, ?rq\<lparr>rq_Cache := Some cache\<rparr>), setManager e m' ?reg)"
      "reg_inv (setManager e m' ?reg)" "m_requestBlocks m' = fmupd q (pm_BlockIDs cache) (m_requestBlocks m0)"
      "m_pendingAllocations m' = m_pendingAllocations m0" "unat (pm_CachedTokens cache) < ?n"
    using registry_MatchPrefix_spec [OF sm_invD(1) [OF inv], of ?rq m0] m0 prompt(2) by (auto simp: q_def)
  let ?rq' = "?rq\<lparr>rq_Cache := Some cache, rq_ComputedTokens := pm_CachedTokens cache\<rparr>"
  let ?s1 = "s\<lparr>sm_channels := fmupd ?c \<lparr>ch_buf = [], ch_closed = False\<rparr> (sm_channels s), sm_nextChannel := ?c + 1,
      sm_blockRegistry := setManager e m' ?reg, sm_requests := fmupd q ?rq' (sm_requests s),
      sm_subscribeCh := fmupd q ?c (sm_subscribeCh s)\<rparr>"
  let ?s' = "increaseActiveRequestAndCacheHit (pm_Hit cache) (pm_CachedTokens cache) ?s1"
  let ?work = "zero_WorkItem\<lparr>wk_WorkId := uuid, wk_RequestId := q, wk_ExecutorID := e, wk_Phase := WorkPhasePrefill,
      wk_Deadline := rq_Deadline req, wk_MaxTokens := rq_MaxTokens req, wk_ModelID := rq_ModelID req, wk_Cache := Some cache,
      wk_TokenIDs := drop (unat (pm_CachedTokens cache)) (rq_TokenIDs req), wk_TokenCntTotal := of_nat ?n,
      wk_PrefillOffset := pm_CachedTokens cache, wk_NumNewTokens := rq_PromptTokens req - pm_CachedTokens cache, wk_ReadyAt := now\<rparr>"
  have n: "?n < 2 ^ 32"
    using room by (simp add: match_room_def)
  then have pn: "unat (rq_PromptTokens req) = ?n"
    using prompt(1) unat_of_nat_u32 by simp
  then have lt: "pm_CachedTokens cache < rq_PromptTokens req"
    using mt(5) by (simp add: word_less_nat_alt)
  then have nn: "unat (rq_PromptTokens req - pm_CachedTokens cache) = ?n - unat (pm_CachedTokens cache)"
    using pn by (simp add: unat_sub less_imp_le)
  have fields: "sm_requests ?s' = fmupd q ?rq' (sm_requests s)" "sm_subscribeCh ?s' = fmupd q ?c (sm_subscribeCh s)"
      "sm_channels ?s' = fmupd ?c \<lparr>ch_buf = [], ch_closed = False\<rparr> (sm_channels s)" "sm_nextChannel ?s' = ?c + 1" "sm_blockRegistry ?s' = setManager e m' ?reg"
      "sm_activeRequests ?s' = sm_activeRequests s + 1"
    by (simp_all add: increaseActiveRequestAndCacheHit_def Let_def)
  have "sm_inv ?s'"
    by (rule sm_inv_register [OF inv new [folded q_def] m0 mt(2,3,4) _ _ fields]) (simp_all add: request_ok_def q_def)
  moreover have "sm_Create now uuid req s = Some (Inr ?work, ?s')"
    using sm_Create_returns [OF new bind mt(1) [unfolded e_def] lt mt(5)] by (simp add: e_def q_def)
  ultimately show ?thesis
    using mt nn fields by (intro exI [of _ ?work] exI [of _ ?s'] exI [of _ cache] exI [of _ m']) simp
qed

subsection \<open>Executor events\<close>

lemma applyEvent_keeps:
  assumes "applyEvent now uuid e rq = Some (rq', e', items)"
  shows "rq_RequestId rq' = rq_RequestId rq" "rq_ExecutorID rq' = rq_ExecutorID rq" "rq_Cache rq' = rq_Cache rq"
    "rq_PromptTokens rq' = rq_PromptTokens rq" "ev_RequestId e' = ev_RequestId e" "ev_ExecutorId e' = ev_ExecutorId e"
    "ev_Type e' = ev_Type e" "ev_WorkId e' = ev_WorkId e"
  using assms by (auto simp: applyEvent_def onPrefillChunk_def onPrefillFinished_def onDecodeChunk_def Let_def
      split: EventType.splits if_splits bind_splits)

text \<open>The only event that can panic is a prefill chunk that reports more tokens than the prompt has.\<close>

lemma applyEvent_None_iff:
  "applyEvent now uuid e rq = None \<longleftrightarrow> ev_Type e = EventTypePrefillChunk \<and>
     (unat (rq_PromptTokens rq) < unat (rq_ComputedTokens rq + us_InputTokens (ev_Usage e)) \<or>
      length (rq_TokenIDs rq) < unat (rq_PromptTokens rq))"
proof (cases "ev_Type e = EventTypePrefillChunk")
  case True
  then show ?thesis
    by (simp add: applyEvent_def onPrefillChunk_def Let_def bind_eq_None_conv slice_None_iff)
next
  case False
  then show ?thesis
    by (cases "ev_Type e") (simp_all add: applyEvent_def onPrefillFinished_def onDecodeChunk_def Let_def)
qed

lemma sm_OnEvent_unknown:
  "fmlookup (sm_requests s) (ev_RequestId e) = None \<Longrightarrow> sm_OnEvent now uuid e s = Some (([], e), s)"
  by (simp add: sm_OnEvent_def onEventLocked_def)

lemma sm_inv_request:
  assumes inv: "sm_inv s" and q: "fmlookup (sm_requests s) q = Some rq"
    and rq': "rq_RequestId rq' = rq_RequestId rq" "rq_ExecutorID rq' = rq_ExecutorID rq" "rq_Cache rq' = rq_Cache rq"
  shows "sm_inv (s\<lparr>sm_requests := fmupd q rq' (sm_requests s)\<rparr>)"
proof -
  let ?s' = "s\<lparr>sm_requests := fmupd q rq' (sm_requests s)\<rparr>"
  have "channels_ok ?s'"
    using sm_invD(2) [OF inv] q by (auto simp: channels_ok_def)
  moreover have "tables_live (sm_requests ?s') (sm_blockRegistry s)"
    unfolding tables_live_def
  proof (intro allI impI)
    fix e m p assume "fmlookup (r_managers (sm_blockRegistry s)) e = Some m" "has_key (m_requestBlocks m) p \<or> \<not> idle p m"
    then obtain r where "fmlookup (sm_requests s) p = Some r" "rq_ExecutorID r = e"
      using sm_invD(3) [OF inv] unfolding tables_live_def by blast
    then show "\<exists>r. fmlookup (sm_requests ?s') p = Some r \<and> rq_ExecutorID r = e"
      using q rq'(2) by (cases "p = q") auto
  qed
  moreover have "request_ok (sm_blockRegistry s) p r" if "fmlookup (fmupd q rq' (sm_requests s)) p = Some r" for p r
    using that sm_invD(4) [OF inv, of p r] sm_invD(4) [OF inv q] rq' by (auto simp: request_ok_def split: if_splits)
  ultimately show ?thesis
    using sm_invD(1,5) [OF inv] map_len_replace [OF q] by (simp add: sm_inv_def)
qed

lemma sm_OnEvent_spec:
  assumes inv: "sm_inv s" and q: "fmlookup (sm_requests s) (ev_RequestId e) = Some rq"
    and app: "applyEvent now uuid e rq = Some (rq', e', items)" and room: "sub_room (ev_RequestId e) s"
  shows "\<exists>s' c ch. sm_OnEvent now uuid e s = Some ((items, e'), s') \<and> sm_inv s' \<and>
     sm_requests s' = fmupd (ev_RequestId e) rq' (sm_requests s) \<and>
     fmlookup (sm_subscribeCh s) (ev_RequestId e) = Some c \<and> fmlookup (sm_channels s) c = Some ch \<and>
     sm_channels s' = fmupd c (ch\<lparr>ch_buf := ch_buf ch @ [e']\<rparr>) (sm_channels s) \<and>
     sm_subscribeCh s' = sm_subscribeCh s \<and> sm_blockRegistry s' = sm_blockRegistry s \<and> sm_metrics s' = sm_metrics s"
proof -
  let ?s1 = "s\<lparr>sm_requests := fmupd (ev_RequestId e) rq' (sm_requests s)\<rparr>"
  note k = applyEvent_keeps [OF app]
  have i1: "sm_inv ?s1"
    by (rule sm_inv_request [OF inv q k(1-3)])
  obtain c where c: "fmlookup (sm_subscribeCh s) (ev_RequestId e) = Some c"
    using sm_invD(2) [OF inv] q unfolding channels_ok_def by (metis option.exhaust_sel option.distinct(1))
  obtain ch where ch: "fmlookup (sm_channels s) c = Some ch" "\<not> ch_closed ch" "length (ch_buf ch) < chan_cap"
    using room c by (auto simp: sub_room_def chan_room_def)
  then obtain s' where s': "chan_send c e' ?s1 = Some s'" "chan_frame ?s1 s'"
      "sm_channels s' = fmupd c (ch\<lparr>ch_buf := ch_buf ch @ [e']\<rparr>) (sm_channels ?s1)"
    using chan_send_ok [of ?s1 c ch e'] by auto
  have "sm_inv s'"
    by (rule sm_inv_channel [OF i1 s'(2,3)]) (use ch in simp_all)
  moreover have "sm_OnEvent now uuid e s = Some ((items, e'), s')"
    using q app c s'(1) k(5) by (simp add: sm_OnEvent_def onEventLocked_def)
  ultimately show ?thesis
    using c ch s' by (auto simp: chan_frame_def)
qed

end
