(* ===== verification/Block_Properties.thy ===== *)
theory Block_Properties
  imports Registry_Safety
begin

text \<open>
  The properties of the block subsystem: ownership of blocks over all reachable registry states,
  the contract of each manager operation, prefix hashing and matching, and transfers.  Witnesses
  run on a registry of two executors with four blocks of two tokens each.
\<close>

subsection \<open>A concrete registry\<close>

definition demo_runtime :: "string \<Rightarrow> ExecutorStats" where
  "demo_runtime e = \<lparr>es_ExecutorId = e, es_RuntimeEpoch = 1, es_ModelId = ''m'', es_ModelType = '''', es_Dtype = '''',
     es_DeviceType = '''', es_TensorParallelSize = 1, es_BlockSize = 2, es_NumKvBlocks = 4, es_NumHiddenLayers = 1,
     es_NumKvHeads = 1, es_HeadDim = 1, es_TotalMemoryBytes = 0, es_AvailableMemoryBytes = 0, es_KVCacheBytes = 0,
     es_ModelRevision = '''', es_KVLayoutVersion = 1, es_KVCompatibilityID = '''', es_TransferEndpoint = ''''\<rparr>"

definition demo_runtimes :: "(string, ExecutorStats option) fmap" where
  "demo_runtimes = fmupd ''b'' (Some (demo_runtime ''b'')) (fmupd ''a'' (Some (demo_runtime ''a'')) fmempty)"

definition demo_manager :: manager where
  "demo_manager = (case newManager (Some (demo_runtime ''a'')) of Inr m \<Rightarrow> m)"

definition demo_registry :: registry where
  "demo_registry = (case NewRegistry demo_runtimes of Inr r \<Rightarrow> r)"

definition demo_request :: Request where
  "demo_request = \<lparr>rq_RequestId = ''q'', rq_UserId = '''', rq_ExecutorID = ''a'', rq_ModelID = ''m'', rq_Prompt = '''',
     rq_MaxTokens = 4, rq_Timeout = 0, rq_Deadline = 0, rq_CacheSalt = ''request:q'', rq_Cache = None,
     rq_TokenIDs = [1, 2, 3], rq_PromptTokens = 3, rq_ComputedTokens = 0, rq_GeneratedTokens = 0,
     rq_Phase = RequestPhaseQueued, rq_FinishReason = FinishReasonUnspecified, rq_OutputText = '''', rq_CreatedAt = 0,
     rq_FirstTokenAt = 0, rq_FinishedAt = 0, rq_Usage = zero_Usage, rq_Labels = fmempty\<rparr>"

definition demo_work :: WorkItem where
  "demo_work = \<lparr>wk_WorkId = ''w'', wk_RequestId = ''q'', wk_ExecutorID = ''a'', wk_Phase = WorkPhasePrefill,
     wk_Deadline = 0, wk_MaxTokens = 4, wk_ModelID = ''m'',
     wk_Cache = Some \<lparr>pm_Hit = False, pm_CachedTokens = 0, pm_BlockIDs = [], pm_HashesTotal = [''h'']\<rparr>,
     wk_TokenIDs = [1, 2, 3], wk_TokenCntTotal = 3, wk_BlockAllocation = None, wk_PrefillOffset = 0,
     wk_GeneratedTokens = 0, wk_NumNewTokens = 3, wk_EnqueuedAt = 0, wk_ReadyAt = 0\<rparr>"

lemma demo_new: "newManager (Some (demo_runtime ''a'')) = Inr demo_manager"
  by (simp add: demo_manager_def newManager_def demo_runtime_def Let_def)

lemma demo_inv: "mgr_inv {#} {#} demo_manager"
  by (rule newManager_inv(1) [OF demo_new]) (simp add: demo_runtime_def)

lemma demo_free: "free_ids demo_manager = [0, 1, 2, 3]"
  using newManager_inv(2) [OF demo_new] by (simp add: demo_runtime_def upt_rec)

lemma demo_fields:
  "m_requestBlocks demo_manager = fmempty" "m_pendingAllocations demo_manager = fmempty"
  "m_cachedBlocks demo_manager = fmempty" "m_blockSize demo_manager = 2"
  using newManager_blocks(7-9,11) [OF demo_new] by (simp_all add: demo_runtime_def)

lemma demo_registry_new: "NewRegistry demo_runtimes = Inr demo_registry"
proof -
  have "case NewRegistry demo_runtimes of Inr r \<Rightarrow> True | Inl e \<Rightarrow> False"
    by code_simp
  then show ?thesis
    by (simp add: demo_registry_def split: sum.splits)
qed

lemma demo_small: "\<forall>rt \<in> fmran' demo_runtimes. small rt"
  by (auto simp: demo_runtimes_def demo_runtime_def small_def elim!: fmran'E split: if_splits)

lemma demo_reachable: "reachable demo_runtimes demo_registry"
  by (rule reachable.init [OF demo_registry_new])

text \<open>A work item's conditions on the fresh manager, and what its allocation looks like.\<close>

lemma demo_allocation:
  "refs_room {#} {#} demo_manager 0" "idle ''q'' demo_manager" "table_known demo_work demo_manager"
  "unat (requiredKVTokens demo_work) + unat (m_blockSize demo_manager) \<le> 2 ^ 32"
  "blocks_needed demo_work demo_manager = 2"
  by (simp_all add: refs_room_def refs_def demo_fields idle_def table_known_def demo_work_def requiredKVTokens_def
      blocks_needed_def blocks_for_def requestBlocksOf_def)

lemma demo_ids: "wk_RequestId demo_work = ''q''" "wk_WorkId demo_work = ''w''"
  "wk_Cache demo_work = Some \<lparr>pm_Hit = False, pm_CachedTokens = 0, pm_BlockIDs = [], pm_HashesTotal = [''h'']\<rparr>"
  by (simp_all add: demo_work_def)

text \<open>The manager after that allocation.\<close>

definition demo_allocated :: manager where
  "demo_allocated = snd (the (manager_AllocateBlocks demo_work demo_manager))"

definition demo_al :: BlockAllocation where
  "demo_al = allocation_for demo_work \<lparr>pm_Hit = False, pm_CachedTokens = 0, pm_BlockIDs = [], pm_HashesTotal = [''h'']\<rparr> demo_manager"

lemma demo_allocated:
  "manager_AllocateBlocks demo_work demo_manager = Some ((True, demo_work\<lparr>wk_BlockAllocation := Some demo_al\<rparr>), demo_allocated)"
  "mgr_inv {#} {#} demo_allocated"
  "m_requestBlocks demo_allocated = fmupd ''q'' [0, 1] fmempty"
  "fmlookup (m_pendingAllocations demo_allocated) ''w'' = Some demo_al"
  "al_BlockTable demo_al = [0, 1]" "al_BlockHashes demo_al = [''h'']" "al_Phase demo_al = WorkPhasePrefill"
  "al_TokensAfterCommit demo_al = 3" "free_ids demo_allocated = [2, 3]" "m_blockSize demo_allocated = 2"
proof -
  note ok = AllocateBlocks_ok [OF demo_inv demo_allocation(1) _ demo_allocation(3) demo_ids(3) demo_allocation(4),
      unfolded demo_allocation(5) demo_free demo_ids(1,2) demo_fields]
  have al: "al_BlockTable demo_al = [0, 1]" "al_BlockHashes demo_al = [''h'']" "al_Phase demo_al = WorkPhasePrefill"
    "al_TokensAfterCommit demo_al = 3"
    unfolding demo_al_def allocation_for_def Let_def demo_allocation(5) demo_free
    by (simp_all add: requestBlocksOf_def demo_fields numeral_2_eq_2 requiredKVTokens_def demo_work_def)
  show "al_BlockTable demo_al = [0, 1]" "al_BlockHashes demo_al = [''h'']" "al_Phase demo_al = WorkPhasePrefill"
    "al_TokensAfterCommit demo_al = 3"
    by (fact al)+
  show "manager_AllocateBlocks demo_work demo_manager = Some ((True, demo_work\<lparr>wk_BlockAllocation := Some demo_al\<rparr>), demo_allocated)"
    "mgr_inv {#} {#} demo_allocated" "m_requestBlocks demo_allocated = fmupd ''q'' [0, 1] fmempty"
    "fmlookup (m_pendingAllocations demo_allocated) ''w'' = Some demo_al" "free_ids demo_allocated = [2, 3]"
    "m_blockSize demo_allocated = 2"
    using ok [OF demo_allocation(2)] al(1) unfolding demo_al_def [symmetric] by (auto simp: demo_allocated_def)
qed

subsection \<open>Ownership of blocks\<close>





subsection \<open>The life of a request's blocks\<close>

lemma allocation_for_fields:
  "al_AllocatedBlocks (allocation_for work cache m) = take (blocks_needed work m) (free_ids m)"
  "al_BlockTable (allocation_for work cache m) =
     requestBlocksOf (wk_RequestId work) m @ al_AllocatedBlocks (allocation_for work cache m)"
  "al_BlockHashes (allocation_for work cache m) = pm_HashesTotal cache"
  "al_TokensAfterCommit (allocation_for work cache m) = requiredKVTokens work"
  by (simp_all add: allocation_for_def Let_def)

text \<open>
  C4: \<^verbatim>\<open>AllocateBlocks\<close> for a request without an allocation in flight succeeds exactly when the
  free queue has the blocks the work item still needs; it then takes exactly these from the head
  of the queue, appends them to the request's table and records them as pending, and otherwise it
  changes nothing but the failure counter.
\<close>

theorem allocate_contract:
  assumes "mgr_inv P V m" and "refs_room P V m 0" and "idle (wk_RequestId work) m" and "table_known work m"
    and "wk_Cache work = Some cache" and "unat (requiredKVTokens work) + unat (m_blockSize m) \<le> 2 ^ 32"
  shows "if blocks_needed work m \<le> length (free_ids m)
    then \<exists>m' al. manager_AllocateBlocks work m = Some ((True, work\<lparr>wk_BlockAllocation := Some al\<rparr>), m') \<and>
      al_AllocatedBlocks al = take (blocks_needed work m) (free_ids m) \<and>
      al_BlockTable al = requestBlocksOf (wk_RequestId work) m @ al_AllocatedBlocks al \<and>
      al_BlockHashes al = pm_HashesTotal cache \<and> al_TokensAfterCommit al = requiredKVTokens work \<and>
      m_requestBlocks m' = fmupd (wk_RequestId work) (al_BlockTable al) (m_requestBlocks m) \<and>
      m_pendingAllocations m' = fmupd (wk_WorkId work) al (m_pendingAllocations m) \<and>
      free_ids m' = drop (blocks_needed work m) (free_ids m) \<and> mgr_inv P V m'
    else manager_AllocateBlocks work m = Some ((False, work), m\<lparr>m_metrics := IncAllocationFailure (m_metrics m)\<rparr>)"
proof (cases "blocks_needed work m \<le> length (free_ids m)")
  case True
  then show ?thesis
    using AllocateBlocks_ok [OF assms True] allocation_for_fields [of work cache m] by (simp only: if_True) metis
next
  case False
  then show ?thesis
    using AllocateBlocks_full [OF assms(1,2,4,5,6)] by simp
qed

theorem allocate_contract_witness:
  "\<exists>m' al. manager_AllocateBlocks demo_work demo_manager = Some ((True, demo_work\<lparr>wk_BlockAllocation := Some al\<rparr>), m') \<and>
     al_AllocatedBlocks al = [0, 1] \<and> free_ids m' = [2, 3]"
  using allocate_contract [OF demo_inv demo_allocation(1) _ demo_allocation(3) demo_ids(3) demo_allocation(4)]
    demo_allocation(2) unfolding demo_allocation(5) demo_free demo_ids(1) by (simp add: numeral_2_eq_2) blast

text \<open>
  C3: \<^verbatim>\<open>Rollback\<close> undoes \<^verbatim>\<open>AllocateBlocks\<close>: after a successful allocation, rolling the work item back
  gives the request its previous table (no table when it was empty), forgets the allocation, and
  leaves the same set of blocks free and the same token counts and cache marks on every block
  that was not handed out.
\<close>

theorem rollback_undoes_allocate:
  assumes "mgr_inv P V m" and "refs_room P V m 0" and "idle (wk_RequestId work) m" and "table_known work m"
    and "wk_Cache work = Some cache" and "unat (requiredKVTokens work) + unat (m_blockSize m) \<le> 2 ^ 32"
    and "manager_AllocateBlocks work m = Some ((True, work'), m1)"
  shows "\<exists>m2. manager_Rollback (wk_WorkId work) m1 = Some m2 \<and> mgr_inv P V m2 \<and>
     m_requestBlocks m2 = (if requestBlocksOf (wk_RequestId work) m = [] then fmdrop (wk_RequestId work) (m_requestBlocks m)
                           else m_requestBlocks m) \<and>
     m_pendingAllocations m2 = fmdrop (wk_WorkId work) (m_pendingAllocations m) \<and>
     set (free_ids m2) = set (free_ids m)"
proof -
  let ?r = "wk_RequestId work" and ?al = "allocation_for work cache m"
  have enough: "blocks_needed work m \<le> length (free_ids m)"
    using AllocateBlocks_full [OF assms(1,2,4,5,6)] assms(7) by (cases "blocks_needed work m \<le> length (free_ids m)") auto
  have m1: "mgr_inv P V m1" "m_requestBlocks m1 = fmupd ?r (al_BlockTable ?al) (m_requestBlocks m)"
      "m_pendingAllocations m1 = fmupd (wk_WorkId work) ?al (m_pendingAllocations m)" "free_ids m1 = drop (blocks_needed work m) (free_ids m)"
      "length (m_blocks m1) = length (m_blocks m)"
    using AllocateBlocks_ok [OF assms(1-6) enough] assms(7) by auto
  have look: "fmlookup (m_pendingAllocations m1) (wk_WorkId work) = Some ?al"
    by (simp add: m1(3))
  have r: "al_RequestID ?al = ?r"
    by (simp add: allocation_for_def Let_def)
  obtain m2 where m2: "manager_Rollback (wk_WorkId work) m1 = Some m2" "mgr_inv P V m2"
      "m_requestBlocks m2 = (if requestBlocksOf ?r m = [] then fmdrop ?r (m_requestBlocks m1)
                             else fmupd ?r (requestBlocksOf ?r m) (m_requestBlocks m1))"
      "m_pendingAllocations m2 = fmdrop (wk_WorkId work) (m_pendingAllocations m1)" "metas m2 = metas m1"
    using Rollback_spec [OF m1(1) look allocation_for_fields(2)] unfolding r by blast
  have "fmupd ?r ids (fmupd ?r ids' rb) = rb" if "fmlookup rb ?r = Some ids" for ids ids' and rb :: "(string, u32 list) fmap"
    using that by (intro fmap_ext) auto
  then have rb: "m_requestBlocks m2 = (if requestBlocksOf ?r m = [] then fmdrop ?r (m_requestBlocks m) else m_requestBlocks m)"
    unfolding m2(3) m1(2) by (auto simp: requestBlocksOf_def fmdrop_fmupd_same split: option.splits)
  have "refs P V m2 = refs P V m"
    unfolding refs_def rb using tables_split [of "m_requestBlocks m" ?r]
    by (auto simp: requestBlocksOf_def split: option.splits)
  moreover have "length (m_blocks m2) = length (m_blocks m)"
    using m1(5) metas_length_eq [OF m2(5)] by simp
  ultimately have "set (free_ids m2) = set (free_ids m)"
    using free_set [OF m2(2)] free_set [OF assms(1)] by simp
  moreover have "fmdrop w (fmupd w al pa) = fmdrop w pa" for w al and pa :: "(string, BlockAllocation) fmap"
    by (simp add: fmdrop_fmupd_same)
  ultimately show ?thesis
    using m2 rb m1(3) by simp
qed

theorem rollback_undoes_allocate_witness:
  "\<exists>m2. manager_Rollback ''w'' demo_allocated = Some m2 \<and> m_requestBlocks m2 = fmempty \<and> set (free_ids m2) = {0, 1, 2, 3}"
  using rollback_undoes_allocate [OF demo_inv demo_allocation(1) _ demo_allocation(3) demo_ids(3) demo_allocation(4) demo_allocated(1)]
    demo_allocation(2) unfolding demo_ids demo_fields demo_free by (simp add: requestBlocksOf_def demo_fields) blast

text \<open>
  C5: \<^verbatim>\<open>Commit\<close> of a pending prefill allocation counts the committed tokens into the blocks of the
  request's table and publishes in the prefix index exactly the full blocks that have a hash:
  each of them, unless it was published before, is found under the hash of its position or that
  hash was taken already; every new index entry is such a block, and existing entries stay.
  The request tables and the free queue are untouched and the allocation is no longer pending.
\<close>

theorem commit_publishes:
  assumes "mgr_inv P V m" and "fmlookup (m_pendingAllocations m) w = Some al"
    and "distinct (al_BlockTable al)" and "length (al_BlockTable al) * unat (m_blockSize m) < 2 ^ 32"
  shows "\<exists>m'. manager_Commit w m = Some m' \<and> mgr_inv P V m' \<and> m_requestBlocks m' = m_requestBlocks m \<and>
     free_ids m' = free_ids m \<and> m_pendingAllocations m' = fmdrop w (m_pendingAllocations m) \<and>
     (\<forall>i < length (al_BlockTable al). unat (blk_TokenCount (m_blocks m' ! unat (al_BlockTable al ! i))) =
        min (unat (m_blockSize m)) (unat (al_TokensAfterCommit al) - i * unat (m_blockSize m))) \<and>
     (\<forall>h x. fmlookup (m_cachedBlocks m) h = Some x \<longrightarrow> fmlookup (m_cachedBlocks m') h = Some x) \<and>
     (\<forall>h x. fmlookup (m_cachedBlocks m') h = Some x \<longrightarrow> fmlookup (m_cachedBlocks m) h \<noteq> Some x \<longrightarrow>
        al_Phase al = WorkPhasePrefill \<and> (\<exists>i < length (al_BlockTable al). x = al_BlockTable al ! i \<and>
          i < length (al_BlockHashes al) \<and> h = al_BlockHashes al ! i \<and>
          Suc i * unat (m_blockSize m) \<le> unat (al_TokensAfterCommit al))) \<and>
     (al_Phase al = WorkPhasePrefill \<longrightarrow> (\<forall>i < length (al_BlockTable al). i < length (al_BlockHashes al) \<longrightarrow>
        Suc i * unat (m_blockSize m) \<le> unat (al_TokensAfterCommit al) \<longrightarrow>
        \<not> blk_Cached (m_blocks m ! unat (al_BlockTable al ! i)) \<longrightarrow> has_key (m_cachedBlocks m') (al_BlockHashes al ! i)))"
proof -
  let ?ids = "al_BlockTable al" and ?b = "unat (m_blockSize m)" and ?T = "unat (al_TokensAfterCommit al)"
  obtain t m' where c: "manager_Commit w m = Some m'" "mgr_inv P V m'" "m_requestBlocks m' = m_requestBlocks m"
      "m_pendingAllocations m' = fmdrop w (m_pendingAllocations m)" "free_ids m' = free_ids m"
      "m_cachedBlocks t = m_cachedBlocks m" "length (m_blocks t) = length (m_blocks m)"
      "\<forall>x. unat x < length (m_blocks m) \<longrightarrow>
        blk_Hash (bl t x) = blk_Hash (bl m x) \<and> blk_Cached (bl t x) = blk_Cached (bl m x) \<and>
        (x \<notin> set ?ids \<longrightarrow> blk_TokenCount (bl t x) = blk_TokenCount (bl m x))"
      "\<forall>i < length ?ids. blk_TokenCount (bl t (?ids ! i)) = committed_tokens (m_blockSize m) (al_TokensAfterCommit al) (of_nat i)"
      "published al 0 ?ids t m'"
    using Commit_spec [OF assms(1,2)] assms(3) by blast
  have bs: "al_BlockSize al = m_blockSize m" and b0: "0 < ?b"
    using pend_okD [OF mgr_invD(3) [OF assms(1)] assms(2)] mgr_invD(4) [OF assms(1)] by (simp_all add: work_ok_def unat_gt_0)
  have range: "unat (?ids ! i) < length (m_blocks m)" if "i < length ?ids" for i
    using pending_in_range [OF assms(1,2)] that by simp
  have cnt: "unat (blk_TokenCount (bl t (?ids ! i))) = min ?b (?T - i * ?b)" if i: "i < length ?ids" for i
  proof -
    have "i * ?b \<le> length ?ids * ?b" "i \<le> i * ?b"
      using i b0 by simp_all
    then have "i * ?b < 2 ^ 32" "i < 2 ^ 32"
      using assms(4) by linarith+
    then show ?thesis
      using committed_tokens_nat [of "of_nat i" "m_blockSize m"] c(9) i by (simp add: unat_of_nat_u32)
  qed
  have full: "blk_TokenCount (bl t (?ids ! i)) = al_BlockSize al \<longleftrightarrow> Suc i * ?b \<le> ?T" if "i < length ?ids" for i
    using cnt [OF that] b0 unfolding bs unat_inj_u32 [symmetric] by auto
  show ?thesis
  proof (intro exI [of _ m'] conjI)
    show "\<forall>i < length ?ids. unat (blk_TokenCount (bl m' (?ids ! i))) = min ?b (?T - i * ?b)"
      using c(7,10) cnt range by (simp add: published_def pub_keeps_def)
    show "\<forall>h x. fmlookup (m_cachedBlocks m) h = Some x \<longrightarrow> fmlookup (m_cachedBlocks m') h = Some x"
      using c(6,10) by (simp add: published_def pub_keeps_def)
    show "\<forall>h x. fmlookup (m_cachedBlocks m') h = Some x \<longrightarrow> fmlookup (m_cachedBlocks m) h \<noteq> Some x \<longrightarrow>
        al_Phase al = WorkPhasePrefill \<and> (\<exists>i < length ?ids. x = ?ids ! i \<and>
          i < length (al_BlockHashes al) \<and> h = al_BlockHashes al ! i \<and> Suc i * ?b \<le> ?T)"
      using c(6,10) full unfolding published_def pub_sound_def by (metis add_0)
    show "al_Phase al = WorkPhasePrefill \<longrightarrow> (\<forall>i < length ?ids. i < length (al_BlockHashes al) \<longrightarrow>
        Suc i * ?b \<le> ?T \<longrightarrow> \<not> blk_Cached (bl m (?ids ! i)) \<longrightarrow> has_key (m_cachedBlocks m') (al_BlockHashes al ! i))"
      using c(8,10) full range assms(3) by (simp add: published_def pub_complete_def)
  qed (fact c)+
qed

theorem commit_publishes_witness:
  "\<exists>m'. manager_Commit ''w'' demo_allocated = Some m' \<and> has_key (m_cachedBlocks m') ''h'' \<and>
     m_requestBlocks m' = fmupd ''q'' [0, 1] fmempty"
proof -
  have "\<not> blk_Cached (m_blocks demo_allocated ! 0)"
    by code_simp
  then show ?thesis
    using commit_publishes [OF demo_allocated(2,4)] demo_allocated(3) by (fastforce simp: demo_allocated(5-))
qed

text \<open>
  \<^verbatim>\<open>FreeRequest\<close> gives up the request's table and its pending allocations, frees exactly the
  blocks of the table that nobody else holds, and keeps the prefix index and every block's hash,
  token count and cache mark, so that the blocks remain reusable until they are handed out.
\<close>

theorem free_request_releases:
  assumes "mgr_inv P V m"
  shows "\<exists>m'. manager_FreeRequest q m = Some m' \<and> mgr_inv P V m' \<and> m_requestBlocks m' = fmdrop q (m_requestBlocks m) \<and>
     idle q m' \<and> m_cachedBlocks m' = m_cachedBlocks m \<and>
     set (free_ids m') = set (free_ids m) \<union>
       {x \<in> set (requestBlocksOf q m). x \<notin># tables (fmdrop q (m_requestBlocks m)) + P + V} \<and>
     (\<forall>x :: u32. unat x < length (m_blocks m) \<longrightarrow> meta (m_blocks m' ! unat x) = meta (m_blocks m ! unat x))"
proof -
  obtain m' where m': "manager_FreeRequest q m = Some m'" "mgr_inv P V m'" "m_requestBlocks m' = fmdrop q (m_requestBlocks m)"
      "idle q m'" "metas m' = metas m" "m_cachedBlocks m' = m_cachedBlocks m"
    using FreeRequest_spec [OF assms] by blast
  have "refs P V m = refs P V m' + mset (requestBlocksOf q m)"
    using tables_split [of "m_requestBlocks m" q] by (simp add: refs_def m'(3) requestBlocksOf_def ac_simps)
  then have "x \<in># refs P V m \<longleftrightarrow> x \<in># refs P V m' \<or> x \<in> set (requestBlocksOf q m)" for x
    by simp
  moreover have "unat x < length (m_blocks m)" if "x \<in> set (requestBlocksOf q m)" for x
    using refs_in_range [OF assms] requestBlocks_refs [OF that] by (simp add: refs_def)
  ultimately have "set (free_ids m') = set (free_ids m) \<union> {x \<in> set (requestBlocksOf q m). x \<notin># refs P V m'}"
    unfolding free_set [OF m'(2)] free_set [OF assms] metas_length_eq [OF m'(5)] by blast
  moreover have "refs P V m' = tables (fmdrop q (m_requestBlocks m)) + P + V"
    by (simp add: refs_def m'(3))
  ultimately show ?thesis
    using m' metas_nth [OF m'(5)] by (simp add: meta_def)
qed

theorem free_request_releases_witness:
  "\<exists>m'. manager_FreeRequest ''q'' demo_allocated = Some m' \<and> set (free_ids m') = {0, 1, 2, 3}"
proof -
  have "fmdrop ''q'' (fmupd ''q'' [0, 1 :: u32] fmempty) = fmempty"
    by (intro fmap_ext) simp
  then show ?thesis
    using free_request_releases [OF demo_allocated(2), of "''q''"] demo_allocated(3,9)
    by (simp add: requestBlocksOf_def insert_commute) blast
qed

subsection \<open>Prefix reuse\<close>

text \<open>
  C7: \<^verbatim>\<open>MatchPrefix\<close> for a request that holds nothing returns the blocks of the longest prefix of
  its chained hashes that is in the index, takes one reference on each, makes them the request's
  table, and never covers the last prompt token: the matched tokens are a strict part of the
  prompt, so at least one token is always computed.
\<close>

theorem match_prefix_contract:
  assumes "mgr_inv P V m" and "length (rq_TokenIDs req) < 2 ^ 32" and "refs_room P V m (length (rq_TokenIDs req))"
    and "requestBlocksOf (rq_RequestId req) m = []" and "idle (rq_RequestId req) m"
  shows "\<exists>cache m'. manager_MatchPrefix req m = Some ((cache, req\<lparr>rq_Cache := Some cache\<rparr>), m') \<and> mgr_inv P V m' \<and>
     pm_BlockIDs cache = matched_ids m (hash_chain (unat (m_blockSize m))
        ((length (rq_TokenIDs req) - 1) div unat (m_blockSize m)) (rq_CacheSalt req) (rq_TokenIDs req)) \<and>
     m_requestBlocks m' = fmupd (rq_RequestId req) (pm_BlockIDs cache) (m_requestBlocks m) \<and>
     refs P V m' = refs P V m + mset (pm_BlockIDs cache) \<and>
     pm_Hit cache = (pm_BlockIDs cache \<noteq> []) \<and>
     unat (pm_CachedTokens cache) = length (pm_BlockIDs cache) * unat (m_blockSize m) \<and>
     (rq_TokenIDs req \<noteq> [] \<longrightarrow> unat (pm_CachedTokens cache) < length (rq_TokenIDs req))"
proof -
  let ?b = "unat (m_blockSize m)" and ?n = "length (rq_TokenIDs req)"
  let ?hs = "hash_chain ?b ((?n - 1) div ?b) (rq_CacheSalt req) (rq_TokenIDs req)"
  let ?ids = "matched_ids m ?hs"
  let ?cache = "\<lparr>pm_Hit = (?ids \<noteq> []), pm_CachedTokens = of_nat (length ?ids) * m_blockSize m, pm_BlockIDs = ?ids,
      pm_HashesTotal = hash_chain ?b (?n div ?b) (rq_CacheSalt req) (rq_TokenIDs req)\<rparr>"
  obtain m' where m': "manager_MatchPrefix req m = Some ((?cache, req\<lparr>rq_Cache := Some ?cache\<rparr>), m')" "mgr_inv P V m'"
      "m_requestBlocks m' = fmupd (rq_RequestId req) ?ids (m_requestBlocks m)"
    using MatchPrefix_spec [OF assms] by blast
  have "unat (of_nat (length ?ids) * m_blockSize m) = length ?ids * ?b"
    by (rule matched_tokens_bound(1) [OF assms(1,2)])
  moreover have "rq_TokenIDs req \<noteq> [] \<Longrightarrow> length ?ids * ?b < ?n"
    using matched_tokens_bound [OF assms(1,2), of "rq_CacheSalt req"] by (cases "rq_TokenIDs req") auto
  moreover have "refs P V m' = refs P V m + mset ?ids"
    using tables_split [of "m_requestBlocks m" "rq_RequestId req"] assms(4)
    by (auto simp: refs_def m'(3) tables_upd requestBlocksOf_def split: option.splits)
  ultimately show ?thesis
    using m' by (intro exI [of _ ?cache] exI [of _ m']) simp
qed

theorem match_prefix_contract_witness:
  "\<exists>cache m'. manager_MatchPrefix demo_request demo_manager = Some ((cache, demo_request\<lparr>rq_Cache := Some cache\<rparr>), m') \<and>
     unat (pm_CachedTokens cache) < 3"
proof -
  have "length (rq_TokenIDs demo_request) = 3" "rq_RequestId demo_request = ''q''" "rq_TokenIDs demo_request \<noteq> []"
    by (simp_all add: demo_request_def)
  then show ?thesis
    using match_prefix_contract [OF demo_inv, of demo_request]
    by (simp add: refs_room_def refs_def demo_fields requestBlocksOf_def idle_def) blast
qed

text \<open>
  C8: a block hash identifies its content.  When two requests' hash lists agree at some positions,
  the positions are equal, the requests have the same salt, and their tokens agree up to the end
  of that block; the salts contain a colon, as every salt made by \<^verbatim>\<open>ProtoMsgToModel\<close> does, and
  SHA-256 has no collision among the byte strings hashed for the two requests.
\<close>

theorem block_hash_identifies_prefix:
  assumes "m_blockSize m \<noteq> 0" and "length (rq_TokenIDs p) < 2 ^ 32" and "length (rq_TokenIDs q) < 2 ^ 32"
    and "blockHashes m p = Some hs" and "blockHashes m q = Some ks"
    and "i < length hs" and "j < length ks" and "hs ! i = ks ! j"
    and "CHR '':'' \<in> set (rq_CacheSalt p)" and "CHR '':'' \<in> set (rq_CacheSalt q)"
    and "inj_on sha256
      (chain_inputs (unat (m_blockSize m)) (length hs) (rq_CacheSalt p) (rq_TokenIDs p) \<union>
       chain_inputs (unat (m_blockSize m)) (length ks) (rq_CacheSalt q) (rq_TokenIDs q))"
  shows "i = j \<and> rq_CacheSalt p = rq_CacheSalt q \<and>
    take (Suc i * unat (m_blockSize m)) (rq_TokenIDs p) = take (Suc i * unat (m_blockSize m)) (rq_TokenIDs q)"
proof -
  let ?b = "unat (m_blockSize m)" and ?n = "length (rq_TokenIDs p) div unat (m_blockSize m)"
    and ?k = "length (rq_TokenIDs q) div unat (m_blockSize m)"
  have hs: "hs = hash_chain ?b ?n (rq_CacheSalt p) (rq_TokenIDs p)"
    and ks: "ks = hash_chain ?b ?k (rq_CacheSalt q) (rq_TokenIDs q)"
    using blockHashes_chain [OF assms(1,2)] blockHashes_chain [OF assms(1,3)] assms(4,5) by simp_all
  show ?thesis
    using assms(6-) unfolding hs ks by (intro hash_chain_identifies [of ?b ?n _ _ ?k]) simp_all
qed

lemma chain_demo: "hash_chain 2 (Suc 0) s [1, 2, 3] = [hashBlock s [1, 2]]" "hash_chain 2 (Suc 0) s [1, 2] = [hashBlock s [1, 2]]"
  by simp_all

theorem block_hash_identifies_prefix_witness:
  "\<exists>hs. blockHashes demo_manager demo_request = Some hs \<and> length hs = 1 \<and>
     take (Suc 0 * 2) (rq_TokenIDs demo_request) = take (Suc 0 * 2) (rq_TokenIDs (demo_request\<lparr>rq_TokenIDs := [1, 2]\<rparr>))"
proof -
  let ?q = "demo_request\<lparr>rq_TokenIDs := [1, 2]\<rparr>"
  have f: "rq_TokenIDs demo_request = [1, 2, 3]" "rq_CacheSalt demo_request = ''request:q''"
    by (simp_all add: demo_request_def)
  have bs: "m_blockSize demo_manager \<noteq> 0" "unat (m_blockSize demo_manager) = 2"
    by (simp_all add: demo_fields)
  have h: "blockHashes demo_manager demo_request = Some [hashBlock ''request:q'' [1, 2]]"
    "blockHashes demo_manager ?q = Some [hashBlock ''request:q'' [1, 2]]"
    using blockHashes_chain [OF bs(1), of demo_request] blockHashes_chain [OF bs(1), of ?q]
    by (simp_all add: bs(2) f chain_demo)
  then show ?thesis
    using block_hash_identifies_prefix [OF bs(1) _ _ h, of 0 0] by (simp add: bs(2) f)
qed

subsection \<open>Transfers\<close>

text \<open>Executor \<^verbatim>\<open>a\<close> with one published block, and a fresh executor \<^verbatim>\<open>b\<close>.\<close>

definition demo_cached :: manager where
  "demo_cached = the (manager_Commit ''w'' demo_allocated)"

definition demo_fresh :: manager where
  "demo_fresh = (case newManager (Some (demo_runtime ''b'')) of Inr m \<Rightarrow> m)"

definition demo_pair :: registry where
  "demo_pair = \<lparr>r_managers = fmupd ''b'' demo_fresh (fmupd ''a'' demo_cached fmempty), r_executorIDs = [''a'', ''b''],
     r_pendingTransfers = fmempty\<rparr>"

definition demo_prepared :: registry where
  "demo_prepared = snd (the (PrepareTransfer ''t'' ''a'' ''b'' [''h''] demo_pair))"

definition demo_plan :: TransferPlan where
  "demo_plan = projr (fst (the (PrepareTransfer ''t'' ''a'' ''b'' [''h''] demo_pair)))"

lemma demo_pair_inv: "reg_inv demo_pair" "may_prepare ''a'' [''h''] demo_pair"
proof -
  have "newManager (Some (demo_runtime ''b'')) = Inr demo_fresh"
    by (simp add: demo_fresh_def newManager_def demo_runtime_def Let_def)
  then have b: "mgr_inv {#} {#} demo_fresh"
    by (rule newManager_inv(1)) (simp add: demo_runtime_def)
  have a: "mgr_inv {#} {#} demo_cached" "m_requestBlocks demo_cached = fmupd ''q'' [0, 1] fmempty"
    using Commit_spec [OF demo_allocated(2,4)] demo_allocated(3) by (auto simp: demo_cached_def)
  show "reg_inv demo_pair"
    using a(1) b by (auto simp: reg_inv_def demo_pair_def pins_def reserved_def)
  show "may_prepare ''a'' [''h''] demo_pair"
    by (simp add: may_prepare_def refs_room_def refs_def demo_pair_def pins_def reserved_def a(2) tables_upd)
qed

lemma demo_prepared: "PrepareTransfer ''t'' ''a'' ''b'' [''h''] demo_pair = Some (Inr demo_plan, demo_prepared)"
proof -
  have "case PrepareTransfer ''t'' ''a'' ''b'' [''h''] demo_pair of Some (Inr p, r) \<Rightarrow> True | _ \<Rightarrow> False"
    by code_simp
  then show ?thesis
    by (auto simp: demo_plan_def demo_prepared_def split: option.splits sum.splits)
qed

text \<open>
  C6: a prepared transfer that is committed leaves every transferred hash in the destination's
  prefix index, is no longer pending, and returns every pin and reservation it took: the registry
  accounts for the same outstanding blocks as before the transfer and satisfies its invariant.
\<close>

theorem transfer_commit_installs:
  assumes "reg_inv r" and "may_prepare a hs r" and "PrepareTransfer t a b hs r = Some (Inr p, r1)"
  shows "\<exists>r2 d. CommitTransfer t r1 = Some (None, r2) \<and> reg_inv r2 \<and>
     r_pendingTransfers r2 = r_pendingTransfers r \<and> pins r2 = pins r \<and> reserved r2 = reserved r \<and>
     fmlookup (r_managers r2) b = Some d \<and> (\<forall>h \<in> set hs. has_key (m_cachedBlocks d) h)"
proof -
  have p: "reg_inv r1" "r_pendingTransfers r1 = fmupd t p (r_pendingTransfers r)" "fmlookup (r_pendingTransfers r) t = None"
      "tp_DestinationExecutorID p = b" "tp_BlockHashes p = hs"
    using PrepareTransfer_inv [OF assms(1,2), of t b] assms(3) by auto
  have t: "fmlookup (r_pendingTransfers r1) t = Some p"
    by (simp add: p(2))
  obtain r2 d where r2: "CommitTransfer t r1 = Some (None, r2)" "reg_inv r2" "r_pendingTransfers r2 = fmdrop t (r_pendingTransfers r1)"
      "fmlookup (r_managers r2) (tp_DestinationExecutorID p) = Some d" "\<forall>h \<in> set (tp_BlockHashes p). indexed d h"
    using CommitTransfer_inv [OF p(1) t] by blast
  have "r_pendingTransfers r2 = r_pendingTransfers r"
    unfolding r2(3) p(2) by (simp add: fmdrop_fmupd_same fmdrop_idle fmdom_notI p(3))
  moreover from this have "pins r2 = pins r" "reserved r2 = reserved r"
    by (simp_all add: pins_def reserved_def fun_eq_iff)
  ultimately show ?thesis
    using r2 p(4,5) by (auto simp: indexed_def)
qed

theorem transfer_commit_installs_witness:
  "\<exists>r2 d. CommitTransfer ''t'' demo_prepared = Some (None, r2) \<and> fmlookup (r_managers r2) ''b'' = Some d \<and>
     has_key (m_cachedBlocks d) ''h'' \<and> r_pendingTransfers r2 = fmempty"
  using transfer_commit_installs [OF demo_pair_inv demo_prepared] by (auto simp: demo_pair_def)

text \<open>
  A prepared transfer that is rolled back is no longer pending, returns every pin and
  reservation it took, and leaves the destination's prefix index as the preparation left it.
\<close>

theorem transfer_rollback_returns:
  assumes "reg_inv r" and "may_prepare a hs r" and "PrepareTransfer t a b hs r = Some (Inr p, r1)"
  shows "\<exists>r2 d1 d2. RollbackTransfer t r1 = Some (None, r2) \<and> reg_inv r2 \<and>
     r_pendingTransfers r2 = r_pendingTransfers r \<and> pins r2 = pins r \<and> reserved r2 = reserved r \<and>
     fmlookup (r_managers r1) b = Some d1 \<and> fmlookup (r_managers r2) b = Some d2 \<and>
     (\<forall>h. has_key (m_cachedBlocks d2) h \<longleftrightarrow> has_key (m_cachedBlocks d1) h)"
proof -
  have p: "reg_inv r1" "r_pendingTransfers r1 = fmupd t p (r_pendingTransfers r)" "fmlookup (r_pendingTransfers r) t = None"
      "tp_DestinationExecutorID p = b"
    using PrepareTransfer_inv [OF assms(1,2), of t b] assms(3) by auto
  have t: "fmlookup (r_pendingTransfers r1) t = Some p"
    by (simp add: p(2))
  obtain r2 d1 d2 where r2: "RollbackTransfer t r1 = Some (None, r2)" "reg_inv r2" "r_pendingTransfers r2 = fmdrop t (r_pendingTransfers r1)"
      "fmlookup (r_managers r1) (tp_DestinationExecutorID p) = Some d1"
      "fmlookup (r_managers r2) (tp_DestinationExecutorID p) = Some d2" "indexed d2 = indexed d1"
    using RollbackTransfer_inv [OF p(1) t] by blast
  have "r_pendingTransfers r2 = r_pendingTransfers r"
    unfolding r2(3) p(2) by (simp add: fmdrop_fmupd_same fmdrop_idle fmdom_notI p(3))
  moreover from this have "pins r2 = pins r" "reserved r2 = reserved r"
    by (simp_all add: pins_def reserved_def fun_eq_iff)
  moreover have "has_key (m_cachedBlocks d2) h \<longleftrightarrow> has_key (m_cachedBlocks d1) h" for h
    using fun_cong [OF r2(6), of h] by (simp add: indexed_def)
  ultimately show ?thesis
    using r2 p(4) by blast
qed

theorem transfer_rollback_returns_witness:
  "\<exists>r2. RollbackTransfer ''t'' demo_prepared = Some (None, r2) \<and> reg_inv r2 \<and> r_pendingTransfers r2 = fmempty"
  using transfer_rollback_returns [OF demo_pair_inv demo_prepared] by (auto simp: demo_pair_def)

subsection \<open>The free queue\<close>

text \<open>
  The free queue is a queue.  Popping hands out the free blocks from the head in order; a
  block whose last reference is dropped goes to the tail and is handed out last; taking a free
  block back by a prefix match removes it from anywhere in the queue and keeps the others' order.
\<close>

theorem free_queue_order:
  assumes "mgr_inv P V m"
  shows "(\<forall>n \<le> length (free_ids m). \<exists>m'. pops popFree n m = Some (take n (free_ids m), m') \<and>
       free_ids m' = drop n (free_ids m)) \<and>
    (\<forall>x. x \<in># refs P V m \<longrightarrow> (\<exists>m'. pushFree x m = Some m' \<and>
       free_ids m' = (if count (refs P V m) x = 1 then free_ids m @ [x] else free_ids m))) \<and>
    (\<forall>x \<in> set (free_ids m). \<exists>m'. removeFreeBlock x m = Some m' \<and> free_ids m' = remove1 x (free_ids m))"
proof (intro conjI allI ballI impI)
  note ci = mgr_invD(1) [OF assms]
  have wf: "free_wf m"
    using ci by (simp add: core_inv_def)
  show "\<exists>m'. pops popFree n m = Some (take n (free_ids m), m') \<and> free_ids m' = drop n (free_ids m)"
    if "n \<le> length (free_ids m)" for n
    using fq.pops_take [OF wf that] by blast
  show "\<exists>m'. removeFreeBlock x m = Some m' \<and> free_ids m' = remove1 x (free_ids m)" if "x \<in> set (free_ids m)" for x
    using fq.remove_any [OF wf that] by blast
  show "\<exists>m'. pushFree x m = Some m' \<and> free_ids m' = (if count (refs P V m) x = 1 then free_ids m @ [x] else free_ids m)"
    if x: "x \<in># refs P V m" for x
  proof -
    have r: "unat x < length (m_blocks m)" and c: "unat (blk_RefCount (bl m x)) = count (refs P V m) x"
      using refs_in_range [OF assms x] ci by (simp_all add: core_inv_def refs_ok_def)
    have nq: "x \<notin> set (free_ids m)"
      using core_inv_queued [OF ci r] x by blast
    show ?thesis
    proof (cases "count (refs P V m) x = 1")
      case True
      then have "blk_RefCount (bl m x) = 1"
        using c by (metis unat_1 unat_inj_u32)
      then show ?thesis
        using pushFree_last [OF core_inv_freeD [OF ci] r nq] True free_ok_ids by fastforce
    next
      case False
      then have "1 < blk_RefCount (bl m x)"
        using c x by (simp add: word_less_nat_alt count_greater_zero_iff [symmetric] del: count_greater_zero_iff)
      then show ?thesis
        using pushFree_more [OF core_inv_freeD [OF ci] r] False free_ok_ids by fastforce
    qed
  qed
qed

theorem free_queue_order_witness:
  "\<exists>m'. pops popFree 3 demo_manager = Some ([0, 1, 2], m') \<and> free_ids m' = [3]"
  using free_queue_order [OF demo_inv, THEN conjunct1, rule_format, of 3] unfolding demo_free
  by (simp add: numeral_3_eq_3 del: pops.simps)

subsection \<open>A stale allocation\<close>

text \<open>
  C9: the fallback of \<^verbatim>\<open>AllocateBlocks\<close> for a request whose table is gone re-installs the blocks of
  its prefix match without taking references on them.  If such a block has meanwhile been freed,
  the call succeeds although the block is still on the free queue, with reference count zero, and
  is at the same time in the request's table.
\<close>

theorem stale_allocation_is_unprotected:
  assumes "mgr_inv P V m" and "fmlookup (m_requestBlocks m) (wk_RequestId work) = None"
    and "wk_Cache work = Some cache" and "pm_BlockIDs cache \<noteq> []" and "length (pm_BlockIDs cache) < 2 ^ 32"
    and "unat (requiredKVTokens work) + unat (m_blockSize m) \<le> 2 ^ 32"
    and "blocks_for (unat (m_blockSize m)) (unat (requiredKVTokens work)) \<le> length (pm_BlockIDs cache)"
    and "x \<in> set (pm_BlockIDs cache)" and "x \<in> set (free_ids m)"
  shows "\<exists>work' m'. manager_AllocateBlocks work m = Some ((True, work'), m') \<and>
     fmlookup (m_requestBlocks m') (wk_RequestId work) = Some (pm_BlockIDs cache) \<and>
     x \<in> set (free_ids m') \<and> blk_RefCount (m_blocks m' ! unat x) = 0"
proof -
  let ?ids = "pm_BlockIDs cache" and ?q = "blocks_for (unat (m_blockSize m)) (unat (requiredKVTokens work))"
  let ?m1 = "m\<lparr>m_requestBlocks := fmupd (wk_RequestId work) ?ids (m_requestBlocks m)\<rparr>"
  let ?al = "\<lparr>al_RequestID = wk_RequestId work, al_WorkID = wk_WorkId work, al_BlockSize = m_blockSize m,
      al_Phase = wk_Phase work, al_BlockTable = ?ids, al_BlockHashes = pm_HashesTotal cache, al_AllocatedBlocks = [],
      al_TokensAfterCommit = requiredKVTokens work\<rparr>"
  note cd = ceilDiv_spec [OF mgr_invD(4) [OF assms(1)] assms(6)]
  have "\<not> (of_nat (length ?ids) :: u32) < of_nat ?q"
    using assms(5,7) cd(2) by (simp add: word_less_nat_alt unat_of_nat_u32)
  moreover have "allocate 0 ?m1 = Some (Some [], ?m1)"
    by (simp add: allocate_def)
  ultimately have "manager_AllocateBlocks work m = Some ((True, work\<lparr>wk_BlockAllocation := Some ?al\<rparr>), observeBlockStats (?m1
      \<lparr>m_requestBlocks := fmupd (wk_RequestId work) ?ids (m_requestBlocks ?m1),
       m_pendingAllocations := fmupd (wk_WorkId work) ?al (m_pendingAllocations m)\<rparr>))"
    using assms(2-4) cd(1) by (simp add: manager_AllocateBlocks_def Let_def)
  moreover have "unat x < length (m_blocks m)" "x \<notin># refs P V m"
    using free_not_refs [OF assms(1,9)] by simp_all
  then have "blk_RefCount (bl m x) = 0"
    using mgr_invD(1) [OF assms(1)] by (simp add: core_inv_def refs_ok_def not_in_iff flip: unat_eq_zero)
  ultimately show ?thesis
    using assms(9) by auto
qed

theorem stale_allocation_is_unprotected_witness:
  "\<exists>work' m'. manager_AllocateBlocks (demo_work\<lparr>wk_Cache := Some \<lparr>pm_Hit = True, pm_CachedTokens = 2,
       pm_BlockIDs = [0, 1], pm_HashesTotal = [''h'']\<rparr>\<rparr>) demo_manager = Some ((True, work'), m') \<and>
     fmlookup (m_requestBlocks m') ''q'' = Some [0, 1] \<and> 1 \<in> set (free_ids m')"
  using stale_allocation_is_unprotected [OF demo_inv, of "demo_work\<lparr>wk_Cache := Some \<lparr>pm_Hit = True, pm_CachedTokens = 2,
       pm_BlockIDs = [0, 1], pm_HashesTotal = [''h'']\<rparr>\<rparr>" "\<lparr>pm_Hit = True, pm_CachedTokens = 2,
       pm_BlockIDs = [0, 1], pm_HashesTotal = [''h'']\<rparr>" 1]
  by (simp add: demo_fields demo_free demo_work_def requiredKVTokens_def blocks_for_def) blast

end
