(* ===== verification/State_Properties.thy ===== *)
theory State_Properties
  imports Request_Invariant Block_Properties
begin

text \<open>
  The properties of the request state machine: registration, leaving the table, deadlines, and the
  token accounting of executor events.  Witnesses run on the two-executor registry of the block
  properties.
\<close>

subsection \<open>A concrete state\<close>

definition demo_state :: state_manager where
  "demo_state = NewRequestLifecycleStateManager demo_registry NewMetrics"

lemma demo_managers_fresh:
  "fmlookup (r_managers demo_registry) e = Some m \<Longrightarrow> m_requestBlocks m = fmempty \<and> m_pendingAllocations m = fmempty"
  by (rule NewRegistry_fresh [OF demo_registry_new])

lemma demo_state_inv: "sm_inv demo_state"
  unfolding demo_state_def
  by (rule sm_inv_new [OF reachable_inv [OF demo_reachable demo_small] demo_managers_fresh])

lemma demo_state_fields: "sm_requests demo_state = fmempty" "sm_blockRegistry demo_state = demo_registry"
  by (simp_all add: demo_state_def NewRequestLifecycleStateManager_def)

lemma demo_bind: "may_bind demo_request demo_state"
proof -
  have "has_key (r_managers demo_registry) ''a''"
    by code_simp
  then show ?thesis
    by (simp add: may_bind_def bound_executor_def demo_state_fields) (simp add: demo_request_def)
qed

lemma demo_room: "match_room demo_request demo_state"
proof -
  have t: "r_pendingTransfers demo_registry = fmempty"
    by (rule NewRegistry_inv(4) [OF demo_registry_new demo_small])
  then have "pins demo_registry = (\<lambda>_. {#})" "reserved demo_registry = (\<lambda>_. {#})"
    by (simp_all add: pins_def reserved_def fun_eq_iff)
  then show ?thesis
    using demo_managers_fresh by (auto simp: match_room_def demo_state_fields refs_room_def refs_def) (simp_all add: demo_request_def)
qed

subsection \<open>Registration\<close>



text \<open>
  A request is refused when its name is taken, when it names no executor and there is not
  exactly one, or when its executor is unknown; a refusal returns an error and leaves the table,
  the subscriptions and the block registry as they were.
\<close>

theorem create_refusals:
  assumes "sm_inv s" and "has_key (sm_requests s) (rq_RequestId req) \<or> \<not> may_bind req s"
  shows "\<exists>err s'. sm_Create now uuid req s = Some (Inl err, s') \<and> sm_inv s' \<and> sm_requests s' = sm_requests s \<and>
     sm_subscribeCh s' = sm_subscribeCh s \<and> sm_blockRegistry s' = sm_blockRegistry s"
proof (cases "fmlookup (sm_requests s) (rq_RequestId req)")
  case None
  then show ?thesis
    using sm_Create_refused [OF assms(1) None] assms(2) by simp
next
  case (Some rq)
  then show ?thesis
    using sm_Create_duplicate [of s req now uuid] assms(1) by auto
qed

theorem create_refusals_witness:
  "\<exists>err s'. sm_Create 7 ''u'' (demo_request\<lparr>rq_ExecutorID := []\<rparr>) demo_state = Some (Inl err, s') \<and> sm_requests s' = fmempty"
proof -
  have "length (ExecutorIDs demo_registry) \<noteq> 1"
    by code_simp
  then have "\<not> may_bind (demo_request\<lparr>rq_ExecutorID := []\<rparr>) demo_state"
    by (simp add: may_bind_def demo_state_fields)
  then show ?thesis
    using create_refusals [OF demo_state_inv, of "demo_request\<lparr>rq_ExecutorID := []\<rparr>" 7 "''u''"] by (auto simp: demo_state_fields)
qed

subsection \<open>Leaving the table\<close>

text \<open>
  C11: \<^verbatim>\<open>Cancel\<close>, \<^verbatim>\<open>Finish\<close> and, when its channel has room, \<^verbatim>\<open>Fail\<close> always complete: the request and
  its subscription leave the table, no executor keeps a block table or a pending allocation for
  it, and its channel is closed, after \<^verbatim>\<open>Fail\<close> with the failure as its last event.  A second call
  of any of them is a no-op, so the channel is closed exactly once.
\<close>

theorem leaving_is_final:
  assumes "sm_inv s"
  shows "\<exists>s1. sm_Cancel q s = Some s1 \<and> sm_Finish q s = Some s1 \<and> sm_inv s1 \<and> gone q s1 \<and>
       sm_requests s1 = fmdrop q (sm_requests s) \<and> closed_for q s s1 \<and>
       sm_Cancel q s1 = Some s1 \<and> sm_Finish q s1 = Some s1 \<and> sm_Fail now uuid q err s1 = Some s1 \<and>
       (sub_room q s \<longrightarrow> (\<exists>s2. sm_Fail now uuid q err s = Some s2 \<and> sm_inv s2 \<and> gone q s2 \<and>
          sm_requests s2 = fmdrop q (sm_requests s) \<and> last_event (failEvent now uuid q err) q s s2))"
proof -
  obtain s1 where s1: "sm_Cancel q s = Some s1" "sm_inv s1" "gone q s1" "sm_requests s1 = fmdrop q (sm_requests s)" "closed_for q s s1"
    using sm_Cancel_spec [OF assms] by blast
  have same: "sm_Finish q t = sm_Cancel q t" for t
    by (simp add: sm_Finish_def sm_Cancel_def)
  have "leaveLocked q s1 = Some (None, s1)"
    using s1(3) by (simp add: leaveLocked_def gone_def fmdrop_idle fmdom_notI)
  then have "sm_Cancel q s1 = Some s1" "sm_Fail now uuid q err s1 = Some s1"
    by (simp_all add: sm_Cancel_def sm_Fail_def)
  then show ?thesis
    using s1 same sm_Fail_spec [OF assms, of q now uuid err] by auto
qed

theorem leaving_is_final_witness:
  "\<exists>s1. sm_Cancel ''q'' demo_state = Some s1 \<and> sm_Cancel ''q'' s1 = Some s1"
  using leaving_is_final [OF demo_state_inv, of "''q''"] by blast

text \<open>
  C13: \<^verbatim>\<open>CanSchedule\<close> says yes exactly for a live request whose deadline has not passed and whose
  phase is not terminal.  A passed deadline removes the request, frees its blocks and delivers a
  timeout event as the last one before its channel is closed; otherwise nothing changes.
\<close>

theorem can_schedule_contract:
  assumes "sm_inv s" and "sub_room (wk_RequestId work) s"
  shows "\<exists>ok s'. sm_CanSchedule now uuid work s = Some (ok, s') \<and> sm_inv s' \<and>
     (ok \<longleftrightarrow> (\<exists>rq. sm_Get (wk_RequestId work) s = Some rq \<and> \<not> expired now rq \<and> \<not> terminal (rq_Phase rq))) \<and>
     (if \<exists>rq. sm_Get (wk_RequestId work) s = Some rq \<and> expired now rq
      then gone (wk_RequestId work) s' \<and> last_event (failEvent now uuid (wk_RequestId work)
          (Some (errors_New CodeRequestTimeout ''request timeout''))) (wk_RequestId work) s s'
      else s' = s)"
  using sm_CanSchedule_spec [OF assms, of now uuid] unfolding sm_Get_def by (elim exE conjE) (intro exI conjI; auto)

theorem can_schedule_contract_witness:
  "\<exists>s'. sm_CanSchedule 7 ''u'' demo_work demo_state = Some (False, s')"
proof -
  have "sub_room (wk_RequestId demo_work) demo_state"
    by (simp add: sub_room_def demo_state_def NewRequestLifecycleStateManager_def)
  then show ?thesis
    using can_schedule_contract [OF demo_state_inv, of demo_work 7 "''u''"] by (auto simp: sm_Get_def demo_state_fields)
qed

subsection \<open>Executor events\<close>

text \<open>The state after that registration.\<close>

definition demo_live :: state_manager where
  "demo_live = snd (the (sm_Create 7 ''u'' demo_request demo_state))"

lemma demo_live:
  "\<exists>rq. sm_inv demo_live \<and> fmlookup (sm_requests demo_live) ''q'' = Some rq \<and> rq_TokenIDs rq = [1, 2, 3] \<and>
     rq_PromptTokens rq = 3 \<and> rq_MaxTokens rq = 4 \<and> rq_GeneratedTokens rq = 0 \<and> unat (rq_ComputedTokens rq) < 3 \<and>
     sub_room ''q'' demo_live"
proof -
  have f: "rq_PromptTokens demo_request = of_nat (length (rq_TokenIDs demo_request))" "rq_TokenIDs demo_request \<noteq> []"
    "rq_TokenIDs demo_request = [1, 2, 3]" "rq_PromptTokens demo_request = 3" "rq_MaxTokens demo_request = 4"
    "rq_GeneratedTokens demo_request = 0" "rq_RequestId demo_request = ''q''"
    by (simp_all add: demo_request_def)
  have n: "fmlookup (sm_requests demo_state) (rq_RequestId demo_request) = None"
    by (simp add: demo_state_fields)
  obtain s' cache where "sm_inv s'" "demo_live = s'"
      "sm_requests s' = fmupd ''q'' (demo_request\<lparr>rq_Phase := RequestPhasePrefillReady,
        rq_ExecutorID := bound_executor demo_request demo_state, rq_Cache := Some cache,
        rq_ComputedTokens := pm_CachedTokens cache\<rparr>) (sm_requests demo_state)"
      "sm_subscribeCh s' = fmupd ''q'' (sm_nextChannel demo_state) (sm_subscribeCh demo_state)"
      "fmlookup (sm_channels s') (sm_nextChannel demo_state) = Some \<lparr>ch_buf = [], ch_closed = False\<rparr>"
      "unat (pm_CachedTokens cache) < 3"
    using sm_Create_ok [OF demo_state_inv n demo_bind demo_room f(1,2), of 7 "''u''"] unfolding demo_live_def f(3,7)
    by auto
  then show ?thesis
    using f by (simp add: sub_room_def chan_room_def chan_cap_def)
qed

text \<open>
  A prefill chunk of a live request that does not report more tokens than the prompt has left
  advances the computed tokens by what it reports, is delivered with the request's usage, and is
  followed by exactly one work item, for precisely the prompt tokens that remain.
\<close>

theorem prefill_chunk_continues:
  assumes "sm_inv s" and "sm_Get (ev_RequestId e) s = Some rq" and "ev_Type e = EventTypePrefillChunk"
    and "unat (rq_ComputedTokens rq) + unat (us_InputTokens (ev_Usage e)) \<le> unat (rq_PromptTokens rq)"
    and "unat (rq_PromptTokens rq) \<le> length (rq_TokenIDs rq)" and "sub_room (ev_RequestId e) s"
  shows "\<exists>s' rq' e' item. sm_OnEvent now uuid e s = Some (([item], e'), s') \<and> sm_inv s' \<and>
     sm_Get (ev_RequestId e) s' = Some rq' \<and> rq_Phase rq' = RequestPhasePrefillRunning \<and>
     unat (rq_ComputedTokens rq') = unat (rq_ComputedTokens rq) + unat (us_InputTokens (ev_Usage e)) \<and>
     rq_TokenIDs rq' = rq_TokenIDs rq \<and> ev_Usage e' = rq_Usage rq' \<and>
     wk_Phase item = WorkPhasePrefill \<and> wk_RequestId item = ev_RequestId e \<and> wk_ExecutorID item = rq_ExecutorID rq \<and>
     wk_PrefillOffset item = rq_ComputedTokens rq' \<and>
     wk_TokenIDs item = drop (unat (rq_ComputedTokens rq')) (take (unat (rq_PromptTokens rq)) (rq_TokenIDs rq)) \<and>
     unat (wk_NumNewTokens item) = length (wk_TokenIDs item) \<and> wk_Cache item = rq_Cache rq"
proof -
  let ?c = "rq_ComputedTokens rq + us_InputTokens (ev_Usage e)" and ?p = "rq_PromptTokens rq"
  have q: "fmlookup (sm_requests s) (ev_RequestId e) = Some rq"
    using assms(2) by (simp add: sm_Get_def)
  have c: "unat ?c = unat (rq_ComputedTokens rq) + unat (us_InputTokens (ev_Usage e))"
    using assms(4) unat_lt_u32 [of ?p] by (intro unat_add_u32) simp
  then have le: "unat ?c \<le> unat ?p" "?c \<le> ?p"
    using assms(4) by (simp_all add: word_le_nat_alt)
  have n: "unat (?p - ?c) = unat ?p - unat ?c"
    using le(2) by (rule unat_sub)
  have app: "applyEvent now uuid e rq = onPrefillChunk now uuid e rq"
    using assms(3) by (simp add: applyEvent_def)
  obtain rq' e' items where ap: "onPrefillChunk now uuid e rq = Some (rq', e', items)"
    using applyEvent_None_iff [of now uuid e rq] app le assms(5) by (cases "onPrefillChunk now uuid e rq") auto
  then obtain item where r: "applyEvent now uuid e rq = Some (rq', e', [item])" "rq_ComputedTokens rq' = ?c"
     "rq_Phase rq' = RequestPhasePrefillRunning" "rq_TokenIDs rq' = rq_TokenIDs rq" "ev_Usage e' = rq_Usage rq'"
     "wk_Phase item = WorkPhasePrefill" "wk_RequestId item = ev_RequestId e" "wk_ExecutorID item = rq_ExecutorID rq"
     "wk_PrefillOffset item = ?c" "wk_TokenIDs item = take (unat ?p - unat ?c) (drop (unat ?c) (rq_TokenIDs rq))"
     "wk_NumNewTokens item = ?p - ?c" "wk_Cache item = rq_Cache rq"
    using le assms(5) unfolding app by (auto simp: onPrefillChunk_def Let_def panic_simps)
  obtain s' where s': "sm_OnEvent now uuid e s = Some (([item], e'), s')" "sm_inv s'"
     "sm_requests s' = fmupd (ev_RequestId e) rq' (sm_requests s)"
    using sm_OnEvent_spec [OF assms(1) q r(1) assms(6)] by blast
  have t: "wk_TokenIDs item = drop (unat ?c) (take (unat ?p) (rq_TokenIDs rq))"
    unfolding r(10) by (simp add: drop_take)
  moreover have "unat (wk_NumNewTokens item) = length (wk_TokenIDs item)"
    unfolding t r(11) n using assms(5) by simp
  ultimately show ?thesis
    using s' r c by (intro exI [of _ s'] exI [of _ rq'] exI [of _ e'] exI [of _ item]) (simp add: sm_Get_def)
qed

theorem prefill_chunk_continues_witness:
  "\<exists>s' e' item. sm_OnEvent 8 ''v'' (zero_Event\<lparr>ev_RequestId := ''q''\<rparr>) demo_live = Some (([item], e'), s') \<and>
     wk_Phase item = WorkPhasePrefill"
proof -
  obtain rq where rq: "sm_inv demo_live" "fmlookup (sm_requests demo_live) ''q'' = Some rq" "rq_TokenIDs rq = [1, 2, 3]"
     "rq_PromptTokens rq = 3" "unat (rq_ComputedTokens rq) < 3" "sub_room ''q'' demo_live"
    using demo_live by blast
  show ?thesis
    using prefill_chunk_continues [OF rq(1), of "zero_Event\<lparr>ev_RequestId := ''q''\<rparr>" rq 8 "''v''"] rq
    by (simp add: sm_Get_def zero_Event_def zero_Usage_def) blast
qed

text \<open>
  C12: a decode chunk of a live request appends its token to the request and adds what it reports
  to the generated tokens.  The request finishes exactly when the event says so or its token limit
  is reached: then no work item follows, the delivered event is marked done, and a missing finish
  reason becomes the length limit.  Otherwise one decode item with all tokens so far follows.
\<close>

theorem decode_chunk_contract:
  assumes "sm_inv s" and "sm_Get (ev_RequestId e) s = Some rq" and "ev_Type e = EventTypeDecodeChunk"
    and "sub_room (ev_RequestId e) s"
  shows "\<exists>s' rq' e' items. sm_OnEvent now uuid e s = Some ((items, e'), s') \<and> sm_inv s' \<and>
     sm_Get (ev_RequestId e) s' = Some rq' \<and> rq_TokenIDs rq' = rq_TokenIDs rq @ [ev_TokenId e] \<and>
     rq_GeneratedTokens rq' = rq_GeneratedTokens rq + us_OutputTokens (ev_Usage e) \<and>
     ev_Usage e' = \<lparr>us_InputTokens = rq_PromptTokens rq, us_OutputTokens = rq_GeneratedTokens rq',
       us_TotalTokens = rq_PromptTokens rq + rq_GeneratedTokens rq'\<rparr> \<and>
     (if ev_Done e \<or> rq_MaxTokens rq \<le> rq_GeneratedTokens rq'
      then items = [] \<and> ev_Done e' \<and> rq_Phase rq' = RequestPhaseFinished \<and> rq_FinishReason rq' = ev_FinishReason e' \<and>
        ev_FinishReason e' = (if ev_FinishReason e = FinishReasonUnspecified then FinishReasonLength else ev_FinishReason e)
      else \<not> ev_Done e' \<and> rq_Phase rq' = RequestPhaseDecodeRunning \<and>
        (\<exists>item. items = [item] \<and> wk_Phase item = WorkPhaseDecode \<and> wk_RequestId item = ev_RequestId e \<and>
          wk_TokenIDs item = rq_TokenIDs rq' \<and> wk_TokenCntTotal item = of_nat (length (rq_TokenIDs rq')) \<and>
          wk_NumNewTokens item = 1))"
proof -
  have q: "fmlookup (sm_requests s) (ev_RequestId e) = Some rq"
    using assms(2) by (simp add: sm_Get_def)
  obtain rq' e' items where r: "applyEvent now uuid e rq = Some (rq', e', items)"
    using applyEvent_None_iff [of now uuid e rq] assms(3) by (cases "applyEvent now uuid e rq") auto
  then have d: "onDecodeChunk now uuid e rq = Some (rq', e', items)"
    using assms(3) by (simp add: applyEvent_def)
  obtain s' where s': "sm_OnEvent now uuid e s = Some ((items, e'), s')" "sm_inv s'"
     "sm_requests s' = fmupd (ev_RequestId e) rq' (sm_requests s)"
    using sm_OnEvent_spec [OF assms(1) q r assms(4)] by blast
  show ?thesis
  proof (cases "ev_Done e \<or> rq_MaxTokens rq \<le> rq_GeneratedTokens rq + us_OutputTokens (ev_Usage e)")
    case True
    then show ?thesis
      using s' d by (auto simp: sm_Get_def onDecodeChunk_def Let_def)
  next
    case False
    then show ?thesis
      using s' d by (auto simp: sm_Get_def onDecodeChunk_def Let_def decodeItem_def)
  qed
qed

theorem decode_chunk_contract_witness:
  "\<exists>s' e' items. sm_OnEvent 8 ''v'' (zero_Event\<lparr>ev_RequestId := ''q'', ev_Type := EventTypeDecodeChunk,
       ev_TokenId := 9, ev_Done := True\<rparr>) demo_live = Some ((items, e'), s') \<and> items = [] \<and> ev_FinishReason e' = FinishReasonLength"
proof -
  let ?e = "zero_Event\<lparr>ev_RequestId := ''q'', ev_Type := EventTypeDecodeChunk, ev_TokenId := 9, ev_Done := True\<rparr>"
  obtain rq where rq: "sm_inv demo_live" "fmlookup (sm_requests demo_live) ''q'' = Some rq" "sub_room ''q'' demo_live"
    using demo_live by blast
  show ?thesis
    using decode_chunk_contract [OF rq(1), of ?e rq 8 "''v''"] rq(2,3) by (simp add: sm_Get_def zero_Event_def) blast
qed

text \<open>
  \<^verbatim>\<open>OnEvent\<close> looks up the subscriber's channel and sends on it outside the lock.  When a
  \<^verbatim>\<open>Cancel\<close> of the request takes effect between the two, the send panics on the closed channel.
\<close>

theorem send_after_cancel_panics:
  assumes "sm_inv s" and "sm_Get (ev_RequestId e) s = Some rq" and "onEventLocked now uuid e s = Some (Some (e', items), s1)"
    and "fmlookup (sm_subscribeCh s1) (ev_RequestId e) = Some c" and "sm_Cancel (ev_RequestId e) s1 = Some s2"
  shows "chan_send c e' s2 = None \<and> (\<exists>ch. fmlookup (sm_channels s2) c = Some ch \<and> ch_closed ch)"
proof -
  have q: "fmlookup (sm_requests s) (ev_RequestId e) = Some rq"
    using assms(2) by (simp add: sm_Get_def)
  obtain rq' where "applyEvent now uuid e rq = Some (rq', e', items)" "s1 = s\<lparr>sm_requests := fmupd (ev_RequestId e) rq' (sm_requests s)\<rparr>"
    using assms(3) q by (auto simp: onEventLocked_def split: bind_splits)
  then have "sm_inv s1"
    using sm_inv_request [OF assms(1) q] applyEvent_keeps(1-3) [of now uuid e rq rq' e' items] by simp
  then have "closed_for (ev_RequestId e) s1 s2"
    using sm_Cancel_spec [of s1 "ev_RequestId e"] assms(5) by auto
  then obtain ch where "fmlookup (sm_channels s2) c = Some ch" "ch_closed ch"
    using assms(4) by (auto simp: closed_for_def)
  then show ?thesis
    by (simp add: chan_send_def)
qed

theorem send_after_cancel_panics_witness:
  "\<exists>e' items s1 s2 c. onEventLocked 8 ''v'' (zero_Event\<lparr>ev_RequestId := ''q'', ev_Type := EventTypeDecodeChunk\<rparr>) demo_live =
       Some (Some (e', items), s1) \<and> fmlookup (sm_subscribeCh s1) ''q'' = Some c \<and> sm_Cancel ''q'' s1 = Some s2 \<and>
     chan_send c e' s2 = None"
proof -
  let ?e = "zero_Event\<lparr>ev_RequestId := ''q'', ev_Type := EventTypeDecodeChunk\<rparr>"
  obtain rq where rq: "sm_inv demo_live" "fmlookup (sm_requests demo_live) ''q'' = Some rq"
    using demo_live by blast
  have ne: "applyEvent 8 ''v'' ?e rq \<noteq> None"
    by (simp add: applyEvent_None_iff)
  then obtain rq' e' items where ap: "applyEvent 8 ''v'' ?e rq = Some (rq', e', items)"
    by (cases "applyEvent 8 ''v'' ?e rq") auto
  let ?s1 = "demo_live\<lparr>sm_requests := fmupd ''q'' rq' (sm_requests demo_live)\<rparr>"
  have l: "onEventLocked 8 ''v'' ?e demo_live = Some (Some (e', items), ?s1)"
    using rq(2) ap by (simp add: onEventLocked_def)
  have "sm_inv ?s1"
    by (rule sm_inv_request [OF rq applyEvent_keeps(1-3) [OF ap]])
  then obtain s2 where c: "sm_Cancel ''q'' ?s1 = Some s2"
    using sm_Cancel_spec by blast
  obtain c where sub: "fmlookup (sm_subscribeCh ?s1) ''q'' = Some c"
    using sm_invD(2) [OF rq(1)] rq(2) unfolding channels_ok_def by force
  show ?thesis
    using send_after_cancel_panics [OF rq(1), of ?e rq 8 "''v''" e' items ?s1 c s2] rq(2) l c sub by (simp add: sm_Get_def)
qed

text \<open>
  C14: \<^verbatim>\<open>OnEvent\<close> does not bound the tokens a prefill chunk reports: when the total exceeds the
  prompt, slicing the remaining prompt tokens panics, where the branch for a finished prefill
  caps the total at the prompt length.
\<close>

theorem prefill_overreport_panics:
  assumes "sm_Get (ev_RequestId e) s = Some rq" and "ev_Type e = EventTypePrefillChunk"
    and "unat (rq_PromptTokens rq) < unat (rq_ComputedTokens rq + us_InputTokens (ev_Usage e))"
  shows "sm_OnEvent now uuid e s = None \<and>
    (\<exists>rq' e' items. applyEvent now uuid (e\<lparr>ev_Type := EventTypePrefillFinished\<rparr>) rq = Some (rq', e', items) \<and>
       rq_ComputedTokens rq' = rq_PromptTokens rq)"
proof -
  have "applyEvent now uuid e rq = None"
    using assms(2,3) by (simp add: applyEvent_None_iff)
  then have "sm_OnEvent now uuid e s = None"
    using assms(1) by (simp add: sm_OnEvent_def onEventLocked_def sm_Get_def)
  then show ?thesis
    using assms(3) by (simp add: applyEvent_def onPrefillFinished_def Let_def word_less_nat_alt)
qed

theorem prefill_overreport_panics_witness:
  "sm_OnEvent 8 ''v'' (zero_Event\<lparr>ev_RequestId := ''q'', ev_Usage := zero_Usage\<lparr>us_InputTokens := 100\<rparr>\<rparr>) demo_live = None"
proof -
  obtain rq where rq: "fmlookup (sm_requests demo_live) ''q'' = Some rq" "rq_PromptTokens rq = 3" "unat (rq_ComputedTokens rq) < 3"
    using demo_live by blast
  have "unat (rq_ComputedTokens rq + 100) = unat (rq_ComputedTokens rq) + unat (100 :: u32)"
    using rq(3) by (intro unat_add_u32) simp
  then show ?thesis
    using prefill_overreport_panics [of "zero_Event\<lparr>ev_RequestId := ''q'', ev_Usage := zero_Usage\<lparr>us_InputTokens := 100\<rparr>\<rparr>"
        demo_live rq 8 "''v''"] rq by (simp add: sm_Get_def zero_Event_def zero_Usage_def)
qed

end
