(* ===== verification/Kv_Conf.thy ===== *)
theory Kv_Conf
  imports Kv_Errors
begin

text \<open>
  The configuration, \<^verbatim>\<open>internal/conf/conf.go\<close>.  Reading and unmarshalling the file is koanf's; only
  the choice of its parser by the file extension is the engine's.
\<close>

record QueueConf =
  qc_QueueLength :: u32

record ScheduleConf =
  sc_QueueConf :: QueueConf
  sc_MaxBatchSeq :: u32
  sc_MaxBatchTokens :: u32
  sc_LongPrefillTokenThreshold :: u32
  sc_MaxPartialPrefills :: u32
  sc_MaxLongPartialPrefills :: u32
  sc_MaxScheduleDelay :: u64

record ServerConf =
  sv_Address :: string
  sv_AdminPort :: u64
  sv_AllowedOrigins :: "string list"
  sv_ScheduleConf :: ScheduleConf

record ModelConf =
  mc_ModelID :: string
  mc_ModelPath :: string

record ExecutorConf =
  ec_ExecutorID :: string
  ec_Address :: "string list"
  ec_TimeoutMs :: int

record Conf =
  cf_Server :: ServerConf
  cf_Models :: "ModelConf list"
  cf_Executors :: "ExecutorConf list"

text \<open>The conversion to \<^verbatim>\<open>time.Duration\<close> and the product are in 64 bits and wrap around.\<close>

definition ScheduleDelay :: "ScheduleConf \<Rightarrow> duration" where
  "ScheduleDelay s = sint (sc_MaxScheduleDelay s * 1000000)"

datatype conf_parser = TomlParser | YamlParser | JsonParser

text \<open>\<^verbatim>\<open>filepath.Ext\<close>: from the last dot of the last path element, or nothing.\<close>

definition filepath_Ext :: "string \<Rightarrow> string" where
  "filepath_Ext path =
     (let tail = rev (takeWhile (\<lambda>c. c \<noteq> CHR ''/'') (rev path))
      in if CHR ''.'' \<in> set tail
         then CHR ''.'' # rev (takeWhile (\<lambda>c. c \<noteq> CHR ''.'') (rev tail)) else [])"

definition NewConfFromPath :: "(conf_parser \<Rightarrow> string \<Rightarrow> Conf result) \<Rightarrow> string \<Rightarrow> Conf result" where
  "NewConfFromPath load path =
     (let ext = filepath_Ext path
      in if ext = ''.toml'' then load TomlParser path
         else if ext = ''.yaml'' \<or> ext = ''.yml'' then load YamlParser path
         else if ext = ''.json'' then load JsonParser path
         else Inl (Errorf (''conf: unsupported file type: '' @ ext) []))"

text \<open>Delays up to 292 years are exact.\<close>

lemma ScheduleDelay_exact:
  assumes "unat (sc_MaxScheduleDelay s) \<le> 9000000000000"
  shows "ScheduleDelay s = int (unat (sc_MaxScheduleDelay s)) * 1000000"
proof -
  let ?w = "sc_MaxScheduleDelay s"
  have "int (unat ?w) \<le> int 9000000000000"
    using assms by (simp only: of_nat_le_iff)
  then have le: "uint ?w \<le> 9000000000000"
    by simp
  then have m: "uint (?w * 1000000) = uint ?w * 1000000"
    by (simp add: uint_word_ariths mod_pos_pos_trivial)
  then have u: "uint (?w * 1000000) = int (unat ?w) * 1000000" and lt: "uint (?w * 1000000) < 2 ^ 63"
    using le by simp_all
  have "sint (?w * 1000000) = uint (?w * 1000000)"
    using lt by (simp add: sint_uint signed_take_bit_eq_take_bit_shift take_bit_eq_mod)
  then show ?thesis
    by (simp add: ScheduleDelay_def u)
qed

end
