(* ===== verification/Executor.thy ===== *)
theory Executor
  imports Kv_Conf Kv_Model
begin

text \<open>
  The executor client side, \<^verbatim>\<open>internal/executor/executor.go\<close> and \<^verbatim>\<open>transfer.go\<close>: the wire form of a
  batch, the events its response is turned into, and the connection set-up.  The remote calls are
  arguments: a function from the request sent to the response or the transport error.
\<close>

subsection \<open>Wire messages (block.pb.go, executor.pb.go)\<close>

record KVBlockMetadata =
  kb_BlockSize :: u32
  kb_BlockTable :: "u32 list"
  kb_AllocatedBlocks :: "u32 list"

record ExecuteItem =
  xi_WorkId :: string
  xi_RequestId :: string
  xi_Phase :: WorkPhase
  xi_TokenIds :: "u32 list"
  xi_ComputedTokens :: u32
  xi_GeneratedTokens :: u32
  xi_NumNewTokens :: u32
  xi_KvBlocks :: KVBlockMetadata
  xi_Sample :: bool

record ExecuteBatchRequest =
  xb_BatchId :: string
  xb_RuntimeEpoch :: u32
  xb_Items :: "ExecuteItem list"

record ExecuteResult =
  xr_WorkId :: string
  xr_RequestId :: string
  xr_TokenId :: u32
  xr_Done :: bool
  xr_FinishReason :: FinishReason
  xr_ComputedTokens :: u32
  xr_GeneratedTokens :: u32
  xr_ExecutionMs :: u32
  xr_ErrorMessage :: string

record ExecuteBatchResponse =
  xs_BatchId :: string
  xs_ExecutorId :: string
  xs_Results :: "ExecuteResult list"

record TriggerKVPushRequest =
  kq_TransferId :: string
  kq_SourceExecutorId :: string
  kq_SourceRuntimeEpoch :: u32
  kq_SourceBlockIds :: "u32 list"
  kq_DestinationExecutorId :: string
  kq_DestinationRuntimeEpoch :: u32
  kq_DestinationTransferEndpoint :: string
  kq_KvCompatibilityId :: string
  kq_BlockHashes :: "string list"
  kq_DestinationBlockIds :: "u32 list"

record TriggerKVPushResponse =
  kp_TransferId :: string
  kp_SourceExecutorId :: string
  kp_SourceRuntimeEpoch :: u32
  kp_DestinationExecutorId :: string
  kp_DestinationRuntimeEpoch :: u32

subsection \<open>Batches on the wire (transfer.go)\<close>

text \<open>
  A work item without a block allocation is a nil dereference, a decode item with fewer tokens than
  it is to compute a slice out of range; \<open>executeItem\<close> is the body of the loop.
\<close>

definition kvBlocks :: "BlockAllocation \<Rightarrow> KVBlockMetadata" where
  "kvBlocks al = \<lparr>kb_BlockSize = al_BlockSize al, kb_BlockTable = al_BlockTable al, kb_AllocatedBlocks = al_AllocatedBlocks al\<rparr>"

definition executeItem :: "WorkItem \<Rightarrow> ExecuteItem option" where
  "executeItem work =
     (if wk_Phase work = WorkPhaseDecode
      then (if length (wk_TokenIDs work) < unat (wk_NumNewTokens work) then None
            else do {
              tokens \<leftarrow> slice_from (wk_TokenIDs work) (length (wk_TokenIDs work) - unat (wk_NumNewTokens work));
              al \<leftarrow> wk_BlockAllocation work;
              Some \<lparr>xi_WorkId = wk_WorkId work, xi_RequestId = wk_RequestId work, xi_Phase = WorkPhaseDecode,
                    xi_TokenIds = tokens, xi_ComputedTokens = wk_TokenCntTotal work - wk_NumNewTokens work,
                    xi_GeneratedTokens = wk_GeneratedTokens work, xi_NumNewTokens = wk_NumNewTokens work,
                    xi_KvBlocks = kvBlocks al, xi_Sample = True\<rparr>
            })
      else do {
        al \<leftarrow> wk_BlockAllocation work;
        Some \<lparr>xi_WorkId = wk_WorkId work, xi_RequestId = wk_RequestId work, xi_Phase = WorkPhasePrefill,
              xi_TokenIds = wk_TokenIDs work, xi_ComputedTokens = wk_PrefillOffset work,
              xi_GeneratedTokens = 0, xi_NumNewTokens = wk_NumNewTokens work, xi_KvBlocks = kvBlocks al,
              xi_Sample = (wk_TokenCntTotal work \<le> wk_PrefillOffset work + wk_NumNewTokens work)\<rparr>
      })"

fun executeItems :: "WorkItem list \<Rightarrow> ExecuteItem list option" where
  "executeItems [] = Some []"
| "executeItems (work # ws) = do { i \<leftarrow> executeItem work; is \<leftarrow> executeItems ws; Some (i # is) }"

definition BatchToExecute :: "u32 \<Rightarrow> Batch \<Rightarrow> ExecuteBatchRequest option" where
  "BatchToExecute epoch batch = do {
     is \<leftarrow> executeItems (bt_Items batch);
     Some \<lparr>xb_BatchId = bt_BatchID batch, xb_RuntimeEpoch = epoch, xb_Items = is\<rparr>
   }"

subsection \<open>Execution (executor.go)\<close>

record executor =
  ex_id :: string
  ex_runtime :: ExecutorStats
  ex_endpoints :: "string list"

definition nextPhase :: "WorkItem \<Rightarrow> error option \<Rightarrow> EventType" where
  "nextPhase item err =
     (if err \<noteq> None then EventTypeRequestFailed
      else if wk_Phase item = WorkPhasePrefill
      then (if wk_TokenCntTotal item \<le> wk_PrefillOffset item + wk_NumNewTokens item
            then EventTypePrefillFinished else EventTypePrefillChunk)
      else if wk_Phase item = WorkPhaseDecode then EventTypeDecodeChunk
      else EventTypeRequestFinished)"

text \<open>The map from work identifiers to the batch's items: a later item replaces an earlier one.\<close>

definition batchWorks :: "WorkItem list \<Rightarrow> (string, WorkItem) fmap" where
  "batchWorks items = foldl (\<lambda>works item. fmupd (wk_WorkId item) item works) fmempty items"

definition resultEvent :: "string \<Rightarrow> string \<Rightarrow> WorkItem \<Rightarrow> ExecuteResult \<Rightarrow> Event" where
  "resultEvent executorId batchId workItem workRes =
     (let err = (if xr_ErrorMessage workRes \<noteq> [] then Some (errors_New CodeInternal (xr_ErrorMessage workRes)) else None)
      in \<lparr>ev_WorkId = xr_WorkId workRes, ev_RequestId = xr_RequestId workRes, ev_BatchId = batchId,
          ev_ExecutorId = executorId, ev_Type = nextPhase workItem err, ev_ChunkIndex = 0,
          ev_TokenId = xr_TokenId workRes, ev_Done = xr_Done workRes,
          ev_Usage = \<lparr>us_InputTokens = xr_ComputedTokens workRes, us_OutputTokens = xr_GeneratedTokens workRes,
                      us_TotalTokens = xr_ComputedTokens workRes + xr_GeneratedTokens workRes\<rparr>,
          ev_Timing = \<lparr>tm_Queue = 0, tm_BatchWait = 0, tm_Execution = uint (xr_ExecutionMs workRes) * Millisecond, tm_Total = 0\<rparr>,
          ev_FinishReason = xr_FinishReason workRes, ev_At = 0, ev_Err = err\<rparr>)"

text \<open>A result for a work item that is not in the batch is logged and skipped.\<close>

fun resultEvents :: "string \<Rightarrow> string \<Rightarrow> (string, WorkItem) fmap \<Rightarrow> ExecuteResult list \<Rightarrow> Event list" where
  "resultEvents executorId batchId works [] = []"
| "resultEvents executorId batchId works (workRes # rs) = (case fmlookup works (xr_WorkId workRes) of
     None \<Rightarrow> resultEvents executorId batchId works rs
   | Some workItem \<Rightarrow> resultEvent executorId batchId workItem workRes # resultEvents executorId batchId works rs)"

type_synonym execute_rpc = "ExecuteBatchRequest \<Rightarrow> ExecuteBatchResponse result"

definition Execute :: "execute_rpc \<Rightarrow> executor \<Rightarrow> Batch \<Rightarrow> Event list result option" where
  "Execute rpc m batch = do {
     request \<leftarrow> BatchToExecute (es_RuntimeEpoch (ex_runtime m)) batch;
     case rpc request of
       Inl err \<Rightarrow> Some (Inl err)
     | Inr resp \<Rightarrow> Some (Inr (resultEvents (ex_id m) (bt_BatchID batch) (batchWorks (bt_Items batch)) (xs_Results resp)))
   }"

subsection \<open>Set-up (executor.go)\<close>

text \<open>
  \<open>get i\<close> is the outcome of the \<open>i\<close>-th \<^verbatim>\<open>GetRuntime\<close> call.  Leaving the loop by its bound would
  dereference a nil runtime, the panic \<open>None\<close>.
\<close>

function retryRuntime :: "(nat \<Rightarrow> GetRuntimeResponse result) \<Rightarrow> nat \<Rightarrow> ExecutorStats result option" where
  "retryRuntime get i =
     (if i < 3
      then (case get i of
          Inl err \<Rightarrow> if i \<noteq> 2 then retryRuntime get (i + 1) else Some (Inl err)
        | Inr res \<Rightarrow> Some (Inr (RuntimeProtoToModel res)))
      else None)"
  by pat_completeness auto

termination
  by (relation "measure (\<lambda>(get, i). 3 - i)") auto

declare retryRuntime.simps [simp del]

definition newExecutor :: "(nat \<Rightarrow> GetRuntimeResponse result) \<Rightarrow> ExecutorConf \<Rightarrow> executor result option" where
  "newExecutor get cfg = (if ec_Address cfg = [] then None else do {
     r \<leftarrow> retryRuntime get 0;
     case r of
       Inl err \<Rightarrow> Some (Inl err)
     | Inr rt \<Rightarrow>
         if es_ExecutorId rt \<noteq> ec_ExecutorID cfg
         then Some (Inl (errors_New CodeInternal (''executor with id '' @ ec_ExecutorID cfg @ '' doesn't exist'')))
         else Some (Inr \<lparr>ex_id = ec_ExecutorID cfg, ex_runtime = rt, ex_endpoints = ec_Address cfg\<rparr>)
   })"

fun newExecutors :: "(ExecutorConf \<Rightarrow> nat \<Rightarrow> GetRuntimeResponse result) \<Rightarrow> ExecutorConf list \<Rightarrow> (string, executor) fmap \<Rightarrow>
    (string, executor) fmap result option" where
  "newExecutors get [] executors = Some (Inr executors)"
| "newExecutors get (ec # ecs) executors =
     (if ec_ExecutorID ec = [] then Some (Inl (Errorf ''executor.executorId can not be empty'' []))
      else if length (ec_Address ec) = 0 then Some (Inl (Errorf ''executor.address can not be empty'' []))
      else do {
        r \<leftarrow> newExecutor (get ec) ec;
        case r of
          Inl err \<Rightarrow> Some (Inl err)
        | Inr exec \<Rightarrow>
            if has_key executors (ec_ExecutorID ec)
            then Some (Inl (Errorf (''executor with id '' @ ec_ExecutorID ec @ '' already exists'') []))
            else newExecutors get ecs (fmupd (ec_ExecutorID ec) exec executors)
      })"

definition NewExecutors :: "(ExecutorConf \<Rightarrow> nat \<Rightarrow> GetRuntimeResponse result) \<Rightarrow> Conf \<Rightarrow> (string, executor) fmap result option" where
  "NewExecutors get cfg = do {
     r \<leftarrow> newExecutors get (cf_Executors cfg) fmempty;
     case r of
       Inl err \<Rightarrow> Some (Inl err)
     | Inr executors \<Rightarrow>
         if map_len executors = 0 then Some (Inl (Errorf ''no executors configured'' []))
         else Some (Inr executors)
   }"

end
