(* ===== verification/Executor_Manager.thy ===== *)
theory Executor_Manager
  imports Executor Kv_Metrics
begin

text \<open>
  The executor manager, \<^verbatim>\<open>internal/executor/manager.go\<close>: a bounded batch channel and a consumer
  goroutine per executor, and one event channel they all send on.  The goroutines interleave, so a
  consumer's loop is cut where it can be suspended: receiving a batch, the remote call, and each
  send of an event; \<open>worker\<close> is the place it is suspended at.
\<close>

subsection \<open>State\<close>

datatype worker =
    Idle
  | Running Batch
  | Sending "Event list"
  | Stopped

record executor_manager =
  em_executors :: "(string, executor) fmap"
  em_executorList :: "string list"
  em_batchChans :: "(string, Batch list) fmap"
  em_eventChan :: "Event list"
  em_inflightBatches :: u64
  em_workers :: "(string, worker) fmap"

definition batchChanCap :: nat where "batchChanCap = 100"
definition eventChanCap :: nat where "eventChanCap = 100"

text \<open>The executors are ranged over in any order; the list is sorted afterwards.\<close>

definition NewExecutorManager :: "(string, executor) fmap \<Rightarrow> executor_manager" where
  "NewExecutorManager executors =
     (let executorList = sorted_list_of_fset (fmdom executors)
      in \<lparr>em_executors = executors, em_executorList = executorList,
          em_batchChans = fmap_of_list (map (\<lambda>e. (e, [])) executorList), em_eventChan = [],
          em_inflightBatches = 0, em_workers = fmempty\<rparr>)"

definition GetRuntimeStates :: "executor_manager \<Rightarrow> (string, ExecutorStats) fmap" where
  "GetRuntimeStates em = foldl (\<lambda>runtimeStats executorId. case fmlookup (em_executors em) executorId of
       None \<Rightarrow> runtimeStats
     | Some x \<Rightarrow> fmupd (es_ExecutorId (ex_runtime x)) (ex_runtime x) runtimeStats) fmempty
     (sorted_list_of_fset (fmdom (em_executors em)))"

subsection \<open>Operations\<close>

text \<open>
  The \<^verbatim>\<open>select\<close> of \<^verbatim>\<open>Submit\<close>: when the channel has room and the context is done, either case may be
  taken, as \<open>choice\<close> says; \<open>ctx\<close> is the context's error once it is done.
\<close>

definition Submit :: "error option \<Rightarrow> bool \<Rightarrow> Batch option \<Rightarrow> executor_manager \<Rightarrow> error option \<times> executor_manager" where
  "Submit ctx choice batch em = (case batch of
     None \<Rightarrow> (Some (errors_New CodeInvalidArgument ''batch must not be nil''), em)
   | Some b \<Rightarrow> (case fmlookup (em_batchChans em) (bt_ExecutorID b) of
       None \<Rightarrow> (Some (errors_New CodeExecutorUnavailable (''executor '' @ bt_ExecutorID b @ '' is unavailable'')), em)
     | Some batchChan \<Rightarrow>
         if length batchChan < batchChanCap \<and> (ctx = None \<or> choice)
         then (None, em\<lparr>em_batchChans := fmupd (bt_ExecutorID b) (batchChan @ [b]) (em_batchChans em)\<rparr>)
         else if ctx \<noteq> None then (ctx, em)
         else (Some (errors_New CodeQueueFull ''executor batch queue is full''), em)))"

type_synonym push_rpc = "string \<Rightarrow> TriggerKVPushRequest \<Rightarrow> TriggerKVPushResponse result"

text \<open>\<open>push e\<close> is the \<^verbatim>\<open>TriggerKVPush\<close> call on the client of executor \<open>e\<close>.\<close>

definition TriggerKVPush :: "push_rpc \<Rightarrow> executor_manager \<Rightarrow> TriggerKVPushRequest \<Rightarrow> TriggerKVPushResponse result" where
  "TriggerKVPush push em request = (case fmlookup (em_executors em) (kq_SourceExecutorId request) of
     None \<Rightarrow> Inl (errors_New CodeExecutorUnavailable (''source executor '' @ kq_SourceExecutorId request @ '' is unavailable''))
   | Some source \<Rightarrow> push (ex_id source) request)"

definition markEventsFailed :: "error \<Rightarrow> Event list \<Rightarrow> Event list" where
  "markEventsFailed err events = map (\<lambda>event. event\<lparr>ev_Err := Some err, ev_Done := True,
     ev_FinishReason := FinishReasonError, ev_Type := EventTypeRequestFailed\<rparr>) events"

definition batchFailedEvents :: "time \<Rightarrow> Batch \<Rightarrow> string \<Rightarrow> error \<Rightarrow> Event list" where
  "batchFailedEvents now batch executorId err = map (\<lambda>item.
     \<lparr>ev_WorkId = wk_WorkId item, ev_RequestId = wk_RequestId item, ev_BatchId = bt_BatchID batch,
      ev_ExecutorId = executorId, ev_Type = EventTypeRequestFailed, ev_ChunkIndex = 0, ev_TokenId = 0, ev_Done = True,
      ev_Usage = zero_Usage, ev_Timing = zero_Timing, ev_FinishReason = FinishReasonError, ev_At = now,
      ev_Err = Some err\<rparr>) (bt_Items batch)"

text \<open>What the consumer makes of the events and the error an executor returns.\<close>

definition outcomeEvents :: "time \<Rightarrow> Batch \<Rightarrow> string \<Rightarrow> Event list \<Rightarrow> error option \<Rightarrow> Event list" where
  "outcomeEvents now batch executorId events err = (case err of
     None \<Rightarrow> events
   | Some e \<Rightarrow> if events = [] then batchFailedEvents now batch executorId e else markEventsFailed e events)"

subsection \<open>The consumer goroutines\<close>

text \<open>\<open>Consume\<close> starts one per executor.  \<open>None\<close> below means that the step is not enabled.\<close>

definition Consume :: "executor_manager \<Rightarrow> executor_manager" where
  "Consume em = em\<lparr>em_workers := fmap_of_list (map (\<lambda>e. (e, Idle)) (em_executorList em))\<rparr>"

definition setWorker :: "string \<Rightarrow> worker \<Rightarrow> executor_manager \<Rightarrow> executor_manager" where
  "setWorker e w em = em\<lparr>em_workers := fmupd e w (em_workers em)\<rparr>"

definition consumeReceive :: "string \<Rightarrow> executor_manager \<Rightarrow> metrics \<Rightarrow> (executor_manager \<times> metrics) option" where
  "consumeReceive e em mx = (case (fmlookup (em_workers em) e, fmlookup (em_batchChans em) e) of
     (Some Idle, Some (batch # rest)) \<Rightarrow>
       let n = em_inflightBatches em + 1;
           em1 = em\<lparr>em_batchChans := fmupd e rest (em_batchChans em), em_inflightBatches := n\<rparr>
       in Some (setWorker e (Running batch) em1, IncBatches e (SetInflightBatches (sint n) mx))
   | _ \<Rightarrow> None)"

definition afterBatch :: "Event list \<Rightarrow> worker" where
  "afterBatch events = (if events = [] then Idle else Sending events)"

definition consumeExecute :: "time \<Rightarrow> execute_rpc \<Rightarrow> string \<Rightarrow> executor_manager \<Rightarrow> metrics \<Rightarrow> (executor_manager \<times> metrics) option" where
  "consumeExecute now rpc e em mx = (case (fmlookup (em_workers em) e, fmlookup (em_executors em) e) of
     (Some (Running batch), Some x) \<Rightarrow> do {
       r \<leftarrow> Execute rpc x batch;
       let (events, err) = (case r of Inl er \<Rightarrow> ([], Some er) | Inr evs \<Rightarrow> (evs, None));
       let mx1 = (if err = None then mx else IncExecutorErrors e mx);
       let n = em_inflightBatches em - 1;
       Some (setWorker e (afterBatch (outcomeEvents now batch e events err)) (em\<lparr>em_inflightBatches := n\<rparr>),
             SetInflightBatches (sint n) mx1)
     }
   | _ \<Rightarrow> None)"

definition consumeSend :: "string \<Rightarrow> executor_manager \<Rightarrow> executor_manager option" where
  "consumeSend e em = (case fmlookup (em_workers em) e of
     Some (Sending (event # events)) \<Rightarrow>
       if length (em_eventChan em) < eventChanCap
       then Some (setWorker e (afterBatch events) (em\<lparr>em_eventChan := em_eventChan em @ [event]\<rparr>))
       else None
   | _ \<Rightarrow> None)"

text \<open>A consumer waiting to receive or to send returns when the context is done.\<close>

definition consumeStop :: "string \<Rightarrow> executor_manager \<Rightarrow> executor_manager option" where
  "consumeStop e em = (case fmlookup (em_workers em) e of
     Some Idle \<Rightarrow> Some (setWorker e Stopped em)
   | Some (Sending events) \<Rightarrow> Some (setWorker e Stopped em)
   | _ \<Rightarrow> None)"

text \<open>A receive on \<^verbatim>\<open>Events()\<close>.\<close>

definition receiveEvent :: "executor_manager \<Rightarrow> (Event \<times> executor_manager) option" where
  "receiveEvent em = (case em_eventChan em of
     [] \<Rightarrow> None
   | event # events \<Rightarrow> Some (event, em\<lparr>em_eventChan := events\<rparr>))"

subsection \<open>Interleavings\<close>

text \<open>
  Draining steps are the engine's own; the others come from the scheduler's submissions and from
  shutdown.  Every remote call may answer in its own way.
\<close>

type_synonym em_state = "executor_manager \<times> metrics"

inductive drain_step :: "em_state \<Rightarrow> em_state \<Rightarrow> bool" where
  receive: "consumeReceive e em mx = Some s' \<Longrightarrow> drain_step (em, mx) s'"
| execute: "consumeExecute now rpc e em mx = Some s' \<Longrightarrow> drain_step (em, mx) s'"
| send: "consumeSend e em = Some em' \<Longrightarrow> drain_step (em, mx) (em', mx)"
| take: "receiveEvent em = Some (event, em') \<Longrightarrow> drain_step (em, mx) (em', mx)"

inductive em_step :: "em_state \<Rightarrow> em_state \<Rightarrow> bool" where
  drain: "drain_step s s' \<Longrightarrow> em_step s s'"
| submit: "Submit ctx choice batch em = (err, em') \<Longrightarrow> em_step (em, mx) (em', mx)"
| start: "em_workers em = fmempty \<Longrightarrow> em_step (em, mx) (Consume em, mx)"
| stop: "consumeStop e em = Some em' \<Longrightarrow> em_step (em, mx) (em', mx)"

inductive em_reachable :: "em_state \<Rightarrow> bool" where
  init: "NewExecutors get cfg = Some (Inr executors) \<Longrightarrow> em_reachable (NewExecutorManager executors, mx)"
| step: "em_reachable s \<Longrightarrow> em_step s s' \<Longrightarrow> em_reachable s'"

inductive_cases drain_stepE: "drain_step s s'"
inductive_cases em_stepE: "em_step s s'"

end
