(* ===== verification/Executor_Invariant.thy ===== *)
theory Executor_Invariant
  imports Executor_Manager "HOL-Library.Sublist"
begin

text \<open>
  Facts about the wire form of batches and the events of results, and the invariant of the executor
  manager over every interleaving of its consumers: channels stay within their capacity, batches
  and events stay with their executor, and the in-flight counter counts the running batches.
\<close>

subsection \<open>Wire form and events\<close>

definition sendable :: "WorkItem \<Rightarrow> bool" where
  "sendable w \<longleftrightarrow> wk_BlockAllocation w \<noteq> None \<and>
     (wk_Phase w = WorkPhaseDecode \<longrightarrow> unat (wk_NumNewTokens w) \<le> length (wk_TokenIDs w))"

definition wire_of :: "WorkItem \<Rightarrow> ExecuteItem \<Rightarrow> bool" where
  "wire_of w x \<longleftrightarrow> xi_WorkId x = wk_WorkId w \<and> xi_RequestId x = wk_RequestId w \<and>
     xi_NumNewTokens x = wk_NumNewTokens w \<and>
     (\<exists>al. wk_BlockAllocation w = Some al \<and> kb_BlockTable (xi_KvBlocks x) = al_BlockTable al \<and>
        kb_AllocatedBlocks (xi_KvBlocks x) = al_AllocatedBlocks al \<and> kb_BlockSize (xi_KvBlocks x) = al_BlockSize al) \<and>
     (wk_Phase w = WorkPhaseDecode \<longrightarrow> xi_Phase x = WorkPhaseDecode \<and> xi_Sample x \<and>
        length (xi_TokenIds x) = unat (wk_NumNewTokens w) \<and> suffix (xi_TokenIds x) (wk_TokenIDs w)) \<and>
     (wk_Phase w = WorkPhasePrefill \<longrightarrow> xi_Phase x = WorkPhasePrefill \<and> xi_TokenIds x = wk_TokenIDs w \<and>
        xi_ComputedTokens x = wk_PrefillOffset w \<and>
        (xi_Sample x \<longleftrightarrow> nextPhase w None = EventTypePrefillFinished))"

lemma executeItem_Some: "sendable w \<Longrightarrow> \<exists>x. executeItem w = Some x \<and> wire_of w x"
  by (auto simp: sendable_def executeItem_def wire_of_def kvBlocks_def nextPhase_def slice_from_Some suffix_drop)

lemma executeItem_None: "\<not> sendable w \<Longrightarrow> executeItem w = None"
  by (cases "wk_BlockAllocation w") (auto simp: sendable_def executeItem_def split: bind_splits)

lemma executeItems_Some: "\<forall>w \<in> set ws. sendable w \<Longrightarrow> \<exists>xs. executeItems ws = Some xs \<and> list_all2 wire_of ws xs"
proof (induction ws)
  case (Cons w ws)
  then obtain xs where xs: "executeItems ws = Some xs" "list_all2 wire_of ws xs"
    by auto
  obtain x where "executeItem w = Some x" "wire_of w x"
    using executeItem_Some [of w] Cons.prems by auto
  then show ?case
    using xs by simp
qed simp

lemma executeItems_None: "\<exists>w \<in> set ws. \<not> sendable w \<Longrightarrow> executeItems ws = None"
proof (induction ws)
  case (Cons w ws)
  then show ?case
    by (cases "sendable w") (auto simp: executeItem_None split: bind_splits)
qed simp

lemma batchWorks_snoc: "batchWorks (ws @ [w]) = fmupd (wk_WorkId w) w (batchWorks ws)"
  by (simp add: batchWorks_def)

lemma batchWorks_lookup:
  "fmlookup (batchWorks ws) k = Some w \<Longrightarrow> w \<in> set ws \<and> wk_WorkId w = k"
  by (induction ws rule: rev_induct) (auto simp: batchWorks_snoc batchWorks_def split: if_splits)

lemma batchWorks_dom: "has_key (batchWorks ws) k \<longleftrightarrow> k \<in> wk_WorkId ` set ws"
  by (induction ws rule: rev_induct) (auto simp: batchWorks_snoc batchWorks_def)

lemma resultEvents_ids:
  "map ev_WorkId (resultEvents e b works rs) = filter (\<lambda>k. has_key works k) (map xr_WorkId rs)"
  by (induction rs) (auto simp: resultEvent_def Let_def split: option.splits)

lemma resultEvents_from:
  assumes "ev \<in> set (resultEvents e b works rs)"
  shows "\<exists>r w. r \<in> set rs \<and> fmlookup works (xr_WorkId r) = Some w \<and> ev = resultEvent e b w r"
  using assms by (induction rs) (auto split: option.splits)

lemma resultEvents_labels:
  assumes "ev \<in> set (resultEvents e b works rs)"
  shows "ev_ExecutorId ev = e" "ev_BatchId ev = b"
  using resultEvents_from [OF assms] by (auto simp: resultEvent_def Let_def)

subsection \<open>Set-up\<close>

lemma newExecutor_ok:
  assumes "newExecutor get cfg = Some (Inr x)"
  shows "ex_id x = ec_ExecutorID cfg" "es_ExecutorId (ex_runtime x) = ec_ExecutorID cfg"
  using assms by (auto simp: newExecutor_def split: if_splits bind_splits sum.splits)

definition executors_ok :: "(string, executor) fmap \<Rightarrow> bool" where
  "executors_ok xs \<longleftrightarrow> (\<forall>e x. fmlookup xs e = Some x \<longrightarrow> ex_id x = e \<and> es_ExecutorId (ex_runtime x) = e)"

lemma newExecutors_ok:
  "newExecutors get cs xs0 = Some (Inr xs) \<Longrightarrow> executors_ok xs0 \<Longrightarrow>
   executors_ok xs \<and> (\<forall>e. has_key xs e \<longleftrightarrow> has_key xs0 e \<or> e \<in> ec_ExecutorID ` set cs)"
proof (induction cs arbitrary: xs0)
  case (Cons c cs)
  from Cons.prems(1) obtain x where x: "newExecutor (get c) c = Some (Inr x)" "\<not> has_key xs0 (ec_ExecutorID c)"
    "newExecutors get cs (fmupd (ec_ExecutorID c) x xs0) = Some (Inr xs)"
    by (auto split: if_splits bind_splits sum.splits)
  have "executors_ok (fmupd (ec_ExecutorID c) x xs0)"
    using Cons.prems(2) newExecutor_ok [OF x(1)] by (simp add: executors_ok_def)
  from Cons.IH [OF x(3) this] show ?case
    by auto
qed simp

lemma NewExecutors_ok:
  assumes "NewExecutors get cfg = Some (Inr xs)"
  shows "executors_ok xs" "has_key xs e \<longleftrightarrow> e \<in> ec_ExecutorID ` set (cf_Executors cfg)" "xs \<noteq> fmempty"
proof -
  obtain ys where ys: "newExecutors get (cf_Executors cfg) fmempty = Some (Inr ys)" "ys = xs" "map_len xs \<noteq> 0"
    using assms by (auto simp: NewExecutors_def split: bind_splits sum.splits if_splits)
  show "executors_ok xs" "has_key xs e \<longleftrightarrow> e \<in> ec_ExecutorID ` set (cf_Executors cfg)"
    using newExecutors_ok [OF ys(1)] ys(2) by (auto simp: executors_ok_def)
  show "xs \<noteq> fmempty"
    using ys(3) by (auto simp: map_len_def)
qed

subsection \<open>The invariant of the manager\<close>

definition is_running :: "executor_manager \<Rightarrow> string \<Rightarrow> nat" where
  "is_running em e = (case fmlookup (em_workers em) e of Some (Running _) \<Rightarrow> 1 | _ \<Rightarrow> 0)"

definition running :: "executor_manager \<Rightarrow> nat" where
  "running em = (\<Sum>e \<in> set (em_executorList em). is_running em e)"

definition worker_ok :: "string \<Rightarrow> worker \<Rightarrow> bool" where
  "worker_ok e w = (case w of
     Running b \<Rightarrow> bt_ExecutorID b = e
   | Sending evs \<Rightarrow> evs \<noteq> [] \<and> (\<forall>ev \<in> set evs. ev_ExecutorId ev = e)
   | _ \<Rightarrow> True)"

definition em_inv :: "executor_manager \<Rightarrow> bool" where
  "em_inv em \<longleftrightarrow> executors_ok (em_executors em) \<and>
     (\<forall>e. has_key (em_executors em) e \<longleftrightarrow> e \<in> set (em_executorList em)) \<and>
     (\<forall>e. has_key (em_batchChans em) e \<longleftrightarrow> e \<in> set (em_executorList em)) \<and>
     (\<forall>e. has_key (em_workers em) e \<longrightarrow> e \<in> set (em_executorList em)) \<and>
     (\<forall>e bs. fmlookup (em_batchChans em) e = Some bs \<longrightarrow> length bs \<le> batchChanCap \<and> (\<forall>b \<in> set bs. bt_ExecutorID b = e)) \<and>
     (\<forall>e w. fmlookup (em_workers em) e = Some w \<longrightarrow> worker_ok e w) \<and>
     length (em_eventChan em) \<le> eventChanCap \<and>
     (\<forall>ev \<in> set (em_eventChan em). ev_ExecutorId ev \<in> set (em_executorList em)) \<and>
     em_inflightBatches em = of_nat (running em)"

lemma em_invD:
  assumes "em_inv em"
  shows "executors_ok (em_executors em)" "has_key (em_executors em) e \<longleftrightarrow> e \<in> set (em_executorList em)"
    "has_key (em_batchChans em) e \<longleftrightarrow> e \<in> set (em_executorList em)"
    "has_key (em_workers em) e \<Longrightarrow> e \<in> set (em_executorList em)"
    "fmlookup (em_batchChans em) e = Some bs \<Longrightarrow> length bs \<le> batchChanCap \<and> (\<forall>b \<in> set bs. bt_ExecutorID b = e)"
    "fmlookup (em_workers em) e = Some w \<Longrightarrow> worker_ok e w"
    "length (em_eventChan em) \<le> eventChanCap" "ev \<in> set (em_eventChan em) \<Longrightarrow> ev_ExecutorId ev \<in> set (em_executorList em)"
    "em_inflightBatches em = of_nat (running em)"
  using assms by (auto simp: em_inv_def)

text \<open>Replacing one term of a sum.\<close>

lemma sum_replace:
  fixes f g :: "'a \<Rightarrow> nat"
  assumes "finite A" "k \<in> A" "\<And>x. x \<in> A \<Longrightarrow> x \<noteq> k \<Longrightarrow> f x = g x"
  shows "sum f A + g k = sum g A + f k"
proof -
  have "sum f (A - {k}) = sum g (A - {k})"
    using assms(3) by (intro sum.cong) auto
  then show ?thesis
    using sum.remove [OF assms(1,2), of f] sum.remove [OF assms(1,2), of g] by simp
qed

lemma running_setWorker:
  assumes "e \<in> set (em_executorList em)"
  shows "running (setWorker e w em) + is_running em e = running em + (case w of Running _ \<Rightarrow> 1 | _ \<Rightarrow> 0)"
proof -
  have "sum (is_running (setWorker e w em)) (set (em_executorList em)) + is_running em e =
      sum (is_running em) (set (em_executorList em)) + is_running (setWorker e w em) e"
    by (rule sum_replace) (use assms in \<open>auto simp: is_running_def setWorker_def\<close>)
  then show ?thesis
    by (simp add: running_def setWorker_def is_running_def split: worker.splits)
qed

lemma em_inv_new: "executors_ok xs \<Longrightarrow> em_inv (NewExecutorManager xs)"
  by (auto simp: em_inv_def NewExecutorManager_def Let_def fmlookup_of_list map_of_map_restrict restrict_map_def
      running_def is_running_def fmlookup_dom_iff split: if_splits)

lemma em_inv_Consume:
  assumes "em_inv em" "em_workers em = fmempty"
  shows "em_inv (Consume em)"
proof -
  have *: "fmlookup (fmap_of_list (map (\<lambda>e. (e, Idle)) L)) e = (if e \<in> set L then Some Idle else None)" for L e
    by (simp add: fmlookup_of_list map_of_map_restrict restrict_map_def)
  have "running em = 0" "running (Consume em) = 0"
    using assms(2) by (auto simp: running_def is_running_def Consume_def * intro!: sum.neutral)
  then show ?thesis
    using assms(1) by (auto simp: em_inv_def Consume_def * worker_ok_def split: if_splits)
qed

lemma em_inv_Submit:
  assumes "em_inv em" "Submit ctx choice batch em = (err, em')"
  shows "em_inv em'"
proof (cases "em' = em")
  case False
  then obtain b bs where b: "batch = Some b" "fmlookup (em_batchChans em) (bt_ExecutorID b) = Some bs"
      "length bs < batchChanCap" "em' = em\<lparr>em_batchChans := fmupd (bt_ExecutorID b) (bs @ [b]) (em_batchChans em)\<rparr>"
    using assms(2) by (auto simp: Submit_def split: option.splits if_splits)
  have "running em' = running em"
    by (simp add: b(4) running_def is_running_def)
  then show ?thesis
    using assms(1) b(2,3) em_invD(3) [OF assms(1), of "bt_ExecutorID b"] em_invD(5) [OF assms(1) b(2)]
    by (auto simp: em_inv_def b(4))
qed (use assms in simp)

lemma em_inv_worker:
  assumes inv: "em_inv em" and e: "e \<in> set (em_executorList em)" and w: "worker_ok e w"
    and em': "em_executors em' = em_executors em" "em_executorList em' = em_executorList em"
      "em_workers em' = fmupd e w (em_workers em)"
      "em_inflightBatches em' + of_nat (is_running em e) = em_inflightBatches em + of_nat (case w of Running _ \<Rightarrow> 1 | _ \<Rightarrow> 0)"
    and chans: "\<And>k. has_key (em_batchChans em') k \<longleftrightarrow> k \<in> set (em_executorList em)"
      "\<And>k bs. fmlookup (em_batchChans em') k = Some bs \<Longrightarrow> length bs \<le> batchChanCap \<and> (\<forall>b \<in> set bs. bt_ExecutorID b = k)"
      "length (em_eventChan em') \<le> eventChanCap" "\<And>ev. ev \<in> set (em_eventChan em') \<Longrightarrow> ev_ExecutorId ev \<in> set (em_executorList em)"
  shows "em_inv em'"
proof -
  have "running em' = running (setWorker e w em)"
    by (simp add: running_def is_running_def setWorker_def em')
  then have "of_nat (running em') + of_nat (is_running em e) = (of_nat (running em) + of_nat (case w of Running _ \<Rightarrow> 1 | _ \<Rightarrow> 0) :: u64)"
    using arg_cong [OF running_setWorker [OF e, of w], of "of_nat :: nat \<Rightarrow> u64"] by (simp only: of_nat_add)
  then have "em_inflightBatches em' = of_nat (running em')"
    using em'(4) em_invD(9) [OF inv] by (metis add_right_cancel)
  then show ?thesis
    using inv e w chans by (auto simp: em_inv_def em')
qed

lemma em_inv_receive:
  assumes inv: "em_inv em" and "consumeReceive e em mx = Some (em', mx')"
  shows "em_inv em'"
proof -
  obtain batch rest where b: "fmlookup (em_workers em) e = Some Idle" "fmlookup (em_batchChans em) e = Some (batch # rest)"
      "em' = setWorker e (Running batch) (em\<lparr>em_batchChans := fmupd e rest (em_batchChans em), em_inflightBatches := em_inflightBatches em + 1\<rparr>)"
    using assms(2) by (auto simp: consumeReceive_def Let_def split: option.splits worker.splits list.splits)
  have e: "e \<in> set (em_executorList em)"
    using em_invD(4) [OF inv] b(1) by auto
  show ?thesis
  proof (rule em_inv_worker [OF inv e, of "Running batch"])
    show "worker_ok e (Running batch)"
      using em_invD(5) [OF inv b(2)] by (simp add: worker_ok_def)
    show "em_inflightBatches em' + of_nat (is_running em e) =
        em_inflightBatches em + of_nat (case Running batch of Running _ \<Rightarrow> 1 | _ \<Rightarrow> 0)"
      by (simp add: b(3) setWorker_def is_running_def b(1))
    show "length bs \<le> batchChanCap \<and> (\<forall>b \<in> set bs. bt_ExecutorID b = k)" if "fmlookup (em_batchChans em') k = Some bs" for k bs
      using that em_invD(5) [OF inv b(2)] em_invD(5) [OF inv, of k bs] by (auto simp: b(3) setWorker_def split: if_splits)
    show "has_key (em_batchChans em') k \<longleftrightarrow> k \<in> set (em_executorList em)" for k
      using em_invD(3) [OF inv, of k] e by (auto simp: b(3) setWorker_def)
  qed (use em_invD(7,8) [OF inv] in \<open>auto simp: b(3) setWorker_def\<close>)
qed

lemma outcomeEvents_executor:
  assumes "\<And>ev. ev \<in> set events \<Longrightarrow> ev_ExecutorId ev = e" "ev \<in> set (outcomeEvents now batch e events err)"
  shows "ev_ExecutorId ev = e"
  using assms by (auto simp: outcomeEvents_def batchFailedEvents_def markEventsFailed_def split: option.splits if_splits)

lemma Execute_executor: "Execute rpc x batch = Some (Inr evs) \<Longrightarrow> ev \<in> set evs \<Longrightarrow> ev_ExecutorId ev = ex_id x"
  by (auto simp: Execute_def resultEvents_labels(1) split: bind_splits sum.splits)

text \<open>A completed remote call, as the consumer sees it.\<close>

lemma consumeExecute_cases:
  assumes "consumeExecute now rpc e em mx = Some (em', mx')"
  obtains batch x r events err where "fmlookup (em_workers em) e = Some (Running batch)"
    "fmlookup (em_executors em) e = Some x" "Execute rpc x batch = Some r"
    "(events, err) = (case r of Inl er \<Rightarrow> ([], Some er) | Inr evs \<Rightarrow> (evs, None))"
    "em' = setWorker e (afterBatch (outcomeEvents now batch e events err)) (em\<lparr>em_inflightBatches := em_inflightBatches em - 1\<rparr>)"
  using assms that by (auto simp: consumeExecute_def Let_def split: option.splits worker.splits bind_splits sum.splits prod.splits)

lemma worker_ok_afterBatch: "(\<And>ev. ev \<in> set evs \<Longrightarrow> ev_ExecutorId ev = e) \<Longrightarrow> worker_ok e (afterBatch evs)"
  by (simp add: worker_ok_def afterBatch_def)

lemma running_afterBatch [simp]: "(case afterBatch evs of Running _ \<Rightarrow> 1 | _ \<Rightarrow> 0) = (0 :: nat)"
  by (simp add: afterBatch_def)

lemma em_inv_execute:
  assumes inv: "em_inv em" and "consumeExecute now rpc e em mx = Some (em', mx')"
  shows "em_inv em'"
proof -
  obtain batch x r events err where b: "fmlookup (em_workers em) e = Some (Running batch)"
    "fmlookup (em_executors em) e = Some x" "Execute rpc x batch = Some r"
    "(events, err) = (case r of Inl er \<Rightarrow> ([], Some er) | Inr evs \<Rightarrow> (evs, None))"
    "em' = setWorker e (afterBatch (outcomeEvents now batch e events err)) (em\<lparr>em_inflightBatches := em_inflightBatches em - 1\<rparr>)"
    by (rule consumeExecute_cases [OF assms(2)])
  have e: "e \<in> set (em_executorList em)"
    using em_invD(4) [OF inv] b(1) by auto
  have "ex_id x = e"
    using em_invD(1) [OF inv] b(2) by (simp add: executors_ok_def)
  then have evs: "ev_ExecutorId ev = e" if "ev \<in> set events" for ev
    using b(3,4) that Execute_executor [of rpc x batch] by (cases r) auto
  show ?thesis
  proof (rule em_inv_worker [OF inv e, of "afterBatch (outcomeEvents now batch e events err)"])
    show "worker_ok e (afterBatch (outcomeEvents now batch e events err))"
      using outcomeEvents_executor [OF evs] by (auto intro: worker_ok_afterBatch)
    show "has_key (em_batchChans em') k \<longleftrightarrow> k \<in> set (em_executorList em)" for k
      using em_invD(3) [OF inv, of k] by (simp add: b(5) setWorker_def)
    show "length bs \<le> batchChanCap \<and> (\<forall>b \<in> set bs. bt_ExecutorID b = k)" if "fmlookup (em_batchChans em') k = Some bs" for k bs
      using that em_invD(5) [OF inv] by (simp add: b(5) setWorker_def)
  qed (use em_invD(7,8) [OF inv] in \<open>auto simp: b(5) setWorker_def is_running_def b(1)\<close>)
qed

lemma em_inv_send:
  assumes inv: "em_inv em" and "consumeSend e em = Some em'"
  shows "em_inv em'"
proof -
  obtain ev evs where b: "fmlookup (em_workers em) e = Some (Sending (ev # evs))" "length (em_eventChan em) < eventChanCap"
      "em' = setWorker e (afterBatch evs) (em\<lparr>em_eventChan := em_eventChan em @ [ev]\<rparr>)"
    using assms(2) by (auto simp: consumeSend_def split: option.splits worker.splits list.splits if_splits)
  have e: "e \<in> set (em_executorList em)"
    using em_invD(4) [OF inv] b(1) by auto
  have w: "worker_ok e (Sending (ev # evs))"
    by (rule em_invD(6) [OF inv b(1)])
  show ?thesis
  proof (rule em_inv_worker [OF inv e, of "afterBatch evs"])
    show "worker_ok e (afterBatch evs)"
      using w by (auto simp: worker_ok_def intro: worker_ok_afterBatch [unfolded worker_ok_def])
    show "has_key (em_batchChans em') k \<longleftrightarrow> k \<in> set (em_executorList em)" for k
      using em_invD(3) [OF inv, of k] by (simp add: b(3) setWorker_def)
    show "length bs \<le> batchChanCap \<and> (\<forall>b \<in> set bs. bt_ExecutorID b = k)" if "fmlookup (em_batchChans em') k = Some bs" for k bs
      using that em_invD(5) [OF inv] by (simp add: b(3) setWorker_def)
    show "ev_ExecutorId v \<in> set (em_executorList em)" if "v \<in> set (em_eventChan em')" for v
      using that w e em_invD(8) [OF inv] by (auto simp: b(3) setWorker_def worker_ok_def)
  qed (use b(2) in \<open>auto simp: b(3) setWorker_def is_running_def b(1)\<close>)
qed

lemma em_inv_stop:
  assumes inv: "em_inv em" and "consumeStop e em = Some em'"
  shows "em_inv em'"
proof -
  obtain w where b: "fmlookup (em_workers em) e = Some w" "\<forall>b. w \<noteq> Running b" "em' = setWorker e Stopped em"
    using assms(2) by (auto simp: consumeStop_def split: option.splits worker.splits)
  have e: "e \<in> set (em_executorList em)"
    using em_invD(4) [OF inv] b(1) by auto
  show ?thesis
  proof (rule em_inv_worker [OF inv e, of Stopped])
    show "has_key (em_batchChans em') k \<longleftrightarrow> k \<in> set (em_executorList em)" for k
      using em_invD(3) [OF inv, of k] by (simp add: b(3) setWorker_def)
    show "length bs \<le> batchChanCap \<and> (\<forall>b \<in> set bs. bt_ExecutorID b = k)" if "fmlookup (em_batchChans em') k = Some bs" for k bs
      using that em_invD(5) [OF inv] by (simp add: b(3) setWorker_def)
  qed (use em_invD(7,8) [OF inv] b(2) in \<open>auto simp: b(3) setWorker_def worker_ok_def is_running_def b(1) split: worker.splits\<close>)
qed

lemma em_inv_take:
  assumes "em_inv em" "receiveEvent em = Some (ev, em')"
  shows "em_inv em'"
proof -
  obtain evs where b: "em_eventChan em = ev # evs" "em' = em\<lparr>em_eventChan := evs\<rparr>"
    using assms(2) by (auto simp: receiveEvent_def split: list.splits)
  have "running em' = running em"
    by (simp add: b(2) running_def is_running_def)
  then show ?thesis
    using assms(1) b by (auto simp: em_inv_def)
qed

lemma em_inv_drain: "drain_step s s' \<Longrightarrow> em_inv (fst s) \<Longrightarrow> em_inv (fst s')"
  by (cases s'; erule drain_step.cases) (auto intro: em_inv_receive em_inv_execute em_inv_send em_inv_take)

lemma em_inv_step: "em_step s s' \<Longrightarrow> em_inv (fst s) \<Longrightarrow> em_inv (fst s')"
  by (erule em_step.cases) (auto intro: em_inv_drain em_inv_Submit em_inv_Consume em_inv_stop)

lemma em_reachable_inv: "em_reachable s \<Longrightarrow> em_inv (fst s)"
  by (induction rule: em_reachable.induct) (auto intro: em_inv_step em_inv_new NewExecutors_ok(1))

end
