(* ===== verification/Placement.thy ===== *)
theory Placement
  imports Registry_Invariant Executor_Invariant
begin

text \<open>
  The placement coordinator, \<^verbatim>\<open>internal/placement/coordinator.go\<close>: one prefix replication as a
  transaction over the block registry and the executors.  What it needs of the executors is its
  interface \<^verbatim>\<open>executorControl\<close>: the runtimes they reported and the push command.
\<close>

subsection \<open>Definitions\<close>

text \<open>A runtime pointer and a response pointer may be nil.\<close>

type_synonym runtime_states = "(string, ExecutorStats option) fmap"
type_synonym kv_push = "TriggerKVPushRequest \<Rightarrow> TriggerKVPushResponse option result"

definition runtimeFor :: "runtime_states \<Rightarrow> string \<Rightarrow> ExecutorStats result" where
  "runtimeFor runtimes executorID = (case fmlookup runtimes executorID of
     Some (Some runtime) \<Rightarrow>
       if es_ExecutorId runtime \<noteq> executorID
       then Inl (Errorf (''runtime executor ID '' @ es_ExecutorId runtime @ '' does not match requested executor '' @ executorID) [])
       else Inr runtime
   | _ \<Rightarrow> Inl (Errorf (''runtime for executor '' @ executorID @ '' not found'') []))"

definition validateResponse :: "TriggerKVPushResponse option \<Rightarrow> TransferPlan \<Rightarrow> u32 \<Rightarrow> u32 \<Rightarrow> error option" where
  "validateResponse response plan sourceRuntimeEpoch destinationRuntimeEpoch = (case response of
     None \<Rightarrow> Some (Errorf ''executor returned no transfer response'' [])
   | Some r \<Rightarrow>
       if kp_TransferId r \<noteq> tp_TransferID plan \<or> kp_SourceExecutorId r \<noteq> tp_SourceExecutorID plan \<or>
          kp_SourceRuntimeEpoch r \<noteq> sourceRuntimeEpoch \<or> kp_DestinationExecutorId r \<noteq> tp_DestinationExecutorID plan \<or>
          kp_DestinationRuntimeEpoch r \<noteq> destinationRuntimeEpoch
       then Some (Errorf (''executor returned mismatched confirmation for transfer '' @ tp_TransferID plan) [])
       else None)"

definition coordinator_rollback :: "string \<Rightarrow> error \<Rightarrow> registry \<Rightarrow> (error \<times> registry) option" where
  "coordinator_rollback transferID cause r = do {
     (err, r1) \<leftarrow> RollbackTransfer transferID r;
     Some (case err of
         None \<Rightarrow> cause
       | Some e \<Rightarrow> Joined [cause, Errorf (''rollback transfer: '' @ error_Error e) [e]], r1)
   }"

definition pushRequest :: "TransferPlan \<Rightarrow> ExecutorStats \<Rightarrow> ExecutorStats \<Rightarrow> TriggerKVPushRequest" where
  "pushRequest plan source destination = \<lparr>
     kq_TransferId = tp_TransferID plan,
     kq_SourceExecutorId = tp_SourceExecutorID plan,
     kq_SourceRuntimeEpoch = es_RuntimeEpoch source,
     kq_SourceBlockIds = tp_SourceBlockIDs plan,
     kq_DestinationExecutorId = tp_DestinationExecutorID plan,
     kq_DestinationRuntimeEpoch = es_RuntimeEpoch destination,
     kq_DestinationTransferEndpoint = es_TransferEndpoint destination,
     kq_KvCompatibilityId = es_KVCompatibilityID source,
     kq_BlockHashes = tp_BlockHashes plan,
     kq_DestinationBlockIds = tp_DestinationBlockIDs plan\<rparr>"

text \<open>The part of \<^verbatim>\<open>Replicate\<close> after the plan is prepared: push, validate, commit, or roll back.\<close>

definition executeTransfer :: "kv_push \<Rightarrow> ExecutorStats \<Rightarrow> ExecutorStats \<Rightarrow> TransferPlan \<Rightarrow> registry \<Rightarrow>
    (TransferPlan result \<times> registry) option" where
  "executeTransfer push source destination plan r =
     (let abort = (\<lambda>cause r. map_option (\<lambda>(e, r1). (Inl e, r1)) (coordinator_rollback (tp_TransferID plan) cause r))
      in case push (pushRequest plan source destination) of
        Inl err \<Rightarrow> abort (Errorf (''trigger KV push: '' @ error_Error err) [err]) r
      | Inr response \<Rightarrow> (case validateResponse response plan (es_RuntimeEpoch source) (es_RuntimeEpoch destination) of
          Some err \<Rightarrow> abort err r
        | None \<Rightarrow> do {
            (err, r1) \<leftarrow> CommitTransfer (tp_TransferID plan) r;
            case err of
              Some e \<Rightarrow> abort (Errorf (''commit transfer: '' @ error_Error e) [e]) r1
            | None \<Rightarrow> Some (Inr plan, r1)
          }))"

definition Replicate :: "runtime_states \<Rightarrow> kv_push \<Rightarrow> string \<Rightarrow> string \<Rightarrow> string \<Rightarrow> string list \<Rightarrow> registry \<Rightarrow>
    (TransferPlan result \<times> registry) option" where
  "Replicate runtimes push uuid sourceID destinationID hashes r =
     (case runtimeFor runtimes sourceID of
        Inl err \<Rightarrow> Some (Inl err, r)
      | Inr source \<Rightarrow> (case runtimeFor runtimes destinationID of
          Inl err \<Rightarrow> Some (Inl err, r)
        | Inr destination \<Rightarrow>
            if es_KVCompatibilityID source = [] \<or> es_KVCompatibilityID source \<noteq> es_KVCompatibilityID destination
            then Some (Inl (Errorf (''executors '' @ sourceID @ '' and '' @ destinationID @ '' are not KV compatible'') []), r)
            else if es_TransferEndpoint destination = []
            then Some (Inl (Errorf (''destination executor '' @ destinationID @ '' has no transfer endpoint'') []), r)
            else do {
              (res, r1) \<leftarrow> PrepareTransfer uuid sourceID destinationID hashes r;
              case res of
                Inl err \<Rightarrow> Some (Inl err, r1)
              | Inr plan \<Rightarrow> executeTransfer push source destination plan r1
            }))"

subsection \<open>The transaction\<close>

text \<open>What an executor's confirmation must say.\<close>

definition confirms :: "TriggerKVPushResponse \<Rightarrow> TransferPlan \<Rightarrow> ExecutorStats \<Rightarrow> ExecutorStats \<Rightarrow> bool" where
  "confirms q plan source destination \<longleftrightarrow> kp_TransferId q = tp_TransferID plan \<and>
     kp_SourceExecutorId q = tp_SourceExecutorID plan \<and> kp_DestinationExecutorId q = tp_DestinationExecutorID plan \<and>
     kp_SourceRuntimeEpoch q = es_RuntimeEpoch source \<and> kp_DestinationRuntimeEpoch q = es_RuntimeEpoch destination"

lemma validateResponse_None_iff:
  "validateResponse resp plan (es_RuntimeEpoch s) (es_RuntimeEpoch d) = None \<longleftrightarrow> (\<exists>q. resp = Some q \<and> confirms q plan s d)"
  by (auto simp: validateResponse_def confirms_def split: option.splits)

text \<open>A pending plan is either installed or undone; nothing stays pending.\<close>

lemma executeTransfer_spec:
  assumes inv: "reg_inv r" and t: "fmlookup (r_pendingTransfers r) (tp_TransferID plan) = Some plan"
  shows "\<exists>res r'. executeTransfer push s d plan r = Some (res, r') \<and> reg_inv r' \<and>
    r_pendingTransfers r' = fmdrop (tp_TransferID plan) (r_pendingTransfers r) \<and>
    (case res of
       Inr p \<Rightarrow> p = plan \<and> (\<exists>q. push (pushRequest plan s d) = Inr (Some q) \<and> confirms q plan s d) \<and>
         (\<exists>m. fmlookup (r_managers r') (tp_DestinationExecutorID plan) = Some m \<and> (\<forall>h \<in> set (tp_BlockHashes plan). indexed m h))
     | Inl e \<Rightarrow> \<not> (\<exists>q. push (pushRequest plan s d) = Inr (Some q) \<and> confirms q plan s d))"
proof -
  obtain rb where rb: "RollbackTransfer (tp_TransferID plan) r = Some (None, rb)" "reg_inv rb"
      "r_pendingTransfers rb = fmdrop (tp_TransferID plan) (r_pendingTransfers r)"
    using RollbackTransfer_inv [OF inv t] by blast
  obtain rc m where rc: "CommitTransfer (tp_TransferID plan) r = Some (None, rc)" "reg_inv rc"
      "r_pendingTransfers rc = fmdrop (tp_TransferID plan) (r_pendingTransfers r)"
      "fmlookup (r_managers rc) (tp_DestinationExecutorID plan) = Some m" "\<forall>h \<in> set (tp_BlockHashes plan). indexed m h"
    using CommitTransfer_inv [OF inv t] by blast
  show ?thesis
  proof (cases "push (pushRequest plan s d)")
    case (Inl err)
    then show ?thesis
      using rb by (simp add: executeTransfer_def coordinator_rollback_def)
  next
    case (Inr resp)
    show ?thesis
    proof (cases "validateResponse resp plan (es_RuntimeEpoch s) (es_RuntimeEpoch d)")
      case None
      then show ?thesis
        using Inr rc validateResponse_None_iff [of resp plan s d] by (auto simp: executeTransfer_def)
    next
      case (Some err)
      then show ?thesis
        using Inr rb validateResponse_None_iff [of resp plan s d] by (auto simp: executeTransfer_def coordinator_rollback_def)
    qed
  qed
qed

subsection \<open>The interface to the executors\<close>

text \<open>
  The coordinator relies on the runtimes being filed under the executors' own names.  Under that
  law a runtime is found exactly for the executors there are, and a replication does one of three
  things: it refuses before touching the registry, it leaves the registry's pending transfers as
  they were with an error, or it installs the prefix with a confirmed push.
\<close>

locale executor_control =
  fixes ok :: "'m \<Rightarrow> bool"
    and states :: "'m \<Rightarrow> runtime_states"
    and push :: "'m \<Rightarrow> kv_push"
  assumes own_name: "ok m \<Longrightarrow> fmlookup (states m) e = Some (Some rt) \<Longrightarrow> es_ExecutorId rt = e"
begin

lemma runtime_found: "ok m \<Longrightarrow> runtimeFor (states m) e = Inr rt \<longleftrightarrow> fmlookup (states m) e = Some (Some rt)"
  using own_name [of m e] by (auto simp: runtimeFor_def split: option.splits)

definition compatible :: "'m \<Rightarrow> string \<Rightarrow> string \<Rightarrow> bool" where
  "compatible m a b \<longleftrightarrow> (\<exists>s d. fmlookup (states m) a = Some (Some s) \<and> fmlookup (states m) b = Some (Some d) \<and>
     es_KVCompatibilityID s \<noteq> [] \<and> es_KVCompatibilityID s = es_KVCompatibilityID d \<and> es_TransferEndpoint d \<noteq> [])"

lemma incompatible_refused:
  assumes "ok m" "\<not> compatible m a b"
  shows "\<exists>err. Replicate (states m) (push m) uuid a b hs r = Some (Inl err, r)"
proof (cases "runtimeFor (states m) a")
  case (Inr s)
  note s = this
  show ?thesis
  proof (cases "runtimeFor (states m) b")
    case (Inr d)
    have "fmlookup (states m) a = Some (Some s)" "fmlookup (states m) b = Some (Some d)"
      using runtime_found [OF assms(1), THEN iffD1, OF s] runtime_found [OF assms(1), THEN iffD1, OF Inr] by simp_all
    then have "es_KVCompatibilityID s = [] \<or> es_KVCompatibilityID s \<noteq> es_KVCompatibilityID d \<or> es_TransferEndpoint d = []"
      using assms(2) by (auto simp: compatible_def)
    then show ?thesis
      using s Inr by (auto simp: Replicate_def)
  qed (simp add: Replicate_def s)
qed (simp add: Replicate_def)

lemma replicate_transaction:
  assumes ok: "ok m" and c: "compatible m a b" and inv: "reg_inv r" and may: "may_prepare a hs r"
  shows "\<exists>res r'. Replicate (states m) (push m) uuid a b hs r = Some (res, r') \<and> reg_inv r' \<and>
    r_pendingTransfers r' = r_pendingTransfers r \<and>
    (case res of Inl e \<Rightarrow> True
     | Inr p \<Rightarrow> \<exists>s d q dm. fmlookup (states m) a = Some (Some s) \<and> fmlookup (states m) b = Some (Some d) \<and>
         push m (pushRequest p s d) = Inr (Some q) \<and> confirms q p s d \<and>
         tp_SourceExecutorID p = a \<and> tp_DestinationExecutorID p = b \<and> tp_BlockHashes p = hs \<and>
         fmlookup (r_managers r') b = Some dm \<and> (\<forall>h \<in> set hs. indexed dm h))"
proof -
  obtain s d where sd: "fmlookup (states m) a = Some (Some s)" "fmlookup (states m) b = Some (Some d)"
      "es_KVCompatibilityID s \<noteq> []" "es_KVCompatibilityID s = es_KVCompatibilityID d" "es_TransferEndpoint d \<noteq> []"
    using c by (auto simp: compatible_def)
  obtain res r1 where p: "PrepareTransfer uuid a b hs r = Some (res, r1)" "reg_inv r1"
      "case res of Inl e \<Rightarrow> r_pendingTransfers r1 = r_pendingTransfers r
       | Inr p \<Rightarrow> r_pendingTransfers r1 = fmupd uuid p (r_pendingTransfers r) \<and>
           \<not> has_key (r_pendingTransfers r) uuid \<and> tp_TransferID p = uuid \<and>
           tp_SourceExecutorID p = a \<and> tp_DestinationExecutorID p = b \<and> tp_BlockHashes p = hs"
    using PrepareTransfer_inv [OF inv may, of uuid b] by blast
  have rep: "Replicate (states m) (push m) uuid a b hs r =
      (case res of Inl err \<Rightarrow> Some (Inl err, r1) | Inr plan \<Rightarrow> executeTransfer (push m) s d plan r1)"
    using sd runtime_found [OF ok, THEN iffD2, OF sd(1)] runtime_found [OF ok, THEN iffD2, OF sd(2)] p(1)
    by (simp add: Replicate_def)
  show ?thesis
  proof (cases res)
    case (Inl err)
    then show ?thesis
      using p rep by simp
  next
    case (Inr plan)
    then have t: "tp_TransferID plan = uuid" "fmlookup (r_pendingTransfers r1) (tp_TransferID plan) = Some plan"
        "fmdrop uuid (r_pendingTransfers r1) = r_pendingTransfers r" and f: "tp_SourceExecutorID plan = a"
        "tp_DestinationExecutorID plan = b" "tp_BlockHashes plan = hs"
      using p(3) by (auto simp: fmdrop_fmupd_same fmdrop_idle fmdom_notI)
    obtain res' r' where e: "executeTransfer (push m) s d plan r1 = Some (res', r')" "reg_inv r'"
        "r_pendingTransfers r' = r_pendingTransfers r"
        "case res' of
           Inr p \<Rightarrow> p = plan \<and> (\<exists>q. push m (pushRequest plan s d) = Inr (Some q) \<and> confirms q plan s d) \<and>
             (\<exists>dm. fmlookup (r_managers r') b = Some dm \<and> (\<forall>h \<in> set hs. indexed dm h))
         | Inl e \<Rightarrow> \<not> (\<exists>q. push m (pushRequest plan s d) = Inr (Some q) \<and> confirms q plan s d)"
      using executeTransfer_spec [OF p(2) t(2), of "push m" s d] unfolding t(1,3) f by blast
    show ?thesis
      by (rule exI [of _ res'], rule exI [of _ r'])
        (use e sd f rep Inr in \<open>auto split: sum.splits\<close>)
  qed
qed

end

subsection \<open>The executor manager provides it\<close>

definition controlStates :: "executor_manager \<Rightarrow> runtime_states" where
  "controlStates em = fmmap Some (GetRuntimeStates em)"

definition controlPush :: "push_rpc \<Rightarrow> executor_manager \<Rightarrow> kv_push" where
  "controlPush push em request = map_sum id Some (TriggerKVPush push em request)"

lemma GetRuntimeStates_lookup:
  assumes "executors_ok (em_executors em)"
  shows "fmlookup (GetRuntimeStates em) e = map_option ex_runtime (fmlookup (em_executors em) e)"
proof -
  let ?f = "\<lambda>rs k. case fmlookup (em_executors em) k of None \<Rightarrow> rs | Some x \<Rightarrow> fmupd (es_ExecutorId (ex_runtime x)) (ex_runtime x) rs"
  have "fmlookup (foldl ?f m es) e = (if e \<in> set es \<and> has_key (em_executors em) e
      then map_option ex_runtime (fmlookup (em_executors em) e) else fmlookup m e)" for es m
  proof (induction es arbitrary: m)
    case (Cons k es)
    show ?case
      using assms unfolding foldl_Cons Cons.IH
      by (auto simp: executors_ok_def split: option.splits)
  qed simp
  then show ?thesis
    by (auto simp: GetRuntimeStates_def fmlookup_dom_iff)
qed

interpretation ctl: executor_control "\<lambda>(rpc, em). em_inv em" "\<lambda>(rpc, em). controlStates em" "\<lambda>(rpc, em). controlPush rpc em"
proof
  fix m :: "push_rpc \<times> executor_manager" and e rt
  obtain rpc em where m: "m = (rpc, em)"
    by (cases m)
  assume "case m of (rpc, em) \<Rightarrow> em_inv em" "fmlookup (case m of (rpc, em) \<Rightarrow> controlStates em) e = Some (Some rt)"
  then show "es_ExecutorId rt = e"
    using em_invD(1) [of em] by (auto simp: m controlStates_def GetRuntimeStates_lookup executors_ok_def)
qed

end
