(* ===== verification/Executor_Drain.thy ===== *)
theory Executor_Drain
  imports Executor_Invariant
begin

text \<open>
  Draining: left to themselves, running consumers and a receiver of events bring the manager, in
  finitely many steps and whatever the executors answer, to a state with nothing queued.  The
  measure orders a state by queued batches, running batches, unsent events and unread events.
\<close>

definition queued :: "executor_manager \<Rightarrow> string \<Rightarrow> nat" where
  "queued em e = (case fmlookup (em_batchChans em) e of None \<Rightarrow> 0 | Some bs \<Rightarrow> length bs)"

definition unsent :: "executor_manager \<Rightarrow> string \<Rightarrow> nat" where
  "unsent em e = (case fmlookup (em_workers em) e of Some (Sending evs) \<Rightarrow> length evs | _ \<Rightarrow> 0)"

definition total :: "(executor_manager \<Rightarrow> string \<Rightarrow> nat) \<Rightarrow> em_state \<Rightarrow> nat" where
  "total f s = (\<Sum>e \<in> set (em_executorList (fst s)). f (fst s) e)"

definition drain_order :: "(em_state \<times> em_state) set" where
  "drain_order = measures [total queued, total is_running, total unsent, \<lambda>s. length (em_eventChan (fst s))]"

lemma wf_drain_order: "wf drain_order"
  by (simp add: drain_order_def)

lemma total_change:
  assumes "e \<in> set (em_executorList em)" "em_executorList em' = em_executorList em"
    "\<And>k. k \<noteq> e \<Longrightarrow> f em' k = f em k"
  shows "total f (em', mx') + f em e = total f (em, mx) + f em' e"
proof -
  have "(\<Sum>k \<in> set (em_executorList em). f em' k) + f em e = (\<Sum>k \<in> set (em_executorList em). f em k) + f em' e"
    by (rule sum_replace [OF _ assms(1)]) (use assms(3) in auto)
  then show ?thesis
    by (simp add: total_def assms(2))
qed

lemma total_same:
  assumes "em_executorList em' = em_executorList em" "\<And>k. f em' k = f em k"
  shows "total f (em', mx') = total f (em, mx)"
  using assms by (simp add: total_def)

lemma drain_receive:
  assumes inv: "em_inv em" and "consumeReceive e em mx = Some (em', mx')"
  shows "((em', mx'), (em, mx)) \<in> drain_order"
proof -
  obtain batch rest where b: "fmlookup (em_workers em) e = Some Idle" "fmlookup (em_batchChans em) e = Some (batch # rest)"
      "em' = setWorker e (Running batch) (em\<lparr>em_batchChans := fmupd e rest (em_batchChans em), em_inflightBatches := em_inflightBatches em + 1\<rparr>)"
    using assms(2) by (auto simp: consumeReceive_def Let_def split: option.splits worker.splits list.splits)
  have "total queued (em', mx') + queued em e = total queued (em, mx) + queued em' e"
    by (rule total_change) (use em_invD(4) [OF inv, of e] b(1) in \<open>auto simp: b(3) setWorker_def queued_def\<close>)
  then show ?thesis
    by (simp add: drain_order_def queued_def b setWorker_def)
qed

lemma drain_execute:
  assumes inv: "em_inv em" and "consumeExecute now rpc e em mx = Some (em', mx')"
  shows "((em', mx'), (em, mx)) \<in> drain_order"
proof -
  obtain batch x r events err where b: "fmlookup (em_workers em) e = Some (Running batch)"
    "fmlookup (em_executors em) e = Some x" "Execute rpc x batch = Some r"
    "(events, err) = (case r of Inl er \<Rightarrow> ([], Some er) | Inr evs \<Rightarrow> (evs, None))"
    "em' = setWorker e (afterBatch (outcomeEvents now batch e events err)) (em\<lparr>em_inflightBatches := em_inflightBatches em - 1\<rparr>)"
    by (rule consumeExecute_cases [OF assms(2)])
  have "total queued (em', mx') = total queued (em, mx)"
    by (rule total_same) (simp_all add: b(5) setWorker_def queued_def)
  moreover have "total is_running (em', mx') + is_running em e = total is_running (em, mx) + is_running em' e"
    by (rule total_change) (use em_invD(4) [OF inv, of e] b(1) in \<open>auto simp: b(5) setWorker_def is_running_def\<close>)
  moreover have "is_running em e = 1" "is_running em' e = 0"
    by (simp_all add: is_running_def b(1,5) setWorker_def afterBatch_def)
  ultimately show ?thesis
    by (simp add: drain_order_def)
qed

lemma drain_send:
  assumes inv: "em_inv em" and "consumeSend e em = Some em'"
  shows "((em', mx), (em, mx)) \<in> drain_order"
proof -
  obtain ev evs where b: "fmlookup (em_workers em) e = Some (Sending (ev # evs))"
      "em' = setWorker e (afterBatch evs) (em\<lparr>em_eventChan := em_eventChan em @ [ev]\<rparr>)"
    using assms(2) by (auto simp: consumeSend_def split: option.splits worker.splits list.splits if_splits)
  have e: "e \<in> set (em_executorList em)"
    using em_invD(4) [OF inv, of e] b(1) by auto
  have "total queued (em', mx) = total queued (em, mx)"
    by (rule total_same) (simp_all add: b(2) setWorker_def queued_def)
  moreover have "total is_running (em', mx) = total is_running (em, mx)"
    by (rule total_same) (auto simp: b setWorker_def is_running_def afterBatch_def)
  moreover have "total unsent (em', mx) + unsent em e = total unsent (em, mx) + unsent em' e"
    by (rule total_change) (use e in \<open>auto simp: b(2) setWorker_def unsent_def\<close>)
  moreover have "unsent em e = Suc (unsent em' e)"
    by (simp add: unsent_def b setWorker_def afterBatch_def)
  ultimately show ?thesis
    by (simp add: drain_order_def)
qed

lemma drain_take:
  assumes "receiveEvent em = Some (ev, em')"
  shows "((em', mx), (em, mx)) \<in> drain_order"
proof -
  obtain evs where b: "em_eventChan em = ev # evs" "em' = em\<lparr>em_eventChan := evs\<rparr>"
    using assms by (auto simp: receiveEvent_def split: list.splits)
  have "total f (em', mx) = total f (em, mx)" if "\<And>k. f em' k = f em k" for f
    by (rule total_same) (simp_all add: that, simp add: b(2))
  then show ?thesis
    by (simp add: drain_order_def b queued_def is_running_def unsent_def)
qed

lemma drain_step_decreases: "drain_step s s' \<Longrightarrow> em_inv (fst s) \<Longrightarrow> (s', s) \<in> drain_order"
  by (cases s'; erule drain_step.cases) (auto intro: drain_receive drain_execute drain_send drain_take)

lemma no_infinite_drain:
  assumes "em_inv (fst (f 0))"
  shows "\<not> (\<forall>i. drain_step (f i) (f (Suc i)))"
proof
  assume steps: "\<forall>i. drain_step (f i) (f (Suc i))"
  have "em_inv (fst (f i))" for i
  proof (induction i)
    case (Suc i)
    then show ?case
      using em_inv_drain [of "f i" "f (Suc i)"] steps by blast
  qed (rule assms)
  then have "\<forall>i. (f (Suc i), f i) \<in> drain_order"
    using steps drain_step_decreases by blast
  then show False
    using wf_drain_order unfolding wf_iff_no_infinite_down_chain by blast
qed

subsection \<open>Progress\<close>

definition drained :: "executor_manager \<Rightarrow> bool" where
  "drained em \<longleftrightarrow> em_eventChan em = [] \<and> (\<forall>e \<in> set (em_executorList em).
     fmlookup (em_batchChans em) e = Some [] \<and> fmlookup (em_workers em) e = Some Idle)"

definition batch_sendable :: "Batch \<Rightarrow> bool" where
  "batch_sendable b \<longleftrightarrow> (\<forall>w \<in> set (bt_Items b). sendable w)"

text \<open>Every consumer runs, and the batches that wait or run do not make \<^verbatim>\<open>BatchToExecute\<close> panic.\<close>

definition consuming :: "executor_manager \<Rightarrow> bool" where
  "consuming em \<longleftrightarrow> (\<forall>e \<in> set (em_executorList em).
     (\<exists>w. fmlookup (em_workers em) e = Some w \<and> w \<noteq> Stopped \<and> (\<forall>b. w = Running b \<longrightarrow> batch_sendable b)) \<and>
     (\<forall>bs. fmlookup (em_batchChans em) e = Some bs \<longrightarrow> (\<forall>b \<in> set bs. batch_sendable b)))"

lemma Execute_ok:
  assumes "batch_sendable b"
  shows "\<exists>req. BatchToExecute (es_RuntimeEpoch (ex_runtime x)) b = Some req \<and> Execute rpc x b =
    Some (case rpc req of Inl err \<Rightarrow> Inl err
      | Inr resp \<Rightarrow> Inr (resultEvents (ex_id x) (bt_BatchID b) (batchWorks (bt_Items b)) (xs_Results resp)))"
  using executeItems_Some [of "bt_Items b"] assms
  by (auto simp: Execute_def BatchToExecute_def batch_sendable_def split: sum.splits)

lemma running_executes:
  assumes "em_inv em" "fmlookup (em_workers em) e = Some (Running b)" "batch_sendable b"
  shows "\<exists>s'. consumeExecute now rpc e em mx = Some s'"
proof -
  obtain x where "fmlookup (em_executors em) e = Some x"
    using em_invD(2,4) [OF assms(1), of e] assms(2) by auto
  moreover obtain r where "Execute rpc x b = Some r"
    using Execute_ok [OF assms(3), of x rpc] by auto
  ultimately show ?thesis
    using assms(2) by (simp add: consumeExecute_def Let_def split_def)
qed

lemma drain_progress:
  assumes inv: "em_inv em" and c: "consuming em" and n: "\<not> drained em"
  shows "\<exists>s'. drain_step (em, mx) s'"
proof (cases "em_eventChan em")
  case (Cons ev evs)
  then show ?thesis
    using drain_step.take [of em ev "em\<lparr>em_eventChan := evs\<rparr>" mx] by (auto simp: receiveEvent_def)
next
  case Nil
  then obtain e where e: "e \<in> set (em_executorList em)"
      "fmlookup (em_batchChans em) e \<noteq> Some [] \<or> fmlookup (em_workers em) e \<noteq> Some Idle"
    using n by (auto simp: drained_def)
  then obtain w bs x where w: "fmlookup (em_workers em) e = Some w" "w \<noteq> Stopped" "\<forall>b. w = Running b \<longrightarrow> batch_sendable b"
      "fmlookup (em_batchChans em) e = Some bs" "fmlookup (em_executors em) e = Some x"
    using c em_invD(2,3) [OF inv, of e] by (auto simp: consuming_def)
  show ?thesis
  proof (cases w)
    case Idle
    then obtain b rest where "bs = b # rest"
      using e(2) w(1,4) by (cases bs) auto
    then have "\<exists>s'. consumeReceive e em mx = Some s'"
      using w Idle by (simp add: consumeReceive_def Let_def)
    then show ?thesis
      using drain_step.receive by blast
  next
    case (Running b)
    then show ?thesis
      using running_executes [OF inv] w(1,3) drain_step.execute by blast
  next
    case (Sending evs)
    then obtain v vs where "evs = v # vs"
      using em_invD(6) [OF inv w(1)] by (cases evs) (auto simp: worker_ok_def)
    then have "\<exists>em'. consumeSend e em = Some em'"
      using w(1) Sending Nil by (simp add: consumeSend_def eventChanCap_def)
    then show ?thesis
      using drain_step.send by blast
  qed (use w in simp)
qed

lemma consuming_worker:
  assumes "consuming em" "em_executorList em' = em_executorList em" "em_workers em' = fmupd e w (em_workers em)"
    "w \<noteq> Stopped" "\<forall>b. w = Running b \<longrightarrow> batch_sendable b"
    "\<And>k bs. k \<in> set (em_executorList em) \<Longrightarrow> fmlookup (em_batchChans em') k = Some bs \<Longrightarrow> \<forall>b \<in> set bs. batch_sendable b"
  shows "consuming em'"
  using assms by (auto simp: consuming_def)

lemma consuming_chans:
  "consuming em \<Longrightarrow> k \<in> set (em_executorList em) \<Longrightarrow> fmlookup (em_batchChans em) k = Some bs \<Longrightarrow> \<forall>b \<in> set bs. batch_sendable b"
  by (auto simp: consuming_def)

lemma consuming_step:
  assumes "drain_step s s'" "em_inv (fst s)" "consuming (fst s)"
  shows "consuming (fst s')"
  using assms
proof cases
  case (receive e em mx)
  then obtain batch rest where b: "fmlookup (em_workers em) e = Some Idle" "fmlookup (em_batchChans em) e = Some (batch # rest)"
      "fst s' = setWorker e (Running batch) (em\<lparr>em_batchChans := fmupd e rest (em_batchChans em), em_inflightBatches := em_inflightBatches em + 1\<rparr>)"
    by (auto simp: consumeReceive_def Let_def split: option.splits worker.splits list.splits)
  have c: "consuming em" and e: "e \<in> set (em_executorList em)"
    using assms receive em_invD(4) [of em e] b(1) by auto
  show ?thesis
    by (rule consuming_worker [OF c, of _ e "Running batch"])
      (use consuming_chans [OF c] consuming_chans [OF c e b(2)] in \<open>auto simp: b(3) setWorker_def split: if_splits\<close>)
next
  case (execute now rpc e em mx)
  obtain em1 mx1 where s': "s' = (em1, mx1)"
    by (cases s')
  have x: "consumeExecute now rpc e em mx = Some (em1, mx1)"
    using execute(2) s' by simp
  have c: "consuming em"
    using assms execute by simp
  show ?thesis
    by (rule consumeExecute_cases [OF x], unfold s' fst_conv, rule consuming_worker [OF c])
      (use consuming_chans [OF c] in \<open>auto simp: setWorker_def afterBatch_def split: if_splits\<close>)
next
  case (send e em em' mx)
  then obtain ev evs where "em' = setWorker e (afterBatch evs) (em\<lparr>em_eventChan := em_eventChan em @ [ev]\<rparr>)"
    by (auto simp: consumeSend_def split: option.splits worker.splits list.splits if_splits)
  then show ?thesis
    using assms send consuming_chans [of em]
    by (auto simp: setWorker_def afterBatch_def split: if_splits intro!: consuming_worker [of em _ e "afterBatch evs"])
next
  case (take em event em' mx)
  then show ?thesis
    using assms by (auto simp: receiveEvent_def consuming_def split: list.splits)
qed

lemma drains:
  assumes "em_inv (fst s)" "consuming (fst s)"
  shows "\<exists>s'. drain_step\<^sup>*\<^sup>* s s' \<and> drained (fst s')"
  using wf_drain_order assms
proof (induction s rule: wf_induct_rule)
  case (less s)
  show ?case
  proof (cases "drained (fst s)")
    case False
    obtain s1 where s1: "drain_step s s1"
      using drain_progress [OF less.prems False, of "snd s"] by auto
    obtain s' where "drain_step\<^sup>*\<^sup>* s1 s'" "drained (fst s')"
      using less.IH [OF drain_step_decreases [OF s1 less.prems(1)] em_inv_drain [OF s1 less.prems(1)]
        consuming_step [OF s1 less.prems]] by blast
    then show ?thesis
      using s1 by (meson converse_rtranclp_into_rtranclp)
  next
    case True
    then show ?thesis
      by blast
  qed
qed

end
