(* ===== verification/Executor_Properties.thy ===== *)
theory Executor_Properties
  imports Executor_Drain Block_Properties
begin

text \<open>
  The properties of the executor client and its manager.  Witnesses run on a manager of two
  executors, \<open>a\<close> and \<open>b\<close>.
\<close>

subsection \<open>A concrete manager\<close>

definition demo_response :: "string \<Rightarrow> GetRuntimeResponse" where
  "demo_response e = \<lparr>rr_ExecutorId = e, rr_RuntimeEpoch = 1, rr_ModelId = ''m'', rr_ModelType = [], rr_Dtype = [],
     rr_DeviceType = [], rr_TensorParallelSize = 1, rr_BlockSize = 2, rr_NumKvBlocks = 4, rr_NumHiddenLayers = 1,
     rr_NumKvHeads = 1, rr_HeadDim = 1, rr_TotalMemoryBytes = 0, rr_AvailableMemoryBytes = 0, rr_KvCacheBytes = 0,
     rr_ModelRevision = [], rr_KvLayoutVersion = 1, rr_KvCompatibilityId = ''kv'', rr_TransferEndpoint = e @ '':7''\<rparr>"

definition demo_conf :: Conf where
  "demo_conf = \<lparr>cf_Server = \<lparr>sv_Address = '':80'', sv_AdminPort = 81, sv_AllowedOrigins = [],
       sv_ScheduleConf = \<lparr>sc_QueueConf = \<lparr>qc_QueueLength = 2\<rparr>, sc_MaxBatchSeq = 4, sc_MaxBatchTokens = 8,
         sc_LongPrefillTokenThreshold = 4, sc_MaxPartialPrefills = 2, sc_MaxLongPartialPrefills = 1, sc_MaxScheduleDelay = 5\<rparr>\<rparr>,
     cf_Models = [], cf_Executors = [\<lparr>ec_ExecutorID = ''a'', ec_Address = [''h''], ec_TimeoutMs = 10\<rparr>,
       \<lparr>ec_ExecutorID = ''b'', ec_Address = [''h''], ec_TimeoutMs = 10\<rparr>]\<rparr>"

text \<open>The first call of each connection fails.\<close>

definition demo_get :: "ExecutorConf \<Rightarrow> nat \<Rightarrow> GetRuntimeResponse result" where
  "demo_get ec i = (if i = 0 then Inl ContextDeadlineExceeded else Inr (demo_response (ec_ExecutorID ec)))"

definition demo_executor :: "string \<Rightarrow> executor" where
  "demo_executor e = \<lparr>ex_id = e, ex_runtime = RuntimeProtoToModel (demo_response e), ex_endpoints = [''h'']\<rparr>"

definition demo_executors :: "(string, executor) fmap" where
  "demo_executors = fmupd ''b'' (demo_executor ''b'') (fmupd ''a'' (demo_executor ''a'') fmempty)"

lemma demo_newExecutor:
  "newExecutor (demo_get ec) ec = (if ec_Address ec = [] then None
     else Some (Inr \<lparr>ex_id = ec_ExecutorID ec, ex_runtime = RuntimeProtoToModel (demo_response (ec_ExecutorID ec)), ex_endpoints = ec_Address ec\<rparr>))"
  by (simp add: newExecutor_def retryRuntime.simps demo_get_def RuntimeProtoToModel_def demo_response_def)

lemma demo_executors_new: "NewExecutors demo_get demo_conf = Some (Inr demo_executors)"
  by (simp add: NewExecutors_def demo_conf_def demo_newExecutor demo_executors_def demo_executor_def map_len_def)

definition demo_em :: executor_manager where
  "demo_em = NewExecutorManager demo_executors"

lemma demo_em_reachable: "em_reachable (demo_em, NewMetrics)"
  unfolding demo_em_def by (rule em_reachable.init [OF demo_executors_new])

definition demo_item :: WorkItem where
  "demo_item = demo_work\<lparr>wk_BlockAllocation := Some demo_al\<rparr>"

definition demo_batch :: Batch where
  "demo_batch = \<lparr>bt_BatchID = ''b1'', bt_ExecutorID = ''a'', bt_BatchSize = 1, bt_CreateAt = 0, bt_Items = [demo_item]\<rparr>"

lemma demo_sendable: "batch_sendable demo_batch"
  by (simp add: batch_sendable_def demo_batch_def sendable_def demo_item_def demo_work_def)

subsection \<open>Batches and their events\<close>

text \<open>
  C17: \<^verbatim>\<open>BatchToExecute\<close> completes exactly when every item has its blocks and a decode item at least the
  tokens it is to compute; then the request carries one entry per item, in order, with the item's
  block table; a decode item sends its last tokens and samples, and a prefill item samples exactly
  when its result will be taken as the end of the prefill.
\<close>

theorem batch_wire_contract:
  "(if \<forall>w \<in> set (bt_Items batch). sendable w
    then \<exists>req. BatchToExecute epoch batch = Some req \<and> xb_BatchId req = bt_BatchID batch \<and> xb_RuntimeEpoch req = epoch \<and>
      list_all2 wire_of (bt_Items batch) (xb_Items req)
    else BatchToExecute epoch batch = None)"
  using executeItems_Some [of "bt_Items batch"] executeItems_None [of "bt_Items batch"]
  by (auto simp: BatchToExecute_def)

theorem batch_wire_contract_witness:
  "\<exists>req. BatchToExecute 7 demo_batch = Some req \<and> xb_RuntimeEpoch req = 7 \<and>
     list_all2 wire_of [demo_item] (xb_Items req)"
proof -
  have "\<forall>w \<in> set (bt_Items demo_batch). sendable w"
    using demo_sendable by (simp add: batch_sendable_def)
  then show ?thesis
    using batch_wire_contract [of demo_batch 7] by (auto simp: demo_batch_def)
qed

text \<open>
  The events \<^verbatim>\<open>Execute\<close> returns are the results whose work item is in the batch, in the order of the
  response; each carries the executor and the batch, and its type is the failure type if and only
  if the result has an error message, and otherwise follows the phase of that work item.
\<close>

theorem execute_events_contract:
  assumes "Execute rpc x batch = Some (Inr events)"
  shows "\<exists>req resp. BatchToExecute (es_RuntimeEpoch (ex_runtime x)) batch = Some req \<and> rpc req = Inr resp \<and>
    map ev_WorkId events = filter (\<lambda>k. k \<in> wk_WorkId ` set (bt_Items batch)) (map xr_WorkId (xs_Results resp)) \<and>
    (\<forall>ev \<in> set events. ev_ExecutorId ev = ex_id x \<and> ev_BatchId ev = bt_BatchID batch \<and>
      (\<exists>r \<in> set (xs_Results resp). \<exists>w \<in> set (bt_Items batch). xr_WorkId r = wk_WorkId w \<and> ev_WorkId ev = wk_WorkId w \<and>
        ev_Type ev = nextPhase w (ev_Err ev) \<and> (ev_Err ev \<noteq> None \<longleftrightarrow> xr_ErrorMessage r \<noteq> []) \<and>
        us_InputTokens (ev_Usage ev) = xr_ComputedTokens r \<and> us_OutputTokens (ev_Usage ev) = xr_GeneratedTokens r))"
proof -
  obtain req resp where r: "BatchToExecute (es_RuntimeEpoch (ex_runtime x)) batch = Some req" "rpc req = Inr resp"
      "events = resultEvents (ex_id x) (bt_BatchID batch) (batchWorks (bt_Items batch)) (xs_Results resp)"
    using assms by (auto simp: Execute_def split: bind_splits sum.splits)
  have each: "\<exists>r \<in> set (xs_Results resp). \<exists>w \<in> set (bt_Items batch). xr_WorkId r = wk_WorkId w \<and> ev_WorkId ev = wk_WorkId w \<and>
        ev_Type ev = nextPhase w (ev_Err ev) \<and> (ev_Err ev \<noteq> None \<longleftrightarrow> xr_ErrorMessage r \<noteq> []) \<and>
        us_InputTokens (ev_Usage ev) = xr_ComputedTokens r \<and> us_OutputTokens (ev_Usage ev) = xr_GeneratedTokens r"
    if ev: "ev \<in> set events" for ev
  proof -
    obtain q w where q: "q \<in> set (xs_Results resp)" "fmlookup (batchWorks (bt_Items batch)) (xr_WorkId q) = Some w"
        "ev = resultEvent (ex_id x) (bt_BatchID batch) w q"
      using resultEvents_from [of ev] ev r(3) by blast
    show ?thesis
      by (rule bexI [OF _ q(1)], rule bexI [of _ w])
        (use batchWorks_lookup [OF q(2)] in \<open>auto simp: q(3) resultEvent_def Let_def\<close>)
  qed
  have "map ev_WorkId events = filter (\<lambda>k. k \<in> wk_WorkId ` set (bt_Items batch)) (map xr_WorkId (xs_Results resp))"
    unfolding r(3) resultEvents_ids batchWorks_dom ..
  then show ?thesis
    using r each resultEvents_labels [of _ "ex_id x"] by blast
qed

theorem execute_events_contract_witness:
  "\<exists>events. Execute (\<lambda>req. Inr \<lparr>xs_BatchId = [], xs_ExecutorId = [], xs_Results =
       [\<lparr>xr_WorkId = ''zz'', xr_RequestId = ''q'', xr_TokenId = 9, xr_Done = False, xr_FinishReason = FinishReasonUnspecified,
         xr_ComputedTokens = 0, xr_GeneratedTokens = 0, xr_ExecutionMs = 1, xr_ErrorMessage = []\<rparr>,
        \<lparr>xr_WorkId = ''w'', xr_RequestId = ''q'', xr_TokenId = 9, xr_Done = False, xr_FinishReason = FinishReasonUnspecified,
         xr_ComputedTokens = 3, xr_GeneratedTokens = 1, xr_ExecutionMs = 1, xr_ErrorMessage = []\<rparr>]\<rparr>)
       (demo_executor ''a'') demo_batch = Some (Inr events) \<and> map ev_WorkId events = [''w''] \<and>
     (\<forall>ev \<in> set events. ev_ExecutorId ev = ''a'')"
  (is "\<exists>events. Execute ?rpc _ _ = _ \<and> _")
proof -
  obtain events where ev: "Execute ?rpc (demo_executor ''a'') demo_batch = Some (Inr events)"
    using Execute_ok [OF demo_sendable, of "demo_executor ''a''" ?rpc] by auto
  show ?thesis
    using execute_events_contract [OF ev] ev by (auto simp: demo_batch_def demo_item_def demo_work_def demo_executor_def)
qed

text \<open>
  When the remote call fails, the consumer turns it into exactly one failure event per item of the
  batch, in order, each done, with the call's error, and counts one executor error and one running
  batch less.
\<close>

theorem batch_failure_reported:
  assumes "fmlookup (em_workers em) e = Some (Running batch)" "fmlookup (em_executors em) e = Some x"
    "Execute rpc x batch = Some (Inl err)"
  shows "\<exists>events em' mx'. consumeExecute now rpc e em mx = Some (em', mx') \<and>
    fmlookup (em_workers em') e = Some (if bt_Items batch = [] then Idle else Sending events) \<and>
    map ev_WorkId events = map wk_WorkId (bt_Items batch) \<and> map ev_RequestId events = map wk_RequestId (bt_Items batch) \<and>
    (\<forall>ev \<in> set events. ev_Type ev = EventTypeRequestFailed \<and> ev_Done ev \<and> ev_Err ev = Some err \<and>
       ev_FinishReason ev = FinishReasonError \<and> ev_ExecutorId ev = e) \<and>
    em_inflightBatches em' = em_inflightBatches em - 1 \<and>
    mx_executorErrorsTotal mx' = vec_add e 1 (mx_executorErrorsTotal mx)"
proof (intro exI conjI)
  show "consumeExecute now rpc e em mx = Some
      (setWorker e (afterBatch (batchFailedEvents now batch e err)) (em\<lparr>em_inflightBatches := em_inflightBatches em - 1\<rparr>),
       SetInflightBatches (sint (em_inflightBatches em - 1)) (IncExecutorErrors e mx))"
    using assms by (simp add: consumeExecute_def outcomeEvents_def Let_def)
qed (auto simp: setWorker_def afterBatch_def batchFailedEvents_def SetInflightBatches_def IncExecutorErrors_def)

definition demo_running :: executor_manager where
  "demo_running = setWorker ''a'' (Running demo_batch) (Consume demo_em\<lparr>em_inflightBatches := 1\<rparr>)"

lemma demo_running_fields: "fmlookup (em_workers demo_running) ''a'' = Some (Running demo_batch)"
    "fmlookup (em_executors demo_running) ''a'' = Some (demo_executor ''a'')"
  by (simp_all add: demo_running_def setWorker_def Consume_def demo_em_def NewExecutorManager_def Let_def demo_executors_def)

theorem batch_failure_reported_witness:
  "\<exists>events em' mx'. consumeExecute 5 (\<lambda>_. Inl ContextDeadlineExceeded) ''a'' demo_running NewMetrics = Some (em', mx') \<and>
     fmlookup (em_workers em') ''a'' = Some (Sending events) \<and> map ev_WorkId events = [''w'']"
proof -
  have x: "Execute (\<lambda>_. Inl ContextDeadlineExceeded) (demo_executor ''a'') demo_batch = Some (Inl ContextDeadlineExceeded)"
    using Execute_ok [OF demo_sendable, of "demo_executor ''a''" "\<lambda>_. Inl ContextDeadlineExceeded"] by auto
  show ?thesis
    using batch_failure_reported [OF demo_running_fields x, of 5 NewMetrics]
    by (auto simp: demo_batch_def demo_item_def demo_work_def)
qed

subsection \<open>The manager\<close>

text \<open>
  C15: over every interleaving of submissions, consumers, event receivers and shutdown, the batch
  channels and the event channel stay within their capacity, a batch only ever waits for or runs on
  the executor it names, the events of an executor's consumer carry its name, and the in-flight
  counter is the number of batches running.
\<close>

theorem manager_interleavings:
  assumes "em_reachable (em, mx)"
  shows "(\<forall>e bs. fmlookup (em_batchChans em) e = Some bs \<longrightarrow> length bs \<le> 100 \<and> (\<forall>b \<in> set bs. bt_ExecutorID b = e)) \<and>
    (\<forall>e b. fmlookup (em_workers em) e = Some (Running b) \<longrightarrow> bt_ExecutorID b = e) \<and>
    (\<forall>e evs. fmlookup (em_workers em) e = Some (Sending evs) \<longrightarrow> (\<forall>ev \<in> set evs. ev_ExecutorId ev = e)) \<and>
    length (em_eventChan em) \<le> 100 \<and>
    em_inflightBatches em = of_nat (card {e \<in> set (em_executorList em). \<exists>b. fmlookup (em_workers em) e = Some (Running b)})"
proof -
  have inv: "em_inv em"
    using em_reachable_inv [OF assms] by simp
  have r: "is_running em e = of_bool (\<exists>b. fmlookup (em_workers em) e = Some (Running b))" for e
    by (auto simp: is_running_def split: option.splits worker.splits)
  have "running em = card {e \<in> set (em_executorList em). \<exists>b. fmlookup (em_workers em) e = Some (Running b)}"
    unfolding running_def r by (simp add: sum.If_cases Int_def of_bool_def)
  moreover have "bt_ExecutorID b = e" if "fmlookup (em_workers em) e = Some (Running b)" for e b
    using em_invD(6) [OF inv that] by (simp add: worker_ok_def)
  moreover have "\<forall>ev \<in> set evs. ev_ExecutorId ev = e" if "fmlookup (em_workers em) e = Some (Sending evs)" for e evs
    using em_invD(6) [OF inv that] by (simp add: worker_ok_def)
  ultimately show ?thesis
    using em_invD(5,7,9) [OF inv] by (simp add: batchChanCap_def eventChanCap_def)
qed

definition demo_submitted :: executor_manager where
  "demo_submitted = snd (Submit None True (Some demo_batch) (Consume demo_em))"

lemma demo_submitted_reachable: "em_reachable (demo_submitted, NewMetrics)"
proof -
  have "em_reachable (Consume demo_em, NewMetrics)"
    by (rule em_reachable.step [OF demo_em_reachable em_step.start])
      (simp add: demo_em_def NewExecutorManager_def Let_def)
  then show ?thesis
    by (rule em_reachable.step [OF _ em_step.submit [of None True "Some demo_batch" _ "fst (Submit None True (Some demo_batch) (Consume demo_em))"]])
      (simp add: demo_submitted_def)
qed

theorem manager_interleavings_witness:
  "length (em_eventChan demo_submitted) \<le> 100 \<and> (\<exists>b. fmlookup (em_batchChans demo_submitted) ''a'' = Some [b] \<and> bt_ExecutorID b = ''a'')"
proof -
  have "fmlookup (em_batchChans demo_submitted) ''a'' = Some [demo_batch]"
    by code_simp
  then show ?thesis
    using manager_interleavings [OF demo_submitted_reachable] by auto
qed

text \<open>
  A running manager drains.  No sequence of consumer steps and receives goes on for ever, none gets
  stuck before everything is delivered, and so from every reachable state with running consumers
  and well-formed batches a state is reached in which no batch waits or runs and no event is unread,
  whatever the executors answer.
\<close>

theorem manager_drains:
  assumes "em_reachable s" "consuming (fst s)"
  shows "(\<forall>f. f 0 = s \<longrightarrow> \<not> (\<forall>i. drain_step (f i) (f (Suc i)))) \<and>
    (\<forall>s'. drain_step\<^sup>*\<^sup>* s s' \<longrightarrow> drained (fst s') \<or> (\<exists>s''. drain_step s' s'')) \<and>
    (\<exists>s'. drain_step\<^sup>*\<^sup>* s s' \<and> drained (fst s'))"
proof (intro conjI allI impI)
  have inv: "em_inv (fst s)"
    by (rule em_reachable_inv [OF assms(1)])
  show "\<not> (\<forall>i. drain_step (f i) (f (Suc i)))" if "f 0 = s" for f
    by (rule no_infinite_drain) (simp add: that inv)
  show "\<exists>s'. drain_step\<^sup>*\<^sup>* s s' \<and> drained (fst s')"
    by (rule drains [OF inv assms(2)])
  fix s' assume "drain_step\<^sup>*\<^sup>* s s'"
  then have "em_inv (fst s') \<and> consuming (fst s')"
  proof (induction rule: rtranclp_induct)
    case (step s1 s2)
    then show ?case
      using em_inv_drain [OF step.hyps(2)] consuming_step [OF step.hyps(2)] by blast
  qed (use inv assms(2) in blast)
  then show "drained (fst s') \<or> (\<exists>s''. drain_step s' s'')"
    using drain_progress [of "fst s'" "snd s'"] by auto
qed

theorem manager_drains_witness:
  "\<exists>s'. drain_step\<^sup>*\<^sup>* (demo_submitted, NewMetrics) s' \<and> drained (fst s')"
proof -
  have l: "em_executorList demo_submitted = [''a'', ''b'']"
    "fmlookup (em_batchChans demo_submitted) ''a'' = Some [demo_batch]" "fmlookup (em_batchChans demo_submitted) ''b'' = Some []"
    "fmlookup (em_workers demo_submitted) ''a'' = Some Idle" "fmlookup (em_workers demo_submitted) ''b'' = Some Idle"
    by code_simp+
  have "consuming (fst (demo_submitted, NewMetrics))"
    by (simp add: consuming_def l demo_sendable)
  from manager_drains [OF demo_submitted_reachable this] show ?thesis
    by blast
qed

text \<open>
  \<^verbatim>\<open>Submit\<close> never waits and never panics: a batch for a known executor with room in its channel is
  appended behind the batches already there, unless the context is done; every refusal leaves all
  channels as they were and is reported with the code of its cause.
\<close>

theorem submit_contract:
  assumes "em_inv em"
  shows "case Submit ctx choice batch em of (err, em') \<Rightarrow>
    (case err of
       None \<Rightarrow> (\<exists>b bs. batch = Some b \<and> fmlookup (em_batchChans em) (bt_ExecutorID b) = Some bs \<and> length bs < 100 \<and>
         em_batchChans em' = fmupd (bt_ExecutorID b) (bs @ [b]) (em_batchChans em) \<and> em_inv em')
     | Some e \<Rightarrow> em' = em \<and> (ctx = None \<longrightarrow>
         (CodeOf err = CodeInvalidArgument \<longleftrightarrow> batch = None) \<and>
         (CodeOf err = CodeExecutorUnavailable \<longleftrightarrow> (\<exists>b. batch = Some b \<and> bt_ExecutorID b \<notin> set (em_executorList em))) \<and>
         (CodeOf err = CodeQueueFull \<longleftrightarrow> (\<exists>b bs. batch = Some b \<and> fmlookup (em_batchChans em) (bt_ExecutorID b) = Some bs \<and> length bs = 100))))"
proof -
  obtain err em' where s: "Submit ctx choice batch em = (err, em')"
    by (cases "Submit ctx choice batch em")
  have inv': "em_inv em'"
    by (rule em_inv_Submit [OF assms s])
  have k: "has_key (em_batchChans em) e \<longleftrightarrow> e \<in> set (em_executorList em)" for e
    by (rule em_invD(3) [OF assms])
  have full: "length bs = 100" if "fmlookup (em_batchChans em) e = Some bs" "\<not> length bs < batchChanCap" for e bs
    using em_invD(5) [OF assms that(1)] that(2) by (simp add: batchChanCap_def)
  show ?thesis
  proof (cases batch)
    case None
    then show ?thesis
      using s by (auto simp: Submit_def Code_defs split: option.splits)
  next
    case (Some b)
    then show ?thesis
    proof (cases "fmlookup (em_batchChans em) (bt_ExecutorID b)")
      case None
      then show ?thesis
        using s Some k [of "bt_ExecutorID b"] by (auto simp: Submit_def Code_defs)
    next
      case (Some bs)
      then show ?thesis
        using s \<open>batch = Some b\<close> k [of "bt_ExecutorID b"] full [OF Some] inv'
        by (auto simp: Submit_def Code_defs batchChanCap_def split: if_splits option.splits)
    qed
  qed
qed

theorem submit_contract_witness:
  "case Submit None True (Some demo_batch) demo_em of (err, em') \<Rightarrow> err = None \<and> em_inv em'"
proof -
  have "em_inv demo_em"
    using em_reachable_inv [OF demo_em_reachable] by simp
  moreover have "fst (Submit None True (Some demo_batch) demo_em) = None"
    by code_simp
  ultimately show ?thesis
    using submit_contract [where em = demo_em and ctx = None and choice = True and batch = "Some demo_batch"] by (auto split: prod.splits)
qed

subsection \<open>Connections\<close>

text \<open>
  C18: connecting an executor never panics once it has an address, tries at most three times, succeeds
  exactly when one of the three answers names the configured executor first, and reports the third
  error when all fail.
\<close>

theorem connect_contract:
  assumes "ec_Address cfg \<noteq> []"
  shows "\<exists>r. newExecutor get cfg = Some r \<and>
    (case r of
       Inl err \<Rightarrow> (\<forall>i < 3. \<exists>e. get i = Inl e) \<and> get 2 = Inl err \<or>
         (\<exists>i < 3. \<exists>res. get i = Inr res \<and> (\<forall>j < i. \<exists>e. get j = Inl e) \<and> rr_ExecutorId res \<noteq> ec_ExecutorID cfg)
     | Inr x \<Rightarrow> \<exists>i < 3. \<exists>res. get i = Inr res \<and> (\<forall>j < i. \<exists>e. get j = Inl e) \<and>
         rr_ExecutorId res = ec_ExecutorID cfg \<and> ex_id x = ec_ExecutorID cfg \<and> ex_runtime x = RuntimeProtoToModel res)"
proof -
  have three: "(\<forall>i < (3::nat). P i) \<longleftrightarrow> P 0 \<and> P 1 \<and> P 2" for P
    by (auto simp: less_Suc_eq numeral_3_eq_3 numeral_2_eq_2)
  have id: "es_ExecutorId (RuntimeProtoToModel res) = rr_ExecutorId res" for res
    by (simp add: RuntimeProtoToModel_def)
  have first: "\<exists>i < 3. \<exists>res. get i = Inr res \<and> (\<forall>j < i. \<exists>e. get j = Inl e) \<and> Q res"
    if "get k = Inr res" "k < 3" "\<forall>j < k. \<exists>e. get j = Inl e" "Q res" for k res Q
    using that by blast
  consider (a) res where "get 0 = Inr res" | (b) e res where "get 0 = Inl e" "get 1 = Inr res"
    | (c) e e' res where "get 0 = Inl e" "get 1 = Inl e'" "get 2 = Inr res"
    | (d) e e' e'' where "get 0 = Inl e" "get 1 = Inl e'" "get 2 = Inl e''"
    by (metis sum.exhaust)
  then show ?thesis
  proof cases
    case a
    have "retryRuntime get 0 = Some (Inr (RuntimeProtoToModel res))"
      using a by (simp add: retryRuntime.simps [of get 0])
    then show ?thesis
      using assms a first [of 0 res] by (auto simp: newExecutor_def id)
  next
    case b
    have "retryRuntime get 0 = Some (Inr (RuntimeProtoToModel res))"
      using b by (simp add: retryRuntime.simps [of get 0] retryRuntime.simps [of get "Suc 0"])
    moreover have "\<forall>j < 1. \<exists>e. get j = Inl e"
      using b by simp
    ultimately show ?thesis
      using assms b first [of 1 res] by (auto simp: newExecutor_def id)
  next
    case c
    have "retryRuntime get 0 = Some (Inr (RuntimeProtoToModel res))"
      using c by (simp add: retryRuntime.simps [of get 0] retryRuntime.simps [of get "Suc 0"] retryRuntime.simps [of get "Suc (Suc 0)"] numeral_2_eq_2)
    moreover have "\<forall>j < 2. \<exists>e. get j = Inl e"
      using c by (auto simp: less_2_cases_iff)
    ultimately show ?thesis
      using assms c first [of 2 res] by (auto simp: newExecutor_def id)
  next
    case d
    have "retryRuntime get 0 = Some (Inl e'')"
      using d by (simp add: retryRuntime.simps [of get 0] retryRuntime.simps [of get "Suc 0"] retryRuntime.simps [of get "Suc (Suc 0)"] numeral_2_eq_2)
    then show ?thesis
      using assms d by (auto simp: newExecutor_def three)
  qed
qed

theorem connect_contract_witness:
  "\<exists>x. newExecutor (demo_get (hd (cf_Executors demo_conf))) (hd (cf_Executors demo_conf)) = Some (Inr x) \<and> ex_id x = ''a''"
proof -
  have a: "ec_Address (hd (cf_Executors demo_conf)) \<noteq> []"
    by (simp add: demo_conf_def)
  obtain x where x: "newExecutor (demo_get (hd (cf_Executors demo_conf))) (hd (cf_Executors demo_conf)) = Some (Inr x)"
    using a by (simp add: demo_newExecutor)
  show ?thesis
    using connect_contract [OF a, of "demo_get (hd (cf_Executors demo_conf))"] x by (auto simp: demo_conf_def)
qed

end
