(* ===== verification/Placement_Properties.thy ===== *)
theory Placement_Properties
  imports Placement Executor_Properties
begin

text \<open>
  The properties of prefix replication, over the block registry and a manager of executors, from
  the interface lemmas of the coordinator.
\<close>

text \<open>
  C16: replication is a transaction.  Between KV-compatible executors \<^verbatim>\<open>Replicate\<close> never panics, whatever
  the executors answer, and no transfer, pin or reservation is left behind: it returns an error, or
  it returns a plan for exactly the requested hashes that the source executor confirmed for the
  epochs of both runtimes, and then every hash is in the destination's prefix index.
\<close>

theorem replicate_is_transaction:
  assumes "em_inv em" and "reg_inv r" and "may_prepare a hs r"
    and "fmlookup (controlStates em) a = Some (Some s)" and "fmlookup (controlStates em) b = Some (Some d)"
    and "es_KVCompatibilityID s \<noteq> []" "es_KVCompatibilityID s = es_KVCompatibilityID d" "es_TransferEndpoint d \<noteq> []"
  shows "\<exists>res r'. Replicate (controlStates em) (controlPush rpc em) uuid a b hs r = Some (res, r') \<and> reg_inv r' \<and>
    r_pendingTransfers r' = r_pendingTransfers r \<and> pins r' = pins r \<and> reserved r' = reserved r \<and>
    (case res of Inl e \<Rightarrow> True
     | Inr p \<Rightarrow> tp_SourceExecutorID p = a \<and> tp_DestinationExecutorID p = b \<and> tp_BlockHashes p = hs \<and>
         (\<exists>q. rpc a (pushRequest p s d) = Inr q \<and> confirms q p s d) \<and>
         (\<exists>m. fmlookup (r_managers r') b = Some m \<and> (\<forall>h \<in> set hs. has_key (m_cachedBlocks m) h)))"
proof -
  have "ctl.compatible (rpc, em) a b"
    using assms(4-8) by (auto simp: ctl.compatible_def)
  from ctl.replicate_transaction [OF _ this assms(2,3), of uuid] assms(1)
  obtain res r' where r': "Replicate (controlStates em) (controlPush rpc em) uuid a b hs r = Some (res, r')" "reg_inv r'"
      "r_pendingTransfers r' = r_pendingTransfers r"
      "case res of Inl e \<Rightarrow> True
       | Inr p \<Rightarrow> \<exists>s d q dm. fmlookup (controlStates em) a = Some (Some s) \<and> fmlookup (controlStates em) b = Some (Some d) \<and>
           controlPush rpc em (pushRequest p s d) = Inr (Some q) \<and> confirms q p s d \<and>
           tp_SourceExecutorID p = a \<and> tp_DestinationExecutorID p = b \<and> tp_BlockHashes p = hs \<and>
           fmlookup (r_managers r') b = Some dm \<and> (\<forall>h \<in> set hs. indexed dm h)"
    by auto
  have push: "rpc a req = Inr q" if "controlPush rpc em req = Inr (Some q)" "kq_SourceExecutorId req = a" for req q
    using that em_invD(1) [OF assms(1)]
    by (auto simp: controlPush_def TriggerKVPush_def executors_ok_def map_sum_def split: option.splits sum.splits)
  have "pins r' = pins r" "reserved r' = reserved r"
    using r'(3) by (simp_all add: pins_def reserved_def fun_eq_iff)
  moreover have "case res of Inl e \<Rightarrow> True
     | Inr p \<Rightarrow> tp_SourceExecutorID p = a \<and> tp_DestinationExecutorID p = b \<and> tp_BlockHashes p = hs \<and>
         (\<exists>q. rpc a (pushRequest p s d) = Inr q \<and> confirms q p s d) \<and>
         (\<exists>m. fmlookup (r_managers r') b = Some m \<and> (\<forall>h \<in> set hs. has_key (m_cachedBlocks m) h))"
  proof (cases res)
    case (Inr p)
    then show ?thesis
      using r'(4) assms(4,5) push [of "pushRequest p s d"] by (auto simp: pushRequest_def indexed_def)
  qed simp
  ultimately show ?thesis
    using r'(1-3) by blast
qed

lemma demo_control: "fmlookup (controlStates demo_em) e =
    (if e = ''a'' \<or> e = ''b'' then Some (Some (RuntimeProtoToModel (demo_response e))) else None)"
proof -
  have "em_executors demo_em = demo_executors"
    by (simp add: demo_em_def NewExecutorManager_def Let_def)
  moreover have "executors_ok demo_executors"
    by (rule NewExecutors_ok(1) [OF demo_executors_new])
  ultimately show ?thesis
    by (simp add: controlStates_def GetRuntimeStates_lookup demo_executors_def demo_executor_def)
qed

text \<open>The source confirms every push.\<close>

definition demo_push :: push_rpc where
  "demo_push e q = Inr \<lparr>kp_TransferId = kq_TransferId q, kp_SourceExecutorId = kq_SourceExecutorId q,
     kp_SourceRuntimeEpoch = kq_SourceRuntimeEpoch q, kp_DestinationExecutorId = kq_DestinationExecutorId q,
     kp_DestinationRuntimeEpoch = kq_DestinationRuntimeEpoch q\<rparr>"

theorem replicate_is_transaction_witness:
  "\<exists>res r'. Replicate (controlStates demo_em) (controlPush demo_push demo_em) ''t'' ''a'' ''b'' [''h''] demo_pair = Some (res, r') \<and>
     reg_inv r' \<and> r_pendingTransfers r' = fmempty"
proof -
  have "em_inv demo_em"
    using em_reachable_inv [OF demo_em_reachable] by simp
  moreover have "r_pendingTransfers demo_pair = fmempty"
    by (simp add: demo_pair_def)
  ultimately show ?thesis
    using replicate_is_transaction [of demo_em demo_pair "''a''" "[''h'']" "RuntimeProtoToModel (demo_response ''a'')" "''b''"
        "RuntimeProtoToModel (demo_response ''b'')" demo_push "''t''"] demo_pair_inv
    by (auto simp: demo_control RuntimeProtoToModel_def demo_response_def)
qed

text \<open>
  A replication that the runtimes do not allow - an executor without a runtime, one without a
  compatibility fingerprint or with another one, or a destination without an endpoint - is refused,
  and the registry is exactly as before: no block was pinned, reserved or evicted.
\<close>

theorem replicate_refusals:
  assumes "em_inv em"
    and "\<not> (\<exists>s d. fmlookup (controlStates em) a = Some (Some s) \<and> fmlookup (controlStates em) b = Some (Some d) \<and>
      es_KVCompatibilityID s \<noteq> [] \<and> es_KVCompatibilityID s = es_KVCompatibilityID d \<and> es_TransferEndpoint d \<noteq> [])"
  shows "\<exists>err. Replicate (controlStates em) (controlPush rpc em) uuid a b hs r = Some (Inl err, r)"
  using ctl.incompatible_refused [of "(rpc, em)" a b uuid hs r] assms by (simp add: ctl.compatible_def)

theorem replicate_refusals_witness:
  "\<exists>err. Replicate (controlStates demo_em) (controlPush demo_push demo_em) ''t'' ''a'' ''c'' [''h''] demo_pair = Some (Inl err, demo_pair)"
proof -
  have "em_inv demo_em"
    using em_reachable_inv [OF demo_em_reachable] by simp
  then show ?thesis
    by (rule replicate_refusals) (simp add: demo_control)
qed

end
