(* ===== verification/Sched_Queue.thy ===== *)
theory Sched_Queue
  imports Request_Invariant Kv_Conf
begin

text \<open>
  The two work queues of the scheduler, \<^verbatim>\<open>internal/scheduler/prefill_queue.go\<close> and
  \<^verbatim>\<open>decode_queue.go\<close>.  Both ask the request manager whether the work at their head may still run
  and drop it when not, which may in turn expire its request.
\<close>

subsection \<open>The environment of the scheduler\<close>

text \<open>
  The request manager (with the block registry and the metrics it shares), the successive clock
  readings, and the successive fresh identifiers; \<open>w_tick\<close> counts the readings taken so far.
\<close>

record world =
  w_state :: state_manager
  w_clock :: "nat \<Rightarrow> time"
  w_uuid :: "nat \<Rightarrow> string"
  w_tick :: nat

definition w_now :: "world \<Rightarrow> time" where "w_now w = w_clock w (w_tick w)"
definition w_fresh :: "world \<Rightarrow> string" where "w_fresh w = w_uuid w (w_tick w)"

definition w_advance :: "state_manager \<Rightarrow> world \<Rightarrow> world" where
  "w_advance s w = w\<lparr>w_state := s, w_tick := w_tick w + 1\<rparr>"

definition canSchedule :: "WorkItem \<Rightarrow> world \<Rightarrow> (bool \<times> world) option" where
  "canSchedule work w = do {
     (ok, s) \<leftarrow> sm_CanSchedule (w_now w) (w_fresh w) work (w_state w);
     Some (ok, w_advance s w)
   }"

subsection \<open>The prefill queue\<close>

record prefill_queue =
  pq_works :: "WorkItem list"
  pq_size :: u32

definition queueLength :: "Conf \<Rightarrow> u32" where
  "queueLength cfg =
     (let n = qc_QueueLength (sc_QueueConf (sv_ScheduleConf (cf_Server cfg))) in if n = 0 then 100 else n)"

definition NewPrefillQueue :: "Conf \<Rightarrow> prefill_queue" where
  "NewPrefillQueue cfg = \<lparr>pq_works = [], pq_size = queueLength cfg\<rparr>"

definition pq_Enqueue :: "WorkItem \<Rightarrow> prefill_queue \<Rightarrow> error option \<times> prefill_queue" where
  "pq_Enqueue work q =
     (if pq_size q \<le> of_nat (length (pq_works q))
      then (Some (errors_New CodeQueueFull ''prefillQueue is full''), q)
      else (None, q\<lparr>pq_works := pq_works q @ [work]\<rparr>))"

definition pq_Requeue :: "WorkItem \<Rightarrow> prefill_queue \<Rightarrow> prefill_queue" where
  "pq_Requeue work q = q\<lparr>pq_works := pq_works q @ [work]\<rparr>"

fun popWorks :: "WorkItem list \<Rightarrow> world \<Rightarrow> (WorkItem option \<times> WorkItem list \<times> world) option" where
  "popWorks [] w = Some (None, [], w)"
| "popWorks (work # ws) w = do {
     (ok, w1) \<leftarrow> canSchedule work w;
     if ok then Some (Some work, ws, w1) else popWorks ws w1
   }"

definition pq_Pop :: "prefill_queue \<Rightarrow> world \<Rightarrow> (WorkItem option \<times> prefill_queue \<times> world) option" where
  "pq_Pop q w = do {
     (r, ws, w1) \<leftarrow> popWorks (pq_works q) w;
     Some (r, q\<lparr>pq_works := ws\<rparr>, w1)
   }"

fun peekWorks :: "WorkItem list \<Rightarrow> world \<Rightarrow> (WorkItem option \<times> WorkItem list \<times> world) option" where
  "peekWorks [] w = Some (None, [], w)"
| "peekWorks (work # ws) w = do {
     (ok, w1) \<leftarrow> canSchedule work w;
     if ok then Some (Some work, work # ws, w1) else peekWorks ws w1
   }"

definition pq_Peek :: "prefill_queue \<Rightarrow> world \<Rightarrow> (WorkItem option \<times> prefill_queue \<times> world) option" where
  "pq_Peek q w = do {
     (r, ws, w1) \<leftarrow> peekWorks (pq_works q) w;
     Some (r, q\<lparr>pq_works := ws\<rparr>, w1)
   }"

definition pq_Length :: "prefill_queue \<Rightarrow> u32" where
  "pq_Length q = of_nat (length (pq_works q))"

definition pq_AvailableSpace :: "prefill_queue \<Rightarrow> u32" where
  "pq_AvailableSpace q =
     (if pq_size q \<le> of_nat (length (pq_works q)) then 0 else pq_size q - of_nat (length (pq_works q)))"

subsection \<open>Costs (budget.go) and dequeuing by cost\<close>

definition DefaultDecodeBudgetTokensPlanned :: u32 where "DefaultDecodeBudgetTokensPlanned = 1"

definition WorkBudgetCost :: "WorkItem \<Rightarrow> u32" where
  "WorkBudgetCost work = (case wk_Phase work of
     WorkPhasePrefill \<Rightarrow> if 0 < wk_NumNewTokens work then wk_NumNewTokens work else of_nat (length (wk_TokenIDs work))
   | WorkPhaseDecode \<Rightarrow> DefaultDecodeBudgetTokensPlanned
   | WorkPhaseUnknown _ \<Rightarrow> 0)"

fun dequeueLoop :: "u32 \<Rightarrow> u32 \<Rightarrow> WorkItem list \<Rightarrow> WorkItem list \<times> WorkItem list" where
  "dequeueLoop tokens used [] = ([], [])"
| "dequeueLoop tokens used (work # ws) =
     (let cost = WorkBudgetCost work
      in if tokens < used + cost then ([], work # ws)
         else (let (taken, rest) = dequeueLoop tokens (used + cost) ws in (work # taken, rest)))"

text \<open>When not even the first item fits, it is taken alone.\<close>

definition pq_Dequeue :: "u32 \<Rightarrow> prefill_queue \<Rightarrow> WorkItem list \<times> prefill_queue" where
  "pq_Dequeue tokens q =
     (if tokens = 0 \<or> pq_works q = [] then ([], q)
      else let (taken, rest) = dequeueLoop tokens 0 (pq_works q)
           in if taken = [] then ([hd rest], q\<lparr>pq_works := tl rest\<rparr>) else (taken, q\<lparr>pq_works := rest\<rparr>))"

subsection \<open>The decode queue\<close>

record workItemEntry =
  en_work :: WorkItem
  en_deficit :: u32
  en_quant :: u32

record decode_queue =
  dq_works :: "workItemEntry list"
  dq_size :: u32

definition NewDecodeQueue :: "Conf \<Rightarrow> decode_queue" where
  "NewDecodeQueue cfg = \<lparr>dq_works = [], dq_size = queueLength cfg\<rparr>"

definition newEntry :: "WorkItem \<Rightarrow> workItemEntry" where
  "newEntry work = \<lparr>en_work = work, en_deficit = 0, en_quant = 0\<rparr>"

definition dq_Enqueue :: "WorkItem \<Rightarrow> decode_queue \<Rightarrow> error option \<times> decode_queue" where
  "dq_Enqueue work q =
     (if dq_size q \<le> of_nat (length (dq_works q))
      then (Some (errors_New CodeQueueFull ''decodeQueue is full''), q)
      else (None, q\<lparr>dq_works := dq_works q @ [newEntry work]\<rparr>))"

definition dq_Requeue :: "WorkItem \<Rightarrow> decode_queue \<Rightarrow> decode_queue" where
  "dq_Requeue work q = q\<lparr>dq_works := dq_works q @ [newEntry work]\<rparr>"

text \<open>The loop of \<^verbatim>\<open>Dequeue\<close>: the first argument counts the iterations left.\<close>

fun dequeueEntries :: "nat \<Rightarrow> workItemEntry list \<Rightarrow> world \<Rightarrow> (WorkItem list \<times> workItemEntry list \<times> world) option" where
  "dequeueEntries 0 es w = Some ([], es, w)"
| "dequeueEntries (Suc n) [] w = Some ([], [], w)"
| "dequeueEntries (Suc n) (e # es) w = do {
     (ok, w1) \<leftarrow> canSchedule (en_work e) w;
     (taken, es1, w2) \<leftarrow> dequeueEntries n es w1;
     Some (if ok then en_work e # taken else taken, es1, w2)
   }"

definition dq_Dequeue :: "u32 \<Rightarrow> decode_queue \<Rightarrow> world \<Rightarrow> (WorkItem list \<times> u32 \<times> decode_queue \<times> world) option" where
  "dq_Dequeue maxSeqs q w = (if maxSeqs = 0 then Some ([], 0, q, w) else do {
     (taken, es, w1) \<leftarrow> dequeueEntries (unat maxSeqs) (dq_works q) w;
     Some (taken, of_nat (length taken), q\<lparr>dq_works := es\<rparr>, w1)
   })"

definition dq_Length :: "decode_queue \<Rightarrow> u32" where
  "dq_Length q = of_nat (length (dq_works q))"

definition dq_AvailableSpace :: "decode_queue \<Rightarrow> u32" where
  "dq_AvailableSpace q =
     (if dq_size q \<le> of_nat (length (dq_works q)) then 0 else dq_size q - of_nat (length (dq_works q)))"

subsection \<open>The contract of a work queue\<close>

text \<open>
  What the scheduler relies on, whichever queue it is: the waiting works as a list; admission
  appends and is refused exactly when the queue is at its capacity; putting work back always
  appends.  The capacity binds admission only.
\<close>

locale work_queue =
  fixes works :: "'q \<Rightarrow> WorkItem list"
    and cap :: "'q \<Rightarrow> nat"
    and enq :: "WorkItem \<Rightarrow> 'q \<Rightarrow> error option \<times> 'q"
    and req :: "WorkItem \<Rightarrow> 'q \<Rightarrow> 'q"
    and space :: "'q \<Rightarrow> u32"
  assumes enq_full: "length (works q) < 2 ^ 32 \<Longrightarrow> cap q \<le> length (works q) \<Longrightarrow>
      \<exists>err. enq x q = (Some err, q) \<and> CodeOf (Some err) = CodeQueueFull"
    and enq_ok: "length (works q) < cap q \<Longrightarrow>
      \<exists>q'. enq x q = (None, q') \<and> works q' = works q @ [x] \<and> cap q' = cap q"
    and req_works: "works (req x q) = works q @ [x]" and req_cap: "cap (req x q) = cap q"
    and cap_u32: "cap q < 2 ^ 32"
    and space_works: "length (works q) < 2 ^ 32 \<Longrightarrow> unat (space q) = cap q - length (works q)"
begin

text \<open>Admissions alone keep the queue within its capacity, in arrival order.\<close>

fun enq_all :: "WorkItem list \<Rightarrow> 'q \<Rightarrow> 'q" where
  "enq_all [] q = q"
| "enq_all (x # xs) q = enq_all xs (snd (enq x q))"

lemma enq_all_works:
  assumes "length (works q) \<le> cap q"
  shows "works (enq_all xs q) = works q @ take (cap q - length (works q)) xs \<and> cap (enq_all xs q) = cap q"
  using assms
proof (induction xs arbitrary: q)
  case (Cons x xs)
  show ?case
  proof (cases "length (works q) < cap q")
    case True
    then obtain q' where q': "enq x q = (None, q')" "works q' = works q @ [x]" "cap q' = cap q"
      using enq_ok by blast
    have "length (works q') \<le> cap q'"
      using True q' by simp
    from Cons.IH [OF this] show ?thesis
      using True q' by (simp add: take_Cons' Suc_diff_Suc)
  next
    case False
    then obtain err where "enq x q = (Some err, q)"
      using enq_full [of q x] Cons.prems cap_u32 [of q] by fastforce
    then show ?thesis
      using Cons.IH [OF Cons.prems] False by simp
  qed
qed simp

text \<open>The space a queue reports is what it then accepts.\<close>

lemma space_accepts:
  assumes "length (works q) < 2 ^ 32"
  shows "fst (enq x q) = None \<longleftrightarrow> 0 < space q"
proof (cases "length (works q) < cap q")
  case True
  then show ?thesis
    using enq_ok [OF True, of x] space_works [OF assms] by (auto simp: word_gt_0 simp flip: unat_gt_0_u32)
next
  case False
  then have "unat (space q) = 0"
    using space_works [OF assms] by simp
  then show ?thesis
    using enq_full [of q x] assms False by (auto simp: unat_eq_0)
qed

end

lemma length_ge_u32: "length xs < 2 ^ 32 \<Longrightarrow> (n :: u32) \<le> of_nat (length xs) \<longleftrightarrow> unat n \<le> length xs"
  by (simp add: word_le_nat_alt unat_of_nat_u32)

lemma room_u32: "length xs < unat (n :: u32) \<Longrightarrow> \<not> n \<le> of_nat (length xs)"
  using unat_lt_u32 [of n] by (simp add: length_ge_u32)

lemma space_u32:
  assumes "length xs < 2 ^ 32" "\<not> (n :: u32) \<le> of_nat (length xs)"
  shows "unat (n - of_nat (length xs)) = unat n - length xs"
  using assms by (simp add: unat_sub_if' word_le_nat_alt unat_of_nat_u32 split: if_splits)

interpretation pq: work_queue pq_works "\<lambda>q. unat (pq_size q)" pq_Enqueue pq_Requeue pq_AvailableSpace
proof
  fix q :: prefill_queue and x
  show "\<exists>err. pq_Enqueue x q = (Some err, q) \<and> CodeOf (Some err) = CodeQueueFull"
    if "length (pq_works q) < 2 ^ 32" "unat (pq_size q) \<le> length (pq_works q)"
    using that by (simp add: pq_Enqueue_def length_ge_u32)
  show "\<exists>q'. pq_Enqueue x q = (None, q') \<and> pq_works q' = pq_works q @ [x] \<and> unat (pq_size q') = unat (pq_size q)"
    if "length (pq_works q) < unat (pq_size q)"
    using room_u32 [OF that] by (simp add: pq_Enqueue_def)
  show "unat (pq_AvailableSpace q) = unat (pq_size q) - length (pq_works q)" if "length (pq_works q) < 2 ^ 32"
    using that by (simp add: pq_AvailableSpace_def length_ge_u32 space_u32)
qed (simp_all add: pq_Requeue_def unat_lt_u32)

interpretation dq: work_queue "\<lambda>q. map en_work (dq_works q)" "\<lambda>q. unat (dq_size q)" dq_Enqueue dq_Requeue dq_AvailableSpace
proof
  fix q :: decode_queue and x
  show "\<exists>err. dq_Enqueue x q = (Some err, q) \<and> CodeOf (Some err) = CodeQueueFull"
    if "length (map en_work (dq_works q)) < 2 ^ 32" "unat (dq_size q) \<le> length (map en_work (dq_works q))"
    using that by (simp add: dq_Enqueue_def length_ge_u32)
  show "\<exists>q'. dq_Enqueue x q = (None, q') \<and> map en_work (dq_works q') = map en_work (dq_works q) @ [x] \<and>
      unat (dq_size q') = unat (dq_size q)"
    if "length (map en_work (dq_works q)) < unat (dq_size q)"
    using room_u32 [of "dq_works q"] that by (simp add: dq_Enqueue_def newEntry_def)
  show "unat (dq_AvailableSpace q) = unat (dq_size q) - length (map en_work (dq_works q))"
    if "length (map en_work (dq_works q)) < 2 ^ 32"
    using that by (simp add: dq_AvailableSpace_def length_ge_u32 space_u32)
qed (simp_all add: dq_Requeue_def newEntry_def unat_lt_u32)

end
