(* ===== verification/Scheduler.thy ===== *)
theory Scheduler
  imports Sched_Queue Executor_Manager
begin

text \<open>
  The scheduler, \<^verbatim>\<open>internal/scheduler/scheduler.go\<close> and \<^verbatim>\<open>budget.go\<close>: placement of requests on
  executors, admission of work, assembly of batches under token and sequence budgets, submission
  with rollback, and the handling of executor events.  Every operation is given as one uninterrupted
  step; theory \<^verbatim>\<open>Sched_Programs\<close> cuts it into atomic actions.  The clock moves
  while it runs.  \<open>None\<close> is a panic or a send that waits for ever.
\<close>

subsection \<open>State\<close>

record batchBudget =
  bb_remainTokens :: u32
  bb_remainSeqs :: u32
  bb_remainPrefill :: u32
  bb_remainLargePrefill :: u32

record scheduler =
  s_batchBudget :: batchBudget
  s_longPrefillThreshold :: u32
  s_scheduleRoundDelay :: duration
  s_thresholdSeqs :: u32
  s_prefillSmall :: "(string, prefill_queue) fmap"
  s_prefillLarge :: "(string, prefill_queue) fmap"
  s_decode :: "(string, decode_queue) fmap"
  s_executorManager :: executor_manager
  s_executorIDs :: "string list"
  s_nextExecutor :: u64
  s_patchExecuteChan :: bool
  s_world :: world

text \<open>\<open>s_patchExecuteChan\<close> says that the one-place signal channel holds a signal.\<close>

definition NewScheduler :: "Conf \<Rightarrow> executor_manager \<Rightarrow> world \<Rightarrow> scheduler" where
  "NewScheduler cfg em w =
     (let sc = sv_ScheduleConf (cf_Server cfg);
          executorIDs = ExecutorIDs (sm_blockRegistry (w_state w))
      in \<lparr>s_batchBudget = \<lparr>bb_remainTokens = sc_MaxBatchTokens sc, bb_remainSeqs = sc_MaxBatchSeq sc,
             bb_remainPrefill = sc_MaxPartialPrefills sc, bb_remainLargePrefill = sc_MaxLongPartialPrefills sc\<rparr>,
          s_longPrefillThreshold = sc_LongPrefillTokenThreshold sc,
          s_scheduleRoundDelay = ScheduleDelay sc,
          s_thresholdSeqs = sc_MaxBatchSeq sc * 4 div 5,
          s_prefillSmall = fmap_of_list (map (\<lambda>e. (e, NewPrefillQueue cfg)) executorIDs),
          s_prefillLarge = fmap_of_list (map (\<lambda>e. (e, NewPrefillQueue cfg)) executorIDs),
          s_decode = fmap_of_list (map (\<lambda>e. (e, NewDecodeQueue cfg)) executorIDs),
          s_executorManager = em, s_executorIDs = executorIDs, s_nextExecutor = 0, s_patchExecuteChan = False,
          s_world = w\<rparr>)"

subsection \<open>Calls on the other components\<close>

definition updMetrics :: "(metrics \<Rightarrow> metrics) \<Rightarrow> scheduler \<Rightarrow> scheduler" where
  "updMetrics f s = (let w = s_world s; st = w_state w
     in s\<lparr>s_world := w\<lparr>w_state := st\<lparr>sm_metrics := f (sm_metrics st)\<rparr>\<rparr>\<rparr>)"

definition setRegistry :: "registry \<Rightarrow> scheduler \<Rightarrow> scheduler" where
  "setRegistry reg s = (let w = s_world s; st = w_state w in s\<lparr>s_world := w\<lparr>w_state := st\<lparr>sm_blockRegistry := reg\<rparr>\<rparr>\<rparr>)"

abbreviation registryOf :: "scheduler \<Rightarrow> registry" where
  "registryOf s \<equiv> sm_blockRegistry (w_state (s_world s))"

abbreviation requestsOf :: "scheduler \<Rightarrow> (string, Request) fmap" where
  "requestsOf s \<equiv> sm_requests (w_state (s_world s))"

definition allocateBlocks :: "WorkItem \<Rightarrow> scheduler \<Rightarrow> ((bool \<times> WorkItem) result \<times> scheduler) option" where
  "allocateBlocks work s = do {
     (res, reg) \<leftarrow> registry_AllocateBlocks work (registryOf s);
     Some (res, setRegistry reg s)
   }"

definition failRequest :: "string \<Rightarrow> error option \<Rightarrow> scheduler \<Rightarrow> scheduler option" where
  "failRequest requestId err s = do {
     let w = s_world s;
     st \<leftarrow> sm_Fail (w_now w) (w_fresh w) requestId err (w_state w);
     Some (s\<lparr>s_world := w_advance st w\<rparr>)
   }"

subsection \<open>Choosing an executor\<close>

definition AssignExecutor :: "Request \<Rightarrow> scheduler \<Rightarrow> error option \<times> Request \<times> scheduler" where
  "AssignExecutor req s =
     (if rq_ExecutorID req = []
      then if length (s_executorIDs s) = 0
           then (Some (Errorf (''no executor is available for request '' @ rq_RequestId req) []), req, s)
           else let idx = s_nextExecutor s
                in (None, req\<lparr>rq_ExecutorID := s_executorIDs s ! unat (idx mod of_nat (length (s_executorIDs s)))\<rparr>,
                    s\<lparr>s_nextExecutor := s_nextExecutor s + 1\<rparr>)
      else if rq_ExecutorID req \<in> set (s_executorIDs s) then (None, req, s)
      else (Some (Errorf (''executor '' @ rq_ExecutorID req @ '' is not registered'') []), req, s))"

subsection \<open>Queue pressure\<close>

text \<open>An executor without its queues is a nil interface, whose methods panic.\<close>

fun queueLengths :: "string list \<Rightarrow> scheduler \<Rightarrow> u32 \<Rightarrow> u32 \<Rightarrow> (u32 \<times> u32) option" where
  "queueLengths [] s p d = Some (p, d)"
| "queueLengths (e # es) s p d = do {
     qs \<leftarrow> fmlookup (s_prefillSmall s) e;
     ql \<leftarrow> fmlookup (s_prefillLarge s) e;
     qd \<leftarrow> fmlookup (s_decode s) e;
     queueLengths es s (p + (pq_Length qs + pq_Length ql)) (d + dq_Length qd)
   }"

definition trySchedule :: "string \<Rightarrow> scheduler \<Rightarrow> scheduler option" where
  "trySchedule executorID s =
     (case (fmlookup (s_prefillSmall s) executorID, fmlookup (s_prefillLarge s) executorID, fmlookup (s_decode s) executorID) of
        (Some qs, Some ql, Some qd) \<Rightarrow> do {
          let s1 = (if 10 < pq_Length ql \<or> 30 < pq_Length qs \<or> s_thresholdSeqs s \<le> dq_Length qd
                    then s\<lparr>s_patchExecuteChan := True\<rparr> else s);
          (p, d) \<leftarrow> queueLengths (s_executorIDs s1) s1 0 0;
          Some (updMetrics (\<lambda>m. SetDecodeQueueLength (uint d) (SetPrefillQueueLength (uint p) m)) s1)
        }
      | _ \<Rightarrow> Some s)"

subsection \<open>Admission\<close>

definition noQueue :: "string \<Rightarrow> string \<Rightarrow> error" where
  "noQueue executorID kind = errors_New CodeExecutorUnavailable (''executor '' @ executorID @ '' has no '' @ kind @ '' queue'')"

text \<open>The enqueued item is stamped first; a failed admission fails its request.\<close>

definition rejectWork :: "string \<Rightarrow> error \<Rightarrow> scheduler \<Rightarrow> (error option \<times> scheduler) option" where
  "rejectWork requestId err s = do {
     s1 \<leftarrow> failRequest requestId (Some err) (updMetrics IncQueueRejected s);
     Some (Some err, s1)
   }"

definition sched_Enqueue :: "WorkItem \<Rightarrow> scheduler \<Rightarrow> (error option \<times> scheduler) option" where
  "sched_Enqueue workItem0 s0 =
     (let workItem = workItem0\<lparr>wk_EnqueuedAt := w_now (s_world s0)\<rparr>;
          s = s0\<lparr>s_world := w_advance (w_state (s_world s0)) (s_world s0)\<rparr>;
          e = wk_ExecutorID workItem
      in case wk_Phase workItem of
        WorkPhasePrefill \<Rightarrow>
          if wk_TokenCntTotal workItem \<le> s_longPrefillThreshold s
          then (case fmlookup (s_prefillSmall s) e of
              None \<Rightarrow> rejectWork (wk_RequestId workItem) (noQueue e ''prefill'') s
            | Some q \<Rightarrow> (case pq_Enqueue workItem q of
                (Some err, q') \<Rightarrow> rejectWork (wk_RequestId workItem) err s
              | (None, q') \<Rightarrow> do { s1 \<leftarrow> trySchedule e (s\<lparr>s_prefillSmall := fmupd e q' (s_prefillSmall s)\<rparr>); Some (None, s1) }))
          else (case fmlookup (s_prefillLarge s) e of
              None \<Rightarrow> rejectWork (wk_RequestId workItem) (noQueue e ''prefill'') s
            | Some q \<Rightarrow> (case pq_Enqueue workItem q of
                (Some err, q') \<Rightarrow> rejectWork (wk_RequestId workItem) err s
              | (None, q') \<Rightarrow> do { s1 \<leftarrow> trySchedule e (s\<lparr>s_prefillLarge := fmupd e q' (s_prefillLarge s)\<rparr>); Some (None, s1) }))
      | WorkPhaseDecode \<Rightarrow>
          (case fmlookup (s_decode s) e of
              None \<Rightarrow> rejectWork (wk_RequestId workItem) (noQueue e ''decode'') s
            | Some q \<Rightarrow> (case dq_Enqueue workItem q of
                (Some err, q') \<Rightarrow> rejectWork (wk_RequestId workItem) err s
              | (None, q') \<Rightarrow> do { s1 \<leftarrow> trySchedule e (s\<lparr>s_decode := fmupd e q' (s_decode s)\<rparr>); Some (None, s1) }))
      | WorkPhaseUnknown _ \<Rightarrow> Some (Some (errors_New CodeInvalidArgument ''invalid phase for enqueue''), s))"

text \<open>Putting work back ignores the capacity of the queue and drops the allocation.\<close>

definition requeueWork :: "WorkItem \<Rightarrow> scheduler \<Rightarrow> scheduler option" where
  "requeueWork work0 s =
     (let work = work0\<lparr>wk_BlockAllocation := None\<rparr>; e = wk_ExecutorID work
      in case wk_Phase work of
        WorkPhaseDecode \<Rightarrow> (case fmlookup (s_decode s) e of
            None \<Rightarrow> failRequest (wk_RequestId work) (Some (noQueue e ''decode'')) s
          | Some q \<Rightarrow> Some (s\<lparr>s_decode := fmupd e (dq_Requeue work q) (s_decode s)\<rparr>))
      | WorkPhasePrefill \<Rightarrow>
          if wk_TokenCntTotal work \<le> s_longPrefillThreshold s
          then (case fmlookup (s_prefillSmall s) e of
              None \<Rightarrow> failRequest (wk_RequestId work) (Some (noQueue e ''prefill'')) s
            | Some q \<Rightarrow> Some (s\<lparr>s_prefillSmall := fmupd e (pq_Requeue work q) (s_prefillSmall s)\<rparr>))
          else (case fmlookup (s_prefillLarge s) e of
              None \<Rightarrow> failRequest (wk_RequestId work) (Some (noQueue e ''prefill'')) s
            | Some q \<Rightarrow> Some (s\<lparr>s_prefillLarge := fmupd e (pq_Requeue work q) (s_prefillLarge s)\<rparr>))
      | WorkPhaseUnknown _ \<Rightarrow> Some s)"

subsection \<open>Batch assembly (budget.go)\<close>

definition splitPrefillChunk :: "WorkItem \<Rightarrow> u32 \<Rightarrow> (WorkItem \<times> WorkItem option) option" where
  "splitPrefillChunk item tokens0 =
     (let cost = WorkBudgetCost item;
          tokens = (if cost < tokens0 then cost else tokens0);
          chunk = item\<lparr>wk_NumNewTokens := tokens\<rparr>;
          remainCost = cost - tokens
      in if remainCost = 0 then Some (chunk, None)
         else do {
           restTokens \<leftarrow> slice_from (wk_TokenIDs item) (unat tokens);
           chunkTokens \<leftarrow> slice (wk_TokenIDs item) 0 (unat tokens);
           Some (chunk\<lparr>wk_TokenIDs := chunkTokens\<rparr>,
                 Some (item\<lparr>wk_PrefillOffset := wk_PrefillOffset item + tokens, wk_NumNewTokens := remainCost,
                            wk_TokenIDs := restTokens\<rparr>))
         })"

text \<open>A batch in the making: its items and what is left of the budget.\<close>

type_synonym picking = "WorkItem list \<times> batchBudget"

fun pickDecodeLoop :: "WorkItem list \<Rightarrow> picking \<Rightarrow> scheduler \<Rightarrow> (picking \<times> scheduler) option" where
  "pickDecodeLoop [] p s = Some (p, s)"
| "pickDecodeLoop (work # ws) (batch, budget) s = do {
     (res, s1) \<leftarrow> allocateBlocks work s;
     case res of
       Inl err \<Rightarrow> do { s2 \<leftarrow> failRequest (wk_RequestId work) (Some err) s1; pickDecodeLoop ws (batch, budget) s2 }
     | Inr (allocated, work1) \<Rightarrow>
         if \<not> allocated then do { s2 \<leftarrow> requeueWork work1 s1; pickDecodeLoop ws (batch, budget) s2 }
         else pickDecodeLoop ws (batch @ [work1],
                budget\<lparr>bb_remainTokens := bb_remainTokens budget - 1, bb_remainSeqs := bb_remainSeqs budget - 1\<rparr>) s1
   }"

definition pickDecode :: "string \<Rightarrow> picking \<Rightarrow> scheduler \<Rightarrow> (picking \<times> scheduler) option" where
  "pickDecode executorID p s = do {
     queue \<leftarrow> fmlookup (s_decode s) executorID;
     let (batch, budget) = p;
     (workItems, itemLength, queue1, w1) \<leftarrow> dq_Dequeue (min (bb_remainSeqs budget) (bb_remainTokens budget)) queue (s_world s);
     let s1 = s\<lparr>s_decode := fmupd executorID queue1 (s_decode s), s_world := w1\<rparr>;
     if itemLength = 0
     then Some ((batch, budget\<lparr>bb_remainPrefill := bb_remainSeqs budget, bb_remainLargePrefill := bb_remainSeqs budget\<rparr>), s1)
     else pickDecodeLoop workItems (batch, budget) s1
   }"

definition budgetLeft :: "batchBudget \<Rightarrow> bool" where
  "budgetLeft b \<longleftrightarrow> 0 < bb_remainSeqs b \<and> 0 < bb_remainTokens b \<and> 0 < bb_remainPrefill b"

text \<open>The loop looks at the head, and takes the head in a second call when its cost fits.\<close>

fun pickSmallLoop :: "nat \<Rightarrow> string \<Rightarrow> picking \<Rightarrow> scheduler \<Rightarrow> (picking \<times> scheduler) option" where
  "pickSmallLoop 0 e p s = Some (p, s)"
| "pickSmallLoop (Suc n) e (batch, budget) s =
     (if \<not> budgetLeft budget then Some ((batch, budget), s)
      else do {
        queue \<leftarrow> fmlookup (s_prefillSmall s) e;
        (peeked, queue1, w1) \<leftarrow> pq_Peek queue (s_world s);
        let s1 = s\<lparr>s_prefillSmall := fmupd e queue1 (s_prefillSmall s), s_world := w1\<rparr>;
        case peeked of
          None \<Rightarrow> Some ((batch, budget), s1)
        | Some head \<Rightarrow> do {
            let cost = WorkBudgetCost head;
            if bb_remainTokens budget < cost then Some ((batch, budget), s1)
            else do {
              (popped, queue2, w2) \<leftarrow> pq_Pop queue1 w1;
              let s2 = s1\<lparr>s_prefillSmall := fmupd e queue2 (s_prefillSmall s1), s_world := w2\<rparr>;
              case popped of
                None \<Rightarrow> pickSmallLoop n e (batch, budget) s2
              | Some item \<Rightarrow> do {
                  (res, s3) \<leftarrow> allocateBlocks item s2;
                  case res of
                    Inl err \<Rightarrow> do { s4 \<leftarrow> failRequest (wk_RequestId item) (Some err) s3; pickSmallLoop n e (batch, budget) s4 }
                  | Inr (allocated, item1) \<Rightarrow>
                      if \<not> allocated then do { s4 \<leftarrow> requeueWork item1 s3; pickSmallLoop n e (batch, budget) s4 }
                      else pickSmallLoop n e (batch @ [item1],
                             budget\<lparr>bb_remainTokens := bb_remainTokens budget - cost,
                                    bb_remainSeqs := bb_remainSeqs budget - 1,
                                    bb_remainPrefill := bb_remainPrefill budget - 1\<rparr>) s3
                }
            }
          }
      })"

definition pickSmallPrefill :: "string \<Rightarrow> picking \<Rightarrow> scheduler \<Rightarrow> (picking \<times> scheduler) option" where
  "pickSmallPrefill executorID p s = do {
     queue \<leftarrow> fmlookup (s_prefillSmall s) executorID;
     pickSmallLoop (unat (pq_Length queue)) executorID p s
   }"

fun pickLargeLoop :: "nat \<Rightarrow> string \<Rightarrow> picking \<Rightarrow> scheduler \<Rightarrow> (picking \<times> scheduler) option" where
  "pickLargeLoop 0 e p s = Some (p, s)"
| "pickLargeLoop (Suc n) e (batch, budget) s =
     (if \<not> budgetLeft budget \<or> bb_remainLargePrefill budget = 0 then Some ((batch, budget), s)
      else do {
        queue \<leftarrow> fmlookup (s_prefillLarge s) e;
        (popped, queue1, w1) \<leftarrow> pq_Pop queue (s_world s);
        let s1 = s\<lparr>s_prefillLarge := fmupd e queue1 (s_prefillLarge s), s_world := w1\<rparr>;
        case popped of
          None \<Rightarrow> Some ((batch, budget), s1)
        | Some large \<Rightarrow> do {
            let cost = WorkBudgetCost large;
            let scheduledTokens = min cost (bb_remainTokens budget);
            (chunk, _) \<leftarrow> splitPrefillChunk large scheduledTokens;
            (res, s2) \<leftarrow> allocateBlocks chunk s1;
            case res of
              Inl err \<Rightarrow> do { s3 \<leftarrow> failRequest (wk_RequestId chunk) (Some err) s2; pickLargeLoop n e (batch, budget) s3 }
            | Inr (allocated, chunk1) \<Rightarrow>
                if \<not> allocated then do { s3 \<leftarrow> requeueWork large s2; pickLargeLoop n e (batch, budget) s3 }
                else pickLargeLoop n e (batch @ [chunk1],
                       budget\<lparr>bb_remainTokens := bb_remainTokens budget - scheduledTokens,
                              bb_remainSeqs := bb_remainSeqs budget - 1,
                              bb_remainPrefill := bb_remainPrefill budget - 1,
                              bb_remainLargePrefill := bb_remainLargePrefill budget - 1\<rparr>) s2
          }
      })"

definition pickLargePrefill :: "string \<Rightarrow> picking \<Rightarrow> scheduler \<Rightarrow> (picking \<times> scheduler) option" where
  "pickLargePrefill executorID p s = do {
     queue \<leftarrow> fmlookup (s_prefillLarge s) executorID;
     pickLargeLoop (unat (pq_Length queue)) executorID p s
   }"

definition pickBatch :: "string \<Rightarrow> scheduler \<Rightarrow> (WorkItem list \<times> scheduler) option" where
  "pickBatch executorID s = do {
     (p1, s1) \<leftarrow> pickDecode executorID ([], s_batchBudget s) s;
     (p2, s2) \<leftarrow> pickSmallPrefill executorID p1 s1;
     (p3, s3) \<leftarrow> pickLargePrefill executorID p2 s2;
     Some (fst p3, s3)
   }"

subsection \<open>Submission\<close>

definition observeBatchStatsAndTimeWait :: "WorkItem list \<Rightarrow> time \<Rightarrow> metrics \<Rightarrow> metrics" where
  "observeBatchStatsAndTimeWait batch at m =
     (let prefillItems = length (filter (\<lambda>w. wk_Phase w = WorkPhasePrefill) batch);
          decodeItems = length (filter (\<lambda>w. wk_Phase w = WorkPhaseDecode) batch)
      in fold (\<lambda>w. ObserveQueueWait (at - wk_EnqueuedAt w)) batch (ObserveBatch (length batch) prefillItems decodeItems m))"

text \<open>After a refused submission: every item's blocks are rolled back and it goes back to its queue.\<close>

fun undoBatch :: "WorkItem list \<Rightarrow> scheduler \<Rightarrow> scheduler option" where
  "undoBatch [] s = Some s"
| "undoBatch (work # ws) s = do {
     (_, reg) \<leftarrow> registry_Rollback (wk_ExecutorID work) (wk_WorkId work) (registryOf s);
     s1 \<leftarrow> requeueWork work (setRegistry reg s);
     undoBatch ws s1
   }"

text \<open>\<open>ctx\<close> is the error of the context once it is done and \<open>choice\<close> the choice of \<^verbatim>\<open>Submit\<close>, for each executor.\<close>

definition patchExecute :: "error option \<Rightarrow> bool \<Rightarrow> string \<Rightarrow> scheduler \<Rightarrow> scheduler option" where
  "patchExecute ctx choice executorID s = do {
     (batch, s1) \<leftarrow> pickBatch executorID s;
     case batch of
       [] \<Rightarrow> Some s1
     | first # _ \<Rightarrow> do {
         s2 \<leftarrow> trySchedule executorID s1;
         let at = w_now (s_world s2);
         let b = \<lparr>bt_BatchID = w_fresh (s_world s2), bt_ExecutorID = wk_ExecutorID first, bt_BatchSize = of_nat (length batch),
                  bt_CreateAt = at, bt_Items = batch\<rparr>;
         let (err, em) = Submit ctx choice (Some b) (s_executorManager s2);
         let s3 = s2\<lparr>s_executorManager := em, s_world := w_advance (w_state (s_world s2)) (s_world s2)\<rparr>;
         if err \<noteq> None then undoBatch batch s3
         else Some (updMetrics (observeBatchStatsAndTimeWait batch at) s3)
       }
   }"

type_synonym selects = "string \<Rightarrow> error option \<times> bool"

fun patchExecutors :: "selects \<Rightarrow> string list \<Rightarrow> scheduler \<Rightarrow> scheduler option" where
  "patchExecutors sel [] s = Some s"
| "patchExecutors sel (e # es) s = do { s1 \<leftarrow> patchExecute (fst (sel e)) (snd (sel e)) e s; patchExecutors sel es s1 }"

text \<open>One turn of \<^verbatim>\<open>Batch\<close>: on a signal, which it takes from its channel, or on a tick of the timer.\<close>

definition batchTurn :: "selects \<Rightarrow> bool \<Rightarrow> scheduler \<Rightarrow> scheduler option" where
  "batchTurn sel signal s =
     (if signal
      then if s_patchExecuteChan s
           then patchExecutors sel (s_executorIDs s) (s\<lparr>s_patchExecuteChan := False\<rparr>)
           else None
      else patchExecutors sel (s_executorIDs s) s)"

subsection \<open>Executor events\<close>

definition failedBy :: "error \<Rightarrow> Event \<Rightarrow> Event" where
  "failedBy err event = event\<lparr>ev_Err := Some err, ev_Type := EventTypeRequestFailed, ev_Done := True,
     ev_FinishReason := FinishReasonError\<rparr>"

text \<open>The allocation of the event's work is committed or rolled back at the request's executor.\<close>

definition finalizeBlocks :: "Event \<Rightarrow> Request \<Rightarrow> registry \<Rightarrow> (error option \<times> registry) option" where
  "finalizeBlocks event req reg =
     (if ev_ExecutorId event \<noteq> rq_ExecutorID req
      then do {
        (_, reg1) \<leftarrow> registry_Rollback (rq_ExecutorID req) (ev_WorkId event) reg;
        Some (Some (Errorf (''event executor '' @ ev_ExecutorId event @ '' does not match request executor '' @ rq_ExecutorID req) []), reg1)
      }
      else if ev_Err event \<noteq> None \<or> ev_Type event = EventTypeRequestFailed
      then registry_Rollback (rq_ExecutorID req) (ev_WorkId event) reg
      else registry_Commit (rq_ExecutorID req) (ev_WorkId event) reg)"

fun enqueueAll :: "WorkItem list \<Rightarrow> scheduler \<Rightarrow> (error option \<times> scheduler) option" where
  "enqueueAll [] s = Some (None, s)"
| "enqueueAll (item # items) s = do {
     (err, s1) \<leftarrow> sched_Enqueue item s;
     case err of Some e \<Rightarrow> Some (Some e, s1) | None \<Rightarrow> enqueueAll items s1
   }"

text \<open>
  The request found first is a pointer; its executor and identifier, which are read again later, do
  not change once it is registered.
\<close>

definition handleEvent :: "Event \<Rightarrow> scheduler \<Rightarrow> (error option \<times> scheduler) option" where
  "handleEvent event s = (case fmlookup (requestsOf s) (ev_RequestId event) of
     None \<Rightarrow> Some (None, s)
   | Some req \<Rightarrow> do {
       (finalizeErr, reg) \<leftarrow> finalizeBlocks event req (registryOf s);
       let event1 = (case finalizeErr of None \<Rightarrow> event | Some err \<Rightarrow> failedBy err event);
       let w = s_world (setRegistry reg s);
       ((nextItems, event2), st) \<leftarrow> sm_OnEvent (w_now w) (w_fresh w) event1 (w_state w);
       (err, s2) \<leftarrow> enqueueAll nextItems (s\<lparr>s_world := w_advance st w\<rparr>);
       case err of
         Some e \<Rightarrow> Some (Some e, s2)
       | None \<Rightarrow> do {
           (ferr, reg2) \<leftarrow> (if ev_Done event2 then registry_FreeRequest (rq_ExecutorID req) (rq_RequestId req) (registryOf s2)
                            else Some (None, registryOf s2));
           let s3 = setRegistry reg2 s2;
           case ferr of
             Some e \<Rightarrow> Some (Some e, s3)
           | None \<Rightarrow> Some (finalizeErr,
               updMetrics (ObserveExecution (tm_Execution (ev_Timing event2)) (ev_ExecutorId event2)) s3)
         }
     })"

text \<open>One turn of \<^verbatim>\<open>consumeEvents\<close>; an error is only logged.\<close>

definition consumeEvent :: "scheduler \<Rightarrow> scheduler option" where
  "consumeEvent s = do {
     (event, em) \<leftarrow> receiveEvent (s_executorManager s);
     (_, s1) \<leftarrow> handleEvent event (s\<lparr>s_executorManager := em\<rparr>);
     Some s1
   }"

end
