(* ===== verification/Sched_Facts.thy ===== *)
theory Sched_Facts
  imports Scheduler Executor_Invariant
begin

text \<open>
  What each call of the scheduler leaves alone, where the waiting works are, and that every waiting
  work is in the queue of its executor and its kind.
\<close>

subsection \<open>Where the waiting works are\<close>

definition smallWorks :: "scheduler \<Rightarrow> string \<Rightarrow> WorkItem list" where
  "smallWorks s e = (case fmlookup (s_prefillSmall s) e of None \<Rightarrow> [] | Some q \<Rightarrow> pq_works q)"

definition largeWorks :: "scheduler \<Rightarrow> string \<Rightarrow> WorkItem list" where
  "largeWorks s e = (case fmlookup (s_prefillLarge s) e of None \<Rightarrow> [] | Some q \<Rightarrow> pq_works q)"

definition decodeWorks :: "scheduler \<Rightarrow> string \<Rightarrow> WorkItem list" where
  "decodeWorks s e = (case fmlookup (s_decode s) e of None \<Rightarrow> [] | Some q \<Rightarrow> map en_work (dq_works q))"

lemmas works_defs = smallWorks_def largeWorks_def decodeWorks_def

definition prefill_item :: "WorkItem \<Rightarrow> bool" where
  "prefill_item w \<longleftrightarrow> wk_Phase w = WorkPhasePrefill \<and> length (wk_TokenIDs w) = unat (wk_NumNewTokens w)"

definition decode_item :: "WorkItem \<Rightarrow> bool" where
  "decode_item w \<longleftrightarrow> wk_Phase w = WorkPhaseDecode \<and> wk_NumNewTokens w = 1 \<and> wk_TokenIDs w \<noteq> []"

text \<open>The work belongs in the queue of that executor and kind.\<close>

definition routed :: "scheduler \<Rightarrow> bool" where
  "routed s \<longleftrightarrow> (\<forall>e.
     (\<forall>w \<in> set (smallWorks s e). prefill_item w \<and> wk_ExecutorID w = e \<and> wk_TokenCntTotal w \<le> s_longPrefillThreshold s) \<and>
     (\<forall>w \<in> set (largeWorks s e). prefill_item w \<and> wk_ExecutorID w = e \<and> s_longPrefillThreshold s < wk_TokenCntTotal w) \<and>
     (\<forall>w \<in> set (decodeWorks s e). decode_item w \<and> wk_ExecutorID w = e))"

text \<open>Every executor has its three queues.\<close>

definition has_queues :: "scheduler \<Rightarrow> bool" where
  "has_queues s \<longleftrightarrow> (\<forall>e. (has_key (s_prefillSmall s) e \<longleftrightarrow> e \<in> set (s_executorIDs s)) \<and>
     (has_key (s_prefillLarge s) e \<longleftrightarrow> e \<in> set (s_executorIDs s)) \<and> (has_key (s_decode s) e \<longleftrightarrow> e \<in> set (s_executorIDs s)))"

lemma NewScheduler_queues: "has_queues (NewScheduler cfg em w)" "routed (NewScheduler cfg em w)"
  by (auto simp: has_queues_def routed_def works_defs NewScheduler_def Let_def fmlookup_of_list map_of_map_restrict
      restrict_map_def NewPrefillQueue_def NewDecodeQueue_def split: option.splits if_splits)

subsection \<open>Frames\<close>

text \<open>The configuration, the executors and the clock never change.\<close>

definition same_setup :: "scheduler \<Rightarrow> scheduler \<Rightarrow> bool" where
  "same_setup s s' \<longleftrightarrow> s_batchBudget s' = s_batchBudget s \<and> s_longPrefillThreshold s' = s_longPrefillThreshold s \<and>
     s_thresholdSeqs s' = s_thresholdSeqs s \<and> s_executorIDs s' = s_executorIDs s \<and>
     w_clock (s_world s') = w_clock (s_world s) \<and> w_uuid (s_world s') = w_uuid (s_world s)"

definition same_queues :: "scheduler \<Rightarrow> scheduler \<Rightarrow> bool" where
  "same_queues s s' \<longleftrightarrow> s_prefillSmall s' = s_prefillSmall s \<and> s_prefillLarge s' = s_prefillLarge s \<and> s_decode s' = s_decode s"

text \<open>No request is added, and those that stay are unchanged.\<close>

definition fewer :: "(string, Request) fmap \<Rightarrow> (string, Request) fmap \<Rightarrow> bool" where
  "fewer m m' \<longleftrightarrow> (\<forall>q rq. fmlookup m' q = Some rq \<longrightarrow> fmlookup m q = Some rq)"

lemma same_setup_refl [simp]: "same_setup s s"
  by (simp add: same_setup_def)

lemma same_setup_trans: "same_setup s s1 \<Longrightarrow> same_setup s1 s2 \<Longrightarrow> same_setup s s2"
  by (simp add: same_setup_def)

lemma same_queues_refl [simp]: "same_queues s s"
  by (simp add: same_queues_def)

lemma fewer_refl [simp]: "fewer m m"
  by (simp add: fewer_def)

lemma fewer_trans: "fewer m m1 \<Longrightarrow> fewer m1 m2 \<Longrightarrow> fewer m m2"
  by (simp add: fewer_def)

lemma fewer_drop [simp]: "fewer m (fmdrop q m)"
  by (simp add: fewer_def)

lemma same_queues_works:
  assumes "same_queues s s'"
  shows "smallWorks s' e = smallWorks s e" "largeWorks s' e = largeWorks s e" "decodeWorks s' e = decodeWorks s e"
  using assms by (simp_all add: same_queues_def works_defs)

lemma routed_frame: "same_queues s s' \<Longrightarrow> same_setup s s' \<Longrightarrow> routed s' \<longleftrightarrow> routed s"
  by (simp add: routed_def same_queues_works same_setup_def)

lemma has_queues_frame: "same_queues s s' \<Longrightarrow> same_setup s s' \<Longrightarrow> has_queues s' \<longleftrightarrow> has_queues s"
  by (simp add: has_queues_def same_queues_def same_setup_def)

subsubsection \<open>The request manager\<close>

lemma deleteRequest_requests:
  "deleteRequest q s = Some s' \<Longrightarrow> sm_requests s' = fmdrop q (sm_requests s)"
  by (auto simp: deleteRequest_def Let_def split: bind_splits option.splits)

lemma chan_send_requests: "chan_send c e s = Some s' \<Longrightarrow> sm_requests s' = sm_requests s"
  by (auto simp: chan_send_def split: option.splits if_splits)

lemma chan_close_requests: "chan_close c s = Some s' \<Longrightarrow> sm_requests s' = sm_requests s"
  by (auto simp: chan_close_def split: option.splits if_splits)

lemma leaveLocked_requests: "leaveLocked q s = Some (c, s') \<Longrightarrow> sm_requests s' = fmdrop q (sm_requests s)"
  by (auto simp: leaveLocked_def Let_def deleteRequest_requests fmdrop_idle fmdom_notI split: bind_splits if_splits)

lemma sm_Fail_requests: "sm_Fail t u q err s = Some s' \<Longrightarrow> sm_requests s' = fmdrop q (sm_requests s)"
  by (auto simp: sm_Fail_def leaveLocked_requests split: bind_splits option.splits
      dest!: chan_send_requests chan_close_requests)

text \<open>A yes of \<^verbatim>\<open>CanSchedule\<close> changes nothing; a no means that the request is gone or has ended.\<close>

lemma sm_CanSchedule_yes:
  assumes "sm_CanSchedule t u work s = Some (True, s')"
  shows "s' = s" "\<exists>rq. fmlookup (sm_requests s) (wk_RequestId work) = Some rq \<and> \<not> expired t rq \<and> \<not> terminal (rq_Phase rq)"
  using assms by (auto simp: sm_CanSchedule_def expired_def terminal_def Let_def split: option.splits if_splits bind_splits)

lemma sm_CanSchedule_no:
  assumes "sm_CanSchedule t u work s = Some (False, s')"
  shows "fewer (sm_requests s) (sm_requests s')"
    "case fmlookup (sm_requests s') (wk_RequestId work) of None \<Rightarrow> True | Some rq \<Rightarrow> terminal (rq_Phase rq)"
  using assms
  by (auto simp: sm_CanSchedule_def terminal_def Let_def deleteRequest_requests split: option.splits if_splits bind_splits
      dest!: chan_send_requests chan_close_requests)

text \<open>A work that may not run any more.\<close>

definition ended :: "(string, Request) fmap \<Rightarrow> WorkItem \<Rightarrow> bool" where
  "ended m work \<longleftrightarrow> (case fmlookup m (wk_RequestId work) of None \<Rightarrow> True | Some rq \<Rightarrow> terminal (rq_Phase rq))"

lemma ended_fewer: "ended m work \<Longrightarrow> fewer m m' \<Longrightarrow> ended m' work"
  by (fastforce simp: ended_def fewer_def split: option.splits)

lemma canSchedule_frame:
  assumes "canSchedule work w = Some (ok, w1)"
  shows "w_clock w1 = w_clock w" "w_uuid w1 = w_uuid w" "fewer (sm_requests (w_state w)) (sm_requests (w_state w1))"
    "\<not> ok \<Longrightarrow> ended (sm_requests (w_state w1)) work" "ok \<Longrightarrow> w_state w1 = w_state w"
    "ok \<Longrightarrow> \<not> ended (sm_requests (w_state w)) work"
proof -
  obtain st where st: "sm_CanSchedule (w_now w) (w_fresh w) work (w_state w) = Some (ok, st)" "w1 = w_advance st w"
    using assms by (auto simp: canSchedule_def split: bind_splits)
  show "w_clock w1 = w_clock w" "w_uuid w1 = w_uuid w"
    by (simp_all add: st(2) w_advance_def)
  show "fewer (sm_requests (w_state w)) (sm_requests (w_state w1))"
    using sm_CanSchedule_yes(1) [of "w_now w" "w_fresh w" work "w_state w" st] sm_CanSchedule_no(1) [of "w_now w" "w_fresh w" work "w_state w" st]
      st(1) by (cases ok) (auto simp: st(2) w_advance_def)
  show "\<not> ok \<Longrightarrow> ended (sm_requests (w_state w1)) work"
    using sm_CanSchedule_no(2) [of "w_now w" "w_fresh w" work "w_state w" st] st(1) by (simp add: st(2) w_advance_def ended_def)
  show "ok \<Longrightarrow> w_state w1 = w_state w"
    using sm_CanSchedule_yes(1) [of "w_now w" "w_fresh w" work "w_state w" st] st(1) by (simp add: st(2) w_advance_def)
  show "ok \<Longrightarrow> \<not> ended (sm_requests (w_state w)) work"
    using sm_CanSchedule_yes(2) [of "w_now w" "w_fresh w" work "w_state w" st] st(1) by (auto simp: ended_def)
qed

subsubsection \<open>Calls\<close>

lemma setRegistry_frame [simp]:
  "same_setup s (setRegistry reg s)" "same_queues s (setRegistry reg s)" "requestsOf (setRegistry reg s) = requestsOf s"
  "s_executorManager (setRegistry reg s) = s_executorManager s" "registryOf (setRegistry reg s) = reg"
  by (simp_all add: setRegistry_def same_setup_def same_queues_def Let_def)

lemma updMetrics_frame [simp]:
  "same_setup s (updMetrics f s)" "same_queues s (updMetrics f s)" "requestsOf (updMetrics f s) = requestsOf s"
  "s_executorManager (updMetrics f s) = s_executorManager s" "registryOf (updMetrics f s) = registryOf s"
  by (simp_all add: updMetrics_def same_setup_def same_queues_def Let_def)

lemma manager_AllocateBlocks_work:
  assumes "manager_AllocateBlocks work m = Some ((ok, w1), m1)"
  shows "w1 = (if ok then work\<lparr>wk_BlockAllocation := wk_BlockAllocation w1\<rparr> else work)" "ok \<Longrightarrow> wk_BlockAllocation w1 \<noteq> None"
  using assms by (auto simp: manager_AllocateBlocks_def Let_def split: bind_splits option.splits)

lemma allocateBlocks_frame:
  assumes "allocateBlocks work s = Some (res, s1)"
  shows "same_setup s s1" "same_queues s s1" "requestsOf s1 = requestsOf s" "s_executorManager s1 = s_executorManager s"
    "res = Inr (ok, w1) \<Longrightarrow> w1 = (if ok then work\<lparr>wk_BlockAllocation := wk_BlockAllocation w1\<rparr> else work)"
    "res = Inr (True, w1) \<Longrightarrow> wk_BlockAllocation w1 \<noteq> None"
proof -
  obtain reg where r: "registry_AllocateBlocks work (registryOf s) = Some (res, reg)" "s1 = setRegistry reg s"
    using assms by (auto simp: allocateBlocks_def split: bind_splits)
  show "same_setup s s1" "same_queues s s1" "requestsOf s1 = requestsOf s" "s_executorManager s1 = s_executorManager s"
    by (simp_all add: r(2))
  have m: "\<exists>m m1. manager_AllocateBlocks work m = Some ((b, w), m1)" if "res = Inr (b, w)" for b w
    using r(1) that by (auto simp: registry_AllocateBlocks_def split: bind_splits sum.splits)
  show "res = Inr (ok, w1) \<Longrightarrow> w1 = (if ok then work\<lparr>wk_BlockAllocation := wk_BlockAllocation w1\<rparr> else work)"
    using m [of ok w1] manager_AllocateBlocks_work(1) [of work _ ok w1] by blast
  show "res = Inr (True, w1) \<Longrightarrow> wk_BlockAllocation w1 \<noteq> None"
    using m [of True w1] manager_AllocateBlocks_work(2) [of work _ True w1] by blast
qed

lemma failRequest_frame:
  assumes "failRequest q err s = Some s1"
  shows "same_setup s s1" "same_queues s s1" "requestsOf s1 = fmdrop q (requestsOf s)" "s_executorManager s1 = s_executorManager s"
  using assms sm_Fail_requests
  by (auto simp: failRequest_def Let_def w_advance_def same_setup_def same_queues_def split: bind_splits)

lemma requeueWork_frame:
  assumes "requeueWork work s = Some s1"
  shows "same_setup s s1" "fewer (requestsOf s) (requestsOf s1)" "s_executorManager s1 = s_executorManager s"
  using assms failRequest_frame
  by (auto simp: requeueWork_def Let_def same_setup_def split: WorkPhase.splits option.splits if_splits)

text \<open>The item as it goes back to its queue.\<close>

definition unallocated :: "WorkItem \<Rightarrow> WorkItem" where
  "unallocated w = w\<lparr>wk_BlockAllocation := None\<rparr>"

lemma unallocated_simps [simp]:
  "wk_WorkId (unallocated w) = wk_WorkId w" "wk_RequestId (unallocated w) = wk_RequestId w"
  "wk_ExecutorID (unallocated w) = wk_ExecutorID w" "wk_Phase (unallocated w) = wk_Phase w"
  "wk_TokenCntTotal (unallocated w) = wk_TokenCntTotal w" "prefill_item (unallocated w) \<longleftrightarrow> prefill_item w"
  "decode_item (unallocated w) \<longleftrightarrow> decode_item w" "unallocated (unallocated w) = unallocated w"
  by (simp_all add: unallocated_def prefill_item_def decode_item_def)

lemma requeueWork_small:
  assumes "has_queues s" "wk_ExecutorID work \<in> set (s_executorIDs s)" "wk_Phase work = WorkPhasePrefill"
    "wk_TokenCntTotal work \<le> s_longPrefillThreshold s"
  shows "\<exists>s1. requeueWork work s = Some s1 \<and> s_world s1 = s_world s \<and> has_queues s1 \<and>
    smallWorks s1 = (smallWorks s)(wk_ExecutorID work := smallWorks s (wk_ExecutorID work) @ [unallocated work]) \<and>
    largeWorks s1 = largeWorks s \<and> decodeWorks s1 = decodeWorks s"
proof -
  obtain q where "fmlookup (s_prefillSmall s) (wk_ExecutorID work) = Some q"
    using assms(1,2) by (auto simp: has_queues_def)
  then show ?thesis
    using assms by (auto simp: requeueWork_def Let_def unallocated_def pq_Requeue_def works_defs has_queues_def fun_eq_iff split: option.splits)
qed

lemma requeueWork_large:
  assumes "has_queues s" "wk_ExecutorID work \<in> set (s_executorIDs s)" "wk_Phase work = WorkPhasePrefill"
    "\<not> wk_TokenCntTotal work \<le> s_longPrefillThreshold s"
  shows "\<exists>s1. requeueWork work s = Some s1 \<and> s_world s1 = s_world s \<and> has_queues s1 \<and>
    largeWorks s1 = (largeWorks s)(wk_ExecutorID work := largeWorks s (wk_ExecutorID work) @ [unallocated work]) \<and>
    smallWorks s1 = smallWorks s \<and> decodeWorks s1 = decodeWorks s"
proof -
  obtain q where "fmlookup (s_prefillLarge s) (wk_ExecutorID work) = Some q"
    using assms(1,2) by (auto simp: has_queues_def)
  then show ?thesis
    using assms by (auto simp: requeueWork_def Let_def unallocated_def pq_Requeue_def works_defs has_queues_def fun_eq_iff split: option.splits)
qed

lemma requeueWork_decode:
  assumes "has_queues s" "wk_ExecutorID work \<in> set (s_executorIDs s)" "wk_Phase work = WorkPhaseDecode"
  shows "\<exists>s1. requeueWork work s = Some s1 \<and> s_world s1 = s_world s \<and> has_queues s1 \<and>
    decodeWorks s1 = (decodeWorks s)(wk_ExecutorID work := decodeWorks s (wk_ExecutorID work) @ [unallocated work]) \<and>
    smallWorks s1 = smallWorks s \<and> largeWorks s1 = largeWorks s"
proof -
  obtain q where "fmlookup (s_decode s) (wk_ExecutorID work) = Some q"
    using assms(1,2) by (auto simp: has_queues_def)
  then show ?thesis
    using assms by (auto simp: requeueWork_def Let_def unallocated_def dq_Requeue_def newEntry_def works_defs has_queues_def fun_eq_iff split: option.splits)
qed

text \<open>All waiting works of an executor.\<close>

definition waiting :: "scheduler \<Rightarrow> string \<Rightarrow> WorkItem multiset" where
  "waiting s e = mset (smallWorks s e) + mset (largeWorks s e) + mset (decodeWorks s e)"

definition known_phase :: "WorkItem \<Rightarrow> bool" where
  "known_phase w \<longleftrightarrow> wk_Phase w = WorkPhasePrefill \<or> wk_Phase w = WorkPhaseDecode"

lemma requeueWork_waiting:
  assumes "has_queues s" "wk_ExecutorID work \<in> set (s_executorIDs s)" "known_phase work"
  shows "\<exists>s1. requeueWork work s = Some s1 \<and> s_world s1 = s_world s \<and> has_queues s1 \<and> same_setup s s1 \<and>
    s_executorManager s1 = s_executorManager s \<and>
    waiting s1 = (waiting s)(wk_ExecutorID work := add_mset (unallocated work) (waiting s (wk_ExecutorID work)))"
proof -
  consider (sm) "wk_Phase work = WorkPhasePrefill" "wk_TokenCntTotal work \<le> s_longPrefillThreshold s"
    | (la) "wk_Phase work = WorkPhasePrefill" "\<not> wk_TokenCntTotal work \<le> s_longPrefillThreshold s" | (de) "wk_Phase work = WorkPhaseDecode"
    using assms(3) by (auto simp: known_phase_def)
  then obtain s1 where "requeueWork work s = Some s1" "s_world s1 = s_world s" "has_queues s1"
    "waiting s1 = (waiting s)(wk_ExecutorID work := add_mset (unallocated work) (waiting s (wk_ExecutorID work)))"
  proof cases
    case sm
    then show ?thesis
      using requeueWork_small [OF assms(1,2) sm] that by (force simp: waiting_def fun_eq_iff)
  next
    case la
    then show ?thesis
      using requeueWork_large [OF assms(1,2) la] that by (force simp: waiting_def fun_eq_iff)
  next
    case de
    then show ?thesis
      using requeueWork_decode [OF assms(1,2) de] that by (force simp: waiting_def fun_eq_iff)
  qed
  then show ?thesis
    using requeueWork_frame [of work s s1] by blast
qed

lemma routedD:
  assumes "routed s"
  shows "fmlookup (s_prefillSmall s) e = Some q \<Longrightarrow> w \<in> set (pq_works q) \<Longrightarrow>
      prefill_item w \<and> wk_ExecutorID w = e \<and> wk_TokenCntTotal w \<le> s_longPrefillThreshold s"
    "fmlookup (s_prefillLarge s) e = Some q \<Longrightarrow> w \<in> set (pq_works q) \<Longrightarrow>
      prefill_item w \<and> wk_ExecutorID w = e \<and> s_longPrefillThreshold s < wk_TokenCntTotal w"
    "fmlookup (s_decode s) e = Some d \<Longrightarrow> x \<in> set (dq_works d) \<Longrightarrow>
      decode_item (en_work x) \<and> wk_ExecutorID (en_work x) = e"
  using spec [OF assms [unfolded routed_def], of e] by (simp_all add: works_defs)

lemma requeueWork_cases:
  assumes "requeueWork work s = Some s1"
  obtains (failed) "same_queues s s1"
    | (smallq) q where "wk_Phase work = WorkPhasePrefill" "wk_TokenCntTotal work \<le> s_longPrefillThreshold s"
        "fmlookup (s_prefillSmall s) (wk_ExecutorID work) = Some q"
        "s1 = s\<lparr>s_prefillSmall := fmupd (wk_ExecutorID work) (pq_Requeue (unallocated work) q) (s_prefillSmall s)\<rparr>"
    | (largeq) q where "wk_Phase work = WorkPhasePrefill" "\<not> wk_TokenCntTotal work \<le> s_longPrefillThreshold s"
        "fmlookup (s_prefillLarge s) (wk_ExecutorID work) = Some q"
        "s1 = s\<lparr>s_prefillLarge := fmupd (wk_ExecutorID work) (pq_Requeue (unallocated work) q) (s_prefillLarge s)\<rparr>"
    | (decodeq) q where "wk_Phase work = WorkPhaseDecode" "fmlookup (s_decode s) (wk_ExecutorID work) = Some q"
        "s1 = s\<lparr>s_decode := fmupd (wk_ExecutorID work) (dq_Requeue (unallocated work) q) (s_decode s)\<rparr>"
  using assms that
  by (auto simp: requeueWork_def Let_def unallocated_def dest: failRequest_frame(2) split: WorkPhase.splits option.splits if_splits)

text \<open>Work put back where it belongs stays routed.\<close>

lemma requeueWork_routed:
  assumes r: "requeueWork work s = Some s1" and s: "routed s" and w: "prefill_item work \<or> decode_item work"
  shows "routed s1"
  using r
proof (cases rule: requeueWork_cases)
  case failed
  then show ?thesis
    using routed_frame [OF failed requeueWork_frame(1) [OF r]] s by simp
next
  case (smallq q)
  then have "prefill_item work"
    using w by (auto simp: decode_item_def)
  then show ?thesis
    using s smallq routedD(1) [OF s smallq(3)] by (auto simp: routed_def works_defs pq_Requeue_def)
next
  case (largeq q)
  then have "prefill_item work"
    using w by (auto simp: decode_item_def)
  then show ?thesis
    using s largeq routedD(2) [OF s largeq(3)] by (auto simp: routed_def works_defs pq_Requeue_def not_le)
next
  case (decodeq q)
  then have "decode_item work"
    using w by (auto simp: prefill_item_def)
  have "\<forall>x. x \<in> en_work ` set (dq_works q) \<longrightarrow> decode_item x"
    using routedD(3) [OF s decodeq(2)] by blast
  with \<open>decode_item work\<close> show ?thesis
    using s decodeq by (simp add: routed_def works_defs dq_Requeue_def newEntry_def)
qed

lemma requeueWork_has_queues:
  assumes r: "requeueWork work s = Some s1" and s: "has_queues s"
  shows "has_queues s1"
  using r
proof (cases rule: requeueWork_cases)
  case failed
  then show ?thesis
    using has_queues_frame [OF failed requeueWork_frame(1) [OF r]] s by simp
qed (use s in \<open>auto simp: has_queues_def\<close>)

end
