(* ===== verification/Sched_Pick.thy ===== *)
theory Sched_Pick
  imports Sched_Facts
begin

text \<open>
  Batch assembly, step by step: where each work taken from a queue goes, what the batch has spent
  of its budget, and that a head that was looked at is the work that is then taken as long as no
  deadline passes in between.
\<close>

subsection \<open>Taking works from a queue\<close>

definition all_ended :: "(string, Request) fmap \<Rightarrow> WorkItem multiset \<Rightarrow> bool" where
  "all_ended m D \<longleftrightarrow> (\<forall>w \<in># D. ended m w)"

lemma all_ended_simps [simp]: "all_ended m {#}" "all_ended m (D + E) \<longleftrightarrow> all_ended m D \<and> all_ended m E"
    "all_ended m (add_mset w D) \<longleftrightarrow> ended m w \<and> all_ended m D"
  by (auto simp: all_ended_def)

lemma all_ended_fewer: "all_ended m D \<Longrightarrow> fewer m m' \<Longrightarrow> all_ended m' D"
  using ended_fewer by (auto simp: all_ended_def)

definition same_env :: "world \<Rightarrow> world \<Rightarrow> bool" where
  "same_env w w1 \<longleftrightarrow> w_clock w1 = w_clock w \<and> w_uuid w1 = w_uuid w \<and> fewer (sm_requests (w_state w)) (sm_requests (w_state w1))"

lemma same_env_refl [simp]: "same_env w w"
  by (simp add: same_env_def)

lemma same_env_trans: "same_env w w1 \<Longrightarrow> same_env w1 w2 \<Longrightarrow> same_env w w2"
  by (auto simp: same_env_def intro: fewer_trans)

lemma canSchedule_env: "canSchedule work w = Some (ok, w1) \<Longrightarrow> same_env w w1"
  using canSchedule_frame(1-3) by (simp add: same_env_def)

lemma dequeueEntries_spec:
  assumes "dequeueEntries n es w = Some (taken, es1, w1)"
  shows "length taken \<le> n \<and> same_env w w1 \<and> (\<exists>D. mset (map en_work es) = mset taken + mset (map en_work es1) + D \<and>
    all_ended (sm_requests (w_state w1)) D)"
  using assms
proof (induction n es w arbitrary: taken rule: dequeueEntries.induct)
  case (3 n e es w)
  obtain ok w2 taken1 where r: "canSchedule (en_work e) w = Some (ok, w2)" "dequeueEntries n es w2 = Some (taken1, es1, w1)"
      "taken = (if ok then en_work e # taken1 else taken1)"
    using "3.prems" by (auto split: bind_splits)
  obtain D where D: "mset (map en_work es) = mset taken1 + mset (map en_work es1) + D" "all_ended (sm_requests (w_state w1)) D"
      "length taken1 \<le> n" "same_env w2 w1"
    using "3.IH" [OF r(1) _ r(2)] by auto
  have env: "same_env w w1"
    using canSchedule_env [OF r(1)] D(4) by (rule same_env_trans)
  show ?case
  proof (cases ok)
    case True
    then show ?thesis
      using D env r(3) by (intro conjI exI [of _ D]) auto
  next
    case False
    then have "ended (sm_requests (w_state w1)) (en_work e)"
      using canSchedule_frame(4) [OF r(1)] D(4) by (auto simp: same_env_def intro: ended_fewer)
    then show ?thesis
      using False D env r(3) by (intro conjI exI [of _ "add_mset (en_work e) D"]) auto
  qed
qed auto

lemma popWorks_spec:
  assumes "popWorks ws w = Some (r, ws1, w1)"
  shows "same_env w w1 \<and> (\<exists>D. mset ws = mset ws1 + mset (case r of None \<Rightarrow> [] | Some x \<Rightarrow> [x]) + D \<and> all_ended (sm_requests (w_state w1)) D)"
  using assms
proof (induction ws w rule: popWorks.induct)
  case (2 work ws w)
  obtain ok w2 where c: "canSchedule work w = Some (ok, w2)"
    using "2.prems" by (auto split: bind_splits)
  show ?case
  proof (cases ok)
    case True
    then show ?thesis
      using "2.prems" c canSchedule_env [OF c] by (auto intro!: exI [of _ "{#}"])
  next
    case False
    then have "popWorks ws w2 = Some (r, ws1, w1)"
      using "2.prems" c by simp
    from "2.IH" [OF c _ False this] obtain D where D: "mset ws = mset ws1 + mset (case r of None \<Rightarrow> [] | Some x \<Rightarrow> [x]) + D"
        "all_ended (sm_requests (w_state w1)) D" "same_env w2 w1"
      by auto
    have "ended (sm_requests (w_state w1)) work"
      using canSchedule_frame(4) [OF c False] D(3) by (auto simp: same_env_def intro: ended_fewer)
    then show ?thesis
      using D canSchedule_env [OF c] by (intro conjI exI [of _ "add_mset work D"]) (auto intro: same_env_trans)
  qed
qed auto

lemma peekWorks_spec:
  assumes "peekWorks ws w = Some (r, ws1, w1)"
  shows "same_env w w1 \<and> (\<exists>D. mset ws = mset ws1 + D \<and> all_ended (sm_requests (w_state w1)) D) \<and>
    (case r of None \<Rightarrow> ws1 = []
     | Some x \<Rightarrow> \<exists>rest w0. ws1 = x # rest \<and> canSchedule x w0 = Some (True, w1))"
  using assms
proof (induction ws w rule: peekWorks.induct)
  case (2 work ws w)
  obtain ok w2 where c: "canSchedule work w = Some (ok, w2)"
    using "2.prems" by (auto split: bind_splits)
  show ?case
  proof (cases ok)
    case True
    then show ?thesis
      using "2.prems" c canSchedule_env [OF c] by (auto intro!: exI [of _ "{#}"])
  next
    case False
    then have "peekWorks ws w2 = Some (r, ws1, w1)"
      using "2.prems" c by simp
    from "2.IH" [OF c _ False this] obtain D where D: "mset ws = mset ws1 + D"
        "all_ended (sm_requests (w_state w1)) D" "same_env w2 w1"
        "case r of None \<Rightarrow> ws1 = [] | Some x \<Rightarrow> \<exists>rest w0. ws1 = x # rest \<and> canSchedule x w0 = Some (True, w1)"
      by auto
    have "ended (sm_requests (w_state w1)) work"
      using canSchedule_frame(4) [OF c False] D(3) by (auto simp: same_env_def intro: ended_fewer)
    then show ?thesis
      using D canSchedule_env [OF c] by (intro conjI exI [of _ "add_mset work D"]) (auto intro: same_env_trans)
  qed
qed auto

text \<open>No deadline of a live request passes: the clock readings agree on which requests have expired.\<close>

definition steady :: "world \<Rightarrow> bool" where
  "steady w \<longleftrightarrow> (\<forall>q rq. fmlookup (sm_requests (w_state w)) q = Some rq \<longrightarrow>
     (\<forall>i j. expired (w_clock w i) rq \<longrightarrow> expired (w_clock w j) rq))"

lemma steady_env: "steady w \<Longrightarrow> same_env w w1 \<Longrightarrow> steady w1"
  unfolding steady_def same_env_def fewer_def by (elim conjE) (simp only:, blast)

lemma canSchedule_again:
  assumes c: "canSchedule x w0 = Some (True, w1)" and st: "steady w1"
  shows "\<exists>w2. canSchedule x w1 = Some (True, w2)"
proof -
  have "sm_CanSchedule (w_now w0) (w_fresh w0) x (w_state w0) = Some (True, w_state w1)" "w_clock w1 = w_clock w0"
      "w_state w1 = w_state w0"
    using c canSchedule_frame(1,5) [OF c] by (auto simp: canSchedule_def w_advance_def split: bind_splits)
  then obtain rq where rq: "fmlookup (sm_requests (w_state w1)) (wk_RequestId x) = Some rq"
      "\<not> expired (w_now w0) rq" "\<not> terminal (rq_Phase rq)"
    using sm_CanSchedule_yes(2) by metis
  have "\<not> expired (w_now w1) rq"
    using st rq(1,2) \<open>w_clock w1 = w_clock w0\<close> unfolding steady_def w_now_def by metis
  then show ?thesis
    using rq(1,3) by (simp add: canSchedule_def sm_CanSchedule_def expired_def [symmetric] terminal_def)
qed

lemma pop_after_peek:
  assumes "peekWorks ws w = Some (Some x, ws1, w1)" "steady w" "popWorks ws1 w1 = Some (r, ws2, w2)"
  shows "r = Some x" "ws1 = x # ws2"
proof -
  obtain rest w0 where p: "ws1 = x # rest" "canSchedule x w0 = Some (True, w1)" "same_env w w1"
    using peekWorks_spec [OF assms(1)] by auto
  obtain w3 where "canSchedule x w1 = Some (True, w3)"
    using canSchedule_again [OF p(2)] steady_env [OF assms(2) p(3)] by blast
  then show "r = Some x" "ws1 = x # ws2"
    using assms(3) p(1) by simp_all
qed

subsection \<open>Where taken works go\<close>

text \<open>
  \<open>P\<close> are the works taken from the queues of executor \<open>e\<close> and not yet decided on.  Every work that
  waited at the start still waits, is in \<open>P\<close>, is in the batch, or has ended.
\<close>

definition item_of :: "string \<Rightarrow> WorkItem \<Rightarrow> bool" where
  "item_of e w \<longleftrightarrow> (prefill_item w \<or> decode_item w) \<and> wk_ExecutorID w = e"

definition ids :: "WorkItem multiset \<Rightarrow> string multiset" where
  "ids = image_mset wk_WorkId"

lemma ids_simps [simp]: "ids {#} = {#}" "ids (A + B) = ids A + ids B" "ids (add_mset w A) = add_mset (wk_WorkId w) (ids A)"
  by (simp_all add: ids_def)

definition on_course :: "scheduler \<Rightarrow> string \<Rightarrow> WorkItem list \<Rightarrow> WorkItem list \<Rightarrow> scheduler \<Rightarrow> bool" where
  "on_course s0 e P batch s \<longleftrightarrow> same_setup s0 s \<and> routed s \<and> has_queues s \<and> e \<in> set (s_executorIDs s) \<and>
     fewer (requestsOf s0) (requestsOf s) \<and> s_executorManager s = s_executorManager s0 \<and>
     (\<forall>w \<in> set P. item_of e w) \<and> (\<forall>w \<in> set batch. item_of e w \<and> sendable w) \<and>
     (\<forall>k. k \<noteq> e \<longrightarrow> waiting s k = waiting s0 k) \<and>
     (\<exists>D. ids (waiting s0 e) = ids (waiting s e) + ids (mset P) + ids (mset batch) + ids D \<and> all_ended (requestsOf s) D)"

lemma on_course_start: "routed s \<Longrightarrow> has_queues s \<Longrightarrow> e \<in> set (s_executorIDs s) \<Longrightarrow> on_course s e [] [] s"
  by (auto simp: on_course_def intro!: exI [of _ "{#}"])

lemma waiting_frame: "same_queues s s1 \<Longrightarrow> waiting s1 = waiting s"
  by (simp add: waiting_def same_queues_works fun_eq_iff)

lemma on_course_steady: "on_course s0 e P batch s \<Longrightarrow> steady (s_world s0) \<Longrightarrow> steady (s_world s)"
  by (rule steady_env [of "s_world s0"]) (auto simp: on_course_def same_env_def same_setup_def)

text \<open>One step on: the queues, the works in hand and the batch after it.\<close>

lemma on_course_next:
  assumes c: "on_course s0 e P batch s"
    and s1: "same_setup s s1" "routed s1" "has_queues s1" "fewer (requestsOf s) (requestsOf s1)" "s_executorManager s1 = s_executorManager s"
    and w: "\<And>k. k \<noteq> e \<Longrightarrow> waiting s1 k = waiting s k"
      "ids (waiting s e) + ids (mset P) + ids (mset batch) = ids (waiting s1 e) + ids (mset P1) + ids (mset batch1) + ids D"
      "all_ended (requestsOf s1) D"
    and i: "\<forall>w \<in> set P1. item_of e w" "\<forall>w \<in> set batch1. item_of e w \<and> sendable w"
  shows "on_course s0 e P1 batch1 s1"
proof -
  obtain D0 where D0: "ids (waiting s0 e) = ids (waiting s e) + ids (mset P) + ids (mset batch) + ids D0" "all_ended (requestsOf s) D0"
    using c by (auto simp: on_course_def)
  have "ids (waiting s0 e) = ids (waiting s1 e) + ids (mset P1) + ids (mset batch1) + ids (D + D0)"
    unfolding D0(1) w(2) by (simp add: ac_simps)
  moreover have "all_ended (requestsOf s1) (D + D0)"
    using w(3) all_ended_fewer [OF D0(2) s1(4)] by simp
  moreover have "same_setup s0 s1" "fewer (requestsOf s0) (requestsOf s1)" "e \<in> set (s_executorIDs s1)"
      "s_executorManager s1 = s_executorManager s0"
    using c s1 by (auto simp: on_course_def same_setup_def fewer_def)
  moreover have "\<forall>k. k \<noteq> e \<longrightarrow> waiting s1 k = waiting s0 k"
    using c w(1) by (simp add: on_course_def)
  ultimately show ?thesis
    using s1(2,3) i unfolding on_course_def by blast
qed

lemma on_courseD:
  assumes "on_course s0 e P batch s"
  shows "same_setup s0 s" "routed s" "has_queues s" "e \<in> set (s_executorIDs s)" "\<forall>w \<in> set P. item_of e w"
    "\<forall>w \<in> set batch. item_of e w \<and> sendable w"
  using assms by (simp_all add: on_course_def)

text \<open>Taking works out of the queues of the executor.\<close>

lemma on_course_take:
  assumes c: "on_course s0 e P batch s" and s1: "same_setup s s1" "routed s1" "has_queues s1" "fewer (requestsOf s) (requestsOf s1)"
    "s_executorManager s1 = s_executorManager s"
    and w: "waiting s e = waiting s1 e + mset Q + D" "all_ended (requestsOf s1) D" "\<And>k. k \<noteq> e \<Longrightarrow> waiting s1 k = waiting s k"
    and q: "\<forall>w \<in> set Q. item_of e w"
  shows "on_course s0 e (Q @ P) batch s1"
  by (rule on_course_next [OF c s1 w(3) _ w(2)]) (use w(1) q on_courseD(5,6) [OF c] in \<open>auto simp: ac_simps\<close>)

text \<open>The three decisions.\<close>

lemma on_course_fail:
  assumes c: "on_course s0 e (x # P) batch s" and a: "allocateBlocks y s = Some (Inl err, s1)"
    and f: "failRequest (wk_RequestId x) er s1 = Some s2"
  shows "on_course s0 e P batch s2"
proof -
  note fr = allocateBlocks_frame(1-4) [OF a] failRequest_frame [OF f]
  have su: "same_setup s s2" and queues: "same_queues s s2"
    using fr by (auto simp: same_setup_def same_queues_def)
  have "routed s2" "has_queues s2"
    using on_courseD(2,3) [OF c] routed_frame [OF queues su] has_queues_frame [OF queues su] by simp_all
  then show ?thesis
    by (rule on_course_next [OF c su, of _ _ "{#x#}"])
      (use fr waiting_frame [OF queues] on_courseD(5,6) [OF c] in \<open>auto simp: ended_def\<close>)
qed

lemma on_course_requeue:
  assumes c: "on_course s0 e (x # P) batch s" and a: "allocateBlocks y s = Some (Inr (False, y1), s1)"
    and r: "requeueWork x s1 = Some s2"
  shows "on_course s0 e P batch s2"
proof -
  note fr = allocateBlocks_frame(1-4) [OF a]
  have x: "item_of e x" "wk_ExecutorID x = e"
    using on_courseD(5) [OF c] by (auto simp: item_of_def)
  have q1: "routed s1" "has_queues s1" "wk_ExecutorID x \<in> set (s_executorIDs s1)" "known_phase x"
    using on_courseD(2-4) [OF c] x routed_frame [OF fr(2,1)] has_queues_frame [OF fr(2,1)] fr(1)
    by (auto simp: item_of_def known_phase_def prefill_item_def decode_item_def same_setup_def)
  have w: "s_world s2 = s_world s1" "has_queues s2" "same_setup s1 s2" "s_executorManager s2 = s_executorManager s1"
      "waiting s2 = (waiting s1)(e := add_mset (unallocated x) (waiting s1 e))"
    using requeueWork_waiting [OF q1(2-4)] r x(2) by auto
  have "routed s2"
    by (rule requeueWork_routed [OF r q1(1)]) (use x in \<open>simp add: item_of_def\<close>)
  then show ?thesis
    by (rule on_course_next [OF c same_setup_trans [OF fr(1) w(3)] _ w(2), of _ _ "{#}"])
      (use w fr waiting_frame [OF fr(2)] on_courseD(5,6) [OF c] in auto)
qed

lemma on_course_pick:
  assumes c: "on_course s0 e (x # P) batch s" and a: "allocateBlocks y s = Some (Inr (True, y1), s1)"
    and y: "wk_WorkId y = wk_WorkId x" "item_of e y"
  shows "on_course s0 e P (batch @ [y1]) s1"
proof -
  note fr = allocateBlocks_frame(1-4) [OF a]
  have y1: "y1 = y\<lparr>wk_BlockAllocation := wk_BlockAllocation y1\<rparr>" "wk_BlockAllocation y1 \<noteq> None"
    using allocateBlocks_frame(5) [OF a, of True y1] allocateBlocks_frame(6) [OF a, of y1] by simp_all
  have f: "wk_WorkId y1 = wk_WorkId y" "wk_Phase y1 = wk_Phase y" "wk_TokenIDs y1 = wk_TokenIDs y"
      "wk_NumNewTokens y1 = wk_NumNewTokens y" "wk_ExecutorID y1 = wk_ExecutorID y"
    by (subst y1(1), simp)+
  have ok: "item_of e y1" "sendable y1"
    using y(2) y1(2) f by (auto simp: item_of_def prefill_item_def decode_item_def sendable_def Suc_le_eq)
  have "routed s1" "has_queues s1"
    using on_courseD(2,3) [OF c] routed_frame [OF fr(2,1)] has_queues_frame [OF fr(2,1)] by simp_all
  then show ?thesis
    by (rule on_course_next [OF c fr(1), of _ _ "{#}"])
      (use fr ok f(1) y(1) waiting_frame [OF fr(2)] on_courseD(5,6) [OF c] in auto)
qed

end
