(* ===== verification/Sched_Batch.thy ===== *)
theory Sched_Batch
  imports Sched_Pick
begin

text \<open>
  The three picking loops and the whole batch: what \<^verbatim>\<open>pickBatch\<close> returns, whatever the requests, the
  block managers and the clock do meanwhile, and the budgets it keeps when no deadline passes.
\<close>

subsection \<open>Splitting a prefill\<close>

lemma WorkBudgetCost_alloc [simp]: "WorkBudgetCost (w\<lparr>wk_BlockAllocation := a\<rparr>) = WorkBudgetCost w"
  by (simp add: WorkBudgetCost_def split: WorkPhase.splits)

lemma WorkBudgetCost_prefill: "prefill_item w \<Longrightarrow> WorkBudgetCost w = wk_NumNewTokens w"
  by (auto simp: WorkBudgetCost_def prefill_item_def word_gt_0 unat_eq_0)

lemma WorkBudgetCost_decode: "decode_item w \<Longrightarrow> WorkBudgetCost w = 1"
  by (simp add: WorkBudgetCost_def decode_item_def DefaultDecodeBudgetTokensPlanned_def)

text \<open>The chunk has exactly the tokens asked for, and the rest the others.\<close>

lemma split_spec:
  assumes "prefill_item w"
  shows "\<exists>chunk rest. splitPrefillChunk w t = Some (chunk, rest) \<and> prefill_item chunk \<and>
    chunk = w\<lparr>wk_NumNewTokens := min (wk_NumNewTokens w) t, wk_TokenIDs := wk_TokenIDs chunk\<rparr> \<and>
    wk_TokenIDs w = wk_TokenIDs chunk @ (case rest of None \<Rightarrow> [] | Some r \<Rightarrow> wk_TokenIDs r) \<and>
    (case rest of None \<Rightarrow> wk_NumNewTokens w \<le> t
     | Some r \<Rightarrow> t < wk_NumNewTokens w \<and> prefill_item r \<and> wk_PrefillOffset r = wk_PrefillOffset w + wk_NumNewTokens chunk \<and>
         wk_NumNewTokens r = wk_NumNewTokens w - wk_NumNewTokens chunk \<and> wk_TokenCntTotal r = wk_TokenCntTotal w \<and>
         wk_WorkId r = wk_WorkId w)"
proof (cases "wk_NumNewTokens w \<le> t")
  case True
  then have "splitPrefillChunk w t = Some (w\<lparr>wk_NumNewTokens := wk_NumNewTokens w\<rparr>, None)"
    using assms by (simp add: splitPrefillChunk_def WorkBudgetCost_prefill Let_def min_def)
  then show ?thesis
    using True assms by (simp add: min_def prefill_item_def)
next
  case False
  then have lt: "t < wk_NumNewTokens w" "unat t < length (wk_TokenIDs w)" "wk_NumNewTokens w - t \<noteq> 0"
      "unat (wk_NumNewTokens w - t) = length (wk_TokenIDs w) - unat t"
    using assms by (auto simp: prefill_item_def word_less_nat_alt unat_sub_if' not_le)
  then have "splitPrefillChunk w t = Some (w\<lparr>wk_NumNewTokens := t, wk_TokenIDs := take (unat t) (wk_TokenIDs w)\<rparr>,
      Some (w\<lparr>wk_PrefillOffset := wk_PrefillOffset w + t, wk_NumNewTokens := wk_NumNewTokens w - t,
              wk_TokenIDs := drop (unat t) (wk_TokenIDs w)\<rparr>))"
    using assms False by (simp add: splitPrefillChunk_def WorkBudgetCost_prefill Let_def slice_from_Some slice_Some)
  then show ?thesis
    using lt assms by (simp add: prefill_item_def min_def)
qed

subsection \<open>Budgets\<close>

definition spent :: "WorkItem list \<Rightarrow> nat" where
  "spent batch = sum_list (map (\<lambda>w. unat (WorkBudgetCost w)) batch)"

lemma spent_simps [simp]: "spent [] = 0" "spent (xs @ ys) = spent xs + spent ys" "spent [w] = unat (WorkBudgetCost w)"
  by (simp_all add: spent_def)

definition within :: "batchBudget \<Rightarrow> WorkItem list \<Rightarrow> batchBudget \<Rightarrow> bool" where
  "within b0 batch b \<longleftrightarrow> spent batch + unat (bb_remainTokens b) \<le> unat (bb_remainTokens b0) \<and>
     length batch + unat (bb_remainSeqs b) \<le> unat (bb_remainSeqs b0)"

lemma within_pick:
  assumes "within b0 batch b" "WorkBudgetCost y = c" "c \<le> bb_remainTokens b" "0 < bb_remainSeqs b"
    "bb_remainTokens b1 = bb_remainTokens b - c" "bb_remainSeqs b1 = bb_remainSeqs b - 1"
  shows "within b0 (batch @ [y]) b1"
proof -
  have "unat (bb_remainTokens b1) = unat (bb_remainTokens b) - unat c" "unat c \<le> unat (bb_remainTokens b)"
    using assms(3,5) by (simp_all add: unat_sub word_le_nat_alt)
  moreover have "unat (bb_remainSeqs b1) = unat (bb_remainSeqs b) - 1" "0 < unat (bb_remainSeqs b)"
    using assms(4,6) by (simp_all add: unat_minus_one word_gt_0 unat_gt_0)
  ultimately show ?thesis
    using assms(1,2) by (simp add: within_def)
qed

definition prefills :: "WorkItem list \<Rightarrow> nat" where
  "prefills batch = length (filter (\<lambda>w. wk_Phase w = WorkPhasePrefill) batch)"

definition larges :: "u32 \<Rightarrow> WorkItem list \<Rightarrow> nat" where
  "larges thr batch = length (filter (\<lambda>w. wk_Phase w = WorkPhasePrefill \<and> thr < wk_TokenCntTotal w) batch)"

lemma prefills_append [simp]: "prefills [] = 0" "prefills (xs @ ys) = prefills xs + prefills ys"
  by (simp_all add: prefills_def)

lemma larges_append [simp]: "larges thr [] = 0" "larges thr (xs @ ys) = larges thr xs + larges thr ys"
  by (simp_all add: larges_def)

definition capped :: "u32 \<Rightarrow> batchBudget \<Rightarrow> WorkItem list \<Rightarrow> batchBudget \<Rightarrow> bool" where
  "capped thr b0 batch b \<longleftrightarrow> prefills batch + unat (bb_remainPrefill b) \<le> unat (bb_remainPrefill b0) \<and>
     larges thr batch + unat (bb_remainLargePrefill b) \<le> unat (bb_remainLargePrefill b0)"

subsection \<open>Rounds\<close>

lemma allocated_item:
  assumes "allocateBlocks y s = Some (Inr (True, y1), s1)"
  shows "WorkBudgetCost y1 = WorkBudgetCost y" "prefill_item y1 \<longleftrightarrow> prefill_item y" "decode_item y1 \<longleftrightarrow> decode_item y"
    "wk_TokenCntTotal y1 = wk_TokenCntTotal y"
proof -
  have y1: "y1 = y\<lparr>wk_BlockAllocation := wk_BlockAllocation y1\<rparr>"
    using allocateBlocks_frame(5) [OF assms, of True y1] by simp
  show "WorkBudgetCost y1 = WorkBudgetCost y" "prefill_item y1 \<longleftrightarrow> prefill_item y" "decode_item y1 \<longleftrightarrow> decode_item y"
    "wk_TokenCntTotal y1 = wk_TokenCntTotal y"
    by (subst y1, simp add: prefill_item_def decode_item_def)+
qed

text \<open>
  What a picking loop of executor \<open>e\<close> leaves: works with property \<open>P\<close> added to the batch, the token and sequence budgets
  kept if \<open>ok\<close>, and the prefill budgets kept.
\<close>

definition picked :: "scheduler \<Rightarrow> string \<Rightarrow> (WorkItem \<Rightarrow> bool) \<Rightarrow> bool \<Rightarrow> WorkItem list \<Rightarrow> batchBudget \<Rightarrow> picking \<times> scheduler \<Rightarrow> bool" where
  "picked s0 e P ok batch b r \<longleftrightarrow> (case r of ((batch1, b1), s1) \<Rightarrow> on_course s0 e [] batch1 s1 \<and>
     (\<exists>ws. batch1 = batch @ ws \<and> (\<forall>w \<in> set ws. P w)) \<and> (ok \<longrightarrow> (\<forall>b0. within b0 batch b \<longrightarrow> within b0 batch1 b1)) \<and>
     (\<forall>b0. capped (s_longPrefillThreshold s0) b0 batch b \<longrightarrow> capped (s_longPrefillThreshold s0) b0 batch1 b1))"

lemma picked_none: "on_course s0 e [] batch s \<Longrightarrow> picked s0 e P ok batch b ((batch, b), s)"
  by (simp add: picked_def)

lemma picked_one:
  assumes "post (picked s0 e P ok (batch @ [w]) b1) m" "P w" "\<And>b0. ok \<Longrightarrow> within b0 batch b \<Longrightarrow> within b0 (batch @ [w]) b1"
    "\<And>b0. capped (s_longPrefillThreshold s0) b0 batch b \<Longrightarrow> capped (s_longPrefillThreshold s0) b0 (batch @ [w]) b1"
  shows "post (picked s0 e P ok batch b) m"
  using assms by (fastforce simp: post_def picked_def)

text \<open>The end of every round: blocks are allocated for the work in hand, which then fails, waits again or joins the batch.\<close>

lemma decide_post:
  assumes c: "on_course s0 e (x # P) batch s" and y: "wk_WorkId y = wk_WorkId x" "item_of e y"
    and z: "q = wk_RequestId x" "\<And>y1. y1 = y \<Longrightarrow> z y1 = x"
    and retry: "\<And>s1. on_course s0 e P batch s1 \<Longrightarrow> post Q (again s1)"
    and joined: "\<And>y1 s1. allocateBlocks y s = Some (Inr (True, y1), s1) \<Longrightarrow> on_course s0 e P (batch @ [y1]) s1 \<Longrightarrow> post Q (join y1 s1)"
  shows "post Q (do {
     (res, s1) \<leftarrow> allocateBlocks y s;
     case res of
       Inl err \<Rightarrow> do { s2 \<leftarrow> failRequest q (Some err) s1; again s2 }
     | Inr (allocated, y1) \<Rightarrow> if \<not> allocated then do { s2 \<leftarrow> requeueWork (z y1) s1; again s2 } else join y1 s1
   })"
proof (cases "allocateBlocks y s")
  case (Some r)
  obtain res s1 where r: "r = (res, s1)"
    by (cases r)
  show ?thesis
  proof (cases res)
    case (Inl err)
    have "post Q (again s2)" if "failRequest q (Some err) s1 = Some s2" for s2
      by (rule retry [OF on_course_fail [OF c]]) (use Some r Inl that z(1) in simp_all)
    then show ?thesis
      using Some r Inl by (auto intro: postI)
  next
    case (Inr ok_y1)
    obtain ok y1 where ok: "ok_y1 = (ok, y1)"
      by (cases ok_y1)
    show ?thesis
    proof (cases ok)
      case True
      then show ?thesis
        using Some r Inr ok joined [of y1 s1] on_course_pick [OF c _ y, of y1 s1] by simp
    next
      case False
      then have "z y1 = x"
        using allocateBlocks_frame(5) [of y s res s1 ok y1] z(2) Some r Inr ok by simp
      then have "post Q (again s2)" if "requeueWork (z y1) s1 = Some s2" for s2
        using retry [OF on_course_requeue [OF c _, of y y1 s1]] that Some r Inr ok False by simp
      then show ?thesis
        using Some r Inr ok False by (auto intro: postI)
    qed
  qed
qed simp

lemma capped_pick:
  assumes "capped thr b0 batch b" "prefill_item y" "0 < bb_remainPrefill b" "bb_remainPrefill b1 = bb_remainPrefill b - 1"
    "if thr < wk_TokenCntTotal y then 0 < bb_remainLargePrefill b \<and> bb_remainLargePrefill b1 = bb_remainLargePrefill b - 1
     else bb_remainLargePrefill b1 = bb_remainLargePrefill b"
  shows "capped thr b0 (batch @ [y]) b1"
proof -
  have "unat (bb_remainPrefill b1) = unat (bb_remainPrefill b) - 1" "0 < unat (bb_remainPrefill b)"
    using assms(3,4) by (simp_all add: unat_minus_one word_gt_0 unat_gt_0)
  moreover have "larges thr [y] + unat (bb_remainLargePrefill b1) = unat (bb_remainLargePrefill b)"
  proof (cases "thr < wk_TokenCntTotal y")
    case True
    then have "unat (bb_remainLargePrefill b1) = unat (bb_remainLargePrefill b) - 1" "0 < unat (bb_remainLargePrefill b)"
      using assms(5) by (simp_all add: unat_minus_one word_gt_0 unat_gt_0)
    then show ?thesis
      using True assms(2) by (simp add: larges_def prefill_item_def)
  qed (use assms(5) in \<open>simp add: larges_def\<close>)
  ultimately show ?thesis
    using assms(1,2) by (simp add: capped_def prefills_def prefill_item_def)
qed

subsection \<open>Decodes\<close>

lemma pickDecodeLoop_spec:
  assumes "on_course s0 e ws batch s" "\<forall>w \<in> set ws. decode_item w"
    "length ws \<le> unat (bb_remainTokens b)" "length ws \<le> unat (bb_remainSeqs b)"
  shows "post (picked s0 e decode_item True batch b) (pickDecodeLoop ws (batch, b) s)"
  using assms
proof (induction ws arbitrary: batch b s)
  case (Cons w ws)
  have w: "decode_item w" "item_of e w" and ws: "\<forall>w \<in> set ws. decode_item w"
    using Cons.prems(1,2) on_courseD(5) by auto
  have pos: "bb_remainTokens b \<noteq> 0" "bb_remainSeqs b \<noteq> 0"
    using Cons.prems(3,4) by auto
  let ?b = "b\<lparr>bb_remainTokens := bb_remainTokens b - 1, bb_remainSeqs := bb_remainSeqs b - 1\<rparr>"
  show ?case
    unfolding pickDecodeLoop.simps
  proof (rule decide_post [OF Cons.prems(1) refl w(2) refl])
    show "post (picked s0 e decode_item True batch b) (pickDecodeLoop ws (batch, b) s1)" if "on_course s0 e ws batch s1" for s1
      by (rule Cons.IH [OF that ws]) (use Cons.prems(3,4) in simp_all)
  next
    fix w1 s1 assume a: "allocateBlocks w s = Some (Inr (True, w1), s1)" and on: "on_course s0 e ws (batch @ [w1]) s1"
    have c: "WorkBudgetCost w1 = 1" "decode_item w1"
      using allocated_item [OF a] WorkBudgetCost_decode [OF w(1)] w(1) by simp_all
    have "length ws \<le> unat (bb_remainTokens ?b)" "length ws \<le> unat (bb_remainSeqs ?b)"
      using Cons.prems(3,4) pos by (simp_all add: unat_minus_one)
    then show "post (picked s0 e decode_item True batch b) (pickDecodeLoop ws (batch @ [w1], ?b) s1)"
    proof (rule picked_one [OF Cons.IH [OF on ws] c(2)])
      show "within b0 (batch @ [w1]) ?b" if "within b0 batch b" for b0
        by (rule within_pick [OF that c(1)]) (use pos in \<open>simp_all add: word_gt_0 word_le_nat_alt unat_gt_0 Suc_le_eq\<close>)
    qed (use c(2) in \<open>simp add: capped_def prefills_def larges_def decode_item_def\<close>)
  qed
qed (simp add: picked_none)

lemma take_decode:
  assumes c: "routed s" "has_queues s" and q: "fmlookup (s_decode s) e = Some q"
    and m: "mset (map en_work (dq_works q)) = mset ws + mset (map en_work (dq_works q1)) + D" "all_ended (sm_requests (w_state w1)) D"
    and env: "same_env (s_world s) w1"
    and i: "\<forall>w \<in> set ws. decode_item w \<and> wk_ExecutorID w = e" "\<forall>w \<in> set (map en_work (dq_works q1)). decode_item w \<and> wk_ExecutorID w = e"
  shows "on_course s e (ws @ []) [] (s\<lparr>s_decode := fmupd e q1 (s_decode s), s_world := w1\<rparr>)" (is "on_course s e _ _ ?s")
proof -
  have e: "e \<in> set (s_executorIDs s)"
    using c(2) q unfolding has_queues_def by (metis option.distinct(1))
  have dw: "decodeWorks ?s = (decodeWorks s)(e := map en_work (dq_works q1))" "smallWorks ?s = smallWorks s" "largeWorks ?s = largeWorks s"
    by (auto simp: works_defs fun_eq_iff)
  have ro: "routed ?s"
    using c(1) i(2) unfolding routed_def dw by auto
  show ?thesis
  proof (rule on_course_take [OF on_course_start [OF c e] _ ro, of ws D])
    show "same_setup s ?s" "fewer (requestsOf s) (requestsOf ?s)"
      using env by (simp_all add: same_setup_def same_env_def)
    show "has_queues ?s"
      using c(2) e by (auto simp: has_queues_def)
    have "decodeWorks s e = map en_work (dq_works q)"
      using q by (simp add: decodeWorks_def)
    then show "waiting s e = waiting ?s e + mset ws + D"
      using m(1) unfolding waiting_def dw by (simp add: ac_simps)
    show "waiting ?s k = waiting s k" if "k \<noteq> e" for k
      using that unfolding waiting_def dw by simp
  qed (use m(2) i(1) in \<open>auto simp: item_of_def\<close>)
qed

text \<open>The decodes are taken all at once, as many as the budget lasts for.\<close>

lemma dequeue_decodes:
  assumes c: "routed s" "has_queues s" and q: "fmlookup (s_decode s) e = Some q" "dq_Dequeue k q (s_world s) = Some (ws, n, q1, w1)"
  shows "on_course s e ws [] (s\<lparr>s_decode := fmupd e q1 (s_decode s), s_world := w1\<rparr>)" "\<forall>w \<in> set ws. decode_item w"
    "length ws \<le> unat k" "n = 0 \<longleftrightarrow> ws = []"
proof -
  let ?s = "s\<lparr>s_decode := fmupd e q1 (s_decode s), s_world := w1\<rparr>"
  have "n = of_nat (length ws) \<and> length ws \<le> unat k \<and> same_env (s_world s) w1 \<and>
        (\<exists>D. mset (map en_work (dq_works q)) = mset ws + mset (map en_work (dq_works q1)) + D \<and> all_ended (sm_requests (w_state w1)) D)"
  proof (cases "k = 0")
    case True
    then show ?thesis
      using q(2) by (auto simp: dq_Dequeue_def intro!: exI [of _ "{#}"])
  next
    case False
    then obtain es where es: "dequeueEntries (unat k) (dq_works q) (s_world s) = Some (ws, es, w1)" "n = of_nat (length ws)" "dq_works q1 = es"
      using q(2) by (auto simp: dq_Dequeue_def split: bind_splits)
    then show ?thesis
      using dequeueEntries_spec [OF es(1)] by simp
  qed
  then obtain D where d: "n = of_nat (length ws)" "length ws \<le> unat k" "same_env (s_world s) w1"
      "mset (map en_work (dq_works q)) = mset ws + mset (map en_work (dq_works q1)) + D" "all_ended (sm_requests (w_state w1)) D"
    by blast
  have "\<forall>w \<in># mset (map en_work (dq_works q)). decode_item w \<and> wk_ExecutorID w = e"
    using routedD(3) [OF c(1) q(1)] by auto
  then have ws: "\<forall>w \<in> set ws. decode_item w \<and> wk_ExecutorID w = e"
    and q1: "\<forall>w \<in> set (map en_work (dq_works q1)). decode_item w \<and> wk_ExecutorID w = e"
    unfolding d(4) by auto
  have "on_course s e (ws @ []) [] ?s"
    by (rule take_decode [OF c q(1) d(4,5,3) ws q1])
  then show "on_course s e ws [] ?s"
    by simp
  show "\<forall>w \<in> set ws. decode_item w" "length ws \<le> unat k"
    using ws d(2) by simp_all
  have "length ws < 2 ^ 32"
    using d(2) unat_lt_u32 [of k] by simp
  then show "n = 0 \<longleftrightarrow> ws = []"
    using d(1) unat_of_nat_u32 [of "length ws"] by (auto simp: unat_eq_0 [symmetric] simp del: unat_eq_0)
qed

lemma pickDecode_spec:
  assumes "routed s" "has_queues s"
  shows "post (\<lambda>((batch1, b1), s1). on_course s e [] batch1 s1 \<and> within b batch1 b1 \<and> (\<forall>w \<in> set batch1. decode_item w) \<and>
    (batch1 = [] \<or> capped (s_longPrefillThreshold s) b batch1 b1)) (pickDecode e ([], b) s)" (is "post ?Q _")
proof (rule postI)
  fix r assume run: "pickDecode e ([], b) s = Some r"
  let ?n = "min (bb_remainSeqs b) (bb_remainTokens b)"
  obtain q ws n q1 w1 where q: "fmlookup (s_decode s) e = Some q" "dq_Dequeue ?n q (s_world s) = Some (ws, n, q1, w1)"
    using run by (auto simp: pickDecode_def split: bind_splits)
  note d = dequeue_decodes [OF assms q]
  have b: "length ws \<le> unat (bb_remainTokens b)" "length ws \<le> unat (bb_remainSeqs b)"
    using d(3) by (auto simp: min_def word_le_nat_alt split: if_splits)
  have "within b [] b" "capped (s_longPrefillThreshold s) b [] b"
    by (simp_all add: within_def capped_def)
  moreover have "if ws = [] then r = (([], b\<lparr>bb_remainPrefill := bb_remainSeqs b, bb_remainLargePrefill := bb_remainSeqs b\<rparr>), s\<lparr>s_decode := fmupd e q1 (s_decode s), s_world := w1\<rparr>)
      else pickDecodeLoop ws ([], b) (s\<lparr>s_decode := fmupd e q1 (s_decode s), s_world := w1\<rparr>) = Some r"
    using run q d(4) by (auto simp: pickDecode_def)
  ultimately show "?Q r"
    using d(1) postD [OF pickDecodeLoop_spec [OF d(1,2) b]] by (cases "ws = []") (auto simp: picked_def within_def)
qed
subsection \<open>Prefills\<close>

lemma take_small:
  assumes c: "on_course s0 e P batch s" and q: "fmlookup (s_prefillSmall s) e = Some q"
    and m: "mset (pq_works q) = mset ws + mset Q + D" "all_ended (sm_requests (w_state w1)) D" and env: "same_env (s_world s) w1"
  shows "on_course s0 e (Q @ P) batch (s\<lparr>s_prefillSmall := fmupd e (q\<lparr>pq_works := ws\<rparr>) (s_prefillSmall s), s_world := w1\<rparr>)"
    (is "on_course s0 e _ batch ?s")
proof (rule on_course_take [OF c])
  have all: "\<forall>w \<in># mset (pq_works q). prefill_item w \<and> wk_ExecutorID w = e \<and> wk_TokenCntTotal w \<le> s_longPrefillThreshold s"
    using routedD(1) [OF on_courseD(2) [OF c] q] by simp
  have sw: "smallWorks ?s = (smallWorks s)(e := ws)" "largeWorks ?s = largeWorks s" "decodeWorks ?s = decodeWorks s"
    by (auto simp: works_defs fun_eq_iff)
  show "same_setup s ?s" "fewer (requestsOf s) (requestsOf ?s)" "s_executorManager ?s = s_executorManager s"
    using env by (simp_all add: same_setup_def same_env_def)
  show "has_queues ?s"
    using on_courseD(3,4) [OF c] by (auto simp: has_queues_def)
  have "prefill_item w \<and> wk_ExecutorID w = e \<and> wk_TokenCntTotal w \<le> s_longPrefillThreshold s" if "w \<in> set ws" for w
    using bspec [OF all, of w] that unfolding m(1) by simp
  then show "routed ?s"
    using on_courseD(2) [OF c] unfolding routed_def sw by auto
  have "smallWorks s e = pq_works q"
    using q by (simp add: smallWorks_def)
  then show "waiting s e = waiting ?s e + mset Q + D"
    using m(1) unfolding waiting_def sw by (simp add: ac_simps)
  show "waiting ?s k = waiting s k" if "k \<noteq> e" for k
    using that unfolding waiting_def sw by simp
  show "\<forall>w \<in> set Q. item_of e w"
    using all unfolding m(1) by (auto simp: item_of_def)
  show "all_ended (requestsOf ?s) D"
    using m(2) by simp
qed

lemma take_large:
  assumes c: "on_course s0 e P batch s" and q: "fmlookup (s_prefillLarge s) e = Some q"
    and m: "mset (pq_works q) = mset ws + mset Q + D" "all_ended (sm_requests (w_state w1)) D" and env: "same_env (s_world s) w1"
  shows "on_course s0 e (Q @ P) batch (s\<lparr>s_prefillLarge := fmupd e (q\<lparr>pq_works := ws\<rparr>) (s_prefillLarge s), s_world := w1\<rparr>)"
    (is "on_course s0 e _ batch ?s")
proof (rule on_course_take [OF c])
  have all: "\<forall>w \<in># mset (pq_works q). prefill_item w \<and> wk_ExecutorID w = e \<and> s_longPrefillThreshold s < wk_TokenCntTotal w"
    using routedD(2) [OF on_courseD(2) [OF c] q] by simp
  have sw: "largeWorks ?s = (largeWorks s)(e := ws)" "smallWorks ?s = smallWorks s" "decodeWorks ?s = decodeWorks s"
    by (auto simp: works_defs fun_eq_iff)
  show "same_setup s ?s" "fewer (requestsOf s) (requestsOf ?s)" "s_executorManager ?s = s_executorManager s"
    using env by (simp_all add: same_setup_def same_env_def)
  show "has_queues ?s"
    using on_courseD(3,4) [OF c] by (auto simp: has_queues_def)
  have "prefill_item w \<and> wk_ExecutorID w = e \<and> s_longPrefillThreshold s < wk_TokenCntTotal w" if "w \<in> set ws" for w
    using bspec [OF all, of w] that unfolding m(1) by simp
  then show "routed ?s"
    using on_courseD(2) [OF c] unfolding routed_def sw by auto
  have "largeWorks s e = pq_works q"
    using q by (simp add: largeWorks_def)
  then show "waiting s e = waiting ?s e + mset Q + D"
    using m(1) unfolding waiting_def sw by (simp add: ac_simps)
  show "waiting ?s k = waiting s k" if "k \<noteq> e" for k
    using that unfolding waiting_def sw by simp
  show "\<forall>w \<in> set Q. item_of e w"
    using all unfolding m(1) by (auto simp: item_of_def)
  show "all_ended (requestsOf ?s) D"
    using m(2) by simp
qed

text \<open>Looking at and taking the head of a prefill queue.\<close>

lemma small_peek:
  assumes c: "on_course s0 e [] batch s" and q: "fmlookup (s_prefillSmall s) e = Some q" "pq_Peek q (s_world s) = Some (r, q1, w1)"
  shows "on_course s0 e [] batch (s\<lparr>s_prefillSmall := fmupd e q1 (s_prefillSmall s), s_world := w1\<rparr>)"
    "pq_Pop q1 w1 = Some (p, q2, w2) \<Longrightarrow> r = Some x \<Longrightarrow> steady (s_world s) \<Longrightarrow> p = Some x"
proof -
  obtain ws1 where p: "peekWorks (pq_works q) (s_world s) = Some (r, ws1, w1)" "q1 = q\<lparr>pq_works := ws1\<rparr>"
    using q(2) by (auto simp: pq_Peek_def split: bind_splits)
  obtain D where D: "same_env (s_world s) w1" "mset (pq_works q) = mset ws1 + D" "all_ended (sm_requests (w_state w1)) D"
    using peekWorks_spec [OF p(1)] by auto
  show "on_course s0 e [] batch (s\<lparr>s_prefillSmall := fmupd e q1 (s_prefillSmall s), s_world := w1\<rparr>)"
    using take_small [OF c q(1), of ws1 "[]" D w1] D p(2) by simp
  show "p = Some x" if "pq_Pop q1 w1 = Some (p, q2, w2)" "r = Some x" "steady (s_world s)"
    using that pop_after_peek(1) [OF p(1) [unfolded that(2)] that(3)] p(2) by (auto simp: pq_Pop_def split: bind_splits)
qed

lemma popWorks_in: "popWorks ws w = Some (Some x, ws1, w1) \<Longrightarrow> x \<in> set ws"
  using popWorks_spec [of ws w "Some x" ws1 w1] by (auto simp: set_mset_mset [symmetric] simp del: set_mset_mset)

lemma small_pop:
  assumes c: "on_course s0 e [] batch s" and q: "fmlookup (s_prefillSmall s) e = Some q" "pq_Pop q (s_world s) = Some (p, q1, w1)"
  shows "on_course s0 e (case p of None \<Rightarrow> [] | Some x \<Rightarrow> [x]) batch (s\<lparr>s_prefillSmall := fmupd e q1 (s_prefillSmall s), s_world := w1\<rparr>)"
    "p = Some x \<Longrightarrow> prefill_item x \<and> wk_ExecutorID x = e \<and> wk_TokenCntTotal x \<le> s_longPrefillThreshold s0"
proof -
  obtain ws1 where r: "popWorks (pq_works q) (s_world s) = Some (p, ws1, w1)" "q1 = q\<lparr>pq_works := ws1\<rparr>"
    using q(2) by (auto simp: pq_Pop_def split: bind_splits)
  obtain D where D: "same_env (s_world s) w1" "mset (pq_works q) = mset ws1 + mset (case p of None \<Rightarrow> [] | Some x \<Rightarrow> [x]) + D"
      "all_ended (sm_requests (w_state w1)) D"
    using popWorks_spec [OF r(1)] by auto
  show "on_course s0 e (case p of None \<Rightarrow> [] | Some x \<Rightarrow> [x]) batch (s\<lparr>s_prefillSmall := fmupd e q1 (s_prefillSmall s), s_world := w1\<rparr>)"
    using take_small [OF c q(1) D(2,3,1)] r(2) by simp
  show "prefill_item x \<and> wk_ExecutorID x = e \<and> wk_TokenCntTotal x \<le> s_longPrefillThreshold s0" if "p = Some x"
    using routedD(1) [OF on_courseD(2) [OF c] q(1) popWorks_in [OF r(1) [unfolded that]]] on_courseD(1) [OF c] by (simp add: same_setup_def)
qed

lemma large_pop:
  assumes c: "on_course s0 e [] batch s" and q: "fmlookup (s_prefillLarge s) e = Some q" "pq_Pop q (s_world s) = Some (p, q1, w1)"
  shows "on_course s0 e (case p of None \<Rightarrow> [] | Some x \<Rightarrow> [x]) batch (s\<lparr>s_prefillLarge := fmupd e q1 (s_prefillLarge s), s_world := w1\<rparr>)"
    "p = Some x \<Longrightarrow> prefill_item x \<and> wk_ExecutorID x = e \<and> s_longPrefillThreshold s0 < wk_TokenCntTotal x"
proof -
  obtain ws1 where r: "popWorks (pq_works q) (s_world s) = Some (p, ws1, w1)" "q1 = q\<lparr>pq_works := ws1\<rparr>"
    using q(2) by (auto simp: pq_Pop_def split: bind_splits)
  obtain D where D: "same_env (s_world s) w1" "mset (pq_works q) = mset ws1 + mset (case p of None \<Rightarrow> [] | Some x \<Rightarrow> [x]) + D"
      "all_ended (sm_requests (w_state w1)) D"
    using popWorks_spec [OF r(1)] by auto
  show "on_course s0 e (case p of None \<Rightarrow> [] | Some x \<Rightarrow> [x]) batch (s\<lparr>s_prefillLarge := fmupd e q1 (s_prefillLarge s), s_world := w1\<rparr>)"
    using take_large [OF c q(1) D(2,3,1)] r(2) by simp
  show "prefill_item x \<and> wk_ExecutorID x = e \<and> s_longPrefillThreshold s0 < wk_TokenCntTotal x" if "p = Some x"
    using routedD(2) [OF on_courseD(2) [OF c] q(1) popWorks_in [OF r(1) [unfolded that]]] on_courseD(1) [OF c] by (simp add: same_setup_def)
qed

definition small_item :: "scheduler \<Rightarrow> WorkItem \<Rightarrow> bool" where
  "small_item s w \<longleftrightarrow> prefill_item w \<and> wk_TokenCntTotal w \<le> s_longPrefillThreshold s"

definition large_item :: "scheduler \<Rightarrow> WorkItem \<Rightarrow> bool" where
  "large_item s w \<longleftrightarrow> prefill_item w \<and> s_longPrefillThreshold s < wk_TokenCntTotal w"

text \<open>One round of the loop over small prefills, for the work that was taken and the cost of the one that was seen.\<close>

lemma small_round:
  assumes c: "on_course s0 e [y] batch s" and y: "small_item s0 y" "item_of e y"
    and b: "budgetLeft b" "\<not> bb_remainTokens b < cost" "steady (s_world s0) \<Longrightarrow> cost = WorkBudgetCost y"
    and loop: "\<And>batch b s. on_course s0 e [] batch s \<Longrightarrow> post (picked s0 e (small_item s0) (steady (s_world s0)) batch b) (loop (batch, b) s)"
  shows "post (picked s0 e (small_item s0) (steady (s_world s0)) batch b) (do {
     (res, s1) \<leftarrow> allocateBlocks y s;
     case res of
       Inl err \<Rightarrow> do { s2 \<leftarrow> failRequest (wk_RequestId y) (Some err) s1; loop (batch, b) s2 }
     | Inr (allocated, y1) \<Rightarrow> if \<not> allocated then do { s2 \<leftarrow> requeueWork y1 s1; loop (batch, b) s2 }
         else loop (batch @ [y1], b\<lparr>bb_remainTokens := bb_remainTokens b - cost, bb_remainSeqs := bb_remainSeqs b - 1,
           bb_remainPrefill := bb_remainPrefill b - 1\<rparr>) s1
   })"
proof (rule decide_post [OF c refl y(2) refl])
  let ?b = "b\<lparr>bb_remainTokens := bb_remainTokens b - cost, bb_remainSeqs := bb_remainSeqs b - 1, bb_remainPrefill := bb_remainPrefill b - 1\<rparr>"
  fix y1 s1 assume a: "allocateBlocks y s = Some (Inr (True, y1), s1)" and on: "on_course s0 e [] (batch @ [y1]) s1"
  note y1 = allocated_item [OF a]
  have i: "small_item s0 y1"
    using y(1) y1 by (simp add: small_item_def)
  show "post (picked s0 e (small_item s0) (steady (s_world s0)) batch b) (loop (batch @ [y1], ?b) s1)"
  proof (rule picked_one [OF loop [OF on] i])
    show "within b0 (batch @ [y1]) ?b" if "steady (s_world s0)" "within b0 batch b" for b0
      by (rule within_pick [OF that(2)]) (use y1(1) b(1,2) b(3) [OF that(1)] in \<open>simp_all add: not_less budgetLeft_def\<close>)
    show "capped (s_longPrefillThreshold s0) b0 (batch @ [y1]) ?b" if "capped (s_longPrefillThreshold s0) b0 batch b" for b0
      by (rule capped_pick [OF that]) (use i b(1) in \<open>simp_all add: small_item_def budgetLeft_def not_less\<close>)
  qed
qed (use loop in simp_all)

lemma pickSmallLoop_spec:
  "on_course s0 e [] batch s \<Longrightarrow> post (picked s0 e (small_item s0) (steady (s_world s0)) batch b) (pickSmallLoop n e (batch, b) s)"
proof (induction n arbitrary: batch b s)
  case (Suc n)
  show ?case
  proof (cases "budgetLeft b \<and> pickSmallLoop (Suc n) e (batch, b) s \<noteq> None")
    case False
    then consider "\<not> budgetLeft b" | "pickSmallLoop (Suc n) e (batch, b) s = None"
      by blast
    then show ?thesis
      by cases (use Suc.prems picked_none in simp, simp only: post_simps)
  next
    case run: True
    obtain q h q1 w1 where q: "fmlookup (s_prefillSmall s) e = Some q" "pq_Peek q (s_world s) = Some (h, q1, w1)"
      using run by (auto split: bind_splits)
    let ?s1 = "s\<lparr>s_prefillSmall := fmupd e q1 (s_prefillSmall s), s_world := w1\<rparr>"
    have on1: "on_course s0 e [] batch ?s1"
      by (rule small_peek(1) [OF Suc.prems q])
    show ?thesis
    proof (cases "\<exists>x. h = Some x \<and> \<not> bb_remainTokens b < WorkBudgetCost x")
      case False
      then show ?thesis
        using run q on1 picked_none by (cases h) (simp_all add: Let_def)
    next
      case True
      then obtain x where x: "h = Some x" "\<not> bb_remainTokens b < WorkBudgetCost x"
        by auto
      obtain p q2 w2 where p: "pq_Pop q1 w1 = Some (p, q2, w2)"
        using run q x by (auto simp: Let_def split: bind_splits)
      have q1: "fmlookup (s_prefillSmall ?s1) e = Some q1" "pq_Pop q1 (s_world ?s1) = Some (p, q2, w2)"
        using p by simp_all
      note pop = small_pop [OF on1 q1]
      show ?thesis
      proof (cases p)
        case None
        then show ?thesis
          using Suc.IH pop(1) run q x p by (simp add: Let_def)
      next
        case (Some y)
        have y: "small_item s0 y" "item_of e y"
          using pop(2) Some by (simp_all add: small_item_def item_of_def)
        have "y = x" if "steady (s_world s0)"
          using small_peek(2) [OF Suc.prems q p x(1)] on_course_steady [OF Suc.prems that] Some by simp
        then show ?thesis
          using small_round [OF _ y conjunct1 [OF run] x(2) _ Suc.IH] pop(1) run q x p Some by (simp add: Let_def del: post_simps)
      qed
    qed
  qed
qed (simp add: picked_none)

lemma large_round:
  assumes c: "on_course s0 e [y] batch s" and y: "large_item s0 y" "wk_ExecutorID y = e"
    and b: "budgetLeft b" "bb_remainLargePrefill b \<noteq> 0"
    and loop: "\<And>batch b s. on_course s0 e [] batch s \<Longrightarrow> post (picked s0 e (large_item s0) True batch b) (loop (batch, b) s)"
  shows "post (picked s0 e (large_item s0) True batch b) (do {
     (chunk, _) \<leftarrow> splitPrefillChunk y (min (WorkBudgetCost y) (bb_remainTokens b));
     (res, s1) \<leftarrow> allocateBlocks chunk s;
     case res of
       Inl err \<Rightarrow> do { s2 \<leftarrow> failRequest (wk_RequestId chunk) (Some err) s1; loop (batch, b) s2 }
     | Inr (allocated, chunk1) \<Rightarrow> if \<not> allocated then do { s2 \<leftarrow> requeueWork y s1; loop (batch, b) s2 }
         else loop (batch @ [chunk1], b\<lparr>bb_remainTokens := bb_remainTokens b - min (WorkBudgetCost y) (bb_remainTokens b),
           bb_remainSeqs := bb_remainSeqs b - 1, bb_remainPrefill := bb_remainPrefill b - 1,
           bb_remainLargePrefill := bb_remainLargePrefill b - 1\<rparr>) s1
   })"
proof -
  let ?t = "min (WorkBudgetCost y) (bb_remainTokens b)"
  let ?b = "b\<lparr>bb_remainTokens := bb_remainTokens b - ?t, bb_remainSeqs := bb_remainSeqs b - 1,
    bb_remainPrefill := bb_remainPrefill b - 1, bb_remainLargePrefill := bb_remainLargePrefill b - 1\<rparr>"
  have py: "prefill_item y"
    using y(1) by (simp add: large_item_def)
  obtain c rest where c: "splitPrefillChunk y ?t = Some (c, rest)" "prefill_item c"
      "c = y\<lparr>wk_NumNewTokens := min (wk_NumNewTokens y) ?t, wk_TokenIDs := wk_TokenIDs c\<rparr>"
    using split_spec [OF py, of ?t] by blast
  have cf: "wk_WorkId c = wk_WorkId y" "wk_RequestId c = wk_RequestId y" "wk_ExecutorID c = wk_ExecutorID y"
      "wk_TokenCntTotal c = wk_TokenCntTotal y" "WorkBudgetCost c = ?t"
    by (subst c(3), simp)+ (use WorkBudgetCost_prefill [OF c(2)] WorkBudgetCost_prefill [OF py] arg_cong [OF c(3), of wk_NumNewTokens] in \<open>simp add: min_def\<close>)
  have "post (picked s0 e (large_item s0) True batch b) (do {
     (res, s1) \<leftarrow> allocateBlocks c s;
     case res of
       Inl err \<Rightarrow> do { s2 \<leftarrow> failRequest (wk_RequestId c) (Some err) s1; loop (batch, b) s2 }
     | Inr (allocated, chunk1) \<Rightarrow> if \<not> allocated then do { s2 \<leftarrow> requeueWork y s1; loop (batch, b) s2 } else loop (batch @ [chunk1], ?b) s1
    })"
  proof (rule decide_post [OF assms(1) cf(1) _ cf(2) refl])
    fix c1 s1 assume a: "allocateBlocks c s = Some (Inr (True, c1), s1)" and on: "on_course s0 e [] (batch @ [c1]) s1"
    note c1 = allocated_item [OF a]
    have i: "large_item s0 c1"
      using y(1) c(2) c1 cf(4) by (simp add: large_item_def)
    show "post (picked s0 e (large_item s0) True batch b) (loop (batch @ [c1], ?b) s1)"
    proof (rule picked_one [OF loop [OF on] i])
      show "within b0 (batch @ [c1]) ?b" if "within b0 batch b" for b0
        by (rule within_pick [OF that]) (use c1(1) cf(5) b(1) in \<open>simp_all add: budgetLeft_def\<close>)
      show "capped (s_longPrefillThreshold s0) b0 (batch @ [c1]) ?b" if "capped (s_longPrefillThreshold s0) b0 batch b" for b0
        by (rule capped_pick [OF that]) (use i b in \<open>simp_all add: large_item_def budgetLeft_def word_gt_0\<close>)
    qed
  qed (use loop c(2) cf(3) y(2) in \<open>simp_all add: item_of_def\<close>)
  then show ?thesis
    using c(1) by (simp del: post_simps)
qed

lemma pickLargeLoop_spec:
  "on_course s0 e [] batch s \<Longrightarrow> post (picked s0 e (large_item s0) True batch b) (pickLargeLoop n e (batch, b) s)"
proof (induction n arbitrary: batch b s)
  case (Suc n)
  show ?case
  proof (cases "budgetLeft b \<and> bb_remainLargePrefill b \<noteq> 0 \<and> pickLargeLoop (Suc n) e (batch, b) s \<noteq> None")
    case False
    then consider "\<not> budgetLeft b" | "bb_remainLargePrefill b = 0" | "pickLargeLoop (Suc n) e (batch, b) s = None"
      by blast
    then show ?thesis
      by cases (use Suc.prems picked_none in simp, use Suc.prems picked_none in simp, simp only: post_simps)
  next
    case run: True
    obtain q p q1 w1 where q: "fmlookup (s_prefillLarge s) e = Some q" "pq_Pop q (s_world s) = Some (p, q1, w1)"
      using run by (auto split: bind_splits)
    note pop = large_pop [OF Suc.prems q]
    show ?thesis
    proof (cases p)
      case None
      then show ?thesis
        using run q pop(1) picked_none by simp
    next
      case (Some y)
      then have "large_item s0 y" "wk_ExecutorID y = e" "budgetLeft b" "bb_remainLargePrefill b \<noteq> 0"
        using pop(2) run by (simp_all add: large_item_def)
      from large_round [OF _ this Suc.IH] show ?thesis
        using pop(1) run q Some by (simp add: Let_def del: post_simps)
    qed
  qed
qed (simp add: picked_none)

subsection \<open>The whole batch\<close>

lemma pickBatch_spec:
  assumes "pickBatch e s = Some (batch, s1)" "routed s" "has_queues s"
  shows "on_course s e [] batch s1 \<and>
    (\<exists>ds ss ls. batch = ds @ ss @ ls \<and> (\<forall>w \<in> set ds. decode_item w) \<and>
       (\<forall>w \<in> set ss. prefill_item w \<and> wk_TokenCntTotal w \<le> s_longPrefillThreshold s) \<and>
       (\<forall>w \<in> set ls. prefill_item w \<and> s_longPrefillThreshold s < wk_TokenCntTotal w)) \<and>
    (steady (s_world s) \<longrightarrow> spent batch \<le> unat (bb_remainTokens (s_batchBudget s)) \<and>
       length batch \<le> unat (bb_remainSeqs (s_batchBudget s))) \<and>
    ((\<exists>w \<in> set batch. decode_item w) \<longrightarrow> prefills batch \<le> unat (bb_remainPrefill (s_batchBudget s)) \<and>
       larges (s_longPrefillThreshold s) batch \<le> unat (bb_remainLargePrefill (s_batchBudget s)))"
proof -
  let ?b = "s_batchBudget s" and ?thr = "s_longPrefillThreshold s"
  obtain batch1 b1 s2 batch2 b2 s3 b3 where p: "pickDecode e ([], ?b) s = Some ((batch1, b1), s2)"
      "pickSmallPrefill e (batch1, b1) s2 = Some ((batch2, b2), s3)" "pickLargePrefill e (batch2, b2) s3 = Some ((batch, b3), s1)"
    using assms(1) by (auto simp: pickBatch_def split: bind_splits)
  obtain n where n: "pickSmallLoop n e (batch1, b1) s2 = Some ((batch2, b2), s3)"
    using p(2) by (auto simp: pickSmallPrefill_def split: bind_splits)
  obtain k where k: "pickLargeLoop k e (batch2, b2) s3 = Some ((batch, b3), s1)"
    using p(3) by (auto simp: pickLargePrefill_def split: bind_splits)
  have d: "on_course s e [] batch1 s2" "within ?b batch1 b1" "\<forall>w \<in> set batch1. decode_item w" "batch1 = [] \<or> capped ?thr ?b batch1 b1"
    using postD [OF pickDecode_spec [OF assms(2,3)] p(1)] by auto
  have sm: "on_course s e [] batch2 s3" "\<exists>ss. batch2 = batch1 @ ss \<and> (\<forall>w \<in> set ss. small_item s w)"
      "\<And>b0. steady (s_world s) \<Longrightarrow> within b0 batch1 b1 \<Longrightarrow> within b0 batch2 b2" "\<And>b0. capped ?thr b0 batch1 b1 \<Longrightarrow> capped ?thr b0 batch2 b2"
    using postD [OF pickSmallLoop_spec [OF d(1)] n] by (simp_all add: picked_def)
  have la: "on_course s e [] batch s1" "\<exists>ls. batch = batch2 @ ls \<and> (\<forall>w \<in> set ls. large_item s w)"
      "\<And>b0. within b0 batch2 b2 \<Longrightarrow> within b0 batch b3" "\<And>b0. capped ?thr b0 batch2 b2 \<Longrightarrow> capped ?thr b0 batch b3"
    using postD [OF pickLargeLoop_spec [OF sm(1)] k] by (simp_all add: picked_def)
  have parts: "\<exists>ds ss ls. batch = ds @ ss @ ls \<and> (\<forall>w \<in> set ds. decode_item w) \<and>
       (\<forall>w \<in> set ss. prefill_item w \<and> wk_TokenCntTotal w \<le> ?thr) \<and> (\<forall>w \<in> set ls. prefill_item w \<and> ?thr < wk_TokenCntTotal w)"
  proof -
    obtain ss ls where "batch2 = batch1 @ ss" "batch = batch2 @ ls" "\<forall>w \<in> set ss. small_item s w" "\<forall>w \<in> set ls. large_item s w"
      using sm(2) la(2) by blast
    then show ?thesis
      using d(3) by (intro exI [of _ batch1] exI [of _ ss] exI [of _ ls]) (simp add: small_item_def large_item_def)
  qed
  have budget: "steady (s_world s) \<longrightarrow> spent batch \<le> unat (bb_remainTokens ?b) \<and> length batch \<le> unat (bb_remainSeqs ?b)"
    using la(3) [OF sm(3) [OF _ d(2)]] by (auto simp: within_def)
  have "prefills batch \<le> unat (bb_remainPrefill ?b) \<and> larges ?thr batch \<le> unat (bb_remainLargePrefill ?b)"
    if "w \<in> set batch" "decode_item w" for w
  proof -
    have "batch1 \<noteq> []"
      using that sm(2) la(2) by (auto simp: decode_item_def prefill_item_def small_item_def large_item_def)
    then have "capped ?thr ?b batch b3"
      using d(4) sm(4) la(4) by blast
    then show ?thesis
      by (simp add: capped_def)
  qed
  then show ?thesis
    using la(1) parts budget by blast
qed

end
