(* ===== verification/Sched_Admission.thy ===== *)
theory Sched_Admission
  imports Sched_Batch
begin

text \<open>
  Admission of work: what \<^verbatim>\<open>Enqueue\<close> does when the queue has room and when it has not, and the
  invariants of the queues it keeps.
\<close>

subsection \<open>Room\<close>

lemma has_queuesD:
  assumes "has_queues s"
  shows "has_key (s_prefillSmall s) e \<longleftrightarrow> e \<in> set (s_executorIDs s)" "has_key (s_prefillLarge s) e \<longleftrightarrow> e \<in> set (s_executorIDs s)"
    "has_key (s_decode s) e \<longleftrightarrow> e \<in> set (s_executorIDs s)"
  using assms unfolding has_queues_def by blast+

text \<open>The queue the work goes to reports space.\<close>

definition admits :: "WorkItem \<Rightarrow> scheduler \<Rightarrow> bool" where
  "admits work s = (let e = wk_ExecutorID work in case wk_Phase work of
     WorkPhasePrefill \<Rightarrow>
       (case fmlookup (if wk_TokenCntTotal work \<le> s_longPrefillThreshold s then s_prefillSmall s else s_prefillLarge s) e of
          None \<Rightarrow> False | Some q \<Rightarrow> 0 < pq_AvailableSpace q)
   | WorkPhaseDecode \<Rightarrow> (case fmlookup (s_decode s) e of None \<Rightarrow> False | Some q \<Rightarrow> 0 < dq_AvailableSpace q)
   | WorkPhaseUnknown _ \<Rightarrow> False)"

lemma admits_frame:
  assumes "same_queues s s'" "same_setup s s'"
  shows "admits work s' \<longleftrightarrow> admits work s"
proof -
  have "s_prefillSmall s' = s_prefillSmall s" "s_prefillLarge s' = s_prefillLarge s" "s_decode s' = s_decode s"
    "s_longPrefillThreshold s' = s_longPrefillThreshold s"
    using assms by (simp_all add: same_queues_def same_setup_def)
  then show ?thesis
    unfolding admits_def by (simp only:)
qed

lemma pq_Enqueue_space:
  "pq_Enqueue work q = (if 0 < pq_AvailableSpace q then (None, q\<lparr>pq_works := pq_works q @ [work]\<rparr>)
     else (Some (errors_New CodeQueueFull ''prefillQueue is full''), q))"
  by (auto simp: pq_Enqueue_def pq_AvailableSpace_def word_gt_0)

lemma dq_Enqueue_space:
  "dq_Enqueue work q = (if 0 < dq_AvailableSpace q then (None, q\<lparr>dq_works := dq_works q @ [newEntry work]\<rparr>)
     else (Some (errors_New CodeQueueFull ''decodeQueue is full''), q))"
  by (auto simp: dq_Enqueue_def dq_AvailableSpace_def word_gt_0)

text \<open>The waiting works of \<open>s1\<close> are those of \<open>s\<close> and the work, last in the queue of its executor and kind.\<close>

definition joined :: "WorkItem \<Rightarrow> scheduler \<Rightarrow> scheduler \<Rightarrow> bool" where
  "joined w s s1 \<longleftrightarrow> (let e = wk_ExecutorID w; sm = wk_Phase w = WorkPhasePrefill \<and> wk_TokenCntTotal w \<le> s_longPrefillThreshold s;
       la = wk_Phase w = WorkPhasePrefill \<and> s_longPrefillThreshold s < wk_TokenCntTotal w; de = wk_Phase w = WorkPhaseDecode
     in smallWorks s1 = (if sm then (smallWorks s)(e := smallWorks s e @ [w]) else smallWorks s) \<and>
        largeWorks s1 = (if la then (largeWorks s)(e := largeWorks s e @ [w]) else largeWorks s) \<and>
        decodeWorks s1 = (if de then (decodeWorks s)(e := decodeWorks s e @ [w]) else decodeWorks s))"

lemma joined_frame:
  assumes "same_queues s s'" "same_setup s s'"
  shows "joined w s' s1 \<longleftrightarrow> joined w s s1" "joined w s0 s' \<longleftrightarrow> joined w s0 s"
proof -
  have "smallWorks s' = smallWorks s" "largeWorks s' = largeWorks s" "decodeWorks s' = decodeWorks s"
    using same_queues_works [OF assms(1)] by (simp_all add: fun_eq_iff)
  moreover have "s_longPrefillThreshold s' = s_longPrefillThreshold s"
    using assms(2) by (simp add: same_setup_def)
  ultimately show "joined w s' s1 \<longleftrightarrow> joined w s s1" "joined w s0 s' \<longleftrightarrow> joined w s0 s"
    unfolding joined_def by (simp_all only:)
qed

lemma joined_waiting:
  "joined w s s1 \<Longrightarrow> known_phase w \<Longrightarrow>
   waiting s1 = (waiting s)(wk_ExecutorID w := add_mset w (waiting s (wk_ExecutorID w)))"
  by (auto simp: joined_def waiting_def known_phase_def Let_def fun_eq_iff not_le)

lemma joined_routed:
  assumes "joined w s s1" "routed s" "prefill_item w \<or> decode_item w" "s_longPrefillThreshold s1 = s_longPrefillThreshold s"
  shows "routed s1"
  using assms by (auto simp: joined_def routed_def Let_def prefill_item_def decode_item_def not_le)

subsection \<open>The signal\<close>

lemma queueLengths_Some:
  assumes "has_queues s" "set es \<subseteq> set (s_executorIDs s)"
  shows "\<exists>r. queueLengths es s p d = Some r"
  using assms(2)
proof (induction es arbitrary: p d)
  case (Cons e es)
  then obtain qs ql qd where "fmlookup (s_prefillSmall s) e = Some qs" "fmlookup (s_prefillLarge s) e = Some ql"
      "fmlookup (s_decode s) e = Some qd"
    using assms(1) unfolding has_queues_def by (metis list.set_intros(1) option.exhaust_sel option.distinct(1) subsetD)
  then show ?case
    using Cons by simp
qed simp

lemma trySchedule_cases:
  assumes "trySchedule e s = Some s1"
  obtains "s1 = s" | f b where "s1 = updMetrics f (s\<lparr>s_patchExecuteChan := b\<rparr>)"
proof (cases "\<exists>qs ql qd. fmlookup (s_prefillSmall s) e = Some qs \<and> fmlookup (s_prefillLarge s) e = Some ql \<and> fmlookup (s_decode s) e = Some qd")
  case True
  then obtain b where b: "do { (p, d) \<leftarrow> queueLengths (s_executorIDs (s\<lparr>s_patchExecuteChan := b\<rparr>)) (s\<lparr>s_patchExecuteChan := b\<rparr>) 0 0;
      Some (updMetrics (\<lambda>m. SetDecodeQueueLength (uint d) (SetPrefillQueueLength (uint p) m)) (s\<lparr>s_patchExecuteChan := b\<rparr>)) } = Some s1"
    using assms by (cases s) (auto simp: trySchedule_def Let_def split: if_splits)
  then show ?thesis
    using that(2) by (auto split: bind_splits)
next
  case False
  then have "s1 = s"
    using assms by (auto simp: trySchedule_def split: option.splits)
  then show ?thesis
    by (rule that(1))
qed

lemma sm_inv_metrics [simp]: "sm_inv (st\<lparr>sm_metrics := m\<rparr>) \<longleftrightarrow> sm_inv st"
    "sm_inv (st\<lparr>sm_metrics := m, sm_blockRegistry := r\<rparr>) \<longleftrightarrow> sm_inv (st\<lparr>sm_blockRegistry := r\<rparr>)"
  by (simp_all add: sm_inv_def channels_ok_def)

lemma trySchedule_frame:
  assumes "trySchedule e s = Some s1"
  shows "same_setup s s1" "same_queues s s1" "requestsOf s1 = requestsOf s" "registryOf s1 = registryOf s"
    "s_executorManager s1 = s_executorManager s" "s_nextExecutor s1 = s_nextExecutor s"
    "sm_inv (w_state (s_world s1)) \<longleftrightarrow> sm_inv (w_state (s_world s))" "w_tick (s_world s1) = w_tick (s_world s)"
    "sm_subscribeCh (w_state (s_world s1)) = sm_subscribeCh (w_state (s_world s))"
    "sm_channels (w_state (s_world s1)) = sm_channels (w_state (s_world s))"
    "\<exists>m. w_state (s_world s1) = (w_state (s_world s))\<lparr>sm_metrics := m\<rparr>"
proof -
  have same: "w_state (s_world s) = (w_state (s_world s))\<lparr>sm_metrics := sm_metrics (w_state (s_world s))\<rparr>"
    by simp
  show "\<exists>m. w_state (s_world s1) = (w_state (s_world s))\<lparr>sm_metrics := m\<rparr>"
    using assms by (rule trySchedule_cases) (use same in \<open>blast, auto simp: updMetrics_def Let_def\<close>)
qed (use assms in \<open>(rule trySchedule_cases; simp add: updMetrics_def same_setup_def same_queues_def Let_def)\<close>)+

lemma trySchedule_Some:
  assumes "has_queues s"
  shows "\<exists>s1. trySchedule e s = Some s1"
proof -
  have q: "has_queues (s\<lparr>s_patchExecuteChan := b\<rparr>)" for b
    using assms by (simp add: has_queues_def)
  have l: "\<exists>p d. queueLengths (s_executorIDs s) (s\<lparr>s_patchExecuteChan := b\<rparr>) 0 0 = Some (p, d)" for b
    using queueLengths_Some [OF q, of "s_executorIDs s" b 0 0] by simp
  have "queueLengths (s_executorIDs s) s 0 0 = queueLengths (s_executorIDs s) (s\<lparr>s_patchExecuteChan := s_patchExecuteChan s\<rparr>) 0 0"
    by simp
  then obtain p d where "queueLengths (s_executorIDs s) s 0 0 = Some (p, d)"
    using l by metis
  then show ?thesis
    using l [of True] by (auto simp: trySchedule_def Let_def split: option.splits)
qed

subsection \<open>Enqueue\<close>

definition stamped :: "WorkItem \<Rightarrow> scheduler \<Rightarrow> WorkItem" where
  "stamped work s = work\<lparr>wk_EnqueuedAt := w_now (s_world s)\<rparr>"

lemma stamped_simps [simp]:
  "wk_Phase (stamped w s) = wk_Phase w" "wk_ExecutorID (stamped w s) = wk_ExecutorID w" "wk_RequestId (stamped w s) = wk_RequestId w"
  "wk_TokenCntTotal (stamped w s) = wk_TokenCntTotal w" "wk_WorkId (stamped w s) = wk_WorkId w"
  "prefill_item (stamped w s) \<longleftrightarrow> prefill_item w" "decode_item (stamped w s) \<longleftrightarrow> decode_item w"
  "known_phase (stamped w s) \<longleftrightarrow> known_phase w"
  by (simp_all add: stamped_def prefill_item_def decode_item_def known_phase_def)

lemma admits_stamped [simp]: "admits (stamped w s0) s \<longleftrightarrow> admits w s"
  unfolding admits_def by (simp only: stamped_simps)

text \<open>The clock ticks once for the time stamp.\<close>

definition ticked :: "scheduler \<Rightarrow> scheduler" where
  "ticked s = s\<lparr>s_world := w_advance (w_state (s_world s)) (s_world s)\<rparr>"

lemma ticked_frame [simp]:
  "same_setup s (ticked s)" "same_queues s (ticked s)" "w_state (s_world (ticked s)) = w_state (s_world s)"
  "s_executorManager (ticked s) = s_executorManager s" "s_nextExecutor (ticked s) = s_nextExecutor s"
  by (simp_all add: ticked_def w_advance_def same_setup_def same_queues_def)

lemma sched_Enqueue_ok:
  assumes "has_queues s" "admits work s"
  shows "\<exists>s1. sched_Enqueue work s = Some (None, s1) \<and> same_setup s s1 \<and> has_queues s1 \<and> joined (stamped work s) s s1 \<and>
    requestsOf s1 = requestsOf s \<and> registryOf s1 = registryOf s \<and> s_executorManager s1 = s_executorManager s \<and>
    s_nextExecutor s1 = s_nextExecutor s \<and> (\<exists>m. w_state (s_world s1) = (w_state (s_world s))\<lparr>sm_metrics := m\<rparr>)"
proof -
  let ?e = "wk_ExecutorID work" and ?w = "stamped work s" and ?t = "ticked s"
  have result: ?thesis
    if s2: "same_setup ?t s2" "has_queues s2" "w_state (s_world s2) = w_state (s_world s)"
        "s_executorManager s2 = s_executorManager s" "s_nextExecutor s2 = s_nextExecutor s" "joined ?w s s2"
      and en: "\<And>s1. trySchedule ?e s2 = Some s1 \<Longrightarrow> sched_Enqueue work s = Some (None, s1)" for s2
  proof -
    obtain s1 where s1: "trySchedule ?e s2 = Some s1"
      using trySchedule_Some [OF s2(2)] by blast
    note f = trySchedule_frame [OF s1]
    have "joined ?w s s1"
      using s2(6) joined_frame(2) [OF f(2,1)] by simp
    then show ?thesis
      using en [OF s1] f s2 has_queues_frame [OF f(2,1)] same_setup_trans [OF ticked_frame(1) same_setup_trans [OF s2(1) f(1)]] by auto
  qed
  show ?thesis
  proof (cases "wk_Phase work")
    case WorkPhasePrefill
    show ?thesis
    proof (cases "wk_TokenCntTotal work \<le> s_longPrefillThreshold s")
      case True
      then obtain q where q: "fmlookup (s_prefillSmall s) ?e = Some q" "0 < pq_AvailableSpace q"
        using assms(2) WorkPhasePrefill by (auto simp: admits_def split: option.splits)
      show ?thesis
        by (rule result [of "?t\<lparr>s_prefillSmall := fmupd ?e (q\<lparr>pq_works := pq_works q @ [?w]\<rparr>) (s_prefillSmall s)\<rparr>"])
          (use assms(1) q True WorkPhasePrefill in \<open>auto simp: same_setup_def has_queues_def joined_def works_defs fun_eq_iff Let_def
             ticked_def w_advance_def sched_Enqueue_def pq_Enqueue_space stamped_def split: option.splits\<close>)
    next
      case False
      then obtain q where q: "fmlookup (s_prefillLarge s) ?e = Some q" "0 < pq_AvailableSpace q"
        using assms(2) WorkPhasePrefill by (auto simp: admits_def split: option.splits)
      show ?thesis
        by (rule result [of "?t\<lparr>s_prefillLarge := fmupd ?e (q\<lparr>pq_works := pq_works q @ [?w]\<rparr>) (s_prefillLarge s)\<rparr>"])
          (use assms(1) q False WorkPhasePrefill in \<open>auto simp: same_setup_def has_queues_def joined_def works_defs fun_eq_iff Let_def
             ticked_def w_advance_def sched_Enqueue_def pq_Enqueue_space stamped_def not_le split: option.splits\<close>)
    qed
  next
    case WorkPhaseDecode
    then obtain q where q: "fmlookup (s_decode s) ?e = Some q" "0 < dq_AvailableSpace q"
      using assms(2) by (auto simp: admits_def split: option.splits)
    show ?thesis
      by (rule result [of "?t\<lparr>s_decode := fmupd ?e (q\<lparr>dq_works := dq_works q @ [newEntry ?w]\<rparr>) (s_decode s)\<rparr>"])
        (use assms(1) q WorkPhaseDecode in \<open>auto simp: same_setup_def has_queues_def joined_def works_defs fun_eq_iff Let_def
           ticked_def w_advance_def sched_Enqueue_def dq_Enqueue_space stamped_def newEntry_def split: option.splits\<close>)
  qed (use assms(2) in \<open>simp add: admits_def\<close>)
qed

text \<open>A work that is not admitted fails its request with the reason.\<close>

lemma sched_Enqueue_refused:
  assumes "has_queues s" "known_phase work" "\<not> admits work s"
  shows "\<exists>err. sched_Enqueue work s = rejectWork (wk_RequestId work) err (ticked s) \<and>
    CodeOf (Some err) = (if wk_ExecutorID work \<in> set (s_executorIDs s) then CodeQueueFull else CodeExecutorUnavailable)"
proof -
  let ?e = "wk_ExecutorID work"
  have q: "has_key (s_prefillSmall s) ?e \<longleftrightarrow> ?e \<in> set (s_executorIDs s)" "has_key (s_prefillLarge s) ?e \<longleftrightarrow> ?e \<in> set (s_executorIDs s)"
    "has_key (s_decode s) ?e \<longleftrightarrow> ?e \<in> set (s_executorIDs s)"
    using assms(1) by (auto simp: has_queues_def)
  show ?thesis
  proof (cases "wk_Phase work")
    case WorkPhasePrefill
    then show ?thesis
      using assms(3) q(1,2)
      by (cases "wk_TokenCntTotal work \<le> s_longPrefillThreshold s")
        (auto simp: admits_def sched_Enqueue_def ticked_def Let_def pq_Enqueue_space w_advance_def noQueue_def split: option.splits)
  next
    case WorkPhaseDecode
    then show ?thesis
      using assms(3) q(3)
      by (auto simp: admits_def sched_Enqueue_def ticked_def Let_def dq_Enqueue_space w_advance_def noQueue_def split: option.splits)
  qed (use assms(2) in \<open>simp add: known_phase_def\<close>)
qed

lemma rejectWork_frame:
  assumes "rejectWork q err s = Some (r, s1)"
  shows "r = Some err" "same_setup s s1" "same_queues s s1" "requestsOf s1 = fmdrop q (requestsOf s)"
    "s_executorManager s1 = s_executorManager s"
proof -
  have f: "failRequest q (Some err) (updMetrics IncQueueRejected s) = Some s1" "r = Some err"
    using assms by (auto simp: rejectWork_def split: bind_splits)
  show "r = Some err" "same_setup s s1" "same_queues s s1" "requestsOf s1 = fmdrop q (requestsOf s)"
    "s_executorManager s1 = s_executorManager s"
    using f(2) failRequest_frame [OF f(1)] same_setup_trans [OF updMetrics_frame(1) failRequest_frame(1) [OF f(1)]]
      updMetrics_frame(2) [of s IncQueueRejected] by (simp_all add: same_queues_def)
qed

end
