(* ===== verification/Sched_Events.thy ===== *)
theory Sched_Events
  imports Sched_Admission
begin

text \<open>
  What an executor event does: the allocation of its work is finalised, the request advances, the
  next work item is admitted, and the blocks of a finished request are freed.
\<close>

subsection \<open>Finalising an allocation\<close>

lemma setManager_same: "fmlookup (r_managers r) e = Some m \<Longrightarrow> setManager e m r = r"
proof -
  assume "fmlookup (r_managers r) e = Some m"
  then have "fmupd e m (r_managers r) = r_managers r"
    by (intro fmap_ext) auto
  then show ?thesis
    by (simp add: setManager_def)
qed

lemma registry_Rollback_spec:
  assumes inv: "reg_inv r" and m: "fmlookup (r_managers r) e = Some m"
  shows "\<exists>m'. registry_Rollback e w r = Some (None, setManager e m' r) \<and> reg_inv (setManager e m' r) \<and>
     m_pendingAllocations m' = fmdrop w (m_pendingAllocations m) \<and>
     (\<forall>q. has_key (m_requestBlocks m') q \<longrightarrow> has_key (m_requestBlocks m) q)"
proof (cases "fmlookup (m_pendingAllocations m) w")
  case None
  then have "setManager e m r = r" "fmdrop w (m_pendingAllocations m) = m_pendingAllocations m"
    using setManager_same [OF m] by (simp_all add: fmdrop_idle fmdom_notI)
  then show ?thesis
    using None m inv Rollback_unknown [OF None] by (intro exI [of _ m]) (simp add: registry_Rollback_def)
next
  case (Some al)
  note mi = reg_invD(1) [OF inv m]
  obtain pre where pre: "al_BlockTable al = pre @ al_AllocatedBlocks al" "fmlookup (m_requestBlocks m) (al_RequestID al) = Some (al_BlockTable al)"
    using pend_okD [OF mgr_invD(3) [OF mi] Some] by (auto simp: work_ok_def)
  obtain m' where m': "manager_Rollback w m = Some m'" "mgr_inv (pins r e) (reserved r e) m'"
      "m_requestBlocks m' = (if pre = [] then fmdrop (al_RequestID al) (m_requestBlocks m)
         else fmupd (al_RequestID al) pre (m_requestBlocks m))"
      "m_pendingAllocations m' = fmdrop w (m_pendingAllocations m)"
    using Rollback_spec [OF mi Some pre(1)] by blast
  then show ?thesis
    using m pre(2) reg_inv_setManager [OF inv m m'(2)] by (intro exI [of _ m']) (simp add: registry_Rollback_def)
qed

lemma registry_Commit_spec:
  assumes inv: "reg_inv r" and m: "fmlookup (r_managers r) e = Some m"
  shows "\<exists>m'. registry_Commit e w r = Some (None, setManager e m' r) \<and> reg_inv (setManager e m' r) \<and>
     m_pendingAllocations m' = fmdrop w (m_pendingAllocations m) \<and>
     (\<forall>q. has_key (m_requestBlocks m') q \<longrightarrow> has_key (m_requestBlocks m) q)"
proof (cases "fmlookup (m_pendingAllocations m) w")
  case None
  then have "setManager e m r = r" "fmdrop w (m_pendingAllocations m) = m_pendingAllocations m"
    using setManager_same [OF m] by (simp_all add: fmdrop_idle fmdom_notI)
  then show ?thesis
    using None m inv Commit_unknown [OF None] by (intro exI [of _ m]) (simp add: registry_Commit_def)
next
  case (Some al)
  note mi = reg_invD(1) [OF inv m]
  obtain m' where m': "manager_Commit w m = Some m'" "mgr_inv (pins r e) (reserved r e) m'"
      "m_requestBlocks m' = m_requestBlocks m" "m_pendingAllocations m' = fmdrop w (m_pendingAllocations m)"
    using Commit_spec [OF mi Some] by blast
  then show ?thesis
    using m reg_inv_setManager [OF inv m m'(2)] by (intro exI [of _ m']) (simp add: registry_Commit_def)
qed

lemma sm_inv_setManager:
  assumes inv: "sm_inv st" and m: "fmlookup (r_managers (sm_blockRegistry st)) e = Some m"
    and r: "reg_inv (setManager e m' (sm_blockRegistry st))"
    and k: "\<And>q. has_key (m_requestBlocks m') q \<or> \<not> idle q m' \<Longrightarrow> has_key (m_requestBlocks m) q \<or> \<not> idle q m"
  shows "sm_inv (st\<lparr>sm_blockRegistry := setManager e m' (sm_blockRegistry st)\<rparr>)"
proof -
  have "tables_live (sm_requests st) (setManager e m' (sm_blockRegistry st))"
    unfolding tables_live_def
  proof (intro allI impI)
    fix k m1 q
    assume a: "fmlookup (r_managers (setManager e m' (sm_blockRegistry st))) k = Some m1" "has_key (m_requestBlocks m1) q \<or> \<not> idle q m1"
    obtain m2 where "fmlookup (r_managers (sm_blockRegistry st)) k = Some m2" "has_key (m_requestBlocks m2) q \<or> \<not> idle q m2"
    proof (cases "k = e")
      case True
      then show ?thesis
        using a k [of q] m that by simp
    next
      case False
      then show ?thesis
        using a that by simp
    qed
    then show "\<exists>rq. fmlookup (sm_requests st) q = Some rq \<and> rq_ExecutorID rq = k"
      using sm_invD(3) [OF inv] unfolding tables_live_def by blast
  qed
  moreover have "request_ok (setManager e m' (sm_blockRegistry st)) q rq" if "fmlookup (sm_requests st) q = Some rq" for q rq
    using sm_invD(4) [OF inv that] by (auto simp: request_ok_def split: if_splits)
  ultimately show ?thesis
    using inv r by (simp add: sm_inv_def channels_ok_def)
qed

lemma idle_drop: "m_pendingAllocations m' = fmdrop w (m_pendingAllocations m) \<Longrightarrow> idle q m \<Longrightarrow> idle q m'"
  by (auto simp: idle_def split: if_splits)

text \<open>No pending allocation of the work is left at the executor.\<close>

definition settled :: "string \<Rightarrow> string \<Rightarrow> registry \<Rightarrow> bool" where
  "settled e w r \<longleftrightarrow> (\<forall>m. fmlookup (r_managers r) e = Some m \<longrightarrow> fmlookup (m_pendingAllocations m) w = None)"

lemma finalizeBlocks_spec:
  assumes inv: "sm_inv st" and rq: "fmlookup (sm_requests st) q = Some rq"
  shows "\<exists>ferr reg. finalizeBlocks event rq (sm_blockRegistry st) = Some (ferr, reg) \<and>
     sm_inv (st\<lparr>sm_blockRegistry := reg\<rparr>) \<and> settled (rq_ExecutorID rq) (ev_WorkId event) reg \<and>
     ferr = (if ev_ExecutorId event = rq_ExecutorID rq then None
       else Some (Errorf (''event executor '' @ ev_ExecutorId event @ '' does not match request executor '' @ rq_ExecutorID rq) []))"
proof -
  let ?e = "rq_ExecutorID rq" and ?w = "ev_WorkId event" and ?r = "sm_blockRegistry st"
  obtain m where m: "fmlookup (r_managers ?r) ?e = Some m"
    using sm_invD(4) [OF inv rq] by (auto simp: request_ok_def)
  have i: "sm_inv (st\<lparr>sm_blockRegistry := setManager ?e m' ?r\<rparr>)" "settled ?e ?w (setManager ?e m' ?r)"
    if "reg_inv (setManager ?e m' ?r)" "m_pendingAllocations m' = fmdrop ?w (m_pendingAllocations m)"
      "\<forall>q. has_key (m_requestBlocks m') q \<longrightarrow> has_key (m_requestBlocks m) q" for m'
    using sm_inv_setManager [OF inv m that(1)] idle_drop [OF that(2)] that by (blast, simp add: settled_def)
  obtain m1 where m1: "registry_Rollback ?e ?w ?r = Some (None, setManager ?e m1 ?r)"
      "sm_inv (st\<lparr>sm_blockRegistry := setManager ?e m1 ?r\<rparr>)" "settled ?e ?w (setManager ?e m1 ?r)"
    using registry_Rollback_spec [OF sm_invD(1) [OF inv] m, of ?w] i by blast
  obtain m2 where m2: "registry_Commit ?e ?w ?r = Some (None, setManager ?e m2 ?r)"
      "sm_inv (st\<lparr>sm_blockRegistry := setManager ?e m2 ?r\<rparr>)" "settled ?e ?w (setManager ?e m2 ?r)"
    using registry_Commit_spec [OF sm_invD(1) [OF inv] m, of ?w] i by blast
  show ?thesis
    using m1 m2 by (auto simp: finalizeBlocks_def)
qed

subsection \<open>The next work item\<close>

lemma applyEvent_items:
  assumes "applyEvent now uuid e rq = Some (rq', e', items)"
  shows "items = [] \<or> (\<exists>item. items = [item] \<and> (prefill_item item \<or> decode_item item) \<and> wk_RequestId item = ev_RequestId e \<and>
    wk_ExecutorID item = rq_ExecutorID rq)"
proof (cases "ev_Type e = EventTypePrefillChunk")
  case True
  let ?c = "rq_ComputedTokens rq + us_InputTokens (ev_Usage e)"
  have ok: "unat ?c \<le> unat (rq_PromptTokens rq)" "unat (rq_PromptTokens rq) \<le> length (rq_TokenIDs rq)"
    using assms applyEvent_None_iff [of now uuid e rq] True by auto
  then have "unat (rq_PromptTokens rq - ?c) = unat (rq_PromptTokens rq) - unat ?c"
    by (simp add: unat_sub word_le_nat_alt)
  then show ?thesis
    using assms True ok by (auto simp: applyEvent_def onPrefillChunk_def Let_def slice_Some prefill_item_def)
next
  case False
  then show ?thesis
    using assms by (auto simp: applyEvent_def onPrefillFinished_def onDecodeChunk_def Let_def decodeItem_def decode_item_def
        split: EventType.splits if_splits)
qed

lemma applyEvent_failed:
  "applyEvent now uuid (failedBy err e) rq = Some (rq\<lparr>rq_Phase := RequestPhaseFailed\<rparr>, failedBy err e, [])"
  by (simp add: applyEvent_def failedBy_def)

subsection \<open>What every event keeps\<close>

lemma known_item: "prefill_item w \<or> decode_item w \<Longrightarrow> known_phase w"
  by (auto simp: known_phase_def prefill_item_def decode_item_def)

lemma sched_Enqueue_keeps:
  assumes "sched_Enqueue w s = Some (err, s1)" "routed s" "has_queues s" "prefill_item w \<or> decode_item w"
  shows "routed s1 \<and> has_queues s1 \<and> same_setup s s1 \<and> s_executorManager s1 = s_executorManager s"
proof (cases "admits w s")
  case True
  have thr: "same_setup s s1 \<Longrightarrow> s_longPrefillThreshold s1 = s_longPrefillThreshold s"
    by (simp add: same_setup_def)
  show ?thesis
    using sched_Enqueue_ok [OF assms(3) True] joined_routed [OF _ assms(2) _ thr, of "stamped w s"] assms(1,4) by auto
next
  case False
  obtain er where r: "rejectWork (wk_RequestId w) er (ticked s) = Some (err, s1)"
    using sched_Enqueue_refused [OF assms(3) known_item [OF assms(4)] False] assms(1) by auto
  note f = rejectWork_frame [OF r]
  have su: "same_setup s s1" and qu: "same_queues s s1"
    using same_setup_trans [OF ticked_frame(1) f(2)] f(3) ticked_frame(2) [of s] by (simp_all add: same_queues_def)
  show ?thesis
    using su f(5) routed_frame [OF qu su] has_queues_frame [OF qu su] assms(2,3) by simp
qed

text \<open>An item that is not admitted takes its request with it.\<close>

lemma sched_Enqueue_gone:
  assumes hq: "has_queues s" and known: "prefill_item w \<or> decode_item w" and no: "\<not> admits w s"
    and inv: "sm_inv (w_state (s_world s))" and room: "sub_room (wk_RequestId w) (w_state (s_world s))"
  shows "\<exists>er s1. sched_Enqueue w s = Some (Some er, s1) \<and>
    CodeOf (Some er) = (if wk_ExecutorID w \<in> set (s_executorIDs s) then CodeQueueFull else CodeExecutorUnavailable) \<and>
    sm_inv (w_state (s_world s1)) \<and> gone (wk_RequestId w) (w_state (s_world s1)) \<and> same_setup s s1 \<and> same_queues s s1 \<and>
    has_queues s1 \<and> waiting s1 = waiting s \<and> requestsOf s1 = fmdrop (wk_RequestId w) (requestsOf s) \<and>
    (\<exists>now uuid. last_event (failEvent now uuid (wk_RequestId w) (Some er)) (wk_RequestId w) (w_state (s_world s)) (w_state (s_world s1)))"
proof -
  let ?q = "wk_RequestId w" and ?s = "updMetrics IncQueueRejected (ticked s)"
  obtain er where er: "sched_Enqueue w s = rejectWork ?q er (ticked s)"
      "CodeOf (Some er) = (if wk_ExecutorID w \<in> set (s_executorIDs s) then CodeQueueFull else CodeExecutorUnavailable)"
    using sched_Enqueue_refused [OF hq known_item [OF known] no] by blast
  have st: "w_state (s_world ?s) = (w_state (s_world s))\<lparr>sm_metrics := IncQueueRejected (sm_metrics (w_state (s_world s)))\<rparr>"
    by (simp add: updMetrics_def Let_def)
  then have "sm_inv (w_state (s_world ?s))" "sub_room ?q (w_state (s_world ?s))"
    using inv room by (simp_all add: sub_room_def chan_room_def)
  then obtain st1 where st1: "sm_Fail (w_now (s_world ?s)) (w_fresh (s_world ?s)) ?q (Some er) (w_state (s_world ?s)) = Some st1" "sm_inv st1"
      "gone ?q st1" "last_event (failEvent (w_now (s_world ?s)) (w_fresh (s_world ?s)) ?q (Some er)) ?q (w_state (s_world ?s)) st1"
    using sm_Fail_spec by blast
  let ?s1 = "?s\<lparr>s_world := w_advance st1 (s_world ?s)\<rparr>"
  have r: "rejectWork ?q er (ticked s) = Some (Some er, ?s1)"
    using st1(1) by (simp add: rejectWork_def failRequest_def Let_def)
  have q: "same_setup s ?s1" "same_queues s ?s1" "w_state (s_world ?s1) = st1" "requestsOf ?s1 = fmdrop ?q (requestsOf s)"
    using same_setup_trans [OF ticked_frame(1) rejectWork_frame(2) [OF r]] rejectWork_frame(3,4) [OF r] ticked_frame(2) [of s]
    by (simp_all add: same_queues_def w_advance_def)
  have "last_event (failEvent (w_now (s_world ?s)) (w_fresh (s_world ?s)) ?q (Some er)) ?q (w_state (s_world s)) (w_state (s_world ?s1))"
    using st1(4) st q(3) by (simp add: last_event_def)
  then show ?thesis
    using er r st1(2,3) q has_queues_frame [OF q(2,1)] waiting_frame [OF q(2)] hq
    by (intro exI [of _ er] exI [of _ ?s1]) auto
qed

lemma enqueueAll_keeps:
  assumes "enqueueAll items s = Some (err, s1)" "routed s" "has_queues s" "\<forall>w \<in> set items. prefill_item w \<or> decode_item w"
  shows "routed s1 \<and> has_queues s1 \<and> same_setup s s1 \<and> s_executorManager s1 = s_executorManager s"
  using assms
proof (induction items s rule: enqueueAll.induct)
  case (2 item items s)
  obtain er s2 where e: "sched_Enqueue item s = Some (er, s2)"
    using "2.prems"(1) by (auto split: bind_splits)
  have k: "routed s2 \<and> has_queues s2 \<and> same_setup s s2 \<and> s_executorManager s2 = s_executorManager s"
    using sched_Enqueue_keeps [OF e "2.prems"(2,3)] "2.prems"(4) by simp
  show ?case
  proof (cases er)
    case None
    then have "enqueueAll items s2 = Some (err, s1)"
      using "2.prems"(1) e by simp
    then show ?thesis
      using "2.IH" [OF e refl None] k "2.prems"(4) same_setup_trans [of s s2 s1] by simp
  next
    case (Some x)
    then show ?thesis
      using "2.prems" e k by simp
  qed
qed simp

text \<open>The event as the request sees it.\<close>

definition eventFor :: "Event \<Rightarrow> Request \<Rightarrow> Event" where
  "eventFor event rq = (if ev_ExecutorId event = rq_ExecutorID rq then event else
     failedBy (Errorf (''event executor '' @ ev_ExecutorId event @ '' does not match request executor '' @ rq_ExecutorID rq) []) event)"

lemma eventFor_simps [simp]: "ev_RequestId (eventFor event rq) = ev_RequestId event" "ev_WorkId (eventFor event rq) = ev_WorkId event"
  by (simp_all add: eventFor_def failedBy_def)

definition sub_room2 :: "string \<Rightarrow> state_manager \<Rightarrow> bool" where
  "sub_room2 q st \<longleftrightarrow> (\<forall>c ch. fmlookup (sm_subscribeCh st) q = Some c \<longrightarrow> fmlookup (sm_channels st) c = Some ch \<longrightarrow>
     length (ch_buf ch) + 2 \<le> chan_cap)"

text \<open>The follow-up of an event, at most one item, when it is admitted.\<close>

lemma enqueueAll_admitted:
  assumes hq: "has_queues s" and one: "items \<noteq> [] \<longrightarrow> (\<exists>it. items = [it] \<and> (prefill_item it \<or> decode_item it) \<and> wk_ExecutorID it = e)"
    and ad: "\<forall>it \<in> set items. admits it s"
  shows "\<exists>s1 t m. enqueueAll items s = Some (None, s1) \<and> same_setup s s1 \<and> has_queues s1 \<and>
    w_state (s_world s1) = (w_state (s_world s))\<lparr>sm_metrics := m\<rparr> \<and>
    waiting s1 = (waiting s)(e := waiting s e + mset (map (wk_EnqueuedAt_update (\<lambda>_. t)) items))"
proof (cases "items = []")
  case True
  then show ?thesis
    using hq by (intro exI [of _ s] exI [of _ 0] exI [of _ "sm_metrics (w_state (s_world s))"]) simp
next
  case False
  then obtain it where it: "items = [it]" "prefill_item it \<or> decode_item it" "wk_ExecutorID it = e"
    using one by blast
  obtain s1 m where s1: "sched_Enqueue it s = Some (None, s1)" "same_setup s s1" "has_queues s1" "joined (stamped it s) s s1"
      "w_state (s_world s1) = (w_state (s_world s))\<lparr>sm_metrics := m\<rparr>"
    using sched_Enqueue_ok [OF hq, of it] ad it(1) by auto
  have "waiting s1 = (waiting s)(e := add_mset (stamped it s) (waiting s e))"
    using joined_waiting [OF s1(4)] known_item [OF it(2)] it(3) by simp
  then show ?thesis
    using s1 it(1) by (intro exI [of _ s1] exI [of _ "w_now (s_world s)"] exI [of _ m]) (simp add: stamped_def)
qed

text \<open>The blocks of a request that is done.\<close>

lemma done_frees:
  assumes inv: "sm_inv st" and rq: "fmlookup (sm_requests st) q = Some rq" and set: "settled (rq_ExecutorID rq) w (sm_blockRegistry st)"
  shows "\<exists>reg. (if fin then registry_FreeRequest (rq_ExecutorID rq) q (sm_blockRegistry st) else Some (None, sm_blockRegistry st)) = Some (None, reg) \<and>
    sm_inv (st\<lparr>sm_blockRegistry := reg\<rparr>) \<and> settled (rq_ExecutorID rq) w reg \<and>
    (fin \<longrightarrow> (\<forall>m. fmlookup (r_managers reg) (rq_ExecutorID rq) = Some m \<longrightarrow> \<not> has_key (m_requestBlocks m) q))"
proof (cases fin)
  case False
  have "st\<lparr>sm_blockRegistry := sm_blockRegistry st\<rparr> = st"
    by simp
  then have "sm_inv (st\<lparr>sm_blockRegistry := sm_blockRegistry st\<rparr>)"
    using inv by metis
  then show ?thesis
    using False set by (intro exI [of _ "sm_blockRegistry st"]) simp
next
  case True
  let ?e = "rq_ExecutorID rq" and ?reg = "sm_blockRegistry st"
  obtain m1 where m1: "fmlookup (r_managers ?reg) ?e = Some m1"
    using sm_invD(4) [OF inv rq] by (auto simp: request_ok_def)
  obtain m2 where m2: "registry_FreeRequest ?e q ?reg = Some (None, setManager ?e m2 ?reg)"
      "reg_inv (setManager ?e m2 ?reg)" "m_requestBlocks m2 = fmdrop q (m_requestBlocks m1)" "idle q m2"
      "\<forall>w al. fmlookup (m_pendingAllocations m2) w = Some al \<longleftrightarrow> fmlookup (m_pendingAllocations m1) w = Some al \<and> al_RequestID al \<noteq> q"
    using registry_FreeRequest_spec [OF sm_invD(1) [OF inv] m1] by blast
  have "sm_inv (st\<lparr>sm_blockRegistry := setManager ?e m2 ?reg\<rparr>)"
  proof (rule sm_inv_setManager [OF inv m1 m2(2)])
    fix p assume "has_key (m_requestBlocks m2) p \<or> \<not> idle p m2"
    then show "has_key (m_requestBlocks m1) p \<or> \<not> idle p m1"
      using m2(3,5) by (auto simp: idle_def split: if_splits)
  qed
  moreover have "fmlookup (m_pendingAllocations m1) w = None"
    using set m1 by (simp add: settled_def)
  then have "fmlookup (m_pendingAllocations m2) w = None"
    using m2(5) by (metis option.exhaust option.distinct(1))
  ultimately show ?thesis
    using m2 True by (intro exI [of _ "setManager ?e m2 ?reg"]) (simp add: settled_def)
qed

text \<open>The locked part of an event leaves room for the failure of its follow-up.\<close>

lemma delivered_room:
  assumes inv: "sm_inv st" and c: "fmlookup (sm_subscribeCh st) q = Some c" "fmlookup (sm_channels st) c = Some ch" and room: "sub_room2 q st"
    and st1: "sm_channels st1 = fmupd c (ch\<lparr>ch_buf := ch_buf ch @ [e]\<rparr>) (sm_channels st)" "sm_subscribeCh st1 = sm_subscribeCh st"
  shows "sub_room q st1"
proof -
  have "\<not> ch_closed ch"
    using subscribed_open(1) [OF inv c(1)] c(2) by auto
  moreover have "length (ch_buf ch) + 2 \<le> chan_cap"
    using room c by (simp add: sub_room2_def)
  ultimately show ?thesis
    using c st1 by (simp add: sub_room_def chan_room_def)
qed

text \<open>What is left of \<^verbatim>\<open>handleEvent\<close> once the event is delivered.\<close>

definition afterDelivery :: "error option \<Rightarrow> Event \<Rightarrow> string \<Rightarrow> string \<Rightarrow> WorkItem list \<Rightarrow> scheduler \<Rightarrow> (error option \<times> scheduler) option" where
  "afterDelivery ferr ev e q items s = do {
     (err, s3) \<leftarrow> enqueueAll items s;
     case err of
       Some er \<Rightarrow> Some (Some er, s3)
     | None \<Rightarrow> do {
         (ferr2, reg2) \<leftarrow> (if ev_Done ev then registry_FreeRequest e q (registryOf s3) else Some (None, registryOf s3));
         let s4 = setRegistry reg2 s3;
         case ferr2 of
           Some er \<Rightarrow> Some (Some er, s4)
         | None \<Rightarrow> Some (ferr, updMetrics (ObserveExecution (tm_Execution (ev_Timing ev)) (ev_ExecutorId ev)) s4)
       }
   }"

lemma handleEvent_delivers:
  assumes inv: "sm_inv (w_state (s_world s))" and rq: "fmlookup (requestsOf s) (ev_RequestId event) = Some rq"
    and app: "applyEvent (w_now (s_world s)) (w_fresh (s_world s)) (eventFor event rq) rq = Some (rq', e', items)"
    and room: "sub_room2 (ev_RequestId event) (w_state (s_world s))"
  shows "\<exists>ferr s2. handleEvent event s = afterDelivery ferr e' (rq_ExecutorID rq) (ev_RequestId event) items s2 \<and>
    same_setup s s2 \<and> same_queues s s2 \<and> sm_inv (w_state (s_world s2)) \<and> requestsOf s2 = fmupd (ev_RequestId event) rq' (requestsOf s) \<and>
    sub_room (ev_RequestId event) (w_state (s_world s2)) \<and> settled (rq_ExecutorID rq) (ev_WorkId event) (registryOf s2) \<and>
    (ferr = None \<longleftrightarrow> ev_ExecutorId event = rq_ExecutorID rq)"
proof -
  let ?q = "ev_RequestId event" and ?e = "rq_ExecutorID rq" and ?st = "w_state (s_world s)"
  let ?now = "w_now (s_world s)" and ?uuid = "w_fresh (s_world s)"
  obtain ferr reg where fin: "finalizeBlocks event rq (registryOf s) = Some (ferr, reg)" "sm_inv (?st\<lparr>sm_blockRegistry := reg\<rparr>)"
      "settled ?e (ev_WorkId event) reg" "(case ferr of None \<Rightarrow> event | Some err \<Rightarrow> failedBy err event) = eventFor event rq"
      "ferr = None \<longleftrightarrow> ev_ExecutorId event = ?e"
    using finalizeBlocks_spec [OF inv rq, of event] by (auto simp: eventFor_def split: if_splits)
  let ?st1 = "?st\<lparr>sm_blockRegistry := reg\<rparr>"
  have rk: "rq_RequestId rq = ?q"
    using sm_invD(4) [OF inv rq] by (simp add: request_ok_def)
  have room1: "sub_room ?q ?st1"
    using subscribed_open(1) [OF inv] room by (fastforce simp: sub_room_def sub_room2_def chan_room_def)
  have "\<exists>st2 c ch. sm_OnEvent ?now ?uuid (eventFor event rq) ?st1 = Some ((items, e'), st2) \<and> sm_inv st2 \<and>
      sm_requests st2 = fmupd ?q rq' (sm_requests ?st1) \<and> fmlookup (sm_subscribeCh ?st1) ?q = Some c \<and>
      fmlookup (sm_channels ?st1) c = Some ch \<and> sm_channels st2 = fmupd c (ch\<lparr>ch_buf := ch_buf ch @ [e']\<rparr>) (sm_channels ?st1) \<and>
      sm_subscribeCh st2 = sm_subscribeCh ?st1 \<and> sm_blockRegistry st2 = sm_blockRegistry ?st1"
    using sm_OnEvent_spec [OF fin(2), of "eventFor event rq", OF _ app] rq room1 by auto
  then obtain st2 c ch where on: "sm_OnEvent ?now ?uuid (eventFor event rq) ?st1 = Some ((items, e'), st2)" "sm_inv st2"
      "sm_requests st2 = fmupd ?q rq' (requestsOf s)" "fmlookup (sm_subscribeCh ?st) ?q = Some c" "fmlookup (sm_channels ?st) c = Some ch"
      "sm_channels st2 = fmupd c (ch\<lparr>ch_buf := ch_buf ch @ [e']\<rparr>) (sm_channels ?st)"
      "sm_subscribeCh st2 = sm_subscribeCh ?st" "sm_blockRegistry st2 = reg"
    by auto
  let ?w = "s_world (setRegistry reg s)"
  let ?s2 = "s\<lparr>s_world := w_advance st2 ?w\<rparr>"
  have w: "w_now ?w = ?now" "w_fresh ?w = ?uuid" "w_state ?w = ?st1"
    by (simp_all add: setRegistry_def Let_def w_now_def w_fresh_def)
  have s2: "same_setup s ?s2" "same_queues s ?s2" "w_state (s_world ?s2) = st2"
    by (simp_all add: same_setup_def same_queues_def w_advance_def setRegistry_def Let_def)
  have "handleEvent event s = afterDelivery ferr e' ?e (rq_RequestId rq) items ?s2"
    unfolding handleEvent_def afterDelivery_def using rq fin(1,4) on(1) w by (simp add: Let_def)
  then show ?thesis
    unfolding rk
    using s2 on fin(3,5) delivered_room [OF inv on(4,5) room on(6,7)] by (intro exI [of _ ferr] exI [of _ ?s2]) simp
qed

text \<open>After the delivery: the next item is queued and a request that is done gives its blocks back.\<close>

lemma afterDelivery_admitted:
  assumes inv: "sm_inv (w_state (s_world s))" and hq: "has_queues s" and rq: "fmlookup (requestsOf s) q = Some rq" "rq_ExecutorID rq = k"
    and items: "items \<noteq> [] \<longrightarrow> (\<exists>it. items = [it] \<and> (prefill_item it \<or> decode_item it) \<and> wk_ExecutorID it = k)" "\<forall>it \<in> set items. admits it s"
    and w: "settled k v (registryOf s)"
  shows "\<exists>s1 t. afterDelivery ferr e' k q items s = Some (ferr, s1) \<and> sm_inv (w_state (s_world s1)) \<and> has_queues s1 \<and> same_setup s s1 \<and>
    requestsOf s1 = requestsOf s \<and> settled k v (registryOf s1) \<and>
    waiting s1 = (waiting s)(k := waiting s k + mset (map (wk_EnqueuedAt_update (\<lambda>_. t)) items)) \<and>
    (ev_Done e' \<longrightarrow> (\<forall>m. fmlookup (r_managers (registryOf s1)) k = Some m \<longrightarrow> \<not> has_key (m_requestBlocks m) q))"
proof -
  obtain s3 t m where s3: "enqueueAll items s = Some (None, s3)" "same_setup s s3" "has_queues s3"
      "w_state (s_world s3) = (w_state (s_world s))\<lparr>sm_metrics := m\<rparr>"
      "waiting s3 = (waiting s)(k := waiting s k + mset (map (wk_EnqueuedAt_update (\<lambda>_. t)) items))"
    using enqueueAll_admitted [OF hq items] by auto
  have live: "sm_inv (w_state (s_world s3))" "fmlookup (requestsOf s3) q = Some rq" "registryOf s3 = registryOf s"
    using s3(4) inv rq by simp_all
  obtain reg where reg: "(if ev_Done e' then registry_FreeRequest k q (registryOf s3) else Some (None, registryOf s3)) = Some (None, reg)"
      "sm_inv ((w_state (s_world s3))\<lparr>sm_blockRegistry := reg\<rparr>)" "settled k v reg"
      "ev_Done e' \<longrightarrow> (\<forall>m. fmlookup (r_managers reg) k = Some m \<longrightarrow> \<not> has_key (m_requestBlocks m) q)"
    using done_frees [OF live(1,2), of v "ev_Done e'"] w unfolding live(3) rq(2) by blast
  let ?s = "updMetrics (ObserveExecution (tm_Execution (ev_Timing e')) (ev_ExecutorId e')) (setRegistry reg s3)"
  have q: "same_setup s3 ?s" "same_queues s3 ?s"
    using same_setup_trans [OF setRegistry_frame(1) updMetrics_frame(1)] by (simp_all add: same_queues_def updMetrics_def setRegistry_def Let_def)
  have "afterDelivery ferr e' k q items s = Some (ferr, ?s)"
    using s3(1) reg(1) by (simp add: afterDelivery_def Let_def)
  moreover have "sm_inv (w_state (s_world ?s))" "requestsOf ?s = requestsOf s" "registryOf ?s = reg"
    using reg(2) s3(4) by (simp_all add: updMetrics_def setRegistry_def Let_def)
  moreover have "has_queues ?s" "waiting ?s = waiting s3" "same_setup s ?s"
    using has_queues_frame [OF q(2,1)] s3(3) waiting_frame [OF q(2)] same_setup_trans [OF s3(2) q(1)] by simp_all
  ultimately show ?thesis
    using s3(5) reg(3,4) by (intro exI [of _ ?s] exI [of _ t]) auto
qed

lemma handleEvent_spec:
  assumes inv: "sm_inv (w_state (s_world s))" and hq: "has_queues s"
    and rq: "fmlookup (requestsOf s) (ev_RequestId event) = Some rq"
    and app: "applyEvent (w_now (s_world s)) (w_fresh (s_world s)) (eventFor event rq) rq = Some (rq', e', items)"
    and room: "sub_room2 (ev_RequestId event) (w_state (s_world s))"
  shows "\<exists>err s1. handleEvent event s = Some (err, s1) \<and> sm_inv (w_state (s_world s1)) \<and> has_queues s1 \<and> same_setup s s1 \<and>
    (if \<forall>it \<in> set items. admits it s
     then requestsOf s1 = fmupd (ev_RequestId event) rq' (requestsOf s) \<and>
       (\<exists>t. waiting s1 = (waiting s)(rq_ExecutorID rq := waiting s (rq_ExecutorID rq) + mset (map (wk_EnqueuedAt_update (\<lambda>_. t)) items))) \<and>
       settled (rq_ExecutorID rq) (ev_WorkId event) (registryOf s1) \<and>
       (ev_Done e' \<longrightarrow> (\<forall>m. fmlookup (r_managers (registryOf s1)) (rq_ExecutorID rq) = Some m \<longrightarrow>
          \<not> has_key (m_requestBlocks m) (ev_RequestId event))) \<and>
       (err = None \<longleftrightarrow> ev_ExecutorId event = rq_ExecutorID rq)
     else requestsOf s1 = fmdrop (ev_RequestId event) (requestsOf s) \<and> waiting s1 = waiting s \<and>
       gone (ev_RequestId event) (w_state (s_world s1)) \<and> CodeOf err \<in> {CodeQueueFull, CodeExecutorUnavailable})"
proof -
  let ?q = "ev_RequestId event" and ?e = "rq_ExecutorID rq"
  obtain ferr s2 where h: "handleEvent event s = afterDelivery ferr e' ?e ?q items s2" "same_setup s s2" "same_queues s s2"
      "sm_inv (w_state (s_world s2))" "requestsOf s2 = fmupd ?q rq' (requestsOf s)" "sub_room ?q (w_state (s_world s2))"
      "settled ?e (ev_WorkId event) (registryOf s2)" "ferr = None \<longleftrightarrow> ev_ExecutorId event = ?e"
    using handleEvent_delivers [OF inv rq app room] by blast
  have hq2: "has_queues s2" and wait: "waiting s2 = waiting s" and adm: "admits it s2 \<longleftrightarrow> admits it s" for it
    using has_queues_frame [OF h(3,2)] hq waiting_frame [OF h(3)] admits_frame [OF h(3,2)] by simp_all
  show ?thesis
  proof (cases "\<forall>it \<in> set items. admits it s")
    case True
    have items: "items \<noteq> [] \<longrightarrow> (\<exists>it. items = [it] \<and> (prefill_item it \<or> decode_item it) \<and> wk_ExecutorID it = ?e)" "\<forall>it \<in> set items. admits it s2"
      using applyEvent_items [OF app] True adm by auto
    have rq2: "fmlookup (requestsOf s2) ?q = Some rq'" "rq_ExecutorID rq' = ?e"
      using h(5) applyEvent_keeps [OF app] by simp_all
    from afterDelivery_admitted [OF h(4) hq2 rq2 items h(7), of ferr e'] show ?thesis
      using True h(1,5,8) wait same_setup_trans [OF h(2)] by (auto simp: fun_upd_def)
  next
    case False
    then obtain it where it: "items = [it]" "prefill_item it \<or> decode_item it" "wk_RequestId it = ?q" "\<not> admits it s2"
      using applyEvent_items [OF app] adm by auto
    obtain er s3 where s3: "sched_Enqueue it s2 = Some (Some er, s3)" "CodeOf (Some er) \<in> {CodeQueueFull, CodeExecutorUnavailable}"
        "sm_inv (w_state (s_world s3))" "gone ?q (w_state (s_world s3))" "same_setup s2 s3" "has_queues s3" "waiting s3 = waiting s"
        "requestsOf s3 = fmdrop ?q (requestsOf s2)"
      using sched_Enqueue_gone [OF hq2 it(2,4) h(4)] h(6) it(3) wait by (auto split: if_splits)
    have "handleEvent event s = Some (Some er, s3)"
      using h(1) it(1) s3(1) by (simp add: afterDelivery_def)
    moreover have "requestsOf s3 = fmdrop ?q (requestsOf s)"
      using s3(8) h(5) by (simp add: fmap_ext)
    ultimately show ?thesis
      using False s3 same_setup_trans [OF h(2) s3(5)] by auto
  qed
qed

end
