(* ===== verification/Sched_Submit.thy ===== *)
theory Sched_Submit
  imports Sched_Events
begin

text \<open>
  Submission of a batch: an accepted batch goes to its executor's channel as it is, a refused one is
  undone, and in neither case is a waiting work lost or duplicated.
\<close>

subsection \<open>Undoing a refused batch\<close>

lemma item_of_known: "item_of e w \<Longrightarrow> known_phase w"
  by (auto simp: item_of_def intro: known_item)

lemma undoBatch_waiting:
  assumes "undoBatch batch s = Some s1" "routed s" "has_queues s" "\<forall>w \<in> set batch. item_of e w" "e \<in> set (s_executorIDs s)"
  shows "routed s1 \<and> has_queues s1 \<and> same_setup s s1 \<and> requestsOf s1 = requestsOf s \<and> s_executorManager s1 = s_executorManager s \<and>
    waiting s1 = (waiting s)(e := waiting s e + mset (map unallocated batch))"
  using assms
proof (induction batch arbitrary: s)
  case (Cons w ws)
  obtain er reg s2 where r: "registry_Rollback (wk_ExecutorID w) (wk_WorkId w) (registryOf s) = Some (er, reg)"
      "requeueWork w (setRegistry reg s) = Some s2" "undoBatch ws s2 = Some s1"
    using Cons.prems(1) by (auto split: bind_splits)
  let ?s = "setRegistry reg s"
  have w: "wk_ExecutorID w = e" "prefill_item w \<or> decode_item w" "known_phase w"
    using Cons.prems(4) item_of_known by (auto simp: item_of_def)
  have s: "routed ?s" "has_queues ?s" "wk_ExecutorID w \<in> set (s_executorIDs ?s)"
    using Cons.prems(2,3,5) w(1) routed_frame [OF setRegistry_frame(2,1)] has_queues_frame [OF setRegistry_frame(2,1)]
    by (simp_all add: setRegistry_def Let_def)
  have s2: "s_world s2 = s_world ?s" "has_queues s2" "same_setup ?s s2" "s_executorManager s2 = s_executorManager ?s"
      "waiting s2 = (waiting ?s)(e := add_mset (unallocated w) (waiting ?s e))"
    using requeueWork_waiting [OF s(2,3) w(3)] r(2) w(1) by auto
  have su: "same_setup s s2"
    using same_setup_trans [OF setRegistry_frame(1) s2(3)] .
  then have "e \<in> set (s_executorIDs s2)"
    using Cons.prems(5) by (simp add: same_setup_def)
  then have IH: "routed s1 \<and> has_queues s1 \<and> same_setup s2 s1 \<and> requestsOf s1 = requestsOf s2 \<and>
      s_executorManager s1 = s_executorManager s2 \<and> waiting s1 = (waiting s2)(e := waiting s2 e + mset (map unallocated ws))"
    using Cons.IH [OF r(3) requeueWork_routed [OF r(2) s(1) w(2)] s2(2)] Cons.prems(4) by (simp add: fun_upd_def)
  then show ?case
    using s2 su same_setup_trans [of s s2 s1] waiting_frame [OF setRegistry_frame(2), of reg s]
    by (auto simp: setRegistry_def Let_def)
qed simp

lemma settled_keep:
  assumes "settled e w r" "fmlookup (r_managers r) k = Some m" "m_pendingAllocations m' = fmdrop v (m_pendingAllocations m)"
  shows "settled e w (setManager k m' r)"
  using assms by (auto simp: settled_def)

text \<open>Rolling back settles the work and unsettles none.\<close>

lemma rollback_settles:
  assumes "sm_inv st"
  shows "\<exists>er reg. registry_Rollback e w (sm_blockRegistry st) = Some (er, reg) \<and> sm_inv (st\<lparr>sm_blockRegistry := reg\<rparr>) \<and>
    settled e w reg \<and> (\<forall>k v. settled k v (sm_blockRegistry st) \<longrightarrow> settled k v reg)"
proof (cases "fmlookup (r_managers (sm_blockRegistry st)) e")
  case None
  moreover have "st\<lparr>sm_blockRegistry := sm_blockRegistry st\<rparr> = st"
    by simp
  ultimately show ?thesis
    using assms by (simp add: registry_Rollback_def managerFor_def settled_def)
next
  case (Some m)
  obtain m' where m': "registry_Rollback e w (sm_blockRegistry st) = Some (None, setManager e m' (sm_blockRegistry st))"
      "reg_inv (setManager e m' (sm_blockRegistry st))" "m_pendingAllocations m' = fmdrop w (m_pendingAllocations m)"
      "\<forall>q. has_key (m_requestBlocks m') q \<longrightarrow> has_key (m_requestBlocks m) q"
    using registry_Rollback_spec [OF sm_invD(1) [OF assms] Some] by blast
  have "sm_inv (st\<lparr>sm_blockRegistry := setManager e m' (sm_blockRegistry st)\<rparr>)"
    using sm_inv_setManager [OF assms Some m'(2)] m'(4) idle_drop [OF m'(3)] by blast
  then show ?thesis
    using m' settled_keep [OF _ Some m'(3)] by (auto simp: settled_def)
qed

lemma undoBatch_settles:
  assumes "sm_inv (w_state (s_world s))" "has_queues s" "\<forall>w \<in> set batch. item_of e w" "e \<in> set (s_executorIDs s)"
  shows "\<exists>s1. undoBatch batch s = Some s1 \<and> sm_inv (w_state (s_world s1)) \<and>
    (\<forall>w \<in> set batch. settled e (wk_WorkId w) (registryOf s1)) \<and> (\<forall>k v. settled k v (registryOf s) \<longrightarrow> settled k v (registryOf s1))"
  using assms
proof (induction batch arbitrary: s)
  case (Cons w ws)
  let ?st = "w_state (s_world s)"
  have w: "wk_ExecutorID w = e" "known_phase w"
    using Cons.prems(3) item_of_known by (auto simp: item_of_def)
  obtain er reg where r: "registry_Rollback e (wk_WorkId w) (registryOf s) = Some (er, reg)" "sm_inv (?st\<lparr>sm_blockRegistry := reg\<rparr>)"
      "settled e (wk_WorkId w) reg" "\<forall>k v. settled k v (registryOf s) \<longrightarrow> settled k v reg"
    using rollback_settles [OF Cons.prems(1)] by blast
  let ?s = "setRegistry reg s"
  have s: "has_queues ?s" "wk_ExecutorID w \<in> set (s_executorIDs ?s)" "w_state (s_world ?s) = ?st\<lparr>sm_blockRegistry := reg\<rparr>"
    using Cons.prems(2,4) w(1) has_queues_frame [OF setRegistry_frame(2,1)] by (simp_all add: setRegistry_def Let_def)
  obtain s2 where s2: "requeueWork w ?s = Some s2" "s_world s2 = s_world ?s" "has_queues s2" "same_setup ?s s2"
    using requeueWork_waiting [OF s(1,2) w(2)] by blast
  have e2: "e \<in> set (s_executorIDs s2)"
    using s2(4) s(2) w(1) by (simp add: same_setup_def)
  have inv2: "sm_inv (w_state (s_world s2))" "registryOf s2 = reg"
    using s2(2) s(3) r(2) by simp_all
  obtain s1 where s1: "undoBatch ws s2 = Some s1" "sm_inv (w_state (s_world s1))" "\<forall>w \<in> set ws. settled e (wk_WorkId w) (registryOf s1)"
      "\<forall>k v. settled k v reg \<longrightarrow> settled k v (registryOf s1)"
    using Cons.IH [OF inv2(1) s2(3) _ e2] Cons.prems(3) inv2(2) by auto
  then show ?case
    using r s2(1) w(1) by simp
qed simp

subsection \<open>Submitting\<close>

text \<open>The batch is appended to the channel of its executor, which had room.\<close>

definition submitted :: "Batch \<Rightarrow> executor_manager \<Rightarrow> executor_manager \<Rightarrow> bool" where
  "submitted b em em1 \<longleftrightarrow> (\<exists>ch. fmlookup (em_batchChans em) (bt_ExecutorID b) = Some ch \<and> length ch < batchChanCap \<and>
     em1 = em\<lparr>em_batchChans := fmupd (bt_ExecutorID b) (ch @ [b]) (em_batchChans em)\<rparr>)"

lemma Submit_outcome:
  assumes "Submit ctx choice (Some b) em = (err, em1)"
  shows "if err = None then submitted b em em1 else em1 = em"
  using assms by (auto simp: Submit_def submitted_def split: option.splits if_splits)

text \<open>
  Every work that waited for the executor still waits, was submitted, or belongs to a request that has
  ended; no other executor's work is touched.
\<close>

definition accounted :: "scheduler \<Rightarrow> string \<Rightarrow> WorkItem list \<Rightarrow> scheduler \<Rightarrow> bool" where
  "accounted s e items s1 \<longleftrightarrow> (\<forall>k. k \<noteq> e \<longrightarrow> waiting s1 k = waiting s k) \<and>
     (\<exists>D. ids (waiting s e) = ids (waiting s1 e) + ids (mset items) + ids D \<and> all_ended (requestsOf s1) D)"

lemma ids_unallocated [simp]: "ids (image_mset unallocated M) = ids M"
  by (simp add: ids_def image_mset.compositionality comp_def)

lemma observe_frame [simp]: "waiting (updMetrics f s) = waiting s" "routed (updMetrics f s) \<longleftrightarrow> routed s" "has_queues (updMetrics f s) \<longleftrightarrow> has_queues s"
  by (rule waiting_frame [OF updMetrics_frame(2)] routed_frame [OF updMetrics_frame(2,1)] has_queues_frame [OF updMetrics_frame(2,1)])+

lemma picked_accounted:
  assumes on: "on_course s e [] batch s2" and f: "same_setup s2 s3" "same_queues s2 s3" "requestsOf s3 = requestsOf s2"
  shows "routed s3 \<and> has_queues s3 \<and> same_setup s s3 \<and> e \<in> set (s_executorIDs s3) \<and> accounted s e batch s3"
proof -
  have s2: "routed s2" "has_queues s2" "same_setup s s2" "e \<in> set (s_executorIDs s2)" "\<And>k. k \<noteq> e \<Longrightarrow> waiting s2 k = waiting s k"
    using on by (auto simp: on_course_def)
  obtain D where "ids (waiting s e) = ids (waiting s2 e) + ids (mset batch) + ids D" "all_ended (requestsOf s2) D"
    using on by (auto simp: on_course_def)
  then have "accounted s e batch s3"
    using s2(5) f(3) waiting_frame [OF f(2)] by (auto simp: accounted_def)
  then show ?thesis
    using s2(1-4) routed_frame [OF f(2,1)] has_queues_frame [OF f(2,1)] same_setup_trans [OF s2(3) f(1)] f(1) by (simp add: same_setup_def)
qed

lemma refused_accounted:
  assumes s3: "routed s3" "has_queues s3" "same_setup s s3" "e \<in> set (s_executorIDs s3)" "accounted s e batch s3"
    and i: "\<forall>w \<in> set batch. item_of e w" and u: "undoBatch batch s3 = Some s1"
  shows "routed s1 \<and> has_queues s1 \<and> same_setup s s1 \<and> s_executorManager s1 = s_executorManager s3 \<and> accounted s e [] s1"
proof -
  have k: "routed s1" "has_queues s1" "same_setup s3 s1" "requestsOf s1 = requestsOf s3" "s_executorManager s1 = s_executorManager s3"
      "waiting s1 = (waiting s3)(e := waiting s3 e + mset (map unallocated batch))"
    using undoBatch_waiting [OF u s3(1,2) i s3(4)] by auto
  obtain D where D: "ids (waiting s e) = ids (waiting s3 e) + ids (mset batch) + ids D" "all_ended (requestsOf s3) D"
    using s3(5) by (auto simp: accounted_def)
  have "accounted s e [] s1"
    unfolding accounted_def
  proof (intro conjI allI impI exI [of _ D])
    show "waiting s1 p = waiting s p" if "p \<noteq> e" for p
      using s3(5) k(6) that by (simp add: accounted_def)
  qed (use D k(4,6) in \<open>simp_all add: ac_simps\<close>)
  then show ?thesis
    using k(1,2,5) same_setup_trans [OF s3(3) k(3)] by simp
qed

lemma patchExecute_spec:
  assumes p: "patchExecute ctx choice e s = Some s1" and s: "routed s" "has_queues s"
  shows "routed s1 \<and> has_queues s1 \<and> same_setup s s1 \<and>
    (accounted s e [] s1 \<and> s_executorManager s1 = s_executorManager s \<or>
     (\<exists>b. accounted s e (bt_Items b) s1 \<and> submitted b (s_executorManager s) (s_executorManager s1) \<and> bt_ExecutorID b = e \<and>
        bt_Items b \<noteq> [] \<and> bt_BatchSize b = of_nat (length (bt_Items b)) \<and> (\<forall>w \<in> set (bt_Items b). item_of e w \<and> sendable w)))"
proof -
  obtain batch s2 where b: "pickBatch e s = Some (batch, s2)"
    using p by (auto simp: patchExecute_def split: bind_splits)
  have on: "on_course s e [] batch s2"
    using pickBatch_spec [OF b s] by blast
  then have i: "\<forall>w \<in> set batch. item_of e w \<and> sendable w" and em2: "s_executorManager s2 = s_executorManager s"
    by (simp_all add: on_course_def)
  show ?thesis
  proof (cases batch)
    case Nil
    then have "s1 = s2"
      using p b by (simp add: patchExecute_def)
    then show ?thesis
      using picked_accounted [OF on] em2 Nil by simp
  next
    case (Cons first rest)
    then obtain s3 where s3: "trySchedule e s2 = Some s3"
      using p b by (auto simp: patchExecute_def split: bind_splits)
    note t = trySchedule_frame [OF s3]
    let ?at = "w_now (s_world s3)"
    let ?b = "\<lparr>bt_BatchID = w_fresh (s_world s3), bt_ExecutorID = wk_ExecutorID first, bt_BatchSize = of_nat (length batch), bt_CreateAt = ?at, bt_Items = batch\<rparr>"
    obtain err em where sub: "Submit ctx choice (Some ?b) (s_executorManager s3) = (err, em)"
      by (cases "Submit ctx choice (Some ?b) (s_executorManager s3)")
    let ?s4 = "s3\<lparr>s_executorManager := em, s_world := w_advance (w_state (s_world s3)) (s_world s3)\<rparr>"
    have p4: "(if err \<noteq> None then undoBatch batch ?s4 else Some (updMetrics (observeBatchStatsAndTimeWait batch ?at) ?s4)) = Some s1"
      using p b Cons s3 sub by (auto simp: patchExecute_def Let_def split: if_splits)
    have "same_setup s2 ?s4" "same_queues s2 ?s4" "requestsOf ?s4 = requestsOf s2"
      using t(1-3) by (simp_all add: same_setup_def same_queues_def w_advance_def)
    note s4 = picked_accounted [OF on this]
    have out: "if err = None then submitted ?b (s_executorManager s) em else em = s_executorManager s"
      using Submit_outcome [OF sub] unfolding t(5) em2 .
    show ?thesis
    proof (cases "err = None")
      case True
      then have s1: "s1 = updMetrics (observeBatchStatsAndTimeWait batch ?at) ?s4"
        using p4 by simp
      have "accounted s e batch s1" "routed s1 \<and> has_queues s1 \<and> same_setup s s1" "submitted ?b (s_executorManager s) (s_executorManager s1)"
        unfolding s1 accounted_def using s4 same_setup_trans [OF _ updMetrics_frame(1)] out True by (auto simp: accounted_def)
      moreover have "wk_ExecutorID first = e"
        using i Cons by (simp add: item_of_def)
      ultimately show ?thesis
        using i Cons by (intro conjI disjI2 exI [of _ ?b]) auto
    next
      case False
      then have "undoBatch batch ?s4 = Some s1"
        using p4 by simp
      from refused_accounted [OF _ _ _ _ _ _ this, of s e] show ?thesis
        using s4 i out False by simp
    qed
  qed
qed

end
