(* ===== verification/Sched_Demo.thy ===== *)
theory Sched_Demo
  imports Sched_Submit Executor_Properties State_Properties
begin

text \<open>
  A concrete scheduler for the witnesses: one executor whose blocks hold sixteen tokens, and requests
  admitted to it as the handler does it.
\<close>

subsection \<open>A concrete scheduler\<close>

definition sched_runtime :: ExecutorStats where
  "sched_runtime = (demo_runtime ''a'')\<lparr>es_BlockSize := 16\<rparr>"

definition sched_registry :: registry where
  "sched_registry = (case NewRegistry (fmupd ''a'' (Some sched_runtime) fmempty) of Inr r \<Rightarrow> r)"

text \<open>The clock reads \<open>t i\<close> at its \<open>i\<close>-th reading.\<close>

definition sched_world :: "(nat \<Rightarrow> time) \<Rightarrow> world" where
  "sched_world t = \<lparr>w_state = NewRequestLifecycleStateManager sched_registry NewMetrics, w_clock = t,
     w_uuid = (\<lambda>i. CHR ''u'' # fmt_d i), w_tick = 0\<rparr>"

definition sched_conf :: "u32 \<Rightarrow> Conf" where
  "sched_conf tokens = demo_conf\<lparr>cf_Server := (cf_Server demo_conf)\<lparr>sv_ScheduleConf :=
     (sv_ScheduleConf (cf_Server demo_conf))\<lparr>sc_MaxBatchTokens := tokens\<rparr>\<rparr>\<rparr>"

definition sched_new :: "u32 \<Rightarrow> (nat \<Rightarrow> time) \<Rightarrow> scheduler" where
  "sched_new tokens t = NewScheduler (sched_conf tokens) demo_em (sched_world t)"

definition sched_request :: "string \<Rightarrow> u32 list \<Rightarrow> time \<Rightarrow> Request" where
  "sched_request q tokens deadline = demo_request\<lparr>rq_RequestId := q, rq_TokenIDs := tokens,
     rq_PromptTokens := of_nat (length tokens), rq_Deadline := deadline\<rparr>"

text \<open>Registering a request and enqueuing its first work, as the handler does.\<close>

definition admit :: "Request \<Rightarrow> scheduler \<Rightarrow> scheduler option" where
  "admit req s = (case sm_Create (w_now (s_world s)) (w_fresh (s_world s)) req (w_state (s_world s)) of
     Some (Inr work, st) \<Rightarrow> map_option snd (sched_Enqueue work (s\<lparr>s_world := w_advance st (s_world s)\<rparr>))
   | _ \<Rightarrow> None)"

definition two_admitted :: "u32 \<Rightarrow> (nat \<Rightarrow> time) \<Rightarrow> scheduler" where
  "two_admitted tokens t = the (do {
     s1 \<leftarrow> admit (sched_request ''A'' [1] 5) (sched_new tokens t);
     admit (sched_request ''B'' [1, 2, 3, 4] 0) s1
   })"

subsection \<open>Admission of a request\<close>

lemma admit_ok:
  fixes s :: scheduler
  defines "st \<equiv> w_state (s_world s)"
  assumes inv: "sm_inv st" and hq: "has_queues s" and ro: "routed s"
    and new: "fmlookup (requestsOf s) (rq_RequestId req) = None" and bind: "may_bind req st" and room: "match_room req st"
    and prompt: "rq_PromptTokens req = of_nat (length (rq_TokenIDs req))" "rq_TokenIDs req \<noteq> []"
    and space: "\<And>w. wk_Phase w = WorkPhasePrefill \<Longrightarrow> wk_ExecutorID w = bound_executor req st \<Longrightarrow>
      wk_TokenCntTotal w = of_nat (length (rq_TokenIDs req)) \<Longrightarrow> admits w s"
  shows "\<exists>s1 cache work. admit req s = Some s1 \<and> sm_inv (w_state (s_world s1)) \<and> has_queues s1 \<and> routed s1 \<and> same_setup s s1 \<and>
    requestsOf s1 = fmupd (rq_RequestId req) (req\<lparr>rq_Phase := RequestPhasePrefillReady, rq_ExecutorID := bound_executor req st,
      rq_Cache := Some cache, rq_ComputedTokens := pm_CachedTokens cache\<rparr>) (requestsOf s) \<and>
    unat (pm_CachedTokens cache) < length (rq_TokenIDs req) \<and> sub_room2 (rq_RequestId req) (w_state (s_world s1)) \<and>
    joined work s s1 \<and> prefill_item work \<and> wk_ExecutorID work = bound_executor req st \<and>
    wk_TokenCntTotal work = of_nat (length (rq_TokenIDs req)) \<and> s_executorManager s1 = s_executorManager s"
proof -
  let ?w = "s_world s" and ?e = "bound_executor req st"
  obtain work st1 cache where c: "sm_Create (w_now ?w) (w_fresh ?w) req st = Some (Inr work, st1)" "sm_inv st1"
      "sm_requests st1 = fmupd (rq_RequestId req) (req\<lparr>rq_Phase := RequestPhasePrefillReady, rq_ExecutorID := ?e,
         rq_Cache := Some cache, rq_ComputedTokens := pm_CachedTokens cache\<rparr>) (sm_requests st)"
      "sm_subscribeCh st1 = fmupd (rq_RequestId req) (sm_nextChannel st) (sm_subscribeCh st)"
      "fmlookup (sm_channels st1) (sm_nextChannel st) = Some \<lparr>ch_buf = [], ch_closed = False\<rparr>"
      "unat (pm_CachedTokens cache) < length (rq_TokenIDs req)" "wk_ExecutorID work = ?e" "wk_Phase work = WorkPhasePrefill"
      "unat (wk_NumNewTokens work) = length (wk_TokenIDs work)" "wk_TokenCntTotal work = of_nat (length (rq_TokenIDs req))"
    using sm_Create_ok [OF inv _ bind room prompt, of "w_now ?w" "w_fresh ?w"] new unfolding st_def by blast
  let ?s = "s\<lparr>s_world := w_advance st1 ?w\<rparr>"
  have f: "same_setup s ?s" "same_queues s ?s" "w_state (s_world ?s) = st1"
    by (simp_all add: same_setup_def same_queues_def w_advance_def)
  have q: "has_queues ?s" "routed ?s" "prefill_item work"
    using has_queues_frame [OF f(2,1)] routed_frame [OF f(2,1)] hq ro c(8,9) by (simp_all add: prefill_item_def)
  have "admits work ?s"
    using space [of work] c(7,8,10) admits_frame [OF f(2,1)] by simp
  then obtain s1 m where s1: "sched_Enqueue work ?s = Some (None, s1)" "same_setup ?s s1" "has_queues s1" "joined (stamped work ?s) ?s s1"
      "w_state (s_world s1) = st1\<lparr>sm_metrics := m\<rparr>" "s_executorManager s1 = s_executorManager ?s"
    using sched_Enqueue_ok [OF q(1)] f(3) by metis
  have "admit req s = Some s1"
    using c(1) s1(1) by (simp add: admit_def st_def)
  moreover have "routed s1"
    by (rule joined_routed [OF s1(4) q(2)]) (use q(3) s1(2) in \<open>simp_all add: same_setup_def\<close>)
  moreover have "joined (stamped work ?s) s s1"
    using s1(4) joined_frame(1) [OF f(2,1)] by simp
  moreover have "sub_room2 (rq_RequestId req) (w_state (s_world s1))"
    using c(4,5) s1(5) by (simp add: sub_room2_def chan_cap_def)
  ultimately show ?thesis
    using c(2,3,6,7,10) s1 same_setup_trans [OF f(1) s1(2)] q(3) unfolding st_def by (intro exI [of _ s1] exI [of _ cache] exI [of _ "stamped work ?s"]) simp
qed

subsection \<open>The empty scheduler\<close>

lemma sched_registry_new: "NewRegistry (fmupd ''a'' (Some sched_runtime) fmempty) = Inr sched_registry"
proof -
  have "case NewRegistry (fmupd ''a'' (Some sched_runtime) fmempty) of Inr r \<Rightarrow> True | Inl e \<Rightarrow> False"
    by code_simp
  then show ?thesis
    by (simp add: sched_registry_def split: sum.splits)
qed

lemma sched_small: "\<forall>rt \<in> fmran' (fmupd ''a'' (Some sched_runtime) fmempty). small rt"
  by (auto simp: sched_runtime_def demo_runtime_def small_def elim!: fmran'E split: if_splits)

lemma sched_managers:
  "fmlookup (r_managers sched_registry) e = Some m \<Longrightarrow> m_requestBlocks m = fmempty \<and> m_pendingAllocations m = fmempty"
  by (rule NewRegistry_fresh [OF sched_registry_new])

lemma sched_new_state: "w_state (s_world (sched_new n t)) = NewRequestLifecycleStateManager sched_registry NewMetrics"
  by (simp add: sched_new_def NewScheduler_def sched_world_def Let_def)

lemma sched_new_inv: "sm_inv (w_state (s_world (sched_new n t)))"
  unfolding sched_new_state
  by (rule sm_inv_new [OF reachable_inv [OF reachable.init [OF sched_registry_new] sched_small] sched_managers])

lemma sched_new_queues: "has_queues (sched_new n t)" "routed (sched_new n t)"
  by (simp_all add: sched_new_def NewScheduler_queues)

lemma sched_ids: "ExecutorIDs sched_registry = [''a'']"
  by code_simp

lemma sched_has: "has_key (r_managers sched_registry) ''a''"
  by code_simp

lemma sched_room:
  assumes "length (rq_TokenIDs req) < 2 ^ 31"
  shows "match_room req (w_state (s_world (sched_new n t)))"
proof -
  have t: "r_pendingTransfers sched_registry = fmempty"
    by (rule NewRegistry_inv(4) [OF sched_registry_new sched_small])
  then have "pins sched_registry = (\<lambda>_. {#})" "reserved sched_registry = (\<lambda>_. {#})"
    by (simp_all add: pins_def reserved_def fun_eq_iff)
  then show ?thesis
    using sched_managers assms unfolding sched_new_state
    by (auto simp: match_room_def NewRequestLifecycleStateManager_def refs_room_def refs_def)
qed

subsection \<open>One request admitted\<close>

definition one_admitted :: "u32 \<Rightarrow> scheduler" where
  "one_admitted tokens = the (admit (sched_request ''A'' [1, 2] 0) (sched_new tokens (\<lambda>_. 0)))"

lemma one_admitted:
  "\<exists>rq work. sm_inv (w_state (s_world (one_admitted n))) \<and> has_queues (one_admitted n) \<and> routed (one_admitted n) \<and>
     same_setup (sched_new n (\<lambda>_. 0)) (one_admitted n) \<and> requestsOf (one_admitted n) = fmupd ''A'' rq fmempty \<and>
     rq_RequestId rq = ''A'' \<and> rq_ExecutorID rq = ''a'' \<and> rq_TokenIDs rq = [1, 2] \<and> rq_PromptTokens rq = 2 \<and> rq_MaxTokens rq = 4 \<and>
     rq_GeneratedTokens rq = 0 \<and> rq_Deadline rq = 0 \<and> rq_Phase rq = RequestPhasePrefillReady \<and> unat (rq_ComputedTokens rq) < 2 \<and>
     sub_room2 ''A'' (w_state (s_world (one_admitted n))) \<and> joined work (sched_new n (\<lambda>_. 0)) (one_admitted n) \<and> prefill_item work \<and>
     wk_ExecutorID work = ''a'' \<and> wk_TokenCntTotal work = 2"
proof -
  let ?req = "sched_request ''A'' [1, 2] 0" and ?s = "sched_new n (\<lambda>_. 0)"
  let ?st = "w_state (s_world ?s)"
  have f: "rq_TokenIDs ?req = [1, 2]" "rq_PromptTokens ?req = 2" "rq_RequestId ?req = ''A''" "rq_ExecutorID ?req = ''a''"
    "rq_MaxTokens ?req = 4" "rq_GeneratedTokens ?req = 0" "rq_Deadline ?req = 0"
    by (simp_all add: sched_request_def demo_request_def)
  have b: "bound_executor ?req ?st = ''a''" "may_bind ?req ?st"
    using f(4) sched_has by (simp_all add: bound_executor_def may_bind_def sched_new_state NewRequestLifecycleStateManager_def)
  have a: "admits w ?s" if "wk_Phase w = WorkPhasePrefill" "wk_ExecutorID w = ''a''" "wk_TokenCntTotal w = 2" for w
    using that by (simp add: admits_def sched_new_def NewScheduler_def sched_conf_def demo_conf_def Let_def sched_world_def
        NewRequestLifecycleStateManager_def sched_ids NewPrefillQueue_def queueLength_def pq_AvailableSpace_def)
  have r: "requestsOf ?s = fmempty"
    by (simp add: sched_new_state NewRequestLifecycleStateManager_def)
  obtain s1 cache work where "admit ?req ?s = Some s1" "sm_inv (w_state (s_world s1))" "has_queues s1" "routed s1" "same_setup ?s s1"
    "requestsOf s1 = fmupd ''A'' (?req\<lparr>rq_Phase := RequestPhasePrefillReady, rq_ExecutorID := ''a'',
      rq_Cache := Some cache, rq_ComputedTokens := pm_CachedTokens cache\<rparr>) (requestsOf ?s)"
    "unat (pm_CachedTokens cache) < length [1 :: u32, 2]" "sub_room2 ''A'' (w_state (s_world s1))"
    "joined work ?s s1" "prefill_item work" "wk_ExecutorID work = ''a''" "wk_TokenCntTotal work = of_nat (length [1 :: u32, 2])"
    using admit_ok [of ?s ?req, OF sched_new_inv sched_new_queues] r b a f sched_room [of ?req n "\<lambda>_. 0"] by auto
  then show ?thesis
    using f r unfolding one_admitted_def
    by (intro exI [of _ "?req\<lparr>rq_Phase := RequestPhasePrefillReady, rq_ExecutorID := ''a'', rq_Cache := Some cache,
      rq_ComputedTokens := pm_CachedTokens cache\<rparr>"] exI [of _ work] conjI) simp_all
qed

end
