(* ===== verification/Sched_Properties.thy ===== *)
theory Sched_Properties
  imports Sched_Demo
begin

text \<open>
  The properties of the scheduler: what a batch may contain, where work goes, how executors are
  chosen, and what an executor event does.
\<close>

subsection \<open>Batches\<close>


lemma one_admitted_steady: "steady (s_world (one_admitted n))"
proof -
  have "w_clock (s_world (one_admitted n)) = (\<lambda>_. 0)"
    using one_admitted [of n] by (auto simp: same_setup_def sched_new_def NewScheduler_def sched_world_def Let_def)
  then show ?thesis
    by (simp add: steady_def)
qed

lemma one_admitted_queues: "has_queues (one_admitted n)" "routed (one_admitted n)" "sm_inv (w_state (s_world (one_admitted n)))"
    "sub_room2 ''A'' (w_state (s_world (one_admitted n)))" "s_executorIDs (one_admitted n) = [''a'']"
    "s_batchBudget (one_admitted n) = s_batchBudget (sched_new n (\<lambda>_. 0))"
  using one_admitted [of n]
  by (auto simp: same_setup_def sched_new_def NewScheduler_def sched_world_def Let_def NewRequestLifecycleStateManager_def sched_ids)



text \<open>
  C21: one scheduling round for an executor loses and duplicates nothing: every work that waited for it
  still waits, or is in the one batch that was appended to its channel, or belongs to a request that has
  ended; the submitted items are bound to that executor and ready for the wire; no other executor's work
  is touched, and a refused batch leaves the channels alone.
\<close>

theorem round_conserves_work:
  assumes "patchExecute ctx choice e s = Some s1" and "routed s" and "has_queues s"
  shows "routed s1 \<and> has_queues s1 \<and> (\<exists>items D.
    ids (waiting s e) = ids (waiting s1 e) + ids (mset items) + ids D \<and> all_ended (requestsOf s1) D \<and>
    (\<forall>k. k \<noteq> e \<longrightarrow> waiting s1 k = waiting s k) \<and> (\<forall>w \<in> set items. wk_ExecutorID w = e \<and> sendable w) \<and>
    (if items = [] then s_executorManager s1 = s_executorManager s
     else \<exists>b. bt_Items b = items \<and> bt_ExecutorID b = e \<and> bt_BatchSize b = of_nat (length items) \<and>
       submitted b (s_executorManager s) (s_executorManager s1)))"
proof -
  consider "accounted s e [] s1" "s_executorManager s1 = s_executorManager s"
    | b where "accounted s e (bt_Items b) s1" "submitted b (s_executorManager s) (s_executorManager s1)" "bt_ExecutorID b = e"
        "bt_Items b \<noteq> []" "bt_BatchSize b = of_nat (length (bt_Items b))" "\<forall>w \<in> set (bt_Items b). item_of e w \<and> sendable w"
    using patchExecute_spec [OF assms] by blast
  then show ?thesis
  proof cases
    case 1
    then show ?thesis
      using patchExecute_spec [OF assms] by (intro conjI exI [of _ "[]"]) (auto simp: accounted_def)
  next
    case 2
    obtain D where D: "ids (waiting s e) = ids (waiting s1 e) + ids (mset (bt_Items b)) + ids D" "all_ended (requestsOf s1) D"
      using 2(1) by (auto simp: accounted_def)
    moreover have "\<forall>w \<in> set (bt_Items b). wk_ExecutorID w = e \<and> sendable w"
      using 2(6) by (auto simp: item_of_def)
    ultimately show ?thesis
      using patchExecute_spec [OF assms] 2 by (intro conjI exI [of _ "bt_Items b"] exI [of _ D]) (auto simp: accounted_def)
  qed
qed

theorem round_conserves_work_witness:
  "\<exists>s1. patchExecute None True ''a'' (one_admitted 8) = Some s1 \<and> routed s1 \<and>
     map_option (map (\<lambda>b. map wk_RequestId (bt_Items b))) (fmlookup (em_batchChans (s_executorManager s1)) ''a'') = Some [[''A'']]"
proof -
  have "map_option (\<lambda>s1. map_option (map (\<lambda>b. map wk_RequestId (bt_Items b))) (fmlookup (em_batchChans (s_executorManager s1)) ''a''))
      (patchExecute None True ''a'' (one_admitted 8)) = Some (Some [[''A'']])"
    by code_simp
  then obtain s1 where s1: "patchExecute None True ''a'' (one_admitted 8) = Some s1"
      "map_option (map (\<lambda>b. map wk_RequestId (bt_Items b))) (fmlookup (em_batchChans (s_executorManager s1)) ''a'') = Some [[''A'']]"
    by auto
  show ?thesis
    by (intro exI [of _ s1] conjI s1 conjunct1 [OF round_conserves_work [OF s1(1) one_admitted_queues(2,1)]])
qed



subsection \<open>Prefill in chunks\<close>

text \<open>
  C23: when a long prefill is split, the chunk and the rest partition its tokens in order; the rest is
  not kept, but the work item that the executor's report of the chunk brings about is that rest: the same
  tokens, offset and count.
\<close>

theorem chunk_continuation:
  assumes "splitPrefillChunk w t = Some (chunk, Some remnant)" and "wk_Phase w = WorkPhasePrefill"
    and "wk_PrefillOffset w = rq_ComputedTokens rq" and "wk_NumNewTokens w = rq_PromptTokens rq - rq_ComputedTokens rq"
    and "wk_TokenIDs w = drop (unat (rq_ComputedTokens rq)) (take (unat (rq_PromptTokens rq)) (rq_TokenIDs rq))"
    and "unat (rq_ComputedTokens rq) \<le> unat (rq_PromptTokens rq)" and "unat (rq_PromptTokens rq) \<le> length (rq_TokenIDs rq)"
    and "ev_Type ev = EventTypePrefillChunk" and "us_InputTokens (ev_Usage ev) = wk_NumNewTokens chunk"
  shows "length (wk_TokenIDs chunk) = unat (wk_NumNewTokens chunk) \<and> wk_NumNewTokens chunk = t \<and>
    (\<exists>rq' ev' item. applyEvent now uuid ev rq = Some (rq', ev', [item]) \<and> wk_TokenIDs w = wk_TokenIDs chunk @ wk_TokenIDs item \<and>
       wk_TokenIDs item = wk_TokenIDs remnant \<and> wk_PrefillOffset item = wk_PrefillOffset remnant \<and>
       wk_NumNewTokens item = wk_NumNewTokens remnant \<and> wk_Phase item = wk_Phase remnant)"
proof -
  let ?c = "rq_ComputedTokens rq" and ?p = "rq_PromptTokens rq"
  have n: "unat (?p - ?c) = unat ?p - unat ?c"
    using assms(6) by (simp add: unat_sub word_le_nat_alt)
  have w: "prefill_item w"
    using assms(2,4,5,7) n by (simp add: prefill_item_def)
  have sp: "prefill_item chunk" "chunk = w\<lparr>wk_NumNewTokens := min (wk_NumNewTokens w) t, wk_TokenIDs := wk_TokenIDs chunk\<rparr>"
      "wk_TokenIDs w = wk_TokenIDs chunk @ wk_TokenIDs remnant" "t < wk_NumNewTokens w" "prefill_item remnant"
      "wk_PrefillOffset remnant = ?c + wk_NumNewTokens chunk" "wk_NumNewTokens remnant = wk_NumNewTokens w - wk_NumNewTokens chunk"
    using split_spec [OF w, of t] assms(1,3) by auto
  have t: "wk_NumNewTokens chunk = t"
    using arg_cong [OF sp(2), of wk_NumNewTokens] min.absorb2 [OF less_imp_le [OF sp(4)]] by simp
  have "unat t < unat ?p - unat ?c"
    using sp(4) assms(4) n by (simp add: word_less_nat_alt)
  then have ct: "unat (?c + t) = unat ?c + unat t" "unat (?c + t) \<le> unat ?p"
    using unat_lt_u32 [of ?p] by (simp_all add: unat_add_u32)
  have diff: "?p - (?c + t) = ?p - ?c - t"
    by simp
  have "wk_TokenIDs remnant = drop (unat t) (wk_TokenIDs w)"
    using sp(1,3) t by (simp add: prefill_item_def)
  also have "\<dots> = take (unat ?p - unat (?c + t)) (drop (unat (?c + t)) (rq_TokenIDs rq))"
    unfolding assms(5) ct(1) by (simp add: drop_take add.commute)
  finally have tok: "wk_TokenIDs remnant = take (unat ?p - unat (?c + t)) (drop (unat (?c + t)) (rq_TokenIDs rq))" .
  have "\<exists>rq' ev' item. applyEvent now uuid ev rq = Some (rq', ev', [item]) \<and> wk_TokenIDs item = wk_TokenIDs remnant \<and>
      wk_PrefillOffset item = ?c + t \<and> wk_NumNewTokens item = ?p - (?c + t) \<and> wk_Phase item = WorkPhasePrefill"
    using assms(7-9) t ct(2) tok by (simp add: applyEvent_def onPrefillChunk_def Let_def slice_Some)
  then show ?thesis
    using sp t assms(4) diff by (fastforce simp: prefill_item_def)
qed

definition chunk_request :: Request where
  "chunk_request = sched_request ''A'' [1, 2, 3, 4, 5, 6] 0"

definition chunk_work :: WorkItem where
  "chunk_work = demo_work\<lparr>wk_TokenIDs := [1, 2, 3, 4, 5, 6], wk_NumNewTokens := 6, wk_TokenCntTotal := 6\<rparr>"

theorem chunk_continuation_witness:
  "\<exists>chunk remnant rq' ev' item. splitPrefillChunk chunk_work 4 = Some (chunk, Some remnant) \<and>
     applyEvent 7 ''v'' (zero_Event\<lparr>ev_Usage := zero_Usage\<lparr>us_InputTokens := 4\<rparr>\<rparr>) chunk_request = Some (rq', ev', [item]) \<and>
     wk_TokenIDs item = [5, 6]"
proof -
  let ?remnant = "chunk_work\<lparr>wk_PrefillOffset := 4, wk_NumNewTokens := 2, wk_TokenIDs := [5, 6]\<rparr>"
  let ?chunk = "chunk_work\<lparr>wk_NumNewTokens := 4, wk_TokenIDs := [1, 2, 3, 4]\<rparr>"
  have s: "splitPrefillChunk chunk_work 4 = Some (?chunk, Some ?remnant)"
    by (simp add: splitPrefillChunk_def chunk_work_def demo_work_def WorkBudgetCost_def Let_def slice_Some slice_from_Some)
  show ?thesis
    using chunk_continuation [OF s, of chunk_request "zero_Event\<lparr>ev_Usage := zero_Usage\<lparr>us_InputTokens := 4\<rparr>\<rparr>" 7 "''v''"] s
    by (simp add: chunk_work_def chunk_request_def sched_request_def demo_request_def demo_work_def zero_Event_def) blast
qed

subsection \<open>Choosing an executor\<close>

text \<open>The executors given to unbound requests that arrive one after the other.\<close>

fun assignAll :: "Request list \<Rightarrow> scheduler \<Rightarrow> string list" where
  "assignAll [] s = []"
| "assignAll (req # reqs) s = (case AssignExecutor req s of (_, req1, s1) \<Rightarrow> rq_ExecutorID req1 # assignAll reqs s1)"

lemma assignAll_rotation:
  assumes "\<forall>req \<in> set reqs. rq_ExecutorID req = []" "s_executorIDs s \<noteq> []" "length (s_executorIDs s) < 2 ^ 64"
    "unat (s_nextExecutor s) + length reqs < 2 ^ 64"
  shows "assignAll reqs s =
    map (\<lambda>i. s_executorIDs s ! ((unat (s_nextExecutor s) + i) mod length (s_executorIDs s))) [0..<length reqs]"
  using assms
proof (induction reqs arbitrary: s)
  case (Cons req reqs)
  let ?ids = "s_executorIDs s" and ?k = "s_nextExecutor s" and ?s = "s\<lparr>s_nextExecutor := s_nextExecutor s + 1\<rparr>"
  have k: "unat (?k + 1) = unat ?k + 1"
    using Cons.prems(4) by (subst unat_add_lem [THEN iffD1]) simp_all
  have "unat (?k mod of_nat (length ?ids)) = unat ?k mod length ?ids"
    using Cons.prems(3) by (simp add: unat_mod unat_of_nat take_bit_nat_eq_self)
  then have "assignAll (req # reqs) s = ?ids ! (unat ?k mod length ?ids) # assignAll reqs ?s"
    using Cons.prems(1,2) by (simp add: AssignExecutor_def Let_def)
  also have "assignAll reqs ?s = map (\<lambda>i. ?ids ! ((unat ?k + 1 + i) mod length ?ids)) [0..<length reqs]"
    using Cons.IH [of ?s] Cons.prems k by simp
  also have "[0..<length (req # reqs)] = 0 # map Suc [0..<length reqs]"
    by (simp add: upt_conv_Cons map_Suc_upt del: upt_Suc)
  then have "?ids ! (unat ?k mod length ?ids) # map (\<lambda>i. ?ids ! ((unat ?k + 1 + i) mod length ?ids)) [0..<length reqs] =
      map (\<lambda>i. ?ids ! ((unat ?k + i) mod length ?ids)) [0..<length (req # reqs)]"
    by (simp del: upt_Suc)
  finally show ?case .
qed simp

text \<open>
  Executors are chosen in rotation: of as many unbound requests as there are executors, arriving
  one after the other from any state of the counter short of its wrap-around, each executor gets exactly
  one.
\<close>

theorem round_robin:
  assumes "\<forall>req \<in> set reqs. rq_ExecutorID req = []" and "length reqs = length (s_executorIDs s)"
    and "unat (s_nextExecutor s) + length reqs < 2 ^ 64"
  shows "assignAll reqs s = rotate (unat (s_nextExecutor s)) (s_executorIDs s) \<and> mset (assignAll reqs s) = mset (s_executorIDs s)"
proof (cases "s_executorIDs s = []")
  case False
  then have "assignAll reqs s =
      map (\<lambda>i. s_executorIDs s ! ((unat (s_nextExecutor s) + i) mod length (s_executorIDs s))) [0..<length (s_executorIDs s)]"
    using assignAll_rotation [OF assms(1)] assms(2,3) by simp
  also have "\<dots> = rotate (unat (s_nextExecutor s)) (s_executorIDs s)"
    by (rule nth_equalityI) (simp_all add: nth_rotate)
  finally have r: "assignAll reqs s = rotate (unat (s_nextExecutor s)) (s_executorIDs s)" .
  have "mset (rotate1 xs) = mset xs" for xs :: "string list"
    by (cases xs) simp_all
  then have "mset (rotate k xs) = mset xs" for k and xs :: "string list"
    by (induction k) simp_all
  with r show ?thesis
    by simp
qed (use assms(2) in simp)

definition two_executors :: scheduler where
  "two_executors = (sched_new 8 (\<lambda>_. 0))\<lparr>s_executorIDs := [''a'', ''b''], s_nextExecutor := 5\<rparr>"

theorem round_robin_witness: "assignAll (replicate 2 (demo_request\<lparr>rq_ExecutorID := []\<rparr>)) two_executors = [''b'', ''a'']"
proof -
  have "rotate 5 [''a'', ''b''] = [''b'', ''a'']"
    by code_simp
  then show ?thesis
    using round_robin [of "replicate 2 (demo_request\<lparr>rq_ExecutorID := []\<rparr>)" two_executors] by (simp add: two_executors_def)
qed

subsection \<open>Admission\<close>

text \<open>
  C24: \<^verbatim>\<open>Enqueue\<close> admits a work item exactly when its executor has the queue of its kind and that
  queue reports space; the item is then last in that queue and nothing else changes.  Otherwise the
  caller gets the reason, the queues stay as they were, and the request has left the table with that
  reason delivered to its subscriber.
\<close>

theorem enqueue_contract:
  assumes "sm_inv (w_state (s_world s))" and "has_queues s" and "prefill_item work \<or> decode_item work"
    and "sub_room (wk_RequestId work) (w_state (s_world s))"
  shows "\<exists>err s1. sched_Enqueue work s = Some (err, s1) \<and> has_queues s1 \<and> sm_inv (w_state (s_world s1)) \<and>
    (if admits work s
     then err = None \<and> requestsOf s1 = requestsOf s \<and> joined (work\<lparr>wk_EnqueuedAt := w_now (s_world s)\<rparr>) s s1
     else CodeOf err = (if wk_ExecutorID work \<in> set (s_executorIDs s) then CodeQueueFull else CodeExecutorUnavailable) \<and>
       waiting s1 = waiting s \<and> gone (wk_RequestId work) (w_state (s_world s1)) \<and>
       (\<exists>now uuid. last_event (failEvent now uuid (wk_RequestId work) err) (wk_RequestId work) (w_state (s_world s)) (w_state (s_world s1))))"
proof (cases "admits work s")
  case True
  obtain s1 m where "sched_Enqueue work s = Some (None, s1)" "has_queues s1" "joined (stamped work s) s s1" "requestsOf s1 = requestsOf s"
      "w_state (s_world s1) = (w_state (s_world s))\<lparr>sm_metrics := m\<rparr>"
    using sched_Enqueue_ok [OF assms(2) True] by blast
  then show ?thesis
    using True assms(1) by (simp add: stamped_def)
next
  case False
  then show ?thesis
    using sched_Enqueue_gone [OF assms(2,3) False assms(1,4)] by (elim exE conjE) auto
qed

lemma one_admitted_room: "sub_room ''A'' (w_state (s_world (one_admitted n)))"
  unfolding sub_room_def chan_room_def
proof (intro allI impI)
  fix c assume c: "fmlookup (sm_subscribeCh (w_state (s_world (one_admitted n)))) ''A'' = Some c"
  obtain ch where "fmlookup (sm_channels (w_state (s_world (one_admitted n)))) c = Some ch" "\<not> ch_closed ch"
    using subscribed_open(1) [OF one_admitted_queues(3) c] by blast
  then show "\<exists>ch. fmlookup (sm_channels (w_state (s_world (one_admitted n)))) c = Some ch \<and> \<not> ch_closed ch \<and> length (ch_buf ch) < chan_cap"
    using one_admitted_queues(4) [of n] c by (auto simp: sub_room2_def)
qed

theorem enqueue_contract_witness:
  "\<exists>err s1. sched_Enqueue (demo_work\<lparr>wk_RequestId := ''A'', wk_ExecutorID := ''z''\<rparr>) (one_admitted 8) = Some (err, s1) \<and>
     CodeOf err = CodeExecutorUnavailable \<and> gone ''A'' (w_state (s_world s1))"
proof -
  let ?w = "demo_work\<lparr>wk_RequestId := ''A'', wk_ExecutorID := ''z''\<rparr>"
  have n: "\<not> admits ?w (one_admitted 8)"
    using has_queuesD(1,2) [OF one_admitted_queues(1) [of 8], of "''z''"] one_admitted_queues(5) [of 8]
    by (simp add: admits_def demo_work_def)
  have "prefill_item ?w"
    by (simp add: prefill_item_def demo_work_def)
  moreover have w: "wk_RequestId ?w = ''A''" "wk_ExecutorID ?w = ''z''"
    by simp_all
  ultimately have c: "prefill_item ?w \<or> decode_item ?w" "sub_room (wk_RequestId ?w) (w_state (s_world (one_admitted 8)))"
    using one_admitted_room [of 8] by simp_all
  obtain err s1 where "sched_Enqueue ?w (one_admitted 8) = Some (err, s1)"
      "CodeOf err = (if ''z'' \<in> set (s_executorIDs (one_admitted 8)) then CodeQueueFull else CodeExecutorUnavailable)"
      "gone ''A'' (w_state (s_world s1))"
    using enqueue_contract [OF one_admitted_queues(3,1) c] unfolding w if_not_P [OF n] by (elim exE conjE)
  then show ?thesis
    using one_admitted_queues(5) [of 8] by (intro exI [of _ err] exI [of _ s1]) simp
qed

subsection \<open>Events\<close>


definition prefill_report :: "bool \<Rightarrow> Event" where
  "prefill_report finished = zero_Event\<lparr>ev_WorkId := ''w'', ev_RequestId := ''A'', ev_ExecutorId := ''a'', ev_Type := EventTypePrefillFinished,
     ev_TokenId := 9, ev_Done := finished, ev_Usage := \<lparr>us_InputTokens = 2, us_OutputTokens = 1, us_TotalTokens = 3\<rparr>\<rparr>"


text \<open>
  C26: the report of a finished prefill always brings about a decode item, even when it says that the
  request is done or when its token reaches the request's limit.  In the first case the blocks of the
  request are freed while its decode item waits and may still be scheduled.
\<close>

theorem finished_prefill_goes_on:
  assumes "sm_inv (w_state (s_world s))" and "has_queues s" and "sub_room2 (ev_RequestId event) (w_state (s_world s))"
    and "fmlookup (requestsOf s) (ev_RequestId event) = Some rq" and "ev_ExecutorId event = rq_ExecutorID rq"
    and "ev_Type event = EventTypePrefillFinished"
    and "case fmlookup (s_decode s) (rq_ExecutorID rq) of None \<Rightarrow> False | Some q \<Rightarrow> 0 < dq_AvailableSpace q"
  shows "\<exists>s1 work rq'. handleEvent event s = Some (None, s1) \<and> work \<in># waiting s1 (rq_ExecutorID rq) \<and>
    wk_Phase work = WorkPhaseDecode \<and> wk_RequestId work = ev_RequestId event \<and>
    fmlookup (requestsOf s1) (ev_RequestId event) = Some rq' \<and> rq_Phase rq' = RequestPhaseDecodeReady \<and>
    rq_MaxTokens rq' = rq_MaxTokens rq \<and> rq_GeneratedTokens rq' = rq_GeneratedTokens rq + us_OutputTokens (ev_Usage event) \<and>
    (ev_Done event \<longrightarrow> (\<forall>m. fmlookup (r_managers (registryOf s1)) (rq_ExecutorID rq) = Some m \<longrightarrow>
       \<not> has_key (m_requestBlocks m) (ev_RequestId event))) \<and>
    (\<not> expired now rq \<longrightarrow> sm_CanSchedule now uuid work (w_state (s_world s1)) = Some (True, w_state (s_world s1)))"
proof -
  let ?now = "w_now (s_world s)" and ?uuid = "w_fresh (s_world s)"
  have ev: "eventFor event rq = event"
    using assms(5) by (simp add: eventFor_def)
  obtain rq' ev' where app: "applyEvent ?now ?uuid (eventFor event rq) rq = Some (rq', ev', [decodeItem ?now ?uuid event rq'])"
      "rq_Phase rq' = RequestPhaseDecodeReady" "rq_MaxTokens rq' = rq_MaxTokens rq" "rq_Deadline rq' = rq_Deadline rq"
      "rq_GeneratedTokens rq' = rq_GeneratedTokens rq + us_OutputTokens (ev_Usage event)" "ev_Done ev' = ev_Done event"
      "rq_ExecutorID rq' = rq_ExecutorID rq"
    unfolding ev using assms(6) by (simp add: applyEvent_def onPrefillFinished_def Let_def)
  let ?work = "decodeItem ?now ?uuid event rq'"
  have "admits ?work s"
    using assms(7) app(7) by (simp add: admits_def decodeItem_def)
  then obtain err s1 t where s1: "handleEvent event s = Some (err, s1)" "requestsOf s1 = fmupd (ev_RequestId event) rq' (requestsOf s)"
      "waiting s1 = (waiting s)(rq_ExecutorID rq := waiting s (rq_ExecutorID rq) + {# ?work\<lparr>wk_EnqueuedAt := t\<rparr> #})"
      "ev_Done ev' \<longrightarrow> (\<forall>m. fmlookup (r_managers (registryOf s1)) (rq_ExecutorID rq) = Some m \<longrightarrow>
          \<not> has_key (m_requestBlocks m) (ev_RequestId event))" "err = None"
    using handleEvent_spec [OF assms(1,2,4) app(1) assms(3)] assms(5) by auto
  have w: "wk_Phase (?work\<lparr>wk_EnqueuedAt := t\<rparr>) = WorkPhaseDecode" "wk_RequestId (?work\<lparr>wk_EnqueuedAt := t\<rparr>) = ev_RequestId event"
    by (simp_all add: decodeItem_def)
  moreover have "sm_CanSchedule now uuid (?work\<lparr>wk_EnqueuedAt := t\<rparr>) (w_state (s_world s1)) = Some (True, w_state (s_world s1))"
    if "\<not> expired now rq"
    using that s1(2) w(2) app(2,4) by (auto simp: sm_CanSchedule_def expired_def)
  ultimately show ?thesis
    using s1 app(2,3,5,6) by (intro exI [of _ s1] exI [of _ "?work\<lparr>wk_EnqueuedAt := t\<rparr>"] exI [of _ rq']) simp
qed

theorem finished_prefill_goes_on_witness:
  "\<exists>s1 work. handleEvent (prefill_report True) (one_admitted 8) = Some (None, s1) \<and> wk_Phase work = WorkPhaseDecode \<and>
     sm_CanSchedule 0 ''v'' work (w_state (s_world s1)) = Some (True, w_state (s_world s1)) \<and>
     (\<forall>m. fmlookup (r_managers (registryOf s1)) ''a'' = Some m \<longrightarrow> \<not> has_key (m_requestBlocks m) ''A'')"
proof -
  obtain rq work where rq: "fmlookup (requestsOf (one_admitted 8)) ''A'' = Some rq" "rq_ExecutorID rq = ''a''" "rq_Deadline rq = 0"
     "joined work (sched_new 8 (\<lambda>_. 0)) (one_admitted 8)" "prefill_item work"
    using one_admitted [of 8] by auto
  obtain q where q: "fmlookup (s_decode (one_admitted 8)) ''a'' = Some q"
    using has_queuesD(3) [OF one_admitted_queues(1) [of 8], of "''a''"] one_admitted_queues(5) [of 8] by auto
  have "map_option (\<lambda>q. dq_AvailableSpace q) (fmlookup (s_decode (one_admitted 8)) ''a'') = Some 2"
    by code_simp
  then have "0 < dq_AvailableSpace q"
    using q by simp
  moreover have e: "ev_RequestId (prefill_report True) = ''A''" "ev_ExecutorId (prefill_report True) = rq_ExecutorID rq"
      "ev_Type (prefill_report True) = EventTypePrefillFinished" "ev_Done (prefill_report True)" "\<not> expired 0 rq"
    using rq by (simp_all add: prefill_report_def expired_def)
  moreover have r: "sub_room2 (ev_RequestId (prefill_report True)) (w_state (s_world (one_admitted 8)))"
      "fmlookup (requestsOf (one_admitted 8)) (ev_RequestId (prefill_report True)) = Some rq"
    using one_admitted_queues(4) [of 8] rq(1) e(1) by simp_all
  ultimately have d: "case fmlookup (s_decode (one_admitted 8)) (rq_ExecutorID rq) of None \<Rightarrow> False | Some q \<Rightarrow> 0 < dq_AvailableSpace q"
    using q rq(2) by simp
  obtain s1 work where "handleEvent (prefill_report True) (one_admitted 8) = Some (None, s1)" "wk_Phase work = WorkPhaseDecode"
      "ev_Done (prefill_report True) \<longrightarrow> (\<forall>m. fmlookup (r_managers (registryOf s1)) (rq_ExecutorID rq) = Some m \<longrightarrow>
         \<not> has_key (m_requestBlocks m) ''A'')"
      "\<not> expired 0 rq \<longrightarrow> sm_CanSchedule 0 ''v'' work (w_state (s_world s1)) = Some (True, w_state (s_world s1))"
    using finished_prefill_goes_on [OF one_admitted_queues(3,1) r e(2,3) d, of 0 "''v''"] unfolding e(1) by (elim exE conjE)
  then show ?thesis
    using rq(2) e(4,5) by (intro exI [of _ s1] exI [of _ work]) simp
qed

end
