(* ===== verification/Lock_Free_Queue.thy ===== *)
theory Lock_Free_Queue
  imports Kv_Model
begin

unbundle bit_operations_syntax

text \<open>
  The ring buffer of \<^verbatim>\<open>internal/scheduler/queue_lock_free.go\<close>, which the scheduler does not use yet,
  and its refinement of a bounded queue.  Positions only grow and wrap at 64 bits; the size is a power
  of two, so that masking a position gives its index.  \<open>None\<close> is a panic.
\<close>

subsection \<open>The ring\<close>

record lockFreeQueue =
  lf_buf :: "WorkItem option list"
  lf_size :: u64
  lf_writePos :: u64
  lf_reclaimPos :: u64
  lf_round :: duration

definition lf_Length :: "lockFreeQueue \<Rightarrow> u64" where
  "lf_Length q = lf_writePos q - lf_reclaimPos q"

definition lf_AvailableSpace :: "lockFreeQueue \<Rightarrow> u64" where
  "lf_AvailableSpace q = lf_size q - (lf_writePos q - lf_reclaimPos q)"

definition lf_Enqueue :: "WorkItem option \<Rightarrow> lockFreeQueue \<Rightarrow> (error option \<times> lockFreeQueue) option" where
  "lf_Enqueue task q =
     (if lf_AvailableSpace q = 0 then Some (Some (OtherError ''lockFreeQueue is full''), q)
      else let i = unat (lf_writePos q AND (lf_size q - 1))
           in if i < length (lf_buf q)
              then Some (None, q\<lparr>lf_buf := (lf_buf q)[i := task], lf_writePos := lf_writePos q + 1\<rparr>)
              else None)"

text \<open>
  The second case of the result shares the ring's array in the source, so that a later \<^verbatim>\<open>Enqueue\<close>
  shows in it; here it is the contents at the time of the call.
\<close>

definition lf_Dequeue :: "u64 \<Rightarrow> lockFreeQueue \<Rightarrow> (WorkItem option list \<times> lockFreeQueue) option" where
  "lf_Dequeue n0 q = do {
     let remainTasks = lf_writePos q - lf_reclaimPos q;
     let n = (if remainTasks < n0 then remainTasks else n0);
     let pos = lf_reclaimPos q AND (lf_size q - 1);
     taskList \<leftarrow> (if lf_size q - 1 < pos + n
       then do {
         upper \<leftarrow> slice_from (lf_buf q) (unat pos);
         lower \<leftarrow> slice (lf_buf q) 0 (unat (n - (lf_size q - pos)));
         Some (upper @ lower)
       }
       else slice (lf_buf q) (unat pos) (unat (pos + n)));
     Some (taskList, q\<lparr>lf_reclaimPos := lf_reclaimPos q + n\<rparr>)
   }"

definition lf_Pop :: "lockFreeQueue \<Rightarrow> (WorkItem option \<times> lockFreeQueue) option" where "lf_Pop q = None"
definition lf_Peek :: "lockFreeQueue \<Rightarrow> (WorkItem option \<times> lockFreeQueue) option" where "lf_Peek q = None"

subsection \<open>The queue it implements\<close>

definition lf_inv :: "lockFreeQueue \<Rightarrow> bool" where
  "lf_inv q \<longleftrightarrow> (\<exists>k < 64. lf_size q = 2 ^ k \<and> length (lf_buf q) = 2 ^ k \<and> unat (lf_Length q) \<le> 2 ^ k)"

definition lf_abs :: "lockFreeQueue \<Rightarrow> WorkItem option list" where
  "lf_abs q = take (unat (lf_Length q)) (rotate (unat (lf_reclaimPos q)) (lf_buf q))"

lemma mask_index:
  assumes "k < 64"
  shows "unat ((x :: u64) AND (2 ^ k - 1)) = unat x mod 2 ^ k"
proof -
  have "x AND (2 ^ k - 1) = take_bit k x"
    by (simp add: take_bit_eq_mask mask_eq_exp_minus_1)
  then show ?thesis
    by (simp only: unsigned_take_bit_eq) (simp add: take_bit_eq_mod)
qed

lemma unat_pow:
  assumes "k < 64"
  shows "unat (2 ^ k :: u64) = 2 ^ k"
proof -
  have "(2 :: nat) ^ k < 2 ^ 64"
    using assms by (intro power_strict_increasing) simp_all
  then have "unat (of_nat (2 ^ k) :: u64) = 2 ^ k"
    by (simp add: unat_of_nat del: of_nat_power of_nat_numeral)
  then show ?thesis
    by simp
qed

text \<open>Wrapped positions have the index of the unwrapped ones.\<close>

lemma unat_add_mod:
  assumes "k < 64"
  shows "unat ((x :: u64) + y) mod 2 ^ k = (unat x + unat y) mod 2 ^ k"
proof -
  have "(2 :: nat) ^ k dvd 2 ^ 64"
    using assms by (intro le_imp_power_dvd) simp
  then show ?thesis
    by (simp add: unat_word_ariths mod_mod_cancel)
qed

lemma rotate_wrap:
  assumes "k < 64" "length xs = 2 ^ k"
  shows "rotate (unat ((x :: u64) + y)) xs = rotate (unat x + unat y) xs"
  by (subst (1 2) rotate_conv_mod) (simp add: assms unat_add_mod)

lemma rotate_update:
  assumes "j < length xs"
  shows "rotate r (xs[(r + j) mod length xs := x]) = (rotate r xs)[j := x]"
proof (rule nth_equalityI)
  fix i assume i: "i < length (rotate r (xs[(r + j) mod length xs := x]))"
  let ?ks = "rotate r [0..<length xs]"
  have lt: "k mod length xs < length xs" for k
    using assms by (intro mod_less_divisor) linarith
  then have "?ks ! i = (r + i) mod length xs" "?ks ! j = (r + j) mod length xs" "distinct ?ks"
    using i assms by (simp_all add: nth_rotate)
  then have "(r + i) mod length xs = (r + j) mod length xs \<longleftrightarrow> i = j"
    using nth_eq_iff_index_eq [of ?ks i j] i assms by simp
  moreover have "(r + i) mod length xs < length xs"
    using assms by (intro mod_less_divisor) linarith
  ultimately show "rotate r (xs[(r + j) mod length xs := x]) ! i = (rotate r xs)[j := x] ! i"
    using i assms by (cases "i = j") (simp_all add: nth_rotate)
qed simp

lemma lf_space:
  assumes "lf_inv q"
  shows "unat (lf_AvailableSpace q) = length (lf_buf q) - length (lf_abs q)" "length (lf_abs q) = unat (lf_Length q)"
    "length (lf_abs q) \<le> length (lf_buf q)" "lf_AvailableSpace q = 0 \<longleftrightarrow> length (lf_abs q) = length (lf_buf q)"
proof -
  obtain k where k: "k < 64" "lf_size q = 2 ^ k" "length (lf_buf q) = 2 ^ k" "unat (lf_Length q) \<le> 2 ^ k"
    using assms by (auto simp: lf_inv_def)
  show l: "length (lf_abs q) = unat (lf_Length q)" "length (lf_abs q) \<le> length (lf_buf q)"
    using k by (simp_all add: lf_abs_def)
  have "lf_Length q \<le> lf_size q"
    using k unat_pow by (simp add: word_le_nat_alt)
  then show u: "unat (lf_AvailableSpace q) = length (lf_buf q) - length (lf_abs q)"
    using k l by (simp add: lf_AvailableSpace_def lf_Length_def [symmetric] unat_sub unat_pow)
  then show "lf_AvailableSpace q = 0 \<longleftrightarrow> length (lf_abs q) = length (lf_buf q)"
    using l(2) by (metis diff_is_0_eq le_antisym unat_eq_0 order_refl)
qed

lemma lf_Enqueue_refines:
  assumes "lf_inv q"
  shows "if length (lf_abs q) < length (lf_buf q)
    then \<exists>q'. lf_Enqueue x q = Some (None, q') \<and> lf_inv q' \<and> lf_abs q' = lf_abs q @ [x] \<and> length (lf_buf q') = length (lf_buf q)
    else \<exists>err. lf_Enqueue x q = Some (Some err, q)"
proof (cases "length (lf_abs q) < length (lf_buf q)")
  case True
  obtain k where k: "k < 64" "lf_size q = 2 ^ k" "length (lf_buf q) = 2 ^ k"
    using assms by (auto simp: lf_inv_def)
  let ?r = "unat (lf_reclaimPos q)" and ?l = "unat (lf_Length q)"
  let ?i = "unat (lf_writePos q AND (lf_size q - 1))"
  have l: "?l < 2 ^ k"
    using True lf_space(2) [OF assms] k(3) by simp
  have "lf_writePos q = lf_reclaimPos q + lf_Length q"
    by (simp add: lf_Length_def)
  then have i: "?i = (?r + ?l) mod 2 ^ k"
    unfolding k(2) mask_index [OF k(1)] by (metis unat_add_mod [OF k(1)])
  then have "?i < length (lf_buf q)"
    using k(3) by simp
  moreover have "lf_AvailableSpace q \<noteq> 0"
    using lf_space(4) [OF assms] True by simp
  ultimately have e: "lf_Enqueue x q = Some (None, q\<lparr>lf_buf := (lf_buf q)[?i := x], lf_writePos := lf_writePos q + 1\<rparr>)"
      (is "_ = Some (None, ?q)")
    by (simp add: lf_Enqueue_def Let_def)
  have len: "unat (lf_Length ?q) = Suc ?l"
  proof -
    have "lf_Length ?q = lf_Length q + 1"
      by (simp add: lf_Length_def)
    moreover have "(2 :: nat) ^ k < 2 ^ 64"
      using k(1) by (intro power_strict_increasing) simp_all
    ultimately show ?thesis
      using l by (simp add: unat_word_ariths)
  qed
  have "lf_abs ?q = take (Suc ?l) ((rotate ?r (lf_buf q))[?l := x])"
    using rotate_update [of ?l "lf_buf q" ?r x] i l k(3) unfolding lf_abs_def len by simp
  also have "\<dots> = lf_abs q @ [x]"
    using l k(3) by (simp add: lf_abs_def take_Suc_conv_app_nth)
  finally show ?thesis
    using True e len k l by (auto simp: lf_inv_def)
next
  case False
  then have "lf_AvailableSpace q = 0"
    using lf_space(3,4) [OF assms] by simp
  then show ?thesis
    using False by (simp add: lf_Enqueue_def)
qed

text \<open>The two slices of \<^verbatim>\<open>Dequeue\<close> are the window of \<open>m\<close> places that starts at \<open>pos\<close>.\<close>

lemma ring_window:
  fixes pos m size :: u64
  assumes k: "k < 64" "size = 2 ^ k" "length buf = 2 ^ k" and pos: "unat pos < 2 ^ k" and m: "unat m \<le> 2 ^ k"
  shows "(if size - 1 < pos + m then do {
       upper \<leftarrow> slice_from buf (unat pos); lower \<leftarrow> slice buf 0 (unat (m - (size - pos))); Some (upper @ lower) }
     else slice buf (unat pos) (unat (pos + m))) = Some (take (unat m) (rotate (unat pos) buf))"
proof -
  let ?N = "2 ^ k :: nat"
  have X: "rotate (unat pos) buf = drop (unat pos) buf @ take (unat pos) buf"
    using k(3) pos by (simp add: rotate_drop_take)
  have "(2 :: nat) ^ k \<le> 2 ^ 63"
    using k(1) by (intro power_increasing) simp_all
  then have pm: "unat (pos + m) = unat pos + unat m"
    using pos m by (intro unat_add_lem [THEN iffD1]) simp
  have last: "unat (size - 1) = ?N - 1"
    using k(1,2) by (simp add: unat_minus_one unat_pow)
  show ?thesis
  proof (cases "size - 1 < pos + m")
    case True
    then have ge: "?N \<le> unat pos + unat m"
      using last pm by (simp add: word_less_nat_alt)
    have "unat (size - pos) = ?N - unat pos"
      using pos k(1,2) by (subst unat_sub) (simp_all add: word_le_nat_alt unat_pow)
    then have "unat (m - (size - pos)) = unat m - (?N - unat pos)"
      using ge pos by (subst unat_sub) (simp_all add: word_le_nat_alt)
    moreover have "unat m - (?N - unat pos) \<le> unat pos"
      using m pos by linarith
    ultimately show ?thesis
      using True pos k(3) ge m unfolding X by (simp add: slice_from_Some slice_Some min_def)
  next
    case False
    then have "unat pos + unat m \<le> ?N - 1"
      using last pm by (simp add: word_less_nat_alt not_less)
    then have "unat pos + unat m < ?N"
      using pos by linarith
    then show ?thesis
      using False pm k(3) unfolding X by (simp add: slice_Some)
  qed
qed

lemma lf_Dequeue_refines:
  assumes "lf_inv q"
  shows "\<exists>q'. lf_Dequeue n q = Some (take (unat n) (lf_abs q), q') \<and> lf_inv q' \<and> lf_abs q' = drop (unat n) (lf_abs q) \<and>
    length (lf_buf q') = length (lf_buf q)"
proof -
  obtain k where k: "k < 64" "lf_size q = 2 ^ k" "length (lf_buf q) = 2 ^ k" "unat (lf_Length q) \<le> 2 ^ k"
    using assms by (auto simp: lf_inv_def)
  let ?N = "2 ^ k :: nat" and ?r = "unat (lf_reclaimPos q)" and ?l = "unat (lf_Length q)" and ?X = "rotate (unat (lf_reclaimPos q)) (lf_buf q)"
  define m where "m = (if lf_Length q < n then lf_Length q else n)"
  have m: "unat m = min ?l (unat n)" "unat m \<le> ?l" "unat m \<le> ?N"
    using k(4) by (auto simp: m_def word_less_nat_alt)
  define pos where "pos = lf_reclaimPos q AND (lf_size q - 1)"
  have pos: "unat pos = ?r mod ?N" "unat pos < ?N"
    unfolding pos_def k(2) mask_index [OF k(1)] by simp_all
  have X: "?X = rotate (unat pos) (lf_buf q)" "length ?X = ?N"
    using k(3) by (simp_all add: rotate_conv_mod [of ?r] pos)
  note tasks = ring_window [OF k(1-3) pos(2) m(3), folded X(1)]
  let ?q = "q\<lparr>lf_reclaimPos := lf_reclaimPos q + m\<rparr>"
  have "lf_Dequeue n q = Some (take (unat m) ?X, ?q)"
    using tasks unfolding lf_Dequeue_def lf_Length_def [symmetric] Let_def m_def [symmetric] pos_def [symmetric] by simp
  moreover have "take (unat m) ?X = take (unat n) (lf_abs q)"
    by (simp add: lf_abs_def m(1) min.commute)
  moreover have len: "unat (lf_Length ?q) = ?l - unat m"
  proof -
    have "lf_Length ?q = lf_Length q - m"
      by (simp add: lf_Length_def)
    then show ?thesis
      using m(2) by (simp add: unat_sub word_le_nat_alt)
  qed
  moreover have "lf_abs ?q = drop (unat n) (lf_abs q)"
  proof -
    have "rotate (unat (lf_reclaimPos q + m)) (lf_buf q) = rotate (unat m) ?X"
      using rotate_wrap [OF k(1,3)] by (simp add: rotate_rotate add.commute)
    then have "lf_abs ?q = take (?l - unat m) (rotate (unat m) ?X)"
      unfolding lf_abs_def len by simp
    also have "\<dots> = take (?l - unat m) (drop (unat m) ?X)"
      using X(2) m(2,3) k(4) by (cases "unat m = ?N") (auto simp: rotate_drop_take)
    also have "\<dots> = drop (unat n) (lf_abs q)"
      using m(1) by (cases "unat n \<le> ?l") (simp_all add: lf_abs_def drop_take)
    finally show ?thesis .
  qed
  ultimately show ?thesis
    using k m(2) by (auto simp: lf_inv_def)
qed

subsection \<open>Runs\<close>

datatype ring_op = RingEnqueue "WorkItem option" | RingDequeue u64

datatype ring_answer = Enqueued bool | Dequeued "WorkItem option list"

fun ring_run :: "ring_op list \<Rightarrow> lockFreeQueue \<Rightarrow> (ring_answer list \<times> lockFreeQueue) option" where
  "ring_run [] q = Some ([], q)"
| "ring_run (RingEnqueue x # ops) q = do {
     (err, q1) \<leftarrow> lf_Enqueue x q; (as, q2) \<leftarrow> ring_run ops q1; Some (Enqueued (err = None) # as, q2) }"
| "ring_run (RingDequeue n # ops) q = do {
     (xs, q1) \<leftarrow> lf_Dequeue n q; (as, q2) \<leftarrow> ring_run ops q1; Some (Dequeued xs # as, q2) }"

text \<open>A queue of at most \<open>c\<close> works.\<close>

fun fifo_run :: "nat \<Rightarrow> ring_op list \<Rightarrow> WorkItem option list \<Rightarrow> ring_answer list \<times> WorkItem option list" where
  "fifo_run c [] xs = ([], xs)"
| "fifo_run c (RingEnqueue x # ops) xs =
     (let ok = length xs < c; (as, ys) = fifo_run c ops (if ok then xs @ [x] else xs) in (Enqueued ok # as, ys))"
| "fifo_run c (RingDequeue n # ops) xs =
     (let (as, ys) = fifo_run c ops (drop (unat n) xs) in (Dequeued (take (unat n) xs) # as, ys))"

text \<open>
  C27: every sequence of \<^verbatim>\<open>Enqueue\<close> and \<^verbatim>\<open>Dequeue\<close> on the ring buffer runs without a panic and gives
  the answers of a bounded first-in first-out queue of its size, from any positions, also across their
  wrap-around at 64 bits.
\<close>

theorem ring_refines_fifo:
  assumes "lf_inv q"
  shows "\<exists>q'. ring_run ops q = Some (fst (fifo_run (length (lf_buf q)) ops (lf_abs q)), q') \<and> lf_inv q' \<and>
    lf_abs q' = snd (fifo_run (length (lf_buf q)) ops (lf_abs q))"
  using assms
proof (induction ops arbitrary: q)
  case (Cons op ops)
  show ?case
  proof (cases op)
    case (RingEnqueue x)
    obtain err q1 where q1: "lf_Enqueue x q = Some (err, q1)" "lf_inv q1" "length (lf_buf q1) = length (lf_buf q)"
        "err = None \<longleftrightarrow> length (lf_abs q) < length (lf_buf q)"
        "lf_abs q1 = (if length (lf_abs q) < length (lf_buf q) then lf_abs q @ [x] else lf_abs q)"
      using lf_Enqueue_refines [OF Cons.prems, of x] Cons.prems by (auto split: if_splits)
    show ?thesis
      using Cons.IH [OF q1(2)] q1 RingEnqueue by (auto simp: Let_def split: prod.splits)
  next
    case (RingDequeue n)
    obtain q1 where q1: "lf_Dequeue n q = Some (take (unat n) (lf_abs q), q1)" "lf_inv q1" "lf_abs q1 = drop (unat n) (lf_abs q)"
        "length (lf_buf q1) = length (lf_buf q)"
      using lf_Dequeue_refines [OF Cons.prems, of n] by blast
    show ?thesis
      using Cons.IH [OF q1(2)] q1 RingDequeue by (auto split: prod.splits)
  qed
qed simp

text \<open>A ring of two places whose positions are about to wrap.\<close>

definition wrapping_ring :: lockFreeQueue where
  "wrapping_ring = \<lparr>lf_buf = [None, None], lf_size = 2, lf_writePos = - 1, lf_reclaimPos = - 1, lf_round = 0\<rparr>"

theorem ring_refines_fifo_witness:
  "\<exists>q'. ring_run [RingEnqueue None, RingEnqueue None, RingEnqueue None, RingDequeue 3] wrapping_ring =
     Some ([Enqueued True, Enqueued True, Enqueued False, Dequeued [None, None]], q') \<and> lf_inv q' \<and> lf_abs q' = []"
proof -
  have i: "lf_inv wrapping_ring" "lf_abs wrapping_ring = []" "length (lf_buf wrapping_ring) = 2"
    by (auto simp: lf_inv_def wrapping_ring_def lf_abs_def lf_Length_def intro: exI [of _ 1])
  show ?thesis
    using ring_refines_fifo [OF i(1), of "[RingEnqueue None, RingEnqueue None, RingEnqueue None, RingDequeue 3]"]
    unfolding i(2,3) by simp
qed

end
