(* ===== verification/Kv_Utils.thy ===== *)
theory Kv_Utils
  imports Sha256 Kv_Errors
begin

unbundle bit_operations_syntax

text \<open>
  The helpers of \<^verbatim>\<open>internal/utils\<close>: version 7 UUIDs (\<^verbatim>\<open>uuid.go\<close>) and the port of an address
  (\<^verbatim>\<open>util.go\<close>), with what they use of \<^verbatim>\<open>net.SplitHostPort\<close> and \<^verbatim>\<open>strconv.Atoi\<close>.
\<close>

subsection \<open>UUIDs\<close>

text \<open>\<open>u\<close> has sixteen bytes.\<close>

definition formatUUID :: "byte list \<Rightarrow> string" where
  "formatUUID u = hex_encode (take 4 u) @ ''-'' @ hex_encode (take 2 (drop 4 u)) @ ''-'' @ hex_encode (take 2 (drop 6 u)) @ ''-'' @
     hex_encode (take 2 (drop 8 u)) @ ''-'' @ hex_encode (drop 10 u)"

text \<open>
  The clock reading in milliseconds and the outcome of \<^verbatim>\<open>rand.Read\<close> on the last ten bytes are
  arguments.
\<close>

definition GenerateUUIDv7 :: "u64 \<Rightarrow> byte list result \<Rightarrow> string result" where
  "GenerateUUIDv7 ts random =
     (let u = [ucast (drop_bit 40 ts), ucast (drop_bit 32 ts), ucast (drop_bit 24 ts), ucast (drop_bit 16 ts),
               ucast (drop_bit 8 ts), ucast ts] :: byte list
      in case random of
           Inl err \<Rightarrow> Inl err
         | Inr r \<Rightarrow>
             let u1 = u @ r;
                 u2 = u1[6 := (u1 ! 6 AND 15) OR 112];
                 u3 = u2[8 := (u2 ! 8 AND 63) OR 128]
             in Inr (formatUUID u3))"

text \<open>\<open>now\<close> is the wall clock formatted as date and time.\<close>

definition MustGenerateUUIDv7 :: "string \<Rightarrow> u64 \<Rightarrow> byte list result \<Rightarrow> string" where
  "MustGenerateUUIDv7 now ts random = (case GenerateUUIDv7 ts random of Inl err \<Rightarrow> now | Inr str \<Rightarrow> str)"

subsection \<open>Addresses\<close>

fun index_byte :: "char \<Rightarrow> string \<Rightarrow> nat option" where
  "index_byte c [] = None"
| "index_byte c (x # xs) = (if x = c then Some 0 else map_option Suc (index_byte c xs))"

fun last_index_byte :: "char \<Rightarrow> string \<Rightarrow> nat option" where
  "last_index_byte c [] = None"
| "last_index_byte c (x # xs) = (case last_index_byte c xs of
     Some i \<Rightarrow> Some (Suc i) | None \<Rightarrow> if x = c then Some 0 else None)"

definition addrErr :: "string \<Rightarrow> string \<Rightarrow> error" where
  "addrErr addr why = OtherError (''address '' @ addr @ '': '' @ why)"

definition quoted :: "char \<Rightarrow> string" where
  "quoted c = [CHR 39, c, CHR 39]"

definition SplitHostPort :: "string \<Rightarrow> (string \<times> string) result" where
  "SplitHostPort hostport = (case last_index_byte (CHR '':'') hostport of
     None \<Rightarrow> Inl (addrErr hostport ''missing port in address'')
   | Some i \<Rightarrow>
       let finish = (\<lambda>host j k.
             if CHR ''['' \<in> set (drop j hostport) then Inl (addrErr hostport (''unexpected '' @ quoted (CHR ''['') @ '' in address''))
             else if CHR '']'' \<in> set (drop k hostport) then Inl (addrErr hostport (''unexpected '' @ quoted (CHR '']'') @ '' in address''))
             else Inr (host, drop (i + 1) hostport))
       in if hd hostport = CHR ''['' then
            (case index_byte (CHR '']'') hostport of
               None \<Rightarrow> Inl (addrErr hostport (''missing '' @ quoted (CHR '']'') @ '' in address''))
             | Some e \<Rightarrow>
                 if e + 1 = length hostport then Inl (addrErr hostport ''missing port in address'')
                 else if e + 1 = i then finish (take (e - 1) (drop 1 hostport)) 1 (e + 1)
                 else if hostport ! (e + 1) = CHR '':'' then Inl (addrErr hostport ''too many colons in address'')
                 else Inl (addrErr hostport ''missing port in address''))
          else if CHR '':'' \<in> set (take i hostport) then Inl (addrErr hostport ''too many colons in address'')
          else finish (take i hostport) 0 0)"

definition is_digit :: "char \<Rightarrow> bool" where
  "is_digit c \<longleftrightarrow> CHR ''0'' \<le> c \<and> c \<le> CHR ''9''"

definition digits_value :: "string \<Rightarrow> nat" where
  "digits_value ds = foldl (\<lambda>n c. 10 * n + (of_char c - 48)) 0 ds"

definition Atoi :: "string \<Rightarrow> int result" where
  "Atoi s =
     (let (neg, ds) = (case s of c # cs \<Rightarrow> if c = CHR ''-'' then (True, cs) else if c = CHR ''+'' then (False, cs) else (False, s)
                       | [] \<Rightarrow> (False, s));
          n = int (digits_value ds)
      in if ds = [] \<or> \<not> list_all is_digit ds then Inl (OtherError (''strconv.Atoi: parsing '' @ s @ '': invalid syntax''))
         else if (if neg then 2 ^ 63 < n else 2 ^ 63 \<le> n)
         then Inl (OtherError (''strconv.Atoi: parsing '' @ s @ '': value out of range''))
         else Inr (if neg then - n else n))"

definition ExtractPortNumber :: "string \<Rightarrow> int result" where
  "ExtractPortNumber addr = (case SplitHostPort addr of
     Inl err \<Rightarrow> Inl err
   | Inr (_, p) \<Rightarrow> (case Atoi p of
       Inl err \<Rightarrow> Inl err
     | Inr port \<Rightarrow> if port < 1 \<or> 65535 < port then Inl (OtherError ''invalid port'') else Inr port))"

subsection \<open>Reading a port back\<close>

lemma digits_value_snoc: "digits_value (ds @ [c]) = 10 * digits_value ds + (of_char c - 48)"
  by (simp add: digits_value_def)

lemma fmt_d_digits: "list_all is_digit (fmt_d n) \<and> fmt_d n \<noteq> [] \<and> digits_value (fmt_d n) = n"
proof (induction n rule: fmt_d.induct)
  case (1 n)
  have d: "is_digit (char_of (48 + k))" "(of_char (char_of (48 + k) :: char) :: nat) - 48 = k" if "k < 10" for k :: nat
    using that by (simp_all add: is_digit_def less_eq_char_def)
  show ?case
  proof (cases "n < 10")
    case True
    then show ?thesis
      using d [OF True] by (subst (1 2 3) fmt_d.simps) (simp add: digits_value_def)
  next
    case False
    then show ?thesis
      using "1.IH" [OF False] d [of "n mod 10"] by (subst (1 2 3) fmt_d.simps) (simp add: digits_value_snoc)
  qed
qed

lemma digit_not_sign: "is_digit c \<Longrightarrow> c \<noteq> CHR ''-'' \<and> c \<noteq> CHR ''+'' \<and> c \<noteq> CHR '':'' \<and> c \<noteq> CHR ''['' \<and> c \<noteq> CHR '']''"
  by (auto simp: is_digit_def less_eq_char_def)

lemma Atoi_fmt_d:
  assumes "n < 2 ^ 63"
  shows "Atoi (fmt_d n) = Inr (int n)"
proof -
  obtain c cs where c: "fmt_d n = c # cs"
    using fmt_d_digits [of n] by (cases "fmt_d n") auto
  then have "is_digit c"
    using fmt_d_digits [of n] by simp
  moreover have "int n < 2 ^ 63"
    using assms by simp
  ultimately show ?thesis
    using fmt_d_digits [of n] c digit_not_sign [of c] by (simp add: Atoi_def Let_def)
qed

lemma last_index_none: "c \<notin> set xs \<Longrightarrow> last_index_byte c xs = None"
  by (induction xs) auto

lemma last_index_append: "c \<notin> set ys \<Longrightarrow> last_index_byte c (xs @ c # ys) = Some (length xs)"
  by (induction xs) (simp_all add: last_index_none)

lemma SplitHostPort_simple:
  assumes "set host \<inter> {CHR '':'', CHR ''['', CHR '']''} = {}" "set port \<inter> {CHR '':'', CHR ''['', CHR '']''} = {}"
  shows "SplitHostPort (host @ '':'' @ port) = Inr (host, port)"
  using assms by (cases host) (auto simp: SplitHostPort_def last_index_append last_index_none Let_def)

text \<open>The first digit decides between strings of equal length.\<close>

lemma hex_digit_mono: "i < j \<Longrightarrow> j < 16 \<Longrightarrow> hex_digit i < hex_digit j"
proof -
  have "\<forall>j < 16. \<forall>i < j. hex_digit i < hex_digit j"
    by code_simp
  then show "i < j \<Longrightarrow> j < 16 \<Longrightarrow> hex_digit i < hex_digit j"
    by blast
qed

lemma less_append_left: "(u :: string) < v \<Longrightarrow> length u = length v \<Longrightarrow> u @ x < v @ y"
proof (induction u arbitrary: v)
  case (Cons a u)
  then show ?case
    by (cases v) auto
qed simp

lemma less_append_right: "(x :: string) < y \<Longrightarrow> u @ x < u @ y"
  by (induction u) simp_all

lemma hex_byte_mono: "unat a < unat b \<Longrightarrow> hex_byte a < hex_byte b"
proof -
  assume lt: "unat a < unat b"
  have b: "unat b < 256" "unat a < 256"
    using unsigned_less [of a] unsigned_less [of b] by simp_all
  then have "unat b div 16 < 16" "unat a div 16 < 16"
    by (simp_all add: div_less_iff_less_mult)
  moreover have "unat a div 16 < unat b div 16 \<or> unat a div 16 = unat b div 16 \<and> unat a mod 16 < unat b mod 16"
    using lt by (metis div_le_mono div_mult_mod_eq le_neq_implies_less less_imp_le_nat nat_add_left_cancel_less)
  ultimately show "hex_byte a < hex_byte b"
    using hex_digit_mono by (auto simp: hex_byte_def)
qed

lemma hex_byte_length [simp]: "length (hex_byte b) = 2"
  by (simp add: hex_byte_def)

lemma hex_encode_Cons: "hex_encode (b # bs) = hex_byte b @ hex_encode bs"
  by (simp add: hex_encode_def)

lemma hex_encode_length: "length (hex_encode bs) = 2 * length bs"
  by (induction bs) (simp_all add: hex_encode_def)

text \<open>The hexadecimal form of a number in big-endian bytes grows with the number.\<close>

fun big_endian :: "nat \<Rightarrow> nat \<Rightarrow> byte list" where
  "big_endian 0 n = []"
| "big_endian (Suc k) n = big_endian k (n div 256) @ [of_nat n]"

lemma big_endian_length [simp]: "length (big_endian k n) = k"
  by (induction k arbitrary: n) simp_all

lemma unat_byte: "unat (of_nat n :: byte) = n mod 256"
  by (simp add: unat_of_nat take_bit_eq_mod)

lemma hex_big_endian_mono:
  assumes "n < m" "m < 256 ^ k"
  shows "hex_encode (big_endian k n) < hex_encode (big_endian k m)"
  using assms
proof (induction k arbitrary: n m)
  case (Suc k)
  have app: "hex_encode (big_endian (Suc k) x) = hex_encode (big_endian k (x div 256)) @ hex_byte (of_nat x)" for x
    by (simp add: hex_encode_def)
  consider "n div 256 < m div 256" | "n div 256 = m div 256" "n mod 256 < m mod 256"
    using Suc.prems(1) by (metis div_le_mono div_mult_mod_eq le_neq_implies_less less_imp_le_nat nat_add_left_cancel_less)
  then show ?case
  proof cases
    case 1
    then show ?thesis
      unfolding app using Suc.IH [OF 1] Suc.prems(2) by (intro less_append_left) (simp_all add: hex_encode_length div_less_iff_less_mult mult.commute)
  next
    case 2
    then have "hex_byte (of_nat n) < hex_byte (of_nat m)"
      by (intro hex_byte_mono) (simp add: unat_byte)
    then show ?thesis
      unfolding app 2(1) by (rule less_append_right)
  qed
qed simp

subsection \<open>The bytes of a UUID\<close>

definition uuid_bytes :: "u64 \<Rightarrow> byte list \<Rightarrow> byte list" where
  "uuid_bytes ts r = big_endian 4 (unat ts div 65536) @ big_endian 2 (unat ts mod 65536) @
     [(r ! 0 AND 15) OR 112, r ! 1, (r ! 2 AND 63) OR 128] @ drop 3 r"

lemma byte_of: "(ucast (drop_bit n (ts :: u64)) :: byte) = of_nat (unat ts div 2 ^ n)"
proof -
  have "unat (ucast (drop_bit n ts) :: byte) = unat ts div 2 ^ n mod 256"
    unfolding unsigned_ucast_eq unat_drop_bit_eq by (simp add: take_bit_eq_mod drop_bit_eq_div)
  then show ?thesis
    by (simp add: word_unat_eq_iff unat_byte)
qed

lemma big_endian_4:
  "big_endian 4 n = [of_nat (n div 16777216), of_nat (n div 65536), of_nat (n div 256), of_nat n]"
proof -
  have "big_endian (Suc (Suc (Suc (Suc 0)))) n = [of_nat (n div 256 div 256 div 256), of_nat (n div 256 div 256), of_nat (n div 256), of_nat n]"
    by simp
  moreover have "Suc (Suc (Suc (Suc 0))) = 4"
    by simp
  ultimately show ?thesis
    by (simp only: div_mult2_eq [symmetric]) simp
qed

lemma big_endian_2: "big_endian 2 n = [of_nat (n div 256), of_nat n]"
proof -
  have "big_endian (Suc (Suc 0)) n = [of_nat (n div 256), of_nat n]"
    by simp
  moreover have "Suc (Suc 0) = 2"
    by simp
  ultimately show ?thesis
    by (simp only:)
qed

lemma GenerateUUIDv7_bytes:
  assumes "unat ts < 2 ^ 48" "length r = 10"
  shows "GenerateUUIDv7 ts (Inr r) = Inr (formatUUID (uuid_bytes ts r))"
proof -
  have e: "(of_nat (n mod 65536 div 256) :: byte) = of_nat (n div 256)" "(of_nat (n mod 65536) :: byte) = of_nat n" for n
  proof -
    have same: "(of_nat x :: byte) = of_nat y" if "x mod 256 = y mod 256" for x y
      using that by (simp only: word_unat_eq_iff unat_byte)
    have "n mod 65536 = 256 * (n div 256 mod 256) + n mod 256"
      using mod_mult2_eq [of n 256 256] by simp
    then have m: "n mod 65536 div 256 mod 256 = n div 256 mod 256" "n mod 65536 mod 256 = n mod 256"
      by simp_all
    show "(of_nat (n mod 65536 div 256) :: byte) = of_nat (n div 256)"
      by (rule same [OF m(1)])
    show "(of_nat (n mod 65536) :: byte) = of_nat n"
      by (rule same [OF m(2)])
  qed
  have ts: "ucast ts = (of_nat (unat ts) :: byte)"
    using byte_of [of 0 ts] by simp
  define P where "P = big_endian 4 (unat ts div 65536) @ big_endian 2 (unat ts mod 65536)"
  have p: "[ucast (drop_bit 40 ts), ucast (drop_bit 32 ts), ucast (drop_bit 24 ts), ucast (drop_bit 16 ts), ucast (drop_bit 8 ts), ucast ts] = P"
    unfolding P_def byte_of ts e big_endian_4 big_endian_2 by (simp add: div_mult2_eq [symmetric])
  have len: "length P = 6"
    by (simp add: P_def)
  obtain a b c rs where "r = a # b # c # rs"
    using assms(2) by (auto simp: length_Suc_conv numeral_eq_Suc)
  then show ?thesis
    unfolding GenerateUUIDv7_def p Let_def using len
    by (simp add: uuid_bytes_def P_def [symmetric] list_update_append nth_append)
      (simp add: P_def)
qed

lemma GenerateUUIDv7_string:
  assumes "unat ts < 2 ^ 48" "length r = 10"
  shows "GenerateUUIDv7 ts (Inr r) = Inr (hex_encode (big_endian 4 (unat ts div 65536)) @ ''-'' @ hex_encode (big_endian 2 (unat ts mod 65536)) @
    ''-'' @ hex_byte ((r ! 0 AND 15) OR 112) @ hex_byte (r ! 1) @ ''-'' @ hex_byte ((r ! 2 AND 63) OR 128) @ hex_byte (r ! 3) @ ''-'' @
    hex_encode (drop 4 r))"
proof -
  obtain a b c d rs where r: "r = a # b # c # d # rs"
    using assms(2) by (auto simp: length_Suc_conv numeral_eq_Suc)
  show ?thesis
    unfolding GenerateUUIDv7_bytes [OF assms]
    by (simp add: formatUUID_def uuid_bytes_def r hex_encode_Cons) (simp add: hex_encode_def)
qed

text \<open>The version and variant digits, for each of the 256 bytes.\<close>

lemma byte_all:
  assumes "list_all P (map of_nat [0..<256])"
  shows "P (b :: byte)"
proof -
  have "unat b < 2 ^ LENGTH(8)"
    by (rule unsigned_less)
  then have "unat b \<in> {0..<256}"
    by simp
  then have "P (of_nat (unat b))"
    using assms unfolding list_all_iff set_map set_upt by (blast intro: imageI)
  then show ?thesis
    by simp
qed

lemma version_digit: "hex_byte ((b AND 15) OR 112) ! 0 = CHR ''7''"
  by (rule byte_all [of "\<lambda>b. hex_byte ((b AND 15) OR 112) ! 0 = CHR ''7''"]) code_simp

lemma variant_digit: "hex_byte ((b AND 63) OR 128) ! 0 \<in> set ''89ab''"
  by (rule byte_all [of "\<lambda>b. hex_byte ((b AND 63) OR 128) ! 0 \<in> set ''89ab''"]) code_simp

end
