(* ===== verification/Sha3.thy ===== *)
theory Sha3
  imports Sha256
begin

unbundle bit_operations_syntax

text \<open>
  \<^verbatim>\<open>crypto/sha3.Sum256\<close> (FIPS 202) on byte lists: the Keccak permutation on 25 lanes of 64 bits, lane
  \<open>(x, y)\<close> at index \<open>x + 5 * y\<close>, absorbing blocks of 136 bytes.
\<close>

subsection \<open>The permutation\<close>

definition rotl64 :: "nat \<Rightarrow> u64 \<Rightarrow> u64" where
  "rotl64 n w = push_bit n w OR drop_bit (64 - n) w"

definition keccak_RC :: "u64 list" where
  "keccak_RC = [
     0x0000000000000001, 0x0000000000008082, 0x800000000000808A, 0x8000000080008000, 0x000000000000808B, 0x0000000080000001,
     0x8000000080008081, 0x8000000000008009, 0x000000000000008A, 0x0000000000000088, 0x0000000080008009, 0x000000008000000A,
     0x000000008000808B, 0x800000000000008B, 0x8000000000008089, 0x8000000000008003, 0x8000000000008002, 0x8000000000000080,
     0x000000000000800A, 0x800000008000000A, 0x8000000080008081, 0x8000000000008080, 0x0000000080000001, 0x8000000080008008]"

text \<open>The rotation of each lane, by its index.\<close>

definition keccak_offsets :: "nat list" where
  "keccak_offsets = [0, 1, 62, 28, 27, 36, 44, 6, 55, 20, 3, 10, 43, 25, 39, 41, 45, 15, 21, 8, 18, 2, 61, 56, 14]"

definition keccak_theta :: "u64 list \<Rightarrow> u64 list" where
  "keccak_theta a =
     (let c = map (\<lambda>x. a ! x XOR a ! (x + 5) XOR a ! (x + 10) XOR a ! (x + 15) XOR a ! (x + 20)) [0..<5];
          d = map (\<lambda>x. c ! ((x + 4) mod 5) XOR rotl64 1 (c ! ((x + 1) mod 5))) [0..<5]
      in map (\<lambda>i. a ! i XOR d ! (i mod 5)) [0..<25])"

text \<open>Rotation and transposition: the lane at \<open>(y, 2x + 3y)\<close> comes from \<open>(x, y)\<close>.\<close>

definition keccak_rho_pi :: "u64 list \<Rightarrow> u64 list" where
  "keccak_rho_pi a = map (\<lambda>i. let x = (i mod 5 + 3 * (i div 5)) mod 5; j = x + 5 * (i mod 5) in rotl64 (keccak_offsets ! j) (a ! j)) [0..<25]"

definition keccak_chi :: "u64 list \<Rightarrow> u64 list" where
  "keccak_chi b = map (\<lambda>i. let r = 5 * (i div 5) in b ! i XOR (NOT (b ! (r + (i + 1) mod 5)) AND b ! (r + (i + 2) mod 5))) [0..<25]"

definition keccak_round :: "u64 list \<Rightarrow> u64 \<Rightarrow> u64 list" where
  "keccak_round a rc = (let b = keccak_chi (keccak_rho_pi (keccak_theta a)) in b[0 := b ! 0 XOR rc])"

definition keccak_f :: "u64 list \<Rightarrow> u64 list" where
  "keccak_f a = foldl keccak_round a keccak_RC"

subsection \<open>The sponge\<close>

definition le64 :: "byte list \<Rightarrow> u64" where
  "le64 bs = foldr (\<lambda>b w. push_bit 8 w OR ucast b) bs 0"

definition bytes_le64 :: "u64 \<Rightarrow> byte list" where
  "bytes_le64 w = map (\<lambda>i. ucast (drop_bit (8 * i) w)) [0..<8]"

definition sha3_rate :: nat where "sha3_rate = 136"

definition sha3_pad :: "byte list \<Rightarrow> byte list" where
  "sha3_pad m = (let k = sha3_rate - length m mod sha3_rate
     in m @ (if k = 1 then [0x86] else 0x06 # replicate (k - 2) 0 @ [0x80]))"

definition sha3_absorb :: "u64 list \<Rightarrow> byte list \<Rightarrow> u64 list" where
  "sha3_absorb a block = keccak_f (map (\<lambda>i. if i < 17 then a ! i XOR le64 (take 8 (drop (8 * i) block)) else a ! i) [0..<25])"

fun sha3_blocks :: "nat \<Rightarrow> byte list \<Rightarrow> u64 list \<Rightarrow> u64 list" where
  "sha3_blocks 0 m a = a"
| "sha3_blocks (Suc n) m a = sha3_blocks n (drop sha3_rate m) (sha3_absorb a (take sha3_rate m))"

definition sha3_256 :: "byte list \<Rightarrow> byte list" where
  "sha3_256 m =
     (let p = sha3_pad m; a = sha3_blocks (length p div sha3_rate) p (replicate 25 0)
      in concat (map bytes_le64 (take 4 a)))"

end
