(* ===== verification/Kv_Strings.thy ===== *)
theory Kv_Strings
  imports Kv_Prelude
begin

text \<open>
  What the engine uses of Go's \<^verbatim>\<open>strings\<close> package, on UTF-8 byte strings: \<^verbatim>\<open>Fields\<close>, \<^verbatim>\<open>TrimSpace\<close> and
  \<^verbatim>\<open>Join\<close>.
\<close>

subsection \<open>White space\<close>

text \<open>
  The encodings of the code points that \<^verbatim>\<open>unicode.IsSpace\<close> accepts.  Each starts with a byte that is
  not a continuation byte, so one that occurs in a string, valid UTF-8 or not, is a character of it.
\<close>

definition space_encodings :: "string list" where
  "space_encodings = [
     [CHR 0x09], [CHR 0x0A], [CHR 0x0B], [CHR 0x0C], [CHR 0x0D], [CHR 0x20], [CHR 0xC2, CHR 0x85],
     [CHR 0xC2, CHR 0xA0], [CHR 0xE1, CHR 0x9A, CHR 0x80], [CHR 0xE2, CHR 0x80, CHR 0x80],
     [CHR 0xE2, CHR 0x80, CHR 0x81], [CHR 0xE2, CHR 0x80, CHR 0x82], [CHR 0xE2, CHR 0x80, CHR 0x83],
     [CHR 0xE2, CHR 0x80, CHR 0x84], [CHR 0xE2, CHR 0x80, CHR 0x85], [CHR 0xE2, CHR 0x80, CHR 0x86],
     [CHR 0xE2, CHR 0x80, CHR 0x87], [CHR 0xE2, CHR 0x80, CHR 0x88], [CHR 0xE2, CHR 0x80, CHR 0x89],
     [CHR 0xE2, CHR 0x80, CHR 0x8A], [CHR 0xE2, CHR 0x80, CHR 0xA8], [CHR 0xE2, CHR 0x80, CHR 0xA9],
     [CHR 0xE2, CHR 0x80, CHR 0xAF], [CHR 0xE2, CHR 0x81, CHR 0x9F], [CHR 0xE3, CHR 0x80, CHR 0x80]]"

definition starts_with :: "string \<Rightarrow> string \<Rightarrow> bool" where
  "starts_with s p \<longleftrightarrow> take (length p) s = p"

text \<open>The length of the white-space character at the start of a string, 0 when there is none.\<close>

definition space_width :: "string \<Rightarrow> nat" where
  "space_width s = (case filter (starts_with s) space_encodings of [] \<Rightarrow> 0 | p # _ \<Rightarrow> length p)"

lemma space_encodings_nonempty: "p \<in> set space_encodings \<Longrightarrow> p \<noteq> []"
  by (auto simp: space_encodings_def)

lemma space_width_le: "space_width s \<le> length s"
proof (cases "filter (starts_with s) space_encodings")
  case (Cons p ps)
  have "p \<in> set (filter (starts_with s) space_encodings)"
    unfolding Cons by simp
  then have "take (length p) s = p"
    by (simp add: starts_with_def)
  then have "length p \<le> length s"
    by (metis length_take min.cobounded1)
  then show ?thesis
    using Cons by (simp add: space_width_def)
qed (simp add: space_width_def)

lemma space_width_Nil [simp]: "space_width [] = 0"
  using space_width_le [of "[]"] by simp

subsection \<open>Fields\<close>

text \<open>\<open>word\<close> is the field read so far.\<close>

function fields_from :: "string \<Rightarrow> string \<Rightarrow> string list" where
  "fields_from word s =
     (if s = [] then (if word = [] then [] else [word])
      else if 0 < space_width s
      then (if word = [] then [] else [word]) @ fields_from [] (drop (space_width s) s)
      else fields_from (word @ [hd s]) (tl s))"
  by pat_completeness auto
termination
  by (relation "measure (length \<circ> snd)") auto

declare fields_from.simps [simp del]

lemma fields_from_Nil: "fields_from word [] = (if word = [] then [] else [word])"
  by (simp add: fields_from.simps [of word "[]"])

lemma fields_from_Cons:
  "fields_from word (c # cs) = (let n = space_width (c # cs)
     in if 0 < n then (if word = [] then [] else [word]) @ fields_from [] (drop (n - 1) cs) else fields_from (word @ [c]) cs)"
  by (cases "space_width (c # cs)") (simp_all add: fields_from.simps [of word "c # cs"])

definition Fields :: "string \<Rightarrow> string list" where
  "Fields s = fields_from [] s"

lemma fields_nonempty: "f \<in> set (fields_from word s) \<Longrightarrow> f \<noteq> []"
proof (induction word s rule: fields_from.induct)
  case (1 word s)
  show ?case
  proof (cases "s = []")
    case True
    then show ?thesis
      using "1.prems" by (simp add: fields_from.simps [of word "[]"] split: if_splits)
  next
    case False
    then show ?thesis
      using "1.prems" "1.IH" by (auto simp: fields_from.simps [of word s] split: if_splits)
  qed
qed

subsection \<open>TrimSpace\<close>

function trim_left :: "string \<Rightarrow> string" where
  "trim_left s = (if 0 < space_width s then trim_left (drop (space_width s) s) else s)"
  by pat_completeness auto
termination
proof (relation "measure length")
  fix s assume "0 < space_width s"
  then show "(drop (space_width s) s, s) \<in> measure length"
    using space_width_le [of s] by simp
qed simp

declare trim_left.simps [simp del]

text \<open>The length of the white-space character at the end of a string.\<close>

definition last_space_width :: "string \<Rightarrow> nat" where
  "last_space_width s = (case filter (\<lambda>p. length p \<le> length s \<and> drop (length s - length p) s = p) space_encodings of
     [] \<Rightarrow> 0 | p # _ \<Rightarrow> length p)"

lemma last_space_width_le: "last_space_width s \<le> length s"
proof (cases "filter (\<lambda>p. length p \<le> length s \<and> drop (length s - length p) s = p) space_encodings")
  case (Cons p ps)
  have "p \<in> set (filter (\<lambda>p. length p \<le> length s \<and> drop (length s - length p) s = p) space_encodings)"
    unfolding Cons by simp
  then have "length p \<le> length s"
    by simp
  then show ?thesis
    using Cons by (simp add: last_space_width_def)
qed (simp add: last_space_width_def)

function trim_right :: "string \<Rightarrow> string" where
  "trim_right s = (if 0 < last_space_width s then trim_right (take (length s - last_space_width s) s) else s)"
  by pat_completeness auto
termination
proof (relation "measure length")
  fix s assume "0 < last_space_width s"
  then show "(take (length s - last_space_width s) s, s) \<in> measure length"
    using last_space_width_le [of s] by simp
qed simp

declare trim_right.simps [simp del]

definition TrimSpace :: "string \<Rightarrow> string" where
  "TrimSpace s = trim_right (trim_left s)"

subsection \<open>Join\<close>

fun Join :: "string list \<Rightarrow> string \<Rightarrow> string" where
  "Join [] sep = []"
| "Join [s] sep = s"
| "Join (s # ss) sep = s @ sep @ Join ss sep"

end
