(* ===== verification/Tokenizer.thy ===== *)
theory Tokenizer
  imports Sha3 Kv_Strings Kv_Conf Kv_Model
begin

text \<open>
  The tokenizers, \<^verbatim>\<open>internal/tokenizer\<close>: the choice by model, and the mock tokenizer, which numbers the
  white-space separated fields of a text by a hash and remembers them.  The Qwen tokenizer is a package
  of its own; what the engine calls of it is a parameter.
\<close>

subsection \<open>The mock tokenizer\<close>

record mockTokenizer =
  mt_reverse :: "(u32, string) fmap"

definition newMockTokenizer :: mockTokenizer where
  "newMockTokenizer = \<lparr>mt_reverse = fmempty\<rparr>"

definition stableHash32 :: "string \<Rightarrow> u32" where
  "stableHash32 field = (let sum = sha3_256 (bytes_of_string field) in of_be32 (sum ! 0) (sum ! 1) (sum ! 2) (sum ! 3))"

text \<open>The loop over the fields; on a collision the fields before it stay remembered.\<close>

fun encodeFields :: "string list \<Rightarrow> u32 list \<Rightarrow> mockTokenizer \<Rightarrow> u32 list result \<times> mockTokenizer" where
  "encodeFields [] tokens m = (Inr tokens, m)"
| "encodeFields (field # fs) tokens m =
     (let tokenId = stableHash32 field
      in if (case fmlookup (mt_reverse m) tokenId of Some token \<Rightarrow> token \<noteq> field | None \<Rightarrow> False)
         then (Inl (Errorf ''token collision'' []), m)
         else encodeFields fs (tokens @ [tokenId]) (m\<lparr>mt_reverse := fmupd tokenId field (mt_reverse m)\<rparr>))"

definition mock_Encode :: "string \<Rightarrow> mockTokenizer \<Rightarrow> u32 list result \<times> mockTokenizer" where
  "mock_Encode text m = (case encodeFields (Fields text) [] m of
     (Inl err, m1) \<Rightarrow> (Inl err, m1)
   | (Inr tokens, m1) \<Rightarrow>
       if length tokens = 0
       then let tokenId = stableHash32 [] in (Inr [tokenId], m1\<lparr>mt_reverse := fmupd tokenId [] (mt_reverse m1)\<rparr>)
       else (Inr tokens, m1))"

definition tokenWord :: "mockTokenizer \<Rightarrow> u32 \<Rightarrow> string" where
  "tokenWord m tokenID = (case fmlookup (mt_reverse m) tokenID of
     Some word \<Rightarrow> word | None \<Rightarrow> ''<tok_'' @ fmt_d (unat tokenID) @ ''>'')"

definition mock_Decode :: "u32 list \<Rightarrow> mockTokenizer \<Rightarrow> string" where
  "mock_Decode tokens m = Join (map (tokenWord m) tokens) '' ''"

subsection \<open>Choosing a tokenizer\<close>

text \<open>
  What the engine calls of the Qwen package, whose tokenizers have type \<open>'q\<close>, and the \<^verbatim>\<open>model_type\<close> of
  the JSON object in a file.
\<close>

record QwenTokenizerConfig =
  qt_VocabPath :: string
  qt_MergesPath :: string
  qt_TokenizerConfigPath :: string

record 'q tokenizer_env =
  te_NewQwenTokenizer :: "QwenTokenizerConfig \<Rightarrow> 'q result"
  te_Encode :: "'q \<Rightarrow> string \<Rightarrow> u32 list result"
  te_Decode :: "'q \<Rightarrow> u32 list \<Rightarrow> string result"
  te_readConfig :: "string \<Rightarrow> string result"

text \<open>\<^verbatim>\<open>filepath.Clean\<close> and \<^verbatim>\<open>filepath.Join\<close> on Unix.\<close>

fun split_path :: "string \<Rightarrow> string \<Rightarrow> string list" where
  "split_path elem [] = [elem]"
| "split_path elem (c # cs) = (if c = CHR ''/'' then elem # split_path [] cs else split_path (elem @ [c]) cs)"

fun clean_elems :: "bool \<Rightarrow> string list \<Rightarrow> string list \<Rightarrow> string list" where
  "clean_elems rooted stack [] = rev stack"
| "clean_elems rooted stack (e # es) =
     (if e = [] \<or> e = ''.'' then clean_elems rooted stack es
      else if e = ''..'' then
        (if stack \<noteq> [] \<and> hd stack \<noteq> ''..'' then clean_elems rooted (tl stack) es
         else if rooted then clean_elems rooted stack es
         else clean_elems rooted (e # stack) es)
      else clean_elems rooted (e # stack) es)"

definition filepath_Clean :: "string \<Rightarrow> string" where
  "filepath_Clean path =
     (let rooted = path \<noteq> [] \<and> hd path = CHR ''/'';
          out = (if rooted then ''/'' else []) @ Join (clean_elems rooted [] (split_path [] path)) ''/''
      in if out = [] then ''.'' else out)"

definition filepath_Join :: "string list \<Rightarrow> string" where
  "filepath_Join elems = (case dropWhile (\<lambda>e. e = []) elems of [] \<Rightarrow> [] | es \<Rightarrow> filepath_Clean (Join es ''/''))"

definition newQwen3Tokenizer :: "'q tokenizer_env \<Rightarrow> ModelConf \<Rightarrow> 'q result" where
  "newQwen3Tokenizer env modelConf = te_NewQwenTokenizer env
     \<lparr>qt_VocabPath = filepath_Join [mc_ModelPath modelConf, ''vocab.json''],
      qt_MergesPath = filepath_Join [mc_ModelPath modelConf, ''merges.txt''],
      qt_TokenizerConfigPath = filepath_Join [mc_ModelPath modelConf, ''tokenizer_config.json'']\<rparr>"

datatype 'q tokenize = MockTokenizer mockTokenizer | QwenTokenizer 'q

record 'q tokenizer =
  tk_tokenizers :: "(LLMModelID, 'q tokenize) fmap"

definition readModelType :: "'q tokenizer_env \<Rightarrow> string \<Rightarrow> string result" where
  "readModelType env modelPath =
     (if modelPath = [] then Inr ''mock''
      else case te_readConfig env (filepath_Join [modelPath, ''config.json'']) of
        Inl err \<Rightarrow> Inl err
      | Inr modelType \<Rightarrow>
          if modelType = [] then Inl (errors_New CodeInvalidArgument (''model config missing model_type: '' @ modelPath))
          else Inr modelType)"

fun loadTokenizers :: "'q tokenizer_env \<Rightarrow> ModelConf list \<Rightarrow> 'q tokenizer \<Rightarrow> 'q tokenizer result" where
  "loadTokenizers env [] t = Inr t"
| "loadTokenizers env (modelConf # confs) t = (case ParseModelID (mc_ModelID modelConf) of
     Inl err \<Rightarrow> Inl err
   | Inr modelID \<Rightarrow> (case readModelType env (mc_ModelPath modelConf) of
       Inl err \<Rightarrow> Inl err
     | Inr modelType \<Rightarrow>
         if modelType = ''mock''
         then loadTokenizers env confs (t\<lparr>tk_tokenizers := fmupd modelID (MockTokenizer newMockTokenizer) (tk_tokenizers t)\<rparr>)
         else if modelType = ''qwen3''
         then (case newQwen3Tokenizer env modelConf of
             Inl err \<Rightarrow> Inl err
           | Inr tok \<Rightarrow> loadTokenizers env confs (t\<lparr>tk_tokenizers := fmupd modelID (QwenTokenizer tok) (tk_tokenizers t)\<rparr>))
         else Inl (errors_New CodeInvalidArgument (''tokenizer: unsupported model_type '' @ modelType))))"

definition NewTokenizer :: "'q tokenizer_env \<Rightarrow> Conf \<Rightarrow> 'q tokenizer result" where
  "NewTokenizer env cfg =
     (if length (cf_Models cfg) = 0
      then Inr \<lparr>tk_tokenizers = fmupd MockModel (MockTokenizer newMockTokenizer) fmempty\<rparr>
      else loadTokenizers env (cf_Models cfg) \<lparr>tk_tokenizers = fmempty\<rparr>)"

definition tokenizer_Encode :: "'q tokenizer_env \<Rightarrow> LLMModelID \<Rightarrow> string \<Rightarrow> 'q tokenizer \<Rightarrow> u32 list result \<times> 'q tokenizer" where
  "tokenizer_Encode env modelID text t = (case fmlookup (tk_tokenizers t) modelID of
     None \<Rightarrow> (Inl (errors_New CodeInvalidArgument (''tokenizer: model not registered '' @ modelID)), t)
   | Some (MockTokenizer m) \<Rightarrow>
       (let (r, m1) = mock_Encode text m in (r, t\<lparr>tk_tokenizers := fmupd modelID (MockTokenizer m1) (tk_tokenizers t)\<rparr>))
   | Some (QwenTokenizer q) \<Rightarrow> (te_Encode env q text, t))"

text \<open>The text comes back beside the error.\<close>

definition tokenizer_Decode :: "'q tokenizer_env \<Rightarrow> LLMModelID \<Rightarrow> u32 list \<Rightarrow> 'q tokenizer \<Rightarrow> string \<times> error option" where
  "tokenizer_Decode env modelID tokens t = (case fmlookup (tk_tokenizers t) modelID of
     None \<Rightarrow> ([], Some (errors_New CodeInvalidArgument (''tokenizer: model not registered '' @ modelID)))
   | Some (MockTokenizer m) \<Rightarrow> (mock_Decode tokens m, None)
   | Some (QwenTokenizer q) \<Rightarrow> (case te_Decode env q tokens of Inl err \<Rightarrow> (''replace'', Some err) | Inr str \<Rightarrow> (str, None)))"

subsection \<open>What the mock tokenizer remembers\<close>

text \<open>Nothing remembered is forgotten, except that the empty text claims its number.\<close>

definition remembers :: "mockTokenizer \<Rightarrow> mockTokenizer \<Rightarrow> bool" where
  "remembers m m1 \<longleftrightarrow> (\<forall>k word. k \<noteq> stableHash32 [] \<longrightarrow> fmlookup (mt_reverse m) k = Some word \<longrightarrow> fmlookup (mt_reverse m1) k = Some word)"

lemma encodeFields_spec:
  assumes "encodeFields fs tokens m = (r, m1)"
  shows "(\<forall>k word. fmlookup (mt_reverse m) k = Some word \<longrightarrow> fmlookup (mt_reverse m1) k = Some word) \<and>
    (\<forall>ts. r = Inr ts \<longrightarrow> ts = tokens @ map stableHash32 fs \<and>
       (\<forall>field \<in> set fs. fmlookup (mt_reverse m1) (stableHash32 field) = Some field))"
  using assms
proof (induction fs tokens m rule: encodeFields.induct)
  case (2 field fs tokens m)
  let ?id = "stableHash32 field"
  show ?case
  proof (cases "case fmlookup (mt_reverse m) ?id of Some token \<Rightarrow> token \<noteq> field | None \<Rightarrow> False")
    case True
    then show ?thesis
      using "2.prems" by (auto simp: Let_def)
  next
    case False
    let ?m = "m\<lparr>mt_reverse := fmupd ?id field (mt_reverse m)\<rparr>"
    have e: "encodeFields fs (tokens @ [?id]) ?m = (r, m1)"
      using "2.prems" False by (simp add: Let_def)
    have keep: "fmlookup (mt_reverse ?m) k = Some word" if "fmlookup (mt_reverse m) k = Some word" for k word
      using that False by (auto split: option.splits)
    show ?thesis
      using "2.IH" [OF refl False e] keep by auto
  qed
qed auto

lemma mock_Encode_spec:
  assumes "mock_Encode text m = (r, m1)"
  shows "remembers m m1" "r = Inr tokens \<Longrightarrow> map (tokenWord m1) tokens = (if Fields text = [] then [[]] else Fields text)"
    "r = Inr tokens \<Longrightarrow> tokens = (if Fields text = [] then [stableHash32 []] else map stableHash32 (Fields text))"
    "r = Inr tokens \<Longrightarrow> k \<in> set tokens \<Longrightarrow> has_key (mt_reverse m1) k"
proof -
  obtain r0 m0 where e: "encodeFields (Fields text) [] m = (r0, m0)"
    by (cases "encodeFields (Fields text) [] m")
  note s = encodeFields_spec [OF e]
  have m1: "m1 = m0 \<or> m1 = m0\<lparr>mt_reverse := fmupd (stableHash32 []) [] (mt_reverse m0)\<rparr>"
    using assms e by (auto simp: mock_Encode_def Let_def split: sum.splits if_splits)
  then show "remembers m m1"
    using s by (auto simp: remembers_def)
  have all: "map (tokenWord m1) ts = (if Fields text = [] then [[]] else Fields text) \<and>
      ts = (if Fields text = [] then [stableHash32 []] else map stableHash32 (Fields text)) \<and> (\<forall>k \<in> set ts. has_key (mt_reverse m1) k)"
    if r: "r = Inr ts" for ts
  proof (cases "Fields text = []")
    case True
    then show ?thesis
      using assms r by (auto simp: mock_Encode_def tokenWord_def Let_def)
  next
    case False
    obtain us where us: "r0 = Inr us"
      using assms e r by (auto simp: mock_Encode_def split: sum.splits)
    then have "us = map stableHash32 (Fields text)" "\<forall>field \<in> set (Fields text). fmlookup (mt_reverse m0) (stableHash32 field) = Some field"
      using s by auto
    moreover have "ts = us" "m1 = m0"
      using assms e r us False calculation(1) by (auto simp: mock_Encode_def)
    ultimately show ?thesis
      using False by (auto simp: tokenWord_def intro: map_idI)
  qed
  show "r = Inr tokens \<Longrightarrow> map (tokenWord m1) tokens = (if Fields text = [] then [[]] else Fields text)"
    "r = Inr tokens \<Longrightarrow> tokens = (if Fields text = [] then [stableHash32 []] else map stableHash32 (Fields text))"
    "r = Inr tokens \<Longrightarrow> k \<in> set tokens \<Longrightarrow> has_key (mt_reverse m1) k"
    using all by blast+
qed

end
