(* ===== verification/Util_Properties.thy ===== *)
theory Util_Properties
  imports Kv_Utils Tokenizer
begin

unbundle bit_operations_syntax

text \<open>The properties of the helpers: generated identifiers, the ports of addresses, and tokens.\<close>

text \<open>
  Before the year 10889 (48 bits of milliseconds) a generated identifier has 36 characters, says
  version 7 and the RFC variant, and identifiers generated in different milliseconds are ordered as
  strings by their time, so they differ.
\<close>

theorem uuid_v7_contract:
  assumes "unat t1 < 2 ^ 48" and "unat t2 < 2 ^ 48" and "length r1 = 10" and "length r2 = 10"
  shows "\<exists>a b. GenerateUUIDv7 t1 (Inr r1) = Inr a \<and> GenerateUUIDv7 t2 (Inr r2) = Inr b \<and>
    length a = 36 \<and> a ! 14 = CHR ''7'' \<and> a ! 19 \<in> set ''89ab'' \<and> (t1 < t2 \<longrightarrow> a < b)"
proof -
  let ?hi = "\<lambda>t :: u64. hex_encode (big_endian 4 (unat t div 65536))"
  let ?lo = "\<lambda>t :: u64. hex_encode (big_endian 2 (unat t mod 65536))"
  define x where "x = (\<lambda>r :: byte list. ''-'' @ hex_byte ((r ! 0 AND 15) OR 112) @ hex_byte (r ! 1) @ ''-'' @ hex_byte ((r ! 2 AND 63) OR 128) @
    hex_byte (r ! 3) @ ''-'' @ hex_encode (drop 4 r))"
  let ?a = "?hi t1 @ ''-'' @ ?lo t1 @ x r1" and ?b = "?hi t2 @ ''-'' @ ?lo t2 @ x r2"
  have g: "GenerateUUIDv7 t1 (Inr r1) = Inr ?a" "GenerateUUIDv7 t2 (Inr r2) = Inr ?b"
    unfolding x_def by (rule GenerateUUIDv7_string; fact assms)+
  have len: "length (?hi t) = 8" "length (?lo t) = 4" for t
    by (simp_all add: hex_encode_length)
  have "x r1 ! 1 = hex_byte ((r1 ! 0 AND 15) OR 112) ! 0" "x r1 ! 6 = hex_byte ((r1 ! 2 AND 63) OR 128) ! 0"
    by (simp_all add: x_def nth_append)
  then have "?a ! 14 = CHR ''7''" "?a ! 19 \<in> set ''89ab''"
    using version_digit [of "r1 ! 0"] variant_digit [of "r1 ! 2"] len by (simp_all add: nth_append)
  moreover have "length ?a = 36"
    using len assms(3) by (simp add: x_def hex_encode_length)
  moreover have "?a < ?b" if lt: "t1 < t2"
  proof -
    have u: "unat t1 < unat t2"
      using lt by (simp add: word_less_nat_alt)
    then consider "unat t1 div 65536 < unat t2 div 65536" | "unat t1 div 65536 = unat t2 div 65536" "unat t1 mod 65536 < unat t2 mod 65536"
      by (metis div_le_mono div_mult_mod_eq le_neq_implies_less less_imp_le_nat nat_add_left_cancel_less)
    then show ?thesis
    proof cases
      case 1
      have "unat t2 div 65536 < 256 ^ 4"
        using assms(2) by (simp add: div_less_iff_less_mult)
      then show ?thesis
        using hex_big_endian_mono [OF 1] len by (intro less_append_left) simp_all
    next
      case 2
      have "?lo t1 < ?lo t2"
        using hex_big_endian_mono [OF 2(2), of 2] by simp
      then show ?thesis
        unfolding 2(1) using len by (intro less_append_right less_append_left) simp_all
    qed
  qed
  ultimately show ?thesis
    using g by blast
qed

theorem uuid_v7_contract_witness:
  "\<exists>a b. GenerateUUIDv7 255 (Inr (replicate 10 0)) = Inr a \<and> GenerateUUIDv7 256 (Inr (replicate 10 9)) = Inr b \<and> a < b"
  using uuid_v7_contract [of 255 256 "replicate 10 0" "replicate 10 9"] by auto

text \<open>
  A valid port written after a host without colons and brackets is read back, and whatever is
  read from any address is a valid port.
\<close>

theorem port_round_trip:
  assumes "set host \<inter> {CHR '':'', CHR ''['', CHR '']''} = {}" and "n < 2 ^ 63"
  shows "(ExtractPortNumber (host @ '':'' @ fmt_d n) = Inr p \<longleftrightarrow> p = int n \<and> 1 \<le> p \<and> p \<le> 65535) \<and>
    (ExtractPortNumber addr = Inr p \<longrightarrow> 1 \<le> p \<and> p \<le> 65535)"
proof -
  have "c \<notin> set (fmt_d n)" if "c \<in> {CHR '':'', CHR ''['', CHR '']''}" for c
    using that fmt_d_digits [of n] digit_not_sign by (auto simp: list_all_iff)
  then have "SplitHostPort (host @ '':'' @ fmt_d n) = Inr (host, fmt_d n)"
    using assms(1) by (intro SplitHostPort_simple) auto
  moreover have "1 \<le> p \<and> p \<le> 65535" if "ExtractPortNumber addr = Inr p"
    using that by (auto simp: ExtractPortNumber_def split: sum.splits if_splits)
  ultimately show ?thesis
    using Atoi_fmt_d [OF assms(2)] by (auto simp: ExtractPortNumber_def)
qed

theorem port_round_trip_witness: "ExtractPortNumber (''localhost'' @ '':'' @ fmt_d 8080) = Inr 8080"
  using port_round_trip [of "''localhost''" 8080 8080] by simp

text \<open>
  What the mock tokenizer encodes without a collision it decodes to the fields of the text, one
  space apart; and later encodings, successful or not, do not change that, unless a token is the number
  of the empty text.
\<close>

theorem token_round_trip:
  assumes "mock_Encode text m = (Inr tokens, m1)" and "mock_Encode text2 m1 = (r, m2)"
  shows "mock_Decode tokens m1 = Join (Fields text) '' '' \<and> (stableHash32 [] \<notin> set tokens \<longrightarrow> mock_Decode tokens m2 = Join (Fields text) '' '')"
proof -
  have now: "map (tokenWord m1) tokens = (if Fields text = [] then [[]] else Fields text)"
    using mock_Encode_spec(2) [OF assms(1)] by blast
  then have "Join (map (tokenWord m1) tokens) '' '' = Join (Fields text) '' ''"
    by simp
  moreover have "map (tokenWord m2) tokens = map (tokenWord m1) tokens" if empty: "stableHash32 [] \<notin> set tokens"
  proof (rule map_cong [OF refl])
    fix k assume k: "k \<in> set tokens"
    then obtain word where "fmlookup (mt_reverse m1) k = Some word"
      using mock_Encode_spec(4) [OF assms(1) refl] by blast
    moreover have "k \<noteq> stableHash32 []"
      using k empty by blast
    ultimately show "tokenWord m2 k = tokenWord m1 k"
      using mock_Encode_spec(1) [OF assms(2)] by (simp add: remembers_def tokenWord_def)
  qed
  ultimately show ?thesis
    unfolding mock_Decode_def by metis
qed

theorem token_round_trip_witness:
  "\<exists>m1. mock_Encode ''  hi '' newMockTokenizer = (Inr [stableHash32 ''hi''], m1) \<and> mock_Decode [stableHash32 ''hi''] m1 = ''hi''"
proof -
  have f: "Fields ''  hi '' = [''hi'']"
    by (simp add: Fields_def fields_from_Nil fields_from_Cons space_width_def space_encodings_def starts_with_def Let_def)
  let ?m1 = "\<lparr>mt_reverse = fmupd (stableHash32 ''hi'') ''hi'' fmempty\<rparr>"
  have e: "mock_Encode ''  hi '' newMockTokenizer = (Inr [stableHash32 ''hi''], ?m1)"
    by (simp add: mock_Encode_def f newMockTokenizer_def Let_def)
  obtain r m2 where m2: "mock_Encode [] ?m1 = (r, m2)"
    by (rule prod.exhaust)
  have "Join [''hi''] '' '' = ''hi''"
    by simp
  then show ?thesis
    using e conjunct1 [OF token_round_trip [OF e m2]] unfolding f by metis
qed

end
