(* ===== verification/Handler.thy ===== *)
theory Handler
  imports Scheduler Tokenizer
begin

text \<open>
  The inference handler, \<^verbatim>\<open>internal/handler/inference.go\<close>: a request is tokenized, bound, registered
  and enqueued, and a goroutine forwards its events to an output channel of five places.  The goroutine
  is cut where it can be suspended; \<open>None\<close> of a step means that it is not enabled, or panics.
\<close>

subsection \<open>Starting a stream\<close>

datatype forwarder =
    Selecting
  | Forwarding GenerateOutput
  | Returned

record stream =
  st_requestId :: string
  st_modelID :: LLMModelID
  st_eventCh :: nat
  st_chOut :: "GenerateOutput list"
  st_closed :: bool
  st_forwarder :: forwarder

definition chOutCap :: nat where "chOutCap = 5"

text \<open>The state the handler shares with the rest of the engine.\<close>

type_synonym 'q engine = "'q tokenizer \<times> scheduler"

definition internalError :: "error \<Rightarrow> error" where
  "internalError err = errors_New CodeInternal (error_Error err)"

text \<open>The state machine is called with the clock reading and the identifier of its world.\<close>

definition createRequest :: "Request \<Rightarrow> scheduler \<Rightarrow> (WorkItem result \<times> scheduler) option" where
  "createRequest req s = do {
     let w = s_world s;
     (r, st) \<leftarrow> sm_Create (w_now w) (w_fresh w) req (w_state w);
     Some (r, s\<lparr>s_world := w_advance st w\<rparr>)
   }"

definition GenerateStream :: "'q tokenizer_env \<Rightarrow> Request \<Rightarrow> 'q engine \<Rightarrow> (stream result \<times> 'q engine) option" where
  "GenerateStream env req engine =
     (let (t, s) = engine
      in case tokenizer_Encode env (rq_ModelID req) (rq_Prompt req) t of
        (Inl err, t1) \<Rightarrow> Some (Inl err, (t1, s))
      | (Inr tokens, t1) \<Rightarrow>
          (case AssignExecutor (req\<lparr>rq_TokenIDs := tokens, rq_PromptTokens := of_nat (length tokens)\<rparr>) s of
             (Some err, _, s1) \<Rightarrow> Some (Inl (errors_New CodeExecutorUnavailable (error_Error err)), (t1, s1))
           | (None, req1, s1) \<Rightarrow> do {
               (created, s2) \<leftarrow> createRequest req1 s1;
               case created of
                 Inl err \<Rightarrow> Some (Inl (internalError err), (t1, s2))
               | Inr prefillItem \<Rightarrow>
                   (case sm_Subscribe (rq_RequestId req1) (w_state (s_world s2)) of
                      Inl err \<Rightarrow> do {
                        s3 \<leftarrow> failRequest (wk_RequestId prefillItem) (Some err) s2;
                        Some (Inl (internalError err), (t1, s3))
                      }
                    | Inr eventCh \<Rightarrow> do {
                        (err, s3) \<leftarrow> sched_Enqueue prefillItem s2;
                        case err of
                          Some er \<Rightarrow> Some (Inl (internalError er), (t1, s3))
                        | None \<Rightarrow> Some (Inr \<lparr>st_requestId = wk_RequestId prefillItem, st_modelID = rq_ModelID req1,
                            st_eventCh = eventCh, st_chOut = [], st_closed = False, st_forwarder = Selecting\<rparr>, (t1, s3))
                      })
             }))"

subsection \<open>Forwarding\<close>

definition streamOutput :: "'q tokenizer_env \<Rightarrow> LLMModelID \<Rightarrow> 'q tokenizer \<Rightarrow> Event \<Rightarrow> GenerateOutput" where
  "streamOutput env modelID t event =
     (let (outputText, decodeErr) = tokenizer_Decode env modelID [ev_TokenId event] t;
          err = (if decodeErr = None then ev_Err event else decodeErr)
      in \<lparr>out_RequestId = ev_RequestId event, out_Index = ev_ChunkIndex event, out_DeltaText = outputText,
          out_FinishReason = ev_FinishReason event, out_Done = ev_Done event, out_Usage = ev_Usage event,
          out_Timing = ev_Timing event, out_BatchID = ev_BatchId event, out_BatchSize = 0,
          out_ExecutorId = ev_ExecutorId event, out_Err = err\<rparr>)"

definition updState :: "state_manager \<Rightarrow> scheduler \<Rightarrow> scheduler" where
  "updState st s = s\<lparr>s_world := (s_world s)\<lparr>w_state := st\<rparr>\<rparr>"

text \<open>The first case of the \<^verbatim>\<open>select\<close>: an event, or the end of the event channel.\<close>

definition forwardReceive :: "'q tokenizer_env \<Rightarrow> stream \<Rightarrow> 'q engine \<Rightarrow> (stream \<times> 'q engine) option" where
  "forwardReceive env str engine =
     (if st_forwarder str = Selecting then do {
        let (t, s) = engine;
        (r, st) \<leftarrow> chan_recv (st_eventCh str) (w_state (s_world s));
        let s1 = updState st s;
        case r of
          None \<Rightarrow> Some (str\<lparr>st_forwarder := Returned\<rparr>, (t, s1))
        | Some event \<Rightarrow>
            if ev_Type event = EventTypePrefillChunk then Some (str, (t, s1))
            else Some (str\<lparr>st_forwarder := Forwarding (streamOutput env (st_modelID str) t event)\<rparr>, (t, s1))
      }
      else None)"

text \<open>The send on the output channel, and the end of the request when the output is its last.\<close>

definition forwardSend :: "stream \<Rightarrow> 'q engine \<Rightarrow> (stream \<times> 'q engine) option" where
  "forwardSend str engine = (case st_forwarder str of
     Forwarding output \<Rightarrow>
       if st_closed str \<or> chOutCap \<le> length (st_chOut str) then None
       else let str1 = str\<lparr>st_chOut := st_chOut str @ [output]\<rparr>
            in if out_Done output then do {
                 let (t, s) = engine;
                 st \<leftarrow> sm_Finish (st_requestId str) (w_state (s_world s));
                 Some (str1\<lparr>st_closed := True, st_forwarder := Returned\<rparr>, (t, updState st s))
               }
               else Some (str1\<lparr>st_forwarder := Selecting\<rparr>, engine)
   | _ \<Rightarrow> None)"

text \<open>The second case of the \<^verbatim>\<open>select\<close>, once the caller's context is done.\<close>

definition forwardCancel :: "stream \<Rightarrow> 'q engine \<Rightarrow> (stream \<times> 'q engine) option" where
  "forwardCancel str engine =
     (if st_forwarder str = Selecting then do {
        let (t, s) = engine;
        st \<leftarrow> sm_Cancel (st_requestId str) (w_state (s_world s));
        Some (str\<lparr>st_closed := True, st_forwarder := Returned\<rparr>, (t, updState st s))
      }
      else None)"

text \<open>The caller's receive: an output, or the end of the closed channel.\<close>

definition readOutput :: "stream \<Rightarrow> (GenerateOutput option \<times> stream) option" where
  "readOutput str = (case st_chOut str of
     out # outs \<Rightarrow> Some (Some out, str\<lparr>st_chOut := outs\<rparr>)
   | [] \<Rightarrow> if st_closed str then Some (None, str) else None)"

text \<open>\<open>cancelled\<close> says that the caller's context is done.\<close>

inductive forward_step :: "'q tokenizer_env \<Rightarrow> bool \<Rightarrow> stream \<times> 'q engine \<Rightarrow> stream \<times> 'q engine \<Rightarrow> bool" for env where
  receive: "forwardReceive env str engine = Some r \<Longrightarrow> forward_step env cancelled (str, engine) r"
| send: "forwardSend str engine = Some r \<Longrightarrow> forward_step env cancelled (str, engine) r"
| cancel: "forwardCancel str engine = Some r \<Longrightarrow> forward_step env True (str, engine) r"

inductive_cases forward_stepE: "forward_step env cancelled a b"

text \<open>
  A stream's whole life: the events its forwarder has received and the outputs its caller has read so
  far.  The rest of the engine may change in any way between the steps.
\<close>

inductive stream_run :: "'q tokenizer_env \<Rightarrow> stream \<Rightarrow> Event list \<Rightarrow> GenerateOutput list \<Rightarrow> bool" for env where
  start: "st_chOut str = [] \<Longrightarrow> \<not> st_closed str \<Longrightarrow> st_forwarder str = Selecting \<Longrightarrow> stream_run env str [] []"
| receive: "stream_run env str es outs \<Longrightarrow> chan_recv (st_eventCh str) (w_state (s_world s)) = Some (Some e, st) \<Longrightarrow>
    forwardReceive env str (t, s) = Some (str1, engine) \<Longrightarrow> stream_run env str1 (es @ [e]) outs"
| ended: "stream_run env str es outs \<Longrightarrow> chan_recv (st_eventCh str) (w_state (s_world s)) = Some (None, st) \<Longrightarrow>
    forwardReceive env str (t, s) = Some (str1, engine) \<Longrightarrow> stream_run env str1 es outs"
| send: "stream_run env str es outs \<Longrightarrow> forwardSend str (engine :: 'q engine) = Some (str1, engine1) \<Longrightarrow> stream_run env str1 es outs"
| cancel: "stream_run env str es outs \<Longrightarrow> forwardCancel str (engine :: 'q engine) = Some (str1, engine1) \<Longrightarrow> stream_run env str1 es outs"
| read: "stream_run env str es outs \<Longrightarrow> readOutput str = Some (Some out, str1) \<Longrightarrow> stream_run env str1 es (outs @ [out])"

end
