(* ===== verification/Handler_Properties.thy ===== *)
theory Handler_Properties
  imports Handler Sched_Demo
begin

text \<open>The properties of the inference handler: what a stream delivers, and what holds it up.\<close>

subsection \<open>Starting a stream\<close>

lemma AssignExecutor_frame:
  assumes "AssignExecutor req s = (err, req1, s1)"
  shows "same_setup s s1" "same_queues s s1" "s_world s1 = s_world s" "s_executorManager s1 = s_executorManager s"
    "\<exists>e. req1 = req\<lparr>rq_ExecutorID := e\<rparr>"
proof -
  have same: "\<exists>e. req = req\<lparr>rq_ExecutorID := e\<rparr>"
    by (intro exI [of _ "rq_ExecutorID req"]) simp
  show "same_setup s s1" "same_queues s s1" "s_world s1 = s_world s" "s_executorManager s1 = s_executorManager s"
    using assms by (auto simp: AssignExecutor_def Let_def same_setup_def same_queues_def split: if_splits)
  have "req1 = req \<or> (\<exists>e. req1 = req\<lparr>rq_ExecutorID := e\<rparr>)"
    using assms by (auto simp: AssignExecutor_def Let_def split: if_splits)
  then show "\<exists>e. req1 = req\<lparr>rq_ExecutorID := e\<rparr>"
    using same by blast
qed

lemma createRequest_ok:
  fixes s :: scheduler
  defines "st \<equiv> w_state (s_world s)"
  assumes inv: "sm_inv st" and new: "fmlookup (requestsOf s) (rq_RequestId req) = None" and bind: "may_bind req st"
    and room: "match_room req st" and prompt: "rq_PromptTokens req = of_nat (length (rq_TokenIDs req))" "rq_TokenIDs req \<noteq> []"
  shows "\<exists>work s2 cache c. createRequest req s = Some (Inr work, s2) \<and> sm_inv (w_state (s_world s2)) \<and> same_setup s s2 \<and> same_queues s s2 \<and>
    requestsOf s2 = fmupd (rq_RequestId req) (req\<lparr>rq_Phase := RequestPhasePrefillReady, rq_ExecutorID := bound_executor req st,
      rq_Cache := Some cache, rq_ComputedTokens := pm_CachedTokens cache\<rparr>) (requestsOf s) \<and>
    sm_Subscribe (rq_RequestId req) (w_state (s_world s2)) = Inr c \<and>
    fmlookup (sm_channels (w_state (s_world s2))) c = Some \<lparr>ch_buf = [], ch_closed = False\<rparr> \<and>
    prefill_item work \<and> wk_RequestId work = rq_RequestId req \<and> wk_ExecutorID work = bound_executor req st \<and>
    wk_TokenCntTotal work = of_nat (length (rq_TokenIDs req))"
proof -
  let ?w = "s_world s"
  obtain work st1 cache where c: "sm_Create (w_now ?w) (w_fresh ?w) req st = Some (Inr work, st1)" "sm_inv st1"
      "sm_requests st1 = fmupd (rq_RequestId req) (req\<lparr>rq_Phase := RequestPhasePrefillReady, rq_ExecutorID := bound_executor req st,
         rq_Cache := Some cache, rq_ComputedTokens := pm_CachedTokens cache\<rparr>) (sm_requests st)"
      "sm_subscribeCh st1 = fmupd (rq_RequestId req) (sm_nextChannel st) (sm_subscribeCh st)"
      "fmlookup (sm_channels st1) (sm_nextChannel st) = Some \<lparr>ch_buf = [], ch_closed = False\<rparr>"
      "wk_RequestId work = rq_RequestId req" "wk_ExecutorID work = bound_executor req st" "wk_Phase work = WorkPhasePrefill"
      "unat (wk_NumNewTokens work) = length (wk_TokenIDs work)" "wk_TokenCntTotal work = of_nat (length (rq_TokenIDs req))"
    using sm_Create_ok [OF inv _ bind room prompt, of "w_now ?w" "w_fresh ?w"] new unfolding st_def by blast
  then show ?thesis
    unfolding st_def
    by (intro exI [of _ work] exI [of _ "s\<lparr>s_world := w_advance st1 ?w\<rparr>"] exI [of _ cache] exI [of _ "sm_nextChannel st"])
      (simp add: createRequest_def Let_def same_setup_def same_queues_def w_advance_def sm_Subscribe_def prefill_item_def st_def)
qed

text \<open>
  C28: a request whose prompt tokenizes, whose identifier is new and whose executor is known is served:
  when its prefill queue has room the caller gets a stream on an open, empty event channel, the request
  is live and its work waits last in the queue of its executor; when it has none, the request has left
  the table, the queues are as they were, and the caller gets an internal error in place of the reason.
\<close>

theorem generate_stream_contract:
  fixes s :: scheduler
  defines "st \<equiv> w_state (s_world s)"
  assumes "sm_inv st" and "has_queues s" and "tokenizer_Encode env (rq_ModelID req) (rq_Prompt req) t = (Inr tokens, t1)" and "tokens \<noteq> []"
    and "fmlookup (requestsOf s) (rq_RequestId req) = None"
    and "AssignExecutor (req\<lparr>rq_TokenIDs := tokens, rq_PromptTokens := of_nat (length tokens)\<rparr>) s = (None, req1, s1)"
    and "may_bind req1 st" and "match_room req1 st"
  shows "\<exists>r s3 work. GenerateStream env req (t, s) = Some (r, (t1, s3)) \<and> sm_inv (w_state (s_world s3)) \<and> has_queues s3 \<and>
    prefill_item work \<and> wk_RequestId work = rq_RequestId req \<and> wk_ExecutorID work = bound_executor req1 st \<and>
    wk_TokenCntTotal work = of_nat (length tokens) \<and>
    (if admits work s
     then \<exists>str rq. r = Inr str \<and> st_requestId str = rq_RequestId req \<and> st_forwarder str = Selecting \<and> st_chOut str = [] \<and>
       fmlookup (sm_channels (w_state (s_world s3))) (st_eventCh str) = Some \<lparr>ch_buf = [], ch_closed = False\<rparr> \<and>
       fmlookup (requestsOf s3) (rq_RequestId req) = Some rq \<and> rq_TokenIDs rq = tokens \<and> rq_Phase rq = RequestPhasePrefillReady \<and>
       joined work s s3
     else \<exists>err. r = Inl err \<and> CodeOf (Some err) = CodeInternal \<and> gone (rq_RequestId req) (w_state (s_world s3)) \<and> waiting s3 = waiting s)"
proof -
  let ?q = "rq_RequestId req"
  let ?req = "req\<lparr>rq_TokenIDs := tokens, rq_PromptTokens := of_nat (length tokens)\<rparr>"
  note af = AssignExecutor_frame [OF assms(7)]
  obtain e where e: "req1 = ?req\<lparr>rq_ExecutorID := e\<rparr>"
    using af(5) by blast
  have r1: "rq_RequestId req1 = ?q" "rq_TokenIDs req1 = tokens" "rq_PromptTokens req1 = of_nat (length (rq_TokenIDs req1))" "rq_TokenIDs req1 \<noteq> []"
      "rq_ModelID req1 = rq_ModelID req"
    using assms(5) by (simp_all add: e)
  have st1: "sm_inv (w_state (s_world s1))" "may_bind req1 (w_state (s_world s1))" "match_room req1 (w_state (s_world s1))"
      "fmlookup (requestsOf s1) (rq_RequestId req1) = None" "w_state (s_world s1) = st"
    using assms(2,6,8,9) r1(1) by (simp_all add: af(3) st_def)
  obtain work s2 cache c where c: "createRequest req1 s1 = Some (Inr work, s2)" "sm_inv (w_state (s_world s2))" "same_setup s1 s2" "same_queues s1 s2"
      "requestsOf s2 = fmupd ?q (req1\<lparr>rq_Phase := RequestPhasePrefillReady, rq_ExecutorID := bound_executor req1 st,
         rq_Cache := Some cache, rq_ComputedTokens := pm_CachedTokens cache\<rparr>) (requestsOf s1)"
      "sm_Subscribe ?q (w_state (s_world s2)) = Inr c" "fmlookup (sm_channels (w_state (s_world s2))) c = Some \<lparr>ch_buf = [], ch_closed = False\<rparr>"
      "prefill_item work" "wk_RequestId work = ?q" "wk_ExecutorID work = bound_executor req1 st" "wk_TokenCntTotal work = of_nat (length tokens)"
    using createRequest_ok [OF st1(1,4,2,3) r1(3,4)] unfolding r1(1,2) st1(5) by blast
  have f: "same_setup s s2" "same_queues s s2"
    using same_setup_trans [OF af(1) c(3)] af(2) c(4) by (simp_all add: same_queues_def)
  have hq: "has_queues s2"
    using has_queues_frame [OF f(2,1)] assms(3) by simp
  have g: "GenerateStream env req (t, s) = do {
      (err, s3) \<leftarrow> sched_Enqueue work s2;
      case err of
        Some er \<Rightarrow> Some (Inl (internalError er), (t1, s3))
      | None \<Rightarrow> Some (Inr \<lparr>st_requestId = ?q, st_modelID = rq_ModelID req, st_eventCh = c, st_chOut = [], st_closed = False,
          st_forwarder = Selecting\<rparr>, (t1, s3)) }"
    using assms(4,7) c(1,6,9) r1(1,5) by (simp add: GenerateStream_def cong: option.case_cong)
  have chan: "fmlookup (sm_subscribeCh (w_state (s_world s2))) ?q = Some c"
    using c(6) by (simp add: sm_Subscribe_def split: option.splits)
  show ?thesis
  proof (cases "admits work s")
    case True
    then have "admits work s2"
      using admits_frame [OF f(2,1)] by simp
    then obtain s3 m where s3: "sched_Enqueue work s2 = Some (None, s3)" "has_queues s3" "joined (stamped work s2) s2 s3" "requestsOf s3 = requestsOf s2"
        "w_state (s_world s3) = (w_state (s_world s2))\<lparr>sm_metrics := m\<rparr>"
      using sched_Enqueue_ok [OF hq] by blast
    have "admits (stamped work s2) s"
      using True by simp
    moreover have "joined (stamped work s2) s s3"
      using s3(3) joined_frame(1) [OF f(2,1)] by simp
    ultimately show ?thesis
      using g s3 c r1(2) by (intro exI [of _ "Inr _"] exI [of _ s3] exI [of _ "stamped work s2"]) auto
  next
    case False
    then have no: "\<not> admits work s2"
      using admits_frame [OF f(2,1)] by simp
    have "sub_room (wk_RequestId work) (w_state (s_world s2))"
      using c(7,9) chan by (simp add: sub_room_def chan_room_def chan_cap_def)
    then obtain er s3 where s3: "sched_Enqueue work s2 = Some (Some er, s3)" "sm_inv (w_state (s_world s3))" "gone ?q (w_state (s_world s3))"
        "has_queues s3" "waiting s3 = waiting s2"
      using sched_Enqueue_gone [OF hq _ no c(2)] c(8,9) by auto
    have "CodeOf (Some (internalError er)) = CodeInternal"
      by (simp add: internalError_def)
    then show ?thesis
      using g s3 False waiting_frame [OF f(2)] c(8-11) by (intro exI [of _ "Inl (internalError er)"] exI [of _ s3] exI [of _ work]) simp
  qed
qed

text \<open>A tokenizer environment without Qwen models, and a prompt of one field.\<close>

definition demo_env :: "unit tokenizer_env" where
  "demo_env = \<lparr>te_NewQwenTokenizer = (\<lambda>_. Inl (OtherError [])), te_Encode = (\<lambda>_ _. Inl (OtherError [])),
     te_Decode = (\<lambda>_ _. Inl (OtherError [])), te_readConfig = (\<lambda>_. Inl (OtherError []))\<rparr>"

definition demo_tokenizer :: "unit tokenizer" where
  "demo_tokenizer = \<lparr>tk_tokenizers = fmupd ''m'' (MockTokenizer newMockTokenizer) fmempty\<rparr>"

definition demo_prompt :: Request where
  "demo_prompt = demo_request\<lparr>rq_RequestId := ''A'', rq_Prompt := ''hi'', rq_ExecutorID := []\<rparr>"

lemma demo_encode:
  "\<exists>t1. tokenizer_Encode demo_env (rq_ModelID demo_prompt) (rq_Prompt demo_prompt) demo_tokenizer = (Inr [stableHash32 ''hi''], t1)"
proof -
  have "Fields ''hi'' = [''hi'']"
    by (simp add: Fields_def fields_from_Nil fields_from_Cons space_width_def space_encodings_def starts_with_def Let_def)
  then show ?thesis
    by (simp add: tokenizer_Encode_def demo_prompt_def demo_request_def demo_tokenizer_def mock_Encode_def newMockTokenizer_def Let_def)
qed

theorem generate_stream_contract_witness:
  "\<exists>str t3 s3. GenerateStream demo_env demo_prompt (demo_tokenizer, sched_new 8 (\<lambda>_. 0)) = Some (Inr str, (t3, s3)) \<and>
     st_requestId str = ''A'' \<and> sm_inv (w_state (s_world s3))"
proof -
  let ?s = "sched_new 8 (\<lambda>_. 0)" and ?tokens = "[stableHash32 ''hi'']"
  let ?req = "demo_prompt\<lparr>rq_TokenIDs := ?tokens, rq_PromptTokens := of_nat (length ?tokens)\<rparr>"
  let ?req1 = "?req\<lparr>rq_ExecutorID := ''a''\<rparr>" and ?s1 = "?s\<lparr>s_nextExecutor := 1\<rparr>"
  obtain t1 where t1: "tokenizer_Encode demo_env (rq_ModelID demo_prompt) (rq_Prompt demo_prompt) demo_tokenizer = (Inr ?tokens, t1)"
    using demo_encode by blast
  have ids: "s_executorIDs ?s = [''a'']"
    by (simp add: sched_new_def NewScheduler_def sched_world_def Let_def NewRequestLifecycleStateManager_def sched_ids)
  have a: "AssignExecutor ?req ?s = (None, ?req1, ?s1)"
    by (simp add: AssignExecutor_def ids demo_prompt_def demo_request_def Let_def) (simp add: sched_new_def NewScheduler_def Let_def)
  have b: "bound_executor ?req1 (w_state (s_world ?s)) = ''a''" "may_bind ?req1 (w_state (s_world ?s))"
    using sched_has by (simp_all add: bound_executor_def may_bind_def sched_new_state NewRequestLifecycleStateManager_def)
  have m: "match_room ?req1 (w_state (s_world ?s))"
    by (rule sched_room) simp
  have new: "fmlookup (requestsOf ?s) (rq_RequestId demo_prompt) = None"
    by (simp add: sched_new_state NewRequestLifecycleStateManager_def)
  have adm: "admits w ?s" if "prefill_item w" "wk_ExecutorID w = ''a''" "wk_TokenCntTotal w = of_nat (length ?tokens)" for w
    using that by (simp add: admits_def prefill_item_def sched_new_def NewScheduler_def sched_conf_def demo_conf_def Let_def sched_world_def
        NewRequestLifecycleStateManager_def sched_ids NewPrefillQueue_def queueLength_def pq_AvailableSpace_def)
  have q: "rq_RequestId demo_prompt = ''A''" "?tokens \<noteq> []"
    by (simp_all add: demo_prompt_def)
  from generate_stream_contract [OF sched_new_inv sched_new_queues(1) t1 q(2) new a b(2) m] show ?thesis
    unfolding b(1) q(1)
  proof (elim exE conjE)
    fix r s3 work
    assume r: "GenerateStream demo_env demo_prompt (demo_tokenizer, ?s) = Some (r, (t1, s3))" "sm_inv (w_state (s_world s3))"
      and w: "prefill_item work" "wk_ExecutorID work = ''a''" "wk_TokenCntTotal work = of_nat (length ?tokens)"
      and c: "if admits work ?s then \<exists>str rq. r = Inr str \<and> st_requestId str = ''A'' \<and> st_forwarder str = Selecting \<and> st_chOut str = [] \<and>
         fmlookup (sm_channels (w_state (s_world s3))) (st_eventCh str) = Some \<lparr>ch_buf = [], ch_closed = False\<rparr> \<and>
         fmlookup (requestsOf s3) ''A'' = Some rq \<and> rq_TokenIDs rq = ?tokens \<and> rq_Phase rq = RequestPhasePrefillReady \<and> joined work ?s s3
       else \<exists>err. r = Inl err \<and> CodeOf (Some err) = CodeInternal \<and> gone ''A'' (w_state (s_world s3)) \<and> waiting s3 = waiting ?s"
    obtain str where "r = Inr str" "st_requestId str = ''A''"
      using c unfolding if_P [OF adm [OF w]] by blast
    then show ?thesis
      using r by blast
  qed
qed

subsection \<open>Delivery\<close>

definition shown :: "Event list \<Rightarrow> Event list" where
  "shown es = filter (\<lambda>e. ev_Type e \<noteq> EventTypePrefillChunk) es"

definition output_of :: "'q tokenizer_env \<Rightarrow> LLMModelID \<Rightarrow> GenerateOutput \<Rightarrow> Event \<Rightarrow> bool" where
  "output_of env modelID out e \<longleftrightarrow> (\<exists>t. out = streamOutput env modelID t e)"

definition inHand :: "stream \<Rightarrow> GenerateOutput list" where
  "inHand str = (case st_forwarder str of Forwarding out \<Rightarrow> [out] | _ \<Rightarrow> [])"

lemma output_of_fields:
  "output_of env modelID out e \<Longrightarrow> out_RequestId out = ev_RequestId e \<and> out_Index out = ev_ChunkIndex e \<and> out_Done out = ev_Done e \<and>
     out_Usage out = ev_Usage e \<and> out_FinishReason out = ev_FinishReason e"
  by (auto simp: output_of_def streamOutput_def Let_def case_prod_unfold)

lemma shown_simps [simp]: "shown [] = []" "shown (es @ [e]) = shown es @ (if ev_Type e = EventTypePrefillChunk then [] else [e])"
  by (simp_all add: shown_def)

text \<open>
  The invariant of a stream: what has been read, is in the output channel or in the forwarder's hand is
  what the received events show, in order; nothing follows an event that is done.
\<close>

definition in_order :: "'q tokenizer_env \<Rightarrow> Event list \<Rightarrow> GenerateOutput list \<Rightarrow> stream \<Rightarrow> bool" where
  "in_order env es outs str \<longleftrightarrow>
     list_all2 (output_of env (st_modelID str)) (outs @ st_chOut str @ inHand str) (shown es) \<and> length (st_chOut str) \<le> chOutCap \<and>
     (st_forwarder str = Selecting \<longrightarrow> (\<forall>e \<in> set (shown es). \<not> ev_Done e)) \<and> (\<forall>e \<in> set (butlast (shown es)). \<not> ev_Done e) \<and>
     (st_closed str \<longrightarrow> st_forwarder str = Returned)"

lemma in_order_receive:
  assumes inv: "in_order env es outs str" and ev: "chan_recv (st_eventCh str) (w_state (s_world s)) = Some (Some e, st)"
    and step: "forwardReceive env str (t, s) = Some (str1, engine)"
  shows "in_order env (es @ [e]) outs str1"
proof -
  have sel: "st_forwarder str = Selecting"
    using step by (simp add: forwardReceive_def split: if_splits)
  show ?thesis
  proof (cases "ev_Type e = EventTypePrefillChunk")
    case True
    then have "str1 = str"
      using ev step sel by (simp add: forwardReceive_def)
    then show ?thesis
      using inv True by (simp add: in_order_def)
  next
    case False
    then have "str1 = str\<lparr>st_forwarder := Forwarding (streamOutput env (st_modelID str) t e)\<rparr>"
      using ev step sel by (simp add: forwardReceive_def)
    moreover have "output_of env (st_modelID str) (streamOutput env (st_modelID str) t e) e"
      by (auto simp: output_of_def)
    ultimately show ?thesis
      using inv False sel
      by (auto simp: in_order_def inHand_def intro: list_all2_appendI [of _ "outs @ st_chOut str" _ "[_]" "[e]", simplified])
  qed
qed

lemma in_order_send:
  assumes inv: "in_order env es outs str" and step: "forwardSend str engine = Some (str1, engine1)"
  shows "in_order env es outs str1"
proof -
  obtain out where out: "st_forwarder str = Forwarding out" "\<not> st_closed str" "length (st_chOut str) < chOutCap"
    using step by (auto simp: forwardSend_def split: forwarder.splits if_splits)
  have str1: "st_chOut str1 = st_chOut str @ [out]" "st_modelID str1 = st_modelID str" "inHand str1 = []"
      "st_closed str1 \<longrightarrow> st_forwarder str1 = Returned" "st_forwarder str1 = Selecting \<longrightarrow> \<not> out_Done out"
    using step out by (auto simp: forwardSend_def inHand_def Let_def split: if_splits bind_splits prod.splits)
  have all: "list_all2 (output_of env (st_modelID str)) ((outs @ st_chOut str) @ [out]) (shown es)"
    using inv out(1) by (simp add: in_order_def inHand_def)
  then obtain xs e where xs: "shown es = xs @ [e]" "output_of env (st_modelID str) out e"
    unfolding list_all2_append1 list_all2_Cons1 by auto
  then have "out_Done out = ev_Done e"
    using output_of_fields by blast
  then have "\<forall>e \<in> set (shown es). \<not> ev_Done e" if "\<not> out_Done out"
    using inv that xs(1) by (simp add: in_order_def)
  then show ?thesis
    using inv all str1 out(3) by (auto simp: in_order_def)
qed

lemma in_order_read:
  assumes inv: "in_order env es outs str" and step: "readOutput str = Some (Some out, str1)"
  shows "in_order env es (outs @ [out]) str1"
proof -
  obtain rest where "str1 = str\<lparr>st_chOut := rest\<rparr>" "st_chOut str = out # rest"
    using step by (auto simp: readOutput_def split: list.splits if_splits)
  then show ?thesis
    using inv by (simp add: in_order_def inHand_def)
qed

lemma stream_run_in_order: "stream_run env str es outs \<Longrightarrow> in_order env es outs str"
proof (induction rule: stream_run.induct)
  case (start str)
  then show ?case
    by (simp add: in_order_def inHand_def)
next
  case (ended str es outs s st t str1 engine)
  then have "str1 = str\<lparr>st_forwarder := Returned\<rparr>" "st_forwarder str = Selecting"
    by (simp_all add: forwardReceive_def split: if_splits)
  then show ?case
    using ended.IH by (simp add: in_order_def inHand_def)
next
  case (cancel str es outs engine str1 engine1)
  then have "str1 = str\<lparr>st_closed := True, st_forwarder := Returned\<rparr>" "st_forwarder str = Selecting"
    by (auto simp: forwardCancel_def split: if_splits bind_splits prod.splits)
  then show ?case
    using cancel.IH by (simp add: in_order_def inHand_def)
qed (blast intro: in_order_receive in_order_send in_order_read)+

text \<open>
  C29: in every run of a stream, whatever the engine does meanwhile, the outputs read by the caller,
  those in the output channel and the one in the forwarder's hand are together exactly the outputs of the
  received events other than prefill chunks, in order, each once; the channel never holds more than five;
  no event is received after one that is done, and the channel is closed only when the forwarder has
  returned.
\<close>

theorem stream_in_order:
  assumes "stream_run env str es outs"
  shows "list_all2 (output_of env (st_modelID str)) (outs @ st_chOut str @ inHand str) (shown es) \<and> length (st_chOut str) \<le> 5 \<and>
    (st_forwarder str = Selecting \<longrightarrow> (\<forall>e \<in> set (shown es). \<not> ev_Done e)) \<and> (\<forall>e \<in> set (butlast (shown es)). \<not> ev_Done e) \<and>
    (st_closed str \<longrightarrow> st_forwarder str = Returned)"
  using stream_run_in_order [OF assms] by (simp add: in_order_def chOutCap_def)

definition demo_stream :: stream where
  "demo_stream = \<lparr>st_requestId = ''A'', st_modelID = ''m'', st_eventCh = 0, st_chOut = [], st_closed = False, st_forwarder = Selecting\<rparr>"

text \<open>A stream that has received one event.\<close>

lemma demo_received:
  assumes "ev_Type e \<noteq> EventTypePrefillChunk"
  shows "stream_run demo_env (demo_stream\<lparr>st_forwarder := Forwarding (streamOutput demo_env ''m'' demo_tokenizer e)\<rparr>) [e] []"
proof -
  let ?st = "(w_state (s_world (one_admitted 8)))\<lparr>sm_channels := fmupd 0 \<lparr>ch_buf = [e], ch_closed = False\<rparr> fmempty\<rparr>"
  let ?s = "updState ?st (one_admitted 8)"
  have s: "stream_run demo_env demo_stream [] []"
    by (rule stream_run.start) (simp_all add: demo_stream_def)
  have r: "chan_recv 0 (w_state (s_world ?s)) = Some (Some e, ?st\<lparr>sm_channels := fmupd 0 \<lparr>ch_buf = [], ch_closed = False\<rparr> (sm_channels ?st)\<rparr>)"
    by (simp add: chan_recv_def updState_def)
  then have "forwardReceive demo_env demo_stream (demo_tokenizer, ?s) = Some (demo_stream\<lparr>st_forwarder := Forwarding (streamOutput demo_env ''m'' demo_tokenizer e)\<rparr>,
      (demo_tokenizer, updState (?st\<lparr>sm_channels := fmupd 0 \<lparr>ch_buf = [], ch_closed = False\<rparr> (sm_channels ?st)\<rparr>) ?s))"
    using assms by (simp add: forwardReceive_def demo_stream_def)
  then show ?thesis
    using stream_run.receive [OF s, of ?s e] r by (simp add: demo_stream_def)
qed

theorem stream_in_order_witness:
  "\<exists>out. stream_run demo_env (demo_stream\<lparr>st_forwarder := Forwarding out\<rparr>) [zero_Event\<lparr>ev_Type := EventTypeDecodeChunk\<rparr>] [] \<and>
     output_of demo_env ''m'' out (zero_Event\<lparr>ev_Type := EventTypeDecodeChunk\<rparr>)"
proof -
  let ?e = "zero_Event\<lparr>ev_Type := EventTypeDecodeChunk\<rparr>"
  let ?out = "streamOutput demo_env ''m'' demo_tokenizer ?e"
  have run: "stream_run demo_env (demo_stream\<lparr>st_forwarder := Forwarding ?out\<rparr>) [?e] []"
    by (rule demo_received) simp
  have "output_of demo_env ''m'' ?out ?e"
    using conjunct1 [OF stream_in_order [OF run]] by (simp add: inHand_def demo_stream_def shown_def)
  with run show ?thesis
    by blast
qed

text \<open>
  C30: a caller that stops reading stops the engine.  Once its output channel and its event channel are
  full, the forwarder has no step, not even when the caller's context is done, so that the request is
  never cancelled; the next event of that request blocks the handling of all events, and after its
  deadline the check of its next work blocks the assembly of batches.
\<close>

theorem slow_reader_blocks:
  assumes "sm_inv (w_state (s_world s))" and "fmlookup (requestsOf s) (ev_RequestId event) = Some rq"
    and "fmlookup (sm_subscribeCh (w_state (s_world s))) (ev_RequestId event) = Some c"
    and "fmlookup (sm_channels (w_state (s_world s))) c = Some ch" and "chan_cap \<le> length (ch_buf ch)"
    and "st_forwarder str = Forwarding output" and "chOutCap \<le> length (st_chOut str)"
  shows "\<not> forward_step env cancelled (str, (t, s)) r \<and> handleEvent event s = None \<and>
    (expired now rq \<and> wk_RequestId work = ev_RequestId event \<longrightarrow> sm_CanSchedule now uuid work (w_state (s_world s)) = None)"
proof (intro conjI impI notI)
  assume "forward_step env cancelled (str, (t, s)) r"
  then show False
    using assms(6,7) by (auto elim!: forward_stepE simp: forwardReceive_def forwardSend_def forwardCancel_def)
next
  let ?st = "w_state (s_world s)"
  obtain ferr reg where fin: "finalizeBlocks event rq (registryOf s) = Some (ferr, reg)"
    using finalizeBlocks_spec [OF assms(1,2)] by blast
  let ?ev = "case ferr of None \<Rightarrow> event | Some err \<Rightarrow> failedBy err event"
  have q: "ev_RequestId ?ev = ev_RequestId event"
    by (simp add: failedBy_def split: option.splits)
  have full: "chan_send c e st' = None" if "sm_channels st' = sm_channels ?st" for e st'
    using that assms(4,5) by (auto simp: chan_send_None_iff chan_room_def)
  have "sm_OnEvent now uuid ?ev (?st\<lparr>sm_blockRegistry := reg\<rparr>) = None" for now uuid
  proof (cases "applyEvent now uuid ?ev rq")
    case None
    then show ?thesis
      using assms(2) q by (simp add: sm_OnEvent_def onEventLocked_def)
  next
    case (Some a)
    obtain rq' ev' items where a: "a = (rq', ev', items)"
      by (cases a)
    have "ev_RequestId ev' = ev_RequestId event"
      using applyEvent_keeps(5) [OF Some [unfolded a]] q by simp
    then show ?thesis
      using assms(2,3) q Some a full by (simp add: sm_OnEvent_def onEventLocked_def)
  qed
  moreover have "w_state (s_world (setRegistry reg s)) = ?st\<lparr>sm_blockRegistry := reg\<rparr>"
    by (simp add: setRegistry_def Let_def)
  ultimately show "handleEvent event s = None"
    unfolding handleEvent_def using assms(2) fin by (simp add: Let_def)
next
  let ?st = "w_state (s_world s)"
  assume a: "expired now rq \<and> wk_RequestId work = ev_RequestId event"
  obtain st1 where st1: "deleteRequest (ev_RequestId event) ?st = Some st1" "sm_channels st1 = sm_channels ?st"
    using deleteRequest_spec [OF assms(1,2)] by blast
  then have "chan_send c e st1 = None" for e
    using assms(4,5) by (auto simp: chan_send_None_iff chan_room_def)
  then show "sm_CanSchedule now uuid work ?st = None"
    using a assms(2,3) st1 by (simp add: sm_CanSchedule_def expired_def Let_def)
qed

text \<open>The admitted request of the small scheduler, with a full event channel.\<close>

definition stalled :: "nat \<Rightarrow> scheduler" where
  "stalled c = (let s = one_admitted 8; st = w_state (s_world s) in
     updState (st\<lparr>sm_channels := fmupd c \<lparr>ch_buf = replicate chan_cap zero_Event, ch_closed = False\<rparr> (sm_channels st)\<rparr>) s)"

theorem slow_reader_blocks_witness:
  "\<exists>c rq. fmlookup (sm_subscribeCh (w_state (s_world (stalled c)))) ''A'' = Some c \<and> fmlookup (requestsOf (stalled c)) ''A'' = Some rq \<and>
     handleEvent (zero_Event\<lparr>ev_RequestId := ''A''\<rparr>) (stalled c) = None"
proof -
  let ?st = "w_state (s_world (one_admitted 8))" and ?e = "zero_Event\<lparr>ev_RequestId := ''A''\<rparr>"
  let ?out = "streamOutput demo_env ''m'' demo_tokenizer ?e"
  let ?str = "demo_stream\<lparr>st_forwarder := Forwarding ?out, st_chOut := replicate 5 ?out\<rparr>"
  obtain rq where rq: "fmlookup (sm_requests ?st) ''A'' = Some rq" and inv: "sm_inv ?st"
    using one_admitted [of 8] by auto
  then obtain c ch where c: "fmlookup (sm_subscribeCh ?st) ''A'' = Some c" "fmlookup (sm_channels ?st) c = Some ch"
    using sm_invD(2) [OF inv] unfolding channels_ok_def by (metis (no_types, lifting) option.distinct(1) option.exhaust)
  let ?st' = "w_state (s_world (stalled c))"
  have st': "?st' = ?st\<lparr>sm_channels := fmupd c \<lparr>ch_buf = replicate chan_cap zero_Event, ch_closed = False\<rparr> (sm_channels ?st)\<rparr>"
    by (simp add: stalled_def updState_def Let_def)
  have "sm_inv ?st'"
    by (rule sm_inv_channel [OF inv, of _ c "\<lparr>ch_buf = replicate chan_cap zero_Event, ch_closed = False\<rparr>"])
      (use c in \<open>simp_all add: st' chan_frame_def\<close>)
  from slow_reader_blocks [OF this, of ?e rq c _ ?str ?out demo_env True demo_tokenizer] show ?thesis
    using c rq by (intro exI [of _ c] exI [of _ rq]) (simp add: st' chOutCap_def)
qed

end
