(* ===== verification/Transport.thy ===== *)
theory Transport
  imports Kv_Utils Kv_Strings Placement
begin

text \<open>
  The HTTP side of the servers: cross-origin access (\<^verbatim>\<open>internal/transport/cors.go\<close>), the admin service
  (\<^verbatim>\<open>admin.go\<close>) and the addresses the servers are built with.  A handler is a function of the request,
  the response written so far and the state behind it; of \<^verbatim>\<open>net/http\<close> there is what the code calls.
\<close>

subsection \<open>Requests and responses\<close>

text \<open>Header names are in canonical form; the first \<^verbatim>\<open>WriteHeader\<close> decides the status.\<close>

type_synonym header = "(string, string list) fmap"

record http_request =
  hr_Method :: string
  hr_Path :: string
  hr_Header :: header

record response_writer =
  rw_Header :: header
  rw_Status :: "nat option"
  rw_Body :: string

type_synonym 's handler = "http_request \<Rightarrow> response_writer \<Rightarrow> 's \<Rightarrow> response_writer \<times> 's"

definition header_Get :: "string \<Rightarrow> header \<Rightarrow> string" where
  "header_Get k h = (case fmlookup h k of Some (v # _) \<Rightarrow> v | _ \<Rightarrow> [])"

definition header_Set :: "string \<Rightarrow> string \<Rightarrow> response_writer \<Rightarrow> response_writer" where
  "header_Set k v w = w\<lparr>rw_Header := fmupd k [v] (rw_Header w)\<rparr>"

definition header_Add :: "string \<Rightarrow> string \<Rightarrow> response_writer \<Rightarrow> response_writer" where
  "header_Add k v w = w\<lparr>rw_Header := fmupd k ((case fmlookup (rw_Header w) k of None \<Rightarrow> [] | Some vs \<Rightarrow> vs) @ [v]) (rw_Header w)\<rparr>"

definition WriteHeader :: "nat \<Rightarrow> response_writer \<Rightarrow> response_writer" where
  "WriteHeader code w = (if rw_Status w = None then w\<lparr>rw_Status := Some code\<rparr> else w)"

text \<open>\<^verbatim>\<open>http.Error\<close>.\<close>

definition http_Error :: "string \<Rightarrow> nat \<Rightarrow> response_writer \<Rightarrow> response_writer" where
  "http_Error message code w =
     (let w1 = w\<lparr>rw_Header := fmdrop ''Content-Length'' (rw_Header w)\<rparr>;
          w2 = header_Set ''X-Content-Type-Options'' ''nosniff'' (header_Set ''Content-Type'' ''text/plain; charset=utf-8'' w1);
          w3 = WriteHeader code w2
      in w3\<lparr>rw_Body := rw_Body w3 @ message @ [CHR 10]\<rparr>)"

subsection \<open>Cross-origin access (cors.go)\<close>

definition MethodOptions :: string where "MethodOptions = ''OPTIONS''"

definition allowedOrigins :: "string list \<Rightarrow> string list" where
  "allowedOrigins origins = filter (\<lambda>origin. origin \<noteq> []) (map TrimSpace origins)"

definition withCORS :: "string list \<Rightarrow> 's handler \<Rightarrow> 's handler" where
  "withCORS origins nextHandler r w s =
     (let allowed = allowedOrigins origins;
          origin = header_Get ''Origin'' (hr_Header r)
      in if origin = [] then nextHandler r w s
         else if origin \<notin> set allowed then
           (if hr_Method r = MethodOptions then (http_Error ''origin is not allowed'' 403 w, s)
            else nextHandler r w s)
         else
           let w1 = header_Add ''Vary'' ''Origin'' w;
               w2 = header_Set ''Access-Control-Allow-Origin'' origin w1;
               w3 = header_Set ''Access-Control-Expose-Headers'' ''Connect-Content-Encoding,Connect-Accept-Encoding,Grpc-Status,Grpc-Message'' w2
           in if hr_Method r = MethodOptions then
                let w4 = header_Add ''Vary'' ''Access-Control-Request-Headers'' (header_Add ''Vary'' ''Access-Control-Request-Method'' w3);
                    w5 = header_Set ''Access-Control-Allow-Methods'' ''GET,POST,OPTIONS'' w4;
                    w6 = header_Set ''Access-Control-Allow-Headers'' (header_Get ''Access-Control-Request-Headers'' (hr_Header r)) w5;
                    w7 = header_Set ''Access-Control-Max-Age'' ''7200'' w6
                in (WriteHeader 204 w7, s)
              else nextHandler r w3 s)"

subsection \<open>Servers\<close>

text \<open>
  The part of \<^verbatim>\<open>http.Server\<close> that depends on the configuration; \<open>mux\<close> is the multiplexer with the
  generated handlers.  A server without a valid port panics at its construction.
\<close>

record 's http_server =
  hs_Addr :: string
  hs_Handler :: "'s handler"

definition NewLLMServingServer :: "Conf \<Rightarrow> 's handler \<Rightarrow> 's http_server option" where
  "NewLLMServingServer serverConf mux = (case ExtractPortNumber (sv_Address (cf_Server serverConf)) of
     Inl err \<Rightarrow> None
   | Inr port \<Rightarrow> Some \<lparr>hs_Addr = ''0.0.0.0:'' @ fmt_d (nat port),
       hs_Handler = withCORS (sv_AllowedOrigins (cf_Server serverConf)) mux\<rparr>)"

definition NewAdminService :: "Conf \<Rightarrow> 's handler \<Rightarrow> 's http_server" where
  "NewAdminService cfg mux = \<lparr>hs_Addr = ''0.0.0.0:'' @ fmt_d (unat (sv_AdminPort (cf_Server cfg))),
     hs_Handler = withCORS (sv_AllowedOrigins (cf_Server cfg)) mux\<rparr>"

subsection \<open>The admin service (admin.go)\<close>

record HealthResponse =
  hl_Status :: string

record GetRuntimeStatsResponse =
  gt_PrefillQueueLen :: u32
  gt_DecodeQueueLen :: u32
  gt_InflightRequests :: u32
  gt_InflightBatches :: u32
  gt_BusyExecutors :: u32
  gt_IdleExecutors :: u32

definition Health :: HealthResponse where
  "Health = \<lparr>hl_Status = ''ok''\<rparr>"

definition GetRuntimeStats :: "metrics \<Rightarrow> GetRuntimeStatsResponse" where
  "GetRuntimeStats m = (let snapshot = Snapshot m in \<lparr>
     gt_PrefillQueueLen = ucast (rs_PrefillQueueLength snapshot),
     gt_DecodeQueueLen = ucast (rs_DecodeQueueLength snapshot),
     gt_InflightRequests = ucast (rs_ActiveRequests snapshot),
     gt_InflightBatches = ucast (rs_InflightBatches snapshot),
     gt_BusyExecutors = ucast (rs_BusyExecutors snapshot),
     gt_IdleExecutors = ucast (rs_IdleExecutors snapshot)\<rparr>)"

definition runtimeResponse :: "ExecutorStats \<Rightarrow> GetRuntimeResponse" where
  "runtimeResponse state = \<lparr>
     rr_ExecutorId = es_ExecutorId state,
     rr_RuntimeEpoch = es_RuntimeEpoch state,
     rr_ModelId = es_ModelId state,
     rr_ModelType = es_ModelType state,
     rr_Dtype = es_Dtype state,
     rr_DeviceType = es_DeviceType state,
     rr_TensorParallelSize = es_TensorParallelSize state,
     rr_BlockSize = es_BlockSize state,
     rr_NumKvBlocks = es_NumKvBlocks state,
     rr_NumHiddenLayers = es_NumHiddenLayers state,
     rr_NumKvHeads = es_NumKvHeads state,
     rr_HeadDim = es_HeadDim state,
     rr_TotalMemoryBytes = es_TotalMemoryBytes state,
     rr_AvailableMemoryBytes = es_AvailableMemoryBytes state,
     rr_KvCacheBytes = es_KVCacheBytes state,
     rr_ModelRevision = es_ModelRevision state,
     rr_KvLayoutVersion = es_KVLayoutVersion state,
     rr_KvCompatibilityId = es_KVCompatibilityID state,
     rr_TransferEndpoint = es_TransferEndpoint state\<rparr>"

text \<open>The loop over the sorted names; a nil state panics.\<close>

fun runtimeResponses :: "runtime_states \<Rightarrow> string list \<Rightarrow> GetRuntimeResponse list option" where
  "runtimeResponses states [] = Some []"
| "runtimeResponses states (executorID # executorIDs) = do {
     state \<leftarrow> (case fmlookup states executorID of Some st \<Rightarrow> st | None \<Rightarrow> None);
     executors \<leftarrow> runtimeResponses states executorIDs;
     Some (runtimeResponse state # executors)
   }"

definition GetExecutors :: "runtime_states \<Rightarrow> GetRuntimeResponse list option" where
  "GetExecutors states = runtimeResponses states (sorted_list_of_fset (fmdom states))"

subsection \<open>What the admin service shows\<close>

lemma RuntimeProtoToModel_response [simp]: "RuntimeProtoToModel (runtimeResponse state) = state"
  by (simp add: RuntimeProtoToModel_def runtimeResponse_def)

lemma runtimeResponses_all:
  assumes "\<forall>e \<in> set es. \<exists>rt. fmlookup states e = Some (Some rt)"
  shows "runtimeResponses states es = Some (map (\<lambda>e. runtimeResponse (the (the (fmlookup states e)))) es)"
  using assms by (induction es) auto

context executor_control
begin

text \<open>Under the law of the interface every executor is listed once, by its own name, in order.\<close>

lemma executors_listed:
  assumes ok: "ok m" and no_nil: "\<And>e. fmlookup (states m) e \<noteq> Some None"
  shows "\<exists>rs. GetExecutors (states m) = Some rs \<and> sorted (map rr_ExecutorId rs) \<and> distinct (map rr_ExecutorId rs) \<and>
    set (map rr_ExecutorId rs) = fmdom' (states m) \<and>
    (\<forall>r \<in> set rs. fmlookup (states m) (rr_ExecutorId r) = Some (Some (RuntimeProtoToModel r)))"
proof -
  let ?es = "sorted_list_of_fset (fmdom (states m))"
  let ?r = "\<lambda>e. runtimeResponse (the (the (fmlookup (states m) e)))"
  have found: "\<exists>rt. fmlookup (states m) e = Some (Some rt)" if "e \<in> set ?es" for e
    using that no_nil [of e] by (auto simp: fmdom'_alt_def [symmetric] fmlookup_dom'_iff)
  have name: "rr_ExecutorId (?r e) = e" if "e \<in> set ?es" for e
    using found [OF that] own_name [OF ok] by (auto simp: runtimeResponse_def)
  have names: "map rr_ExecutorId (map ?r ?es) = ?es"
    unfolding map_map by (rule map_idI) (simp only: o_apply name)
  have "\<forall>r \<in> set (map ?r ?es). fmlookup (states m) (rr_ExecutorId r) = Some (Some (RuntimeProtoToModel r))"
    using name found by fastforce
  moreover have "GetExecutors (states m) = Some (map ?r ?es)"
    using runtimeResponses_all found unfolding GetExecutors_def by blast
  ultimately show ?thesis
    using names by (intro exI [of _ "map ?r ?es"]) (simp add: fmdom'_alt_def sorted_list_of_fset.rep_eq)
qed

end

end
