(* ===== verification/Inference_Service.thy ===== *)
theory Inference_Service
  imports Handler
begin

text \<open>
  The two calls of the inference service, \<^verbatim>\<open>internal/transport/inference.go\<close>.  A call is driven by what
  its \<^verbatim>\<open>select\<close> receives: the sequence of outputs, the end of the stream or the end of the caller's
  context, each with the clock reading of that turn.  Its own metrics (request count and duration, time
  to the first token, time between tokens) are written by nothing else in the engine.
\<close>

subsection \<open>A call\<close>

datatype selected =
    Received GenerateOutput
  | StreamClosed
  | ContextDone error

text \<open>The variables the deferred function and the loop share; a zero time is \<open>None\<close>.\<close>

record call =
  ca_status :: string
  ca_executorId :: string
  ca_firstTokenAt :: "time option"
  ca_lastTokenAt :: "time option"
  ca_metrics :: metrics

definition newCall :: "metrics \<Rightarrow> call" where
  "newCall m = \<lparr>ca_status = ''ok'', ca_executorId = ''unknown'', ca_firstTokenAt = None, ca_lastTokenAt = None, ca_metrics = m\<rparr>"

text \<open>The deferred function.\<close>

definition endCall :: "time \<Rightarrow> time \<Rightarrow> call \<Rightarrow> metrics" where
  "endCall requestStartTime requestEndTime c =
     IncRequest (ca_status c) (ca_executorId c) (ObserveRequestDuration (requestEndTime - requestStartTime) (ca_metrics c))"

text \<open>\<^verbatim>\<open>status = ...; return appErrors.ToConnectError(err)\<close>.\<close>

type_synonym connect_error = "ConnectCode \<times> error"

definition failCall :: "error \<Rightarrow> call \<Rightarrow> connect_error \<times> call" where
  "failCall err c = (the (ToConnectError (Some err)), c\<lparr>ca_status := CodeOf (Some err)\<rparr>)"

definition streamEnded :: error where
  "streamEnded = errors_New CodeInternal ''stream closed before completion''"

definition observeDelta :: "time \<Rightarrow> time \<Rightarrow> string \<Rightarrow> call \<Rightarrow> call" where
  "observeDelta requestStartTime now deltaText c =
     (if deltaText = [] then c
      else let c1 = (case ca_firstTokenAt c of
                  None \<Rightarrow> c\<lparr>ca_firstTokenAt := Some now, ca_metrics := ObserveTTFT (now - requestStartTime) (ca_metrics c)\<rparr>
                | Some _ \<Rightarrow> (case ca_lastTokenAt c of
                    None \<Rightarrow> c
                  | Some lastTokenAt \<Rightarrow> c\<lparr>ca_metrics := ObserveTBT (now - lastTokenAt) (ca_metrics c)\<rparr>))
           in c1\<lparr>ca_lastTokenAt := Some now\<rparr>)"

subsection \<open>Generate\<close>

definition finalOutput :: "GenerateOutput \<Rightarrow> GenerateOutput \<Rightarrow> GenerateOutput" where
  "finalOutput msg out = out\<lparr>out_Usage := out_Usage msg, out_BatchID := out_BatchID msg, out_BatchSize := out_BatchSize msg,
     out_ExecutorId := out_ExecutorId msg, out_Done := out_Done msg, out_Timing := out_Timing msg,
     out_FinishReason := out_FinishReason msg, out_Index := out_Index msg, out_Err := out_Err msg\<rparr>"

text \<open>The loop, still waiting when the sequence is exhausted.\<close>

fun generateLoop :: "time \<Rightarrow> (time \<times> selected) list \<Rightarrow> GenerateOutput \<Rightarrow> call \<Rightarrow> ((connect_error + GenerateResponse) \<times> call) option" where
  "generateLoop start [] out c = None"
| "generateLoop start ((now, StreamClosed) # sel) out c = (let (err, c1) = failCall streamEnded c in Some (Inl err, c1))"
| "generateLoop start ((now, ContextDone e) # sel) out c = (let (err, c1) = failCall e c in Some (Inl err, c1))"
| "generateLoop start ((now, Received msg) # sel) out c =
     (let out1 = out\<lparr>out_DeltaText := out_DeltaText out @ out_DeltaText msg\<rparr>;
          c1 = observeDelta start now (out_DeltaText msg) c
      in if out_Done msg
         then Some (Inr (ModelToProtoMsg (finalOutput msg out1)), c1\<lparr>ca_executorId := out_ExecutorId msg\<rparr>)
         else generateLoop start sel out1 c1)"

definition newOutput :: "string \<Rightarrow> GenerateOutput" where
  "newOutput requestId = \<lparr>out_RequestId = requestId, out_Index = 0, out_DeltaText = [], out_FinishReason = FinishReasonUnspecified,
     out_Done = False, out_Usage = zero_Usage, out_Timing = zero_Timing, out_BatchID = [], out_BatchSize = 0,
     out_ExecutorId = [], out_Err = None\<rparr>"

text \<open>
  The whole call: \<open>decodedAt\<close> is the clock reading of the conversion of the request, \<open>sel\<close> what the
  loop receives and \<open>endAt\<close> the clock reading of the deferred function.
\<close>

definition Generate :: "'q tokenizer_env \<Rightarrow> time \<Rightarrow> time \<Rightarrow> (time \<times> selected) list \<Rightarrow> time \<Rightarrow> GenerateRequest \<Rightarrow> metrics \<Rightarrow> 'q engine \<Rightarrow>
    ((connect_error + GenerateResponse) \<times> metrics \<times> 'q engine) option" where
  "Generate env start decodedAt sel endAt request m engine = (case ProtoMsgToModel decodedAt request of
     Inl err \<Rightarrow> (let (er, c) = failCall err (newCall m) in Some (Inl er, endCall start endAt c, engine))
   | Inr req \<Rightarrow> do {
       (stream, engine1) \<leftarrow> GenerateStream env req engine;
       case stream of
         Inl err \<Rightarrow> (let (er, c) = failCall err (newCall m) in Some (Inl er, endCall start endAt c, engine1))
       | Inr ch \<Rightarrow> do {
           (resp, c) \<leftarrow> generateLoop start sel (newOutput (gr_RequestId request)) (newCall m);
           Some (resp, endCall start endAt c, engine1)
         }
     })"

subsection \<open>GenerateStream\<close>

text \<open>Each output also comes with the result of sending its chunk to the caller.\<close>

fun streamLoop :: "time \<Rightarrow> (time \<times> selected \<times> error option) list \<Rightarrow> call \<Rightarrow> (connect_error option \<times> GenerateResponseChunk list \<times> call) option" where
  "streamLoop start [] c = None"
| "streamLoop start ((now, StreamClosed, _) # sel) c = (let (err, c1) = failCall streamEnded c in Some (Some err, [], c1))"
| "streamLoop start ((now, ContextDone e, _) # sel) c = (let (err, c1) = failCall e c in Some (Some err, [], c1))"
| "streamLoop start ((now, Received msg, sendErr) # sel) c =
     (let c1 = (if out_ExecutorId msg \<noteq> [] then c\<lparr>ca_executorId := out_ExecutorId msg\<rparr> else c);
          c2 = observeDelta start now (out_DeltaText msg) c1;
          resp = ModelToProtoMsgStream msg
      in case sendErr of
           Some e \<Rightarrow> (let (err, c3) = failCall e c2 in Some (Some err, [], c3))
         | None \<Rightarrow>
             if out_Done msg then Some (None, [resp], c2)
             else do {
               (err, chunks, c3) \<leftarrow> streamLoop start sel c2;
               Some (err, resp # chunks, c3)
             })"

definition service_GenerateStream :: "'q tokenizer_env \<Rightarrow> time \<Rightarrow> time \<Rightarrow> (time \<times> selected \<times> error option) list \<Rightarrow> time \<Rightarrow> GenerateRequest \<Rightarrow> metrics \<Rightarrow>
    'q engine \<Rightarrow> (connect_error option \<times> GenerateResponseChunk list \<times> metrics \<times> 'q engine) option" where
  "service_GenerateStream env start decodedAt sel endAt request m engine = (case ProtoMsgToModel decodedAt request of
     Inl err \<Rightarrow> (let (er, c) = failCall err (newCall m) in Some (Some er, [], endCall start endAt c, engine))
   | Inr req \<Rightarrow> do {
       (stream, engine1) \<leftarrow> GenerateStream env req engine;
       case stream of
         Inl err \<Rightarrow> (let (er, c) = failCall err (newCall m) in Some (Some er, [], endCall start endAt c, engine1))
       | Inr ch \<Rightarrow> do {
           (err, chunks, c) \<leftarrow> streamLoop start sel (newCall m);
           Some (err, chunks, endCall start endAt c, engine1)
         }
     })"

subsection \<open>The two loops\<close>

text \<open>\<open>counted\<close>: what one call adds to the metrics of the service, whatever its outcome.\<close>

lemma observeDelta_frame [simp]:
  "ca_status (observeDelta start now d c) = ca_status c" "ca_executorId (observeDelta start now d c) = ca_executorId c"
  "mx_requestsTotal (ca_metrics (observeDelta start now d c)) = mx_requestsTotal (ca_metrics c)"
  "mx_requestDuration (ca_metrics (observeDelta start now d c)) = mx_requestDuration (ca_metrics c)"
  by (simp_all add: observeDelta_def Let_def ObserveTTFT_def ObserveTBT_def split: option.split)

lemma observeDelta_executor: "observeDelta start now d (c\<lparr>ca_executorId := e\<rparr>) = (observeDelta start now d c)\<lparr>ca_executorId := e\<rparr>"
  by (simp add: observeDelta_def Let_def split: option.split)

lemma failCall_simps [simp]:
  "fst (failCall err c) = (ToConnectCode (Some err), err)" "snd (failCall err c) = c\<lparr>ca_status := CodeOf (Some err)\<rparr>"
  by (simp_all add: failCall_def ToConnectError_def)

lemma failCall_eq: "failCall err c = ((ToConnectCode (Some err), err), c\<lparr>ca_status := CodeOf (Some err)\<rparr>)"
  by (simp add: failCall_def ToConnectError_def)

definition status_of :: "connect_error option \<Rightarrow> string" where
  "status_of err = (case err of None \<Rightarrow> ''ok'' | Some (_, e) \<Rightarrow> CodeOf (Some e))"

lemma generateLoop_status:
  "generateLoop start sel out c = Some (resp, c1) \<Longrightarrow> ca_status c = ''ok'' \<Longrightarrow>
   ca_status c1 = status_of (case resp of Inl e \<Rightarrow> Some e | Inr _ \<Rightarrow> None) \<and>
   mx_requestsTotal (ca_metrics c1) = mx_requestsTotal (ca_metrics c) \<and> mx_requestDuration (ca_metrics c1) = mx_requestDuration (ca_metrics c)"
proof (induction start sel out c rule: generateLoop.induct)
  case (4 start now msg sel out c)
  let ?c1 = "observeDelta start now (out_DeltaText msg) c"
  show ?case
  proof (cases "out_Done msg")
    case True
    then have "resp = Inr (ModelToProtoMsg (finalOutput msg (out\<lparr>out_DeltaText := out_DeltaText out @ out_DeltaText msg\<rparr>)))"
        "c1 = ?c1\<lparr>ca_executorId := out_ExecutorId msg\<rparr>"
      using "4.prems" by simp_all
    then show ?thesis
      using "4.prems"(2) by (simp add: status_of_def)
  next
    case False
    then show ?thesis
      using "4.IH" [OF refl refl] "4.prems" by simp
  qed
qed (auto simp: status_of_def failCall_eq)

lemma streamLoop_status:
  "streamLoop start sel c = Some (err, chunks, c1) \<Longrightarrow> ca_status c = ''ok'' \<Longrightarrow> ca_status c1 = status_of err \<and>
   mx_requestsTotal (ca_metrics c1) = mx_requestsTotal (ca_metrics c) \<and> mx_requestDuration (ca_metrics c1) = mx_requestDuration (ca_metrics c)"
proof (induction start sel c arbitrary: err chunks c1 rule: streamLoop.induct)
  case (4 start now msg sendErr sel c)
  let ?c1 = "if out_ExecutorId msg \<noteq> [] then c\<lparr>ca_executorId := out_ExecutorId msg\<rparr> else c"
  let ?c2 = "observeDelta start now (out_DeltaText msg) ?c1"
  have c2: "ca_status ?c2 = ''ok''" "mx_requestsTotal (ca_metrics ?c2) = mx_requestsTotal (ca_metrics c)"
      "mx_requestDuration (ca_metrics ?c2) = mx_requestDuration (ca_metrics c)"
    using "4.prems"(2) by simp_all
  show ?case
  proof (cases sendErr)
    case (Some e)
    then show ?thesis
      using "4.prems"(1) c2 by (simp add: status_of_def failCall_eq) auto
  next
    case None
    show ?thesis
    proof (cases "out_Done msg")
      case True
      then show ?thesis
        using "4.prems"(1) c2 None by (auto simp: status_of_def)
    next
      case False
      obtain chunks' where rec: "streamLoop start sel ?c2 = Some (err, chunks', c1)"
        using "4.prems"(1) None False by (auto simp: Let_def split: bind_splits)
      show ?thesis
        using "4.IH" [OF refl refl refl None False rec c2(1)] c2 by simp
    qed
  qed
qed (auto simp: status_of_def failCall_eq)

end
