(* ===== verification/Transport_Properties.thy ===== *)
theory Transport_Properties
  imports Transport Inference_Service Handler_Properties
begin

text \<open>The properties of the servers: cross-origin access, the admin service and the two inference calls.\<close>

subsection \<open>Cross-origin access\<close>

lemma http_Error_lookup:
  "fmlookup (rw_Header (http_Error message code w)) ''Access-Control-Allow-Origin'' = fmlookup (rw_Header w) ''Access-Control-Allow-Origin''"
  "rw_Status w = None \<Longrightarrow> rw_Status (http_Error message code w) = Some code"
  by (simp_all add: http_Error_def Let_def WriteHeader_def header_Set_def)

lemma header_lookup:
  "fmlookup (rw_Header (header_Set k v w)) k' = (if k = k' then Some [v] else fmlookup (rw_Header w) k')"
  "k \<noteq> k' \<Longrightarrow> fmlookup (rw_Header (header_Add k v w)) k' = fmlookup (rw_Header w) k'"
  "fmlookup (rw_Header (WriteHeader code w)) k' = fmlookup (rw_Header w) k'"
  "rw_Status (header_Set k v w) = rw_Status w" "rw_Status (header_Add k v w) = rw_Status w"
  "rw_Status (WriteHeader code w) = (if rw_Status w = None then Some code else rw_Status w)"
  by (simp_all add: header_Set_def header_Add_def WriteHeader_def)

lemma allowedOrigins_iff: "origin \<in> set (allowedOrigins origins) \<longleftrightarrow> origin \<noteq> [] \<and> (\<exists>c \<in> set origins. TrimSpace c = origin)"
  by (auto simp: allowedOrigins_def)

text \<open>
  C31: in front of a handler that leaves the header alone, the response names an allowed origin exactly
  when the request has an origin that some configured entry gives after trimming, and it names just that
  origin.  A preflight request with an origin is answered at once, 204 when the origin is allowed and 403
  when it is not, and never reaches the handler; every other request does.
\<close>

theorem cors_gate:
  assumes "\<And>r w s. fmlookup (rw_Header (fst (nextHandler r w s))) ''Access-Control-Allow-Origin'' = fmlookup (rw_Header w) ''Access-Control-Allow-Origin''"
    and "rw_Status w = None" and "fmlookup (rw_Header w) ''Access-Control-Allow-Origin'' = None"
    and "withCORS origins nextHandler r w s = (w', s')"
  shows "fmlookup (rw_Header w') ''Access-Control-Allow-Origin'' =
      (let origin = header_Get ''Origin'' (hr_Header r) in if origin \<noteq> [] \<and> (\<exists>c \<in> set origins. TrimSpace c = origin) then Some [origin] else None) \<and>
    (if hr_Method r = MethodOptions \<and> header_Get ''Origin'' (hr_Header r) \<noteq> []
     then s' = s \<and> rw_Status w' = Some (if \<exists>c \<in> set origins. TrimSpace c = header_Get ''Origin'' (hr_Header r) then 204 else 403)
     else \<exists>w1. nextHandler r w1 s = (w', s') \<and> rw_Status w1 = None)"
proof -
  let ?origin = "header_Get ''Origin'' (hr_Header r)"
  have next_leaves: "fmlookup (rw_Header w2) ''Access-Control-Allow-Origin'' = fmlookup (rw_Header w1) ''Access-Control-Allow-Origin''"
    if "nextHandler r w1 s = (w2, s2)" for w1 w2 s2
    using assms(1) [of r w1 s] that by simp
  note w = assms(4) [unfolded withCORS_def Let_def allowedOrigins_iff]
  show ?thesis
  proof (cases "?origin = [] \<or> \<not> (\<exists>c \<in> set origins. TrimSpace c = ?origin)")
    case True
    then show ?thesis
      using w assms(2,3) next_leaves by (auto simp: http_Error_lookup Let_def split: if_splits)
  next
    case False
    show ?thesis
    proof (cases "hr_Method r = MethodOptions")
      case True
      then show ?thesis
        using w False assms(2) by (auto simp: header_lookup Let_def)
    next
      case m: False
      let ?w3 = "header_Set ''Access-Control-Expose-Headers'' ''Connect-Content-Encoding,Connect-Accept-Encoding,Grpc-Status,Grpc-Message''
        (header_Set ''Access-Control-Allow-Origin'' ?origin (header_Add ''Vary'' ''Origin'' w))"
      have n: "nextHandler r ?w3 s = (w', s')"
        using w False m by simp
      moreover have "rw_Status ?w3 = None" "fmlookup (rw_Header ?w3) ''Access-Control-Allow-Origin'' = Some [?origin]"
        using assms(2) by (simp_all add: header_lookup)
      ultimately show ?thesis
        using False m next_leaves [OF n] by (simp add: Let_def) blast
    qed
  qed
qed

lemma demo_trim: "TrimSpace '' http://a'' = ''http://a''"
  by code_simp

theorem cors_gate_witness:
  "fmlookup (rw_Header (fst (withCORS ['' http://a''] (\<lambda>r w s. (WriteHeader 200 w, Suc s)) \<lparr>hr_Method = ''POST'', hr_Path = ''/'', hr_Header = fmupd ''Origin'' [''http://a''] fmempty\<rparr>
     \<lparr>rw_Header = fmempty, rw_Status = None, rw_Body = []\<rparr> 0))) ''Access-Control-Allow-Origin'' = Some [''http://a'']"
proof -
  let ?next = "\<lambda>r w s. (WriteHeader 200 w, Suc s)" and ?w = "\<lparr>rw_Header = fmempty, rw_Status = None, rw_Body = []\<rparr>"
  let ?r = "\<lparr>hr_Method = ''POST'', hr_Path = ''/'', hr_Header = fmupd ''Origin'' [''http://a''] fmempty\<rparr>"
  obtain w' s' where w': "withCORS ['' http://a''] ?next ?r ?w 0 = (w', s')"
    by fastforce
  have "fmlookup (rw_Header w') ''Access-Control-Allow-Origin'' = Some [''http://a'']"
    using conjunct1 [OF cors_gate [of ?next, OF _ _ _ w']] by (simp add: header_lookup header_Get_def Let_def demo_trim)
  then show ?thesis
    using w' by simp
qed

subsection \<open>The admin service\<close>

text \<open>
  The admin service lists every executor of the manager exactly once, ordered by its identifier,
  and each entry reads back as the runtime the executor reported.
\<close>

theorem admin_lists_executors:
  assumes "em_inv em"
  shows "\<exists>rs. GetExecutors (controlStates em) = Some rs \<and> sorted (map rr_ExecutorId rs) \<and> distinct (map rr_ExecutorId rs) \<and>
    set (map rr_ExecutorId rs) = set (em_executorList em) \<and>
    (\<forall>r \<in> set rs. \<exists>x. fmlookup (em_executors em) (rr_ExecutorId r) = Some x \<and> RuntimeProtoToModel r = ex_runtime x)"
proof -
  note look = GetRuntimeStates_lookup [OF em_invD(1) [OF assms]]
  have st: "fmlookup (controlStates em) e = map_option (\<lambda>x. Some (ex_runtime x)) (fmlookup (em_executors em) e)" for e
    by (simp add: controlStates_def look option.map_comp o_def)
  have "\<exists>rs. GetExecutors (controlStates em) = Some rs \<and> sorted (map rr_ExecutorId rs) \<and> distinct (map rr_ExecutorId rs) \<and>
      set (map rr_ExecutorId rs) = fmdom' (controlStates em) \<and>
      (\<forall>r \<in> set rs. fmlookup (controlStates em) (rr_ExecutorId r) = Some (Some (RuntimeProtoToModel r)))"
    using ctl.executors_listed [of "(undefined, em)"] assms st by auto
  moreover have "fmdom' (controlStates em) = set (em_executorList em)"
    using assms by (auto simp: em_inv_def fmlookup_dom'_iff st)
  ultimately show ?thesis
    by (fastforce simp: st)
qed

theorem admin_lists_executors_witness:
  "\<exists>rs. GetExecutors (controlStates demo_em) = Some rs \<and> map rr_ExecutorId rs = [''a'', ''b'']"
proof -
  have "em_inv demo_em"
    using em_reachable_inv [OF demo_em_reachable] by simp
  then obtain rs where rs: "GetExecutors (controlStates demo_em) = Some rs" "sorted (map rr_ExecutorId rs)" "distinct (map rr_ExecutorId rs)"
      "set (map rr_ExecutorId rs) = set (em_executorList demo_em)"
    using admin_lists_executors by blast
  have "em_executorList demo_em = [''a'', ''b'']"
    by code_simp
  then have "map rr_ExecutorId rs = [''a'', ''b'']"
    using sorted_distinct_set_unique [OF rs(2,3), of "[''a'', ''b'']"] rs(4) by simp
  then show ?thesis
    using rs(1) by (intro exI [of _ rs] conjI)
qed

subsection \<open>The two inference calls\<close>

lemma Generate_ends:
  assumes "Generate env start decodedAt sel endAt request m engine = Some (resp, m1, engine1)"
  shows "\<exists>c. m1 = endCall start endAt c \<and> ca_status c = status_of (case resp of Inl e \<Rightarrow> Some e | Inr _ \<Rightarrow> None) \<and>
    mx_requestsTotal (ca_metrics c) = mx_requestsTotal m \<and> mx_requestDuration (ca_metrics c) = mx_requestDuration m"
proof -
  have new: "ca_status (newCall m) = ''ok''" "ca_metrics (newCall m) = m"
    by (simp_all add: newCall_def)
  have fail: ?thesis if "resp = Inl (fst (failCall e (newCall m)))" "m1 = endCall start endAt (snd (failCall e (newCall m)))" for e
    using that by (intro exI [of _ "snd (failCall e (newCall m))"]) (simp add: status_of_def new)
  show ?thesis
  proof (cases "ProtoMsgToModel decodedAt request")
    case (Inl e)
    then show ?thesis
      using assms fail [of e] by (simp add: Generate_def failCall_eq)
  next
    case (Inr req)
    then obtain r en where r: "GenerateStream env req engine = Some (r, en)"
      using assms by (auto simp: Generate_def split: bind_splits)
    show ?thesis
    proof (cases r)
      case (Inl e)
      then show ?thesis
        using assms r Inr fail [of e] by (simp add: Generate_def failCall_eq)
    next
      case (Inr ch)
      obtain c where "generateLoop start sel (newOutput (gr_RequestId request)) (newCall m) = Some (resp, c)" "m1 = endCall start endAt c"
        using assms r Inr \<open>ProtoMsgToModel decodedAt request = Inr req\<close> by (auto simp: Generate_def split: bind_splits)
      then show ?thesis
        using generateLoop_status [OF _ new(1)] new(2) by (intro exI [of _ c]) simp
    qed
  qed
qed

lemma service_GenerateStream_ends:
  assumes "service_GenerateStream env start decodedAt sel endAt request m engine = Some (err, chunks, m1, engine1)"
  shows "\<exists>c. m1 = endCall start endAt c \<and> ca_status c = status_of err \<and>
    mx_requestsTotal (ca_metrics c) = mx_requestsTotal m \<and> mx_requestDuration (ca_metrics c) = mx_requestDuration m"
proof -
  have new: "ca_status (newCall m) = ''ok''" "ca_metrics (newCall m) = m"
    by (simp_all add: newCall_def)
  have fail: ?thesis if "err = Some (fst (failCall e (newCall m)))" "m1 = endCall start endAt (snd (failCall e (newCall m)))" for e
    using that by (intro exI [of _ "snd (failCall e (newCall m))"]) (simp add: status_of_def new)
  show ?thesis
  proof (cases "ProtoMsgToModel decodedAt request")
    case (Inl e)
    then show ?thesis
      using assms fail [of e] by (simp add: service_GenerateStream_def failCall_eq)
  next
    case (Inr req)
    then obtain r en where r: "GenerateStream env req engine = Some (r, en)"
      using assms by (auto simp: service_GenerateStream_def split: bind_splits)
    show ?thesis
    proof (cases r)
      case (Inl e)
      then show ?thesis
        using assms r Inr fail [of e] by (simp add: service_GenerateStream_def failCall_eq)
    next
      case (Inr ch)
      obtain c where "streamLoop start sel (newCall m) = Some (err, chunks, c)" "m1 = endCall start endAt c"
        using assms r Inr \<open>ProtoMsgToModel decodedAt request = Inr req\<close> by (auto simp: service_GenerateStream_def split: bind_splits)
      then show ?thesis
        using streamLoop_status [OF _ new(1)] new(2) by (intro exI [of _ c]) simp
    qed
  qed
qed

text \<open>
  Every inference call, unary or streaming, is counted once and timed once, however it ends: as
  \<open>ok\<close> when it returns no error and under the code of the error when it does.  In particular a unary
  response that carries the error message of a failed generation is counted as \<open>ok\<close>.
\<close>

theorem calls_counted:
  assumes "Generate env start decodedAt sel endAt request m engine = Some (resp, m1, engine1)"
    and "service_GenerateStream env start decodedAt sel' endAt request m engine = Some (err, chunks, m2, engine2)"
  shows "(\<exists>e. mx_requestsTotal m1 = vec_add (case resp of Inl (_, er) \<Rightarrow> CodeOf (Some er) | Inr _ \<Rightarrow> ''ok'', e) 1 (mx_requestsTotal m)) \<and>
    mx_requestDuration m1 = mx_requestDuration m @ [endAt - start] \<and>
    (\<exists>e. mx_requestsTotal m2 = vec_add (case err of Some (_, er) \<Rightarrow> CodeOf (Some er) | None \<Rightarrow> ''ok'', e) 1 (mx_requestsTotal m)) \<and>
    mx_requestDuration m2 = mx_requestDuration m @ [endAt - start]"
proof -
  have ended: "mx_requestsTotal (endCall start endAt c) = vec_add (ca_status c, ca_executorId c) 1 (mx_requestsTotal (ca_metrics c))"
    "mx_requestDuration (endCall start endAt c) = mx_requestDuration (ca_metrics c) @ [endAt - start]" for c
    by (simp_all add: endCall_def IncRequest_def ObserveRequestDuration_def)
  obtain c d where c: "m1 = endCall start endAt c" "ca_status c = status_of (case resp of Inl e \<Rightarrow> Some e | Inr _ \<Rightarrow> None)"
      "mx_requestsTotal (ca_metrics c) = mx_requestsTotal m" "mx_requestDuration (ca_metrics c) = mx_requestDuration m"
    and d: "m2 = endCall start endAt d" "ca_status d = status_of err"
      "mx_requestsTotal (ca_metrics d) = mx_requestsTotal m" "mx_requestDuration (ca_metrics d) = mx_requestDuration m"
    using Generate_ends [OF assms(1)] service_GenerateStream_ends [OF assms(2)] by blast
  have "status_of (case resp of Inl e \<Rightarrow> Some e | Inr _ \<Rightarrow> None) = (case resp of Inl (_, er) \<Rightarrow> CodeOf (Some er) | Inr _ \<Rightarrow> ''ok'')"
    "status_of err = (case err of Some (_, er) \<Rightarrow> CodeOf (Some er) | None \<Rightarrow> ''ok'')"
    by (simp_all add: status_of_def split: sum.split option.split)
  then show ?thesis
    using c d ended by (auto intro: exI [of _ "ca_executorId c"] exI [of _ "ca_executorId d"])
qed

text \<open>An output without text that ends a failed generation.\<close>

definition failed_output :: GenerateOutput where
  "failed_output = (newOutput ''A'')\<lparr>out_Done := True, out_Err := Some (OtherError ''out of memory'')\<rparr>"

definition demo_call :: GenerateRequest where
  "demo_call = \<lparr>gr_RequestId = ''A'', gr_ModelId = ''nope'', gr_Prompt = ''hi'', gr_MaxTokens = 4, gr_TimeoutMs = 0, gr_UserId = [], gr_Labels = fmempty\<rparr>"

theorem calls_counted_witness:
  "\<exists>resp m1 en err chunks m2 en'. Generate demo_env 10 11 [] 15 demo_call NewMetrics (demo_tokenizer, sched_new 8 (\<lambda>_. 0)) = Some (resp, m1, en) \<and>
     service_GenerateStream demo_env 10 11 [] 15 demo_call NewMetrics (demo_tokenizer, sched_new 8 (\<lambda>_. 0)) = Some (err, chunks, m2, en') \<and>
     mx_requestDuration m1 = [5] \<and> mx_requestDuration m2 = [5]"
proof -
  let ?en = "(demo_tokenizer, sched_new 8 (\<lambda>_. 0))"
  have "\<exists>e. ProtoMsgToModel 11 demo_call = Inl e"
    by (simp add: ProtoMsgToModel_def demo_call_def ParseModelID_def Qwen3Model_def MockModel_def)
  then obtain e where e: "ProtoMsgToModel 11 demo_call = Inl e"
    by blast
  have r: "Generate demo_env 10 11 [] 15 demo_call NewMetrics ?en =
        Some (Inl (fst (failCall e (newCall NewMetrics))), endCall 10 15 (snd (failCall e (newCall NewMetrics))), ?en)"
      "service_GenerateStream demo_env 10 11 [] 15 demo_call NewMetrics ?en =
        Some (Some (fst (failCall e (newCall NewMetrics))), [], endCall 10 15 (snd (failCall e (newCall NewMetrics))), ?en)"
    by (simp_all add: Generate_def service_GenerateStream_def e failCall_eq)
  have "mx_requestDuration NewMetrics = []"
    by (simp add: NewMetrics_def)
  then show ?thesis
    using calls_counted [OF r] r by auto
qed

subsection \<open>Unary and streaming calls agree\<close>

definition answers :: "string \<Rightarrow> string \<Rightarrow> connect_error + GenerateResponse \<Rightarrow> GenerateResponseChunk list \<Rightarrow> bool" where
  "answers text q resp chunks \<longleftrightarrow> (case resp of Inl e \<Rightarrow> True
     | Inr r \<Rightarrow> chunks \<noteq> [] \<and> gs_OutputText r = text @ concat (map gc_DeltaText chunks) \<and> gs_RequestId r = q \<and>
         gs_Usage r = gc_Usage (last chunks) \<and> gs_FinishReason r = gc_FinishReason (last chunks) \<and>
         gs_ErrorMessage r = gc_ErrorMessage (last chunks) \<and> gc_Done (last chunks) \<and> (\<forall>k \<in> set (butlast chunks). \<not> gc_Done k))"

lemma answers_Cons: "answers (text @ gc_DeltaText k) q resp chunks \<Longrightarrow> \<not> gc_Done k \<Longrightarrow> answers text q resp (k # chunks)"
  by (auto simp: answers_def split: sum.splits)

lemma generateLoop_stream:
  assumes "generateLoop start sel out c = Some (resp, c1)"
    and "ca_firstTokenAt c = ca_firstTokenAt d" "ca_lastTokenAt c = ca_lastTokenAt d" "ca_metrics c = ca_metrics d" "ca_status c = ca_status d"
  shows "\<exists>err chunks d1. streamLoop start (map (\<lambda>(t, x). (t, x, None)) sel) d = Some (err, chunks, d1) \<and>
    ca_metrics d1 = ca_metrics c1 \<and> ca_status d1 = ca_status c1 \<and> err = (case resp of Inl e \<Rightarrow> Some e | Inr _ \<Rightarrow> None) \<and>
    answers (out_DeltaText out) (out_RequestId out) resp chunks"
  using assms
proof (induction start sel out c arbitrary: d rule: generateLoop.induct)
  case (4 start now msg sel out c)
  let ?c1 = "observeDelta start now (out_DeltaText msg) c"
  let ?d0 = "if out_ExecutorId msg \<noteq> [] then d\<lparr>ca_executorId := out_ExecutorId msg\<rparr> else d"
  let ?d1 = "observeDelta start now (out_DeltaText msg) ?d0"
  have same: "ca_firstTokenAt ?c1 = ca_firstTokenAt ?d1" "ca_lastTokenAt ?c1 = ca_lastTokenAt ?d1" "ca_metrics ?c1 = ca_metrics ?d1"
      "ca_status ?c1 = ca_status ?d1"
    using "4.prems"(2-5) by (auto simp: observeDelta_def Let_def split: option.split)
  show ?case
  proof (cases "out_Done msg")
    case True
    then show ?thesis
      using "4.prems"(1) same
      by (auto simp: answers_def ModelToProtoMsg_def ModelToProtoMsgStream_def finalOutput_def Let_def)
  next
    case False
    then have rec: "generateLoop start sel (out\<lparr>out_DeltaText := out_DeltaText out @ out_DeltaText msg\<rparr>) ?c1 = Some (resp, c1)"
      using "4.prems"(1) by simp
    obtain err chunks d2 where d2: "streamLoop start (map (\<lambda>(t, x). (t, x, None)) sel) ?d1 = Some (err, chunks, d2)"
        "ca_metrics d2 = ca_metrics c1" "ca_status d2 = ca_status c1" "err = (case resp of Inl e \<Rightarrow> Some e | Inr _ \<Rightarrow> None)"
        "answers (out_DeltaText out @ out_DeltaText msg) (out_RequestId out) resp chunks"
      using "4.IH" [OF refl refl False rec same] by (elim exE conjE) simp
    let ?chunk = "ModelToProtoMsgStream msg"
    have "streamLoop start (map (\<lambda>(t, x). (t, x, None)) ((now, Received msg) # sel)) d = Some (err, ?chunk # chunks, d2)"
      using d2(1) False by (simp add: Let_def)
    moreover have "gc_DeltaText ?chunk = out_DeltaText msg" "\<not> gc_Done ?chunk"
      using False by (simp_all add: ModelToProtoMsgStream_def)
    ultimately show ?thesis
      using d2 answers_Cons [of "out_DeltaText out" ?chunk] by (intro exI [of _ err] exI [of _ "?chunk # chunks"] exI [of _ d2]) simp
  qed
qed (auto simp: failCall_eq answers_def)

text \<open>
  C32: a unary call answers what a streaming call over the same outputs sends: both fail alike, or the
  text of the answer is the concatenated text of the chunks, with the usage, finish reason and error
  message of the last chunk, which alone is marked done; and both observe the same token times.
\<close>

theorem unary_equals_stream:
  assumes "generateLoop start sel (newOutput requestId) (newCall m) = Some (resp, c)"
  shows "\<exists>err chunks d. streamLoop start (map (\<lambda>(t, x). (t, x, None)) sel) (newCall m) = Some (err, chunks, d) \<and>
    mx_ttft (ca_metrics d) = mx_ttft (ca_metrics c) \<and> mx_tbt (ca_metrics d) = mx_tbt (ca_metrics c) \<and> ca_status d = ca_status c \<and>
    (case resp of
       Inl e \<Rightarrow> err = Some e
     | Inr r \<Rightarrow> err = None \<and> chunks \<noteq> [] \<and> gs_RequestId r = requestId \<and> gs_OutputText r = concat (map gc_DeltaText chunks) \<and>
         gs_Usage r = gc_Usage (last chunks) \<and> gs_FinishReason r = gc_FinishReason (last chunks) \<and>
         gs_ErrorMessage r = gc_ErrorMessage (last chunks) \<and> gc_Done (last chunks) \<and> (\<forall>k \<in> set (butlast chunks). \<not> gc_Done k))"
  using generateLoop_stream [OF assms refl refl refl refl] by (auto simp: newOutput_def answers_def split: sum.splits)

theorem unary_equals_stream_witness:
  "\<exists>resp c err chunks d. generateLoop 10 [(12, Received ((newOutput ''A'')\<lparr>out_DeltaText := ''x''\<rparr>)), (15, Received failed_output)] (newOutput ''A'') (newCall NewMetrics) = Some (resp, c) \<and>
     streamLoop 10 [(12, Received ((newOutput ''A'')\<lparr>out_DeltaText := ''x''\<rparr>), None), (15, Received failed_output, None)] (newCall NewMetrics) = Some (err, chunks, d) \<and>
     ca_status c = ''ok'' \<and> err = None \<and> (\<exists>r. resp = Inr r \<and> gs_OutputText r = concat (map gc_DeltaText chunks) \<and> gs_ErrorMessage r = ''out of memory'')"
proof -
  let ?sel = "[(12, Received ((newOutput ''A'')\<lparr>out_DeltaText := ''x''\<rparr>)), (15, Received failed_output)]"
  obtain r c where g: "generateLoop 10 ?sel (newOutput ''A'') (newCall NewMetrics) = Some (Inr r, c)" "ca_status c = ''ok''" "gs_ErrorMessage r = ''out of memory''"
    by (simp add: failed_output_def newOutput_def newCall_def ModelToProtoMsg_def errorMessage_def finalOutput_def Let_def)
  then show ?thesis
    using unary_equals_stream [OF g(1)] by auto
qed

subsection \<open>From the events to the answer\<close>

lemma generateLoop_outputs:
  assumes "outs \<noteq> []" "length ts = length outs" "out_Done (last outs)" "\<forall>x \<in> set (butlast outs). \<not> out_Done x"
  shows "\<exists>r c1. generateLoop start (zip ts (map Received outs)) out c = Some (Inr r, c1) \<and>
    gs_OutputText r = out_DeltaText out @ concat (map out_DeltaText outs) \<and> gs_Usage r = out_Usage (last outs) \<and>
    gs_FinishReason r = out_FinishReason (last outs) \<and> gs_ErrorMessage r = errorMessage (out_Err (last outs))"
  using assms
proof (induction outs arbitrary: ts out c)
  case (Cons msg outs)
  obtain now ts' where ts: "ts = now # ts'" "length ts' = length outs"
    using Cons.prems(2) by (cases ts) auto
  show ?case
  proof (cases "outs = []")
    case True
    then show ?thesis
      using Cons.prems(3) ts by (simp add: ModelToProtoMsg_def finalOutput_def Let_def)
  next
    case False
    then have "\<not> out_Done msg"
      using Cons.prems(4) by simp
    moreover have "out_Done (last outs)" "\<forall>x \<in> set (butlast outs). \<not> out_Done x"
      using Cons.prems(3,4) False by simp_all
    ultimately show ?thesis
      using Cons.IH [OF False ts(2), of "out\<lparr>out_DeltaText := out_DeltaText out @ out_DeltaText msg\<rparr>"] ts(1) False by (simp add: Let_def)
  qed
qed simp

text \<open>
  From the engine to the client.  When the caller of a stream has read outputs up to one that is
  done, the unary call over them answers: its text is the concatenation of what the tokenizer decodes of
  the events' tokens, in the order of the events, and its usage, finish reason and error are those of the
  last event.
\<close>

theorem answer_of_events:
  assumes "stream_run env str es outs" and "outs \<noteq> []" and "out_Done (last outs)" and "length ts = length outs"
  shows "\<exists>r c. generateLoop start (zip ts (map Received outs)) (newOutput requestId) (newCall m) = Some (Inr r, c) \<and>
    list_all2 (\<lambda>out e. \<exists>t. out = streamOutput env (st_modelID str) t e) outs (filter (\<lambda>e. ev_Type e \<noteq> EventTypePrefillChunk) es) \<and>
    gs_OutputText r = concat (map out_DeltaText outs) \<and>
    gs_Usage r = ev_Usage (last (filter (\<lambda>e. ev_Type e \<noteq> EventTypePrefillChunk) es)) \<and>
    gs_FinishReason r = ev_FinishReason (last (filter (\<lambda>e. ev_Type e \<noteq> EventTypePrefillChunk) es))"
proof -
  have inv: "list_all2 (output_of env (st_modelID str)) (outs @ st_chOut str @ inHand str) (shown es)"
      "\<forall>e \<in> set (butlast (shown es)). \<not> ev_Done e"
    using stream_run_in_order [OF assms(1)] by (simp_all add: in_order_def)
  obtain xs ys where xs: "shown es = xs @ ys" "list_all2 (output_of env (st_modelID str)) outs xs"
      "list_all2 (output_of env (st_modelID str)) (st_chOut str @ inHand str) ys"
    using inv(1) unfolding list_all2_append1 by auto
  have len: "length xs = length outs"
    using list_all2_lengthD [OF xs(2)] by simp
  have same: "out_Done (outs ! i) = ev_Done (xs ! i)" "out_Usage (outs ! i) = ev_Usage (xs ! i)" "out_FinishReason (outs ! i) = ev_FinishReason (xs ! i)"
    if "i < length outs" for i
    using list_all2_nthD [OF xs(2) that] output_of_fields by blast+
  let ?n = "length outs - 1"
  have ne: "xs \<noteq> []"
    using assms(2) len by auto
  have last: "last outs = outs ! ?n" "last xs = xs ! ?n" "?n < length outs" "xs \<noteq> []"
    using assms(2) ne len by (simp_all add: last_conv_nth)
  then have "ev_Done (last xs)"
    using same(1) [OF last(3)] assms(3) by simp
  then have "ys = []"
    using inv(2) last(4) unfolding xs(1) by (cases ys) (auto simp: butlast_append)
  then have xs_eq: "shown es = xs"
    using xs(1) by simp
  have "\<not> out_Done x" if x: "x \<in> set (butlast outs)" for x
  proof -
    obtain i where i: "i < length (butlast outs)" "butlast outs ! i = x"
      using x unfolding in_set_conv_nth by blast
    then have "x = outs ! i" "i < length outs" "xs ! i \<in> set (butlast xs)"
      using len nth_mem [of i "butlast xs"] by (simp_all add: nth_butlast)
    then show ?thesis
      using same(1) [of i] inv(2) xs_eq by auto
  qed
  then obtain r c where "generateLoop start (zip ts (map Received outs)) (newOutput requestId) (newCall m) = Some (Inr r, c)"
      "gs_OutputText r = concat (map out_DeltaText outs)" "gs_Usage r = out_Usage (last outs)" "gs_FinishReason r = out_FinishReason (last outs)"
    using generateLoop_outputs [OF assms(2,4,3), of start "newOutput requestId" "newCall m"] by (auto simp: newOutput_def)
  moreover have "list_all2 (\<lambda>out e. \<exists>t. out = streamOutput env (st_modelID str) t e) outs xs"
    using xs(2) by (rule list_all2_mono) (simp add: output_of_def)
  ultimately show ?thesis
    using xs_eq last same [OF last(3)] unfolding shown_def by auto
qed

theorem answer_of_events_witness:
  "\<exists>str out r c. stream_run demo_env str [zero_Event\<lparr>ev_Type := EventTypeRequestFinished, ev_Done := True\<rparr>] [out] \<and> out_Done out \<and>
     generateLoop 0 [(5, Received out)] (newOutput ''A'') (newCall NewMetrics) = Some (Inr r, c) \<and> gs_OutputText r = out_DeltaText out"
proof -
  let ?e = "zero_Event\<lparr>ev_Type := EventTypeRequestFinished, ev_Done := True\<rparr>"
  let ?out = "streamOutput demo_env ''m'' demo_tokenizer ?e"
  let ?str = "demo_stream\<lparr>st_forwarder := Forwarding ?out\<rparr>" and ?en = "(demo_tokenizer, one_admitted 8)"
  let ?str1 = "demo_stream\<lparr>st_chOut := [?out], st_closed := True, st_forwarder := Returned\<rparr>"
  have run: "stream_run demo_env ?str [?e] []"
    by (rule demo_received) simp
  have "sm_inv (w_state (s_world (one_admitted 8)))"
    using one_admitted [of 8] by blast
  then obtain st where st: "sm_Finish ''A'' (w_state (s_world (one_admitted 8))) = Some st"
    using sm_Finish_spec by blast
  have fin: "out_Done ?out"
    by (simp add: streamOutput_def Let_def case_prod_unfold)
  then have "forwardSend ?str ?en = Some (?str1, (demo_tokenizer, updState st (one_admitted 8)))"
    using st by (simp add: forwardSend_def demo_stream_def chOutCap_def)
  note sent = stream_run.send [OF run this]
  have "readOutput ?str1 = Some (Some ?out, ?str1\<lparr>st_chOut := []\<rparr>)"
    by (simp add: readOutput_def)
  note read = stream_run.read [OF sent this, unfolded append_Nil]
  have side: "[?out] \<noteq> []" "out_Done (last [?out])" "length [5 :: time] = length [?out]"
    using fin by simp_all
  obtain r c where "generateLoop 0 (zip [5] (map Received [?out])) (newOutput ''A'') (newCall NewMetrics) = Some (Inr r, c)"
      "gs_OutputText r = concat (map out_DeltaText [?out])"
    using answer_of_events [OF read side, of 0 "''A''" NewMetrics] by (elim exE conjE)
  then show ?thesis
    using read fin by (intro exI [of _ "?str1\<lparr>st_chOut := []\<rparr>"] exI [of _ ?out] exI [of _ r] exI [of _ c]) (simp del: generateLoop.simps)
qed

end
