(* ===== verification/Startup.thy ===== *)
theory Startup
  imports Transport
begin

text \<open>
  The life of the two servers, \<^verbatim>\<open>StartServer\<close> in \<^verbatim>\<open>internal/transport/inference.go\<close>.  Listening and shutting
  down are arguments: each address answers an error or none.  A server that is shut down closes its listener
  whether or not its open calls end in time.
\<close>

record process =
  pr_listening :: "string list"
  pr_serving :: "string list"

definition StartServer_OnStart :: "(string \<Rightarrow> error option) \<Rightarrow> 'h http_server \<Rightarrow> 'h http_server \<Rightarrow> process \<Rightarrow> error option \<times> process" where
  "StartServer_OnStart listen i a p = (case listen (hs_Addr i) of
     Some err \<Rightarrow> (Some err, p)
   | None \<Rightarrow>
       let p1 = p\<lparr>pr_listening := pr_listening p @ [hs_Addr i]\<rparr>
       in (case listen (hs_Addr a) of
             Some err \<Rightarrow> (Some err, p1)
           | None \<Rightarrow> (None, p1\<lparr>pr_listening := pr_listening p1 @ [hs_Addr a], pr_serving := pr_serving p1 @ [hs_Addr i, hs_Addr a]\<rparr>)))"

definition serverShutdown :: "'h http_server \<Rightarrow> process \<Rightarrow> process" where
  "serverShutdown srv p = p\<lparr>pr_listening := remove1 (hs_Addr srv) (pr_listening p), pr_serving := remove1 (hs_Addr srv) (pr_serving p)\<rparr>"

definition StartServer_OnStop :: "(string \<Rightarrow> error option) \<Rightarrow> 'h http_server \<Rightarrow> 'h http_server \<Rightarrow> process \<Rightarrow> error option \<times> process" where
  "StartServer_OnStop shutdown i a p =
     (let p1 = serverShutdown i p
      in case shutdown (hs_Addr i) of
           Some err \<Rightarrow> (Some err, p1)
         | None \<Rightarrow> (shutdown (hs_Addr a), serverShutdown a p1))"

text \<open>A start and a clean stop leave nothing behind.\<close>

theorem server_round_trip:
  assumes "StartServer_OnStart listen i a p = (None, p1)" "hs_Addr i \<notin> set (pr_listening p) \<union> set (pr_serving p)"
    "hs_Addr a \<notin> set (pr_listening p) \<union> set (pr_serving p)" "shutdown (hs_Addr i) = None"
  shows "StartServer_OnStop shutdown i a p1 = (shutdown (hs_Addr a), p)"
  using assms by (auto simp: StartServer_OnStart_def StartServer_OnStop_def serverShutdown_def Let_def remove1_append split: option.splits)

text \<open>
  A start whose second address cannot be listened on fails with the first still open and unserved; a stop whose first
  server does not end in time leaves the second listening and serving.
\<close>

theorem failed_start_keeps_listener:
  assumes "listen (hs_Addr i) = None" "listen (hs_Addr a) = Some err"
  shows "StartServer_OnStart listen i a p = (Some err, p\<lparr>pr_listening := pr_listening p @ [hs_Addr i]\<rparr>)"
  using assms by (simp add: StartServer_OnStart_def)

theorem failed_stop_keeps_admin:
  assumes "StartServer_OnStart listen i a p = (None, p1)" "shutdown (hs_Addr i) = Some err" "hs_Addr a \<noteq> hs_Addr i"
  shows "\<exists>p2. StartServer_OnStop shutdown i a p1 = (Some err, p2) \<and> hs_Addr a \<in> set (pr_listening p2) \<and> hs_Addr a \<in> set (pr_serving p2)"
  using assms by (auto simp: StartServer_OnStart_def StartServer_OnStop_def serverShutdown_def Let_def remove1_append split: option.splits)

end
