(* ===== verification/Bench.thy ===== *)
theory Bench
  imports Inference_Service Kv_Utils
begin

text \<open>
  The benchmark client, \<^verbatim>\<open>cmd/bench/runner.go\<close>: its scenarios, the requests it sends, the run of a
  scenario, the reading of the scraped metrics and the check of a quick run.  The server's answers, the
  clock and the scraped pages are arguments.  A \<^verbatim>\<open>float64\<close> is a rational number: sums and quotients are
  exact where the code rounds them, so what is stated of values below holds of the code as long as they
  are counts below 2 to the 53.  \<^verbatim>\<open>printResult\<close> only formats and is left out.
\<close>

subsection \<open>Data\<close>

definition CacheKeyModeNone :: string where "CacheKeyModeNone = []"
definition CacheKeyModeUnique :: string where "CacheKeyModeUnique = ''unique''"
definition CacheKeyModeShared :: string where "CacheKeyModeShared = ''shared''"

record Scenario =
  bs_Name :: string
  bs_Target :: string
  bs_MetricsURL :: string
  bs_Requests :: int
  bs_Concurrency :: int
  bs_Timeout :: duration
  bs_Model :: string
  bs_Prompt :: string
  bs_Prompts :: "string list"
  bs_MaxTokens :: u32
  bs_CacheKeyMode :: string
  bs_CacheKey :: string
  bs_CacheUsers :: int

record Profile =
  pf_Name :: string
  pf_Requests :: int
  pf_Concurrency :: int
  pf_MaxTokens :: u32
  pf_Timeout :: duration

record BenchMetrics =
  bm_BatchesTotal :: rat
  bm_QueueRejectedTotal :: rat
  bm_AvgBatchSize :: rat
  bm_AvgQueueWaitSeconds :: rat
  bm_AvgExecutionSeconds :: rat
  bm_RequestCountObserved :: rat
  bm_BatchCountObserved :: rat
  bm_ActiveRequestsFinal :: rat
  bm_InflightBatchesFinal :: rat
  bm_AvgTTFTSeconds :: rat
  bm_AvgTBTSeconds :: rat
  bm_PrefixCacheHits :: rat
  bm_PrefixCacheMisses :: rat
  bm_PrefixCacheTokensSaved :: rat
  bm_PrefillItemsTotal :: rat
  bm_DecodeItemsTotal :: rat
  bm_KVBlocksActiveFinal :: rat
  bm_KVBlocksFreeFinal :: rat
  bm_KVBlocksCachedFinal :: rat
  bm_KVAllocationFailures :: rat
  bm_PrefixCacheEvictions :: rat
  bm_batchSizeSum :: rat
  bm_batchSizeCount :: rat
  bm_queueWaitSum :: rat
  bm_queueWaitCount :: rat
  bm_executionSum :: rat
  bm_executionCount :: rat
  bm_ttftSum :: rat
  bm_ttftCount :: rat
  bm_tbtSum :: rat
  bm_tbtCount :: rat

text \<open>The throughput is \<open>None\<close> where the quotient is no finite number.\<close>

record Result =
  br_Scenario :: Scenario
  br_Success :: int
  br_Failed :: int
  br_TotalDuration :: duration
  br_ThroughputRPS :: "rat option"
  br_AvgLatency :: duration
  br_P50Latency :: duration
  br_P90Latency :: duration
  br_P99Latency :: duration
  br_Metrics :: BenchMetrics

definition Second :: duration where "Second = 1000 * Millisecond"

subsection \<open>Formats\<close>

text \<open>\<^verbatim>\<open>%0wd\<close> of a non-negative number, \<^verbatim>\<open>%d\<close> of any, and \<^verbatim>\<open>%.0f\<close>, which rounds half to even.\<close>

definition fmt_0d :: "nat \<Rightarrow> nat \<Rightarrow> string" where
  "fmt_0d w n = replicate (w - length (fmt_d n)) CHR ''0'' @ fmt_d n"

definition fmt_int :: "int \<Rightarrow> string" where
  "fmt_int z = (if z < 0 then CHR ''-'' # fmt_d (nat (- z)) else fmt_d (nat z))"

definition round_even :: "rat \<Rightarrow> int" where
  "round_even r = (let f = \<lfloor>r\<rfloor>; d = r - of_int f
     in if d < 1 / 2 \<or> d = 1 / 2 \<and> even f then f else f + 1)"

definition fmt_0f :: "rat \<Rightarrow> string" where
  "fmt_0f r = (if r < 0 then CHR ''-'' # fmt_d (nat (round_even (- r))) else fmt_d (nat (round_even r)))"

subsection \<open>Scenarios\<close>

definition ProfilePreset :: "string \<Rightarrow> Profile result" where
  "ProfilePreset name =
     (if name = ''quick''
      then Inr \<lparr>pf_Name = name, pf_Requests = 100, pf_Concurrency = 20, pf_MaxTokens = 8, pf_Timeout = 20 * Second\<rparr>
      else if name = ''report''
      then Inr \<lparr>pf_Name = name, pf_Requests = 1000, pf_Concurrency = 100, pf_MaxTokens = 128, pf_Timeout = 60 * Second\<rparr>
      else Inl (Errorf (''unsupported profile: '' @ name) []))"

definition benchmarkPrompt :: string where
  "benchmarkPrompt = Join (replicate 3 (''Currently, vLLM utilizes its own implementation of a multi-head query attention kernel. '' @
     ''This benchmark prompt is intentionally longer so prefill work is visible in the scheduler and cache metrics.'')) '' ''"

definition scenarioOf :: "Profile \<Rightarrow> string \<Rightarrow> Scenario" where
  "scenarioOf profile name = \<lparr>bs_Name = name, bs_Target = [], bs_MetricsURL = [], bs_Requests = pf_Requests profile,
     bs_Concurrency = pf_Concurrency profile, bs_Timeout = pf_Timeout profile, bs_Model = ''deepseek'', bs_Prompt = [],
     bs_Prompts = [], bs_MaxTokens = pf_MaxTokens profile, bs_CacheKeyMode = [], bs_CacheKey = [], bs_CacheUsers = 0\<rparr>"

definition ScenariosForProfile :: "Profile \<Rightarrow> Scenario list" where
  "ScenariosForProfile profile =
     (let cacheMiss = (scenarioOf profile ''cache_miss'')\<lparr>bs_Prompt := benchmarkPrompt, bs_CacheKeyMode := CacheKeyModeUnique\<rparr>;
          cacheHit = (scenarioOf profile ''cache_hit'')\<lparr>bs_Prompt := benchmarkPrompt, bs_CacheKeyMode := CacheKeyModeShared,
            bs_CacheKey := ''shared-prefix'', bs_CacheUsers := 10\<rparr>;
          mixedPrompt = (scenarioOf profile ''mixed_prompt'')\<lparr>bs_Prompts := [''short prompt'',
              ''medium prompt with enough content to create a different prefill cost profile for the scheduler'', benchmarkPrompt],
            bs_CacheKeyMode := CacheKeyModeUnique\<rparr>;
          blockPressure = (scenarioOf profile ''block_pressure'')\<lparr>bs_Prompt := concat (replicate 4 (benchmarkPrompt @ '' '')),
            bs_CacheKeyMode := CacheKeyModeUnique, bs_Concurrency := min (pf_Concurrency profile) 32\<rparr>;
          blockPressure1 = (if pf_Name profile = ''report'' then blockPressure\<lparr>bs_Requests := 320\<rparr> else blockPressure)
      in [cacheMiss, cacheHit, mixedPrompt, blockPressure1])"

subsection \<open>Requests\<close>

definition bench_durationToMilliseconds :: "duration \<Rightarrow> u32" where
  "bench_durationToMilliseconds d = (if d \<le> 0 then 0 else of_int (d div Millisecond))"

definition promptFor :: "Scenario \<Rightarrow> nat \<Rightarrow> string" where
  "promptFor s index = (if length (bs_Prompts s) = 0 then bs_Prompt s else bs_Prompts s ! (index mod length (bs_Prompts s)))"

definition userId :: "Scenario \<Rightarrow> nat \<Rightarrow> string" where
  "userId s index =
     (if bs_CacheKeyMode s = CacheKeyModeShared
      then let cacheKey = (if bs_CacheKey s = [] then ''bench-'' @ bs_Name s @ ''-cache'' else bs_CacheKey s);
               cacheUsers = max (bs_CacheUsers s) 1
           in cacheKey @ ''-'' @ fmt_0d 3 (nat (int index mod cacheUsers))
      else if bs_CacheKeyMode s = CacheKeyModeUnique then ''bench-'' @ bs_Name s @ ''-cache-'' @ fmt_0d 6 index
      else [])"

definition buildGenerateRequest :: "Scenario \<Rightarrow> nat \<Rightarrow> GenerateRequest" where
  "buildGenerateRequest scenario index = \<lparr>gr_RequestId = ''bench-'' @ bs_Name scenario @ ''-measured-'' @ fmt_0d 6 index,
     gr_ModelId = bs_Model scenario, gr_Prompt = promptFor scenario index, gr_MaxTokens = bs_MaxTokens scenario,
     gr_TimeoutMs = bench_durationToMilliseconds (bs_Timeout scenario), gr_UserId = userId scenario index,
     gr_Labels = fmupd ''scenario'' (bs_Name scenario) fmempty\<rparr>"

definition isSuccessfulFinishReason :: "FinishReason \<Rightarrow> bool" where
  "isSuccessfulFinishReason reason \<longleftrightarrow> reason = FinishReasonStop \<or> reason = FinishReasonLength"

text \<open>
  A call of the client answers an error, or a response that may be nil.  \<open>reasonString\<close> is the generated
  \<^verbatim>\<open>FinishReason.String\<close>.
\<close>

type_synonym answer = "GenerateResponse option result"

definition warmupRequest :: "Scenario \<Rightarrow> nat \<Rightarrow> GenerateRequest" where
  "warmupRequest scenario i = (buildGenerateRequest scenario i)\<lparr>gr_RequestId := ''bench-'' @ bs_Name scenario @ ''-warmup-'' @ fmt_0d 6 i\<rparr>"

fun warmupLoop :: "(FinishReason \<Rightarrow> string) \<Rightarrow> (nat \<Rightarrow> GenerateRequest \<Rightarrow> answer) \<Rightarrow> Scenario \<Rightarrow> nat list \<Rightarrow> error option" where
  "warmupLoop reasonString generate scenario [] = None"
| "warmupLoop reasonString generate scenario (i # is) = (case generate i (warmupRequest scenario i) of
     Inl err \<Rightarrow> Some err
   | Inr None \<Rightarrow> Some (Errorf ''warmup request returned nil response'' [])
   | Inr (Some resp) \<Rightarrow>
       if gs_ErrorMessage resp \<noteq> [] then Some (Errorf (''warmup request returned error response: '' @ gs_ErrorMessage resp) [])
       else if \<not> isSuccessfulFinishReason (gs_FinishReason resp)
       then Some (Errorf (''warmup request returned unexpected finish reason: '' @ reasonString (gs_FinishReason resp)) [])
       else warmupLoop reasonString generate scenario is)"

definition runWarmupRequests :: "(FinishReason \<Rightarrow> string) \<Rightarrow> (nat \<Rightarrow> GenerateRequest \<Rightarrow> answer) \<Rightarrow> Scenario \<Rightarrow> error option" where
  "runWarmupRequests reasonString generate scenario = warmupLoop reasonString generate scenario [0..<nat (bs_CacheUsers scenario)]"

subsection \<open>Reading the metrics\<close>

definition zero_BenchMetrics :: BenchMetrics where
  "zero_BenchMetrics = \<lparr>bm_BatchesTotal = 0, bm_QueueRejectedTotal = 0, bm_AvgBatchSize = 0, bm_AvgQueueWaitSeconds = 0,
     bm_AvgExecutionSeconds = 0, bm_RequestCountObserved = 0, bm_BatchCountObserved = 0, bm_ActiveRequestsFinal = 0,
     bm_InflightBatchesFinal = 0, bm_AvgTTFTSeconds = 0, bm_AvgTBTSeconds = 0, bm_PrefixCacheHits = 0, bm_PrefixCacheMisses = 0,
     bm_PrefixCacheTokensSaved = 0, bm_PrefillItemsTotal = 0, bm_DecodeItemsTotal = 0, bm_KVBlocksActiveFinal = 0,
     bm_KVBlocksFreeFinal = 0, bm_KVBlocksCachedFinal = 0, bm_KVAllocationFailures = 0, bm_PrefixCacheEvictions = 0,
     bm_batchSizeSum = 0, bm_batchSizeCount = 0, bm_queueWaitSum = 0, bm_queueWaitCount = 0, bm_executionSum = 0,
     bm_executionCount = 0, bm_ttftSum = 0, bm_ttftCount = 0, bm_tbtSum = 0, bm_tbtCount = 0\<rparr>"

text \<open>\<^verbatim>\<open>strings.Split\<close> at one character and \<^verbatim>\<open>strings.Contains\<close>.\<close>

fun Split :: "string \<Rightarrow> char \<Rightarrow> string list" where
  "Split [] sep = [[]]"
| "Split (c # cs) sep = (if c = sep then [] # Split cs sep
     else case Split cs sep of [] \<Rightarrow> [[c]] | l # ls \<Rightarrow> (c # l) # ls)"

definition Contains :: "string \<Rightarrow> string \<Rightarrow> bool" where
  "Contains s p \<longleftrightarrow> list_ex (\<lambda>n. starts_with (drop n s) p) [0..<Suc (length s)]"

definition metricBaseName :: "string \<Rightarrow> string" where
  "metricBaseName name = takeWhile (\<lambda>c. c \<noteq> CHR ''{'') name"

text \<open>\<open>parseFloat\<close> is \<^verbatim>\<open>strconv.ParseFloat\<close>, which answers \<open>None\<close> for what is no finite number.\<close>

definition parseMetricLine :: "(string \<Rightarrow> rat option) \<Rightarrow> string \<Rightarrow> (string \<times> rat) option" where
  "parseMetricLine parseFloat line = (case Fields line of
     [name, v] \<Rightarrow> (case parseFloat v of None \<Rightarrow> None | Some value \<Rightarrow> Some (name, value))
   | _ \<Rightarrow> None)"

text \<open>The local sums and counts of the code are collected in the fields they end in.\<close>

definition addMetric :: "string \<Rightarrow> rat \<Rightarrow> BenchMetrics \<Rightarrow> BenchMetrics" where
  "addMetric name value m =
     (if starts_with name ''llm_batches_total'' then m\<lparr>bm_BatchesTotal := bm_BatchesTotal m + value\<rparr>
      else if name = ''llm_queue_rejected_total'' then m\<lparr>bm_QueueRejectedTotal := value\<rparr>
      else if metricBaseName name = ''llm_batch_size_sum'' then m\<lparr>bm_batchSizeSum := value\<rparr>
      else if metricBaseName name = ''llm_batch_size_count'' then m\<lparr>bm_batchSizeCount := value\<rparr>
      else if starts_with name ''llm_execution_seconds_sum'' then m\<lparr>bm_executionSum := bm_executionSum m + value\<rparr>
      else if starts_with name ''llm_execution_seconds_count'' then m\<lparr>bm_executionCount := bm_executionCount m + value\<rparr>
      else if name = ''llm_queue_wait_seconds_sum'' then m\<lparr>bm_queueWaitSum := value\<rparr>
      else if name = ''llm_queue_wait_seconds_count'' then m\<lparr>bm_queueWaitCount := value\<rparr>
      else if starts_with name ''llm_requests_total'' then m\<lparr>bm_RequestCountObserved := bm_RequestCountObserved m + value\<rparr>
      else if name = ''llm_ttft_seconds_sum'' then m\<lparr>bm_ttftSum := value\<rparr>
      else if name = ''llm_ttft_seconds_count'' then m\<lparr>bm_ttftCount := value\<rparr>
      else if name = ''llm_tbt_seconds_sum'' then m\<lparr>bm_tbtSum := value\<rparr>
      else if name = ''llm_tbt_seconds_count'' then m\<lparr>bm_tbtCount := value\<rparr>
      else if starts_with name ''llm_prefix_cache_requests_total''
      then let m1 = (if Contains name ''status=\"hit\"'' then m\<lparr>bm_PrefixCacheHits := bm_PrefixCacheHits m + value\<rparr> else m)
           in if Contains name ''status=\"miss\"'' then m1\<lparr>bm_PrefixCacheMisses := bm_PrefixCacheMisses m1 + value\<rparr> else m1
      else if name = ''llm_prefix_cache_tokens_saved_total'' then m\<lparr>bm_PrefixCacheTokensSaved := value\<rparr>
      else if starts_with name ''llm_batch_items_total''
      then let m1 = (if Contains name ''phase=\"prefill\"'' then m\<lparr>bm_PrefillItemsTotal := bm_PrefillItemsTotal m + value\<rparr> else m)
           in if Contains name ''phase=\"decode\"'' then m1\<lparr>bm_DecodeItemsTotal := bm_DecodeItemsTotal m1 + value\<rparr> else m1
      else if starts_with name ''llm_kv_blocks''
      then if Contains name ''state=\"active\"'' then m\<lparr>bm_KVBlocksActiveFinal := value\<rparr>
           else if Contains name ''state=\"free\"'' then m\<lparr>bm_KVBlocksFreeFinal := value\<rparr>
           else if Contains name ''state=\"cached\"'' then m\<lparr>bm_KVBlocksCachedFinal := value\<rparr>
           else m
      else if name = ''llm_kv_allocation_failures_total'' then m\<lparr>bm_KVAllocationFailures := value\<rparr>
      else if name = ''llm_prefix_cache_evictions_total'' then m\<lparr>bm_PrefixCacheEvictions := value\<rparr>
      else if name = ''llm_active_requests'' then m\<lparr>bm_ActiveRequestsFinal := value\<rparr>
      else if name = ''llm_inflight_batches'' then m\<lparr>bm_InflightBatchesFinal := value\<rparr>
      else m)"

definition finalizeBenchMetrics :: "BenchMetrics \<Rightarrow> BenchMetrics" where
  "finalizeBenchMetrics m0 =
     (let m1 = (if 0 < bm_batchSizeCount m0
            then m0\<lparr>bm_AvgBatchSize := bm_batchSizeSum m0 / bm_batchSizeCount m0, bm_BatchCountObserved := bm_batchSizeCount m0\<rparr> else m0);
          m2 = (if 0 < bm_queueWaitCount m1 then m1\<lparr>bm_AvgQueueWaitSeconds := bm_queueWaitSum m1 / bm_queueWaitCount m1\<rparr> else m1);
          m3 = (if 0 < bm_executionCount m2 then m2\<lparr>bm_AvgExecutionSeconds := bm_executionSum m2 / bm_executionCount m2\<rparr> else m2);
          m4 = (if 0 < bm_ttftCount m3 then m3\<lparr>bm_AvgTTFTSeconds := bm_ttftSum m3 / bm_ttftCount m3\<rparr> else m3)
      in if 0 < bm_tbtCount m4 then m4\<lparr>bm_AvgTBTSeconds := bm_tbtSum m4 / bm_tbtCount m4\<rparr> else m4)"

definition addLine :: "(string \<Rightarrow> rat option) \<Rightarrow> BenchMetrics \<Rightarrow> string \<Rightarrow> BenchMetrics" where
  "addLine parseFloat m line =
     (if line = [] \<or> starts_with line ''#'' then m
      else case parseMetricLine parseFloat line of None \<Rightarrow> m | Some (name, value) \<Rightarrow> addMetric name value m)"

definition parseBenchMetrics :: "(string \<Rightarrow> rat option) \<Rightarrow> string \<Rightarrow> BenchMetrics" where
  "parseBenchMetrics parseFloat body = finalizeBenchMetrics (foldl (addLine parseFloat) zero_BenchMetrics (Split body (CHR 10)))"

definition counterDelta :: "rat \<Rightarrow> rat \<Rightarrow> rat" where
  "counterDelta before after = (if after < before then after else after - before)"

definition deltaBenchMetrics :: "BenchMetrics \<Rightarrow> BenchMetrics \<Rightarrow> BenchMetrics" where
  "deltaBenchMetrics before after = (let d = (\<lambda>f. counterDelta (f before) (f after)) in finalizeBenchMetrics (zero_BenchMetrics\<lparr>
     bm_BatchesTotal := d bm_BatchesTotal, bm_QueueRejectedTotal := d bm_QueueRejectedTotal,
     bm_RequestCountObserved := d bm_RequestCountObserved, bm_ActiveRequestsFinal := bm_ActiveRequestsFinal after,
     bm_InflightBatchesFinal := bm_InflightBatchesFinal after, bm_PrefixCacheHits := d bm_PrefixCacheHits,
     bm_PrefixCacheMisses := d bm_PrefixCacheMisses, bm_PrefixCacheTokensSaved := d bm_PrefixCacheTokensSaved,
     bm_PrefillItemsTotal := d bm_PrefillItemsTotal, bm_DecodeItemsTotal := d bm_DecodeItemsTotal,
     bm_KVBlocksActiveFinal := bm_KVBlocksActiveFinal after, bm_KVBlocksFreeFinal := bm_KVBlocksFreeFinal after,
     bm_KVBlocksCachedFinal := bm_KVBlocksCachedFinal after, bm_KVAllocationFailures := d bm_KVAllocationFailures,
     bm_PrefixCacheEvictions := d bm_PrefixCacheEvictions, bm_batchSizeSum := d bm_batchSizeSum,
     bm_batchSizeCount := d bm_batchSizeCount, bm_queueWaitSum := d bm_queueWaitSum, bm_queueWaitCount := d bm_queueWaitCount,
     bm_executionSum := d bm_executionSum, bm_executionCount := d bm_executionCount, bm_ttftSum := d bm_ttftSum,
     bm_ttftCount := d bm_ttftCount, bm_tbtSum := d bm_tbtSum, bm_tbtCount := d bm_tbtCount\<rparr>))"

text \<open>\<open>scraped\<close> is what the metrics address answers: an error, or the page.\<close>

definition fetchBenchMetrics :: "(string \<Rightarrow> rat option) \<Rightarrow> string result \<Rightarrow> BenchMetrics result" where
  "fetchBenchMetrics parseFloat scraped = (case scraped of Inl err \<Rightarrow> Inl err | Inr body \<Rightarrow> Inr (parseBenchMetrics parseFloat body))"

subsection \<open>Latencies\<close>

text \<open>The division of Go rounds towards zero.\<close>

definition avgDuration :: "duration list \<Rightarrow> duration" where
  "avgDuration ds = (if length ds = 0 then 0
     else let total = foldl (+) 0 ds; n = int (length ds)
          in if total < 0 then - (- total div n) else total div n)"

definition percentileDuration :: "duration list \<Rightarrow> rat \<Rightarrow> duration" where
  "percentileDuration ds p =
     (if length ds = 0 then 0
      else if p \<le> 0 then ds ! 0
      else if 100 \<le> p then ds ! (length ds - 1)
      else let idx0 = \<lceil>p / 100 * of_nat (length ds)\<rceil> - 1;
               idx1 = (if idx0 < 0 then 0 else idx0);
               idx = (if int (length ds) \<le> idx1 then int (length ds) - 1 else idx1)
           in ds ! nat idx)"

subsection \<open>Running a scenario\<close>

text \<open>
  The goroutines of the requests record their latencies and count their outcomes under two locks, in the
  orders \<open>latOrder\<close> and \<open>cntOrder\<close>.  \<open>call i\<close> is the latency and the answer of the \<open>i\<close>-th request.
\<close>

definition requestSucceeded :: "answer \<Rightarrow> bool" where
  "requestSucceeded r = (case r of
     Inl err \<Rightarrow> False
   | Inr None \<Rightarrow> False
   | Inr (Some resp) \<Rightarrow> gs_ErrorMessage resp = [] \<and> isSuccessfulFinishReason (gs_FinishReason resp))"

definition countOutcome :: "answer \<Rightarrow> int \<times> int \<Rightarrow> int \<times> int" where
  "countOutcome r counts = (let (success, failed) = counts in if requestSucceeded r then (success + 1, failed) else (success, failed + 1))"

definition throughput :: "int \<Rightarrow> duration \<Rightarrow> rat option" where
  "throughput success totalDuration = (if totalDuration = 0 then None else Some (of_int success / (of_int totalDuration / of_int Second)))"

definition benchResult :: "Scenario \<Rightarrow> duration list \<Rightarrow> int \<times> int \<Rightarrow> duration \<Rightarrow> BenchMetrics \<Rightarrow> Result" where
  "benchResult scenario latencies counts totalDuration serverMetrics = (let (success, failed) = counts in
     \<lparr>br_Scenario = scenario, br_Success = success, br_Failed = failed,
      br_TotalDuration = totalDuration, br_ThroughputRPS = throughput success totalDuration,
      br_AvgLatency = avgDuration latencies, br_P50Latency = percentileDuration latencies 50,
      br_P90Latency = percentileDuration latencies 90, br_P99Latency = percentileDuration latencies 99,
      br_Metrics = serverMetrics\<rparr>)"

text \<open>\<open>None\<close>: a channel or slice of negative size, which panics, or requests no slot of the semaphore ever admits.\<close>

definition RunScenario :: "(string \<Rightarrow> rat option) \<Rightarrow> (FinishReason \<Rightarrow> string) \<Rightarrow> (nat \<Rightarrow> GenerateRequest \<Rightarrow> answer) \<Rightarrow>
    (nat \<Rightarrow> GenerateRequest \<Rightarrow> duration \<times> answer) \<Rightarrow> nat list \<Rightarrow> nat list \<Rightarrow> duration \<Rightarrow> string result \<Rightarrow> string result \<Rightarrow>
    Scenario \<Rightarrow> Result result option" where
  "RunScenario parseFloat reasonString warm call latOrder cntOrder totalDuration pageBefore pageAfter scenario =
     (case runWarmupRequests reasonString warm scenario of
        Some err \<Rightarrow> Some (Inl err)
      | None \<Rightarrow> (case fetchBenchMetrics parseFloat pageBefore of
          Inl err \<Rightarrow> Some (Inl err)
        | Inr beforeMetrics \<Rightarrow>
            if bs_Concurrency scenario < 0 \<or> bs_Requests scenario < 0 \<or> bs_Concurrency scenario = 0 \<and> 0 < bs_Requests scenario then None
            else let run = (\<lambda>i. call i (buildGenerateRequest scenario i));
                     latencies = sort (foldl (\<lambda>ls i. ls @ [fst (run i)]) [] latOrder);
                     counts = foldl (\<lambda>counts i. countOutcome (snd (run i)) counts) (0, 0) cntOrder
                 in (case fetchBenchMetrics parseFloat pageAfter of
                       Inl err \<Rightarrow> Some (Inl err)
                     | Inr afterMetrics \<Rightarrow> Some (Inr (benchResult scenario latencies counts totalDuration (deltaBenchMetrics beforeMetrics afterMetrics))))))"

subsection \<open>The check of a quick run\<close>

definition complain :: "bool \<Rightarrow> string \<Rightarrow> string list" where
  "complain wrong message = (if wrong then [message] else [])"

definition ValidateQuickResult :: "Result \<Rightarrow> error option" where
  "ValidateQuickResult result =
     (let sc = br_Scenario result; m = br_Metrics result;
          expectedRequests = rat_of_int (bs_Requests sc);
          expectedDecodeItems = expectedRequests * of_nat (unat (bs_MaxTokens sc));
          hit = (bs_Name sc = ''cache_hit'');
          expectedHits = (if hit then expectedRequests else 0);
          expectedMisses = (if hit then 0 else expectedRequests);
          failures =
            complain (br_Success result \<noteq> bs_Requests sc)
              (''successful requests: got '' @ fmt_int (br_Success result) @ '' want '' @ fmt_int (bs_Requests sc)) @
            complain (br_Failed result \<noteq> 0) (''failed requests: got '' @ fmt_int (br_Failed result) @ '' want 0'') @
            complain (bm_RequestCountObserved m \<noteq> expectedRequests)
              (''observed requests: got '' @ fmt_0f (bm_RequestCountObserved m) @ '' want '' @ fmt_0f expectedRequests) @
            complain (bm_DecodeItemsTotal m \<noteq> expectedDecodeItems)
              (''decode work items: got '' @ fmt_0f (bm_DecodeItemsTotal m) @ '' want '' @ fmt_0f expectedDecodeItems) @
            complain (\<not> hit \<and> bm_PrefillItemsTotal m = 0) ''prefill work items: got 0 want > 0'' @
            complain (bm_PrefixCacheHits m \<noteq> expectedHits)
              (''cache hits: got '' @ fmt_0f (bm_PrefixCacheHits m) @ '' want '' @ fmt_0f expectedHits) @
            complain (bm_PrefixCacheMisses m \<noteq> expectedMisses)
              (''cache misses: got '' @ fmt_0f (bm_PrefixCacheMisses m) @ '' want '' @ fmt_0f expectedMisses) @
            complain (bm_QueueRejectedTotal m \<noteq> 0) (''queue rejections: got '' @ fmt_0f (bm_QueueRejectedTotal m) @ '' want 0'') @
            complain (bm_ActiveRequestsFinal m \<noteq> 0) (''active requests: got '' @ fmt_0f (bm_ActiveRequestsFinal m) @ '' want 0'') @
            complain (bm_InflightBatchesFinal m \<noteq> 0) (''inflight batches: got '' @ fmt_0f (bm_InflightBatchesFinal m) @ '' want 0'') @
            complain (bm_KVBlocksActiveFinal m \<noteq> 0) (''active KV blocks: got '' @ fmt_0f (bm_KVBlocksActiveFinal m) @ '' want 0'') @
            complain (bs_Name sc \<noteq> ''block_pressure'' \<and> bm_KVAllocationFailures m \<noteq> 0)
              (''allocation failures: got '' @ fmt_0f (bm_KVAllocationFailures m) @ '' want 0'')
      in if failures \<noteq> [] then Some (Errorf (''quick validation failed for '' @ bs_Name sc @ '': '' @ Join failures ''; '') []) else None)"

subsection \<open>The program (main.go)\<close>

text \<open>\<open>run\<close> runs a scenario.  The results printed, and the error the program ends with.\<close>

fun benchLoop :: "(Scenario \<Rightarrow> Result result option) \<Rightarrow> Profile \<Rightarrow> string \<Rightarrow> string \<Rightarrow> Scenario list \<Rightarrow> (Result list \<times> error option) option" where
  "benchLoop run profile target metricsURL [] = Some ([], None)"
| "benchLoop run profile target metricsURL (scenario # ss) = do {
     r \<leftarrow> run (scenario\<lparr>bs_Target := target, bs_MetricsURL := metricsURL\<rparr>);
     case r of
       Inl runErr \<Rightarrow> Some ([], Some runErr)
     | Inr result \<Rightarrow> (case (if pf_Name profile = ''quick'' then ValidateQuickResult result else None) of
         Some validationErr \<Rightarrow> Some ([result], Some validationErr)
       | None \<Rightarrow> do {
           (results, err) \<leftarrow> benchLoop run profile target metricsURL ss;
           Some (result # results, err)
         })
   }"

definition benchMain :: "(Scenario \<Rightarrow> Result result option) \<Rightarrow> string \<Rightarrow> string \<Rightarrow> string \<Rightarrow> (Result list \<times> error option) option" where
  "benchMain run profileName target metricsURL = (case ProfilePreset profileName of
     Inl err \<Rightarrow> Some ([], Some err)
   | Inr profile \<Rightarrow> benchLoop run profile target (if metricsURL = [] then target @ ''/metrics'' else metricsURL) (ScenariosForProfile profile))"

end
