(* ===== verification/Programs.thy ===== *)
theory Programs
  imports Kv_Prelude
begin

text \<open>
  Operations whose goroutine can be interrupted: a program is a chain of atomic actions on a shared state,
  each of which decides, from the state it finds, what comes after it.  A program runs alone, or its
  actions are interleaved with those of others; \<open>rg\<close> is what it keeps of an invariant then.
\<close>

subsection \<open>Programs\<close>

datatype ('s, 'a) prog =
    Done 'a
  | Act "'s \<Rightarrow> (('s, 'a) prog \<times> 's) option"

text \<open>An action that is not enabled, or panics, gives \<open>None\<close>.\<close>

definition atomic :: "('s \<Rightarrow> ('a \<times> 's) option) \<Rightarrow> ('s, 'a) prog" where
  "atomic f = Act (\<lambda>s. map_option (\<lambda>(a, s1). (Done a, s1)) (f s))"

primrec pbind :: "('s, 'a) prog \<Rightarrow> ('a \<Rightarrow> ('s, 'b) prog) \<Rightarrow> ('s, 'b) prog" where
  "pbind (Done a) k = k a"
| "pbind (Act f) k = Act (\<lambda>s. map_option (map_prod (\<lambda>p. pbind p k) id) (f s))"

abbreviation pthen :: "('s, 'a) prog \<Rightarrow> ('s, 'b) prog \<Rightarrow> ('s, 'b) prog" where
  "pthen p q \<equiv> pbind p (\<lambda>_. q)"

text \<open>The program alone, from a state to its result.\<close>

primrec run :: "('s, 'a) prog \<Rightarrow> 's \<Rightarrow> ('a \<times> 's) option" where
  "run (Done a) = (\<lambda>s. Some (a, s))"
| "run (Act f) = (\<lambda>s. case map_option (map_prod run id) (f s) of None \<Rightarrow> None | Some (r, s1) \<Rightarrow> r s1)"

lemma run_atomic [simp]: "run (atomic f) s = f s"
  by (cases "f s") (auto simp: atomic_def)

lemma run_pbind [simp]: "run (pbind p k) s = run p s \<bind> (\<lambda>(a, s1). run (k a) s1)"
proof (induction p arbitrary: s)
  case (Act f)
  show ?case
  proof (cases "f s")
    case (Some r)
    then obtain p s1 where r: "f s = Some (p, s1)"
      by (cases r) simp
    then show ?thesis
      using Act.IH [of "Some (p, s1)" "(p, s1)" p s1] by (auto intro: rangeI dest: sym)
  qed simp
qed simp

lemma pbind_Done [simp]: "pbind p Done = p"
proof (induction p)
  case (Act f)
  have "map_option (map_prod (\<lambda>p. pbind p Done) id) (f s) = f s" for s
  proof (cases "f s")
    case (Some r)
    then obtain p s1 where r: "f s = Some (p, s1)"
      by (cases r) simp
    then show ?thesis
      using Act.IH [of "Some (p, s1)" "(p, s1)" p] by (auto intro: rangeI dest: sym)
  qed simp
  then show ?case
    by simp
qed simp

subsection \<open>What a program keeps\<close>

text \<open>
  Others move the shared state while the program runs.  What the program knows is a value \<open>g\<close> that only
  grows by \<open>G\<close>; at each of its actions it finds some state of the invariant \<open>I\<close> for what is known by then,
  and leaves one for what it knows next.  \<open>Q\<close> holds of its result.
\<close>

inductive rg :: "('g \<Rightarrow> 's \<Rightarrow> bool) \<Rightarrow> ('g \<Rightarrow> 'g \<Rightarrow> bool) \<Rightarrow> ('a \<Rightarrow> 'g \<Rightarrow> bool) \<Rightarrow> ('s, 'a) prog \<Rightarrow> 'g \<Rightarrow> bool" for I G Q where
  rg_done: "(\<And>h. G g h \<Longrightarrow> Q a h) \<Longrightarrow> rg I G Q (Done a) g"
| rg_act: "(\<And>h s p s1. G g h \<Longrightarrow> I h s \<Longrightarrow> f s = Some (p, s1) \<Longrightarrow> \<exists>h1. G h h1 \<and> I h1 s1 \<and> rg I G Q p h1) \<Longrightarrow> rg I G Q (Act f) g"

inductive_cases rg_DoneE: "rg I G Q (Done a) g"
inductive_cases rg_ActE: "rg I G Q (Act f) g"

locale knowledge =
  fixes I :: "'g \<Rightarrow> 's \<Rightarrow> bool" and G :: "'g \<Rightarrow> 'g \<Rightarrow> bool"
  assumes G_refl: "G g g" and G_trans: "G g h \<Longrightarrow> G h k \<Longrightarrow> G g k"
begin

lemma rg_later: "rg I G Q p g \<Longrightarrow> G g h \<Longrightarrow> rg I G Q p h"
proof (induction rule: rg.induct)
  case (rg_done g a)
  then show ?case
    by (auto intro: rg.rg_done G_trans)
next
  case (rg_act g f)
  show ?case
    by (rule rg.rg_act) (use rg_act.IH rg_act.prems G_trans in blast)
qed

lemma rg_result: "rg I G Q (Done a) g \<Longrightarrow> Q a g"
  by (erule rg_DoneE) (blast intro: G_refl)

lemma rg_bind_stable:
  assumes "rg I G Q p g" "\<And>a h. G g h \<Longrightarrow> (\<And>j. G h j \<Longrightarrow> Q a j) \<Longrightarrow> rg I G R (k a) h"
  shows "rg I G R (pbind p k) g"
  using assms
proof (induction rule: rg.induct)
  case (rg_done g a)
  show ?case
    unfolding pbind.simps by (rule rg_done.prems) (use rg_done.hyps G_refl in blast)+
next
  case (rg_act g f)
  show ?case
    unfolding pbind.simps
  proof (rule rg.rg_act)
    fix h s p s1 assume h: "G g h" "I h s" and f: "map_option (map_prod (\<lambda>p. pbind p k) id) (f s) = Some (p, s1)"
    then obtain q where q: "f s = Some (q, s1)" "p = pbind q k"
      by auto
    obtain h1 where h1: "G h h1" "I h1 s1" "rg I G Q q h1" 
        "(\<And>a h. G h1 h \<Longrightarrow> (\<And>j. G h j \<Longrightarrow> Q a j) \<Longrightarrow> rg I G R (k a) h) \<Longrightarrow> rg I G R (pbind q k) h1"
      using rg_act.IH [OF h q(1)] by blast
    have "rg I G R p h1"
      unfolding q(2) by (rule h1(4)) (use rg_act.prems G_trans [OF h(1)] G_trans [OF h1(1)] in blast)
    then show "\<exists>h1. G h h1 \<and> I h1 s1 \<and> rg I G R p h1"
      using h1(1,2) by blast
  qed
qed

lemma rg_bind:
  "rg I G Q p g \<Longrightarrow> (\<And>a h. G g h \<Longrightarrow> Q a h \<Longrightarrow> rg I G R (k a) h) \<Longrightarrow> rg I G R (pbind p k) g"
  by (rule rg_bind_stable) (auto intro: G_refl)

lemma rg_weaken: "rg I G Q p g \<Longrightarrow> (\<And>a h. G g h \<Longrightarrow> Q a h \<Longrightarrow> R a h) \<Longrightarrow> rg I G R p g"
  by (rule rg_bind_stable [of Q p g R Done, unfolded pbind_Done]) (auto intro: rg_done G_trans)

lemma rg_atomic:
  fixes f :: "'s \<Rightarrow> ('c \<times> 's) option"
  assumes "\<And>h s a s1. G g h \<Longrightarrow> I h s \<Longrightarrow> f s = Some (a, s1) \<Longrightarrow> \<exists>h1. G h h1 \<and> I h1 s1 \<and> Q a h1"
    and "\<And>a h k. Q a h \<Longrightarrow> G h k \<Longrightarrow> Q a k"
  shows "rg I G Q (atomic f) g"
  unfolding atomic_def
proof (rule rg_act)
  fix h s s1 and p :: "('s, 'c) prog"
  assume h: "G g h" "I h s" "map_option (\<lambda>(a, s1). (Done a, s1)) (f s) = Some (p, s1)"
  then obtain a where a: "f s = Some (a, s1)" "p = Done a"
    by auto
  then show "\<exists>h1. G h h1 \<and> I h1 s1 \<and> rg I G Q p h1"
    using assms(1) [OF h(1,2) a(1)] assms(2) rg_done by metis
qed

end

end
