(* ===== verification/Engine.thy ===== *)
theory Engine
  imports Handler Sched_Submit Executor_Drain Placement
begin

text \<open>
  The engine as a whole, as \<^verbatim>\<open>cmd/server\<close> wires it: requests arriving at the handler, the batch loop, the
  event loop, the consumers of the executor manager, the forwarders of the streams and their callers,
  taking turns in any order.  One step is a whole operation, such as a turn of the batch loop or the handling
  of an event, as if nothing interrupted it; \<open>Engine_Programs\<close> cuts the operations at their atomic actions.
  The facts here say what each operation keeps of the engine's invariant.
\<close>

subsection \<open>Wiring (dependence.go, main.go, startup.go)\<close>

definition newBlockRegistry :: "executor_manager \<Rightarrow> registry result" where
  "newBlockRegistry executors = NewRegistry (fmmap Some (GetRuntimeStates executors))"

record 'q system =
  sy_tokenizer :: "'q tokenizer"
  sy_scheduler :: scheduler
  sy_streams :: "stream list"

text \<open>
  The components \<^verbatim>\<open>main\<close> provides, in the order of their dependencies; the first error aborts the start.
  \<open>clock\<close> and \<open>uuid\<close> are the readings of the clock and the identifiers generated later on.
\<close>

definition provide :: "'q tokenizer_env \<Rightarrow> (ExecutorConf \<Rightarrow> nat \<Rightarrow> GetRuntimeResponse result) \<Rightarrow> (nat \<Rightarrow> time) \<Rightarrow> (nat \<Rightarrow> string) \<Rightarrow> Conf \<Rightarrow>
    'q system result option" where
  "provide env get clock uuid cfg = (case NewTokenizer env cfg of
     Inl err \<Rightarrow> Some (Inl err)
   | Inr t \<Rightarrow> do {
       r \<leftarrow> NewExecutors get cfg;
       case r of
         Inl err \<Rightarrow> Some (Inl err)
       | Inr executors \<Rightarrow>
           let em = NewExecutorManager executors
           in (case newBlockRegistry em of
                 Inl err \<Rightarrow> Some (Inl err)
               | Inr reg \<Rightarrow>
                   let w = \<lparr>w_state = NewRequestLifecycleStateManager reg NewMetrics, w_clock = clock, w_uuid = uuid, w_tick = 0\<rparr>
                   in Some (Inr \<lparr>sy_tokenizer = t, sy_scheduler = NewScheduler cfg em w, sy_streams = []\<rparr>))
     })"

text \<open>\<^verbatim>\<open>StartBatchLoop\<close> starts the consumers; the batch and event loops are the steps below.\<close>

definition StartBatchLoop :: "'q system \<Rightarrow> 'q system" where
  "StartBatchLoop y = y\<lparr>sy_scheduler := (sy_scheduler y)\<lparr>s_executorManager := Consume (s_executorManager (sy_scheduler y))\<rparr>\<rparr>"

subsection \<open>Steps\<close>

text \<open>The state the executor manager shares with the rest: itself and the metrics.\<close>

definition managerState :: "scheduler \<Rightarrow> em_state" where
  "managerState s = (s_executorManager s, sm_metrics (w_state (s_world s)))"

definition setManagerState :: "em_state \<Rightarrow> scheduler \<Rightarrow> scheduler" where
  "setManagerState x s = (updMetrics (\<lambda>_. snd x) s)\<lparr>s_executorManager := fst x\<rparr>"

text \<open>Prompts of no tokens, or of more than 32 bits can count, are left out here (see \<open>empty_prompt_panics\<close>).\<close>

definition proper_prompt :: "'q tokenizer_env \<Rightarrow> Request \<Rightarrow> 'q tokenizer \<Rightarrow> bool" where
  "proper_prompt env req t = (case fst (tokenizer_Encode env (rq_ModelID req) (rq_Prompt req) t) of
     Inl _ \<Rightarrow> True
   | Inr tokens \<Rightarrow> tokens \<noteq> [] \<and> length tokens < 2 ^ 32)"

inductive sys_step :: "'q tokenizer_env \<Rightarrow> 'q system \<Rightarrow> 'q system \<Rightarrow> bool" for env where
  arrive: "proper_prompt env req (sy_tokenizer y) \<Longrightarrow>
    GenerateStream env req (sy_tokenizer y, sy_scheduler y) = Some (r, (t, s)) \<Longrightarrow>
    sys_step env y (y\<lparr>sy_tokenizer := t, sy_scheduler := s,
      sy_streams := sy_streams y @ (case r of Inl _ \<Rightarrow> [] | Inr str \<Rightarrow> [str])\<rparr>)"
| batch: "batchTurn sel signal (sy_scheduler y) = Some s \<Longrightarrow> sys_step env y (y\<lparr>sy_scheduler := s\<rparr>)"
| event: "consumeEvent (sy_scheduler y) = Some s \<Longrightarrow> sys_step env y (y\<lparr>sy_scheduler := s\<rparr>)"
| receive: "consumeReceive e (s_executorManager (sy_scheduler y)) (snd (managerState (sy_scheduler y))) = Some x \<Longrightarrow>
    sys_step env y (y\<lparr>sy_scheduler := setManagerState x (sy_scheduler y)\<rparr>)"
| execute: "consumeExecute now rpc e (s_executorManager (sy_scheduler y)) (snd (managerState (sy_scheduler y))) = Some x \<Longrightarrow>
    sys_step env y (y\<lparr>sy_scheduler := setManagerState x (sy_scheduler y)\<rparr>)"
| send: "consumeSend e (s_executorManager (sy_scheduler y)) = Some em \<Longrightarrow>
    sys_step env y (y\<lparr>sy_scheduler := (sy_scheduler y)\<lparr>s_executorManager := em\<rparr>\<rparr>)"
| stop: "consumeStop e (s_executorManager (sy_scheduler y)) = Some em \<Longrightarrow>
    sys_step env y (y\<lparr>sy_scheduler := (sy_scheduler y)\<lparr>s_executorManager := em\<rparr>\<rparr>)"
| forward: "i < length (sy_streams y) \<Longrightarrow>
    forward_step env cancelled (sy_streams y ! i, (sy_tokenizer y, sy_scheduler y)) (str, (t, s)) \<Longrightarrow>
    sys_step env y (y\<lparr>sy_tokenizer := t, sy_scheduler := s, sy_streams := (sy_streams y)[i := str]\<rparr>)"
| read: "i < length (sy_streams y) \<Longrightarrow> readOutput (sy_streams y ! i) = Some (out, str) \<Longrightarrow>
    sys_step env y (y\<lparr>sy_streams := (sy_streams y)[i := str]\<rparr>)"

inductive sys_reachable :: "'q tokenizer_env \<Rightarrow> 'q system \<Rightarrow> bool" for env where
  init: "provide env get clock uuid cfg = Some (Inr y) \<Longrightarrow> sys_reachable env (StartBatchLoop y)"
| step: "sys_reachable env y \<Longrightarrow> sys_step env y y' \<Longrightarrow> sys_reachable env y'"

inductive_cases sys_stepE: "sys_step env y y'"

subsection \<open>The invariant\<close>

text \<open>A batch in the hands of the executor manager: made for its executor, and fit to be sent.\<close>

definition batch_ok :: "string \<Rightarrow> Batch \<Rightarrow> bool" where
  "batch_ok e b \<longleftrightarrow> bt_ExecutorID b = e \<and> bt_Items b \<noteq> [] \<and> bt_BatchSize b = of_nat (length (bt_Items b)) \<and>
     (\<forall>w \<in> set (bt_Items b). item_of e w \<and> sendable w)"

definition batches_ok :: "executor_manager \<Rightarrow> bool" where
  "batches_ok em \<longleftrightarrow> (\<forall>e bs b. fmlookup (em_batchChans em) e = Some bs \<longrightarrow> b \<in> set bs \<longrightarrow> batch_ok e b) \<and>
     (\<forall>e b. fmlookup (em_workers em) e = Some (Running b) \<longrightarrow> batch_ok e b)"

definition sched_ok :: "scheduler \<Rightarrow> bool" where
  "sched_ok s \<longleftrightarrow> routed s \<and> has_queues s \<and> em_inv (s_executorManager s) \<and> batches_ok (s_executorManager s) \<and>
     set (s_executorIDs s) = set (em_executorList (s_executorManager s))"

text \<open>Operations that keep to their own queues and leave the executor manager alone.\<close>

definition keeps :: "scheduler \<Rightarrow> scheduler \<Rightarrow> bool" where
  "keeps s s1 \<longleftrightarrow> (routed s \<and> has_queues s \<longrightarrow> routed s1 \<and> has_queues s1) \<and> same_setup s s1 \<and> s_executorManager s1 = s_executorManager s"

lemma keeps_refl [simp]: "keeps s s"
  by (simp add: keeps_def)

lemma keeps_trans: "keeps s s1 \<Longrightarrow> keeps s1 s2 \<Longrightarrow> keeps s s2"
  by (auto simp: keeps_def intro: same_setup_trans)

lemma keeps_frame: "same_queues s s1 \<Longrightarrow> same_setup s s1 \<Longrightarrow> s_executorManager s1 = s_executorManager s \<Longrightarrow> keeps s s1"
  by (simp add: keeps_def routed_frame has_queues_frame)

lemma keeps_ok: "keeps s s1 \<Longrightarrow> sched_ok s \<Longrightarrow> sched_ok s1"
  by (auto simp: keeps_def sched_ok_def same_setup_def)

lemma keeps_world: "w_clock w = w_clock (s_world s) \<Longrightarrow> w_uuid w = w_uuid (s_world s) \<Longrightarrow> keeps s (s\<lparr>s_world := w\<rparr>)"
  by (rule keeps_frame) (simp_all add: same_queues_def same_setup_def)

lemma keeps_world_simps [simp]:
  "keeps s (updMetrics f s)" "keeps s (setRegistry reg s)" "keeps s (updState st s)" "keeps s (s\<lparr>s_world := w_advance st (s_world s)\<rparr>)"
  by (simp_all add: updMetrics_def setRegistry_def updState_def w_advance_def Let_def keeps_world)

lemma manager_frame [simp]:
  "routed (s\<lparr>s_executorManager := em\<rparr>) = routed s" "has_queues (s\<lparr>s_executorManager := em\<rparr>) = has_queues s"
  by (simp_all add: routed_def works_defs has_queues_def)

lemma sched_ok_manager:
  "sched_ok s \<Longrightarrow> em_inv em \<Longrightarrow> batches_ok em \<Longrightarrow> em_executorList em = em_executorList (s_executorManager s) \<Longrightarrow> sched_ok (s\<lparr>s_executorManager := em\<rparr>)"
  by (simp add: sched_ok_def)

subsection \<open>Arrivals\<close>

lemma matchLoop_length: "matchLoop hs xs m = Some (ys, m') \<Longrightarrow> length ys \<le> length xs + length hs"
  by (induction hs xs m rule: matchLoop.induct) (fastforce split: option.splits bind_splits)+

lemma MatchPrefix_bound:
  assumes "manager_MatchPrefix req m = Some ((cache, req'), m')" "rq_TokenIDs req \<noteq> []" "length (rq_TokenIDs req) < 2 ^ 32"
  shows "req' = req\<lparr>rq_Cache := Some cache\<rparr>" "unat (pm_CachedTokens cache) < length (rq_TokenIDs req)"
proof -
  let ?n = "length (rq_TokenIDs req)" and ?b = "unat (m_blockSize m)"
  obtain total hs ids m1 where h: "matchableBlockHashes m req = Some (total, hs)" "matchLoop hs [] m = Some (ids, m1)"
      "cache = \<lparr>pm_Hit = (ids \<noteq> []), pm_CachedTokens = of_nat (length ids) * m_blockSize m, pm_BlockIDs = ids, pm_HashesTotal = total\<rparr>"
      "req' = req\<lparr>rq_Cache := Some cache\<rparr>"
    using assms(1) by (auto simp: manager_MatchPrefix_def Let_def split: bind_splits)
  have "length hs \<le> (?n - 1) div ?b"
    using h(1) assms(2) by (auto simp: matchableBlockHashes_def Let_def split: bind_splits)
  then have "length ids \<le> (?n - 1) div ?b"
    using matchLoop_length [OF h(2)] by simp
  then have "length ids * ?b \<le> (?n - 1) div ?b * ?b"
    by simp
  also have "\<dots> \<le> ?n - 1"
    by simp
  finally have le: "length ids * ?b \<le> ?n - 1" .
  have "unat (of_nat (length ids) * m_blockSize m) = length ids * ?b mod 2 ^ 32"
    by (simp add: unat_word_ariths unat_of_nat mod_mult_left_eq)
  also have "\<dots> \<le> length ids * ?b"
    by (rule mod_less_eq_dividend)
  finally have "unat (pm_CachedTokens cache) \<le> ?n - 1"
    using le h(3) by simp
  then show "unat (pm_CachedTokens cache) < ?n"
    using assms(2) by (cases "rq_TokenIDs req") simp_all
  show "req' = req\<lparr>rq_Cache := Some cache\<rparr>"
    by (rule h(4))
qed


lemma sm_Create_item:
  assumes "sm_Create now uuid req st = Some (Inr work, st1)" "rq_PromptTokens req = of_nat (length (rq_TokenIDs req))"
    "rq_TokenIDs req \<noteq> []" "length (rq_TokenIDs req) < 2 ^ 32"
  shows "prefill_item work"
proof -
  let ?n = "length (rq_TokenIDs req)"
  from assms(1) show ?thesis
  proof (cases rule: sm_CreateE)
    case (filed e cache req1 reg mx item)
    have w: "item = work"
      using filed(2) by simp
    obtain m m1 where "manager_MatchPrefix (req\<lparr>rq_Phase := RequestPhasePrefillReady, rq_ExecutorID := e\<rparr>) m = Some ((cache, req1), m1)"
      using MatchPrefix_request(2) [OF filed(3)] by blast
    from MatchPrefix_bound(2) [OF this] have b: "unat (pm_CachedTokens cache) < ?n"
      using assms(3,4) by simp
    have n: "unat (rq_PromptTokens req) = ?n"
      using assms(2,4) by (simp add: unat_of_nat_u32)
    then have lt: "pm_CachedTokens cache < rq_PromptTokens req"
      using b by (simp add: word_less_nat_alt)
    then have phase: "wk_Phase work = WorkPhasePrefill" "wk_NumNewTokens work = rq_PromptTokens req - pm_CachedTokens cache"
      using filed(8) by (simp_all add: w not_le split: if_splits)
    then have "unat (wk_NumNewTokens work) = ?n - unat (pm_CachedTokens cache)"
      using n lt by (simp add: unat_sub less_imp_le)
    moreover have "wk_TokenIDs work = drop (unat (pm_CachedTokens cache)) (rq_TokenIDs req)"
      using filed(7) b by (simp add: w slice_from_Some)
    ultimately show ?thesis
      using phase lt b by (simp add: prefill_item_def)
  qed simp_all
qed

lemma createRequest_keeps:
  assumes "createRequest req s = Some (r, s1)"
  shows "keeps s s1"
  using assms by (auto simp: createRequest_def Let_def split: bind_splits)

lemma ok_Enqueue:
  assumes "sched_Enqueue w s = Some (err, s1)" "prefill_item w \<or> decode_item w" "sched_ok s"
  shows "sched_ok s1"
  using sched_Enqueue_keeps [OF assms(1) _ _ assms(2)] assms(3) by (auto simp: sched_ok_def same_setup_def)

lemma ok_enqueueAll:
  assumes "enqueueAll items s = Some (err, s1)" "\<forall>w \<in> set items. prefill_item w \<or> decode_item w" "sched_ok s"
  shows "sched_ok s1"
  using enqueueAll_keeps [OF assms(1) _ _ assms(2)] assms(3) by (auto simp: sched_ok_def same_setup_def)

lemma AssignExecutor_keeps:
  assumes "AssignExecutor req s = (err, req1, s1)"
  shows "keeps s s1" "rq_TokenIDs req1 = rq_TokenIDs req" "rq_PromptTokens req1 = rq_PromptTokens req"
proof -
  show "keeps s s1"
    using assms by (intro keeps_frame) (auto simp: AssignExecutor_def Let_def same_setup_def same_queues_def split: if_splits)
  show "rq_TokenIDs req1 = rq_TokenIDs req" "rq_PromptTokens req1 = rq_PromptTokens req"
    using assms by (auto simp: AssignExecutor_def Let_def split: if_splits)
qed

lemma failRequest_keeps: "failRequest q err s = Some s1 \<Longrightarrow> keeps s s1"
  using failRequest_frame [of q err s s1] by (intro keeps_frame) simp_all

text \<open>The five ways a request's arrival can end, in the order of the code.\<close>

lemma GenerateStreamE:
  assumes "GenerateStream env req (t, s) = Some (r, (t1, s1))"
  obtains (encode) err where "r = Inl err" "s1 = s"
  | (assign) req' req1 er err where "AssignExecutor req' s = (Some er, req1, s1)" "r = Inl err"
  | (create) tokens req1 s2 er err where "fst (tokenizer_Encode env (rq_ModelID req) (rq_Prompt req) t) = Inr tokens"
      "AssignExecutor (req\<lparr>rq_TokenIDs := tokens, rq_PromptTokens := of_nat (length tokens)\<rparr>) s = (None, req1, s2)"
      "createRequest req1 s2 = Some (Inl er, s1)" "r = Inl err"
  | (subscribe) tokens req1 s2 work s3 er err where "fst (tokenizer_Encode env (rq_ModelID req) (rq_Prompt req) t) = Inr tokens"
      "AssignExecutor (req\<lparr>rq_TokenIDs := tokens, rq_PromptTokens := of_nat (length tokens)\<rparr>) s = (None, req1, s2)"
      "createRequest req1 s2 = Some (Inr work, s3)" "failRequest (wk_RequestId work) (Some er) s3 = Some s1" "r = Inl err"
  | (enqueue) tokens req1 s2 work s3 eventCh err where "fst (tokenizer_Encode env (rq_ModelID req) (rq_Prompt req) t) = Inr tokens"
      "AssignExecutor (req\<lparr>rq_TokenIDs := tokens, rq_PromptTokens := of_nat (length tokens)\<rparr>) s = (None, req1, s2)"
      "createRequest req1 s2 = Some (Inr work, s3)" "sm_Subscribe (rq_RequestId req1) (w_state (s_world s3)) = Inr eventCh"
      "sched_Enqueue work s3 = Some (err, s1)"
      "r = (case err of Some er \<Rightarrow> Inl (internalError er)
          | None \<Rightarrow> Inr \<lparr>st_requestId = wk_RequestId work, st_modelID = rq_ModelID req1, st_eventCh = eventCh, st_chOut = [],
              st_closed = False, st_forwarder = Selecting\<rparr>)"
proof (cases "tokenizer_Encode env (rq_ModelID req) (rq_Prompt req) t")
  case enc: (Pair tok t')
  show thesis
  proof (cases tok)
    case (Inl err)
    then have "r = Inl err" "s1 = s"
      using assms enc by (auto simp: GenerateStream_def)
    then show thesis
      by (rule encode)
  next
    case (Inr tokens)
    let ?req = "req\<lparr>rq_TokenIDs := tokens, rq_PromptTokens := of_nat (length tokens)\<rparr>"
    obtain err req1 s2 where a: "AssignExecutor ?req s = (err, req1, s2)"
      by (metis prod_cases3)
    have e: "fst (tokenizer_Encode env (rq_ModelID req) (rq_Prompt req) t) = Inr tokens"
      using enc Inr by simp
    show thesis
    proof (cases err)
      case (Some er)
      then have "s1 = s2" "r = Inl (errors_New CodeExecutorUnavailable (error_Error er))"
        using assms enc Inr a by (auto simp: GenerateStream_def)
      then show thesis
        using assign a Some by blast
    next
      case None
      then obtain created s3 where c: "createRequest req1 s2 = Some (created, s3)"
        using assms enc Inr a by (auto simp: GenerateStream_def split: bind_splits)
      then show thesis
        using assms enc e Inr a None create [of tokens req1 s2] subscribe [of tokens req1 s2 _ s3] enqueue [of tokens req1 s2 _ s3]
        by (auto simp: GenerateStream_def split: bind_splits sum.splits option.splits)
    qed
  qed
qed

lemma GenerateStream_tokenizer:
  "GenerateStream env req (t, s) = Some (r, (t1, s1)) \<Longrightarrow> t1 = snd (tokenizer_Encode env (rq_ModelID req) (rq_Prompt req) t)"
  by (auto simp: GenerateStream_def split: sum.splits option.splits prod.splits bind_splits)

lemma ok_GenerateStream:
  assumes g: "GenerateStream env req (t, s) = Some (r, (t1, s1))" and p: "proper_prompt env req t" and ok: "sched_ok s"
  shows "sched_ok s1"
  using g
proof (cases rule: GenerateStreamE)
  case (assign req' req1 er err)
  show ?thesis
    by (rule keeps_ok [OF AssignExecutor_keeps(1) [OF assign(1)] ok])
next
  case (create tokens req1 s2 er err)
  show ?thesis
    by (rule keeps_ok [OF createRequest_keeps [OF create(3)] keeps_ok [OF AssignExecutor_keeps(1) [OF create(2)] ok]])
next
  case (subscribe tokens req1 s2 work s3 er err)
  show ?thesis
    by (rule keeps_ok [OF failRequest_keeps [OF subscribe(4)]
        keeps_ok [OF createRequest_keeps [OF subscribe(3)] keeps_ok [OF AssignExecutor_keeps(1) [OF subscribe(2)] ok]]])
next
  case (enqueue tokens req1 s2 work s3 eventCh err)
  have tok: "tokens \<noteq> []" "length tokens < 2 ^ 32"
    using p enqueue(1) by (simp_all add: proper_prompt_def)
  obtain st where "sm_Create (w_now (s_world s2)) (w_fresh (s_world s2)) req1 (w_state (s_world s2)) = Some (Inr work, st)"
    using enqueue(3) by (auto simp: createRequest_def Let_def split: bind_splits)
  then have "prefill_item work \<or> decode_item work"
    using sm_Create_item AssignExecutor_keeps(2,3) [OF enqueue(2)] tok by auto
  moreover have "sched_ok s3"
    by (rule keeps_ok [OF createRequest_keeps [OF enqueue(3)] keeps_ok [OF AssignExecutor_keeps(1) [OF enqueue(2)] ok]])
  ultimately show ?thesis
    using ok_Enqueue [OF enqueue(5)] by blast
qed (use ok in simp)

subsection \<open>Events\<close>

lemma sm_OnEvent_items:
  assumes "sm_OnEvent now uuid e st = Some ((items, e1), st1)"
  shows "\<forall>w \<in> set items. prefill_item w \<or> decode_item w"
proof -
  have "items = [] \<or> (\<exists>rq rq' e'. applyEvent now uuid e rq = Some (rq', e', items))"
    using assms by (fastforce simp: sm_OnEvent_def onEventLocked_def split: bind_splits option.splits prod.splits)
  then show ?thesis
    using applyEvent_items by fastforce
qed

lemma ok_handleEvent:
  assumes h: "handleEvent event s = Some (err, s1)" and ok: "sched_ok s"
  shows "sched_ok s1"
proof (cases "fmlookup (requestsOf s) (ev_RequestId event)")
  case None
  then show ?thesis
    using h ok by (simp add: handleEvent_def)
next
  case (Some req)
  then obtain ferr reg where fin: "finalizeBlocks event req (registryOf s) = Some (ferr, reg)"
    using h by (auto simp: handleEvent_def split: bind_splits)
  let ?ev = "case ferr of None \<Rightarrow> event | Some err \<Rightarrow> failedBy err event" and ?w = "s_world (setRegistry reg s)"
  obtain items e2 st where on: "sm_OnEvent (w_now ?w) (w_fresh ?w) ?ev (w_state ?w) = Some ((items, e2), st)"
    using h Some fin by (auto simp: handleEvent_def Let_def split: bind_splits)
  let ?s2 = "s\<lparr>s_world := w_advance st ?w\<rparr>"
  have "keeps s ?s2"
    by (rule keeps_world) (simp_all add: w_advance_def setRegistry_def Let_def)
  then have ok2: "sched_ok ?s2"
    using keeps_ok ok by blast
  obtain er s3 where e: "enqueueAll items ?s2 = Some (er, s3)"
    using h Some fin on by (auto simp: handleEvent_def Let_def split: bind_splits)
  have ok3: "sched_ok s3"
    by (rule ok_enqueueAll [OF e sm_OnEvent_items [OF on] ok2])
  have "s1 = s3 \<or> (\<exists>reg f. s1 = setRegistry reg s3 \<or> s1 = updMetrics f (setRegistry reg s3))"
    using h Some fin on e by (auto simp: handleEvent_def Let_def split: bind_splits option.splits prod.splits if_splits)
  then have "keeps s3 s1"
    using keeps_trans [OF keeps_world_simps(2) keeps_world_simps(1)] by auto
  then show ?thesis
    using keeps_ok ok3 by blast
qed

lemma ok_consumeEvent:
  assumes c: "consumeEvent s = Some s1" and ok: "sched_ok s"
  shows "sched_ok s1"
proof -
  obtain event em err where e: "receiveEvent (s_executorManager s) = Some (event, em)" "handleEvent event (s\<lparr>s_executorManager := em\<rparr>) = Some (err, s1)"
    using c by (auto simp: consumeEvent_def split: bind_splits)
  have em: "em_batchChans em = em_batchChans (s_executorManager s)" "em_workers em = em_workers (s_executorManager s)"
      "em_executorList em = em_executorList (s_executorManager s)"
    using e(1) by (auto simp: receiveEvent_def split: list.splits)
  have "sched_ok (s\<lparr>s_executorManager := em\<rparr>)"
    by (rule sched_ok_manager [OF ok]) (use ok em em_inv_take [OF _ e(1)] in \<open>auto simp: sched_ok_def batches_ok_def\<close>)
  then show ?thesis
    using ok_handleEvent [OF e(2)] by blast
qed

subsection \<open>Batches\<close>

lemma em_inv_submitted:
  assumes "em_inv em" "submitted b em em1"
  shows "em_inv em1"
proof -
  have "Submit None True (Some b) em = (None, em1)"
    using assms(2) by (auto simp: submitted_def Submit_def)
  then show ?thesis
    using em_inv_Submit assms(1) by blast
qed

lemma batches_ok_submitted: "batches_ok em \<Longrightarrow> submitted b em em1 \<Longrightarrow> batch_ok (bt_ExecutorID b) b \<Longrightarrow> batches_ok em1"
  by (fastforce simp: batches_ok_def submitted_def split: if_splits)

lemma ok_patchExecute:
  assumes p: "patchExecute ctx choice e s = Some s1" and ok: "sched_ok s"
  shows "sched_ok s1"
proof -
  have q: "routed s" "has_queues s" "em_inv (s_executorManager s)" "batches_ok (s_executorManager s)"
      "set (s_executorIDs s) = set (em_executorList (s_executorManager s))"
    using ok by (simp_all add: sched_ok_def)
  have r: "routed s1" "has_queues s1" "s_executorIDs s1 = s_executorIDs s"
    and em: "s_executorManager s1 = s_executorManager s \<or>
      (\<exists>b. submitted b (s_executorManager s) (s_executorManager s1) \<and> batch_ok (bt_ExecutorID b) b)"
    using patchExecute_spec [OF p q(1,2)] by (auto simp: same_setup_def batch_ok_def)
  from em show ?thesis
  proof (elim disjE exE conjE)
    fix b assume b: "submitted b (s_executorManager s) (s_executorManager s1)" "batch_ok (bt_ExecutorID b) b"
    have "em_executorList (s_executorManager s1) = em_executorList (s_executorManager s)"
      using b(1) by (auto simp: submitted_def)
    then show ?thesis
      using r q(5) em_inv_submitted [OF q(3) b(1)] batches_ok_submitted [OF q(4) b] by (simp add: sched_ok_def)
  qed (use r q in \<open>simp add: sched_ok_def\<close>)
qed

lemma ok_patchExecutors: "patchExecutors sel es s = Some s1 \<Longrightarrow> sched_ok s \<Longrightarrow> sched_ok s1"
  by (induction es arbitrary: s) (auto split: bind_splits intro: ok_patchExecute)

lemma ok_batchTurn:
  assumes "batchTurn sel signal s = Some s1" "sched_ok s"
  shows "sched_ok s1"
proof -
  have "sched_ok (s\<lparr>s_patchExecuteChan := b\<rparr>)" for b
    using assms(2) by (simp add: sched_ok_def routed_def works_defs has_queues_def)
  then show ?thesis
    using assms ok_patchExecutors by (auto simp: batchTurn_def split: if_splits)
qed

subsection \<open>Consumers\<close>

lemma batches_ok_worker:
  assumes "batches_ok em" "\<forall>b. w = Running b \<longrightarrow> batch_ok e b"
  shows "batches_ok (setWorker e w em)"
  using assms by (auto simp: batches_ok_def setWorker_def)

lemma em_executorList_setWorker [simp]: "em_executorList (setWorker e w em) = em_executorList em"
  by (simp add: setWorker_def)

lemma afterBatch_not_running [simp]: "afterBatch evs \<noteq> Running b"
  by (simp add: afterBatch_def)

lemma ok_consumeReceive:
  assumes "consumeReceive e em mx = Some (em1, mx1)" "em_inv em" "batches_ok em"
  shows "batches_ok em1 \<and> em_executorList em1 = em_executorList em"
proof -
  obtain b bs where b: "fmlookup (em_batchChans em) e = Some (b # bs)"
      "em1 = setWorker e (Running b) (em\<lparr>em_batchChans := fmupd e bs (em_batchChans em), em_inflightBatches := em_inflightBatches em + 1\<rparr>)"
    using assms(1) by (auto simp: consumeReceive_def Let_def split: option.splits worker.splits list.splits)
  have "batches_ok (em\<lparr>em_batchChans := fmupd e bs (em_batchChans em), em_inflightBatches := em_inflightBatches em + 1\<rparr>)"
    using assms(3) b(1) by (fastforce simp: batches_ok_def)
  then show ?thesis
    using b assms(3) batches_ok_worker by (fastforce simp: batches_ok_def [of em] setWorker_def)
qed

lemma ok_consumeExecute:
  assumes "consumeExecute now rpc e em mx = Some (em1, mx1)" "batches_ok em"
  shows "batches_ok em1 \<and> em_executorList em1 = em_executorList em"
proof -
  obtain evs n where em1: "em1 = setWorker e (afterBatch evs) (em\<lparr>em_inflightBatches := n\<rparr>)"
    using assms(1) by (auto simp: consumeExecute_def Let_def split: option.splits worker.splits bind_splits prod.splits)
  have "batches_ok (em\<lparr>em_inflightBatches := n\<rparr>)"
    using assms(2) by (simp add: batches_ok_def)
  then have "batches_ok em1"
    unfolding em1 by (rule batches_ok_worker) simp
  then show ?thesis
    by (simp add: em1)
qed

lemma ok_consumeSend:
  assumes "consumeSend e em = Some em1" "batches_ok em"
  shows "batches_ok em1 \<and> em_executorList em1 = em_executorList em"
proof -
  obtain evs c where em1: "em1 = setWorker e (afterBatch evs) (em\<lparr>em_eventChan := c\<rparr>)"
    using assms(1) by (auto simp: consumeSend_def split: option.splits worker.splits list.splits if_splits)
  have "batches_ok (em\<lparr>em_eventChan := c\<rparr>)"
    using assms(2) by (simp add: batches_ok_def)
  then have "batches_ok em1"
    unfolding em1 by (rule batches_ok_worker) simp
  then show ?thesis
    by (simp add: em1)
qed

lemma ok_consumeStop:
  assumes "consumeStop e em = Some em1" "batches_ok em"
  shows "batches_ok em1 \<and> em_executorList em1 = em_executorList em"
proof -
  have "em1 = setWorker e Stopped em"
    using assms(1) by (auto simp: consumeStop_def split: option.splits worker.splits)
  then show ?thesis
    using batches_ok_worker [OF assms(2)] by (simp add: setWorker_def)
qed

lemma ok_setManagerState:
  assumes "sched_ok s" "em_inv em" "batches_ok em \<and> em_executorList em = em_executorList (s_executorManager s)"
  shows "sched_ok (setManagerState (em, mx) s)"
  using sched_ok_manager [OF keeps_ok [OF keeps_world_simps(1) assms(1)] assms(2)] assms(3)
  by (simp add: setManagerState_def updMetrics_def Let_def)

subsection \<open>Streams\<close>

lemma ok_forward:
  assumes "forward_step env cancelled (str, (t, s)) (str1, (t1, s1))" "sched_ok s"
  shows "sched_ok s1"
proof -
  from assms(1) have "keeps s s1"
    by (auto elim!: forward_stepE simp: forwardReceive_def forwardSend_def forwardCancel_def Let_def
        split: if_splits bind_splits option.splits forwarder.splits)
  then show ?thesis
    using keeps_ok assms(2) by blast
qed

subsection \<open>The engine keeps its invariant\<close>

lemma provide_ok:
  assumes "provide env get clock uuid cfg = Some (Inr y)"
  shows "sched_ok (sy_scheduler (StartBatchLoop y))"
proof -
  obtain t executors reg where p: "NewExecutors get cfg = Some (Inr executors)" "newBlockRegistry (NewExecutorManager executors) = Inr reg"
      "y = \<lparr>sy_tokenizer = t, sy_scheduler = NewScheduler cfg (NewExecutorManager executors)
        \<lparr>w_state = NewRequestLifecycleStateManager reg NewMetrics, w_clock = clock, w_uuid = uuid, w_tick = 0\<rparr>, sy_streams = []\<rparr>"
    using assms by (auto simp: provide_def Let_def split: sum.splits bind_splits)
  let ?em = "NewExecutorManager executors" and ?s = "sy_scheduler y"
  have inv: "em_inv ?em"
    by (rule em_inv_new [OF NewExecutors_ok(1) [OF p(1)]])
  have em: "em_workers ?em = fmempty" "em_executors ?em = executors" "\<And>e. fmlookup (em_batchChans ?em) e \<noteq> None \<Longrightarrow> fmlookup (em_batchChans ?em) e = Some []"
    by (auto simp: NewExecutorManager_def Let_def fmlookup_of_list map_of_map_restrict restrict_map_def split: if_splits)
  have inv2: "em_inv (Consume ?em)"
    by (rule em_inv_Consume [OF inv em(1)])
  have no_run: "fmlookup (em_workers (Consume ?em)) e \<noteq> Some (Running b)" for e b
    by (auto simp: Consume_def fmlookup_of_list dest!: map_of_SomeD)
  have batches: "batches_ok (Consume ?em)"
    using em(3) no_run by (fastforce simp: batches_ok_def Consume_def)
  have "set (r_executorIDs reg) = fset (fmdom (GetRuntimeStates ?em))"
    using p(2) by (auto simp: newBlockRegistry_def NewRegistry_def Let_def sorted_list_of_fset.rep_eq split: if_splits sum.splits)
  moreover have "e \<in> fset (fmdom (GetRuntimeStates ?em)) \<longleftrightarrow> e \<in> set (em_executorList ?em)" for e
    using em_invD(2) [OF inv] GetRuntimeStates_lookup [OF em_invD(1) [OF inv], of e]
    by (simp add: fmlookup_dom_iff)
  ultimately have "set (s_executorIDs ?s) = set (em_executorList ?em)"
    by (simp add: p(3) NewScheduler_def Let_def ExecutorIDs_def NewRequestLifecycleStateManager_def set_eq_iff)
  moreover have "routed ?s" "has_queues ?s"
    by (simp_all add: p(3) NewScheduler_queues)
  moreover have "s_executorManager ?s = ?em" "em_executorList (Consume ?em) = em_executorList ?em"
    by (simp_all add: p(3) NewScheduler_def Consume_def Let_def)
  ultimately show ?thesis
    using inv2 batches by (simp add: StartBatchLoop_def sched_ok_def)
qed

lemma sys_step_ok: "sys_step env y y' \<Longrightarrow> sched_ok (sy_scheduler y) \<Longrightarrow> sched_ok (sy_scheduler y')"
proof (induction rule: sys_step.induct)
  case (receive e y x)
  obtain em mx where x: "x = (em, mx)"
    by (cases x)
  have ok: "em_inv (s_executorManager (sy_scheduler y))" "batches_ok (s_executorManager (sy_scheduler y))"
    using receive(2) by (simp_all add: sched_ok_def)
  show ?case
    using ok_setManagerState [OF receive(2) em_inv_receive [OF ok(1) receive(1) [unfolded x]] ok_consumeReceive [OF receive(1) [unfolded x] ok]]
    by (simp add: x)
next
  case (execute now rpc e y x)
  obtain em mx where x: "x = (em, mx)"
    by (cases x)
  have ok: "em_inv (s_executorManager (sy_scheduler y))" "batches_ok (s_executorManager (sy_scheduler y))"
    using execute(2) by (simp_all add: sched_ok_def)
  show ?case
    using ok_setManagerState [OF execute(2) em_inv_execute [OF ok(1) execute(1) [unfolded x]] ok_consumeExecute [OF execute(1) [unfolded x] ok(2)]]
    by (simp add: x)
next
  case (send e y em)
  then show ?case
    using ok_consumeSend [OF send(1)] em_inv_send [OF _ send(1)] sched_ok_manager [OF send(2)] by (auto simp: sched_ok_def)
next
  case (stop e y em)
  then show ?case
    using ok_consumeStop [OF stop(1)] em_inv_stop [OF _ stop(1)] sched_ok_manager [OF stop(2)] by (auto simp: sched_ok_def)
qed (auto intro: ok_GenerateStream ok_batchTurn ok_consumeEvent ok_forward)

lemma sys_reachable_ok: "sys_reachable env y \<Longrightarrow> sched_ok (sy_scheduler y)"
  by (induction rule: sys_reachable.induct) (auto intro: provide_ok sys_step_ok)

end
