(* ===== verification/Sched_Programs.thy ===== *)
theory Sched_Programs
  imports Programs Engine
begin

text \<open>
  The operations of the request manager and the scheduler as the chains of atomic actions they are.  A
  section under the manager's lock, a call of the block registry, a metric and a channel operation are one
  action each.  The lock of a queue is held while its \<^verbatim>\<open>Pop\<close>, \<^verbatim>\<open>Peek\<close> or \<^verbatim>\<open>Dequeue\<close> asks the manager about works, so
  there it is part of the state, and the other operations on the queue wait for it.
\<close>

subsection \<open>The shared state\<close>

datatype queue_kind = SmallQueue | LargeQueue | DecodeQueue

record 'q shared =
  sh_system :: "'q system"
  sh_locks :: "(queue_kind \<times> string) list"

abbreviation schedOf :: "'q shared \<Rightarrow> scheduler" where
  "schedOf x \<equiv> sy_scheduler (sh_system x)"

definition putSched :: "scheduler \<Rightarrow> 'q shared \<Rightarrow> 'q shared" where
  "putSched s x = x\<lparr>sh_system := (sh_system x)\<lparr>sy_scheduler := s\<rparr>\<rparr>"

text \<open>An action on the scheduler, one that only reads, and one that only updates.\<close>

definition sched_act :: "(scheduler \<Rightarrow> ('a \<times> scheduler) option) \<Rightarrow> ('q shared, 'a) prog" where
  "sched_act f = atomic (\<lambda>x. map_option (\<lambda>(a, s). (a, putSched s x)) (f (schedOf x)))"

abbreviation sched_get :: "(scheduler \<Rightarrow> 'a) \<Rightarrow> ('q shared, 'a) prog" where
  "sched_get f \<equiv> sched_act (\<lambda>s. Some (f s, s))"

abbreviation sched_put :: "(scheduler \<Rightarrow> scheduler) \<Rightarrow> ('q shared, unit) prog" where
  "sched_put f \<equiv> sched_act (\<lambda>s. Some ((), f s))"

text \<open>Actions on the request manager, with and without a reading of the clock.\<close>

definition timed :: "(time \<Rightarrow> string \<Rightarrow> state_manager \<Rightarrow> ('a \<times> state_manager) option) \<Rightarrow> ('q shared, 'a) prog" where
  "timed f = sched_act (\<lambda>s. let w = s_world s in
     map_option (\<lambda>(a, st). (a, s\<lparr>s_world := w_advance st w\<rparr>)) (f (w_now w) (w_fresh w) (w_state w)))"

definition untimed :: "(state_manager \<Rightarrow> ('a \<times> state_manager) option) \<Rightarrow> ('q shared, 'a) prog" where
  "untimed f = sched_act (\<lambda>s. map_option (\<lambda>(a, st). (a, updState st s)) (f (w_state (s_world s))))"

subsection \<open>The request manager\<close>

definition sendP :: "nat \<Rightarrow> Event \<Rightarrow> ('q shared, unit) prog" where
  "sendP c e = untimed (\<lambda>st. map_option (Pair ()) (chan_send c e st))"

definition closeP :: "nat \<Rightarrow> ('q shared, unit) prog" where
  "closeP c = untimed (\<lambda>st. map_option (Pair ()) (chan_close c st))"

text \<open>The last event of a request, and the end of its channel.\<close>

fun notifyP :: "(nat \<times> Event) option \<Rightarrow> ('q shared, unit) prog" where
  "notifyP None = Done ()"
| "notifyP (Some (c, e)) = pthen (sendP c e) (closeP c)"

definition failP :: "string \<Rightarrow> error option \<Rightarrow> ('q shared, unit) prog" where
  "failP requestId err = pbind
     (timed (\<lambda>now uuid st. map_option (\<lambda>(subCh, st1). (map_option (\<lambda>c. (c, failEvent now uuid requestId err)) subCh, st1)) (leaveLocked requestId st)))
     notifyP"

text \<open>The locked part of \<^verbatim>\<open>CanSchedule\<close>, with what it leaves to send.\<close>

definition canScheduleLocked :: "time \<Rightarrow> string \<Rightarrow> WorkItem \<Rightarrow> state_manager \<Rightarrow> ((bool \<times> (nat \<times> Event) option) \<times> state_manager) option" where
  "canScheduleLocked now uuid work st = (case fmlookup (sm_requests st) (wk_RequestId work) of
     None \<Rightarrow> Some ((False, None), st)
   | Some req \<Rightarrow>
       if rq_Deadline req \<noteq> 0 \<and> rq_Deadline req < now
       then do {
         let subCh = fmlookup (sm_subscribeCh st) (wk_RequestId work);
         st1 \<leftarrow> deleteRequest (wk_RequestId work) st;
         Some ((False, map_option (\<lambda>c. (c, failEvent now uuid (wk_RequestId work) (Some (errors_New CodeRequestTimeout ''request timeout'')))) subCh), st1)
       }
       else Some ((rq_Phase req \<notin> {RequestPhaseFinished, RequestPhaseCanceled, RequestPhaseTimeout, RequestPhaseFailed}, None), st))"

definition canScheduleP :: "WorkItem \<Rightarrow> ('q shared, bool) prog" where
  "canScheduleP work = pbind (timed (\<lambda>now uuid. canScheduleLocked now uuid work)) (\<lambda>(ok, last). pthen (notifyP last) (Done ok))"

text \<open>The event is sent to the channel found under a second lock, after the first is released.\<close>

definition onEventP :: "Event \<Rightarrow> ('q shared, WorkItem list \<times> Event) prog" where
  "onEventP e = pbind (timed (\<lambda>now uuid. onEventLocked now uuid e)) (\<lambda>r. case r of
     None \<Rightarrow> Done ([], e)
   | Some (e1, items) \<Rightarrow> pbind (untimed (\<lambda>st. Some (fmlookup (sm_subscribeCh st) (ev_RequestId e1), st))) (\<lambda>subCh. case subCh of
         None \<Rightarrow> Done (items, e1)
       | Some c \<Rightarrow> pthen (sendP c e1) (Done (items, e1))))"

subsection \<open>Queues\<close>

text \<open>A queue of an executor is there from the start; its operations begin by taking its lock.\<close>

definition unlocked :: "queue_kind \<Rightarrow> string \<Rightarrow> (scheduler \<Rightarrow> ('a \<times> scheduler) option) \<Rightarrow> ('q shared, 'a) prog" where
  "unlocked kd e f = atomic (\<lambda>x. if (kd, e) \<in> set (sh_locks x) then None
     else map_option (\<lambda>(a, s). (a, putSched s x)) (f (schedOf x)))"

definition lockP :: "queue_kind \<Rightarrow> string \<Rightarrow> (scheduler \<Rightarrow> 'a option) \<Rightarrow> ('q shared, 'a) prog" where
  "lockP kd e f = atomic (\<lambda>x. if (kd, e) \<in> set (sh_locks x) then None
     else map_option (\<lambda>a. (a, x\<lparr>sh_locks := (kd, e) # sh_locks x\<rparr>)) (f (schedOf x)))"

definition unlockP :: "queue_kind \<Rightarrow> string \<Rightarrow> ('q shared, unit) prog" where
  "unlockP kd e = atomic (\<lambda>x. Some ((), x\<lparr>sh_locks := remove1 (kd, e) (sh_locks x)\<rparr>))"

fun worksIn :: "queue_kind \<Rightarrow> string \<Rightarrow> scheduler \<Rightarrow> WorkItem list option" where
  "worksIn SmallQueue e s = map_option pq_works (fmlookup (s_prefillSmall s) e)"
| "worksIn LargeQueue e s = map_option pq_works (fmlookup (s_prefillLarge s) e)"
| "worksIn DecodeQueue e s = map_option (\<lambda>q. map en_work (dq_works q)) (fmlookup (s_decode s) e)"

text \<open>\<^verbatim>\<open>q.works = q.works[1:]\<close>\<close>

definition tailPrefill :: "string \<Rightarrow> (string, prefill_queue) fmap \<Rightarrow> (string, prefill_queue) fmap" where
  "tailPrefill e m = (case fmlookup m e of None \<Rightarrow> m | Some q \<Rightarrow> fmupd e (q\<lparr>pq_works := tl (pq_works q)\<rparr>) m)"

fun dropHead :: "queue_kind \<Rightarrow> string \<Rightarrow> scheduler \<Rightarrow> scheduler" where
  "dropHead SmallQueue e s = s\<lparr>s_prefillSmall := tailPrefill e (s_prefillSmall s)\<rparr>"
| "dropHead LargeQueue e s = s\<lparr>s_prefillLarge := tailPrefill e (s_prefillLarge s)\<rparr>"
| "dropHead DecodeQueue e s = (case fmlookup (s_decode s) e of None \<Rightarrow> s
    | Some q \<Rightarrow> s\<lparr>s_decode := fmupd e (q\<lparr>dq_works := tl (dq_works q)\<rparr>) (s_decode s)\<rparr>)"

text \<open>The loops run over the works found when the lock was taken: nobody else changes them until it is given back.\<close>

fun popLoopP :: "queue_kind \<Rightarrow> string \<Rightarrow> WorkItem list \<Rightarrow> ('q shared, WorkItem option) prog" where
  "popLoopP kd e [] = Done None"
| "popLoopP kd e (work # ws) = pthen (sched_put (dropHead kd e)) (pbind (canScheduleP work)
     (\<lambda>ok. if ok then Done (Some work) else popLoopP kd e ws))"

definition popP :: "queue_kind \<Rightarrow> string \<Rightarrow> ('q shared, WorkItem option) prog" where
  "popP kd e = pbind (lockP kd e (worksIn kd e)) (\<lambda>ws. pbind (popLoopP kd e ws) (\<lambda>r. pthen (unlockP kd e) (Done r)))"

fun peekLoopP :: "queue_kind \<Rightarrow> string \<Rightarrow> WorkItem list \<Rightarrow> ('q shared, WorkItem option) prog" where
  "peekLoopP kd e [] = Done None"
| "peekLoopP kd e (work # ws) = pbind (canScheduleP work)
     (\<lambda>ok. if ok then Done (Some work) else pthen (sched_put (dropHead kd e)) (peekLoopP kd e ws))"

definition peekP :: "queue_kind \<Rightarrow> string \<Rightarrow> ('q shared, WorkItem option) prog" where
  "peekP kd e = pbind (lockP kd e (worksIn kd e)) (\<lambda>ws. pbind (peekLoopP kd e ws) (\<lambda>r. pthen (unlockP kd e) (Done r)))"

fun dequeueLoopP :: "nat \<Rightarrow> string \<Rightarrow> WorkItem list \<Rightarrow> ('q shared, WorkItem list) prog" where
  "dequeueLoopP 0 e ws = Done []"
| "dequeueLoopP (Suc n) e [] = Done []"
| "dequeueLoopP (Suc n) e (work # ws) = pthen (sched_put (dropHead DecodeQueue e)) (pbind (canScheduleP work)
     (\<lambda>ok. pbind (dequeueLoopP n e ws) (\<lambda>taken. Done (if ok then work # taken else taken))))"

definition dequeueP :: "u32 \<Rightarrow> string \<Rightarrow> ('q shared, WorkItem list \<times> u32) prog" where
  "dequeueP maxSeqs e = pbind (lockP DecodeQueue e (worksIn DecodeQueue e)) (\<lambda>ws.
     pbind (dequeueLoopP (unat maxSeqs) e ws) (\<lambda>taken. pthen (unlockP DecodeQueue e) (Done (taken, of_nat (length taken)))))"

definition lengthP :: "queue_kind \<Rightarrow> string \<Rightarrow> ('q shared, u32) prog" where
  "lengthP kd e = unlocked kd e (\<lambda>s. map_option (\<lambda>ws. (of_nat (length ws), s)) (worksIn kd e s))"

text \<open>The queue a work belongs in; its admission, and its return past the capacity.\<close>

definition queueOf :: "WorkItem \<Rightarrow> scheduler \<Rightarrow> queue_kind" where
  "queueOf work s = (case wk_Phase work of
     WorkPhasePrefill \<Rightarrow> if wk_TokenCntTotal work \<le> s_longPrefillThreshold s then SmallQueue else LargeQueue
   | _ \<Rightarrow> DecodeQueue)"

fun admitWork :: "queue_kind \<Rightarrow> WorkItem \<Rightarrow> scheduler \<Rightarrow> error option \<times> scheduler" where
  "admitWork SmallQueue work s = (let e = wk_ExecutorID work in case fmlookup (s_prefillSmall s) e of
     None \<Rightarrow> (Some (noQueue e ''prefill''), s)
   | Some q \<Rightarrow> (case pq_Enqueue work q of (Some err, _) \<Rightarrow> (Some err, s) | (None, q1) \<Rightarrow> (None, s\<lparr>s_prefillSmall := fmupd e q1 (s_prefillSmall s)\<rparr>)))"
| "admitWork LargeQueue work s = (let e = wk_ExecutorID work in case fmlookup (s_prefillLarge s) e of
     None \<Rightarrow> (Some (noQueue e ''prefill''), s)
   | Some q \<Rightarrow> (case pq_Enqueue work q of (Some err, _) \<Rightarrow> (Some err, s) | (None, q1) \<Rightarrow> (None, s\<lparr>s_prefillLarge := fmupd e q1 (s_prefillLarge s)\<rparr>)))"
| "admitWork DecodeQueue work s = (let e = wk_ExecutorID work in case fmlookup (s_decode s) e of
     None \<Rightarrow> (Some (noQueue e ''decode''), s)
   | Some q \<Rightarrow> (case dq_Enqueue work q of (Some err, _) \<Rightarrow> (Some err, s) | (None, q1) \<Rightarrow> (None, s\<lparr>s_decode := fmupd e q1 (s_decode s)\<rparr>)))"

fun returnWork :: "queue_kind \<Rightarrow> WorkItem \<Rightarrow> scheduler \<Rightarrow> error option \<times> scheduler" where
  "returnWork SmallQueue work s = (let e = wk_ExecutorID work in case fmlookup (s_prefillSmall s) e of
     None \<Rightarrow> (Some (noQueue e ''prefill''), s)
   | Some q \<Rightarrow> (None, s\<lparr>s_prefillSmall := fmupd e (pq_Requeue work q) (s_prefillSmall s)\<rparr>))"
| "returnWork LargeQueue work s = (let e = wk_ExecutorID work in case fmlookup (s_prefillLarge s) e of
     None \<Rightarrow> (Some (noQueue e ''prefill''), s)
   | Some q \<Rightarrow> (None, s\<lparr>s_prefillLarge := fmupd e (pq_Requeue work q) (s_prefillLarge s)\<rparr>))"
| "returnWork DecodeQueue work s = (let e = wk_ExecutorID work in case fmlookup (s_decode s) e of
     None \<Rightarrow> (Some (noQueue e ''decode''), s)
   | Some q \<Rightarrow> (None, s\<lparr>s_decode := fmupd e (dq_Requeue work q) (s_decode s)\<rparr>))"

subsection \<open>The scheduler\<close>

text \<open>Which executors there are, and which have their queues, is settled when the scheduler is made.\<close>

definition hasQueues :: "string \<Rightarrow> scheduler \<Rightarrow> bool" where
  "hasQueues e s \<longleftrightarrow> has_key (s_prefillSmall s) e \<and> has_key (s_prefillLarge s) e \<and> has_key (s_decode s) e"

definition pressureP :: "string \<Rightarrow> ('q shared, bool) prog" where
  "pressureP e = pbind (lengthP LargeQueue e) (\<lambda>nl. if 10 < nl then Done True else
     pbind (lengthP SmallQueue e) (\<lambda>ns. if 30 < ns then Done True else
     pbind (lengthP DecodeQueue e) (\<lambda>nd. sched_get (\<lambda>s. s_thresholdSeqs s \<le> nd))))"

fun queueLengthsP :: "string list \<Rightarrow> u32 \<Rightarrow> u32 \<Rightarrow> ('q shared, u32 \<times> u32) prog" where
  "queueLengthsP [] p d = Done (p, d)"
| "queueLengthsP (e # es) p d = pbind (lengthP SmallQueue e) (\<lambda>ns. pbind (lengthP LargeQueue e) (\<lambda>nl. pbind (lengthP DecodeQueue e)
     (\<lambda>nd. queueLengthsP es (p + (ns + nl)) (d + nd))))"

definition tryScheduleP :: "string \<Rightarrow> ('q shared, unit) prog" where
  "tryScheduleP executorID = pbind (sched_get (hasQueues executorID)) (\<lambda>ok. if \<not> ok then Done () else
     pbind (pressureP executorID) (\<lambda>high. pthen (if high then sched_put (\<lambda>s. s\<lparr>s_patchExecuteChan := True\<rparr>) else Done ())
       (pbind (sched_get s_executorIDs) (\<lambda>ids. pbind (queueLengthsP ids 0 0) (\<lambda>(p, d).
         pthen (sched_put (updMetrics (SetPrefillQueueLength (uint p)))) (sched_put (updMetrics (SetDecodeQueueLength (uint d)))))))))"

definition rejectP :: "string \<Rightarrow> error \<Rightarrow> ('q shared, error option) prog" where
  "rejectP requestId err = pthen (sched_put (updMetrics IncQueueRejected)) (pthen (failP requestId (Some err)) (Done (Some err)))"

definition stampP :: "WorkItem \<Rightarrow> ('q shared, WorkItem) prog" where
  "stampP work = timed (\<lambda>now uuid st. Some (work\<lparr>wk_EnqueuedAt := now\<rparr>, st))"

definition enqueueP :: "WorkItem \<Rightarrow> ('q shared, error option) prog" where
  "enqueueP workItem = pbind (stampP workItem) (\<lambda>work. case wk_Phase work of
     WorkPhaseUnknown _ \<Rightarrow> Done (Some (errors_New CodeInvalidArgument ''invalid phase for enqueue''))
   | _ \<Rightarrow> pbind (sched_get (queueOf work)) (\<lambda>kd. pbind (unlocked kd (wk_ExecutorID work) (\<lambda>s. Some (admitWork kd work s))) (\<lambda>err. case err of
         Some er \<Rightarrow> rejectP (wk_RequestId work) er
       | None \<Rightarrow> pthen (tryScheduleP (wk_ExecutorID work)) (Done None))))"

definition requeueP :: "WorkItem \<Rightarrow> ('q shared, unit) prog" where
  "requeueP work0 = (let work = work0\<lparr>wk_BlockAllocation := None\<rparr> in case wk_Phase work of
     WorkPhaseUnknown _ \<Rightarrow> Done ()
   | _ \<Rightarrow> pbind (sched_get (queueOf work)) (\<lambda>kd. pbind (unlocked kd (wk_ExecutorID work) (\<lambda>s. Some (returnWork kd work s))) (\<lambda>err. case err of
         Some er \<Rightarrow> failP (wk_RequestId work) (Some er)
       | None \<Rightarrow> Done ())))"

text \<open>What becomes of a work that was taken: it fails, waits again, or joins the batch.\<close>

definition decideP :: "WorkItem \<Rightarrow> WorkItem option \<Rightarrow> ('q shared, WorkItem option) prog" where
  "decideP work back_to = pbind (sched_act (allocateBlocks work)) (\<lambda>res. case res of
     Inl err \<Rightarrow> pthen (failP (wk_RequestId work) (Some err)) (Done None)
   | Inr (allocated, work1) \<Rightarrow>
       if \<not> allocated then pthen (requeueP (case back_to of None \<Rightarrow> work1 | Some w \<Rightarrow> w)) (Done None) else Done (Some work1))"

fun decodeLoopP :: "WorkItem list \<Rightarrow> picking \<Rightarrow> ('q shared, picking) prog" where
  "decodeLoopP [] p = Done p"
| "decodeLoopP (work # ws) (batch, budget) = pbind (decideP work None) (\<lambda>r. case r of
     None \<Rightarrow> decodeLoopP ws (batch, budget)
   | Some work1 \<Rightarrow> decodeLoopP ws (batch @ [work1],
       budget\<lparr>bb_remainTokens := bb_remainTokens budget - 1, bb_remainSeqs := bb_remainSeqs budget - 1\<rparr>))"

definition pickDecodeP :: "string \<Rightarrow> picking \<Rightarrow> ('q shared, picking) prog" where
  "pickDecodeP executorID p = (let (batch, budget) = p in
     pbind (dequeueP (min (bb_remainSeqs budget) (bb_remainTokens budget)) executorID) (\<lambda>(workItems, itemLength).
       if itemLength = 0
       then Done (batch, budget\<lparr>bb_remainPrefill := bb_remainSeqs budget, bb_remainLargePrefill := bb_remainSeqs budget\<rparr>)
       else decodeLoopP workItems (batch, budget)))"

fun smallLoopP :: "nat \<Rightarrow> string \<Rightarrow> picking \<Rightarrow> ('q shared, picking) prog" where
  "smallLoopP 0 e p = Done p"
| "smallLoopP (Suc n) e (batch, budget) =
     (if \<not> budgetLeft budget then Done (batch, budget)
      else pbind (peekP SmallQueue e) (\<lambda>peeked. case peeked of
        None \<Rightarrow> Done (batch, budget)
      | Some head \<Rightarrow> (let cost = WorkBudgetCost head in
          if bb_remainTokens budget < cost then Done (batch, budget)
          else pbind (popP SmallQueue e) (\<lambda>popped. case popped of
            None \<Rightarrow> smallLoopP n e (batch, budget)
          | Some item \<Rightarrow> pbind (decideP item None) (\<lambda>r. case r of
              None \<Rightarrow> smallLoopP n e (batch, budget)
            | Some item1 \<Rightarrow> smallLoopP n e (batch @ [item1],
                budget\<lparr>bb_remainTokens := bb_remainTokens budget - cost, bb_remainSeqs := bb_remainSeqs budget - 1,
                       bb_remainPrefill := bb_remainPrefill budget - 1\<rparr>))))))"

fun largeLoopP :: "nat \<Rightarrow> string \<Rightarrow> picking \<Rightarrow> ('q shared, picking) prog" where
  "largeLoopP 0 e p = Done p"
| "largeLoopP (Suc n) e (batch, budget) =
     (if \<not> budgetLeft budget \<or> bb_remainLargePrefill budget = 0 then Done (batch, budget)
      else pbind (popP LargeQueue e) (\<lambda>popped. case popped of
        None \<Rightarrow> Done (batch, budget)
      | Some large \<Rightarrow> (let scheduledTokens = min (WorkBudgetCost large) (bb_remainTokens budget) in
          case splitPrefillChunk large scheduledTokens of
            None \<Rightarrow> Act (\<lambda>_. None)
          | Some (chunk, _) \<Rightarrow> pbind (decideP chunk (Some large)) (\<lambda>r. case r of
              None \<Rightarrow> largeLoopP n e (batch, budget)
            | Some chunk1 \<Rightarrow> largeLoopP n e (batch @ [chunk1],
                budget\<lparr>bb_remainTokens := bb_remainTokens budget - scheduledTokens, bb_remainSeqs := bb_remainSeqs budget - 1,
                       bb_remainPrefill := bb_remainPrefill budget - 1,
                       bb_remainLargePrefill := bb_remainLargePrefill budget - 1\<rparr>)))))"

definition pickBatchP :: "string \<Rightarrow> ('q shared, WorkItem list) prog" where
  "pickBatchP e = pbind (sched_get s_batchBudget) (\<lambda>budget. pbind (pickDecodeP e ([], budget)) (\<lambda>p1.
     pbind (lengthP SmallQueue e) (\<lambda>ns. pbind (smallLoopP (unat ns) e p1) (\<lambda>p2.
     pbind (lengthP LargeQueue e) (\<lambda>nl. pbind (largeLoopP (unat nl) e p2) (\<lambda>p3. Done (fst p3)))))))"

fun undoBatchP :: "WorkItem list \<Rightarrow> ('q shared, unit) prog" where
  "undoBatchP [] = Done ()"
| "undoBatchP (work # ws) = pthen (sched_act (\<lambda>s. map_option (\<lambda>(_, reg). ((), setRegistry reg s))
     (registry_Rollback (wk_ExecutorID work) (wk_WorkId work) (registryOf s)))) (pthen (requeueP work) (undoBatchP ws))"

text \<open>The batch and the time of its creation.\<close>

definition newBatchP :: "WorkItem list \<Rightarrow> string \<Rightarrow> ('q shared, Batch) prog" where
  "newBatchP batch executorID = timed (\<lambda>now uuid st. Some (\<lparr>bt_BatchID = uuid, bt_ExecutorID = executorID,
     bt_BatchSize = of_nat (length batch), bt_CreateAt = now, bt_Items = batch\<rparr>, st))"

definition submitP :: "error option \<Rightarrow> bool \<Rightarrow> Batch \<Rightarrow> ('q shared, error option) prog" where
  "submitP ctx choice b = sched_act (\<lambda>s. let (err, em) = Submit ctx choice (Some b) (s_executorManager s)
     in Some (err, s\<lparr>s_executorManager := em\<rparr>))"

definition patchExecuteP :: "error option \<Rightarrow> bool \<Rightarrow> string \<Rightarrow> ('q shared, unit) prog" where
  "patchExecuteP ctx choice executorID = pbind (pickBatchP executorID) (\<lambda>batch. case batch of
     [] \<Rightarrow> Done ()
   | first # _ \<Rightarrow> pthen (tryScheduleP executorID) (pbind (newBatchP batch (wk_ExecutorID first)) (\<lambda>b.
       pbind (submitP ctx choice b) (\<lambda>err. if err \<noteq> None then undoBatchP batch
         else sched_put (updMetrics (observeBatchStatsAndTimeWait batch (bt_CreateAt b)))))))"

fun patchExecutorsP :: "selects \<Rightarrow> string list \<Rightarrow> ('q shared, unit) prog" where
  "patchExecutorsP sel [] = Done ()"
| "patchExecutorsP sel (e # es) = pthen (patchExecuteP (fst (sel e)) (snd (sel e)) e) (patchExecutorsP sel es)"

definition takeSignal :: "bool \<Rightarrow> scheduler \<Rightarrow> (unit \<times> scheduler) option" where
  "takeSignal signal s = (if signal then if s_patchExecuteChan s then Some ((), s\<lparr>s_patchExecuteChan := False\<rparr>) else None else Some ((), s))"

definition batchTurnP :: "selects \<Rightarrow> bool \<Rightarrow> ('q shared, unit) prog" where
  "batchTurnP sel signal = pthen (sched_act (takeSignal signal)) (pbind (sched_get s_executorIDs) (patchExecutorsP sel))"

subsection \<open>Executor events\<close>

fun enqueueAllP :: "WorkItem list \<Rightarrow> ('q shared, error option) prog" where
  "enqueueAllP [] = Done None"
| "enqueueAllP (item # items) = pbind (enqueueP item) (\<lambda>err. case err of Some e \<Rightarrow> Done (Some e) | None \<Rightarrow> enqueueAllP items)"

definition registryP :: "(registry \<Rightarrow> (error option \<times> registry) option) \<Rightarrow> ('q shared, error option) prog" where
  "registryP f = sched_act (\<lambda>s. map_option (\<lambda>(err, reg). (err, setRegistry reg s)) (f (registryOf s)))"

definition handleEventP :: "Event \<Rightarrow> ('q shared, error option) prog" where
  "handleEventP event = pbind (sched_get (\<lambda>s. fmlookup (requestsOf s) (ev_RequestId event))) (\<lambda>found. case found of
     None \<Rightarrow> Done None
   | Some req \<Rightarrow> pbind (registryP (finalizeBlocks event req)) (\<lambda>finalizeErr.
       pbind (onEventP (case finalizeErr of None \<Rightarrow> event | Some err \<Rightarrow> failedBy err event)) (\<lambda>(nextItems, event2).
       pbind (enqueueAllP nextItems) (\<lambda>err. case err of
         Some e \<Rightarrow> Done (Some e)
       | None \<Rightarrow> pbind (if ev_Done event2 then registryP (registry_FreeRequest (rq_ExecutorID req) (rq_RequestId req)) else Done None) (\<lambda>ferr. case ferr of
           Some e \<Rightarrow> Done (Some e)
         | None \<Rightarrow> pthen (sched_put (updMetrics (ObserveExecution (tm_Execution (ev_Timing event2)) (ev_ExecutorId event2)))) (Done finalizeErr))))))"

definition takeEvent :: "scheduler \<Rightarrow> (Event \<times> scheduler) option" where
  "takeEvent s = map_option (\<lambda>(event, em). (event, s\<lparr>s_executorManager := em\<rparr>)) (receiveEvent (s_executorManager s))"

definition consumeEventP :: "('q shared, unit) prog" where
  "consumeEventP = pbind (sched_act takeEvent) (\<lambda>event. pthen (handleEventP event) (Done ()))"

end
