(* ===== verification/Engine_Programs.thy ===== *)
theory Engine_Programs
  imports Sched_Programs
begin

text \<open>
  The engine with every goroutine cut at its atomic actions.  The batch loop and the event loop are one
  goroutine each, every request arrives in one of its own, and every stream has its forwarder; the consumers
  of the executor manager are steps already.  A goroutine that waits or has panicked makes no step.
\<close>

subsection \<open>Arrivals\<close>

text \<open>As in \<open>sys_step\<close>, prompts of no tokens, or of more than 32 bits can count, go no further than this.\<close>

definition encodeP :: "'q tokenizer_env \<Rightarrow> Request \<Rightarrow> ('q shared, u32 list result) prog" where
  "encodeP env req = atomic (\<lambda>x. let y = sh_system x; t = sy_tokenizer y in
     if proper_prompt env req t
     then (let (r, t1) = tokenizer_Encode env (rq_ModelID req) (rq_Prompt req) t
           in Some (r, x\<lparr>sh_system := y\<lparr>sy_tokenizer := t1\<rparr>\<rparr>))
     else None)"

definition assignP :: "Request \<Rightarrow> ('q shared, error option \<times> Request) prog" where
  "assignP req = sched_act (\<lambda>s. let (err, req1, s1) = AssignExecutor req s in Some ((err, req1), s1))"

definition openStream :: "WorkItem \<Rightarrow> Request \<Rightarrow> nat \<Rightarrow> stream" where
  "openStream work req eventCh = \<lparr>st_requestId = wk_RequestId work, st_modelID = rq_ModelID req, st_eventCh = eventCh,
     st_chOut = [], st_closed = False, st_forwarder = Selecting\<rparr>"

text \<open>What follows the encoding of the prompt leaves the tokenizer alone.\<close>

definition afterEncode :: "Request \<Rightarrow> u32 list result \<Rightarrow> ('q shared, stream result) prog" where
  "afterEncode req enc = (case enc of
     Inl err \<Rightarrow> Done (Inl err)
   | Inr tokens \<Rightarrow> pbind (assignP (req\<lparr>rq_TokenIDs := tokens, rq_PromptTokens := of_nat (length tokens)\<rparr>)) (\<lambda>(err, req1). case err of
       Some er \<Rightarrow> Done (Inl (errors_New CodeExecutorUnavailable (error_Error er)))
     | None \<Rightarrow> pbind (sched_act (createRequest req1)) (\<lambda>created. case created of
         Inl er \<Rightarrow> Done (Inl (internalError er))
       | Inr work \<Rightarrow> pbind (sched_get (\<lambda>s. sm_Subscribe (rq_RequestId req1) (w_state (s_world s)))) (\<lambda>subscribed. case subscribed of
           Inl er \<Rightarrow> pthen (failP (wk_RequestId work) (Some er)) (Done (Inl (internalError er)))
         | Inr eventCh \<Rightarrow> pbind (enqueueP work) (\<lambda>err. case err of
             Some er \<Rightarrow> Done (Inl (internalError er))
           | None \<Rightarrow> Done (Inr (openStream work req1 eventCh)))))))"

definition generateStreamP :: "'q tokenizer_env \<Rightarrow> Request \<Rightarrow> ('q shared, stream result) prog" where
  "generateStreamP env req = pbind (encodeP env req) (afterEncode req)"

text \<open>The stream and its forwarder start when all has gone well.\<close>

definition arriveP :: "'q tokenizer_env \<Rightarrow> Request \<Rightarrow> ('q shared, unit) prog" where
  "arriveP env req = pbind (generateStreamP env req) (\<lambda>r. case r of
     Inl _ \<Rightarrow> Done ()
   | Inr str \<Rightarrow> atomic (\<lambda>x. Some ((), x\<lparr>sh_system := (sh_system x)\<lparr>sy_streams := sy_streams (sh_system x) @ [str]\<rparr>\<rparr>)))"

subsection \<open>Forwarders\<close>

text \<open>An action on the stream of a forwarder together with the engine, and the end of a request and its stream.\<close>

definition stream_act :: "nat \<Rightarrow> (stream \<Rightarrow> 'q engine \<Rightarrow> ('a \<times> stream \<times> 'q engine) option) \<Rightarrow> ('q shared, 'a) prog" where
  "stream_act i f = atomic (\<lambda>x. let y = sh_system x in
     if i < length (sy_streams y)
     then map_option (\<lambda>(a, str, (t, s)). (a, x\<lparr>sh_system := y\<lparr>sy_tokenizer := t, sy_scheduler := s, sy_streams := (sy_streams y)[i := str]\<rparr>\<rparr>))
            (f (sy_streams y ! i) (sy_tokenizer y, sy_scheduler y))
     else None)"

definition leaveP :: "string \<Rightarrow> ('q shared, unit) prog" where
  "leaveP requestId = pbind (untimed (leaveLocked requestId)) (\<lambda>subCh. case subCh of None \<Rightarrow> Done () | Some c \<Rightarrow> closeP c)"

definition closeStreamP :: "nat \<Rightarrow> ('q shared, unit) prog" where
  "closeStreamP i = stream_act i (\<lambda>str engine. Some ((), str\<lparr>st_closed := True, st_forwarder := Returned\<rparr>, engine))"

definition receiveP :: "'q tokenizer_env \<Rightarrow> nat \<Rightarrow> ('q shared, unit) prog" where
  "receiveP env i = stream_act i (\<lambda>str engine. map_option (Pair ()) (forwardReceive env str engine))"

text \<open>The send completes first; the last output is followed by the end of the request.\<close>

definition sendOutput :: "stream \<Rightarrow> ((bool \<times> string) \<times> stream) option" where
  "sendOutput str = (case st_forwarder str of
     Forwarding out \<Rightarrow>
       if st_closed str \<or> chOutCap \<le> length (st_chOut str) then None
       else Some ((out_Done out, st_requestId str),
         str\<lparr>st_chOut := st_chOut str @ [out], st_forwarder := (if out_Done out then Returned else Selecting)\<rparr>)
   | _ \<Rightarrow> None)"

definition sendOutputP :: "nat \<Rightarrow> ('q shared, unit) prog" where
  "sendOutputP i = pbind (stream_act i (\<lambda>str engine. map_option (\<lambda>(r, str1). (r, str1, engine)) (sendOutput str)))
     (\<lambda>(done, requestId). if done then pthen (leaveP requestId) (closeStreamP i) else Done ())"

text \<open>The goroutine has chosen the second case of its \<^verbatim>\<open>select\<close>: it does not select again.\<close>

definition cancelP :: "nat \<Rightarrow> ('q shared, unit) prog" where
  "cancelP i = pbind (stream_act i (\<lambda>str engine. if st_forwarder str = Selecting
       then Some (st_requestId str, str\<lparr>st_forwarder := Returned\<rparr>, engine) else None))
     (\<lambda>requestId. pthen (leaveP requestId) (closeStreamP i))"

subsection \<open>Goroutines\<close>

datatype role = Batcher | EventLoop | Arrival | Forwarder nat

record 'q goroutines =
  go_shared :: "'q shared"
  go_threads :: "(role \<times> ('q shared, unit) prog) list"

text \<open>A role but that of an arrival is played by one goroutine at a time, which finishes one round before the next.\<close>

definition vacant :: "role \<Rightarrow> 'q goroutines \<Rightarrow> bool" where
  "vacant r z \<longleftrightarrow> r \<notin> fst ` set (go_threads z)"

definition spawn :: "role \<Rightarrow> ('q shared, unit) prog \<Rightarrow> 'q goroutines \<Rightarrow> 'q goroutines" where
  "spawn r p z = z\<lparr>go_threads := go_threads z @ [(r, p)]\<rparr>"

definition putManager :: "em_state \<Rightarrow> 'q goroutines \<Rightarrow> 'q goroutines" where
  "putManager em z = z\<lparr>go_shared := putSched (setManagerState em (schedOf (go_shared z))) (go_shared z)\<rparr>"

abbreviation managerOf :: "'q goroutines \<Rightarrow> executor_manager" where
  "managerOf z \<equiv> s_executorManager (schedOf (go_shared z))"

abbreviation metricsOf :: "'q goroutines \<Rightarrow> metrics" where
  "metricsOf z \<equiv> sm_metrics (w_state (s_world (schedOf (go_shared z))))"

inductive go_step :: "'q tokenizer_env \<Rightarrow> 'q goroutines \<Rightarrow> 'q goroutines \<Rightarrow> bool" for env where
  go: "i < length (go_threads z) \<Longrightarrow> go_threads z ! i = (r, Act f) \<Longrightarrow> f (go_shared z) = Some (p, x) \<Longrightarrow>
    go_step env z (z\<lparr>go_shared := x, go_threads := (go_threads z)[i := (r, p)]\<rparr>)"
| exit: "go_threads z = ts @ (r, Done ()) # us \<Longrightarrow> go_step env z (z\<lparr>go_threads := ts @ us\<rparr>)"
| arrive: "go_step env z (spawn Arrival (arriveP env req) z)"
| batch: "vacant Batcher z \<Longrightarrow> go_step env z (spawn Batcher (batchTurnP sel signal) z)"
| event: "vacant EventLoop z \<Longrightarrow> go_step env z (spawn EventLoop consumeEventP z)"
| forward: "vacant (Forwarder i) z \<Longrightarrow> p \<in> {receiveP env i, sendOutputP i, cancelP i} \<Longrightarrow> go_step env z (spawn (Forwarder i) p z)"
| receive: "consumeReceive e (managerOf z) (metricsOf z) = Some em \<Longrightarrow> go_step env z (putManager em z)"
| execute: "consumeExecute now rpc e (managerOf z) (metricsOf z) = Some em \<Longrightarrow> go_step env z (putManager em z)"
| send: "consumeSend e (managerOf z) = Some em \<Longrightarrow> go_step env z (putManager (em, metricsOf z) z)"
| stop: "consumeStop e (managerOf z) = Some em \<Longrightarrow> go_step env z (putManager (em, metricsOf z) z)"
| read: "i < length (sy_streams (sh_system (go_shared z))) \<Longrightarrow> readOutput (sy_streams (sh_system (go_shared z)) ! i) = Some (out, str) \<Longrightarrow>
    go_step env z (z\<lparr>go_shared := (go_shared z)\<lparr>sh_system := (sh_system (go_shared z))\<lparr>sy_streams := (sy_streams (sh_system (go_shared z)))[i := str]\<rparr>\<rparr>\<rparr>)"

text \<open>An engine at rest: no goroutine is in the middle of an operation.\<close>

definition at_rest :: "'q system \<Rightarrow> 'q goroutines" where
  "at_rest y = \<lparr>go_shared = \<lparr>sh_system = y, sh_locks = []\<rparr>, go_threads = []\<rparr>"

inductive go_reachable :: "'q tokenizer_env \<Rightarrow> 'q goroutines \<Rightarrow> bool" for env where
  init: "provide env get clock uuid cfg = Some (Inr y) \<Longrightarrow> go_reachable env (at_rest (StartBatchLoop y))"
| step: "go_reachable env z \<Longrightarrow> go_step env z z' \<Longrightarrow> go_reachable env z'"

inductive_cases go_stepE: "go_step env z z'"

end
