(* ===== verification/Sched_State.thy ===== *)
theory Sched_State
  imports Scheduler
begin

text \<open>
  What the scheduler may do to the request manager.  It changes the manager only by failing requests, by
  asking whether work may be scheduled, by reporting events, and by replacing the block registry and the metrics;
  so whatever these five keep, every operation of the scheduler keeps.  The locale states this once, for
  every property of the manager's state.
\<close>

subsection \<open>The state of the request manager\<close>

abbreviation stateOf :: "scheduler \<Rightarrow> state_manager" where
  "stateOf s \<equiv> w_state (s_world s)"

lemma stateOf_simps [simp]:
  "w_state (w_advance st w) = st"
  "stateOf (updMetrics f s) = (stateOf s)\<lparr>sm_metrics := f (sm_metrics (stateOf s))\<rparr>"
  "stateOf (setRegistry reg s) = (stateOf s)\<lparr>sm_blockRegistry := reg\<rparr>"
  by (simp_all add: w_advance_def updMetrics_def setRegistry_def Let_def)

subsection \<open>The law\<close>

locale state_law =
  fixes P :: "state_manager \<Rightarrow> bool"
  assumes registry_law: "P st \<Longrightarrow> P (st\<lparr>sm_blockRegistry := reg\<rparr>)"
    and metrics_law: "P st \<Longrightarrow> P (st\<lparr>sm_metrics := m\<rparr>)"
    and fail_law: "P st \<Longrightarrow> sm_Fail now uuid q err st = Some st1 \<Longrightarrow> P st1"
    and schedule_law: "P st \<Longrightarrow> sm_CanSchedule now uuid work st = Some (ok, st1) \<Longrightarrow> P st1"
    and event_law: "P st \<Longrightarrow> sm_OnEvent now uuid e st = Some (r, st1) \<Longrightarrow> P st1"
begin

text \<open>Each lemma is a rule for the postcondition of a call, whatever is done with its result.\<close>

lemma sm_Fail_law: "P st \<Longrightarrow> (\<And>st1. P st1 \<Longrightarrow> Q st1) \<Longrightarrow> post Q (sm_Fail now uuid q err st)"
  by (rule postI) (blast intro: fail_law)

lemma sm_CanSchedule_law: "P st \<Longrightarrow> (\<And>ok st1. P st1 \<Longrightarrow> Q (ok, st1)) \<Longrightarrow> post Q (sm_CanSchedule now uuid work st)"
  by (rule postI) (auto intro: schedule_law)

lemma sm_OnEvent_law: "P st \<Longrightarrow> (\<And>r st1. P st1 \<Longrightarrow> Q (r, st1)) \<Longrightarrow> post Q (sm_OnEvent now uuid e st)"
  by (rule postI) (auto intro: event_law)

lemma canSchedule_law: "P (w_state w) \<Longrightarrow> (\<And>ok w1. P (w_state w1) \<Longrightarrow> Q (ok, w1)) \<Longrightarrow> post Q (canSchedule work w)"
  by (auto simp: canSchedule_def intro!: sm_CanSchedule_law)

lemma popWorks_law: "P (w_state w) \<Longrightarrow> (\<And>r ws1 w1. P (w_state w1) \<Longrightarrow> Q (r, ws1, w1)) \<Longrightarrow> post Q (popWorks ws w)"
  by (induction ws arbitrary: w) (auto intro!: canSchedule_law)

lemma peekWorks_law: "P (w_state w) \<Longrightarrow> (\<And>r ws1 w1. P (w_state w1) \<Longrightarrow> Q (r, ws1, w1)) \<Longrightarrow> post Q (peekWorks ws w)"
  by (induction ws arbitrary: w) (auto intro!: canSchedule_law)

lemma pq_Pop_law: "P (w_state w) \<Longrightarrow> (\<And>r q1 w1. P (w_state w1) \<Longrightarrow> Q (r, q1, w1)) \<Longrightarrow> post Q (pq_Pop q w)"
  by (auto simp: pq_Pop_def intro!: popWorks_law)

lemma pq_Peek_law: "P (w_state w) \<Longrightarrow> (\<And>r q1 w1. P (w_state w1) \<Longrightarrow> Q (r, q1, w1)) \<Longrightarrow> post Q (pq_Peek q w)"
  by (auto simp: pq_Peek_def intro!: peekWorks_law)

lemma dequeueEntries_law:
  "P (w_state w) \<Longrightarrow> (\<And>taken es1 w1. P (w_state w1) \<Longrightarrow> Q (taken, es1, w1)) \<Longrightarrow> post Q (dequeueEntries n es w)"
proof (induction n arbitrary: es w Q)
  case (Suc n)
  show ?case
  proof (cases es)
    case (Cons e rest)
    then show ?thesis
      using Suc.prems by (auto intro!: canSchedule_law Suc.IH)
  qed (use Suc.prems in simp)
qed simp

lemma dq_Dequeue_law: "P (w_state w) \<Longrightarrow> (\<And>taken n q1 w1. P (w_state w1) \<Longrightarrow> Q (taken, n, q1, w1)) \<Longrightarrow> post Q (dq_Dequeue k q w)"
  by (auto simp: dq_Dequeue_def intro!: dequeueEntries_law)

lemma allocateBlocks_law: "P (stateOf s) \<Longrightarrow> (\<And>res s1. P (stateOf s1) \<Longrightarrow> Q (res, s1)) \<Longrightarrow> post Q (allocateBlocks work s)"
  by (rule postI) (auto simp: allocateBlocks_def registry_law split: bind_splits)

lemma failRequest_law: "P (stateOf s) \<Longrightarrow> (\<And>s1. P (stateOf s1) \<Longrightarrow> Q s1) \<Longrightarrow> post Q (failRequest q err s)"
  by (auto simp: failRequest_def Let_def intro!: sm_Fail_law)

lemma requeueWork_law: "P (stateOf s) \<Longrightarrow> (\<And>s1. P (stateOf s1) \<Longrightarrow> Q s1) \<Longrightarrow> post Q (requeueWork work s)"
  by (auto simp: requeueWork_def Let_def split: WorkPhase.split option.split intro!: failRequest_law)

lemma trySchedule_law: "P (stateOf s) \<Longrightarrow> (\<And>s1. P (stateOf s1) \<Longrightarrow> Q s1) \<Longrightarrow> post Q (trySchedule e s)"
  by (rule postI) (auto simp: trySchedule_def Let_def metrics_law split: option.splits bind_splits if_splits)

lemma rejectWork_law: "P (stateOf s) \<Longrightarrow> (\<And>r s1. P (stateOf s1) \<Longrightarrow> Q (r, s1)) \<Longrightarrow> post Q (rejectWork q err s)"
  by (auto simp: rejectWork_def metrics_law intro!: failRequest_law)

lemma sched_Enqueue_law: "P (stateOf s) \<Longrightarrow> (\<And>r s1. P (stateOf s1) \<Longrightarrow> Q (r, s1)) \<Longrightarrow> post Q (sched_Enqueue work s)"
  by (auto simp: sched_Enqueue_def Let_def split: WorkPhase.split option.split prod.split intro!: trySchedule_law rejectWork_law)

subsection \<open>Batches\<close>

lemmas pick_laws = allocateBlocks_law failRequest_law requeueWork_law

lemma pickDecodeLoop_law: "P (stateOf s) \<Longrightarrow> (\<And>r s1. P (stateOf s1) \<Longrightarrow> Q (r, s1)) \<Longrightarrow> post Q (pickDecodeLoop ws p s)"
proof (induction ws arbitrary: p s)
  case (Cons w ws)
  then show ?case
    by (cases p) (auto split: sum.split intro!: pick_laws)
qed simp

lemma pickDecode_law: "P (stateOf s) \<Longrightarrow> (\<And>r s1. P (stateOf s1) \<Longrightarrow> Q (r, s1)) \<Longrightarrow> post Q (pickDecode e p s)"
  by (cases "fmlookup (s_decode s) e") (auto simp: pickDecode_def Let_def split: prod.split intro!: dq_Dequeue_law pickDecodeLoop_law)

lemma pickSmallLoop_law: "P (stateOf s) \<Longrightarrow> (\<And>r s1. P (stateOf s1) \<Longrightarrow> Q (r, s1)) \<Longrightarrow> post Q (pickSmallLoop n e p s)"
proof (induction n arbitrary: p s)
  case (Suc n)
  then show ?case
    by (cases p; cases "fmlookup (s_prefillSmall s) e")
      (auto simp: Let_def split: sum.split option.split intro!: pq_Peek_law pq_Pop_law pick_laws)
qed simp

lemma pickLargeLoop_law: "P (stateOf s) \<Longrightarrow> (\<And>r s1. P (stateOf s1) \<Longrightarrow> Q (r, s1)) \<Longrightarrow> post Q (pickLargeLoop n e p s)"
proof (induction n arbitrary: p s)
  case (Suc n)
  then show ?case
    by (cases p; cases "fmlookup (s_prefillLarge s) e")
      (auto simp: Let_def split: sum.split option.split intro!: pq_Pop_law post_any [where m = "splitPrefillChunk w k" for w k] pick_laws)
qed simp

lemma pickBatch_law: "P (stateOf s) \<Longrightarrow> (\<And>items s1. P (stateOf s1) \<Longrightarrow> Q (items, s1)) \<Longrightarrow> post Q (pickBatch e s)"
  by (auto simp: pickBatch_def pickSmallPrefill_def pickLargePrefill_def
      intro!: pickDecode_law pickSmallLoop_law pickLargeLoop_law post_any [where m = "fmlookup f e" for f])

lemma undoBatch_law: "P (stateOf s) \<Longrightarrow> (\<And>s1. P (stateOf s1) \<Longrightarrow> Q s1) \<Longrightarrow> post Q (undoBatch ws s)"
proof (induction ws arbitrary: s)
  case (Cons w ws)
  then show ?case
    by (auto simp: registry_law intro!: requeueWork_law post_any [where m = "registry_Rollback a b reg" for a b reg])
qed simp

lemma patchExecute_law: "P (stateOf s) \<Longrightarrow> (\<And>s1. P (stateOf s1) \<Longrightarrow> Q s1) \<Longrightarrow> post Q (patchExecute ctx choice e s)"
  by (auto simp: patchExecute_def Let_def metrics_law simp del: undoBatch.simps split: list.split prod.split intro!: pickBatch_law trySchedule_law undoBatch_law)

lemma patchExecutors_law: "P (stateOf s) \<Longrightarrow> (\<And>s1. P (stateOf s1) \<Longrightarrow> Q s1) \<Longrightarrow> post Q (patchExecutors sel es s)"
  by (induction es arbitrary: s) (auto intro!: patchExecute_law)

lemma batchTurn_law: "P (stateOf s) \<Longrightarrow> (\<And>s1. P (stateOf s1) \<Longrightarrow> Q s1) \<Longrightarrow> post Q (batchTurn sel signal s)"
  by (auto simp: batchTurn_def intro!: patchExecutors_law)

subsection \<open>Events\<close>

lemma enqueueAll_law: "P (stateOf s) \<Longrightarrow> (\<And>r s1. P (stateOf s1) \<Longrightarrow> Q (r, s1)) \<Longrightarrow> post Q (enqueueAll items s)"
  by (induction items arbitrary: s) (auto split: option.split intro!: sched_Enqueue_law)

lemma handleEvent_law: "P (stateOf s) \<Longrightarrow> (\<And>r s1. P (stateOf s1) \<Longrightarrow> Q (r, s1)) \<Longrightarrow> post Q (handleEvent event s)"
  by (auto simp: handleEvent_def Let_def metrics_law registry_law split: option.split prod.split
      intro!: sm_OnEvent_law enqueueAll_law post_any [where m = "finalizeBlocks event rq reg" for rq reg]
        post_any [where m = "registry_FreeRequest a b reg" for a b reg])

lemma consumeEvent_law: "P (stateOf s) \<Longrightarrow> (\<And>s1. P (stateOf s1) \<Longrightarrow> Q s1) \<Longrightarrow> post Q (consumeEvent s)"
  by (auto simp: consumeEvent_def intro!: handleEvent_law post_any [where m = "receiveEvent em" for em])

end

end
