(* ===== verification/Isolation.thy ===== *)
theory Isolation
  imports Engine Sched_State
begin

text \<open>
  Requests do not see each other.  Every channel has an owner, the request it was made for; the table
  of the request manager and the streams of the handler only ever hold what belongs to the owner.
  The scheduler keeps this as it keeps every law of the request manager.
\<close>

subsection \<open>Owners\<close>

definition owned :: "(nat \<Rightarrow> string) \<Rightarrow> state_manager \<Rightarrow> bool" where
  "owned owner st \<longleftrightarrow>
     fmdom (sm_subscribeCh st) = fmdom (sm_requests st) \<and>
     (\<forall>q rq. fmlookup (sm_requests st) q = Some rq \<longrightarrow> rq_RequestId rq = q) \<and>
     sm_activeRequests st = int (map_len (sm_requests st)) \<and>
     (\<forall>q c. fmlookup (sm_subscribeCh st) q = Some c \<longrightarrow> owner c = q \<and> (\<exists>ch. fmlookup (sm_channels st) c = Some ch \<and> \<not> ch_closed ch)) \<and>
     (\<forall>c ch. fmlookup (sm_channels st) c = Some ch \<longrightarrow> c < sm_nextChannel st \<and> (\<forall>e \<in> set (ch_buf ch). ev_RequestId e = owner c))"

lemma owned_new: "owned owner (NewRequestLifecycleStateManager reg mx)"
  by (simp add: owned_def NewRequestLifecycleStateManager_def map_len_def)

lemma owned_frame [simp]:
  "owned owner (st\<lparr>sm_blockRegistry := reg\<rparr>) \<longleftrightarrow> owned owner st" "owned owner (st\<lparr>sm_metrics := m\<rparr>) \<longleftrightarrow> owned owner st"
  by (simp_all add: owned_def)

lemma owned_send:
  assumes "owned owner st" "chan_send c e st = Some st1" "ev_RequestId e = owner c"
  shows "owned owner st1 \<and> sm_nextChannel st1 = sm_nextChannel st \<and> sm_subscribeCh st1 = sm_subscribeCh st"
  using assms by (auto simp: chan_send_def owned_def split: option.splits if_splits)

lemma owned_close:
  assumes "owned owner st" "chan_close c st = Some st1" "\<And>q. fmlookup (sm_subscribeCh st) q \<noteq> Some c"
  shows "owned owner st1 \<and> sm_nextChannel st1 = sm_nextChannel st"
  using assms by (auto simp: chan_close_def owned_def split: option.splits if_splits)

lemma owned_recv:
  assumes "owned owner st" "chan_recv c st = Some (r, st1)"
  shows "owned owner st1 \<and> sm_nextChannel st1 = sm_nextChannel st \<and> (\<forall>e. r = Some e \<longrightarrow> ev_RequestId e = owner c)"
proof -
  obtain ch where ch: "fmlookup (sm_channels st) c = Some ch"
    using assms(2) by (cases "fmlookup (sm_channels st) c") (simp_all add: chan_recv_def)
  show ?thesis
  proof (cases "ch_buf ch")
    case Nil
    then show ?thesis
      using assms ch by (simp add: chan_recv_def split: if_splits)
  next
    case (Cons e es)
    then have "r = Some e" "st1 = st\<lparr>sm_channels := fmupd c (ch\<lparr>ch_buf := es\<rparr>) (sm_channels st)\<rparr>"
      using assms(2) ch by (simp_all add: chan_recv_def)
    then show ?thesis
      using assms(1) ch Cons by (fastforce simp: owned_def)
  qed
qed

lemma owned_delete:
  assumes "owned owner st" "fmlookup (sm_requests st) q = Some rq" "deleteRequest q st = Some st1"
  shows "owned owner st1 \<and> sm_nextChannel st1 = sm_nextChannel st \<and> sm_subscribeCh st1 = fmdrop q (sm_subscribeCh st)"
proof -
  obtain reg where st1: "st1 = st\<lparr>sm_requests := fmdrop q (sm_requests st), sm_subscribeCh := fmdrop q (sm_subscribeCh st),
      sm_blockRegistry := reg, sm_activeRequests := sm_activeRequests st - 1,
      sm_metrics := SetActiveRequests (sm_activeRequests st - 1) (sm_metrics st)\<rparr>"
    using assms(2,3) by (auto simp: deleteRequest_def Let_def split: bind_splits)
  show ?thesis
    using assms(1) map_len_drop [OF assms(2)] by (auto simp: st1 owned_def)
qed

lemma owned_leave:
  assumes "owned owner st" "leaveLocked q st = Some (subCh, st1)"
  shows "owned owner st1 \<and> sm_nextChannel st1 = sm_nextChannel st \<and> subCh = fmlookup (sm_subscribeCh st) q \<and>
    sm_subscribeCh st1 = fmdrop q (sm_subscribeCh st)"
proof (cases "fmlookup (sm_requests st) q")
  case None
  then have "q |\<notin>| fmdom (sm_subscribeCh st)"
    using assms(1) by (simp add: owned_def fmdom_notI)
  then have "st\<lparr>sm_subscribeCh := fmdrop q (sm_subscribeCh st)\<rparr> = st" "fmdrop q (sm_subscribeCh st) = sm_subscribeCh st"
    by (simp_all add: fmdrop_idle)
  then show ?thesis
    using assms None by (auto simp: leaveLocked_def)
next
  case (Some rq)
  then show ?thesis
    using assms owned_delete [OF assms(1) Some] by (auto simp: leaveLocked_def split: bind_splits)
qed

text \<open>The channel of a request that has left belongs to no other.\<close>

lemma owned_left:
  assumes "owned owner st" "fmlookup (sm_subscribeCh st) q = Some c"
  shows "owner c = q" "fmlookup (fmdrop q (sm_subscribeCh st)) p \<noteq> Some c"
proof -
  have o: "fmlookup (sm_subscribeCh st) q = Some c \<Longrightarrow> owner c = q" for q
    using assms(1) by (simp add: owned_def)
  then show "owner c = q"
    using assms(2) .
  then show "fmlookup (fmdrop q (sm_subscribeCh st)) p \<noteq> Some c"
    using o [of p] \<open>owner c = q\<close> by auto
qed

lemma owned_end:
  assumes "owned owner st" "sm_Cancel q st = Some st1 \<or> sm_Finish q st = Some st1"
  shows "owned owner st1 \<and> sm_nextChannel st1 = sm_nextChannel st"
proof -
  obtain subCh s where l: "leaveLocked q st = Some (subCh, s)" "(case subCh of None \<Rightarrow> Some s | Some c \<Rightarrow> chan_close c s) = Some st1"
    using assms(2) by (auto simp: sm_Cancel_def sm_Finish_def split: bind_splits)
  note o = owned_leave [OF assms(1) l(1)]
  show ?thesis
  proof (cases subCh)
    case (Some c)
    then show ?thesis
      using o l(2) owned_close [of owner s c st1] owned_left [OF assms(1), of q c] by auto
  qed (use o l in simp)
qed

text \<open>A failed or expired request is told so on its channel, which is then closed.\<close>

lemma owned_last:
  assumes "owned owner st" "sm_subscribeCh st = fmdrop q (sm_subscribeCh st0)" "fmlookup (sm_subscribeCh st0) q = Some c" "owned owner st0"
    and "chan_send c (failEvent now uuid q err) st = Some s2" "chan_close c s2 = Some st1"
  shows "owned owner st1 \<and> sm_nextChannel st1 = sm_nextChannel st"
proof -
  have "ev_RequestId (failEvent now uuid q err) = owner c"
    using owned_left(1) [OF assms(4,3)] by (simp add: failEvent_def)
  then have s2: "owned owner s2 \<and> sm_nextChannel s2 = sm_nextChannel st \<and> sm_subscribeCh s2 = sm_subscribeCh st"
    by (rule owned_send [OF assms(1,5)])
  have "fmlookup (sm_subscribeCh s2) p \<noteq> Some c" for p
    using s2 owned_left(2) [OF assms(4,3)] assms(2) by simp
  then show ?thesis
    using owned_close [of owner s2 c st1] assms(6) s2 by simp
qed

lemma owned_fail:
  assumes "owned owner st" "sm_Fail now uuid q err st = Some st1"
  shows "owned owner st1 \<and> sm_nextChannel st1 = sm_nextChannel st"
proof -
  obtain subCh s where l: "leaveLocked q st = Some (subCh, s)"
      "(case subCh of None \<Rightarrow> Some s | Some c \<Rightarrow> do { s2 \<leftarrow> chan_send c (failEvent now uuid q err) s; chan_close c s2 }) = Some st1"
    using assms(2) by (auto simp: sm_Fail_def split: bind_splits)
  note o = owned_leave [OF assms(1) l(1)]
  show ?thesis
  proof (cases subCh)
    case (Some c)
    then obtain s2 where "chan_send c (failEvent now uuid q err) s = Some s2" "chan_close c s2 = Some st1"
      using l(2) by (auto split: bind_splits)
    then show ?thesis
      using owned_last [of owner s q st c now uuid err s2 st1] o assms(1) Some by simp
  qed (use o l in simp)
qed

lemma owned_schedule:
  assumes "owned owner st" "sm_CanSchedule now uuid work st = Some (ok, st1)"
  shows "owned owner st1 \<and> sm_nextChannel st1 = sm_nextChannel st"
proof (cases "st1 = st")
  case False
  let ?q = "wk_RequestId work" and ?err = "Some (errors_New CodeRequestTimeout ''request timeout'')"
  obtain rq s where s: "fmlookup (sm_requests st) ?q = Some rq" "deleteRequest ?q st = Some s"
      "(case fmlookup (sm_subscribeCh st) ?q of None \<Rightarrow> Some (False, s) | Some c \<Rightarrow> do {
         s2 \<leftarrow> chan_send c (failEvent now uuid ?q ?err) s; s3 \<leftarrow> chan_close c s2; Some (False, s3) }) = Some (ok, st1)"
    using assms(2) False by (auto simp: sm_CanSchedule_def Let_def split: option.splits if_splits bind_splits)
  note o = owned_delete [OF assms(1) s(1,2)]
  show ?thesis
  proof (cases "fmlookup (sm_subscribeCh st) ?q")
    case (Some c)
    then obtain s2 where "chan_send c (failEvent now uuid ?q ?err) s = Some s2" "chan_close c s2 = Some st1"
      using s(3) by (auto split: bind_splits)
    then show ?thesis
      using owned_last [of owner s ?q st c now uuid ?err s2 st1] o assms(1) Some by simp
  qed (use o s in simp)
qed (use assms(1) in simp)

lemma owned_event:
  assumes "owned owner st" "sm_OnEvent now uuid e st = Some (r, st1)"
  shows "owned owner st1 \<and> sm_nextChannel st1 = sm_nextChannel st"
proof (cases "fmlookup (sm_requests st) (ev_RequestId e)")
  case None
  then show ?thesis
    using assms by (simp add: sm_OnEvent_def onEventLocked_def)
next
  case (Some rq)
  obtain rq1 e1 items where a: "applyEvent now uuid e rq = Some (rq1, e1, items)"
    using assms(2) Some by (auto simp: sm_OnEvent_def onEventLocked_def split: bind_splits)
  let ?s = "st\<lparr>sm_requests := fmupd (ev_RequestId e) rq1 (sm_requests st)\<rparr>"
  have o: "owned owner ?s"
    using assms(1) Some applyEvent_keeps(1) [OF a] map_len_replace [OF Some] fmdomI [OF Some] by (auto simp: owned_def finsert_absorb)
  show ?thesis
  proof (cases "fmlookup (sm_subscribeCh st) (ev_RequestId e)")
    case None
    then have "st1 = ?s"
      using assms(2) Some a applyEvent_keeps(5) [OF a] by (simp add: sm_OnEvent_def onEventLocked_def)
    then show ?thesis
      using o by simp
  next
    case c: (Some c)
    then have "chan_send c e1 ?s = Some st1"
      using assms(2) Some a applyEvent_keeps(5) [OF a] by (auto simp: sm_OnEvent_def onEventLocked_def split: bind_splits)
    then show ?thesis
      using owned_send [OF o] owned_left(1) [OF assms(1) c] applyEvent_keeps(5) [OF a] by simp
  qed
qed

text \<open>So ownership is one of the laws the scheduler keeps.\<close>

interpretation own: state_law "\<lambda>st. owned owner st \<and> sm_nextChannel st = n" for owner n
  by unfold_locales (auto dest: owned_fail owned_schedule owned_event)

subsection \<open>Registration\<close>

text \<open>A new request owns the channel made for it; it comes with an identifier the table did not know.\<close>

lemma owned_create:
  assumes o: "owned owner st" and c: "sm_Create now uuid req st = Some (r, st1)"
  defines "owner1 \<equiv> owner(sm_nextChannel st := rq_RequestId req)"
  shows "owned owner1 st1 \<and> sm_nextChannel st \<le> sm_nextChannel st1 \<and>
    (\<forall>work. r = Inr work \<longrightarrow> wk_RequestId work = rq_RequestId req)"
proof -
  have "c < sm_nextChannel st" if "fmlookup (sm_subscribeCh st) q = Some c" for q c
    using o that by (meson owned_def)
  then have old: "owned owner1 st"
    using o by (fastforce simp: owned_def owner1_def)
  have new: "owned owner1 (opened st)"
    using o by (fastforce simp: owned_def owner1_def opened_def)
  from c show ?thesis
  proof (cases rule: sm_CreateE)
    case (known err)
    then show ?thesis
      using old by simp
  next
    case (refused err reg)
    then show ?thesis
      using new by (simp add: opened_def)
  next
    case (filed e cache req1 reg mx work)
    have "owned owner1 st1"
      using new map_len_upd [OF filed(1)] filed(4) unfolding filed(5) owned_def by (auto simp: owner1_def opened_def)
    then show ?thesis
      using filed(2,5,6) by (simp add: opened_def)
  qed
qed

subsection \<open>Streams\<close>

definition outputs_of :: "stream \<Rightarrow> GenerateOutput set" where
  "outputs_of str = set (st_chOut str) \<union> (case st_forwarder str of Forwarding out \<Rightarrow> {out} | _ \<Rightarrow> {})"

definition stream_owned :: "(nat \<Rightarrow> string) \<Rightarrow> nat \<Rightarrow> stream \<Rightarrow> bool" where
  "stream_owned owner n str \<longleftrightarrow> st_eventCh str < n \<and> owner (st_eventCh str) = st_requestId str \<and>
     (\<forall>out \<in> outputs_of str. out_RequestId out = st_requestId str)"

lemma stream_owned_later:
  "stream_owned owner n str \<Longrightarrow> n \<le> n1 \<Longrightarrow> stream_owned (owner(n := q)) n1 str"
  by (simp add: stream_owned_def)

definition isolated :: "'q system \<Rightarrow> bool" where
  "isolated y \<longleftrightarrow> (\<exists>owner. owned owner (stateOf (sy_scheduler y)) \<and>
     (\<forall>str \<in> set (sy_streams y). stream_owned owner (sm_nextChannel (stateOf (sy_scheduler y))) str))"

lemma owned_forward:
  assumes o: "owned owner (stateOf s)" and str: "stream_owned owner (sm_nextChannel (stateOf s)) str"
    and f: "forward_step env cancelled (str, (t, s)) (str1, (t1, s1))"
  shows "owned owner (stateOf s1) \<and> sm_nextChannel (stateOf s1) = sm_nextChannel (stateOf s) \<and>
    stream_owned owner (sm_nextChannel (stateOf s)) str1"
proof -
  have out: "out_RequestId (streamOutput env m t e) = ev_RequestId e" for m t e
    by (simp add: streamOutput_def Let_def split: prod.split)
  consider "forwardReceive env str (t, s) = Some (str1, (t1, s1))" | "forwardSend str (t, s) = Some (str1, (t1, s1))" |
    "forwardCancel str (t, s) = Some (str1, (t1, s1))"
    using f by (auto elim: forward_stepE)
  then show ?thesis
  proof cases
    case 1
    then obtain r st where r: "chan_recv (st_eventCh str) (stateOf s) = Some (r, st)" "s1 = updState st s"
        "str1 = str\<lparr>st_forwarder := Returned\<rparr> \<or> str1 = str \<or> (\<exists>e. r = Some e \<and> str1 = str\<lparr>st_forwarder := Forwarding (streamOutput env (st_modelID str) t e)\<rparr>)"
      by (auto simp: forwardReceive_def Let_def split: if_splits bind_splits option.splits)
    show ?thesis
      using owned_recv [OF o r(1)] r(2,3) str out by (auto simp: stream_owned_def outputs_of_def updState_def)
  next
    case 2
    then obtain out1 where w: "st_forwarder str = Forwarding out1"
      by (cases "st_forwarder str") (simp_all add: forwardSend_def)
    then have "outputs_of str1 \<subseteq> outputs_of str" "st_eventCh str1 = st_eventCh str" "st_requestId str1 = st_requestId str"
      using 2 by (auto simp: forwardSend_def outputs_of_def Let_def split: if_splits bind_splits)
    moreover have "owned owner (stateOf s1) \<and> sm_nextChannel (stateOf s1) = sm_nextChannel (stateOf s)"
      using 2 w o by (auto simp: forwardSend_def updState_def Let_def split: if_splits bind_splits dest!: owned_end [OF o disjI2])
    ultimately show ?thesis
      using str by (auto simp: stream_owned_def)
  next
    case 3
    then show ?thesis
      using str by (auto simp: forwardCancel_def updState_def stream_owned_def outputs_of_def split: if_splits bind_splits dest!: owned_end [OF o disjI1])
  qed
qed

lemma stream_owned_new:
  assumes "owned owner st" "fmlookup (sm_subscribeCh st) q = Some c" "st_eventCh str = c" "st_requestId str = q"
    "st_chOut str = []" "st_forwarder str = Selecting"
  shows "stream_owned owner (sm_nextChannel st) str"
proof -
  have "owner c = q" "c < sm_nextChannel st"
    using assms(1,2) by (meson owned_def)+
  then show ?thesis
    using assms by (simp add: stream_owned_def outputs_of_def)
qed

lemma AssignExecutor_id:
  assumes "AssignExecutor req s = (err, req1, s1)"
  shows "rq_RequestId req1 = rq_RequestId req" "stateOf s1 = stateOf s"
  using assms by (auto simp: AssignExecutor_def Let_def split: if_splits)

lemma owned_Enqueue:
  assumes "sched_Enqueue work s = Some (err, s1)" "owned owner (stateOf s)"
  shows "owned owner (stateOf s1) \<and> sm_nextChannel (stateOf s1) = sm_nextChannel (stateOf s)"
  using postD [OF own.sched_Enqueue_law [where Q = "\<lambda>x. owned owner (stateOf (snd x)) \<and> sm_nextChannel (stateOf (snd x)) = sm_nextChannel (stateOf s)"]
      assms(1)] assms(2) by simp

text \<open>A request registered on arrival becomes the owner of its channel; the streams there are keep theirs.\<close>

lemma owned_createRequest:
  assumes o: "owned owner (stateOf s)" and a: "AssignExecutor req s = (None, req1, s2)" and c: "createRequest req1 s2 = Some (created, s3)"
  defines "owner1 \<equiv> owner(sm_nextChannel (stateOf s) := rq_RequestId req1)"
  shows "owned owner1 (stateOf s3)" "\<And>str. stream_owned owner (sm_nextChannel (stateOf s)) str \<Longrightarrow> stream_owned owner1 (sm_nextChannel (stateOf s3)) str"
    "\<And>work. created = Inr work \<Longrightarrow> wk_RequestId work = rq_RequestId req1"
proof -
  obtain st where st: "sm_Create (w_now (s_world s2)) (w_fresh (s_world s2)) req1 (stateOf s2) = Some (created, st)" "stateOf s3 = st"
    using c by (auto simp: createRequest_def Let_def split: bind_splits)
  note o3 = owned_create [OF o [folded AssignExecutor_id(2) [OF a]] st(1), folded st(2)]
  show "owned owner1 (stateOf s3)" "\<And>work. created = Inr work \<Longrightarrow> wk_RequestId work = rq_RequestId req1"
    using o3 AssignExecutor_id(2) [OF a] by (simp_all add: owner1_def)
  show "stream_owned owner1 (sm_nextChannel (stateOf s3)) str" if "stream_owned owner (sm_nextChannel (stateOf s)) str" for str
    unfolding owner1_def by (rule stream_owned_later [OF that]) (use o3 AssignExecutor_id(2) [OF a] in simp)
qed

text \<open>The owners known before keep their channels: a new stream is added to those there are.\<close>

lemma owned_GenerateStream:
  assumes o: "owned owner (stateOf s)" and g: "GenerateStream env req (t, s) = Some (r, (t1, s1))"
  shows "\<exists>owner1. owned owner1 (stateOf s1) \<and> (\<forall>str. r = Inr str \<longrightarrow> stream_owned owner1 (sm_nextChannel (stateOf s1)) str) \<and>
    (\<forall>str. stream_owned owner (sm_nextChannel (stateOf s)) str \<longrightarrow> stream_owned owner1 (sm_nextChannel (stateOf s1)) str)"
  using g
proof (cases rule: GenerateStreamE)
  case encode
  then show ?thesis
    using o by (intro exI [of _ owner]) simp
next
  case (assign req' req1 er err)
  then show ?thesis
    using o AssignExecutor_id(2) by (intro exI [of _ owner]) simp
next
  case (create tokens req1 s2 er err)
  then show ?thesis
    using owned_createRequest(1,2) [OF o create(2,3)] by blast
next
  case (subscribe tokens req1 s2 work s3 er err)
  let ?owner = "owner(sm_nextChannel (stateOf s) := rq_RequestId req1)"
  note o3 = owned_createRequest [OF o subscribe(2,3)]
  have "owned ?owner (stateOf s1) \<and> sm_nextChannel (stateOf s1) = sm_nextChannel (stateOf s3)"
    by (rule postD [OF own.failRequest_law subscribe(4)]) (use o3(1) in \<open>simp_all del: fun_upd_apply\<close>)
  then show ?thesis
    using o3(2) subscribe(5) by (metis Inl_Inr_False)
next
  case (enqueue tokens req1 s2 work s3 eventCh err)
  let ?owner = "owner(sm_nextChannel (stateOf s) := rq_RequestId req1)"
  note o3 = owned_createRequest [OF o enqueue(2,3)]
  have k: "owned ?owner (stateOf s1) \<and> sm_nextChannel (stateOf s1) = sm_nextChannel (stateOf s3)"
    by (rule owned_Enqueue [OF enqueue(5) o3(1)])
  have "fmlookup (sm_subscribeCh (stateOf s3)) (rq_RequestId req1) = Some eventCh"
    using enqueue(4) by (simp add: sm_Subscribe_def split: option.splits)
  then have "stream_owned ?owner (sm_nextChannel (stateOf s1)) str" if "r = Inr str" for str
    using stream_owned_new [OF o3(1), of _ _ str] that enqueue(6) o3(3) k by (auto split: option.splits)
  then show ?thesis
    using k o3(2) by metis
qed

subsection \<open>The engine keeps its requests apart\<close>

lemma isolatedI:
  "owned owner (stateOf (sy_scheduler y)) \<Longrightarrow>
    (\<And>str. str \<in> set (sy_streams y) \<Longrightarrow> stream_owned owner (sm_nextChannel (stateOf (sy_scheduler y))) str) \<Longrightarrow> isolated y"
  by (auto simp: isolated_def)

text \<open>A step of the scheduler or of the executor manager that keeps the law keeps the streams as they are.\<close>

lemma isolated_scheduler:
  assumes "isolated y" "\<And>owner n. owned owner (stateOf (sy_scheduler y)) \<and> sm_nextChannel (stateOf (sy_scheduler y)) = n \<Longrightarrow>
      owned owner (stateOf s) \<and> sm_nextChannel (stateOf s) = n"
  shows "isolated (y\<lparr>sy_scheduler := s\<rparr>)"
  using assms unfolding isolated_def by simp metis

lemma isolated_arrive:
  assumes "isolated y" "GenerateStream env req (sy_tokenizer y, sy_scheduler y) = Some (r, (t, s))"
  shows "isolated (y\<lparr>sy_tokenizer := t, sy_scheduler := s, sy_streams := sy_streams y @ (case r of Inl _ \<Rightarrow> [] | Inr str \<Rightarrow> [str])\<rparr>)"
proof -
  obtain owner where o: "owned owner (stateOf (sy_scheduler y))"
      "\<And>str. str \<in> set (sy_streams y) \<Longrightarrow> stream_owned owner (sm_nextChannel (stateOf (sy_scheduler y))) str"
    using assms(1) by (auto simp: isolated_def)
  obtain owner1 where "owned owner1 (stateOf s)" "\<And>str. r = Inr str \<Longrightarrow> stream_owned owner1 (sm_nextChannel (stateOf s)) str"
      "\<And>str. stream_owned owner (sm_nextChannel (stateOf (sy_scheduler y))) str \<Longrightarrow> stream_owned owner1 (sm_nextChannel (stateOf s)) str"
    using owned_GenerateStream [OF o(1) assms(2)] by blast
  then show ?thesis
    using o(2) by (intro isolatedI [of owner1]) (auto split: sum.splits)
qed

lemma isolated_stream:
  assumes "isolated y" "i < length (sy_streams y)"
    and "\<And>owner. owned owner (stateOf (sy_scheduler y)) \<Longrightarrow> stream_owned owner (sm_nextChannel (stateOf (sy_scheduler y))) (sy_streams y ! i) \<Longrightarrow>
      owned owner (stateOf s) \<and> sm_nextChannel (stateOf s) = sm_nextChannel (stateOf (sy_scheduler y)) \<and>
      stream_owned owner (sm_nextChannel (stateOf (sy_scheduler y))) str"
  shows "isolated (y\<lparr>sy_tokenizer := t, sy_scheduler := s, sy_streams := (sy_streams y)[i := str]\<rparr>)"
proof -
  obtain owner where o: "owned owner (stateOf (sy_scheduler y))"
      "\<And>str. str \<in> set (sy_streams y) \<Longrightarrow> stream_owned owner (sm_nextChannel (stateOf (sy_scheduler y))) str"
    using assms(1) by (auto simp: isolated_def)
  then show ?thesis
    using assms(3) [OF o(1) o(2) [OF nth_mem [OF assms(2)]]] by (intro isolatedI [of owner]) (auto dest!: set_update_subset_insert [THEN subsetD])
qed

lemma stateOf_manager [simp]:
  "stateOf (s\<lparr>s_executorManager := em\<rparr>) = stateOf s" "stateOf (setManagerState x s) = (stateOf s)\<lparr>sm_metrics := snd x\<rparr>"
  by (simp_all add: setManagerState_def)

lemma readOutput_outputs:
  "readOutput str = Some (out, str1) \<Longrightarrow> stream_owned owner n str \<Longrightarrow> stream_owned owner n str1"
  by (auto simp: readOutput_def stream_owned_def outputs_of_def split: list.splits if_splits)

lemma sys_step_isolated: "sys_step env y y' \<Longrightarrow> isolated y \<Longrightarrow> isolated y'"
proof (induction rule: sys_step.induct)
  case (arrive req y r t s)
  then show ?case
    using isolated_arrive by blast
next
  case (batch sel signal y s)
  show ?case
    by (rule isolated_scheduler [OF batch(2)]) (rule postD [OF own.batchTurn_law batch(1)])
next
  case (event y s)
  show ?case
    by (rule isolated_scheduler [OF event(2)]) (rule postD [OF own.consumeEvent_law event(1)])
next
  case (forward i y cancelled str t s)
  show ?case
    by (rule isolated_stream [OF forward(3,1)]) (rule owned_forward [OF _ _ forward(2)])
next
  case (read i y out str)
  show ?case
    using isolated_stream [OF read(3,1), of "sy_scheduler y" str "sy_tokenizer y"] readOutput_outputs [OF read(2)] by simp
qed (auto intro!: isolated_scheduler)

lemma provide_isolated:
  assumes "provide env get clock uuid cfg = Some (Inr y)"
  shows "isolated (StartBatchLoop y)"
proof -
  obtain reg where "stateOf (sy_scheduler y) = NewRequestLifecycleStateManager reg NewMetrics" "sy_streams y = []"
    using assms by (auto simp: provide_def NewScheduler_def Let_def split: sum.splits bind_splits)
  then show ?thesis
    using owned_new by (auto simp: isolated_def StartBatchLoop_def)
qed

lemma sys_reachable_isolated: "sys_reachable env y \<Longrightarrow> isolated y"
  by (induction rule: sys_reachable.induct) (auto intro: provide_isolated sys_step_isolated)

end
