(* ===== verification/Program_Runs.thy ===== *)
theory Program_Runs
  imports Engine_Programs Isolation
begin

text \<open>
  A program that runs alone does what the operation does in one step, so the engine in which whole
  operations take turns is a part of the one in which their actions are interleaved.
\<close>

subsection \<open>Programs and operations\<close>

lemma putSched_simps [simp]:
  "sy_scheduler (sh_system (putSched s x)) = s" "sh_locks (putSched s x) = sh_locks x" "putSched s1 (putSched s x) = putSched s1 x"
  "putSched (schedOf x) x = x" "putSched s (x\<lparr>sh_locks := l\<rparr>) = (putSched s x)\<lparr>sh_locks := l\<rparr>"
  "sy_tokenizer (sh_system (putSched s x)) = sy_tokenizer (sh_system x)" "sy_streams (sh_system (putSched s x)) = sy_streams (sh_system x)"
  by (simp_all add: putSched_def)

text \<open>Run alone while the locks \<open>L\<close> are held, the program does what the operation does.\<close>

definition does :: "(queue_kind \<times> string) list \<Rightarrow> ('q shared, 'a) prog \<Rightarrow> (scheduler \<Rightarrow> ('a \<times> scheduler) option) \<Rightarrow> bool" where
  "does L p f \<longleftrightarrow> (\<forall>x. sh_locks x = L \<longrightarrow> run p x = map_option (\<lambda>(a, s). (a, putSched s x)) (f (schedOf x)))"

lemma doesD: "does L p f \<Longrightarrow> sh_locks x = L \<Longrightarrow> run p x = map_option (\<lambda>(a, s). (a, putSched s x)) (f (schedOf x))"
  by (simp add: does_def)

lemma does_cong: "does L p f \<Longrightarrow> (\<And>s. f s = g s) \<Longrightarrow> does L p g"
  by (simp add: does_def)

lemma does_done: "does L (Done a) (\<lambda>s. Some (a, s))"
  by (simp add: does_def)

lemma does_never: "does L (Act (\<lambda>_. None)) (\<lambda>s. None)"
  by (simp add: does_def)

lemma does_act: "does L (sched_act f) f"
  by (simp add: does_def sched_act_def)

lemma does_unlocked: "(kd, e) \<notin> set L \<Longrightarrow> does L (unlocked kd e f) f"
  by (simp add: does_def unlocked_def)

lemma does_timed: "does L (timed f) (\<lambda>s. map_option (\<lambda>(a, st). (a, s\<lparr>s_world := w_advance st (s_world s)\<rparr>)) (f (w_now (s_world s)) (w_fresh (s_world s)) (w_state (s_world s))))"
  unfolding timed_def Let_def by (rule does_act)

lemma does_untimed: "does L (untimed f) (\<lambda>s. map_option (\<lambda>(a, st). (a, updState st s)) (f (w_state (s_world s))))"
  unfolding untimed_def by (rule does_act)

lemma does_bind:
  assumes "does L p f" "\<And>a. does L (k a) (g a)"
  shows "does L (pbind p k) (\<lambda>s. f s \<bind> (\<lambda>(a, s1). g a s1))"
  unfolding does_def
proof (intro allI impI)
  fix x :: "'a shared"
  assume x: "sh_locks x = L"
  show "run (pbind p k) x = map_option (\<lambda>(a, s). (a, putSched s x)) (f (schedOf x) \<bind> (\<lambda>(a, s1). g a s1))"
  proof (cases "f (schedOf x)")
    case (Some r)
    obtain a s1 where "r = (a, s1)"
      by (cases r)
    then show ?thesis
      using Some doesD [OF assms(1) x] doesD [OF assms(2), of "putSched s1 x"] x by simp
  qed (use doesD [OF assms(1) x] in simp)
qed

lemma does_if: "does L p f \<Longrightarrow> does L q g \<Longrightarrow> does L (if b then p else q) (if b then f else g)"
  by simp

lemma does_option:
  "does L p f \<Longrightarrow> (\<And>a. does L (k a) (g a)) \<Longrightarrow> does L (case r of None \<Rightarrow> p | Some a \<Rightarrow> k a) (case r of None \<Rightarrow> f | Some a \<Rightarrow> g a)"
  by (simp split: option.split)

lemma does_sum:
  "(\<And>a. does L (j a) (f a)) \<Longrightarrow> (\<And>a. does L (k a) (g a)) \<Longrightarrow> does L (case r of Inl a \<Rightarrow> j a | Inr a \<Rightarrow> k a) (case r of Inl a \<Rightarrow> f a | Inr a \<Rightarrow> g a)"
  by (simp split: sum.split)

lemma does_prod: "(\<And>a b. does L (k a b) (g a b)) \<Longrightarrow> does L (case r of (a, b) \<Rightarrow> k a b) (case r of (a, b) \<Rightarrow> g a b)"
  by (simp split: prod.split)

lemma does_list:
  "does L p f \<Longrightarrow> (\<And>a as. does L (k a as) (g a as)) \<Longrightarrow> does L (case r of [] \<Rightarrow> p | a # as \<Rightarrow> k a as) (case r of [] \<Rightarrow> f | a # as \<Rightarrow> g a as)"
  by (simp split: list.split)

lemma does_phase:
  "does L p f \<Longrightarrow> does L q g \<Longrightarrow> (\<And>n. does L (k n) (h n)) \<Longrightarrow>
   does L (case ph of WorkPhasePrefill \<Rightarrow> p | WorkPhaseDecode \<Rightarrow> q | WorkPhaseUnknown n \<Rightarrow> k n)
     (case ph of WorkPhasePrefill \<Rightarrow> f | WorkPhaseDecode \<Rightarrow> g | WorkPhaseUnknown n \<Rightarrow> h n)"
  by (simp split: WorkPhase.split)

lemmas does_acts = does_done does_never does_act does_timed does_untimed
lemmas does_rules = does_bind does_if does_option does_sum does_prod does_list does_phase

text \<open>An operation without a result.\<close>

abbreviation unit_of :: "(scheduler \<Rightarrow> scheduler option) \<Rightarrow> scheduler \<Rightarrow> (unit \<times> scheduler) option" where
  "unit_of f \<equiv> \<lambda>s. map_option (Pair ()) (f s)"

subsection \<open>The request manager\<close>

lemma does_send: "does L (sendP c e) (\<lambda>s. map_option (\<lambda>st. ((), updState st s)) (chan_send c e (w_state (s_world s))))"
  by (rule does_cong, unfold sendP_def, rule does_untimed) (simp add: option.map_comp o_def)

lemma does_close: "does L (closeP c) (\<lambda>s. map_option (\<lambda>st. ((), updState st s)) (chan_close c (w_state (s_world s))))"
  by (rule does_cong, unfold closeP_def, rule does_untimed) (simp add: option.map_comp o_def)

lemma updState_world [simp]:
  "w_state (s_world (updState st s)) = st" "updState st1 (updState st s) = updState st1 s"
  "updState st1 (s\<lparr>s_world := w_advance st w\<rparr>) = s\<lparr>s_world := w_advance st1 w\<rparr>"
  by (simp_all add: updState_def w_advance_def)

definition notified :: "(nat \<times> Event) option \<Rightarrow> state_manager \<Rightarrow> state_manager option" where
  "notified r st = (case r of None \<Rightarrow> Some st | Some (c, e) \<Rightarrow> do { st1 \<leftarrow> chan_send c e st; chan_close c st1 })"

lemma does_notify: "does L (notifyP r) (\<lambda>s. map_option (\<lambda>st. ((), updState st s)) (notified r (w_state (s_world s))))"
proof (cases r)
  case None
  then show ?thesis
    by (simp add: does_def notified_def updState_def)
next
  case (Some ce)
  then obtain c e where r: "r = Some (c, e)"
    by (cases ce) simp
  show ?thesis
    unfolding r notifyP.simps by (rule does_cong, rule does_bind [OF does_send does_close]) (auto simp: notified_def split: bind_splits option.splits)
qed

lemma does_fail: "does L (failP q err) (unit_of (failRequest q err))"
  by (rule does_cong, unfold failP_def, rule does_bind [OF does_timed does_notify])
    (auto simp: failRequest_def sm_Fail_def notified_def Let_def map_option_case split: bind_splits option.splits)

lemma sm_CanSchedule_locked:
  "sm_CanSchedule now uuid work st = do { ((ok, r), st1) \<leftarrow> canScheduleLocked now uuid work st; st2 \<leftarrow> notified r st1; Some (ok, st2) }"
  by (auto simp: sm_CanSchedule_def canScheduleLocked_def notified_def Let_def split: option.splits bind_splits)

lemma does_canSchedule:
  "does L (canScheduleP work) (\<lambda>s. map_option (\<lambda>(ok, w). (ok, s\<lparr>s_world := w\<rparr>)) (canSchedule work (s_world s)))"
  by (rule does_cong, unfold canScheduleP_def, rule does_bind [OF does_timed], rule does_prod, rule does_bind [OF does_notify does_done])
    (auto simp: canSchedule_def sm_CanSchedule_locked split: option.splits bind_splits)

lemma does_onEvent:
  "does L (onEventP e) (\<lambda>s. map_option (\<lambda>(r, st). (r, s\<lparr>s_world := w_advance st (s_world s)\<rparr>))
     (sm_OnEvent (w_now (s_world s)) (w_fresh (s_world s)) e (w_state (s_world s))))"
  by (rule does_cong, unfold onEventP_def, (rule does_rules does_acts does_send)+)
    (auto simp: sm_OnEvent_def w_advance_def updState_def split: option.splits bind_splits)

subsection \<open>Queues\<close>

text \<open>What is done under a queue's lock, from the works found there.\<close>

lemma does_locked:
  assumes "\<And>ws. does [(kd, e)] (k ws) (g ws)"
  shows "does [] (pbind (lockP kd e f) (\<lambda>ws. pbind (k ws) (\<lambda>r. pthen (unlockP kd e) (Done (h r)))))
    (\<lambda>s. f s \<bind> (\<lambda>ws. g ws s \<bind> (\<lambda>(r, s1). Some (h r, s1))))"
  unfolding does_def
proof (intro allI impI)
  fix x :: "'b shared"
  assume x: "sh_locks x = []"
  have run: "run (k ws) (x\<lparr>sh_locks := [(kd, e)]\<rparr>) = map_option (\<lambda>(a, s). (a, (putSched s x)\<lparr>sh_locks := [(kd, e)]\<rparr>)) (g ws (schedOf x))" for ws
    using doesD [OF assms, of "x\<lparr>sh_locks := [(kd, e)]\<rparr>" ws] by simp
  have l: "y\<lparr>sh_locks := []\<rparr> = y" if "sh_locks y = []" for y :: "'b shared"
    using that by simp
  show "run (pbind (lockP kd e f) (\<lambda>ws. pbind (k ws) (\<lambda>r. pthen (unlockP kd e) (Done (h r))))) x =
      map_option (\<lambda>(a, s). (a, putSched s x)) (f (schedOf x) \<bind> (\<lambda>ws. g ws (schedOf x) \<bind> (\<lambda>(r, s1). Some (h r, s1))))"
    by (cases "f (schedOf x)") (auto simp: lockP_def unlockP_def x run l map_option_case split: option.splits bind_splits)
qed

text \<open>The loops as operations on the scheduler.\<close>

fun popLoop :: "queue_kind \<Rightarrow> string \<Rightarrow> WorkItem list \<Rightarrow> scheduler \<Rightarrow> (WorkItem option \<times> scheduler) option" where
  "popLoop kd e [] s = Some (None, s)"
| "popLoop kd e (work # ws) s = do {
     let s1 = dropHead kd e s;
     (ok, w) \<leftarrow> canSchedule work (s_world s1);
     if ok then Some (Some work, s1\<lparr>s_world := w\<rparr>) else popLoop kd e ws (s1\<lparr>s_world := w\<rparr>)
   }"

fun peekLoop :: "queue_kind \<Rightarrow> string \<Rightarrow> WorkItem list \<Rightarrow> scheduler \<Rightarrow> (WorkItem option \<times> scheduler) option" where
  "peekLoop kd e [] s = Some (None, s)"
| "peekLoop kd e (work # ws) s = do {
     (ok, w) \<leftarrow> canSchedule work (s_world s);
     if ok then Some (Some work, s\<lparr>s_world := w\<rparr>) else peekLoop kd e ws (dropHead kd e (s\<lparr>s_world := w\<rparr>))
   }"

fun takeLoop :: "nat \<Rightarrow> string \<Rightarrow> WorkItem list \<Rightarrow> scheduler \<Rightarrow> (WorkItem list \<times> scheduler) option" where
  "takeLoop 0 e ws s = Some ([], s)"
| "takeLoop (Suc n) e [] s = Some ([], s)"
| "takeLoop (Suc n) e (work # ws) s = do {
     let s1 = dropHead DecodeQueue e s;
     (ok, w) \<leftarrow> canSchedule work (s_world s1);
     (taken, s2) \<leftarrow> takeLoop n e ws (s1\<lparr>s_world := w\<rparr>);
     Some (if ok then work # taken else taken, s2)
   }"

lemma does_popLoop: "does L (popLoopP kd e ws) (popLoop kd e ws)"
proof (induction ws)
  case (Cons w ws)
  show ?case
    by (rule does_cong, unfold popLoopP.simps, (rule does_rules does_acts does_canSchedule Cons.IH)+)
      (auto simp: Let_def map_option_case split: option.splits bind_splits)
qed (simp add: does_def)

lemma does_peekLoop: "does L (peekLoopP kd e ws) (peekLoop kd e ws)"
proof (induction ws)
  case (Cons w ws)
  show ?case
    by (rule does_cong, unfold peekLoopP.simps, (rule does_rules does_acts does_canSchedule Cons.IH)+)
      (auto simp: Let_def map_option_case split: option.splits bind_splits)
qed (simp add: does_def)

lemma does_dequeueLoop: "does L (dequeueLoopP n e ws) (takeLoop n e ws)"
proof (induction n e ws rule: dequeueLoopP.induct)
  case (3 n e w ws)
  show ?case
    by (rule does_cong, unfold dequeueLoopP.simps, (rule does_rules does_acts does_canSchedule 3)+)
      (auto simp: Let_def map_option_case split: option.splits bind_splits)
qed (simp_all add: does_def)

lemma fmupd_same: "fmlookup m k = Some v \<Longrightarrow> fmupd k v m = m"
  by (rule fmap_ext) auto

lemma tailPrefill_Some [simp]: "fmlookup m e = Some q \<Longrightarrow> tailPrefill e m = fmupd e (q\<lparr>pq_works := tl (pq_works q)\<rparr>) m"
  by (simp add: tailPrefill_def)

lemma popLoop_small:
  "fmlookup (s_prefillSmall s) e = Some q \<Longrightarrow> popLoop SmallQueue e (pq_works q) s =
    map_option (\<lambda>(r, ws1, w1). (r, s\<lparr>s_prefillSmall := fmupd e (q\<lparr>pq_works := ws1\<rparr>) (s_prefillSmall s), s_world := w1\<rparr>)) (popWorks (pq_works q) (s_world s))"
proof (induction "pq_works q" arbitrary: q s)
  case Nil
  then show ?case
    by (simp add: Nil(1) [symmetric] fmupd_same)
next
  case (Cons w ws)
  have "popLoop SmallQueue e ws (s\<lparr>s_prefillSmall := fmupd e (q\<lparr>pq_works := ws\<rparr>) (s_prefillSmall s), s_world := w1\<rparr>) =
      map_option (\<lambda>(r, ws1, w2). (r, s\<lparr>s_prefillSmall := fmupd e (q\<lparr>pq_works := ws1\<rparr>) (s_prefillSmall s), s_world := w2\<rparr>)) (popWorks ws w1)" for w1
    using Cons.hyps(1) [of "q\<lparr>pq_works := ws\<rparr>" "s\<lparr>s_prefillSmall := fmupd e (q\<lparr>pq_works := ws\<rparr>) (s_prefillSmall s), s_world := w1\<rparr>"] by simp
  then show ?case
    using Cons.prems Cons.hyps(2) [symmetric] by (auto simp: Let_def split: bind_splits)
qed

lemma popLoop_large:
  "fmlookup (s_prefillLarge s) e = Some q \<Longrightarrow> popLoop LargeQueue e (pq_works q) s =
    map_option (\<lambda>(r, ws1, w1). (r, s\<lparr>s_prefillLarge := fmupd e (q\<lparr>pq_works := ws1\<rparr>) (s_prefillLarge s), s_world := w1\<rparr>)) (popWorks (pq_works q) (s_world s))"
proof (induction "pq_works q" arbitrary: q s)
  case Nil
  then show ?case
    by (simp add: Nil(1) [symmetric] fmupd_same)
next
  case (Cons w ws)
  have "popLoop LargeQueue e ws (s\<lparr>s_prefillLarge := fmupd e (q\<lparr>pq_works := ws\<rparr>) (s_prefillLarge s), s_world := w1\<rparr>) =
      map_option (\<lambda>(r, ws1, w2). (r, s\<lparr>s_prefillLarge := fmupd e (q\<lparr>pq_works := ws1\<rparr>) (s_prefillLarge s), s_world := w2\<rparr>)) (popWorks ws w1)" for w1
    using Cons.hyps(1) [of "q\<lparr>pq_works := ws\<rparr>" "s\<lparr>s_prefillLarge := fmupd e (q\<lparr>pq_works := ws\<rparr>) (s_prefillLarge s), s_world := w1\<rparr>"] by simp
  then show ?case
    using Cons.prems Cons.hyps(2) [symmetric] by (auto simp: Let_def split: bind_splits)
qed

lemma peekLoop_small:
  "fmlookup (s_prefillSmall s) e = Some q \<Longrightarrow> peekLoop SmallQueue e (pq_works q) s =
    map_option (\<lambda>(r, ws1, w1). (r, s\<lparr>s_prefillSmall := fmupd e (q\<lparr>pq_works := ws1\<rparr>) (s_prefillSmall s), s_world := w1\<rparr>)) (peekWorks (pq_works q) (s_world s))"
proof (induction "pq_works q" arbitrary: q s)
  case Nil
  then show ?case
    by (simp add: Nil(1) [symmetric] fmupd_same)
next
  case (Cons w ws)
  have keep: "q\<lparr>pq_works := w # ws\<rparr> = q"
    using Cons.hyps(2) by simp
  have swap: "s\<lparr>s_world := w1, s_prefillSmall := m\<rparr> = s\<lparr>s_prefillSmall := m, s_world := w1\<rparr>" for w1 m
    by (cases s) simp
  have "peekLoop SmallQueue e ws (s\<lparr>s_prefillSmall := fmupd e (q\<lparr>pq_works := ws\<rparr>) (s_prefillSmall s), s_world := w1\<rparr>) =
      map_option (\<lambda>(r, ws1, w2). (r, s\<lparr>s_prefillSmall := fmupd e (q\<lparr>pq_works := ws1\<rparr>) (s_prefillSmall s), s_world := w2\<rparr>)) (peekWorks ws w1)" for w1
    using Cons.hyps(1) [of "q\<lparr>pq_works := ws\<rparr>" "s\<lparr>s_prefillSmall := fmupd e (q\<lparr>pq_works := ws\<rparr>) (s_prefillSmall s), s_world := w1\<rparr>"] by simp
  then show ?case
    using Cons.prems Cons.hyps(2) [symmetric] by (auto simp: Let_def swap keep fmupd_same split: bind_splits)
qed

lemma takeLoop_decode:
  "fmlookup (s_decode s) e = Some q \<Longrightarrow> takeLoop n e (map en_work (dq_works q)) s =
    map_option (\<lambda>(taken, es, w1). (taken, s\<lparr>s_decode := fmupd e (q\<lparr>dq_works := es\<rparr>) (s_decode s), s_world := w1\<rparr>)) (dequeueEntries n (dq_works q) (s_world s))"
proof (induction n arbitrary: q s)
  case 0
  then show ?case
    by (simp add: fmupd_same)
next
  case (Suc n)
  show ?case
  proof (cases "dq_works q")
    case Nil
    then have "q\<lparr>dq_works := []\<rparr> = q"
      by simp
    then show ?thesis
      using Suc.prems Nil by (simp add: fmupd_same)
  next
    case (Cons x xs)
    have "takeLoop n e (map en_work xs) (s\<lparr>s_decode := fmupd e (q\<lparr>dq_works := xs\<rparr>) (s_decode s), s_world := w1\<rparr>) =
        map_option (\<lambda>(taken, es, w2). (taken, s\<lparr>s_decode := fmupd e (q\<lparr>dq_works := es\<rparr>) (s_decode s), s_world := w2\<rparr>)) (dequeueEntries n xs w1)" for w1
      using Suc.IH [of "s\<lparr>s_decode := fmupd e (q\<lparr>dq_works := xs\<rparr>) (s_decode s), s_world := w1\<rparr>" "q\<lparr>dq_works := xs\<rparr>"] by simp
    then show ?thesis
      using Suc.prems Cons by (auto simp: Let_def split: bind_splits)
  qed
qed

text \<open>The queue operations as the scheduler uses them.\<close>

lemma does_pop_small: "does [] (popP SmallQueue e) (\<lambda>s. do {
    q \<leftarrow> fmlookup (s_prefillSmall s) e;
    (r, q1, w1) \<leftarrow> pq_Pop q (s_world s);
    Some (r, s\<lparr>s_prefillSmall := fmupd e q1 (s_prefillSmall s), s_world := w1\<rparr>) })"
  by (rule does_cong, unfold popP_def, rule does_locked [OF does_popLoop])
    (auto simp: popLoop_small pq_Pop_def split: bind_splits)

lemma does_pop_large: "does [] (popP LargeQueue e) (\<lambda>s. do {
    q \<leftarrow> fmlookup (s_prefillLarge s) e;
    (r, q1, w1) \<leftarrow> pq_Pop q (s_world s);
    Some (r, s\<lparr>s_prefillLarge := fmupd e q1 (s_prefillLarge s), s_world := w1\<rparr>) })"
  by (rule does_cong, unfold popP_def, rule does_locked [OF does_popLoop])
    (auto simp: popLoop_large pq_Pop_def split: bind_splits)

lemma does_peek_small: "does [] (peekP SmallQueue e) (\<lambda>s. do {
    q \<leftarrow> fmlookup (s_prefillSmall s) e;
    (r, q1, w1) \<leftarrow> pq_Peek q (s_world s);
    Some (r, s\<lparr>s_prefillSmall := fmupd e q1 (s_prefillSmall s), s_world := w1\<rparr>) })"
  by (rule does_cong, unfold peekP_def, rule does_locked [OF does_peekLoop])
    (auto simp: peekLoop_small pq_Peek_def split: bind_splits)

lemma does_dequeue: "does [] (dequeueP k e) (\<lambda>s. do {
    q \<leftarrow> fmlookup (s_decode s) e;
    (taken, n, q1, w1) \<leftarrow> dq_Dequeue k q (s_world s);
    Some ((taken, n), s\<lparr>s_decode := fmupd e q1 (s_decode s), s_world := w1\<rparr>) })"
  by (rule does_cong, unfold dequeueP_def, rule does_locked [OF does_dequeueLoop])
    (auto simp: takeLoop_decode dq_Dequeue_def fmupd_same split: bind_splits)

subsection \<open>The scheduler\<close>

lemma does_length: "does [] (lengthP kd e) (\<lambda>s. map_option (\<lambda>ws. (of_nat (length ws), s)) (worksIn kd e s))"
  unfolding lengthP_def by (rule does_unlocked) simp

lemma lengths_works [simp]:
  "fmlookup (s_prefillSmall s) e = Some q \<Longrightarrow> pq_Length q = of_nat (length (the (worksIn SmallQueue e s)))"
  "fmlookup (s_prefillLarge s) e = Some q \<Longrightarrow> pq_Length q = of_nat (length (the (worksIn LargeQueue e s)))"
  "fmlookup (s_decode s) e = Some d \<Longrightarrow> dq_Length d = of_nat (length (the (worksIn DecodeQueue e s)))"
  by (simp_all add: pq_Length_def dq_Length_def)

lemma does_pressure: "does [] (pressureP e) (\<lambda>s. do {
    ql \<leftarrow> fmlookup (s_prefillLarge s) e;
    if 10 < pq_Length ql then Some (True, s) else do {
      qs \<leftarrow> fmlookup (s_prefillSmall s) e;
      if 30 < pq_Length qs then Some (True, s) else do {
        qd \<leftarrow> fmlookup (s_decode s) e;
        Some (s_thresholdSeqs s \<le> dq_Length qd, s)
      }
    } })"
  by (rule does_cong, unfold pressureP_def, (rule does_rules does_length does_acts)+)
    (auto simp: pq_Length_def dq_Length_def split: bind_splits)

lemma does_queueLengths: "does [] (queueLengthsP es p d) (\<lambda>s. map_option (\<lambda>r. (r, s)) (queueLengths es s p d))"
proof (induction es arbitrary: p d)
  case (Cons e es)
  show ?case
    by (rule does_cong, unfold queueLengthsP.simps, (rule does_rules does_length Cons.IH)+)
      (auto simp: pq_Length_def dq_Length_def map_option_case split: bind_splits option.splits)
qed (simp add: does_def)

lemma updMetrics_again [simp]: "updMetrics f (updMetrics g s) = updMetrics (\<lambda>m. f (g m)) s"
  by (simp add: updMetrics_def Let_def)

lemma does_trySchedule: "does [] (tryScheduleP e) (unit_of (trySchedule e))"
  by (rule does_cong, unfold tryScheduleP_def, (rule does_rules does_pressure does_queueLengths does_acts)+)
    (auto simp: trySchedule_def hasQueues_def Let_def map_option_case split: bind_splits option.splits)

lemma does_reject: "does [] (rejectP q err) (rejectWork q err)"
  by (rule does_cong, unfold rejectP_def, (rule does_rules does_fail does_acts)+)
    (auto simp: rejectWork_def split: bind_splits)

lemma does_stamp: "does L (stampP work) (\<lambda>s. Some (work\<lparr>wk_EnqueuedAt := w_now (s_world s)\<rparr>, ticked s))"
  by (rule does_cong, unfold stampP_def, rule does_timed) (simp add: ticked_def)

text \<open>Admission and return, in terms of the queue the work belongs in.\<close>

lemma does_unlocked_here: "does [] (unlocked kd e f) f"
  by (rule does_unlocked) simp

lemma sched_Enqueue_admit:
  assumes "known_phase work"
  shows "sched_Enqueue work s = (let w = stamped work s; (err, s1) = admitWork (queueOf w (ticked s)) w (ticked s) in
    case err of Some er \<Rightarrow> rejectWork (wk_RequestId work) er s1 | None \<Rightarrow> do { s2 \<leftarrow> trySchedule (wk_ExecutorID work) s1; Some (None, s2) })"
proof (cases "wk_Phase work")
  case WorkPhasePrefill
  then show ?thesis
    by (cases "wk_TokenCntTotal work \<le> s_longPrefillThreshold s")
      (auto simp: sched_Enqueue_def queueOf_def stamped_def ticked_def w_advance_def Let_def split: option.splits prod.splits)
next
  case WorkPhaseDecode
  then show ?thesis
    by (auto simp: sched_Enqueue_def queueOf_def stamped_def ticked_def w_advance_def Let_def split: option.splits prod.splits)
qed (use assms in \<open>simp add: known_phase_def\<close>)

lemma requeueWork_return:
  assumes "known_phase work"
  shows "requeueWork work s = (let w = unallocated work; (err, s1) = returnWork (queueOf w s) w s in
    case err of Some er \<Rightarrow> failRequest (wk_RequestId work) (Some er) s1 | None \<Rightarrow> Some s1)"
proof (cases "wk_Phase work")
  case WorkPhasePrefill
  then show ?thesis
    by (cases "wk_TokenCntTotal work \<le> s_longPrefillThreshold s")
      (auto simp: requeueWork_def queueOf_def unallocated_def Let_def split: option.splits)
next
  case WorkPhaseDecode
  then show ?thesis
    by (auto simp: requeueWork_def queueOf_def unallocated_def Let_def split: option.splits)
qed (use assms in \<open>simp add: known_phase_def\<close>)

lemma does_enqueue: "does [] (enqueueP work) (sched_Enqueue work)"
proof (rule does_cong, unfold enqueueP_def, (rule does_rules does_stamp does_reject does_trySchedule does_unlocked_here does_acts)+, goal_cases)
  case (1 s)
  show ?case
  proof (cases "known_phase work")
    case True
    then show ?thesis
      by (auto simp: sched_Enqueue_admit known_phase_def stamped_def Let_def split: WorkPhase.splits option.splits bind_splits prod.splits)
  next
    case False
    then show ?thesis
      by (auto simp: sched_Enqueue_def known_phase_def ticked_def Let_def split: WorkPhase.splits)
  qed
qed

lemma does_requeue: "does [] (requeueP work) (unit_of (requeueWork work))"
proof (rule does_cong, unfold requeueP_def Let_def, (rule does_rules does_fail does_unlocked_here does_acts)+, goal_cases)
  case (1 s)
  show ?case
  proof (cases "known_phase work")
    case True
    then show ?thesis
      by (auto simp: requeueWork_return known_phase_def unallocated_def Let_def split: WorkPhase.splits option.splits bind_splits prod.splits)
  next
    case False
    then show ?thesis
      by (auto simp: requeueWork_def known_phase_def Let_def split: WorkPhase.splits)
  qed
qed

subsection \<open>Batches\<close>

definition decide :: "WorkItem \<Rightarrow> WorkItem option \<Rightarrow> scheduler \<Rightarrow> (WorkItem option \<times> scheduler) option" where
  "decide work back_to s = do {
     (res, s1) \<leftarrow> allocateBlocks work s;
     case res of
       Inl err \<Rightarrow> do { s2 \<leftarrow> failRequest (wk_RequestId work) (Some err) s1; Some (None, s2) }
     | Inr (allocated, work1) \<Rightarrow>
         if \<not> allocated then do { s2 \<leftarrow> requeueWork (case back_to of None \<Rightarrow> work1 | Some w \<Rightarrow> w) s1; Some (None, s2) }
         else Some (Some work1, s1)
   }"

lemma does_decide: "does [] (decideP work back_to) (decide work back_to)"
  by (rule does_cong, unfold decideP_def, (rule does_rules does_fail does_requeue does_acts)+)
    (auto simp: decide_def split: sum.splits bind_splits)

lemma decide_bind:
  "decide work back_to s \<bind> (\<lambda>(r, s1). case r of None \<Rightarrow> f s1 | Some w \<Rightarrow> g w s1) = do {
     (res, s1) \<leftarrow> allocateBlocks work s;
     case res of
       Inl err \<Rightarrow> do { s2 \<leftarrow> failRequest (wk_RequestId work) (Some err) s1; f s2 }
     | Inr (allocated, work1) \<Rightarrow>
         if \<not> allocated then do { s2 \<leftarrow> requeueWork (case back_to of None \<Rightarrow> work1 | Some w \<Rightarrow> w) s1; f s2 }
         else g work1 s1
   }"
  by (auto simp: decide_def split: sum.splits bind_splits)

lemma does_decideBind:
  assumes "does [] p f" "\<And>w. does [] (k w) (g w)"
  shows "does [] (pbind (decideP work back_to) (\<lambda>r. case r of None \<Rightarrow> p | Some w \<Rightarrow> k w)) (\<lambda>s. do {
     (res, s1) \<leftarrow> allocateBlocks work s;
     case res of
       Inl err \<Rightarrow> do { s2 \<leftarrow> failRequest (wk_RequestId work) (Some err) s1; f s2 }
     | Inr (allocated, work1) \<Rightarrow>
         if \<not> allocated then do { s2 \<leftarrow> requeueWork (case back_to of None \<Rightarrow> work1 | Some w \<Rightarrow> w) s1; f s2 }
         else g work1 s1
   })"
proof (rule does_cong, rule does_bind [OF does_decide does_option [OF assms]])
  fix s
  have "decide work back_to s \<bind> (\<lambda>(a, s1). (case a of None \<Rightarrow> f | Some b \<Rightarrow> g b) s1) =
      decide work back_to s \<bind> (\<lambda>(r, s1). case r of None \<Rightarrow> f s1 | Some w \<Rightarrow> g w s1)"
    by (auto split: option.splits bind_splits)
  then show "decide work back_to s \<bind> (\<lambda>(a, s1). (case a of None \<Rightarrow> f | Some b \<Rightarrow> g b) s1) = do {
     (res, s1) \<leftarrow> allocateBlocks work s;
     case res of
       Inl err \<Rightarrow> do { s2 \<leftarrow> failRequest (wk_RequestId work) (Some err) s1; f s2 }
     | Inr (allocated, work1) \<Rightarrow>
         if \<not> allocated then do { s2 \<leftarrow> requeueWork (case back_to of None \<Rightarrow> work1 | Some w \<Rightarrow> w) s1; f s2 }
         else g work1 s1
   }"
    by (simp only: decide_bind)
qed

lemmas does_decides = does_decideBind [where back_to = None, unfolded option.case] does_decideBind [where back_to = "Some w" for w, unfolded option.case]

lemma does_decodeLoop: "does [] (decodeLoopP ws p) (pickDecodeLoop ws p)"
proof (induction ws p rule: decodeLoopP.induct)
  case (2 work ws batch budget)
  show ?case
    by (rule does_cong, unfold decodeLoopP.simps, rule does_decides(1) [OF 2]) (simp_all cong: Option.bind_cong)
qed (simp add: does_def)

lemma does_pickDecode: "does [] (pickDecodeP e p) (pickDecode e p)"
proof -
  obtain batch b where p: "p = (batch, b)"
    by (cases p)
  show ?thesis
    by (rule does_cong, unfold p pickDecodeP_def Let_def prod.case, (rule does_rules does_dequeue does_decodeLoop does_acts)+)
      (auto simp: pickDecode_def Let_def split: bind_splits)
qed

lemma does_smallLoop: "does [] (smallLoopP n e p) (pickSmallLoop n e p)"
proof (induction n arbitrary: p)
  case (Suc n)
  obtain batch b where p: "p = (batch, b)"
    by (cases p)
  show ?case
    by (rule does_cong, unfold p smallLoopP.simps Let_def,
        (rule does_decides does_rules does_peek_small does_pop_small Suc.IH does_acts)+)
      (auto simp: Let_def split: bind_splits option.splits cong: Option.bind_cong)
qed (simp add: does_def)

lemma does_largeLoop: "does [] (largeLoopP n e p) (pickLargeLoop n e p)"
proof (induction n arbitrary: p)
  case (Suc n)
  obtain batch b where p: "p = (batch, b)"
    by (cases p)
  show ?case
    by (rule does_cong, unfold p largeLoopP.simps Let_def,
        (rule does_decides does_rules does_pop_large Suc.IH does_acts)+)
      (auto simp: Let_def split: bind_splits option.splits cong: Option.bind_cong)
qed (simp add: does_def)

lemma does_pickBatch: "does [] (pickBatchP e) (pickBatch e)"
  by (rule does_cong, unfold pickBatchP_def, (rule does_rules does_length does_pickDecode does_smallLoop does_largeLoop does_acts)+)
    (auto simp: pickBatch_def pickSmallPrefill_def pickLargePrefill_def pq_Length_def split: bind_splits)

lemma does_undoBatch: "does [] (undoBatchP ws) (unit_of (undoBatch ws))"
proof (induction ws)
  case (Cons w ws)
  show ?case
    by (rule does_cong, unfold undoBatchP.simps, (rule does_rules does_requeue Cons.IH does_acts)+)
      (auto split: bind_splits)
qed (simp add: does_def)

lemma world_manager [simp]: "(s\<lparr>s_world := w\<rparr>)\<lparr>s_executorManager := em\<rparr> = s\<lparr>s_executorManager := em, s_world := w\<rparr>"
  by (cases s) simp

lemma does_patchExecute: "does [] (patchExecuteP ctx choice e) (unit_of (patchExecute ctx choice e))"
  by (rule does_cong, unfold patchExecuteP_def newBatchP_def submitP_def, (rule does_rules does_pickBatch does_trySchedule does_undoBatch does_acts)+)
    (auto simp: patchExecute_def Let_def split: list.splits bind_splits prod.splits)

lemma does_patchExecutors: "does [] (patchExecutorsP sel es) (unit_of (patchExecutors sel es))"
proof (induction es)
  case (Cons e es)
  show ?case
    by (rule does_cong, unfold patchExecutorsP.simps, rule does_bind [OF does_patchExecute Cons.IH])
      (auto split: bind_splits)
qed (simp add: does_def)

lemma does_batchTurn: "does [] (batchTurnP sel signal) (unit_of (batchTurn sel signal))"
  by (rule does_cong, unfold batchTurnP_def, (rule does_rules does_patchExecutors does_acts)+)
    (auto simp: batchTurn_def takeSignal_def split: bind_splits)

subsection \<open>Events\<close>

lemma does_enqueueAll: "does [] (enqueueAllP items) (enqueueAll items)"
proof (induction items)
  case (Cons item items)
  show ?case
    by (rule does_cong, unfold enqueueAllP.simps, (rule does_rules does_enqueue Cons.IH does_acts)+)
      (auto split: bind_splits option.splits)
qed (simp add: does_def)

lemma does_registry: "does L (registryP f) (\<lambda>s. map_option (\<lambda>(err, reg). (err, setRegistry reg s)) (f (registryOf s)))"
  unfolding registryP_def by (rule does_act)

lemma setRegistry_world: "s\<lparr>s_world := w_advance st (s_world (setRegistry reg s))\<rparr> = (setRegistry reg s)\<lparr>s_world := w_advance st (s_world (setRegistry reg s))\<rparr>"
  by (simp add: setRegistry_def Let_def)

lemma setRegistry_same [simp]: "setRegistry (registryOf s) s = s"
  by (simp add: setRegistry_def Let_def)

lemma does_handleEvent: "does [] (handleEventP event) (handleEvent event)"
  by (rule does_cong, unfold handleEventP_def, (rule does_rules does_registry does_onEvent does_enqueueAll does_acts)+)
    (auto simp: handleEvent_def setRegistry_world Let_def split: option.splits bind_splits)

lemma does_consumeEvent: "does [] consumeEventP (unit_of consumeEvent)"
  by (rule does_cong, unfold consumeEventP_def, (rule does_rules does_handleEvent does_acts)+)
    (auto simp: consumeEvent_def takeEvent_def split: bind_splits)

subsection \<open>Arrivals\<close>

lemma does_assign: "does L (assignP req) (\<lambda>s. let (err, req1, s1) = AssignExecutor req s in Some ((err, req1), s1))"
  unfolding assignP_def by (rule does_act)

lemma does_create: "does L (sched_act (createRequest req)) (createRequest req)"
  by (rule does_act)

lemma does_afterEncode:
  assumes "tokenizer_Encode env (rq_ModelID req) (rq_Prompt req) t = (enc, t1)"
  shows "does [] (afterEncode req enc) (\<lambda>s. map_option (\<lambda>(r, (_, s1)). (r, s1)) (GenerateStream env req (t, s)))"
  by (rule does_cong, unfold afterEncode_def, (rule does_rules does_assign does_fail does_enqueue does_acts)+)
    (auto simp: GenerateStream_def assms openStream_def Let_def split: sum.splits option.splits bind_splits prod.splits)

lemma run_arrive:
  assumes "sh_locks x = []" "proper_prompt env req (sy_tokenizer (sh_system x))"
    "GenerateStream env req (sy_tokenizer (sh_system x), schedOf x) = Some (r, (t, s))"
  shows "run (arriveP env req) x = Some ((), x\<lparr>sh_system := (sh_system x)\<lparr>sy_tokenizer := t, sy_scheduler := s,
    sy_streams := sy_streams (sh_system x) @ (case r of Inl _ \<Rightarrow> [] | Inr str \<Rightarrow> [str])\<rparr>\<rparr>)"
proof -
  let ?y = "sh_system x"
  obtain enc t1 where enc: "tokenizer_Encode env (rq_ModelID req) (rq_Prompt req) (sy_tokenizer ?y) = (enc, t1)"
    by (cases "tokenizer_Encode env (rq_ModelID req) (rq_Prompt req) (sy_tokenizer ?y)")
  let ?x = "x\<lparr>sh_system := ?y\<lparr>sy_tokenizer := t1\<rparr>\<rparr>"
  have t: "t = t1"
    using GenerateStream_tokenizer [OF assms(3)] enc by simp
  have "run (afterEncode req enc) ?x = Some (r, putSched s ?x)"
    using doesD [OF does_afterEncode [OF enc], of ?x] assms(1,3) by simp
  then have "run (generateStreamP env req) x = Some (r, putSched s ?x)"
    using assms(2) enc by (simp add: generateStreamP_def encodeP_def Let_def)
  then show ?thesis
    by (cases r) (simp_all add: arriveP_def putSched_def t)
qed

subsection \<open>Forwarders\<close>

lemma does_leave: "does L (leaveP q) (\<lambda>s. map_option (\<lambda>st. ((), updState st s)) (do {
    (subCh, st1) \<leftarrow> leaveLocked q (w_state (s_world s));
    case subCh of None \<Rightarrow> Some st1 | Some c \<Rightarrow> chan_close c st1 }))"
  by (rule does_cong, unfold leaveP_def, (rule does_rules does_close does_untimed does_acts)+)
    (auto simp: map_option_case split: option.splits bind_splits)

lemma run_forward:
  assumes "sh_locks x = []" "i < length (sy_streams (sh_system x))"
    "forward_step env cancelled (sy_streams (sh_system x) ! i, (sy_tokenizer (sh_system x), schedOf x)) (str, (t, s))"
  shows "\<exists>p \<in> {receiveP env i, sendOutputP i, cancelP i}. run p x = Some ((), x\<lparr>sh_system := (sh_system x)\<lparr>sy_tokenizer := t, sy_scheduler := s,
    sy_streams := (sy_streams (sh_system x))[i := str]\<rparr>\<rparr>)"
proof -
  let ?y = "sh_system x" and ?str = "sy_streams (sh_system x) ! i" and ?e = "(sy_tokenizer (sh_system x), schedOf x)"
  have leave: "run (pthen (leaveP q) (closeStreamP i)) (x\<lparr>sh_system := ?y\<lparr>sy_streams := (sy_streams ?y)[i := str1]\<rparr>\<rparr>) =
      Some ((), x\<lparr>sh_system := ?y\<lparr>sy_scheduler := updState st (schedOf x), sy_streams := (sy_streams ?y)[i := str1\<lparr>st_closed := True, st_forwarder := Returned\<rparr>]\<rparr>\<rparr>)"
    if "do { (subCh, st1) \<leftarrow> leaveLocked q (w_state (s_world (schedOf x))); case subCh of None \<Rightarrow> Some st1 | Some c \<Rightarrow> chan_close c st1 } = Some st" for q st str1
    using doesD [OF does_leave, of "x\<lparr>sh_system := ?y\<lparr>sy_streams := (sy_streams ?y)[i := str1]\<rparr>\<rparr>" "[]" q] assms(1,2) that
    by (simp add: closeStreamP_def stream_act_def putSched_def)
  consider "forwardReceive env ?str ?e = Some (str, (t, s))" | "forwardSend ?str ?e = Some (str, (t, s))" | "forwardCancel ?str ?e = Some (str, (t, s))"
    using assms(3) by (auto elim: forward_stepE)
  then show ?thesis
  proof cases
    case 1
    then show ?thesis
      using assms(2) by (intro bexI [of _ "receiveP env i"]) (simp_all add: receiveP_def stream_act_def Let_def)
  next
    case 2
    obtain out where out: "st_forwarder ?str = Forwarding out" "\<not> st_closed ?str" "\<not> chOutCap \<le> length (st_chOut ?str)"
      using 2 by (auto simp: forwardSend_def split: forwarder.splits if_splits)
    show ?thesis
    proof (cases "out_Done out")
      case True
      then obtain st where st: "sm_Finish (st_requestId ?str) (w_state (s_world (schedOf x))) = Some st"
          "str = ?str\<lparr>st_chOut := st_chOut ?str @ [out], st_closed := True, st_forwarder := Returned\<rparr>" "t = sy_tokenizer ?y" "s = updState st (schedOf x)"
        using 2 out by (auto simp: forwardSend_def Let_def split: bind_splits)
      show ?thesis
        using leave [of "st_requestId ?str" st "?str\<lparr>st_chOut := st_chOut ?str @ [out], st_forwarder := Returned\<rparr>"] st(1) out True assms(2)
        by (intro bexI [of _ "sendOutputP i"]) (simp_all add: st sendOutputP_def stream_act_def sendOutput_def sm_Finish_def Let_def)
    next
      case False
      then show ?thesis
        using 2 out assms(2) by (intro bexI [of _ "sendOutputP i"]) (auto simp: sendOutputP_def stream_act_def sendOutput_def forwardSend_def Let_def)
    qed
  next
    case 3
    then obtain st where st: "sm_Cancel (st_requestId ?str) (w_state (s_world (schedOf x))) = Some st" "st_forwarder ?str = Selecting"
        "str = ?str\<lparr>st_closed := True, st_forwarder := Returned\<rparr>" "t = sy_tokenizer ?y" "s = updState st (schedOf x)"
      by (auto simp: forwardCancel_def Let_def split: if_splits bind_splits)
    show ?thesis
      using leave [of "st_requestId ?str" st "?str\<lparr>st_forwarder := Returned\<rparr>"] st(1,2) assms(2)
      by (intro bexI [of _ "cancelP i"]) (simp_all add: st cancelP_def stream_act_def sm_Cancel_def Let_def)
  qed
qed

subsection \<open>Whole operations are runs of their actions\<close>

lemma run_steps:
  "run p x = Some ((), x1) \<Longrightarrow> (go_step env)\<^sup>*\<^sup>* \<lparr>go_shared = x, go_threads = ts @ [(r, p)]\<rparr> \<lparr>go_shared = x1, go_threads = ts\<rparr>"
proof (induction p arbitrary: x)
  case (Done a)
  then show ?case
    using go_step.exit [of "\<lparr>go_shared = x, go_threads = ts @ [(r, Done ())]\<rparr>" ts r "[]" env] by auto
next
  case (Act f)
  then obtain p x2 where f: "f x = Some (p, x2)" "run p x2 = Some ((), x1)"
    by (auto split: option.splits)
  have "go_step env \<lparr>go_shared = x, go_threads = ts @ [(r, Act f)]\<rparr> \<lparr>go_shared = x2, go_threads = ts @ [(r, p)]\<rparr>"
    using go_step.go [of "length ts" "\<lparr>go_shared = x, go_threads = ts @ [(r, Act f)]\<rparr>" r f p x2 env] f(1) by simp
  moreover have "(go_step env)\<^sup>*\<^sup>* \<lparr>go_shared = x2, go_threads = ts @ [(r, p)]\<rparr> \<lparr>go_shared = x1, go_threads = ts\<rparr>"
    using Act.IH [of "Some (p, x2)" "(p, x2)" p x2] f by (auto intro: rangeI dest: sym)
  ultimately show ?case
    by (rule converse_rtranclp_into_rtranclp)
qed

text \<open>A goroutine that starts in an engine at rest and is left alone leaves it at rest.\<close>

lemma alone:
  assumes "go_step env (at_rest y) (spawn r p (at_rest y))" "run p \<lparr>sh_system = y, sh_locks = []\<rparr> = Some ((), \<lparr>sh_system = y1, sh_locks = []\<rparr>)"
  shows "(go_step env)\<^sup>*\<^sup>* (at_rest y) (at_rest y1)"
proof -
  have "(go_step env)\<^sup>*\<^sup>* (spawn r p (at_rest y)) (at_rest y1)"
    using run_steps [OF assms(2), of env "[]" r] by (simp add: spawn_def at_rest_def)
  with assms(1) show ?thesis
    by (rule converse_rtranclp_into_rtranclp)
qed

lemma vacant_at_rest [simp]: "vacant r (at_rest y)"
  by (simp add: vacant_def at_rest_def)

lemma at_rest_simps [simp]:
  "go_shared (at_rest y) = \<lparr>sh_system = y, sh_locks = []\<rparr>" "go_threads (at_rest y) = []"
  by (simp_all add: at_rest_def)

lemma putManager_at_rest: "putManager em (at_rest y) = at_rest (y\<lparr>sy_scheduler := setManagerState em (sy_scheduler y)\<rparr>)"
  by (simp add: putManager_def at_rest_def putSched_def)

lemma setManagerState_same: "setManagerState (em, sm_metrics (w_state (s_world s))) s = s\<lparr>s_executorManager := em\<rparr>"
  by (simp add: setManagerState_def updMetrics_def Let_def)

lemma sys_step_run: "sys_step env y y1 \<Longrightarrow> (go_step env)\<^sup>*\<^sup>* (at_rest y) (at_rest y1)"
proof (induction rule: sys_step.induct)
  case (arrive req y r t s)
  show ?case
    by (rule alone [OF go_step.arrive [of _ _ req]]) (use run_arrive [of "\<lparr>sh_system = y, sh_locks = []\<rparr>" env req r t s] arrive in simp)
next
  case (batch sel signal y s)
  show ?case
    by (rule alone [OF go_step.batch [of _ _ sel signal]])
      (use doesD [OF does_batchTurn, of "\<lparr>sh_system = y, sh_locks = []\<rparr>" sel signal] batch in \<open>simp_all add: putSched_def\<close>)
next
  case (event y s)
  show ?case
    by (rule alone [OF go_step.event])
      (use doesD [OF does_consumeEvent, of "\<lparr>sh_system = y, sh_locks = []\<rparr>"] event in \<open>simp_all add: putSched_def\<close>)
next
  case (forward i y cancelled str t s)
  obtain p where "p \<in> {receiveP env i, sendOutputP i, cancelP i}"
      "run p \<lparr>sh_system = y, sh_locks = []\<rparr> = Some ((), \<lparr>sh_system = y\<lparr>sy_tokenizer := t, sy_scheduler := s, sy_streams := (sy_streams y)[i := str]\<rparr>, sh_locks = []\<rparr>)"
    using run_forward [of "\<lparr>sh_system = y, sh_locks = []\<rparr>" i env cancelled str t s] forward by auto
  then show ?case
    using alone [OF go_step.forward [of i "at_rest y" p]] by simp
next
  case (receive e y x)
  then show ?case
    using go_step.receive [of e "at_rest y" x env] by (simp add: putManager_at_rest managerState_def)
next
  case (execute now rpc e y x)
  then show ?case
    using go_step.execute [of now rpc e "at_rest y" x env] by (simp add: putManager_at_rest managerState_def)
next
  case (send e y em)
  then show ?case
    using go_step.send [of e "at_rest y" em env] by (simp add: putManager_at_rest setManagerState_same)
next
  case (stop e y em)
  then show ?case
    using go_step.stop [of e "at_rest y" em env] by (simp add: putManager_at_rest setManagerState_same)
next
  case (read i y out str)
  then show ?case
    using go_step.read [of i "at_rest y" out str env] by (simp add: at_rest_def)
qed

lemma go_reachable_steps: "(go_step env)\<^sup>*\<^sup>* z z1 \<Longrightarrow> go_reachable env z \<Longrightarrow> go_reachable env z1"
  by (induction rule: rtranclp_induct) (auto intro: go_reachable.step)

lemma sys_reachable_at_rest: "sys_reachable env y \<Longrightarrow> go_reachable env (at_rest y)"
  by (induction rule: sys_reachable.induct) (auto intro: go_reachable.init go_reachable_steps sys_step_run)

end
