(* ===== verification/Program_Safety.thy ===== *)
theory Program_Safety
  imports Program_Runs
begin

text \<open>
  What the engine keeps when its goroutines interleave action by action.  A goroutine between two of its
  actions knows little of the state, but what it knows stays true: who owns a channel, which channels
  have left the table, and what the works in its hands are.
\<close>

subsection \<open>Knowledge\<close>

record knows =
  kn_threshold :: u32
  kn_owner :: "nat \<Rightarrow> string"
  kn_next :: nat
  kn_left :: "nat set"

definition grows :: "knows \<Rightarrow> knows \<Rightarrow> bool" where
  "grows g h \<longleftrightarrow> kn_threshold h = kn_threshold g \<and> kn_next g \<le> kn_next h \<and> (\<forall>c < kn_next g. kn_owner h c = kn_owner g c) \<and>
     kn_left g \<subseteq> kn_left h"

definition state_inv :: "knows \<Rightarrow> state_manager \<Rightarrow> bool" where
  "state_inv g st \<longleftrightarrow> owned (kn_owner g) st \<and> sm_nextChannel st = kn_next g \<and>
     (\<forall>c \<in> kn_left g. c < kn_next g \<and> (\<forall>q. fmlookup (sm_subscribeCh st) q \<noteq> Some c))"

definition sched_inv :: "knows \<Rightarrow> scheduler \<Rightarrow> bool" where
  "sched_inv g s \<longleftrightarrow> sched_ok s \<and> s_longPrefillThreshold s = kn_threshold g \<and> state_inv g (stateOf s)"

definition go_inv :: "knows \<Rightarrow> 'q shared \<Rightarrow> bool" where
  "go_inv g x \<longleftrightarrow> sched_inv g (schedOf x) \<and> (\<forall>str \<in> set (sy_streams (sh_system x)). stream_owned (kn_owner g) (kn_next g) str)"

lemma grows_refl [simp]: "grows g g"
  by (simp add: grows_def)

lemma grows_trans: "grows g h \<Longrightarrow> grows h k \<Longrightarrow> grows g k"
  by (auto simp: grows_def)

interpretation kn: knowledge go_inv grows
  by unfold_locales (auto intro: grows_trans)

lemma stream_owned_grows: "stream_owned (kn_owner g) (kn_next g) str \<Longrightarrow> grows g h \<Longrightarrow> stream_owned (kn_owner h) (kn_next h) str"
  by (auto simp: stream_owned_def grows_def)

text \<open>What a program keeps, and its result.\<close>

abbreviation keeping :: "('a \<Rightarrow> knows \<Rightarrow> bool) \<Rightarrow> ('q shared, 'a) prog \<Rightarrow> knows \<Rightarrow> bool" where
  "keeping \<equiv> rg go_inv grows"

abbreviation safe :: "('q shared, 'a) prog \<Rightarrow> knows \<Rightarrow> bool" where
  "safe \<equiv> keeping (\<lambda>_ _. True)"

definition lasting :: "(knows \<Rightarrow> bool) \<Rightarrow> bool" where
  "lasting P \<longleftrightarrow> (\<forall>g h. P g \<longrightarrow> grows g h \<longrightarrow> P h)"

lemma lastingD: "lasting P \<Longrightarrow> P g \<Longrightarrow> grows g h \<Longrightarrow> P h"
  by (auto simp: lasting_def)

lemma lasting_const [simp]: "lasting (\<lambda>_. b)"
  by (simp add: lasting_def)

lemma lasting_threshold [simp]: "lasting (\<lambda>g. P (kn_threshold g))"
  by (auto simp: lasting_def grows_def)

lemma keeping_done: "(\<And>h. grows g h \<Longrightarrow> Q a h) \<Longrightarrow> keeping Q (Done a) g"
  by (rule rg_done)

lemma keeping_const: "Q \<Longrightarrow> keeping (\<lambda>_ _. Q) (Done a) g"
  by (rule rg_done)

lemma safe_done [simp]: "safe (Done a) g"
  by (rule rg_done) simp

lemma safe_never [simp]: "keeping Q (Act (\<lambda>_. None)) g"
  by (rule rg_act) simp

lemmas keeping_bind = kn.rg_bind

lemma safe_bind: "safe p g \<Longrightarrow> (\<And>a h. grows g h \<Longrightarrow> safe (k a) h) \<Longrightarrow> safe (pbind p k) g"
  by (rule kn.rg_bind)

lemma keeping_safe: "keeping Q p g \<Longrightarrow> safe p g"
  by (rule kn.rg_weaken) auto

subsection \<open>Actions on the scheduler\<close>

lemma keeping_shared:
  assumes "\<And>h s a s1. grows g h \<Longrightarrow> sched_inv h s \<Longrightarrow> f s = Some (a, s1) \<Longrightarrow> \<exists>h1. grows h h1 \<and> sched_inv h1 s1 \<and> Q a h1"
    and "\<And>a. lasting (Q a)"
    and "\<And>x a x1. act_f x = Some (a, x1) \<Longrightarrow> \<exists>s1. f (schedOf x) = Some (a, s1) \<and> schedOf x1 = s1 \<and> sy_streams (sh_system x1) = sy_streams (sh_system x)"
  shows "keeping Q (atomic act_f) g"
proof (rule kn.rg_atomic)
  fix h x a x1 assume h: "grows g h" "go_inv h x" "act_f x = Some (a, x1)"
  obtain s1 where s1: "f (schedOf x) = Some (a, s1)" "schedOf x1 = s1" "sy_streams (sh_system x1) = sy_streams (sh_system x)"
    using assms(3) [OF h(3)] by blast
  obtain h1 where "grows h h1" "sched_inv h1 s1" "Q a h1"
    using assms(1) [OF h(1) _ s1(1)] h(2) by (auto simp: go_inv_def)
  then show "\<exists>h1. grows h h1 \<and> go_inv h1 x1 \<and> Q a h1"
    using h(2) s1 stream_owned_grows by (intro exI [of _ h1]) (auto simp: go_inv_def)
qed (use assms(2) in \<open>auto dest: lastingD\<close>)

lemma keeping_act:
  assumes "\<And>h s a s1. grows g h \<Longrightarrow> sched_inv h s \<Longrightarrow> f s = Some (a, s1) \<Longrightarrow> \<exists>h1. grows h h1 \<and> sched_inv h1 s1 \<and> Q a h1"
    and "\<And>a. lasting (Q a)"
  shows "keeping Q (sched_act f) g" "keeping Q (unlocked kd e f) g"
  unfolding sched_act_def unlocked_def
  by (rule keeping_shared [of g f, OF assms(1) assms(2)]; auto split: if_splits)+

text \<open>An action after which no more is known of the channels.\<close>

lemma keeping_same:
  assumes "\<And>s a s1. sched_ok s \<Longrightarrow> f s = Some (a, s1) \<Longrightarrow> sched_ok s1 \<and> s_longPrefillThreshold s1 = s_longPrefillThreshold s \<and>
      (\<forall>g. state_inv g (stateOf s) \<longrightarrow> state_inv g (stateOf s1)) \<and> Q a (s_longPrefillThreshold s)"
  shows "keeping (\<lambda>a g. Q a (kn_threshold g)) (sched_act f) g" "keeping (\<lambda>a g. Q a (kn_threshold g)) (unlocked kd e f) g"
proof -
  have *: "\<exists>h1. grows h h1 \<and> sched_inv h1 s1 \<and> Q a (kn_threshold h1)" if "sched_inv h s" "f s = Some (a, s1)" for h s a s1
    using assms [of s a s1] that by (intro exI [of _ h]) (simp add: sched_inv_def)
  show "keeping (\<lambda>a g. Q a (kn_threshold g)) (sched_act f) g" "keeping (\<lambda>a g. Q a (kn_threshold g)) (unlocked kd e f) g"
    by (rule keeping_act; use * in auto)+
qed

lemma keeping_keeps:
  assumes "\<And>s a s1. sched_ok s \<Longrightarrow> f s = Some (a, s1) \<Longrightarrow> keeps s s1 \<and>
      (\<forall>g. state_inv g (stateOf s) \<longrightarrow> state_inv g (stateOf s1)) \<and> Q a (s_longPrefillThreshold s)"
  shows "keeping (\<lambda>a g. Q a (kn_threshold g)) (sched_act f) g" "keeping (\<lambda>a g. Q a (kn_threshold g)) (unlocked kd e f) g"
proof -
  have *: "sched_ok s1 \<and> s_longPrefillThreshold s1 = s_longPrefillThreshold s \<and>
      (\<forall>g. state_inv g (stateOf s) \<longrightarrow> state_inv g (stateOf s1)) \<and> Q a (s_longPrefillThreshold s)" if "sched_ok s" "f s = Some (a, s1)" for s a s1
    using assms [OF that] keeps_ok [OF _ that(1)] by (auto simp: keeps_def same_setup_def)
  show "keeping (\<lambda>a g. Q a (kn_threshold g)) (sched_act f) g" "keeping (\<lambda>a g. Q a (kn_threshold g)) (unlocked kd e f) g"
    by (rule keeping_same [of f Q]; use * in blast)+
qed

lemma state_inv_frame [simp]:
  "state_inv g (st\<lparr>sm_blockRegistry := reg\<rparr>) \<longleftrightarrow> state_inv g st" "state_inv g (st\<lparr>sm_metrics := m\<rparr>) \<longleftrightarrow> state_inv g st"
  by (simp_all add: state_inv_def)

lemma safe_get: "safe (sched_get f) g"
  by (rule keeping_keeps(1) [where Q = "\<lambda>_ _. True"]) auto

lemma safe_metrics: "safe (sched_put (updMetrics f)) g"
  by (rule keeping_keeps(1) [where Q = "\<lambda>_ _. True"]) auto

lemma safe_registry: "safe (registryP f) g"
  unfolding registryP_def by (rule keeping_keeps(1) [where Q = "\<lambda>_ _. True"]) auto

lemma safe_length: "safe (lengthP kd e) g"
  unfolding lengthP_def by (rule keeping_keeps(2) [where Q = "\<lambda>_ _. True"]) auto

subsection \<open>The request manager\<close>

lemma keeping_state:
  assumes "\<And>h now uuid st a st1. grows g h \<Longrightarrow> state_inv h st \<Longrightarrow> f now uuid st = Some (a, st1) \<Longrightarrow> \<exists>h1. grows h h1 \<and> state_inv h1 st1 \<and> Q a h1"
    and "\<And>a. lasting (Q a)"
  shows "keeping Q (timed f) g"
  unfolding timed_def
proof (rule keeping_act(1) [OF _ assms(2)])
  fix h s a s1 assume h: "grows g h" "sched_inv h s"
    "(let w = s_world s in map_option (\<lambda>(a, st). (a, s\<lparr>s_world := w_advance st w\<rparr>)) (f (w_now w) (w_fresh w) (w_state w))) = Some (a, s1)"
  then obtain st where st: "f (w_now (s_world s)) (w_fresh (s_world s)) (stateOf s) = Some (a, st)" "s1 = s\<lparr>s_world := w_advance st (s_world s)\<rparr>"
    by (auto simp: Let_def)
  obtain h1 where h1: "grows h h1" "state_inv h1 st" "Q a h1"
    using assms(1) [OF h(1) _ st(1)] h(2) by (auto simp: sched_inv_def)
  have "sched_ok s1"
    using keeps_ok [OF keeps_world_simps(4)] h(2) by (simp add: st(2) sched_inv_def)
  then show "\<exists>h1. grows h h1 \<and> sched_inv h1 s1 \<and> Q a h1"
    using h1 h(2) by (intro exI [of _ h1]) (simp add: sched_inv_def st(2) grows_def)
qed

lemma keeping_untimed:
  assumes "\<And>h st a st1. grows g h \<Longrightarrow> state_inv h st \<Longrightarrow> f st = Some (a, st1) \<Longrightarrow> \<exists>h1. grows h h1 \<and> state_inv h1 st1 \<and> Q a h1"
    and "\<And>a. lasting (Q a)"
  shows "keeping Q (untimed f) g"
  unfolding untimed_def
proof (rule keeping_act(1) [OF _ assms(2)])
  fix h s a s1 assume h: "grows g h" "sched_inv h s" "map_option (\<lambda>(a, st). (a, updState st s)) (f (stateOf s)) = Some (a, s1)"
  then obtain st where st: "f (stateOf s) = Some (a, st)" "s1 = updState st s"
    by auto
  obtain h1 where h1: "grows h h1" "state_inv h1 st" "Q a h1"
    using assms(1) [OF h(1) _ st(1)] h(2) by (auto simp: sched_inv_def)
  have "sched_ok s1"
    using keeps_ok [OF keeps_world_simps(3)] h(2) by (simp add: st(2) sched_inv_def)
  then show "\<exists>h1. grows h h1 \<and> sched_inv h1 s1 \<and> Q a h1"
    using h1 h(2) by (intro exI [of _ h1]) (simp add: sched_inv_def st(2) grows_def, simp add: updState_def)
qed

text \<open>The channel an event may be sent to, and one that may be closed.\<close>

definition owns :: "nat \<Rightarrow> string \<Rightarrow> knows \<Rightarrow> bool" where
  "owns c q g \<longleftrightarrow> c < kn_next g \<and> kn_owner g c = q"

definition last_ok :: "(nat \<times> Event) option \<Rightarrow> knows \<Rightarrow> bool" where
  "last_ok r g \<longleftrightarrow> (\<forall>c e. r = Some (c, e) \<longrightarrow> owns c (ev_RequestId e) g \<and> c \<in> kn_left g)"

lemma lasting_owns: "lasting (owns c q)"
  by (auto simp: lasting_def owns_def grows_def)

lemma lasting_left: "lasting (\<lambda>g. c \<in> kn_left g)"
  by (auto simp: lasting_def grows_def)

lemma lasting_last: "lasting (last_ok r)"
  using lasting_owns lasting_left unfolding last_ok_def lasting_def by blast

lemma lasting_conj: "lasting P \<Longrightarrow> lasting Q \<Longrightarrow> lasting (\<lambda>g. P g \<and> Q g)"
  by (auto simp: lasting_def)

lemma subscribed_owns: "state_inv g st \<Longrightarrow> fmlookup (sm_subscribeCh st) q = Some c \<Longrightarrow> owns c q g"
  unfolding state_inv_def owns_def by (metis owned_def)

text \<open>A channel that leaves the table is known to have left.\<close>

definition left_with :: "nat option \<Rightarrow> knows \<Rightarrow> knows" where
  "left_with c g = g\<lparr>kn_left := set_option c \<union> kn_left g\<rparr>"

lemma left_with_simps [simp]: "grows g (left_with c g)" "kn_owner (left_with c g) = kn_owner g" "kn_next (left_with c g) = kn_next g"
  by (auto simp: left_with_def grows_def)

lemma state_inv_leave:
  assumes "state_inv g st" "owned (kn_owner g) st1" "sm_nextChannel st1 = sm_nextChannel st" "sm_subscribeCh st1 = fmdrop q (sm_subscribeCh st)"
  shows "state_inv (left_with (fmlookup (sm_subscribeCh st) q) g) st1"
proof -
  have o: "owned (kn_owner g) st"
    using assms(1) by (simp add: state_inv_def)
  have "c < kn_next g \<and> (\<forall>p. fmlookup (sm_subscribeCh st1) p \<noteq> Some c)" if "fmlookup (sm_subscribeCh st) q = Some c" for c
    unfolding assms(4) using subscribed_owns [OF assms(1) that] owned_left(2) [OF o that] by (simp add: owns_def del: fmlookup_drop)
  moreover have "c < kn_next g \<and> (\<forall>p. fmlookup (sm_subscribeCh st1) p \<noteq> Some c)" if "c \<in> kn_left g" for c
    using assms(1,4) that by (simp add: state_inv_def)
  ultimately show ?thesis
    using assms(1-3) by (auto simp: state_inv_def left_with_def)
qed

lemma last_ok_left:
  "state_inv g st \<Longrightarrow> last_ok (map_option (\<lambda>c. (c, failEvent now uuid q err)) (fmlookup (sm_subscribeCh st) q)) (left_with (fmlookup (sm_subscribeCh st) q) g)"
  using subscribed_owns [of g st q] by (auto simp: last_ok_def owns_def left_with_def failEvent_def)

lemma safe_send: "owns c (ev_RequestId e) g \<Longrightarrow> safe (sendP c e) g"
  unfolding sendP_def
proof (rule keeping_untimed)
  fix h st a st1 assume o: "owns c (ev_RequestId e) g" "grows g h" and h: "state_inv h st" "map_option (Pair ()) (chan_send c e st) = Some (a, st1)"
  have "owns c (ev_RequestId e) h"
    by (rule lastingD [OF lasting_owns o])
  then have "owned (kn_owner h) st1 \<and> sm_nextChannel st1 = sm_nextChannel st \<and> sm_subscribeCh st1 = sm_subscribeCh st"
    using owned_send [of "kn_owner h" st c e st1] h by (auto simp: state_inv_def owns_def)
  then show "\<exists>h1. grows h h1 \<and> state_inv h1 st1 \<and> True"
    using h(1) by (intro exI [of _ h]) (simp add: state_inv_def)
qed simp

lemma chan_close_subscribed: "chan_close c st = Some st1 \<Longrightarrow> sm_subscribeCh st1 = sm_subscribeCh st"
  by (auto simp: chan_close_def split: option.splits if_splits)

lemma safe_close: "c \<in> kn_left g \<Longrightarrow> safe (closeP c) g"
  unfolding closeP_def
proof (rule keeping_untimed)
  fix h st a st1 assume o: "c \<in> kn_left g" "grows g h" and h: "state_inv h st" "map_option (Pair ()) (chan_close c st) = Some (a, st1)"
  have "c \<in> kn_left h"
    by (rule lastingD [OF lasting_left o])
  then have "owned (kn_owner h) st1 \<and> sm_nextChannel st1 = sm_nextChannel st"
    using owned_close [of "kn_owner h" st c st1] h by (auto simp: state_inv_def)
  then show "\<exists>h1. grows h h1 \<and> state_inv h1 st1 \<and> True"
    using h chan_close_subscribed [of c st st1] by (intro exI [of _ h]) (auto simp: state_inv_def)
qed simp

lemma safe_notify: "last_ok r g \<Longrightarrow> safe (notifyP r) g"
proof (cases r)
  case (Some ce)
  assume l: "last_ok r g"
  obtain c e where r: "r = Some (c, e)"
    using Some by (cases ce) simp
  have c: "owns c (ev_RequestId e) g" "c \<in> kn_left g"
    using l by (simp_all add: last_ok_def r)
  show ?thesis
    unfolding r notifyP.simps by (rule safe_bind [OF safe_send [OF c(1)]]) (rule safe_close [OF lastingD [OF lasting_left c(2)]])
qed simp

lemma safe_fail: "safe (failP q err) g"
  unfolding failP_def
proof (rule keeping_bind [where Q = last_ok])
  show "keeping last_ok (timed (\<lambda>now uuid st. map_option (\<lambda>(subCh, st1). (map_option (\<lambda>c. (c, failEvent now uuid q err)) subCh, st1)) (leaveLocked q st))) g"
  proof (rule keeping_state [OF _ lasting_last])
    fix h now uuid st a st1 assume h: "state_inv h st"
      "map_option (\<lambda>(subCh, st1). (map_option (\<lambda>c. (c, failEvent now uuid q err)) subCh, st1)) (leaveLocked q st) = Some (a, st1)"
    then obtain subCh where l: "leaveLocked q st = Some (subCh, st1)" "a = map_option (\<lambda>c. (c, failEvent now uuid q err)) subCh"
      by auto
    have "owned (kn_owner h) st"
      using h(1) by (simp add: state_inv_def)
    note o = owned_leave [OF this l(1)]
    then have "state_inv (left_with (fmlookup (sm_subscribeCh st) q) h) st1" "last_ok a (left_with (fmlookup (sm_subscribeCh st) q) h)"
      using state_inv_leave [OF h(1)] last_ok_left [OF h(1)] l(2) by simp_all
    then show "\<exists>h1. grows h h1 \<and> state_inv h1 st1 \<and> last_ok a h1"
      using left_with_simps(1) by blast
  qed
qed (rule safe_notify)

lemma safe_canSchedule: "safe (canScheduleP work) g"
  unfolding canScheduleP_def
proof (rule keeping_bind [where Q = "\<lambda>(ok, fin). last_ok fin"])
  show "keeping (\<lambda>(ok, fin). last_ok fin) (timed (\<lambda>now uuid. canScheduleLocked now uuid work)) g"
  proof (rule keeping_state)
    fix h now uuid st a st1 assume h: "state_inv h st" "canScheduleLocked now uuid work st = Some (a, st1)"
    let ?q = "wk_RequestId work"
    show "\<exists>h1. grows h h1 \<and> state_inv h1 st1 \<and> (case a of (ok, fin) \<Rightarrow> last_ok fin) h1"
    proof (cases "st1 = st \<and> snd a = None")
      case True
      then show ?thesis
        using h(1) by (intro exI [of _ h]) (auto simp: last_ok_def)
    next
      case False
      then obtain rq where d: "fmlookup (sm_requests st) ?q = Some rq" "deleteRequest ?q st = Some st1"
          "a = (False, map_option (\<lambda>c. (c, failEvent now uuid ?q (Some (errors_New CodeRequestTimeout ''request timeout'')))) (fmlookup (sm_subscribeCh st) ?q))"
        using h(2) by (auto simp: canScheduleLocked_def Let_def split: option.splits if_splits bind_splits)
      have "owned (kn_owner h) st"
        using h(1) by (simp add: state_inv_def)
      note o = owned_delete [OF this d(1,2)]
      have "state_inv (left_with (fmlookup (sm_subscribeCh st) ?q) h) st1" "last_ok (snd a) (left_with (fmlookup (sm_subscribeCh st) ?q) h)"
        using state_inv_leave [OF h(1)] o last_ok_left [OF h(1)] by (simp_all add: d(3))
      then show ?thesis
        by (intro exI [of _ "left_with (fmlookup (sm_subscribeCh st) ?q) h"]) (simp add: split_beta)
    qed
  qed (simp add: lasting_last split_beta)
next
  fix a h assume "(case a of (ok, fin) \<Rightarrow> last_ok fin) h"
  then show "safe (case a of (ok, fin) \<Rightarrow> pthen (notifyP fin) (Done ok)) h"
    by (cases a) (auto intro!: safe_bind safe_notify)
qed

lemma safe_leave: "safe (leaveP q) g"
  unfolding leaveP_def
proof (rule keeping_bind [where Q = "\<lambda>subCh g. \<forall>c. subCh = Some c \<longrightarrow> c \<in> kn_left g"])
  show "keeping (\<lambda>subCh g. \<forall>c. subCh = Some c \<longrightarrow> c \<in> kn_left g) (untimed (leaveLocked q)) g"
  proof (rule keeping_untimed)
    fix h st subCh st1 assume h: "state_inv h st" "leaveLocked q st = Some (subCh, st1)"
    have "owned (kn_owner h) st"
      using h(1) by (simp add: state_inv_def)
    note o = owned_leave [OF this h(2)]
    then have "state_inv (left_with (fmlookup (sm_subscribeCh st) q) h) st1"
      using state_inv_leave [OF h(1)] by simp
    then show "\<exists>h1. grows h h1 \<and> state_inv h1 st1 \<and> (\<forall>c. subCh = Some c \<longrightarrow> c \<in> kn_left h1)"
      using o by (intro exI [of _ "left_with (fmlookup (sm_subscribeCh st) q) h"]) (auto simp: left_with_def grows_def)
  qed (auto simp: lasting_def grows_def)
qed (auto intro: safe_close split: option.split)

lemma keeping_onEvent: "keeping (\<lambda>(items, e1) _. \<forall>w \<in> set items. prefill_item w \<or> decode_item w) (onEventP e) g"
  unfolding onEventP_def
proof (rule keeping_bind [where Q = "\<lambda>r _. \<forall>e1 items. r = Some (e1, items) \<longrightarrow> (\<forall>w \<in> set items. prefill_item w \<or> decode_item w)"])
  show "keeping (\<lambda>r _. \<forall>e1 items. r = Some (e1, items) \<longrightarrow> (\<forall>w \<in> set items. prefill_item w \<or> decode_item w))
      (timed (\<lambda>now uuid. onEventLocked now uuid e)) g"
  proof (rule keeping_state)
    fix h now uuid st a st1 assume h: "state_inv h st" "onEventLocked now uuid e st = Some (a, st1)"
    show "\<exists>h1. grows h h1 \<and> state_inv h1 st1 \<and> (\<forall>e1 items. a = Some (e1, items) \<longrightarrow> (\<forall>w \<in> set items. prefill_item w \<or> decode_item w))"
    proof (cases "fmlookup (sm_requests st) (ev_RequestId e)")
      case None
      then show ?thesis
        using h by (intro exI [of _ h]) (simp add: onEventLocked_def)
    next
      case (Some rq)
      then obtain rq1 e1 items where a: "applyEvent now uuid e rq = Some (rq1, e1, items)" "a = Some (e1, items)"
          "st1 = st\<lparr>sm_requests := fmupd (ev_RequestId e) rq1 (sm_requests st)\<rparr>"
        using h(2) by (auto simp: onEventLocked_def split: bind_splits)
      have "owned (kn_owner h) st1"
        using h(1) Some applyEvent_keeps(1) [OF a(1)] map_len_replace [OF Some] fmdomI [OF Some]
        by (auto simp: a(3) state_inv_def owned_def finsert_absorb)
      then show ?thesis
        using h(1) applyEvent_items [OF a(1)] by (intro exI [of _ h]) (auto simp: state_inv_def a(2,3))
    qed
  qed simp
next
  fix r :: "(Event \<times> WorkItem list) option" and h assume r: "\<forall>e1 items. r = Some (e1, items) \<longrightarrow> (\<forall>w \<in> set items. prefill_item w \<or> decode_item w)"
  show "keeping (\<lambda>(items, e1) _. \<forall>w \<in> set items. prefill_item w \<or> decode_item w) (case r of
     None \<Rightarrow> Done ([], e)
   | Some (e1, items) \<Rightarrow> pbind (untimed (\<lambda>st. Some (fmlookup (sm_subscribeCh st) (ev_RequestId e1), st))) (\<lambda>subCh. case subCh of
         None \<Rightarrow> Done (items, e1)
       | Some c \<Rightarrow> pthen (sendP c e1) (Done (items, e1)))) h"
  proof (cases r)
    case None
    then show ?thesis
      by (simp add: keeping_done)
  next
    case (Some ei)
    obtain e1 items where ei: "r = Some (e1, items)"
      using Some by (cases ei) simp
    then have items: "\<forall>w \<in> set items. prefill_item w \<or> decode_item w"
      using r by blast
    have "keeping (\<lambda>subCh g. \<forall>c. subCh = Some c \<longrightarrow> owns c (ev_RequestId e1) g)
        (untimed (\<lambda>st. Some (fmlookup (sm_subscribeCh st) (ev_RequestId e1), st))) h"
    proof (rule keeping_untimed)
      fix k st subCh st1 assume k: "state_inv k st" "Some (fmlookup (sm_subscribeCh st) (ev_RequestId e1), st) = Some (subCh, st1)"
      then show "\<exists>k1. grows k k1 \<and> state_inv k1 st1 \<and> (\<forall>c. subCh = Some c \<longrightarrow> owns c (ev_RequestId e1) k1)"
        using subscribed_owns [OF k(1)] by (intro exI [of _ k]) auto
    qed (use lasting_owns in \<open>auto simp: lasting_def\<close>)
    then show ?thesis
      unfolding ei option.case prod.case
      by (rule keeping_bind) (use items in \<open>auto split: option.split intro!: keeping_done keeping_bind [OF safe_send]\<close>)
  qed
qed

subsection \<open>Registration\<close>

lemma state_inv_create:
  assumes i: "state_inv g st" and c: "sm_Create now uuid req st = Some (r, st1)"
  shows "\<exists>h. grows g h \<and> state_inv h st1 \<and> (\<forall>work. r = Inr work \<longrightarrow> wk_RequestId work = rq_RequestId req)"
proof -
  let ?h = "g\<lparr>kn_owner := (kn_owner g)(kn_next g := rq_RequestId req), kn_next := sm_nextChannel st1\<rparr>"
  have o: "owned (kn_owner g) st" and n: "sm_nextChannel st = kn_next g"
    using i by (simp_all add: state_inv_def)
  note oc = owned_create [OF o c, unfolded n]
  have "\<forall>q d. fmlookup (sm_subscribeCh st1) q = Some d \<longrightarrow> fmlookup (sm_subscribeCh st) q = Some d \<or> d = kn_next g"
    using c by (cases rule: sm_CreateE) (simp_all add: opened_def n)
  then have "state_inv ?h st1"
    using i oc by (fastforce simp: state_inv_def)
  moreover have "grows g ?h"
    using oc by (simp add: grows_def)
  ultimately show ?thesis
    using oc by blast
qed

subsection \<open>Queues\<close>

fun fits :: "queue_kind \<Rightarrow> string \<Rightarrow> u32 \<Rightarrow> WorkItem \<Rightarrow> bool" where
  "fits SmallQueue e thr w \<longleftrightarrow> prefill_item w \<and> wk_ExecutorID w = e \<and> wk_TokenCntTotal w \<le> thr"
| "fits LargeQueue e thr w \<longleftrightarrow> prefill_item w \<and> wk_ExecutorID w = e \<and> thr < wk_TokenCntTotal w"
| "fits DecodeQueue e thr w \<longleftrightarrow> decode_item w \<and> wk_ExecutorID w = e"

lemma routed_fits: "routed s \<Longrightarrow> worksIn kd e s = Some ws \<Longrightarrow> \<forall>w \<in> set ws. fits kd e (s_longPrefillThreshold s) w"
  by (cases kd) (auto dest: routedD)

lemma fits_item: "fits kd e thr w \<Longrightarrow> item_of e w"
  by (cases kd) (auto simp: item_of_def)

lemma fits_queueOf: "item_of e w \<Longrightarrow> fits (queueOf w s) e (s_longPrefillThreshold s) w"
  by (auto simp: item_of_def queueOf_def prefill_item_def decode_item_def not_le)

lemma tl_subset: "w \<in> set (tl ws) \<Longrightarrow> w \<in> set ws"
  by (cases ws) auto

lemma dropHead_setup: "same_setup s (dropHead kd e s)" "s_executorManager (dropHead kd e s) = s_executorManager s" "s_world (dropHead kd e s) = s_world s"
  by (cases kd; simp add: same_setup_def split: option.split)+

lemma dropHead_works:
  "set (smallWorks (dropHead kd e s) k) \<subseteq> set (smallWorks s k)" "set (largeWorks (dropHead kd e s) k) \<subseteq> set (largeWorks s k)"
  "set (decodeWorks (dropHead kd e s) k) \<subseteq> set (decodeWorks s k)"
  by (cases kd; auto simp: works_defs tailPrefill_def split: option.split dest: tl_subset)+

lemma keeps_dropHead: "keeps s (dropHead kd e s)"
proof -
  have "routed (dropHead kd e s)" if "routed s"
    using that dropHead_works [of kd e s] dropHead_setup(1) [of s kd e] unfolding routed_def same_setup_def by (metis subsetD)
  moreover have "has_queues (dropHead kd e s)" if "has_queues s"
    using that by (cases kd) (auto simp: has_queues_def tailPrefill_def split: option.split)
  ultimately show ?thesis
    by (simp add: keeps_def dropHead_setup)
qed

lemma keeping_dropHead: "safe (sched_put (dropHead kd e)) g"
  by (rule keeping_keeps(1) [where Q = "\<lambda>_ _. True"]) (auto simp: keeps_dropHead dropHead_setup)

lemma keeping_lock: "keeping (\<lambda>ws g. \<forall>w \<in> set ws. fits kd e (kn_threshold g) w) (lockP kd e (worksIn kd e)) g"
  unfolding lockP_def
proof (rule keeping_shared [where f = "\<lambda>s. map_option (\<lambda>ws. (ws, s)) (worksIn kd e s)"])
  fix h s ws s1 assume "sched_inv h s" "map_option (\<lambda>ws. (ws, s)) (worksIn kd e s) = Some (ws, s1)"
  then show "\<exists>h1. grows h h1 \<and> sched_inv h1 s1 \<and> (\<forall>w \<in> set ws. fits kd e (kn_threshold h1) w)"
    using routed_fits [of s kd e ws] by (intro exI [of _ h]) (auto simp: sched_inv_def sched_ok_def)
next
  show "lasting (\<lambda>g. \<forall>w \<in> set ws. fits kd e (kn_threshold g) w)" for ws
    by (rule lasting_threshold)
qed (auto split: if_splits)

lemma keeping_unlock: "safe (unlockP kd e) g"
  unfolding unlockP_def by (rule keeping_shared [where f = "\<lambda>s. Some ((), s)"]) (auto intro: grows_refl)

text \<open>The works taken from a queue belong in it.\<close>

abbreviation taken_ok :: "queue_kind \<Rightarrow> string \<Rightarrow> WorkItem option \<Rightarrow> knows \<Rightarrow> bool" where
  "taken_ok kd e r g \<equiv> \<forall>w. r = Some w \<longrightarrow> fits kd e (kn_threshold g) w"

lemma grows_threshold: "grows g h \<Longrightarrow> kn_threshold h = kn_threshold g"
  by (simp add: grows_def)

lemma keeping_popLoop: "\<forall>w \<in> set ws. fits kd e (kn_threshold g) w \<Longrightarrow> keeping (taken_ok kd e) (popLoopP kd e ws) g"
proof (induction ws arbitrary: g)
  case (Cons w ws)
  show ?case
    unfolding popLoopP.simps by (rule keeping_bind [OF keeping_dropHead], rule keeping_bind [OF safe_canSchedule])
      (use Cons in \<open>auto intro!: keeping_done Cons.IH simp: grows_threshold\<close>)
qed (simp add: keeping_done)

lemma keeping_pop: "keeping (taken_ok kd e) (popP kd e) g"
  unfolding popP_def
  by (rule keeping_bind [OF keeping_lock], rule keeping_bind [OF keeping_popLoop], assumption, rule keeping_bind [OF keeping_unlock], rule keeping_done)
    (auto simp: grows_threshold)

lemma keeping_peekLoop: "\<forall>w \<in> set ws. fits kd e (kn_threshold g) w \<Longrightarrow> keeping (taken_ok kd e) (peekLoopP kd e ws) g"
proof (induction ws arbitrary: g)
  case (Cons w ws)
  show ?case
    unfolding peekLoopP.simps by (rule keeping_bind [OF safe_canSchedule])
      (use Cons in \<open>auto intro!: keeping_done keeping_bind [OF keeping_dropHead] Cons.IH simp: grows_threshold\<close>)
qed (simp add: keeping_done)

lemma keeping_peek: "keeping (taken_ok kd e) (peekP kd e) g"
  unfolding peekP_def
  by (rule keeping_bind [OF keeping_lock], rule keeping_bind [OF keeping_peekLoop], assumption, rule keeping_bind [OF keeping_unlock], rule keeping_done)
    (auto simp: grows_threshold)

lemma keeping_dequeueLoop:
  "\<forall>w \<in> set ws. fits DecodeQueue e (kn_threshold g) w \<Longrightarrow> keeping (\<lambda>taken _. \<forall>w \<in> set taken. decode_item w \<and> wk_ExecutorID w = e) (dequeueLoopP n e ws) g"
proof (induction n e ws arbitrary: g rule: dequeueLoopP.induct)
  case (3 n e w ws)
  show ?case
    unfolding dequeueLoopP.simps by (rule keeping_bind [OF keeping_dropHead], rule keeping_bind [OF safe_canSchedule], rule keeping_bind [OF "3.IH"])
      (use "3.prems" in \<open>auto intro!: keeping_done\<close>)
qed (simp_all add: keeping_done)

lemma keeping_dequeue: "keeping (\<lambda>(taken, n) _. \<forall>w \<in> set taken. decode_item w \<and> wk_ExecutorID w = e) (dequeueP k e) g"
  unfolding dequeueP_def
  by (rule keeping_bind [OF keeping_lock], rule keeping_bind [OF keeping_dequeueLoop], assumption, rule keeping_bind [OF keeping_unlock], rule keeping_done) simp

text \<open>A work that joins the queue it belongs in.\<close>

lemma keeps_joined:
  assumes "joined w s s1" "item_of e w" "same_setup s s1" "s_executorManager s1 = s_executorManager s" "has_queues s \<Longrightarrow> has_queues s1"
  shows "keeps s s1"
proof -
  have "s_longPrefillThreshold s1 = s_longPrefillThreshold s"
    using assms(3) by (simp add: same_setup_def)
  then have "routed s \<Longrightarrow> routed s1"
    using joined_routed [OF assms(1)] assms(2) unfolding item_of_def by blast
  then show ?thesis
    using assms(3-5) unfolding keeps_def by blast
qed

lemma joinedI:
  assumes "fits kd (wk_ExecutorID w) (s_longPrefillThreshold s) w"
    and "smallWorks s1 = (if kd = SmallQueue then (smallWorks s)(wk_ExecutorID w := smallWorks s (wk_ExecutorID w) @ [w]) else smallWorks s)"
    "largeWorks s1 = (if kd = LargeQueue then (largeWorks s)(wk_ExecutorID w := largeWorks s (wk_ExecutorID w) @ [w]) else largeWorks s)"
    "decodeWorks s1 = (if kd = DecodeQueue then (decodeWorks s)(wk_ExecutorID w := decodeWorks s (wk_ExecutorID w) @ [w]) else decodeWorks s)"
  shows "joined w s s1"
proof -
  let ?pre = "wk_Phase w = WorkPhasePrefill" and ?small = "wk_TokenCntTotal w \<le> s_longPrefillThreshold s"
  have "(kd = SmallQueue) = (?pre \<and> ?small) \<and> (kd = LargeQueue) = (?pre \<and> s_longPrefillThreshold s < wk_TokenCntTotal w) \<and>
      (kd = DecodeQueue) = (wk_Phase w = WorkPhaseDecode)"
  proof (cases kd)
    case LargeQueue
    then have "?pre" and lt: "s_longPrefillThreshold s < wk_TokenCntTotal w"
      using assms(1) by (simp_all add: prefill_item_def)
    moreover have "\<not> ?small"
      using lt by (simp only: not_le)
    ultimately show ?thesis
      using LargeQueue by simp
  next
    case SmallQueue
    then have "?pre" and le: "?small"
      using assms(1) by (simp_all add: prefill_item_def)
    moreover have "\<not> s_longPrefillThreshold s < wk_TokenCntTotal w"
      using le by (simp only: not_less)
    ultimately show ?thesis
      using SmallQueue by simp
  qed (use assms(1) in \<open>simp_all add: prefill_item_def decode_item_def\<close>)
  with assms(2-4) show ?thesis
    unfolding joined_def Let_def by (simp only:)
qed

text \<open>Both ways of joining a queue put the work last.\<close>

definition put_last :: "queue_kind \<Rightarrow> WorkItem \<Rightarrow> scheduler \<Rightarrow> scheduler \<Rightarrow> bool" where
  "put_last kd w s s1 \<longleftrightarrow> (let e = wk_ExecutorID w in case kd of
     SmallQueue \<Rightarrow> (\<exists>q. fmlookup (s_prefillSmall s) e = Some q \<and> s1 = s\<lparr>s_prefillSmall := fmupd e (q\<lparr>pq_works := pq_works q @ [w]\<rparr>) (s_prefillSmall s)\<rparr>)
   | LargeQueue \<Rightarrow> (\<exists>q. fmlookup (s_prefillLarge s) e = Some q \<and> s1 = s\<lparr>s_prefillLarge := fmupd e (q\<lparr>pq_works := pq_works q @ [w]\<rparr>) (s_prefillLarge s)\<rparr>)
   | DecodeQueue \<Rightarrow> (\<exists>q. fmlookup (s_decode s) e = Some q \<and> s1 = s\<lparr>s_decode := fmupd e (q\<lparr>dq_works := dq_works q @ [newEntry w]\<rparr>) (s_decode s)\<rparr>))"

lemma admit_put_last: "admitWork kd w s = (err, s1) \<Longrightarrow> s1 = s \<or> put_last kd w s s1"
  by (cases kd) (auto simp: put_last_def Let_def pq_Enqueue_def dq_Enqueue_def split: option.splits prod.splits if_splits)

lemma return_put_last: "returnWork kd w s = (err, s1) \<Longrightarrow> s1 = s \<or> put_last kd w s s1"
  by (cases kd) (auto simp: put_last_def Let_def pq_Requeue_def dq_Requeue_def split: option.splits)

lemma keeps_put_last:
  assumes "put_last kd w s s1" "fits kd (wk_ExecutorID w) (s_longPrefillThreshold s) w"
  shows "keeps s s1" "s_world s1 = s_world s"
proof -
  have "s_world s1 = s_world s \<and> same_setup s s1 \<and> s_executorManager s1 = s_executorManager s \<and> (has_queues s \<longrightarrow> has_queues s1) \<and> joined w s s1"
  proof (cases kd)
    case SmallQueue
    then obtain q where q: "fmlookup (s_prefillSmall s) (wk_ExecutorID w) = Some q"
        "s1 = s\<lparr>s_prefillSmall := fmupd (wk_ExecutorID w) (q\<lparr>pq_works := pq_works q @ [w]\<rparr>) (s_prefillSmall s)\<rparr>"
      using assms(1) by (auto simp: put_last_def Let_def)
    have "joined w s s1"
      by (rule joinedI [OF assms(2)]) (simp_all add: q SmallQueue works_defs fun_eq_iff)
    then show ?thesis
      using q(1) by (auto simp: q(2) same_setup_def has_queues_def)
  next
    case LargeQueue
    then obtain q where q: "fmlookup (s_prefillLarge s) (wk_ExecutorID w) = Some q"
        "s1 = s\<lparr>s_prefillLarge := fmupd (wk_ExecutorID w) (q\<lparr>pq_works := pq_works q @ [w]\<rparr>) (s_prefillLarge s)\<rparr>"
      using assms(1) by (auto simp: put_last_def Let_def)
    have "joined w s s1"
      by (rule joinedI [OF assms(2)]) (simp_all add: q LargeQueue works_defs fun_eq_iff)
    then show ?thesis
      using q(1) by (auto simp: q(2) same_setup_def has_queues_def)
  next
    case DecodeQueue
    then obtain q where q: "fmlookup (s_decode s) (wk_ExecutorID w) = Some q"
        "s1 = s\<lparr>s_decode := fmupd (wk_ExecutorID w) (q\<lparr>dq_works := dq_works q @ [newEntry w]\<rparr>) (s_decode s)\<rparr>"
      using assms(1) by (auto simp: put_last_def Let_def)
    have "joined w s s1"
      by (rule joinedI [OF assms(2)]) (simp_all add: q DecodeQueue works_defs fun_eq_iff newEntry_def)
    then show ?thesis
      using q(1) by (auto simp: q(2) same_setup_def has_queues_def)
  qed
  then show "keeps s s1" "s_world s1 = s_world s"
    using keeps_joined [OF _ fits_item [OF assms(2)]] by blast+
qed

subsection \<open>The scheduler\<close>

lemma safe_signal: "safe (sched_put (\<lambda>s. s\<lparr>s_patchExecuteChan := b\<rparr>)) g"
proof (rule keeping_same(1) [where Q = "\<lambda>_ _. True"])
  have "sched_ok (s\<lparr>s_patchExecuteChan := b\<rparr>)" if "sched_ok s" for s
    using that by (simp add: sched_ok_def routed_def works_defs has_queues_def)
  then show "sched_ok s1 \<and> s_longPrefillThreshold s1 = s_longPrefillThreshold s \<and> (\<forall>g. state_inv g (stateOf s) \<longrightarrow> state_inv g (stateOf s1)) \<and> True"
    if "sched_ok s" "Some ((), s\<lparr>s_patchExecuteChan := b\<rparr>) = Some (a, s1)" for s a s1
    using that by auto
qed

lemma keeping_if: "(b \<Longrightarrow> keeping Q p g) \<Longrightarrow> (\<not> b \<Longrightarrow> keeping Q q g) \<Longrightarrow> keeping Q (if b then p else q) g"
  by simp

lemma keeping_option: "(r = None \<Longrightarrow> keeping Q p g) \<Longrightarrow> (\<And>a. r = Some a \<Longrightarrow> keeping Q (k a) g) \<Longrightarrow> keeping Q (case r of None \<Rightarrow> p | Some a \<Rightarrow> k a) g"
  by (simp split: option.split)

lemma keeping_prod: "(\<And>a b. r = (a, b) \<Longrightarrow> keeping Q (k a b) g) \<Longrightarrow> keeping Q (case r of (a, b) \<Rightarrow> k a b) g"
  by (simp split: prod.split)

lemma keeping_sum:
  "(\<And>a. r = Inl a \<Longrightarrow> keeping Q (j a) g) \<Longrightarrow> (\<And>a. r = Inr a \<Longrightarrow> keeping Q (k a) g) \<Longrightarrow> keeping Q (case r of Inl a \<Rightarrow> j a | Inr a \<Rightarrow> k a) g"
  by (simp split: sum.split)

lemma keeping_list:
  "(r = [] \<Longrightarrow> keeping Q p g) \<Longrightarrow> (\<And>a as. r = a # as \<Longrightarrow> keeping Q (k a as) g) \<Longrightarrow> keeping Q (case r of [] \<Rightarrow> p | a # as \<Rightarrow> k a as) g"
  by (simp split: list.split)

lemmas keeping_cases = keeping_if keeping_option keeping_prod keeping_sum keeping_list

lemmas safe_intros = safe_bind keeping_cases safe_done safe_never safe_metrics safe_signal safe_get safe_registry safe_length safe_fail

lemma safe_pressure: "safe (pressureP e) g"
  unfolding pressureP_def by (rule safe_intros)+

lemma safe_queueLengths: "safe (queueLengthsP es p d) g"
proof (induction es arbitrary: p d g)
  case (Cons e es)
  show ?case
    unfolding queueLengthsP.simps by (rule safe_intros Cons.IH)+
qed simp

lemma safe_trySchedule: "safe (tryScheduleP e) g"
  unfolding tryScheduleP_def by (rule safe_pressure safe_queueLengths safe_intros)+

lemma safe_reject: "safe (rejectP q err) g"
  unfolding rejectP_def by (rule safe_intros)+

lemma keeping_stamp: "keeping (\<lambda>w _. \<exists>t. w = work\<lparr>wk_EnqueuedAt := t\<rparr>) (stampP work) g"
  unfolding stampP_def by (rule keeping_state) (auto intro: grows_refl)

lemma keeping_queueOf: "item_of e w \<Longrightarrow> keeping (\<lambda>kd g. fits kd e (kn_threshold g) w) (sched_get (queueOf w)) g"
  by (rule keeping_keeps(1) [where Q = "\<lambda>kd thr. fits kd e thr w"]) (auto simp: fits_queueOf)

lemma safe_joining:
  assumes "fits kd (wk_ExecutorID w) (kn_threshold g) w" "\<And>s err s1. f s = (err, s1) \<Longrightarrow> s1 = s \<or> put_last kd w s s1"
  shows "safe (unlocked kd (wk_ExecutorID w) (\<lambda>s. Some (f s))) g"
proof (rule keeping_act(2))
  fix h s err s1 assume h: "grows g h" "sched_inv h s" "Some (f s) = Some (err, s1)"
  then have "fits kd (wk_ExecutorID w) (s_longPrefillThreshold s) w"
    using assms(1) by (simp add: sched_inv_def grows_def)
  then have k: "keeps s s1 \<and> s_world s1 = s_world s"
    using assms(2) [of s err s1] h(3) keeps_put_last by auto
  then have "sched_inv h s1"
    using h(2) keeps_ok [of s s1] by (auto simp: sched_inv_def keeps_def same_setup_def)
  then show "\<exists>h1. grows h h1 \<and> sched_inv h1 s1 \<and> True"
    using grows_refl by blast
qed simp

lemma safe_enqueue:
  assumes "item_of (wk_ExecutorID work) work"
  shows "safe (enqueueP work) g"
  unfolding enqueueP_def
proof (rule keeping_bind [OF keeping_stamp])
  fix w h assume "\<exists>t. w = work\<lparr>wk_EnqueuedAt := t\<rparr>"
  then have w: "item_of (wk_ExecutorID w) w"
    using assms by (auto simp: item_of_def prefill_item_def decode_item_def)
  show "safe (case wk_Phase w of
     WorkPhaseUnknown _ \<Rightarrow> Done (Some (errors_New CodeInvalidArgument ''invalid phase for enqueue''))
   | _ \<Rightarrow> pbind (sched_get (queueOf w)) (\<lambda>kd. pbind (unlocked kd (wk_ExecutorID w) (\<lambda>s. Some (admitWork kd w s))) (\<lambda>err. case err of
         Some er \<Rightarrow> rejectP (wk_RequestId w) er
       | None \<Rightarrow> pthen (tryScheduleP (wk_ExecutorID w)) (Done None)))) h"
    by (auto split: WorkPhase.split option.split intro!: keeping_bind [OF keeping_queueOf [OF w]] safe_bind safe_joining safe_reject safe_trySchedule admit_put_last)
qed

lemma safe_requeue:
  assumes "item_of (wk_ExecutorID work) work"
  shows "safe (requeueP work) g"
proof -
  have "item_of (wk_ExecutorID work) (work\<lparr>wk_BlockAllocation := None\<rparr>)" "wk_ExecutorID (work\<lparr>wk_BlockAllocation := None\<rparr>) = wk_ExecutorID work"
    using assms by (simp_all add: item_of_def prefill_item_def decode_item_def)
  note w = this(1) safe_joining [of _ "work\<lparr>wk_BlockAllocation := None\<rparr>", unfolded this(2)]
  show ?thesis
    unfolding requeueP_def Let_def
    by (auto split: WorkPhase.split option.split intro!: keeping_bind [OF keeping_queueOf [OF w(1)]] safe_bind w(2) safe_fail return_put_last)
qed

lemma allocated_ok:
  assumes a: "allocateBlocks y s = Some (Inr (True, y1), s1)" and y: "item_of e y"
  shows "item_of e y1 \<and> sendable y1"
proof -
  have y1: "y1 = y\<lparr>wk_BlockAllocation := wk_BlockAllocation y1\<rparr>" "wk_BlockAllocation y1 \<noteq> None"
    using allocateBlocks_frame(5) [OF a, of True y1] allocateBlocks_frame(6) [OF a, of y1] by simp_all
  have "wk_Phase y1 = wk_Phase y" "wk_TokenIDs y1 = wk_TokenIDs y" "wk_NumNewTokens y1 = wk_NumNewTokens y" "wk_ExecutorID y1 = wk_ExecutorID y"
    by (subst y1(1), simp)+
  then show ?thesis
    using y y1(2) by (auto simp: item_of_def prefill_item_def decode_item_def sendable_def Suc_le_eq)
qed

lemma keeping_allocate:
  assumes "item_of e work"
  shows "keeping (\<lambda>res _. case res of Inl _ \<Rightarrow> True | Inr (ok, w) \<Rightarrow> item_of e w \<and> (ok \<longrightarrow> sendable w)) (sched_act (allocateBlocks work)) g"
proof (rule keeping_keeps(1))
  fix s res s1 assume a: "sched_ok s" "allocateBlocks work s = Some (res, s1)"
  obtain reg where "s1 = setRegistry reg s"
    using a(2) by (auto simp: allocateBlocks_def split: bind_splits)
  moreover have "w = work" if "res = Inr (False, w)" for w
    using allocateBlocks_frame(5) [OF a(2) that] by simp
  moreover have "item_of e w \<and> sendable w" if "res = Inr (True, w)" for w
    using allocated_ok [OF a(2) [unfolded that] assms] .
  ultimately show "keeps s s1 \<and> (\<forall>g. state_inv g (stateOf s) \<longrightarrow> state_inv g (stateOf s1)) \<and>
      (case res of Inl _ \<Rightarrow> True | Inr (ok, w) \<Rightarrow> item_of e w \<and> (ok \<longrightarrow> sendable w))"
    using assms by (cases res) (auto split: prod.split)
qed

text \<open>The works of a batch are made for its executor and can be sent.\<close>

abbreviation batched :: "string \<Rightarrow> WorkItem option \<Rightarrow> knows \<Rightarrow> bool" where
  "batched e r g \<equiv> \<forall>w. r = Some w \<longrightarrow> item_of e w \<and> sendable w"

lemma item_here: "item_of e w \<Longrightarrow> item_of (wk_ExecutorID w) w"
  by (auto simp: item_of_def)

lemma keeping_decide:
  assumes "item_of e work" "\<forall>w. back_to = Some w \<longrightarrow> item_of e w"
  shows "keeping (batched e) (decideP work back_to) g"
  unfolding decideP_def
  by (rule keeping_bind [OF keeping_allocate [OF assms(1)]])
    (use assms(2) in \<open>auto split: sum.split prod.split option.split intro!: keeping_done keeping_bind [OF safe_fail] keeping_bind [OF safe_requeue] intro: item_here\<close>)

subsection \<open>Batches\<close>

definition batch_for :: "string \<Rightarrow> WorkItem list \<Rightarrow> bool" where
  "batch_for e batch \<longleftrightarrow> (\<forall>w \<in> set batch. item_of e w \<and> sendable w)"

lemma batch_for_simps [simp]: "batch_for e []" "batch_for e (b @ [w]) \<longleftrightarrow> batch_for e b \<and> item_of e w \<and> sendable w"
  by (auto simp: batch_for_def)

abbreviation picks :: "string \<Rightarrow> picking \<Rightarrow> knows \<Rightarrow> bool" where
  "picks e p g \<equiv> batch_for e (fst p)"

lemma keeping_picks: "batch_for e (fst p) \<Longrightarrow> keeping (picks e) (Done p) g"
  by (rule keeping_done)

lemma keeping_decided:
  assumes "item_of e work" "\<forall>w. back_to = Some w \<longrightarrow> item_of e w" "\<And>h. keeping Q p h" "\<And>w h. item_of e w \<Longrightarrow> sendable w \<Longrightarrow> keeping Q (k w) h"
  shows "keeping Q (pbind (decideP work back_to) (\<lambda>r. case r of None \<Rightarrow> p | Some w \<Rightarrow> k w)) g"
  by (rule keeping_bind [OF keeping_decide [OF assms(1,2)]]) (use assms(3,4) in \<open>auto intro: keeping_option\<close>)

lemma keeping_decodeLoop:
  "\<forall>w \<in> set ws. item_of e w \<Longrightarrow> batch_for e (fst p) \<Longrightarrow> keeping (picks e) (decodeLoopP ws p) g"
proof (induction ws p arbitrary: g rule: decodeLoopP.induct)
  case (2 work ws batch budget)
  show ?case
    unfolding decodeLoopP.simps by (rule keeping_decided [where e = e]) (use 2 in simp_all)
qed (simp add: keeping_picks)

lemma keeping_pickDecode: "batch_for e (fst p) \<Longrightarrow> keeping (picks e) (pickDecodeP e p) g"
  unfolding pickDecodeP_def Let_def
  by (rule keeping_prod, rule keeping_bind [OF keeping_dequeue])
    (auto simp: item_of_def intro!: keeping_if keeping_picks keeping_decodeLoop)

lemma keeping_smallLoop: "batch_for e (fst p) \<Longrightarrow> keeping (picks e) (smallLoopP n e p) g"
proof (induction n arbitrary: p g)
  case (Suc n)
  obtain batch b where p: "p = (batch, b)"
    by (cases p)
  have b: "batch_for e batch"
    using Suc.prems by (simp add: p)
  show ?case
    unfolding p smallLoopP.simps Let_def
    by (rule keeping_if, rule keeping_picks, simp add: b, rule keeping_bind [OF keeping_peek], rule keeping_option, rule keeping_picks, simp add: b,
        rule keeping_if, rule keeping_picks, simp add: b, rule keeping_bind [OF keeping_pop], rule keeping_option, rule Suc.IH, simp add: b,
        rule keeping_decided [where e = e], rule fits_item, blast, simp, rule Suc.IH, simp add: b, rule Suc.IH, simp add: b)
qed (simp add: keeping_picks)

lemma keeping_chunk:
  assumes "fits LargeQueue e thr large" "\<And>chunk h. item_of e chunk \<Longrightarrow> item_of e large \<Longrightarrow> keeping Q (k chunk) h"
  shows "keeping Q (case splitPrefillChunk large t of None \<Rightarrow> Act (\<lambda>_. None) | Some (chunk, _) \<Rightarrow> k chunk) g"
proof -
  have large: "prefill_item large" "wk_ExecutorID large = e"
    using assms(1) by simp_all
  obtain chunk rest where c: "splitPrefillChunk large t = Some (chunk, rest)" "prefill_item chunk"
      "chunk = large\<lparr>wk_NumNewTokens := min (wk_NumNewTokens large) t, wk_TokenIDs := wk_TokenIDs chunk\<rparr>"
    using split_spec [OF large(1)] by blast
  have "wk_ExecutorID chunk = e"
    by (subst c(3)) (simp add: large(2))
  then show ?thesis
    using assms(2) [of chunk g] c(1,2) large by (simp add: item_of_def)
qed

lemma keeping_largeLoop: "batch_for e (fst p) \<Longrightarrow> keeping (picks e) (largeLoopP n e p) g"
proof (induction n arbitrary: p g)
  case (Suc n)
  obtain batch b where p: "p = (batch, b)"
    by (cases p)
  have b: "batch_for e batch"
    using Suc.prems by (simp add: p)
  show ?case
    unfolding p largeLoopP.simps Let_def
    by (rule keeping_if, rule keeping_picks, simp add: b, rule keeping_bind [OF keeping_pop], rule keeping_option, rule keeping_picks, simp add: b,
        rule keeping_chunk, blast, rule keeping_decided [where e = e], assumption, simp, rule Suc.IH, simp add: b, rule Suc.IH, simp add: b)
qed (simp add: keeping_picks)

lemma keeping_pickBatch: "keeping (\<lambda>batch _. batch_for e batch) (pickBatchP e) g"
  unfolding pickBatchP_def
  by (rule keeping_bind [OF safe_get], rule keeping_bind [OF keeping_pickDecode], simp, rule keeping_bind [OF safe_length],
      rule keeping_bind [OF keeping_smallLoop], assumption, rule keeping_bind [OF safe_length], rule keeping_bind [OF keeping_largeLoop], assumption,
      rule keeping_done)

lemma safe_rollback: "safe (sched_act (\<lambda>s. map_option (\<lambda>(_, reg). ((), setRegistry reg s)) (f (registryOf s)))) g"
  by (rule keeping_keeps(1) [where Q = "\<lambda>_ _. True"]) auto

lemma safe_undoBatch: "batch_for e ws \<Longrightarrow> safe (undoBatchP ws) g"
proof (induction ws arbitrary: g)
  case (Cons w ws)
  then have "item_of (wk_ExecutorID w) w" "batch_for e ws"
    by (auto simp: batch_for_def intro: item_here)
  then show ?case
    unfolding undoBatchP.simps by (intro safe_bind safe_rollback safe_requeue Cons.IH)
qed simp

lemma keeping_newBatch:
  "keeping (\<lambda>b _. bt_ExecutorID b = e \<and> bt_BatchSize b = of_nat (length batch) \<and> bt_Items b = batch) (newBatchP batch e) g"
  unfolding newBatchP_def by (rule keeping_state) (auto intro: grows_refl)

lemma safe_submit:
  assumes "batch_ok (bt_ExecutorID b) b"
  shows "safe (submitP ctx choice b) g"
  unfolding submitP_def
proof (rule keeping_same(1) [where Q = "\<lambda>_ _. True"])
  fix s a s1 assume s: "sched_ok s" "(let (err, em) = Submit ctx choice (Some b) (s_executorManager s) in Some (err, s\<lparr>s_executorManager := em\<rparr>)) = Some (a, s1)"
  obtain err em where em: "Submit ctx choice (Some b) (s_executorManager s) = (err, em)"
    by (cases "Submit ctx choice (Some b) (s_executorManager s)")
  have q: "em_inv (s_executorManager s)" "batches_ok (s_executorManager s)"
    using s(1) by (simp_all add: sched_ok_def)
  have "em_inv em"
    by (rule em_inv_Submit [OF q(1) em])
  moreover have "em = s_executorManager s \<or> submitted b (s_executorManager s) em"
    using Submit_outcome [OF em] by (simp split: if_splits)
  then have "batches_ok em" "em_executorList em = em_executorList (s_executorManager s)"
    using q(2) batches_ok_submitted [OF q(2) _ assms] by (auto simp: submitted_def)
  ultimately have "sched_ok (s\<lparr>s_executorManager := em\<rparr>)"
    by (rule sched_ok_manager [OF s(1)])
  then show "sched_ok s1 \<and> s_longPrefillThreshold s1 = s_longPrefillThreshold s \<and> (\<forall>g. state_inv g (stateOf s) \<longrightarrow> state_inv g (stateOf s1)) \<and> True"
    using s(2) em by auto
qed

lemma safe_patchExecute: "safe (patchExecuteP ctx choice e) g"
  unfolding patchExecuteP_def
proof (rule keeping_bind [OF keeping_pickBatch], rule keeping_list, simp)
  fix batch h first rest assume b: "batch_for e batch" "batch = first # rest"
  then have first: "wk_ExecutorID first = e"
    by (auto simp: batch_for_def item_of_def)
  show "safe (pthen (tryScheduleP e) (pbind (newBatchP batch (wk_ExecutorID first)) (\<lambda>b.
       pbind (submitP ctx choice b) (\<lambda>err. if err \<noteq> None then undoBatchP batch
         else sched_put (updMetrics (observeBatchStatsAndTimeWait batch (bt_CreateAt b))))))) h"
  proof (rule safe_bind [OF safe_trySchedule], rule keeping_bind [OF keeping_newBatch], rule safe_bind [OF safe_submit])
    fix c :: Batch assume "bt_ExecutorID c = wk_ExecutorID first \<and> bt_BatchSize c = of_nat (length batch) \<and> bt_Items c = batch"
    then show "batch_ok (bt_ExecutorID c) c"
      using b first by (simp add: batch_ok_def batch_for_def)
  qed (rule keeping_if; rule safe_undoBatch [OF b(1)] safe_metrics)
qed

lemma safe_patchExecutors: "safe (patchExecutorsP sel es) g"
  by (induction es arbitrary: g) (auto intro!: safe_bind safe_patchExecute)

lemma safe_batchTurn: "safe (batchTurnP sel signal) g"
  unfolding batchTurnP_def
proof (intro safe_bind safe_get safe_patchExecutors)
  have "sched_ok (s\<lparr>s_patchExecuteChan := b\<rparr>)" if "sched_ok s" for s b
    using that by (simp add: sched_ok_def routed_def works_defs has_queues_def)
  then show "safe (sched_act (takeSignal signal)) g"
    by (intro keeping_same(1) [where Q = "\<lambda>_ _. True"]) (auto simp: takeSignal_def split: if_splits)
qed

subsection \<open>Events\<close>

lemma safe_enqueueAll: "\<forall>w \<in> set items. prefill_item w \<or> decode_item w \<Longrightarrow> safe (enqueueAllP items) g"
proof (induction items arbitrary: g)
  case (Cons w items)
  then have "item_of (wk_ExecutorID w) w"
    by (simp add: item_of_def)
  then show ?case
    unfolding enqueueAllP.simps by (intro safe_bind safe_enqueue keeping_option safe_done Cons.IH) (use Cons.prems in simp_all)
qed simp

lemma safe_handleEvent: "safe (handleEventP event) g"
  unfolding handleEventP_def
  by (rule safe_bind [OF safe_get], rule keeping_option, simp, rule safe_bind [OF safe_registry], rule keeping_bind [OF keeping_onEvent], rule keeping_prod,
      rule safe_bind [OF safe_enqueueAll], simp, (rule safe_intros)+)

lemma safe_takeEvent: "safe (sched_act takeEvent) g"
proof (rule keeping_same(1) [where Q = "\<lambda>_ _. True"])
  fix s event s1 assume s: "sched_ok s" "takeEvent s = Some (event, s1)"
  then obtain em where e: "receiveEvent (s_executorManager s) = Some (event, em)" "s1 = s\<lparr>s_executorManager := em\<rparr>"
    by (auto simp: takeEvent_def)
  have em: "em_batchChans em = em_batchChans (s_executorManager s)" "em_workers em = em_workers (s_executorManager s)"
      "em_executorList em = em_executorList (s_executorManager s)"
    using e(1) by (auto simp: receiveEvent_def split: list.splits)
  have "sched_ok s1"
    unfolding e(2) by (rule sched_ok_manager [OF s(1)]) (use s(1) em em_inv_take [OF _ e(1)] in \<open>auto simp: sched_ok_def batches_ok_def\<close>)
  then show "sched_ok s1 \<and> s_longPrefillThreshold s1 = s_longPrefillThreshold s \<and> (\<forall>g. state_inv g (stateOf s) \<longrightarrow> state_inv g (stateOf s1)) \<and> True"
    by (simp add: e(2))
qed

lemma safe_consumeEvent: "safe consumeEventP g"
  unfolding consumeEventP_def by (intro safe_bind safe_takeEvent safe_handleEvent safe_done)

end
