(* ===== verification/Engine_Safety.thy ===== *)
theory Engine_Safety
  imports Program_Safety
begin

text \<open>
  Every goroutine of the engine keeps the invariant at each of its actions, so every state the interleaved
  engine reaches has it.
\<close>

subsection \<open>Arrivals\<close>

lemma keeping_encode: "keeping (\<lambda>r _. \<forall>tokens. r = Inr tokens \<longrightarrow> tokens \<noteq> [] \<and> length tokens < 2 ^ 32) (encodeP env req) g"
  unfolding encodeP_def
proof (rule kn.rg_atomic)
  fix h a and x x1 :: "'a shared"
  assume i: "go_inv h x" and f: "(let y = sh_system x; t = sy_tokenizer y in
     if proper_prompt env req t
     then (let (r, t1) = tokenizer_Encode env (rq_ModelID req) (rq_Prompt req) t in Some (r, x\<lparr>sh_system := y\<lparr>sy_tokenizer := t1\<rparr>\<rparr>))
     else None) = Some (a, x1)"
  then obtain t1 where "proper_prompt env req (sy_tokenizer (sh_system x))" "x1 = x\<lparr>sh_system := (sh_system x)\<lparr>sy_tokenizer := t1\<rparr>\<rparr>"
      "tokenizer_Encode env (rq_ModelID req) (rq_Prompt req) (sy_tokenizer (sh_system x)) = (a, t1)"
    by (auto simp: Let_def split: if_splits prod.splits)
  then show "\<exists>h1. grows h h1 \<and> go_inv h1 x1 \<and> (\<forall>tokens. a = Inr tokens \<longrightarrow> tokens \<noteq> [] \<and> length tokens < 2 ^ 32)"
    using i by (intro exI [of _ h]) (auto simp: go_inv_def proper_prompt_def)
qed simp

lemma keeping_assign:
  "keeping (\<lambda>r _. rq_TokenIDs (snd r) = rq_TokenIDs req \<and> rq_PromptTokens (snd r) = rq_PromptTokens req) (assignP req) g"
  unfolding assignP_def
proof (rule keeping_keeps(1))
  fix s r s1 assume "(let (err, req1, s1) = AssignExecutor req s in Some ((err, req1), s1)) = Some (r, s1)"
  then obtain err req1 where a: "AssignExecutor req s = (err, req1, s1)" "r = (err, req1)"
    by (cases "AssignExecutor req s") auto
  show "keeps s s1 \<and> (\<forall>g. state_inv g (stateOf s) \<longrightarrow> state_inv g (stateOf s1)) \<and>
      rq_TokenIDs (snd r) = rq_TokenIDs req \<and> rq_PromptTokens (snd r) = rq_PromptTokens req"
    using AssignExecutor_keeps [OF a(1)] AssignExecutor_id(2) [OF a(1)] by (simp add: a(2))
qed

lemma keeping_create:
  assumes "rq_PromptTokens req = of_nat (length (rq_TokenIDs req))" "rq_TokenIDs req \<noteq> []" "length (rq_TokenIDs req) < 2 ^ 32"
  shows "keeping (\<lambda>r _. \<forall>work. r = Inr work \<longrightarrow> (prefill_item work \<or> decode_item work) \<and> wk_RequestId work = rq_RequestId req) (sched_act (createRequest req)) g"
proof (rule keeping_act(1))
  fix h s r s1 assume i: "sched_inv h s" and c: "createRequest req s = Some (r, s1)"
  obtain st where st: "sm_Create (w_now (s_world s)) (w_fresh (s_world s)) req (stateOf s) = Some (r, st)" "stateOf s1 = st"
    using c by (auto simp: createRequest_def Let_def split: bind_splits)
  obtain h1 where h1: "grows h h1" "state_inv h1 st" "\<forall>work. r = Inr work \<longrightarrow> wk_RequestId work = rq_RequestId req"
    using state_inv_create [OF _ st(1)] i unfolding sched_inv_def by blast
  have "prefill_item work" if "r = Inr work" for work
    using sm_Create_item [OF st(1) [unfolded that] assms] .
  moreover have "sched_inv h1 s1"
    using keeps_ok [OF createRequest_keeps [OF c]] createRequest_keeps [OF c] i h1(1,2) st(2)
    by (simp add: sched_inv_def keeps_def same_setup_def grows_threshold)
  ultimately show "\<exists>h1. grows h h1 \<and> sched_inv h1 s1 \<and>
      (\<forall>work. r = Inr work \<longrightarrow> (prefill_item work \<or> decode_item work) \<and> wk_RequestId work = rq_RequestId req)"
    using h1(1,3) by blast
qed simp

lemma keeping_subscribe:
  "keeping (\<lambda>r g. \<forall>c. r = Inr c \<longrightarrow> owns c q g) (sched_get (\<lambda>s. sm_Subscribe q (stateOf s))) g"
proof (rule keeping_act(1))
  fix h s r s1 assume i: "sched_inv h s" and r: "Some (sm_Subscribe q (stateOf s), s) = Some (r, s1)"
  have "owns c q h" if "r = Inr c" for c
    using subscribed_owns [of h "stateOf s" q c] i r that by (auto simp: sched_inv_def sm_Subscribe_def split: option.splits)
  then show "\<exists>h1. grows h h1 \<and> sched_inv h1 s1 \<and> (\<forall>c. r = Inr c \<longrightarrow> owns c q h1)"
    using i r grows_refl by blast
qed (use lasting_owns in \<open>auto simp: lasting_def\<close>)

text \<open>A stream reads the channel of its own request.\<close>

abbreviation own_stream :: "stream result \<Rightarrow> knows \<Rightarrow> bool" where
  "own_stream r g \<equiv> \<forall>str. r = Inr str \<longrightarrow> stream_owned (kn_owner g) (kn_next g) str"

lemma own_stream_lasting: "lasting (own_stream r)"
  using stream_owned_grows by (auto simp: lasting_def)

lemma keeping_stream_done: "own_stream r g \<Longrightarrow> keeping own_stream (Done r) g"
  by (rule keeping_done) (rule lastingD [OF own_stream_lasting])

lemma keeping_enqueued:
  assumes "prefill_item work \<or> decode_item work" "owns c (wk_RequestId work) g"
  shows "keeping own_stream (pbind (enqueueP work) (\<lambda>err. case err of
     Some er \<Rightarrow> Done (Inl (internalError er))
   | None \<Rightarrow> Done (Inr (openStream work req c)))) g"
proof (rule keeping_bind [OF safe_enqueue], use assms(1) in \<open>simp add: item_of_def\<close>, rule keeping_option; rule keeping_stream_done)
  fix h assume "grows g h"
  then have "owns c (wk_RequestId work) h"
    by (rule lastingD [OF lasting_owns assms(2)])
  then show "own_stream (Inr (openStream work req c)) h"
    by (simp add: openStream_def owns_def stream_owned_def outputs_of_def)
qed simp

lemma keeping_registered:
  assumes "prefill_item work \<or> decode_item work" "wk_RequestId work = q"
  shows "keeping own_stream (pbind (sched_get (\<lambda>s. sm_Subscribe q (stateOf s))) (\<lambda>subscribed. case subscribed of
     Inl er \<Rightarrow> pthen (failP (wk_RequestId work) (Some er)) (Done (Inl (internalError er)))
   | Inr c \<Rightarrow> pbind (enqueueP work) (\<lambda>err. case err of
       Some er \<Rightarrow> Done (Inl (internalError er))
     | None \<Rightarrow> Done (Inr (openStream work req c))))) g"
proof (rule keeping_bind [OF keeping_subscribe], rule keeping_sum, rule keeping_bind [OF safe_fail], rule keeping_stream_done, simp)
  fix r h c assume "\<forall>c. r = Inr c \<longrightarrow> owns c q h" "r = Inr c"
  then show "keeping own_stream (pbind (enqueueP work) (\<lambda>err. case err of
      Some er \<Rightarrow> Done (Inl (internalError er)) | None \<Rightarrow> Done (Inr (openStream work req c)))) h"
    using assms by (intro keeping_enqueued) simp_all
qed

lemma keeping_afterEncode:
  assumes "\<forall>tokens. enc = Inr tokens \<longrightarrow> tokens \<noteq> [] \<and> length tokens < 2 ^ 32"
  shows "keeping own_stream (afterEncode req enc) g"
  unfolding afterEncode_def
proof (rule keeping_sum, rule keeping_stream_done, simp, rule keeping_bind [OF keeping_assign], rule keeping_prod, rule keeping_option, rule keeping_bind [OF keeping_create], goal_cases)
  case (4 tokens r h err req1 created j)
  then show ?case
    by (intro keeping_sum keeping_stream_done keeping_registered) auto
next
  case (5 tokens r h err req1 er)
  then show ?case
    by (intro keeping_stream_done) simp
qed (use assms in auto)

lemma keeping_generateStream: "keeping own_stream (generateStreamP env req) g"
  unfolding generateStreamP_def by (rule keeping_bind [OF keeping_encode keeping_afterEncode])

lemma safe_arrive: "safe (arriveP env req) g"
  unfolding arriveP_def
proof (rule keeping_bind [OF keeping_generateStream], rule keeping_sum, simp, rule kn.rg_atomic)
  fix r str h k s a s1
  assume "own_stream r h" "r = Inr str" "grows h k" "go_inv k s"
    "Some ((), s\<lparr>sh_system := (sh_system s)\<lparr>sy_streams := sy_streams (sh_system s) @ [str]\<rparr>\<rparr>) = Some (a, s1)"
  then show "\<exists>h1. grows k h1 \<and> go_inv h1 s1 \<and> True"
    using stream_owned_grows [of h str k] by (intro exI [of _ k]) (auto simp: go_inv_def)
qed simp

subsection \<open>Forwarders\<close>

lemma safe_stream:
  assumes "\<And>h str t s a str1 t1 s1. sched_inv h s \<Longrightarrow> stream_owned (kn_owner h) (kn_next h) str \<Longrightarrow> f str (t, s) = Some (a, str1, (t1, s1)) \<Longrightarrow>
    sched_inv h s1 \<and> stream_owned (kn_owner h) (kn_next h) str1"
  shows "safe (stream_act i f) g"
  unfolding stream_act_def
proof (rule kn.rg_atomic)
  fix h a and x x1 :: "'a shared"
  let ?y = "sh_system x"
  assume i: "go_inv h x" and f: "(let y = ?y in if i < length (sy_streams y)
     then map_option (\<lambda>(a, str, (t, s)). (a, x\<lparr>sh_system := y\<lparr>sy_tokenizer := t, sy_scheduler := s, sy_streams := (sy_streams y)[i := str]\<rparr>\<rparr>))
            (f (sy_streams y ! i) (sy_tokenizer y, sy_scheduler y))
     else None) = Some (a, x1)"
  then obtain str t s where r: "i < length (sy_streams ?y)" "f (sy_streams ?y ! i) (sy_tokenizer ?y, sy_scheduler ?y) = Some (a, str, (t, s))"
      "x1 = x\<lparr>sh_system := ?y\<lparr>sy_tokenizer := t, sy_scheduler := s, sy_streams := (sy_streams ?y)[i := str]\<rparr>\<rparr>"
    by (auto simp: Let_def split: if_splits)
  have "sched_inv h s \<and> stream_owned (kn_owner h) (kn_next h) str"
    by (rule assms [OF _ _ r(2)]) (use i r(1) in \<open>simp_all add: go_inv_def\<close>)
  then show "\<exists>h1. grows h h1 \<and> go_inv h1 x1 \<and> True"
    using i by (intro exI [of _ h]) (auto simp: go_inv_def r(3) dest!: set_update_subset_insert [THEN subsetD])
qed simp

lemma safe_receive: "safe (receiveP env i) g"
  unfolding receiveP_def
proof (rule safe_stream)
  fix h str t s a str1 t1 s1
  assume i: "sched_inv h s" "stream_owned (kn_owner h) (kn_next h) str" and f: "map_option (Pair ()) (forwardReceive env str (t, s)) = Some (a, str1, t1, s1)"
  then have step: "forward_step env False (str, (t, s)) (str1, (t1, s1))"
    by (auto intro: forward_step.receive)
  have st: "owned (kn_owner h) (stateOf s)" "sm_nextChannel (stateOf s) = kn_next h"
    using i(1) by (simp_all add: sched_inv_def state_inv_def)
  have "sm_subscribeCh (stateOf s1) = sm_subscribeCh (stateOf s)" "s_longPrefillThreshold s1 = s_longPrefillThreshold s"
    using f by (auto simp: forwardReceive_def chan_recv_def updState_def Let_def split: if_splits bind_splits option.splits list.splits)
  then show "sched_inv h s1 \<and> stream_owned (kn_owner h) (kn_next h) str1"
    using ok_forward [OF step] owned_forward [OF st(1) _ step, unfolded st(2)] i by (simp add: sched_inv_def state_inv_def)
qed

lemma safe_sendOutput: "safe (sendOutputP i) g"
  unfolding sendOutputP_def
proof (rule safe_bind [OF safe_stream], goal_cases)
  case (1 h str t s a str1 t1 s1)
  then obtain out where "st_forwarder str = Forwarding out"
      "str1 = str\<lparr>st_chOut := st_chOut str @ [out], st_forwarder := (if out_Done out then Returned else Selecting)\<rparr>" "s1 = s"
    by (auto simp: sendOutput_def split: forwarder.splits if_splits)
  then show ?case
    using 1 by (auto simp: stream_owned_def outputs_of_def)
next
  case (2 a h)
  have "safe (closeStreamP i) h" for h
    unfolding closeStreamP_def by (rule safe_stream) (auto simp: stream_owned_def outputs_of_def)
  then show ?case
    by (auto intro!: keeping_prod keeping_if safe_bind safe_leave)
qed

lemma safe_cancel: "safe (cancelP i) g"
  unfolding cancelP_def closeStreamP_def
  by (intro safe_bind safe_leave; rule safe_stream) (auto simp: stream_owned_def outputs_of_def split: if_splits)

subsection \<open>The interleaved engine\<close>

definition go_ok :: "'q goroutines \<Rightarrow> bool" where
  "go_ok z \<longleftrightarrow> (\<exists>g. go_inv g (go_shared z) \<and> (\<forall>(r, p) \<in> set (go_threads z). safe p g))"

lemma go_okI: "go_inv g (go_shared z) \<Longrightarrow> (\<And>r p. (r, p) \<in> set (go_threads z) \<Longrightarrow> safe p g) \<Longrightarrow> go_ok z"
  by (auto simp: go_ok_def)

lemma go_ok_spawn: "go_ok z \<Longrightarrow> (\<And>g. safe p g) \<Longrightarrow> go_ok (spawn r p z)"
  by (auto simp: go_ok_def spawn_def)

lemma go_ok_manager:
  assumes "go_ok z" "em_inv (fst em)" "batches_ok (fst em) \<and> em_executorList (fst em) = em_executorList (managerOf z)"
  shows "go_ok (putManager em z)"
proof -
  obtain g where g: "go_inv g (go_shared z)" "\<forall>(r, p) \<in> set (go_threads z). safe p g"
    using assms(1) by (auto simp: go_ok_def)
  obtain m mx where em: "em = (m, mx)"
    by (cases em)
  let ?s = "schedOf (go_shared z)"
  have "sched_ok (setManagerState em ?s)"
    unfolding em using g(1) assms(2,3) by (intro ok_setManagerState) (simp_all add: go_inv_def sched_inv_def em)
  moreover have "s_longPrefillThreshold (setManagerState em ?s) = s_longPrefillThreshold ?s"
    by (simp add: setManagerState_def updMetrics_def Let_def)
  ultimately have "go_inv g (go_shared (putManager em z))"
    using g(1) by (simp add: go_inv_def sched_inv_def putManager_def)
  then show ?thesis
    using g(2) by (intro go_okI [of g]) (auto simp: putManager_def)
qed

lemma go_ok_inv: "go_ok z \<Longrightarrow> em_inv (managerOf z) \<and> batches_ok (managerOf z)"
  by (auto simp: go_ok_def go_inv_def sched_inv_def sched_ok_def)

lemma go_step_ok: "go_step env z z1 \<Longrightarrow> go_ok z \<Longrightarrow> go_ok z1"
proof (induction rule: go_step.induct)
  case (go i z r f p x)
  obtain g where g: "go_inv g (go_shared z)" "\<And>r p. (r, p) \<in> set (go_threads z) \<Longrightarrow> safe p g"
    using go.prems by (auto simp: go_ok_def)
  have "safe (Act f) g"
    using g(2) [of r "Act f"] go(1,2) nth_mem by metis
  then obtain h where h: "grows g h" "go_inv h x" "safe p h"
    using rg_ActE [of go_inv grows _ f g] g(1) go(3) grows_refl by metis
  show ?case
  proof (rule go_okI [of h])
    fix q u assume "(q, u) \<in> set (go_threads (z\<lparr>go_shared := x, go_threads := (go_threads z)[i := (r, p)]\<rparr>))"
    then have "(q, u) = (r, p) \<or> (q, u) \<in> set (go_threads z)"
      by (auto dest!: set_update_subset_insert [THEN subsetD])
    then show "safe u h"
      using h(1,3) g(2) kn.rg_later by blast
  qed (use h(2) in simp)
next
  case (exit z ts r us)
  then show ?case
    by (auto simp: go_ok_def)
next
  case (forward i z p)
  then have "safe p g" for g
    using safe_receive safe_sendOutput safe_cancel by blast
  then show ?case
    using go_ok_spawn forward(3) by blast
next
  case (receive e z em)
  then show ?case
    using go_ok_inv [OF receive(2)] em_inv_receive [of _ e _ "fst em" "snd em"] ok_consumeReceive [of e _ _ "fst em" "snd em"]
    by (intro go_ok_manager) auto
next
  case (execute now rpc e z em)
  then show ?case
    using go_ok_inv [OF execute(2)] em_inv_execute [of _ now rpc e _ "fst em" "snd em"] ok_consumeExecute [of now rpc e _ _ "fst em" "snd em"]
    by (intro go_ok_manager) auto
next
  case (send e z em)
  then show ?case
    using go_ok_inv [OF send(2)] em_inv_send ok_consumeSend by (intro go_ok_manager) auto
next
  case (stop e z em)
  then show ?case
    using go_ok_inv [OF stop(2)] em_inv_stop ok_consumeStop by (intro go_ok_manager) auto
next
  case (read i z out str)
  let ?str = "sy_streams (sh_system (go_shared z)) ! i"
  obtain g where g: "go_inv g (go_shared z)" "\<And>r p. (r, p) \<in> set (go_threads z) \<Longrightarrow> safe p g"
    using read.prems by (auto simp: go_ok_def)
  have "stream_owned (kn_owner g) (kn_next g) str"
    using readOutput_outputs [OF read(2)] g(1) nth_mem [OF read(1)] by (simp add: go_inv_def)
  then show ?case
    using g by (intro go_okI [of g]) (auto simp: go_inv_def dest!: set_update_subset_insert [THEN subsetD])
qed (use go_ok_spawn safe_arrive safe_batchTurn safe_consumeEvent in blast)+

lemma provide_go_ok:
  assumes "provide env get clock uuid cfg = Some (Inr y)"
  shows "go_ok (at_rest (StartBatchLoop y))"
proof -
  let ?s = "sy_scheduler (StartBatchLoop y)"
  obtain owner where o: "owned owner (stateOf ?s)" "\<forall>str \<in> set (sy_streams (StartBatchLoop y)). stream_owned owner (sm_nextChannel (stateOf ?s)) str"
    using provide_isolated [OF assms] by (auto simp: isolated_def)
  show ?thesis
    by (rule go_okI [of "\<lparr>kn_threshold = s_longPrefillThreshold ?s, kn_owner = owner, kn_next = sm_nextChannel (stateOf ?s), kn_left = {}\<rparr>"])
      (use o provide_ok [OF assms] in \<open>simp_all add: go_inv_def sched_inv_def state_inv_def\<close>)
qed

lemma go_reachable_ok: "go_reachable env z \<Longrightarrow> go_ok z"
  by (induction rule: go_reachable.induct) (auto intro: provide_go_ok go_step_ok)

text \<open>In the terms of the engine of whole operations.\<close>

lemma go_reachable_sched: "go_reachable env z \<Longrightarrow> sched_ok (schedOf (go_shared z))"
  using go_reachable_ok [of env z] by (auto simp: go_ok_def go_inv_def sched_inv_def)

lemma go_reachable_isolated: "go_reachable env z \<Longrightarrow> isolated (sh_system (go_shared z))"
  using go_reachable_ok [of env z] by (auto simp: go_ok_def go_inv_def sched_inv_def state_inv_def isolated_def)

end
