(* ===== verification/Engine_Demo.thy ===== *)
theory Engine_Demo
  imports Isolation Sched_Demo
begin

text \<open>
  A concrete engine of two executors, whose model is served by a tokenizer of one token per character, and
  runs of it, given by the steps its goroutines take one after the other.  Every state a run passes through is
  reachable, so a run is evaluated once and the properties apply to what it gives.
\<close>

subsection \<open>The engine\<close>

definition engine_env :: "unit tokenizer_env" where
  "engine_env = \<lparr>te_NewQwenTokenizer = (\<lambda>_. Inr ()), te_Encode = (\<lambda>_ text. Inr (map of_char text)),
     te_Decode = (\<lambda>_ tokens. Inr (map (\<lambda>t. char_of (unat t)) tokens)), te_readConfig = (\<lambda>_. Inr ''qwen3'')\<rparr>"

definition engine_conf :: Conf where
  "engine_conf = demo_conf\<lparr>cf_Models := [\<lparr>mc_ModelID = ''qwen3'', mc_ModelPath = ''/m''\<rparr>]\<rparr>"

definition engine_request :: "string \<Rightarrow> string \<Rightarrow> Request" where
  "engine_request q prompt = demo_request\<lparr>rq_RequestId := q, rq_ModelID := Qwen3Model, rq_Prompt := prompt, rq_ExecutorID := []\<rparr>"

definition engine_start :: "unit system" where
  "engine_start = (case provide engine_env demo_get (\<lambda>_. 0) (\<lambda>i. CHR ''u'' # fmt_d i) engine_conf of
     Some (Inr y) \<Rightarrow> StartBatchLoop y)"

lemma engine_start_provided: "\<exists>y. provide engine_env demo_get (\<lambda>_. 0) (\<lambda>i. CHR ''u'' # fmt_d i) engine_conf = Some (Inr y) \<and> engine_start = StartBatchLoop y"
proof -
  have "case provide engine_env demo_get (\<lambda>_. 0) (\<lambda>i. CHR ''u'' # fmt_d i) engine_conf of Some (Inr y) \<Rightarrow> True | _ \<Rightarrow> False"
    by code_simp
  then show ?thesis
    by (auto simp: engine_start_def split: option.splits sum.splits)
qed

lemma engine_start_reachable: "sys_reachable engine_env engine_start"
  using engine_start_provided sys_reachable.init by metis

subsection \<open>Runs\<close>

text \<open>One constructor per step; the \<open>Echo\<close> executor answers each item with its last token, one computed token and no end.\<close>

datatype action =
    Arrive string string
  | Batch
  | Receive string
  | Echo string
  | Send string
  | Event
  | Cancel nat
  | Forward nat

definition echo :: execute_rpc where
  "echo req = Inr \<lparr>xs_BatchId = xb_BatchId req, xs_ExecutorId = [],
     xs_Results = map (\<lambda>i. \<lparr>xr_WorkId = xi_WorkId i, xr_RequestId = xi_RequestId i, xr_TokenId = last (xi_TokenIds i), xr_Done = False,
       xr_FinishReason = FinishReasonUnspecified, xr_ComputedTokens = xi_NumNewTokens i, xr_GeneratedTokens = 1, xr_ExecutionMs = 0,
       xr_ErrorMessage = []\<rparr>) (xb_Items req)\<rparr>"

definition managed :: "em_state option \<Rightarrow> unit system \<Rightarrow> unit system option" where
  "managed r y = map_option (\<lambda>x. y\<lparr>sy_scheduler := setManagerState x (sy_scheduler y)\<rparr>) r"

definition streamed :: "nat \<Rightarrow> (stream \<Rightarrow> unit engine \<Rightarrow> (stream \<times> unit engine) option) \<Rightarrow> unit system \<Rightarrow> unit system option" where
  "streamed i f y = (if i < length (sy_streams y) then do {
       (str, (t, s)) \<leftarrow> f (sy_streams y ! i) (sy_tokenizer y, sy_scheduler y);
       Some (y\<lparr>sy_tokenizer := t, sy_scheduler := s, sy_streams := (sy_streams y)[i := str]\<rparr>)
     }
     else None)"

fun act :: "action \<Rightarrow> unit system \<Rightarrow> unit system option" where
  "act (Arrive q prompt) y = do {
     (r, (t, s)) \<leftarrow> GenerateStream engine_env (engine_request q prompt) (sy_tokenizer y, sy_scheduler y);
     Some (y\<lparr>sy_tokenizer := t, sy_scheduler := s, sy_streams := sy_streams y @ (case r of Inl _ \<Rightarrow> [] | Inr str \<Rightarrow> [str])\<rparr>)
   }"
| "act Batch y = map_option (\<lambda>s. y\<lparr>sy_scheduler := s\<rparr>) (batchTurn (\<lambda>_. (None, True)) False (sy_scheduler y))"
| "act (Receive e) y = managed (consumeReceive e (s_executorManager (sy_scheduler y)) (snd (managerState (sy_scheduler y)))) y"
| "act (Echo e) y = managed (consumeExecute 0 echo e (s_executorManager (sy_scheduler y)) (snd (managerState (sy_scheduler y)))) y"
| "act (Send e) y = map_option (\<lambda>em. y\<lparr>sy_scheduler := (sy_scheduler y)\<lparr>s_executorManager := em\<rparr>\<rparr>) (consumeSend e (s_executorManager (sy_scheduler y)))"
| "act Event y = map_option (\<lambda>s. y\<lparr>sy_scheduler := s\<rparr>) (consumeEvent (sy_scheduler y))"
| "act (Cancel i) y = streamed i forwardCancel y"
| "act (Forward i) y = streamed i (\<lambda>str engine. case forwardSend str engine of None \<Rightarrow> forwardReceive engine_env str engine | Some r \<Rightarrow> Some r) y"

fun engine_acts :: "action list \<Rightarrow> unit system \<Rightarrow> unit system option" where
  "engine_acts [] y = Some y"
| "engine_acts (a # as) y = Option.bind (act a y) (engine_acts as)"

definition proper_action :: "action \<Rightarrow> bool" where
  "proper_action a = (case a of Arrive q prompt \<Rightarrow> prompt \<noteq> [] \<and> length prompt < 9 | _ \<Rightarrow> True)"

text \<open>The tokenizers of the engine are those of its configuration, which no step changes.\<close>

definition characters :: "unit tokenizer \<Rightarrow> bool" where
  "characters t \<longleftrightarrow> (\<forall>m x. fmlookup (tk_tokenizers t) m = Some x \<longrightarrow> x = QwenTokenizer ())"

lemma characters_Encode:
  assumes "characters t"
  shows "snd (tokenizer_Encode engine_env m text t) = t"
    "fst (tokenizer_Encode engine_env m text t) = Inr tokens \<Longrightarrow> tokens = map of_char text"
  using assms by (cases "fmlookup (tk_tokenizers t) m"; force simp: tokenizer_Encode_def characters_def engine_env_def)+

lemma act_step:
  assumes "act a y = Some y1" "characters (sy_tokenizer y)" "proper_action a"
  shows "sys_step engine_env y y1 \<and> characters (sy_tokenizer y1)"
proof (cases a)
  case (Arrive q prompt)
  obtain r t s where g: "GenerateStream engine_env (engine_request q prompt) (sy_tokenizer y, sy_scheduler y) = Some (r, (t, s))"
    and y1: "y1 = y\<lparr>sy_tokenizer := t, sy_scheduler := s, sy_streams := sy_streams y @ (case r of Inl _ \<Rightarrow> [] | Inr str \<Rightarrow> [str])\<rparr>"
    using assms(1) Arrive by (auto split: bind_splits)
  have "proper_prompt engine_env (engine_request q prompt) (sy_tokenizer y)"
    using assms(3) Arrive
    by (auto simp: proper_prompt_def proper_action_def engine_request_def dest!: characters_Encode(2) [OF assms(2)] split: sum.split)
  moreover have "t = sy_tokenizer y"
    using GenerateStream_tokenizer [OF g] characters_Encode(1) [OF assms(2)] by simp
  ultimately show ?thesis
    using sys_step.arrive [OF _ g] assms(2) y1 by simp
next
  case Batch
  then show ?thesis
    using assms by (auto intro: sys_step.batch)
next
  case (Receive e)
  then show ?thesis
    using assms by (auto simp: managed_def intro: sys_step.receive)
next
  case (Echo e)
  then show ?thesis
    using assms by (auto simp: managed_def intro: sys_step.execute)
next
  case (Send e)
  then show ?thesis
    using assms by (auto intro: sys_step.send)
next
  case Event
  then show ?thesis
    using assms by (auto intro: sys_step.event)
next
  case (Cancel i)
  then obtain str t s where c: "forwardCancel (sy_streams y ! i) (sy_tokenizer y, sy_scheduler y) = Some (str, (t, s))" "i < length (sy_streams y)"
      "y1 = y\<lparr>sy_tokenizer := t, sy_scheduler := s, sy_streams := (sy_streams y)[i := str]\<rparr>"
    using assms(1) by (auto simp: streamed_def split: if_splits bind_splits)
  then have "t = sy_tokenizer y"
    by (auto simp: forwardCancel_def split: if_splits bind_splits)
  then show ?thesis
    using sys_step.forward [OF c(2) forward_step.cancel [OF c(1)]] c(3) assms(2) by simp
next
  case (Forward i)
  then obtain str t s where c: "forwardSend (sy_streams y ! i) (sy_tokenizer y, sy_scheduler y) = Some (str, (t, s)) \<or>
        forwardReceive engine_env (sy_streams y ! i) (sy_tokenizer y, sy_scheduler y) = Some (str, (t, s))" "i < length (sy_streams y)"
      "y1 = y\<lparr>sy_tokenizer := t, sy_scheduler := s, sy_streams := (sy_streams y)[i := str]\<rparr>"
    using assms(1) by (auto simp: streamed_def split: if_splits bind_splits option.splits)
  have t: "t = sy_tokenizer y"
    using c(1) by (auto simp: forwardSend_def forwardReceive_def Let_def split: if_splits bind_splits option.splits forwarder.splits)
  have fs: "forward_step engine_env False (sy_streams y ! i, (sy_tokenizer y, sy_scheduler y)) (str, (t, s))"
    using c(1) forward_step.send forward_step.receive by blast
  show ?thesis
    using sys_step.forward [OF c(2) fs] c(3) assms(2) t by simp
qed

lemma engine_acts_reachable:
  assumes "engine_acts as y = Some y1" "\<forall>a \<in> set as. proper_action a" "sys_reachable engine_env y" "characters (sy_tokenizer y)"
  shows "sys_reachable engine_env y1"
  using assms
proof (induction as arbitrary: y)
  case (Cons a as)
  then obtain y2 where y2: "act a y = Some y2" "engine_acts as y2 = Some y1"
    by (auto split: bind_splits)
  then show ?case
    using Cons.IH [OF y2(2)] act_step [OF y2(1)] Cons.prems sys_reachable.step by (metis list.set_intros)
qed simp

lemma engine_start_characters: "characters (sy_tokenizer engine_start)"
proof -
  let ?t = "tk_tokenizers (sy_tokenizer engine_start)"
  have "fmdom ?t = {|Qwen3Model|} \<and> (case fmlookup ?t Qwen3Model of Some (QwenTokenizer ()) \<Rightarrow> True | _ \<Rightarrow> False)"
    by code_simp
  then have d: "fmdom ?t = {|Qwen3Model|}" "fmlookup ?t Qwen3Model = Some (QwenTokenizer ())"
    by (simp_all split: option.splits tokenize.splits)
  have "x = QwenTokenizer ()" if "fmlookup ?t m = Some x" for m x
  proof -
    have "m = Qwen3Model"
      using fmdomI [OF that] d(1) by simp
    then show ?thesis
      using that d(2) by simp
  qed
  then show ?thesis
    by (simp add: characters_def)
qed

subsection \<open>One request, up to its execution\<close>

definition engine_run :: "string \<Rightarrow> unit system option" where
  "engine_run prompt = engine_acts [Arrive ''A'' prompt, Batch, Receive ''a''] engine_start"

text \<open>The batches the consumers run: their requests, phases and tokens.\<close>

definition runs :: "unit system \<Rightarrow> (string \<times> WorkPhase \<times> u32 list) list option" where
  "runs y = (case fmlookup (em_workers (s_executorManager (sy_scheduler y))) ''a'' of
     Some (Running b) \<Rightarrow> Some (map (\<lambda>w. (wk_RequestId w, wk_Phase w, wk_TokenIDs w)) (bt_Items b))
   | _ \<Rightarrow> None)"

lemma engine_run_text: "Option.bind (engine_run ''h'') runs = Some [(''A'', WorkPhasePrefill, [104])]"
  by code_simp

lemma engine_run_empty: "Option.bind (engine_run []) runs = Some [(''A'', WorkPhaseDecode, [])]"
  by code_simp

lemma engine_text:
  "\<exists>y b. engine_run ''h'' = Some y \<and> sys_reachable engine_env y \<and>
     fmlookup (em_workers (s_executorManager (sy_scheduler y))) ''a'' = Some (Running b) \<and> map wk_TokenIDs (bt_Items b) = [[104]]"
proof -
  obtain y where y: "engine_run ''h'' = Some y" "runs y = Some [(''A'', WorkPhasePrefill, [104])]"
    using engine_run_text by (cases "engine_run ''h''") simp_all
  obtain b where "fmlookup (em_workers (s_executorManager (sy_scheduler y))) ''a'' = Some (Running b)"
      "map (\<lambda>w. (wk_RequestId w, wk_Phase w, wk_TokenIDs w)) (bt_Items b) = [(''A'', WorkPhasePrefill, [104])]"
    using y(2) by (auto simp: runs_def split: option.splits worker.splits)
  moreover have "sys_reachable engine_env y"
    using engine_acts_reachable [OF y(1) [unfolded engine_run_def] _ engine_start_reachable engine_start_characters] by (simp add: proper_action_def)
  ultimately show ?thesis
    using y(1) by (intro exI [of _ y] exI [of _ b]) auto
qed

subsection \<open>An identifier used twice\<close>

text \<open>
  A caller cancels request \<open>A\<close> and a second caller sends another under the same identifier, while the work of the
  first still waits.
\<close>

definition reuse_run :: "unit system option" where
  "reuse_run = engine_acts [Arrive ''A'' ''h'', Cancel 0, Arrive ''B'' ''y'', Arrive ''A'' ''x'', Batch, Receive ''a'', Echo ''a'',
     Send ''a'', Event, Forward 2, Forward 2, Send ''a'', Event, Forward 2] engine_start"

lemma reuse_run_reachable: "reuse_run = Some y \<Longrightarrow> sys_reachable engine_env y"
  unfolding reuse_run_def by (erule engine_acts_reachable) (simp_all add: proper_action_def engine_start_reachable engine_start_characters)

lemma reuse_run_outcome:
  "map_option (\<lambda>y. let str = sy_streams y ! 2 in (st_requestId str, map out_DeltaText (st_chOut str), 2 < length (sy_streams y),
      map_option (\<lambda>rq. (rq_Prompt rq, rq_TokenIDs rq)) (fmlookup (requestsOf (sy_scheduler y)) ''A''),
      map wk_RequestId (decodeWorks (sy_scheduler y) ''a''))) reuse_run =
   Some (''A'', [''h''], True, Some (''x'', [120, 104, 120]), [''A'', ''A''])"
  by code_simp

end
