(* ===== verification/Engine_Race.thy ===== *)
theory Engine_Race
  imports Engine_Safety Engine_Demo
begin

text \<open>
  Runs of the interleaved engine: a goroutine is advanced by some of its actions and left there while another
  one runs.
\<close>

subsection \<open>Advancing a goroutine\<close>

fun advance :: "nat \<Rightarrow> ('s, 'a) prog \<Rightarrow> 's \<Rightarrow> (('s, 'a) prog \<times> 's) option" where
  "advance 0 p s = Some (p, s)"
| "advance (Suc n) p s = (case p of Done _ \<Rightarrow> None | Act f \<Rightarrow> f s \<bind> (\<lambda>(q, s1). advance n q s1))"

lemma advance_steps:
  "advance n p (go_shared z) = Some (q, x) \<Longrightarrow> i < length (go_threads z) \<Longrightarrow> go_threads z ! i = (r, p) \<Longrightarrow>
    (go_step env)\<^sup>*\<^sup>* z (z\<lparr>go_shared := x, go_threads := (go_threads z)[i := (r, q)]\<rparr>)"
proof (induction n arbitrary: p z)
  case 0
  then have "(go_threads z)[i := (r, q)] = go_threads z" "go_shared z = x"
    using list_update_id [of "go_threads z" i] by simp_all
  then have "z\<lparr>go_shared := x, go_threads := (go_threads z)[i := (r, q)]\<rparr> = z"
    by (cases z) simp
  then show ?case
    by simp
next
  case (Suc n)
  obtain f p1 x1 where f: "p = Act f" "f (go_shared z) = Some (p1, x1)" "advance n p1 x1 = Some (q, x)"
    using Suc.prems(1) by (auto split: prog.splits bind_splits)
  let ?z = "z\<lparr>go_shared := x1, go_threads := (go_threads z)[i := (r, p1)]\<rparr>"
  have "go_step env z ?z"
    using go_step.go [of i z r f p1 x1 env] Suc.prems(2,3) f by simp
  moreover have "(go_step env)\<^sup>*\<^sup>* ?z (?z\<lparr>go_shared := x, go_threads := (go_threads ?z)[i := (r, q)]\<rparr>)"
    by (rule Suc.IH) (use Suc.prems f(3) in simp_all)
  ultimately show ?case
    by (simp add: converse_rtranclp_into_rtranclp)
qed

subsection \<open>A cancel while an event is on its way\<close>

text \<open>The engine with the first event of request \<open>A\<close> in the event channel.\<close>

definition race_system :: "unit system option" where
  "race_system = engine_acts [Arrive ''A'' ''h'', Batch, Receive ''a'', Echo ''a'', Send ''a''] engine_start"

text \<open>The event loop is left after its five actions up to the lookup of the channel; then the caller cancels.\<close>

definition race_run :: "((unit shared, unit) prog \<times> unit shared \<times> unit shared) option" where
  "race_run = do {
     y \<leftarrow> race_system;
     (p, x) \<leftarrow> advance 5 consumeEventP \<lparr>sh_system = y, sh_locks = []\<rparr>;
     (_, x1) \<leftarrow> run (cancelP 0) x;
     Some (p, x, x1)
   }"

lemma race_run_outcome:
  "map_option (\<lambda>(p, x, x1). case p of
     Done _ \<Rightarrow> None
   | Act f \<Rightarrow> Some (Option.is_none (f x), Option.is_none (f x1),
       map_option (\<lambda>ch. (ch_closed ch, length (ch_buf ch))) (fmlookup (sm_channels (w_state (s_world (schedOf x1)))) 0),
       fmlookup (sm_subscribeCh (w_state (s_world (schedOf x)))) ''A'')) race_run =
   Some (Some (False, True, Some (True, 0), Some 0))"
  by code_simp

text \<open>The event loop is about to send when the request is cancelled: now the send panics.\<close>

lemma race_reached:
  "\<exists>f x x1. go_reachable engine_env \<lparr>go_shared = x, go_threads = [(EventLoop, Act f)]\<rparr> \<and>
     (go_step engine_env)\<^sup>*\<^sup>* \<lparr>go_shared = x, go_threads = [(EventLoop, Act f)]\<rparr> \<lparr>go_shared = x1, go_threads = [(EventLoop, Act f)]\<rparr> \<and>
     f x \<noteq> None \<and> f x1 = None \<and> fmlookup (sm_subscribeCh (w_state (s_world (schedOf x)))) ''A'' = Some 0 \<and>
     (\<exists>ch. fmlookup (sm_channels (w_state (s_world (schedOf x1)))) 0 = Some ch \<and> ch_closed ch \<and> ch_buf ch = [])"
proof -
  obtain p x x1 where r: "race_run = Some (p, x, x1)"
    using race_run_outcome by (cases race_run) auto
  obtain f where f: "p = Act f"
    using race_run_outcome [unfolded r] by (cases p) simp_all
  note o = race_run_outcome [unfolded r f option.map prod.case prog.case]
  obtain y where y: "race_system = Some y" "advance 5 consumeEventP \<lparr>sh_system = y, sh_locks = []\<rparr> = Some (p, x)" "run (cancelP 0) x = Some ((), x1)"
    using r by (auto simp: race_run_def split: bind_splits)
  let ?z = "spawn EventLoop consumeEventP (at_rest y)" and ?loop = "(EventLoop, Act f)"
  have "sys_reachable engine_env y"
    using engine_acts_reachable [OF y(1) [unfolded race_system_def] _ engine_start_reachable engine_start_characters] by (simp add: proper_action_def)
  then have "go_reachable engine_env ?z"
    using go_reachable.step [OF sys_reachable_at_rest go_step.event [OF vacant_at_rest]] by blast
  moreover have "(go_step engine_env)\<^sup>*\<^sup>* ?z \<lparr>go_shared = x, go_threads = [?loop]\<rparr>"
    using advance_steps [of 5 consumeEventP ?z p x 0 EventLoop engine_env] y(2) f by (simp add: spawn_def at_rest_def)
  ultimately have z: "go_reachable engine_env \<lparr>go_shared = x, go_threads = [?loop]\<rparr>"
    using go_reachable_steps by blast
  have "go_step engine_env \<lparr>go_shared = x, go_threads = [?loop]\<rparr> \<lparr>go_shared = x, go_threads = [?loop] @ [(Forwarder 0, cancelP 0)]\<rparr>"
    using go_step.forward [of 0 "\<lparr>go_shared = x, go_threads = [?loop]\<rparr>" "cancelP 0" engine_env] by (simp add: spawn_def vacant_def)
  then have "(go_step engine_env)\<^sup>*\<^sup>* \<lparr>go_shared = x, go_threads = [?loop]\<rparr> \<lparr>go_shared = x1, go_threads = [?loop]\<rparr>"
    using run_steps [OF y(3)] by (rule converse_rtranclp_into_rtranclp)
  then show ?thesis
    using z o by (intro exI [of _ f] exI [of _ x] exI [of _ x1]) (auto simp: Option.is_none_def)
qed

end
