(* ===== verification/Engine_Properties.thy ===== *)
theory Engine_Properties
  imports Engine_Race
begin

text \<open>
  The properties of the engine as a whole, over every interleaving of the atomic actions of its goroutines.
\<close>

subsection \<open>Operations and their actions\<close>




subsection \<open>What the goroutines hand to each other\<close>



subsection \<open>Requests do not see each other\<close>

text \<open>
  C36: however the actions of the goroutines interleave, each live request has an open channel of its own and the counter
  of active requests counts them; every event that waits on a request's channel, and every output a stream
  holds for its caller, carries the identifier of that request.  A stream never reads another request's
  channel, not even after its own request has left.
\<close>

theorem engine_isolated:
  assumes "go_reachable env z"
  defines "st \<equiv> w_state (s_world (schedOf (go_shared z)))"
  shows "fmdom (sm_subscribeCh st) = fmdom (sm_requests st) \<and> sm_activeRequests st = int (map_len (sm_requests st)) \<and>
    (\<forall>q c. fmlookup (sm_subscribeCh st) q = Some c \<longrightarrow>
       (\<exists>ch. fmlookup (sm_channels st) c = Some ch \<and> \<not> ch_closed ch \<and> (\<forall>e \<in> set (ch_buf ch). ev_RequestId e = q))) \<and>
    (\<forall>p q c. fmlookup (sm_subscribeCh st) p = Some c \<longrightarrow> fmlookup (sm_subscribeCh st) q = Some c \<longrightarrow> p = q) \<and>
    (\<forall>str \<in> set (sy_streams (sh_system (go_shared z))). (\<forall>out \<in> outputs_of str. out_RequestId out = st_requestId str) \<and>
       (\<forall>q. fmlookup (sm_subscribeCh st) q = Some (st_eventCh str) \<longrightarrow> q = st_requestId str) \<and>
       (\<forall>ch. fmlookup (sm_channels st) (st_eventCh str) = Some ch \<longrightarrow> (\<forall>e \<in> set (ch_buf ch). ev_RequestId e = st_requestId str)))"
proof -
  obtain owner where o: "owned owner st" "\<forall>str \<in> set (sy_streams (sh_system (go_shared z))). stream_owned owner (sm_nextChannel st) str"
    using go_reachable_isolated [OF assms(1)] by (auto simp: isolated_def st_def)
  have own: "owner c = q" if "fmlookup (sm_subscribeCh st) q = Some c" for q c
    using owned_left(1) [OF o(1) that] .
  have buf: "ev_RequestId e = owner c" if "fmlookup (sm_channels st) c = Some ch" "e \<in> set (ch_buf ch)" for c ch e
    using o(1) that by (simp add: owned_def)
  have waiting: "\<exists>ch. fmlookup (sm_channels st) c = Some ch \<and> \<not> ch_closed ch \<and> (\<forall>e \<in> set (ch_buf ch). ev_RequestId e = q)"
    if sub: "fmlookup (sm_subscribeCh st) q = Some c" for q c
  proof -
    obtain ch where "fmlookup (sm_channels st) c = Some ch" "\<not> ch_closed ch"
      using o(1) sub unfolding owned_def by blast
    then show ?thesis
      using buf own [OF sub] by auto
  qed
  have streams: "(\<forall>out \<in> outputs_of str. out_RequestId out = st_requestId str) \<and> st_requestId str = owner (st_eventCh str)"
    if "str \<in> set (sy_streams (sh_system (go_shared z)))" for str
    using o(2) that by (simp add: stream_owned_def)
  show ?thesis
  proof (intro conjI ballI)
    show "\<forall>p q c. fmlookup (sm_subscribeCh st) p = Some c \<longrightarrow> fmlookup (sm_subscribeCh st) q = Some c \<longrightarrow> p = q"
      using own by metis
  qed (use o(1) waiting streams own buf in \<open>auto simp: owned_def\<close>)
qed

theorem engine_isolated_witness:
  "\<exists>y str c. engine_run ''h'' = Some y \<and> sy_streams y = [str] \<and> st_requestId str = ''A'' \<and> st_eventCh str = c \<and>
     fmlookup (sm_subscribeCh (w_state (s_world (sy_scheduler y)))) ''A'' = Some c \<and>
     (\<forall>q. fmlookup (sm_subscribeCh (w_state (s_world (sy_scheduler y)))) q = Some c \<longrightarrow> q = ''A'') \<and>
     sm_activeRequests (w_state (s_world (sy_scheduler y))) = int (map_len (sm_requests (w_state (s_world (sy_scheduler y)))))"
proof -
  have "map_option (\<lambda>y. (map st_requestId (sy_streams y), map (\<lambda>str. fmlookup (sm_subscribeCh (w_state (s_world (sy_scheduler y)))) ''A'' = Some (st_eventCh str)) (sy_streams y)))
      (engine_run ''h'') = Some ([''A''], [True])"
    by code_simp
  moreover obtain y where y: "engine_run ''h'' = Some y" "sys_reachable engine_env y"
    using engine_text by blast
  ultimately obtain str where "sy_streams y = [str]" "st_requestId str = ''A''"
      "fmlookup (sm_subscribeCh (w_state (s_world (sy_scheduler y)))) ''A'' = Some (st_eventCh str)"
    by (cases "sy_streams y") auto
  then show ?thesis
    using y(1) engine_isolated [OF sys_reachable_at_rest [OF y(2)]] by auto
qed


subsection \<open>Draining\<close>



subsection \<open>Empty prompts\<close>

text \<open>
  C39: a prompt that encodes to no tokens, as the third-party tokenizer may return, is registered with a
  decode item of one new token and no tokens at all, as no token of it is left to prefill.  Whatever blocks it is given, no batch
  with it has a wire form: the consumer that runs the batch panics, and with it the server.
\<close>

theorem empty_prompt_panics:
  assumes "sm_Create now uuid req st = Some (Inr work, st1)" "rq_TokenIDs req = []" "rq_PromptTokens req = 0"
  shows "wk_Phase work = WorkPhaseDecode \<and> wk_TokenIDs work = [] \<and> wk_NumNewTokens work = 1 \<and>
    (\<forall>al e b em now rpc mx. work\<lparr>wk_BlockAllocation := al\<rparr> \<in> set (bt_Items b) \<longrightarrow>
       fmlookup (em_workers em) e = Some (Running b) \<longrightarrow> consumeExecute now rpc e em mx = None)"
proof -
  from assms(1) have work: "wk_Phase work = WorkPhaseDecode \<and> wk_TokenIDs work = [] \<and> wk_NumNewTokens work = 1"
    by (cases rule: sm_CreateE) (use assms(2,3) in \<open>auto simp: slice_from_def slice_def split: if_splits\<close>)
  have no: "\<not> sendable (work\<lparr>wk_BlockAllocation := al\<rparr>)" for al
    using work by (simp add: sendable_def)
  have "BatchToExecute epoch b = None" if "work\<lparr>wk_BlockAllocation := al\<rparr> \<in> set (bt_Items b)" for epoch al b
  proof -
    have "\<exists>w \<in> set (bt_Items b). \<not> sendable w"
      using no that by blast
    then show ?thesis
      by (simp add: BatchToExecute_def executeItems_None)
  qed
  then show ?thesis
    using work by (auto simp: consumeExecute_def Execute_def split: option.splits)
qed

text \<open>The engine does run into it: the empty prompt reaches a consumer.\<close>

theorem empty_prompt_panics_witness:
  "\<exists>work st1. sm_Create 0 ''u'' (sched_request ''A'' [] 0) (w_state (s_world (sched_new 8 (\<lambda>_. 0)))) = Some (Inr work, st1) \<and>
     wk_Phase work = WorkPhaseDecode \<and> wk_NumNewTokens work = 1 \<and> Option.bind (engine_run []) runs = Some [(''A'', WorkPhaseDecode, [])]"
proof -
  have "case sm_Create 0 ''u'' (sched_request ''A'' [] 0) (w_state (s_world (sched_new 8 (\<lambda>_. 0)))) of Some (Inr work, st1) \<Rightarrow> True | _ \<Rightarrow> False"
    by code_simp
  then obtain work st1 where c: "sm_Create 0 ''u'' (sched_request ''A'' [] 0) (w_state (s_world (sched_new 8 (\<lambda>_. 0)))) = Some (Inr work, st1)"
    by (auto split: option.splits sum.splits)
  have "rq_TokenIDs (sched_request ''A'' [] 0) = []" "rq_PromptTokens (sched_request ''A'' [] 0) = 0"
    by (simp_all add: sched_request_def)
  from empty_prompt_panics [OF c this] c engine_run_empty show ?thesis
    by blast
qed

end
