(* ===== verification/Bench_Properties.thy ===== *)
theory Bench_Properties
  imports Bench Engine_Properties
begin

text \<open>
  The properties of the benchmark client: what its percentiles mean, that its counts do not depend on how
  its goroutines interleave, which of its requests share a cache, and how the engine answers it.
\<close>

subsection \<open>Percentiles\<close>

text \<open>
  Of sorted latencies the percentile \<open>p\<close> is the nearest rank: one of them, at least \<open>p\<close> percent of them do not exceed
  it, and fewer than \<open>p\<close> percent lie below it.
\<close>

theorem percentile_contract:
  assumes "sorted ds" and "ds \<noteq> []" and "0 < p" and "p \<le> 100"
  shows "percentileDuration ds p \<in> set ds \<and>
    p / 100 * of_nat (length ds) \<le> of_nat (card {i. i < length ds \<and> ds ! i \<le> percentileDuration ds p}) \<and>
    of_nat (card {i. i < length ds \<and> ds ! i < percentileDuration ds p}) < p / 100 * of_nat (length ds)"
proof -
  let ?n = "length ds"
  define x :: rat where "x = p / 100 * of_nat ?n"
  define k where "k = nat (\<lceil>x\<rceil> - 1)"
  have x: "0 < x" "x \<le> of_nat ?n"
    using assms(2-4) by (simp_all add: x_def field_simps)
  have c: "0 < \<lceil>x\<rceil>" "\<lceil>x\<rceil> \<le> int ?n"
    using x by (simp_all add: ceiling_le_iff)
  then have k: "k < ?n" "\<lceil>x\<rceil> = int (Suc k)"
    by (simp_all add: k_def) linarith
  have d: "percentileDuration ds p = ds ! k"
  proof (cases "p = 100")
    case True
    then have "k = ?n - 1"
      by (simp add: k_def x_def nat_diff_distrib)
    then show ?thesis
      using True assms(2) by (simp add: percentileDuration_def)
  next
    case False
    then show ?thesis
      using assms c unfolding percentileDuration_def Let_def x_def [symmetric] by (simp add: k_def not_le)
  qed
  have "{..k} \<subseteq> {i. i < ?n \<and> ds ! i \<le> ds ! k}"
    using k(1) sorted_nth_mono [OF assms(1)] by auto
  from card_mono [OF _ this] have "Suc k \<le> card {i. i < ?n \<and> ds ! i \<le> ds ! k}"
    by simp
  moreover have "x \<le> of_nat (Suc k)"
    using le_of_int_ceiling [of x] k(2) by simp
  ultimately have le: "x \<le> of_nat (card {i. i < ?n \<and> ds ! i \<le> ds ! k})"
    by (meson of_nat_le_iff order_trans)
  have "{i. i < ?n \<and> ds ! i < ds ! k} \<subseteq> {..<k}"
    using sorted_nth_mono [OF assms(1)] by (auto simp: not_less [symmetric])
  from card_mono [OF _ this] have "card {i. i < ?n \<and> ds ! i < ds ! k} \<le> k"
    by simp
  moreover have "of_nat k < x"
    using ceiling_correct [of x] k(2) by simp
  ultimately have "of_nat (card {i. i < ?n \<and> ds ! i < ds ! k}) < x"
    by (meson of_nat_le_iff order_le_less_trans)
  then show ?thesis
    using k(1) le unfolding d x_def by simp
qed

theorem percentile_contract_witness:
  "percentileDuration [10, 20, 30, 40, 50] 90 = 50 \<and> percentileDuration [10, 20, 30, 40, 50] 50 = 30 \<and>
   percentileDuration [10, 20, 30, 40, 50] 50 \<in> set [10, 20, 30, 40, 50]"
proof -
  have "percentileDuration [10, 20, 30, 40, 50] 50 \<in> set [10, 20, 30, 40, 50]"
    using percentile_contract [of "[10, 20, 30, 40, 50]" 50] by simp
  moreover have "percentileDuration [10, 20, 30, 40, 50] 90 = 50" "percentileDuration [10, 20, 30, 40, 50] 50 = 30"
    by code_simp+
  ultimately show ?thesis
    by blast
qed

subsection \<open>Counts\<close>

lemma collect_latencies: "foldl (\<lambda>ls i. ls @ [f i]) acc is = acc @ map f is"
  by (induction "is" arbitrary: acc) simp_all

lemma count_outcomes:
  "foldl (\<lambda>counts i. countOutcome (f i) counts) (a, b) is =
     (a + int (length (filter (\<lambda>i. requestSucceeded (f i)) is)), b + int (length (filter (\<lambda>i. \<not> requestSucceeded (f i)) is)))"
  by (induction "is" arbitrary: a b) (simp_all add: countOutcome_def)

text \<open>
  A completed run reports every request exactly once, as a success or a failure, with the percentiles of all
  latencies, whatever the order in which the goroutines of its requests finish.
\<close>

theorem bench_counts:
  assumes "RunScenario parseFloat reasonString warm call latOrder cntOrder elapsed before after scenario = Some (Inr r)"
    and "mset latOrder = mset [0..<nat (bs_Requests scenario)]" "mset cntOrder = mset [0..<nat (bs_Requests scenario)]"
  defines "attempt \<equiv> \<lambda>i. call i (buildGenerateRequest scenario i)"
  shows "br_Success r + br_Failed r = bs_Requests scenario \<and>
    br_Success r = int (card {i. i < nat (bs_Requests scenario) \<and> requestSucceeded (snd (attempt i))}) \<and>
    (let latencies = sort (map (fst \<circ> attempt) [0..<nat (bs_Requests scenario)])
     in br_AvgLatency r = avgDuration latencies \<and> br_P50Latency r = percentileDuration latencies 50 \<and>
        br_P90Latency r = percentileDuration latencies 90 \<and> br_P99Latency r = percentileDuration latencies 99) \<and>
    (\<forall>latOrder' cntOrder'. mset latOrder' = mset latOrder \<longrightarrow> mset cntOrder' = mset cntOrder \<longrightarrow>
       RunScenario parseFloat reasonString warm call latOrder' cntOrder' elapsed before after scenario = Some (Inr r))"
proof -
  let ?n = "nat (bs_Requests scenario)"
  let ?ok = "\<lambda>i. requestSucceeded (snd (attempt i))"
  have sorted: "sort (foldl (\<lambda>ls i. ls @ [fst (attempt i)]) [] l) = sort (map (fst \<circ> attempt) [0..<?n])" if "mset l = mset [0..<?n]" for l
  proof -
    have "mset (map (fst \<circ> attempt) l) = mset (map (fst \<circ> attempt) [0..<?n])"
      using that by (metis mset_map)
    then have "sort (map (fst \<circ> attempt) l) = sort (map (fst \<circ> attempt) [0..<?n])"
      by (metis properties_for_sort mset_sort sorted_sort)
    then show ?thesis
      by (simp add: collect_latencies comp_def)
  qed
  have filters: "length (filter P l) = card {i. i < ?n \<and> P i}" if "mset l = mset [0..<?n]" for l and P :: "nat \<Rightarrow> bool"
  proof -
    have "length (filter P l) = length (filter P [0..<?n])"
      using that by (metis mset_filter size_mset)
    then show ?thesis
      by (simp add: length_filter_conv_card cong: conj_cong)
  qed
  let ?lat = "sort (map (fst \<circ> attempt) [0..<?n])" and ?yes = "int (card {i. i < ?n \<and> ?ok i})" and ?no = "int (card {i. i < ?n \<and> \<not> ?ok i})"
  have outcome: "RunScenario parseFloat reasonString warm call l c elapsed before after scenario =
      RunScenario parseFloat reasonString warm call [0..<?n] [0..<?n] elapsed before after scenario"
    if "mset l = mset [0..<?n]" "mset c = mset [0..<?n]" for l c
  proof -
    have counts: "foldl (\<lambda>counts i. countOutcome (snd (attempt i)) counts) (0, 0) c = foldl (\<lambda>counts i. countOutcome (snd (attempt i)) counts) (0, 0) [0..<?n]"
      using filters [OF that(2)] filters [OF refl] by (simp add: count_outcomes)
    show ?thesis
      unfolding RunScenario_def Let_def counts [unfolded attempt_def] trans [OF sorted [OF that(1)] sorted [OF refl, symmetric], unfolded attempt_def] ..
  qed
  have r: "RunScenario parseFloat reasonString warm call [0..<?n] [0..<?n] elapsed before after scenario = Some (Inr r)"
    using assms(1) outcome [OF assms(2,3)] by simp
  have nonneg: "0 \<le> bs_Requests scenario"
    using r by (auto simp: RunScenario_def split: option.splits sum.splits if_splits)
  obtain m where "r = benchResult scenario (sort (foldl (\<lambda>ls i. ls @ [fst (attempt i)]) [] [0..<?n]))
      (foldl (\<lambda>counts i. countOutcome (snd (attempt i)) counts) (0, 0) [0..<?n]) elapsed m"
    using r unfolding attempt_def by (auto simp: RunScenario_def Let_def split: option.splits sum.splits if_splits)
  then have "r = benchResult scenario ?lat (?yes, ?no) elapsed m"
    using sorted [OF refl] filters [OF refl] by (simp add: count_outcomes)
  then have "br_Success r = ?yes \<and> br_Failed r = ?no \<and> br_AvgLatency r = avgDuration ?lat \<and> br_P50Latency r = percentileDuration ?lat 50 \<and>
      br_P90Latency r = percentileDuration ?lat 90 \<and> br_P99Latency r = percentileDuration ?lat 99"
    by (simp add: benchResult_def)
  moreover have "?yes + ?no = bs_Requests scenario"
  proof -
    have "card {i. i < ?n \<and> ?ok i} + card {i. i < ?n \<and> \<not> ?ok i} = card ({i. i < ?n \<and> ?ok i} \<union> {i. i < ?n \<and> \<not> ?ok i})"
      by (intro card_Un_disjoint [symmetric]) auto
    also have "{i. i < ?n \<and> ?ok i} \<union> {i. i < ?n \<and> \<not> ?ok i} = {..<?n}"
      by auto
    finally show ?thesis
      using nonneg by simp
  qed
  ultimately show ?thesis
    using outcome r assms(2,3) by (simp add: Let_def)
qed

definition demo_scenario :: Scenario where
  "demo_scenario = (scenarioOf \<lparr>pf_Name = ''demo'', pf_Requests = 3, pf_Concurrency = 2, pf_MaxTokens = 4, pf_Timeout = Second\<rparr> ''demo'')
     \<lparr>bs_Model := [], bs_CacheKeyMode := CacheKeyModeUnique\<rparr>"

text \<open>Three calls, the second of which fails; the later ones are faster.\<close>

definition demo_answer :: "nat \<Rightarrow> GenerateRequest \<Rightarrow> duration \<times> answer" where
  "demo_answer i req = (30 - 10 * int i, if i = 1 then Inl ContextDeadlineExceeded
     else Inr (Some (ModelToProtoMsg ((newOutput (gr_RequestId req))\<lparr>out_FinishReason := FinishReasonStop\<rparr>))))"

definition demo_result :: "nat list \<Rightarrow> nat list \<Rightarrow> Result result option" where
  "demo_result l c = RunScenario (\<lambda>_. None) (\<lambda>_. []) (\<lambda>_ _. Inr None) demo_answer l c 100 (Inr []) (Inr []) demo_scenario"

lemma demo_result:
  "\<exists>r. demo_result [2, 0, 1] [0, 1, 2] = Some (Inr r) \<and> br_P50Latency r = 20 \<and> br_Success r = 2"
proof -
  have "case demo_result [2, 0, 1] [0, 1, 2] of Some (Inr r) \<Rightarrow> br_P50Latency r = 20 \<and> br_Success r = 2 | _ \<Rightarrow> False"
    by code_simp
  then show ?thesis
    by (auto split: option.splits sum.splits)
qed

theorem bench_counts_witness:
  "\<exists>r. demo_result [2, 0, 1] [0, 1, 2] = Some (Inr r) \<and> br_Success r = 2 \<and> br_Failed r = 1 \<and> br_P50Latency r = 20 \<and>
     demo_result [0, 1, 2] [2, 1, 0] = Some (Inr r)"
proof -
  obtain r where r: "demo_result [2, 0, 1] [0, 1, 2] = Some (Inr r)" "br_P50Latency r = 20" "br_Success r = 2"
    using demo_result by blast
  have n: "bs_Requests demo_scenario = 3"
    by (simp add: demo_scenario_def scenarioOf_def)
  have m: "mset [2, 0, 1] = mset [0..<nat (bs_Requests demo_scenario)]" "mset [0, 1, 2] = mset [0..<nat (bs_Requests demo_scenario)]"
      "mset [0, 1, 2] = mset [2, 0, 1 :: nat]" "mset [2, 1, 0] = mset [0, 1, 2 :: nat]"
    by (simp_all add: n upt_rec)
  note c = bench_counts [OF r(1) [unfolded demo_result_def] m(1,2)]
  show ?thesis
    using c r m(3,4) unfolding demo_result_def [symmetric] n by (intro exI [of _ r]) simp
qed

subsection \<open>Caches\<close>

lemma digits_value_zeros: "digits_value (replicate k CHR ''0'' @ ds) = digits_value ds"
  by (induction k) (simp_all add: digits_value_def)

lemma fmt_0d_inj: "fmt_0d w i = fmt_0d w j \<longleftrightarrow> i = j"
proof
  assume "fmt_0d w i = fmt_0d w j"
  then have "digits_value (fmt_d i) = digits_value (fmt_d j)"
    unfolding fmt_0d_def by (metis digits_value_zeros)
  then show "i = j"
    by (simp add: fmt_d_digits)
qed simp

text \<open>
  The cache salts of a scenario's requests, which decide what they share: in the unique mode and without a mode no two of
  them agree; in the shared mode they agree exactly for the same cache user, and the warm-up request of a user has the salt
  of the measured ones.
\<close>

theorem bench_salts:
  assumes "ProtoMsgToModel t (buildGenerateRequest s i) = Inr ri" and "ProtoMsgToModel u (buildGenerateRequest s j) = Inr rj"
    and "ProtoMsgToModel v (warmupRequest s k) = Inr wk"
  shows "(bs_CacheKeyMode s = CacheKeyModeShared \<longrightarrow>
      (rq_CacheSalt ri = rq_CacheSalt rj \<longleftrightarrow> int i mod max (bs_CacheUsers s) 1 = int j mod max (bs_CacheUsers s) 1) \<and>
      (int i mod max (bs_CacheUsers s) 1 = int k \<longrightarrow> rq_CacheSalt wk = rq_CacheSalt ri)) \<and>
    (bs_CacheKeyMode s \<noteq> CacheKeyModeShared \<longrightarrow> (rq_CacheSalt ri = rq_CacheSalt rj \<longleftrightarrow> i = j))"
proof -
  have salt: "rq_CacheSalt r = (if gr_UserId g = [] then ''request:'' @ gr_RequestId g else ''user:'' @ gr_UserId g)"
    if "ProtoMsgToModel n g = Inr r" for n g r
    using that by (auto simp: ProtoMsgToModel_def Let_def split: sum.splits)
  have mode: "nat (int a mod max (bs_CacheUsers s) 1) = nat (int b mod max (bs_CacheUsers s) 1) \<longleftrightarrow>
      int a mod max (bs_CacheUsers s) 1 = int b mod max (bs_CacheUsers s) 1" for a b
    by (auto simp: nat_eq_iff2)
  have user: "nat (int k mod max (bs_CacheUsers s) 1) = k" if "int i mod max (bs_CacheUsers s) 1 = int k"
    using that by (metis mod_mod_trivial nat_int)
  show ?thesis
    using salt [OF assms(1)] salt [OF assms(2)] salt [OF assms(3)]
    by (auto simp: buildGenerateRequest_def warmupRequest_def userId_def Let_def fmt_0d_inj mode user)
qed

theorem bench_salts_witness:
  "\<exists>s r0 r1 r2 w. bs_CacheKeyMode s = CacheKeyModeShared \<and> bs_CacheUsers s = 2 \<and>
     ProtoMsgToModel 0 (buildGenerateRequest s 0) = Inr r0 \<and> ProtoMsgToModel 0 (buildGenerateRequest s 1) = Inr r1 \<and>
     ProtoMsgToModel 0 (buildGenerateRequest s 2) = Inr r2 \<and> ProtoMsgToModel 0 (warmupRequest s 0) = Inr w \<and>
     rq_CacheSalt r0 = rq_CacheSalt r2 \<and> rq_CacheSalt r0 \<noteq> rq_CacheSalt r1 \<and> rq_CacheSalt w = rq_CacheSalt r2"
proof -
  let ?s = "demo_scenario\<lparr>bs_CacheKeyMode := CacheKeyModeShared, bs_CacheUsers := 2\<rparr>"
  have ok: "\<exists>r. ProtoMsgToModel 0 (buildGenerateRequest ?s i) = Inr r" "\<exists>r. ProtoMsgToModel 0 (warmupRequest ?s i) = Inr r" for i
    by (simp_all add: ProtoMsgToModel_def buildGenerateRequest_def warmupRequest_def demo_scenario_def scenarioOf_def ParseModelID_def)
  obtain r0 r1 r2 w where r: "ProtoMsgToModel 0 (buildGenerateRequest ?s 0) = Inr r0" "ProtoMsgToModel 0 (buildGenerateRequest ?s 1) = Inr r1"
      "ProtoMsgToModel 0 (buildGenerateRequest ?s 2) = Inr r2" "ProtoMsgToModel 0 (warmupRequest ?s 0) = Inr w"
    using ok by metis
  have m: "bs_CacheKeyMode ?s = CacheKeyModeShared" "bs_CacheUsers ?s = 2"
    by simp_all
  have "rq_CacheSalt r0 = rq_CacheSalt r1 \<longleftrightarrow> int 0 mod max 2 1 = int 1 mod max 2 1"
    "rq_CacheSalt r0 = rq_CacheSalt r2 \<longleftrightarrow> int 0 mod max 2 1 = int 2 mod max 2 1"
    "int 2 mod max 2 1 = int 0 \<longrightarrow> rq_CacheSalt w = rq_CacheSalt r2"
    using bench_salts [OF r(1,2,4)] bench_salts [OF r(1,3,4)] bench_salts [OF r(3,3,4)] m unfolding m by blast+
  then have salts: "rq_CacheSalt r0 = rq_CacheSalt r2" "rq_CacheSalt r0 \<noteq> rq_CacheSalt r1" "rq_CacheSalt w = rq_CacheSalt r2"
    by simp_all
  show ?thesis
    by (intro exI conjI) (rule m r salts)+
qed

subsection \<open>The benchmark against the engine\<close>

text \<open>What the client gets from the engine: its error or its response, or a time-out when the call does not return.\<close>

definition serve :: "'q tokenizer_env \<Rightarrow> time \<Rightarrow> time \<Rightarrow> (time \<times> selected) list \<Rightarrow> time \<Rightarrow> metrics \<Rightarrow> 'q engine \<Rightarrow> GenerateRequest \<Rightarrow> answer" where
  "serve env start decodedAt sel endAt m engine request = (case Generate env start decodedAt sel endAt request m engine of
     None \<Rightarrow> Inl ContextDeadlineExceeded
   | Some (Inl (_, err), _) \<Rightarrow> Inl err
   | Some (Inr resp, _) \<Rightarrow> Inr (Some resp))"

lemma scenario_models: "s \<in> set (ScenariosForProfile profile) \<Longrightarrow> bs_Model s = ''deepseek''"
  by (auto simp: ScenariosForProfile_def Let_def scenarioOf_def)

lemma deepseek_unknown: "ParseModelID ''deepseek'' = Inl (errors_New CodeInvalidArgument ''invalid model id: deepseek'')"
  by (simp add: ParseModelID_def Qwen3Model_def MockModel_def)

lemma deepseek_rejected:
  "gr_ModelId g = ''deepseek'' \<Longrightarrow> serve env start decodedAt sel endAt m engine g = Inl (errors_New CodeInvalidArgument ''invalid model id: deepseek'')"
  by (simp add: serve_def Generate_def ProtoMsgToModel_def deepseek_unknown failCall_eq Let_def)

lemma warmups_rejected:
  assumes "bs_Model s = ''deepseek''" "0 < bs_CacheUsers s"
  shows "\<exists>err. runWarmupRequests reasonString (\<lambda>i. serve env (start i) (decodedAt i) (sel i) (endAt i) (m i) (engine i)) s = Some err"
proof -
  obtain n where "nat (bs_CacheUsers s) = Suc n"
    using assms(2) by (cases "nat (bs_CacheUsers s)") simp_all
  then show ?thesis
    using assms(1) by (simp add: runWarmupRequests_def upt_rec deepseek_rejected warmupRequest_def buildGenerateRequest_def)
qed

lemma fatal_scenario:
  "s \<in> set ss \<Longrightarrow> (\<And>r. attempt (s\<lparr>bs_Target := target, bs_MetricsURL := url\<rparr>) \<noteq> Some (Inr r)) \<Longrightarrow> benchLoop attempt profile target url ss \<noteq> Some (results, None)"
  by (induction ss arbitrary: results) (fastforce split: bind_splits sum.splits option.splits)+

text \<open>
  C40: no benchmark against this engine ever passes: in whatever state its calls find the engine, the program ends with an
  error.  Every scenario names the model \<open>deepseek\<close>, which the engine does not know, so the warm-up of the second scenario
  fails if nothing has failed before.
\<close>

theorem benchmark_never_passes:
  "benchMain (\<lambda>s. RunScenario parseFloat reasonString (\<lambda>i. serve env (start i) (decodedAt i) (sel i) (endAt i) (m i) (engine i))
      (\<lambda>i req. (lat i, serve env (start' i) (decodedAt' i) (sel' i) (endAt' i) (m' i) (engine' i) req))
      latOrder cntOrder elapsed before after s) profileName target url \<noteq> Some (results, None)"
  (is "benchMain ?run _ _ _ \<noteq> _")
proof (cases "ProfilePreset profileName")
  case (Inr profile)
  let ?s = "ScenariosForProfile profile ! 1" and ?url = "if url = [] then target @ ''/metrics'' else url"
  have s: "?s \<in> set (ScenariosForProfile profile)" "bs_Model ?s = ''deepseek''" "0 < bs_CacheUsers ?s"
    by (simp_all add: ScenariosForProfile_def Let_def scenarioOf_def)
  have "?run (?s\<lparr>bs_Target := target, bs_MetricsURL := ?url\<rparr>) \<noteq> Some (Inr r)" for r
    using warmups_rejected [of "?s\<lparr>bs_Target := target, bs_MetricsURL := ?url\<rparr>" reasonString env start decodedAt sel endAt m engine] s(2,3)
    by (auto simp: RunScenario_def)
  from fatal_scenario [of ?s _ ?run, OF s(1) this] show ?thesis
    by (simp add: benchMain_def Inr)
qed (simp add: benchMain_def)

text \<open>A scenario without warm-up requests counts every request as failed.\<close>

theorem bench_requests_fail:
  assumes "s \<in> set (ScenariosForProfile profile)"
    and "RunScenario parseFloat reasonString warm (\<lambda>i req. (lat i, serve env (start i) (decodedAt i) (sel i) (endAt i) (m i) (engine i) req))
      latOrder cntOrder elapsed before after s = Some (Inr r)"
  shows "br_Success r = 0 \<and> br_Failed r = int (length cntOrder)"
  using assms(2) scenario_models [OF assms(1)]
  by (auto simp: RunScenario_def Let_def deepseek_rejected buildGenerateRequest_def count_outcomes requestSucceeded_def benchResult_def
      split: option.splits sum.splits if_splits)

text \<open>
  Prometheus names a sample of a labelled metric with its labels, as in \<open>llm_kv_allocation_failures_total{executor=...}\<close>, and the
  engine labels this metric with the executor: its failures never reach the check of a quick run.
\<close>

lemma if_either: "(c \<Longrightarrow> f a = x) \<Longrightarrow> (\<not> c \<Longrightarrow> f b = x) \<Longrightarrow> f (if c then a else b) = x"
  by simp

lemma unlabelled_failures: "name \<noteq> ''llm_kv_allocation_failures_total'' \<Longrightarrow> bm_KVAllocationFailures (addMetric name value m) = bm_KVAllocationFailures m"
  unfolding addMetric_def Let_def
  by (intro if_either [where f = bm_KVAllocationFailures]; (erule (1) notE | simp (no_asm)))

theorem allocation_failures_unseen:
  assumes "\<And>line name v. line \<in> set (Split before (CHR 10)) \<union> set (Split after (CHR 10)) \<Longrightarrow> Fields line = [name, v] \<Longrightarrow>
    starts_with name ''llm_kv_allocation_failures_total'' \<Longrightarrow> starts_with name ''llm_kv_allocation_failures_total{''"
  shows "bm_KVAllocationFailures (deltaBenchMetrics (parseBenchMetrics parseFloat before) (parseBenchMetrics parseFloat after)) = 0"
proof -
  have final: "bm_KVAllocationFailures (finalizeBenchMetrics m) = bm_KVAllocationFailures m" for m
    by (simp add: finalizeBenchMetrics_def Let_def)
  have line: "bm_KVAllocationFailures (addLine parseFloat m l) = bm_KVAllocationFailures m"
    if "l \<in> set (Split before (CHR 10)) \<union> set (Split after (CHR 10))" for m l
  proof -
    have "name \<noteq> ''llm_kv_allocation_failures_total''" if "Fields l = [name, v]" for name v
      using assms [OF \<open>l \<in> _\<close> that] by (auto simp: starts_with_def)
    then show ?thesis
      by (auto simp: addLine_def parseMetricLine_def unlabelled_failures split: list.splits option.splits)
  qed
  have "bm_KVAllocationFailures (foldl (addLine parseFloat) m ls) = bm_KVAllocationFailures m"
    if "set ls \<subseteq> set (Split before (CHR 10)) \<union> set (Split after (CHR 10))" for m ls
    using that by (induction ls arbitrary: m) (simp_all add: line)
  then show ?thesis
    by (simp add: deltaBenchMetrics_def Let_def final counterDelta_def parseBenchMetrics_def zero_BenchMetrics_def)
qed

end
