(* ===== verification/Rpc_Clients.thy ===== *)
theory Rpc_Clients
  imports "HOL-Library.Sublist" Transport Executor
begin

text \<open>
  The remote calls between the engine, its executors and its clients: the stubs of the three services
  (\<^verbatim>\<open>gen/go/kvtide/v1/kvtidev1connect\<close>) and the wrappers of \<^verbatim>\<open>cmd/client\<close>.  A stub is the HTTP client and the
  address it posts to; what the Connect library makes of a call is a parameter, on the client side the
  outcome of \<^verbatim>\<open>CallUnary\<close> and \<^verbatim>\<open>CallServerStream\<close>, on the server side the handler built of a method.
  A stub returns a pointer and an error: \<open>None\<close> is the nil pointer and the nil error.
\<close>

subsection \<open>What the stubs use of the library\<close>

text \<open>\<^verbatim>\<open>connect.Request\<close>, \<^verbatim>\<open>connect.Response\<close> and the client that \<^verbatim>\<open>connect.NewClient\<close> builds.\<close>

record 'm connect_request =
  cq_Msg :: 'm

record 'm connect_response =
  cp_Msg :: 'm

record http_transport =
  ht_MaxIdleConns :: int
  ht_MaxIdleConnsPerHost :: int
  ht_MaxConnsPerHost :: int
  ht_IdleConnTimeout :: duration
  ht_DialTimeout :: duration
  ht_DialKeepAlive :: duration
  ht_TLSHandshakeTimeout :: duration

record http_client =
  hc_Transport :: http_transport
  hc_Timeout :: duration

record connect_client =
  cc_HTTPClient :: http_client
  cc_URL :: string

type_synonym ('req, 'resp) unary_call =
  "connect_client \<Rightarrow> 'req connect_request \<Rightarrow> 'resp connect_response option \<times> error option"

text \<open>\<^verbatim>\<open>strings.TrimRight\<close> with a cutset of one character, and \<^verbatim>\<open>http.NotFound\<close>.\<close>

definition TrimRight :: "string \<Rightarrow> char \<Rightarrow> string" where
  "TrimRight s c = rev (dropWhile (\<lambda>d. d = c) (rev s))"

definition NotFound :: "'s handler" where
  "NotFound r w s = (http_Error ''404 page not found'' 404 w, s)"

text \<open>The body the unary methods of the stubs share.\<close>

definition stubUnary :: "('req, 'resp) unary_call \<Rightarrow> connect_client \<Rightarrow> 'req \<Rightarrow> 'resp option \<times> error option" where
  "stubUnary CallUnary c req = (case CallUnary c \<lparr>cq_Msg = req\<rparr> of
     (Some response, err) \<Rightarrow> (Some (cp_Msg response), err)
   | (None, err) \<Rightarrow> (None, err))"

subsection \<open>Messages\<close>

datatype GetRuntimeRequest = GetRuntimeRequest
datatype HealthRequest = HealthRequest
datatype GetRuntimeStatsRequest = GetRuntimeStatsRequest
datatype GetExecutorsRequest = GetExecutorsRequest
datatype ReleaseBlocksResponse = ReleaseBlocksResponse

record ReleaseBlocksRequest =
  rl_RuntimeEpoch :: u32
  rl_BlockIds :: "u32 list"

record GetExecutorsResponse =
  gx_Executors :: "GetRuntimeResponse list"

subsection \<open>The executor service (executor.connect.go)\<close>

definition ExecutorServiceGetRuntimeProcedure :: string where
  "ExecutorServiceGetRuntimeProcedure = ''/kvtide.v1.ExecutorService/GetRuntime''"
definition ExecutorServiceExecuteBatchProcedure :: string where
  "ExecutorServiceExecuteBatchProcedure = ''/kvtide.v1.ExecutorService/ExecuteBatch''"
definition ExecutorServiceReleaseBlocksProcedure :: string where
  "ExecutorServiceReleaseBlocksProcedure = ''/kvtide.v1.ExecutorService/ReleaseBlocks''"
definition ExecutorServiceTriggerKVPushProcedure :: string where
  "ExecutorServiceTriggerKVPushProcedure = ''/kvtide.v1.ExecutorService/TriggerKVPush''"
definition ExecutorServicePushKVProcedure :: string where
  "ExecutorServicePushKVProcedure = ''/kvtide.v1.ExecutorService/PushKV''"

record executorServiceClient =
  xc_getRuntime :: connect_client
  xc_executeBatch :: connect_client
  xc_releaseBlocks :: connect_client
  xc_triggerKVPush :: connect_client
  xc_pushKV :: connect_client

definition NewExecutorServiceClient :: "http_client \<Rightarrow> string \<Rightarrow> executorServiceClient" where
  "NewExecutorServiceClient httpClient baseURL0 =
     (let baseURL = TrimRight baseURL0 CHR ''/''
      in \<lparr>xc_getRuntime = \<lparr>cc_HTTPClient = httpClient, cc_URL = baseURL @ ExecutorServiceGetRuntimeProcedure\<rparr>,
          xc_executeBatch = \<lparr>cc_HTTPClient = httpClient, cc_URL = baseURL @ ExecutorServiceExecuteBatchProcedure\<rparr>,
          xc_releaseBlocks = \<lparr>cc_HTTPClient = httpClient, cc_URL = baseURL @ ExecutorServiceReleaseBlocksProcedure\<rparr>,
          xc_triggerKVPush = \<lparr>cc_HTTPClient = httpClient, cc_URL = baseURL @ ExecutorServiceTriggerKVPushProcedure\<rparr>,
          xc_pushKV = \<lparr>cc_HTTPClient = httpClient, cc_URL = baseURL @ ExecutorServicePushKVProcedure\<rparr>\<rparr>)"

definition executorServiceClient_GetRuntime ::
    "(GetRuntimeRequest, GetRuntimeResponse) unary_call \<Rightarrow> executorServiceClient \<Rightarrow> GetRuntimeRequest \<Rightarrow> GetRuntimeResponse option \<times> error option" where
  "executorServiceClient_GetRuntime call c req = stubUnary call (xc_getRuntime c) req"

definition executorServiceClient_ExecuteBatch ::
    "(ExecuteBatchRequest, ExecuteBatchResponse) unary_call \<Rightarrow> executorServiceClient \<Rightarrow> ExecuteBatchRequest \<Rightarrow> ExecuteBatchResponse option \<times> error option" where
  "executorServiceClient_ExecuteBatch call c req = stubUnary call (xc_executeBatch c) req"

definition executorServiceClient_ReleaseBlocks ::
    "(ReleaseBlocksRequest, ReleaseBlocksResponse) unary_call \<Rightarrow> executorServiceClient \<Rightarrow> ReleaseBlocksRequest \<Rightarrow> ReleaseBlocksResponse option \<times> error option" where
  "executorServiceClient_ReleaseBlocks call c req = stubUnary call (xc_releaseBlocks c) req"

definition executorServiceClient_TriggerKVPush ::
    "(TriggerKVPushRequest, TriggerKVPushResponse) unary_call \<Rightarrow> executorServiceClient \<Rightarrow> TriggerKVPushRequest \<Rightarrow> TriggerKVPushResponse option \<times> error option" where
  "executorServiceClient_TriggerKVPush call c req = stubUnary call (xc_triggerKVPush c) req"

text \<open>The engine never calls \<^verbatim>\<open>PushKV\<close>: the messages stay abstract.\<close>

definition executorServiceClient_PushKV ::
    "('req, 'resp) unary_call \<Rightarrow> executorServiceClient \<Rightarrow> 'req \<Rightarrow> 'resp option \<times> error option" where
  "executorServiceClient_PushKV call c req = stubUnary call (xc_pushKV c) req"

text \<open>
  The server side: a service is given by the HTTP handlers that \<^verbatim>\<open>NewUnaryHandlerSimple\<close> and
  \<^verbatim>\<open>NewServerStreamHandlerSimple\<close> build of its methods for the procedure they are registered under.
\<close>

record 's ExecutorServiceHandler =
  eh_GetRuntime :: "string \<Rightarrow> 's handler"
  eh_ExecuteBatch :: "string \<Rightarrow> 's handler"
  eh_ReleaseBlocks :: "string \<Rightarrow> 's handler"
  eh_TriggerKVPush :: "string \<Rightarrow> 's handler"
  eh_PushKV :: "string \<Rightarrow> 's handler"

definition NewExecutorServiceHandler :: "'s ExecutorServiceHandler \<Rightarrow> string \<times> 's handler" where
  "NewExecutorServiceHandler svc =
     (''/kvtide.v1.ExecutorService/'', \<lambda>r.
        if hr_Path r = ExecutorServiceGetRuntimeProcedure then eh_GetRuntime svc ExecutorServiceGetRuntimeProcedure r
        else if hr_Path r = ExecutorServiceExecuteBatchProcedure then eh_ExecuteBatch svc ExecutorServiceExecuteBatchProcedure r
        else if hr_Path r = ExecutorServiceReleaseBlocksProcedure then eh_ReleaseBlocks svc ExecutorServiceReleaseBlocksProcedure r
        else if hr_Path r = ExecutorServiceTriggerKVPushProcedure then eh_TriggerKVPush svc ExecutorServiceTriggerKVPushProcedure r
        else if hr_Path r = ExecutorServicePushKVProcedure then eh_PushKV svc ExecutorServicePushKVProcedure r
        else NotFound r)"

subsection \<open>The inference and admin services (service.connect.go)\<close>

definition InferenceServiceGenerateProcedure :: string where
  "InferenceServiceGenerateProcedure = ''/kvtide.v1.InferenceService/Generate''"
definition InferenceServiceGenerateStreamProcedure :: string where
  "InferenceServiceGenerateStreamProcedure = ''/kvtide.v1.InferenceService/GenerateStream''"
definition AdminServiceHealthProcedure :: string where
  "AdminServiceHealthProcedure = ''/kvtide.v1.AdminService/Health''"
definition AdminServiceGetRuntimeStatsProcedure :: string where
  "AdminServiceGetRuntimeStatsProcedure = ''/kvtide.v1.AdminService/GetRuntimeStats''"
definition AdminServiceGetExecutorsProcedure :: string where
  "AdminServiceGetExecutorsProcedure = ''/kvtide.v1.AdminService/GetExecutors''"

record inferenceServiceClient =
  nc_generate :: connect_client
  nc_generateStream :: connect_client

definition NewInferenceServiceClient :: "http_client \<Rightarrow> string \<Rightarrow> inferenceServiceClient" where
  "NewInferenceServiceClient httpClient baseURL0 =
     (let baseURL = TrimRight baseURL0 CHR ''/''
      in \<lparr>nc_generate = \<lparr>cc_HTTPClient = httpClient, cc_URL = baseURL @ InferenceServiceGenerateProcedure\<rparr>,
          nc_generateStream = \<lparr>cc_HTTPClient = httpClient, cc_URL = baseURL @ InferenceServiceGenerateStreamProcedure\<rparr>\<rparr>)"

definition inferenceServiceClient_Generate ::
    "(GenerateRequest, GenerateResponse) unary_call \<Rightarrow> inferenceServiceClient \<Rightarrow> GenerateRequest \<Rightarrow> GenerateResponse option \<times> error option" where
  "inferenceServiceClient_Generate call c req = stubUnary call (nc_generate c) req"

text \<open>\<open>'st\<close> is the stream of chunks the Connect client opens.\<close>

definition inferenceServiceClient_GenerateStream ::
    "(connect_client \<Rightarrow> GenerateRequest connect_request \<Rightarrow> 'st option \<times> error option) \<Rightarrow> inferenceServiceClient \<Rightarrow> GenerateRequest \<Rightarrow> 'st option \<times> error option" where
  "inferenceServiceClient_GenerateStream CallServerStream c req = CallServerStream (nc_generateStream c) \<lparr>cq_Msg = req\<rparr>"

record 's InferenceServiceHandler =
  nh_Generate :: "string \<Rightarrow> 's handler"
  nh_GenerateStream :: "string \<Rightarrow> 's handler"

definition NewInferenceServiceHandler :: "'s InferenceServiceHandler \<Rightarrow> string \<times> 's handler" where
  "NewInferenceServiceHandler svc =
     (''/kvtide.v1.InferenceService/'', \<lambda>r.
        if hr_Path r = InferenceServiceGenerateProcedure then nh_Generate svc InferenceServiceGenerateProcedure r
        else if hr_Path r = InferenceServiceGenerateStreamProcedure then nh_GenerateStream svc InferenceServiceGenerateStreamProcedure r
        else NotFound r)"

record adminServiceClient =
  ac_health :: connect_client
  ac_getRuntimeStats :: connect_client
  ac_getExecutors :: connect_client

definition NewAdminServiceClient :: "http_client \<Rightarrow> string \<Rightarrow> adminServiceClient" where
  "NewAdminServiceClient httpClient baseURL0 =
     (let baseURL = TrimRight baseURL0 CHR ''/''
      in \<lparr>ac_health = \<lparr>cc_HTTPClient = httpClient, cc_URL = baseURL @ AdminServiceHealthProcedure\<rparr>,
          ac_getRuntimeStats = \<lparr>cc_HTTPClient = httpClient, cc_URL = baseURL @ AdminServiceGetRuntimeStatsProcedure\<rparr>,
          ac_getExecutors = \<lparr>cc_HTTPClient = httpClient, cc_URL = baseURL @ AdminServiceGetExecutorsProcedure\<rparr>\<rparr>)"

definition adminServiceClient_Health ::
    "(HealthRequest, HealthResponse) unary_call \<Rightarrow> adminServiceClient \<Rightarrow> HealthRequest \<Rightarrow> HealthResponse option \<times> error option" where
  "adminServiceClient_Health call c req = stubUnary call (ac_health c) req"

definition adminServiceClient_GetRuntimeStats ::
    "(GetRuntimeStatsRequest, GetRuntimeStatsResponse) unary_call \<Rightarrow> adminServiceClient \<Rightarrow> GetRuntimeStatsRequest \<Rightarrow>
       GetRuntimeStatsResponse option \<times> error option" where
  "adminServiceClient_GetRuntimeStats call c req = stubUnary call (ac_getRuntimeStats c) req"

definition adminServiceClient_GetExecutors ::
    "(GetExecutorsRequest, GetExecutorsResponse) unary_call \<Rightarrow> adminServiceClient \<Rightarrow> GetExecutorsRequest \<Rightarrow> GetExecutorsResponse option \<times> error option" where
  "adminServiceClient_GetExecutors call c req = stubUnary call (ac_getExecutors c) req"

record 's AdminServiceHandler =
  ah_Health :: "string \<Rightarrow> 's handler"
  ah_GetRuntimeStats :: "string \<Rightarrow> 's handler"
  ah_GetExecutors :: "string \<Rightarrow> 's handler"

definition NewAdminServiceHandler :: "'s AdminServiceHandler \<Rightarrow> string \<times> 's handler" where
  "NewAdminServiceHandler svc =
     (''/kvtide.v1.AdminService/'', \<lambda>r.
        if hr_Path r = AdminServiceHealthProcedure then ah_Health svc AdminServiceHealthProcedure r
        else if hr_Path r = AdminServiceGetRuntimeStatsProcedure then ah_GetRuntimeStats svc AdminServiceGetRuntimeStatsProcedure r
        else if hr_Path r = AdminServiceGetExecutorsProcedure then ah_GetExecutors svc AdminServiceGetExecutorsProcedure r
        else NotFound r)"

subsection \<open>The wrappers (cmd/client)\<close>

text \<open>
  A wrapper connects to the first of its endpoints; without one the index is out of range, the panic
  \<open>None\<close>.  Durations are 64-bit: the timeout of the executor client is computed modulo \<open>2 ^ 64\<close>.
\<close>

definition newLongConnTransport :: http_transport where
  "newLongConnTransport = \<lparr>ht_MaxIdleConns = 0, ht_MaxIdleConnsPerHost = 0, ht_MaxConnsPerHost = 0, ht_IdleConnTimeout = 0,
     ht_DialTimeout = 5 * 1000 * Millisecond, ht_DialKeepAlive = 30 * 1000 * Millisecond,
     ht_TLSHandshakeTimeout = 10 * 1000 * Millisecond\<rparr>"

record ExecutorClient =
  wx_ExecutorServiceClient :: executorServiceClient
  wx_httpClient :: http_client
  wx_endpoints :: "string list"

definition NewExecutorClient :: "string list \<Rightarrow> int \<Rightarrow> ExecutorClient option" where
  "NewExecutorClient endpoints timeoutMs =
     (let httpClient = \<lparr>hc_Transport = newLongConnTransport, hc_Timeout = signed_take_bit 63 (timeoutMs * Millisecond)\<rparr>
      in case endpoints of [] \<Rightarrow> None
       | e # _ \<Rightarrow> Some \<lparr>wx_ExecutorServiceClient = NewExecutorServiceClient httpClient e,
                         wx_httpClient = httpClient, wx_endpoints = endpoints\<rparr>)"

definition ExecutorClient_ExecuteBatch ::
    "(ExecuteBatchRequest, ExecuteBatchResponse) unary_call \<Rightarrow> ExecutorClient \<Rightarrow> ExecuteBatchRequest \<Rightarrow> ExecuteBatchResponse option \<times> error option" where
  "ExecutorClient_ExecuteBatch call e request = executorServiceClient_ExecuteBatch call (wx_ExecutorServiceClient e) request"

text \<open>Neither an answer nor an error would be a nil dereference in the conversion.\<close>

definition ExecutorClient_GetRuntime :: "(GetRuntimeRequest, GetRuntimeResponse) unary_call \<Rightarrow> ExecutorClient \<Rightarrow> ExecutorStats result option" where
  "ExecutorClient_GetRuntime call e =
     (case executorServiceClient_GetRuntime call (wx_ExecutorServiceClient e) GetRuntimeRequest of
        (_, Some err) \<Rightarrow> Some (Inl err)
      | (Some resp, None) \<Rightarrow> Some (Inr (RuntimeProtoToModel resp))
      | (None, None) \<Rightarrow> None)"

definition ExecutorClient_ReleaseBlocks ::
    "(ReleaseBlocksRequest, ReleaseBlocksResponse) unary_call \<Rightarrow> ExecutorClient \<Rightarrow> u32 \<Rightarrow> u32 list \<Rightarrow> ReleaseBlocksResponse option \<times> error option" where
  "ExecutorClient_ReleaseBlocks call e epoch blockIds =
     executorServiceClient_ReleaseBlocks call (wx_ExecutorServiceClient e) \<lparr>rl_RuntimeEpoch = epoch, rl_BlockIds = blockIds\<rparr>"

definition ExecutorClient_TriggerKVPush ::
    "(TriggerKVPushRequest, TriggerKVPushResponse) unary_call \<Rightarrow> ExecutorClient \<Rightarrow> TriggerKVPushRequest \<Rightarrow> TriggerKVPushResponse option \<times> error option" where
  "ExecutorClient_TriggerKVPush call e request = executorServiceClient_TriggerKVPush call (wx_ExecutorServiceClient e) request"

record InferenceClient =
  wn_httpClient :: http_client
  wn_endpoints :: "string list"
  wn_inferenceClient :: inferenceServiceClient

definition NewClient :: "string list \<Rightarrow> duration \<Rightarrow> InferenceClient option" where
  "NewClient endpoints timeout =
     (let httpClient = \<lparr>hc_Transport = newLongConnTransport, hc_Timeout = timeout\<rparr>
      in case endpoints of [] \<Rightarrow> None
       | e # _ \<Rightarrow> Some \<lparr>wn_httpClient = httpClient, wn_endpoints = endpoints,
                         wn_inferenceClient = NewInferenceServiceClient httpClient e\<rparr>)"

definition InferenceClient_Generate ::
    "(GenerateRequest, GenerateResponse) unary_call \<Rightarrow> InferenceClient \<Rightarrow> GenerateRequest \<Rightarrow> GenerateResponse option \<times> error option" where
  "InferenceClient_Generate call c request = inferenceServiceClient_Generate call (wn_inferenceClient c) request"

definition InferenceClient_GenerateStream ::
    "(connect_client \<Rightarrow> GenerateRequest connect_request \<Rightarrow> 'st option \<times> error option) \<Rightarrow> InferenceClient \<Rightarrow> GenerateRequest \<Rightarrow> 'st option \<times> error option" where
  "InferenceClient_GenerateStream open c req = inferenceServiceClient_GenerateStream open (wn_inferenceClient c) req"

record AdminClient =
  wa_httpClient :: http_client
  wa_endpoints :: "string list"
  wa_client :: adminServiceClient

definition NewAdminClient :: "string list \<Rightarrow> AdminClient option" where
  "NewAdminClient endpoints =
     (let httpClient = \<lparr>hc_Transport = newLongConnTransport, hc_Timeout = 10 * 1000 * Millisecond\<rparr>
      in case endpoints of [] \<Rightarrow> None
       | e # _ \<Rightarrow> Some \<lparr>wa_httpClient = httpClient, wa_endpoints = endpoints, wa_client = NewAdminServiceClient httpClient e\<rparr>)"

definition AdminClient_Health ::
    "(HealthRequest, HealthResponse) unary_call \<Rightarrow> AdminClient \<Rightarrow> HealthRequest \<Rightarrow> HealthResponse option \<times> error option" where
  "AdminClient_Health call a request = adminServiceClient_Health call (wa_client a) request"

definition AdminClient_GetRuntimeStats ::
    "(GetRuntimeStatsRequest, GetRuntimeStatsResponse) unary_call \<Rightarrow> AdminClient \<Rightarrow> GetRuntimeStatsRequest \<Rightarrow>
       GetRuntimeStatsResponse option \<times> error option" where
  "AdminClient_GetRuntimeStats call a request = adminServiceClient_GetRuntimeStats call (wa_client a) request"

subsection \<open>Calls and routes\<close>

lemmas procedure_defs = ExecutorServiceGetRuntimeProcedure_def ExecutorServiceExecuteBatchProcedure_def
  ExecutorServiceReleaseBlocksProcedure_def ExecutorServiceTriggerKVPushProcedure_def ExecutorServicePushKVProcedure_def
  InferenceServiceGenerateProcedure_def InferenceServiceGenerateStreamProcedure_def
  AdminServiceHealthProcedure_def AdminServiceGetRuntimeStatsProcedure_def AdminServiceGetExecutorsProcedure_def

text \<open>The origin of a base URL: what is left without the slashes at its end.\<close>

lemma TrimRight_slashes:
  assumes "origin = [] \<or> last origin \<noteq> c"
  shows "TrimRight (origin @ replicate n c) c = origin"
proof -
  have "dropWhile (\<lambda>d. d = c) (replicate n c @ rev origin) = dropWhile (\<lambda>d. d = c) (rev origin)"
    by (induction n) simp_all
  also have "\<dots> = rev origin"
    using assms by (cases origin rule: rev_cases) simp_all
  finally show ?thesis
    by (simp add: TrimRight_def)
qed

text \<open>Every procedure lies under the path its service is mounted on.\<close>

lemma procedures_mounted:
  "\<forall>p \<in> {ExecutorServiceGetRuntimeProcedure, ExecutorServiceExecuteBatchProcedure, ExecutorServiceReleaseBlocksProcedure,
     ExecutorServiceTriggerKVPushProcedure, ExecutorServicePushKVProcedure}. prefix (fst (NewExecutorServiceHandler xs)) p"
  "\<forall>p \<in> {InferenceServiceGenerateProcedure, InferenceServiceGenerateStreamProcedure}. prefix (fst (NewInferenceServiceHandler ns)) p"
  "\<forall>p \<in> {AdminServiceHealthProcedure, AdminServiceGetRuntimeStatsProcedure, AdminServiceGetExecutorsProcedure}.
     prefix (fst (NewAdminServiceHandler as)) p"
  by (simp_all add: procedure_defs NewExecutorServiceHandler_def NewInferenceServiceHandler_def NewAdminServiceHandler_def)

end
