(* ===== verification/Rpc_Properties.thy ===== *)
theory Rpc_Properties
  imports Rpc_Clients Transport_Properties Executor_Properties
begin

text \<open>
  What the remote calls reach: the address a client posts to is routed by the service to the method the
  client meant, through the cross-origin gate of the engine's server, and nothing else runs.
\<close>

subsection \<open>Routing\<close>

lemmas handler_defs = NewExecutorServiceHandler_def NewInferenceServiceHandler_def NewAdminServiceHandler_def

lemma executor_routes:
  defines "serve \<equiv> \<lambda>svc. snd (NewExecutorServiceHandler svc)"
  shows "hr_Path r = ExecutorServiceGetRuntimeProcedure \<Longrightarrow> serve svc r = eh_GetRuntime svc ExecutorServiceGetRuntimeProcedure r"
    "hr_Path r = ExecutorServiceExecuteBatchProcedure \<Longrightarrow> serve svc r = eh_ExecuteBatch svc ExecutorServiceExecuteBatchProcedure r"
    "hr_Path r = ExecutorServiceReleaseBlocksProcedure \<Longrightarrow> serve svc r = eh_ReleaseBlocks svc ExecutorServiceReleaseBlocksProcedure r"
    "hr_Path r = ExecutorServiceTriggerKVPushProcedure \<Longrightarrow> serve svc r = eh_TriggerKVPush svc ExecutorServiceTriggerKVPushProcedure r"
    "hr_Path r = ExecutorServicePushKVProcedure \<Longrightarrow> serve svc r = eh_PushKV svc ExecutorServicePushKVProcedure r"
  by (simp_all add: assms handler_defs procedure_defs)

lemma inference_routes:
  defines "serve \<equiv> \<lambda>svc. snd (NewInferenceServiceHandler svc)"
  shows "hr_Path r = InferenceServiceGenerateProcedure \<Longrightarrow> serve svc r = nh_Generate svc InferenceServiceGenerateProcedure r"
    "hr_Path r = InferenceServiceGenerateStreamProcedure \<Longrightarrow> serve svc r = nh_GenerateStream svc InferenceServiceGenerateStreamProcedure r"
  by (simp_all add: assms handler_defs procedure_defs)

lemma admin_routes:
  defines "serve \<equiv> \<lambda>svc. snd (NewAdminServiceHandler svc)"
  shows "hr_Path r = AdminServiceHealthProcedure \<Longrightarrow> serve svc r = ah_Health svc AdminServiceHealthProcedure r"
    "hr_Path r = AdminServiceGetRuntimeStatsProcedure \<Longrightarrow> serve svc r = ah_GetRuntimeStats svc AdminServiceGetRuntimeStatsProcedure r"
    "hr_Path r = AdminServiceGetExecutorsProcedure \<Longrightarrow> serve svc r = ah_GetExecutors svc AdminServiceGetExecutorsProcedure r"
  by (simp_all add: assms handler_defs procedure_defs)

text \<open>
  Every call of an executor client reaches its own method of the executor that listens at the client's
  first endpoint, however many slashes the configured endpoint ends with: the path of the request is
  the address the call posts to without the origin.
\<close>

theorem executor_calls_reach_methods:
  fixes svc :: "'s ExecutorServiceHandler"
  assumes "origin = [] \<or> last origin \<noteq> CHR ''/''"
    and "NewExecutorClient ((origin @ replicate n CHR ''/'') # endpoints) timeoutMs = Some e"
  defines "c \<equiv> wx_ExecutorServiceClient e" and "serve \<equiv> snd (NewExecutorServiceHandler svc)"
  shows "(cc_URL (xc_getRuntime c) = origin @ hr_Path r \<longrightarrow> serve r = eh_GetRuntime svc ExecutorServiceGetRuntimeProcedure r) \<and>
    (cc_URL (xc_executeBatch c) = origin @ hr_Path r \<longrightarrow> serve r = eh_ExecuteBatch svc ExecutorServiceExecuteBatchProcedure r) \<and>
    (cc_URL (xc_releaseBlocks c) = origin @ hr_Path r \<longrightarrow> serve r = eh_ReleaseBlocks svc ExecutorServiceReleaseBlocksProcedure r) \<and>
    (cc_URL (xc_triggerKVPush c) = origin @ hr_Path r \<longrightarrow> serve r = eh_TriggerKVPush svc ExecutorServiceTriggerKVPushProcedure r) \<and>
    (cc_URL (xc_pushKV c) = origin @ hr_Path r \<longrightarrow> serve r = eh_PushKV svc ExecutorServicePushKVProcedure r)"
proof -
  have "c = NewExecutorServiceClient (wx_httpClient e) (origin @ replicate n CHR ''/'')"
    using assms(2) by (auto simp: NewExecutorClient_def c_def Let_def)
  then show ?thesis
    by (simp add: NewExecutorServiceClient_def TrimRight_slashes [OF assms(1)] executor_routes serve_def)
qed

text \<open>Any other path is answered with 404 and runs no method.\<close>

theorem unknown_procedure_not_found:
  assumes "hr_Path r \<notin> {ExecutorServiceGetRuntimeProcedure, ExecutorServiceExecuteBatchProcedure, ExecutorServiceReleaseBlocksProcedure,
      ExecutorServiceTriggerKVPushProcedure, ExecutorServicePushKVProcedure}"
    and "rw_Status w = None"
  shows "\<exists>w'. snd (NewExecutorServiceHandler svc) r w s = (w', s) \<and> rw_Status w' = Some 404"
  using assms by (simp add: handler_defs NotFound_def http_Error_def header_Set_def WriteHeader_def Let_def)

subsection \<open>Through the server of the engine\<close>

text \<open>The gate passes every request but a preflight on, with headers added at most.\<close>

lemma withCORS_passes:
  assumes "hr_Method r \<noteq> MethodOptions"
  shows "\<exists>w'. withCORS origins nextHandler r w s = nextHandler r w' s \<and> rw_Status w' = rw_Status w \<and> rw_Body w' = rw_Body w"
  using assms by (auto simp: withCORS_def Let_def header_Add_def header_Set_def)

text \<open>
  A call of the inference client reaches its method behind the engine's server: the multiplexer hands a
  request under the path a handler is mounted on to that handler.
\<close>

theorem inference_calls_reach_methods:
  fixes svc :: "'s InferenceServiceHandler"
  assumes "origin = [] \<or> last origin \<noteq> CHR ''/''"
    and "NewClient ((origin @ replicate n CHR ''/'') # endpoints) timeout = Some c"
    and "NewLLMServingServer serverConf mux = Some srv"
    and mounted: "\<And>q. prefix (fst (NewInferenceServiceHandler svc)) (hr_Path q) \<Longrightarrow> mux q = snd (NewInferenceServiceHandler svc) q"
    and "hr_Method r \<noteq> MethodOptions"
  shows "(cc_URL (nc_generate (wn_inferenceClient c)) = origin @ hr_Path r \<longrightarrow>
      (\<exists>w'. hs_Handler srv r w s = nh_Generate svc InferenceServiceGenerateProcedure r w' s \<and> rw_Status w' = rw_Status w \<and> rw_Body w' = rw_Body w)) \<and>
    (cc_URL (nc_generateStream (wn_inferenceClient c)) = origin @ hr_Path r \<longrightarrow>
      (\<exists>w'. hs_Handler srv r w s = nh_GenerateStream svc InferenceServiceGenerateStreamProcedure r w' s \<and> rw_Status w' = rw_Status w \<and> rw_Body w' = rw_Body w))"
proof -
  have c: "wn_inferenceClient c = NewInferenceServiceClient (wn_httpClient c) (origin @ replicate n CHR ''/'')"
    using assms(2) by (auto simp: NewClient_def Let_def)
  have srv: "hs_Handler srv = withCORS (sv_AllowedOrigins (cf_Server serverConf)) mux"
    using assms(3) by (auto simp: NewLLMServingServer_def split: sum.splits)
  have mux: "mux r = nh_Generate svc InferenceServiceGenerateProcedure r" if "hr_Path r = InferenceServiceGenerateProcedure"
    using mounted [of r] that procedures_mounted(2) [of svc] by (simp add: inference_routes)
  have muxs: "mux r = nh_GenerateStream svc InferenceServiceGenerateStreamProcedure r" if "hr_Path r = InferenceServiceGenerateStreamProcedure"
    using mounted [of r] that procedures_mounted(2) [of svc] by (simp add: inference_routes)
  show ?thesis
    using withCORS_passes [OF assms(5), of "sv_AllowedOrigins (cf_Server serverConf)" mux w s] mux muxs
    by (auto simp: c srv NewInferenceServiceClient_def TrimRight_slashes [OF assms(1)])
qed

lemma demo_port: "ExtractPortNumber '':80'' = Inr 80"
  by code_simp

definition demo_inference :: "nat InferenceServiceHandler" where
  "demo_inference = \<lparr>nh_Generate = \<lambda>p r w s. (WriteHeader 200 w, s + 1), nh_GenerateStream = \<lambda>p r w s. (w, s + 2)\<rparr>"

definition demo_generate :: http_request where
  "demo_generate = \<lparr>hr_Method = ''POST'', hr_Path = InferenceServiceGenerateProcedure, hr_Header = fmempty\<rparr>"

theorem inference_calls_reach_methods_witness:
  "\<exists>w'. hs_Handler (the (NewLLMServingServer demo_conf (snd (NewInferenceServiceHandler demo_inference)))) demo_generate
     \<lparr>rw_Header = fmempty, rw_Status = None, rw_Body = []\<rparr> 0 = (w', 1) \<and> rw_Status w' = Some 200"
proof -
  let ?w = "\<lparr>rw_Header = fmempty, rw_Status = None, rw_Body = []\<rparr>" and ?origin = "''http://h:80''"
  let ?mux = "snd (NewInferenceServiceHandler demo_inference)"
  obtain c where c: "NewClient ((?origin @ replicate 1 CHR ''/'') # []) 1 = Some c"
    by (simp add: NewClient_def Let_def)
  obtain srv where srv: "NewLLMServingServer demo_conf ?mux = Some srv"
    by (simp add: NewLLMServingServer_def demo_conf_def demo_port)
  have url: "cc_URL (nc_generate (wn_inferenceClient c)) = ?origin @ hr_Path demo_generate"
    using c by (auto simp: NewClient_def NewInferenceServiceClient_def TrimRight_def Let_def demo_generate_def)
  have "\<exists>w'. hs_Handler srv demo_generate ?w 0 = nh_Generate demo_inference InferenceServiceGenerateProcedure demo_generate w' 0 \<and>
      rw_Status w' = rw_Status ?w \<and> rw_Body w' = rw_Body ?w"
    by (rule inference_calls_reach_methods [OF _ c srv, THEN conjunct1, THEN mp, OF _ _ _ url])
      (simp_all add: demo_generate_def MethodOptions_def)
  then show ?thesis
    unfolding srv option.sel by (auto simp: demo_inference_def WriteHeader_def)
qed

subsection \<open>The connection settings\<close>

text \<open>\<^verbatim>\<open>net/http\<close>: zero idle connections per host stands for the default of two, a negative number for none.\<close>

definition idleConnsPerHost :: "http_transport \<Rightarrow> int" where
  "idleConnsPerHost t = (if ht_MaxIdleConnsPerHost t = 0 then 2 else max 0 (ht_MaxIdleConnsPerHost t))"

text \<open>
  Every client keeps a pool of two idle connections per host: the third connection that falls idle is
  closed.
\<close>

theorem clients_pool_two_connections:
  "NewExecutorClient endpoints timeoutMs = Some e \<Longrightarrow> idleConnsPerHost (hc_Transport (wx_httpClient e)) = 2"
  "NewClient endpoints timeout = Some c \<Longrightarrow> idleConnsPerHost (hc_Transport (wn_httpClient c)) = 2"
  "NewAdminClient endpoints = Some a \<Longrightarrow> idleConnsPerHost (hc_Transport (wa_httpClient a)) = 2"
  by (auto simp: NewExecutorClient_def NewClient_def NewAdminClient_def newLongConnTransport_def idleConnsPerHost_def Let_def
      split: list.splits)

text \<open>A wrapper without an endpoint panics; the configuration check of the executors excludes it there.\<close>

theorem client_needs_endpoint:
  "NewExecutorClient endpoints timeoutMs = None \<longleftrightarrow> endpoints = []"
  "NewClient endpoints timeout = None \<longleftrightarrow> endpoints = []"
  "NewAdminClient endpoints = None \<longleftrightarrow> endpoints = []"
  by (auto simp: NewExecutorClient_def NewClient_def NewAdminClient_def Let_def split: list.splits)

end
