(* ===== verification/Spec2Isabelle.thy ===== *)
theory Spec2Isabelle
  imports State_Properties Placement_Properties Sched_Properties Lock_Free_Queue Util_Properties Handler_Properties Transport_Properties Startup Bench_Properties Rpc_Properties
begin

text \<open>
  Verification of kvtide, an LLM serving engine with paged KV blocks, from its Go sources.

  The program.  A request enters by the inference service, is tokenized and bound to an executor by the
  handler, registered by the request state manager, which looks up its cached prefix in the block
  registry, and waits as a prefill item in a queue of the scheduler.  The batch loop allocates KV blocks
  for waiting items, assembles a batch under token and sequence budgets and submits it to the executor
  manager, whose consumer of that executor runs it remotely and turns the results into events.  The event
  loop commits or rolls back the blocks of the item, advances the request, queues the next item and
  delivers the event to the request's channel; a forwarder per stream turns events into outputs.  Apart
  from this, the placement coordinator copies cached prefixes between executors, and the admin service
  reports runtimes and metrics.

  Conventions.  An unsigned integer is a word of its width and wraps; \<^verbatim>\<open>int64\<close>, durations and times are
  integers in nanoseconds; a string is its UTF-8 bytes; a map is a finite map; a pointer or interface
  that may be nil is an option.  \<open>None\<close> as the result of an operation is a panic or a send that waits for ever;
  an error is \<open>Inl\<close> of the type \<open>error\<close>.  Operations take and return the state they change; clock readings,
  generated identifiers and the choices of a \<^verbatim>\<open>select\<close> are arguments.  An operation is given as a
  function first, which is what it does when nothing interrupts it; where a mutex covers it this is all there is to it.  The
  operations of the engine that no mutex covers are given again as programs of atomic actions, which goroutines interleave.

  Theories, in the order of the components under \<^verbatim>\<open>src\<close>.
  \<^item> \<open>Kv_Prelude\<close>, \<open>Kv_Strings\<close>: slices, finite maps, words, \<^verbatim>\<open>strings\<close>.  \<open>Kv_Errors\<close>, \<open>Kv_Model\<close>, \<open>Kv_Conf\<close>,
    \<open>Kv_Metrics\<close>, \<open>Kv_Utils\<close>: \<^verbatim>\<open>internal/errors\<close>, \<^verbatim>\<open>model\<close>, \<^verbatim>\<open>conf\<close>, \<^verbatim>\<open>metrics\<close>, \<^verbatim>\<open>utils\<close>; \<open>Util_Properties\<close>: identifiers, ports and tokens.
  \<^item> \<open>Sha256\<close>, \<open>Sha3\<close>, \<open>Tokenizer\<close>: \<^verbatim>\<open>internal/tokenizer\<close> and the hash functions of the standard library.
  \<^item> \<open>Block_Queue\<close>, \<open>Block_Manager\<close>: \<^verbatim>\<open>internal/block/block.go\<close> and \<^verbatim>\<open>queue.go\<close>, the free list with reference counts as a linked list
    over block indices (the locale \<open>free_queue\<close> is its contract), prefix hashes, allocation, commit, rollback, transfers.
    \<open>Block_Refs\<close>, \<open>Block_Invariant\<close>, \<open>Block_Lifecycle\<close>, \<open>Block_Commit\<close>, \<open>Block_Transfer\<close>, \<open>Prefix_Hash\<close>: the manager's invariant, reference
    accounting with multisets, and that each operation keeps it.
  \<^item> \<open>Block_Registry\<close>, \<open>Registry_Invariant\<close>, \<open>Registry_Safety\<close>: \<^verbatim>\<open>registry.go\<close>, two-sided transfers over the locale \<open>kv_endpoint\<close>, and
    the registry as a transition system.  \<open>Block_Properties\<close>: ownership of blocks, absence of panics, contracts.
  \<^item> \<open>Request_State\<close>, \<open>Request_Invariant\<close>, \<open>State_Properties\<close>: \<^verbatim>\<open>internal/state\<close>, requests, phases, channels and token accounting.
  \<^item> \<open>Executor\<close>, \<open>Executor_Manager\<close>, \<open>Executor_Invariant\<close>, \<open>Executor_Drain\<close>, \<open>Executor_Properties\<close>: \<^verbatim>\<open>internal/executor\<close>, the wire form
    of batches, connection with retries, the consumers as a step relation, its invariant and termination.
  \<^item> \<open>Placement\<close>, \<open>Placement_Properties\<close>: \<^verbatim>\<open>internal/placement\<close>, replication over the locale \<open>executor_control\<close>.
  \<^item> \<open>Sched_Queue\<close> (locale \<open>work_queue\<close>), \<open>Scheduler\<close>: \<^verbatim>\<open>internal/scheduler\<close>.  \<open>Sched_Facts\<close>, \<open>Sched_Pick\<close>, \<open>Sched_Batch\<close>, \<open>Sched_Submit\<close>,
    \<open>Sched_Admission\<close>, \<open>Sched_Events\<close>: frames, routing, budgets, conservation of work, admission and events; \<open>Sched_Demo\<close>,
    \<open>Sched_Properties\<close>: a concrete scheduler and the properties.  \<open>Lock_Free_Queue\<close>: the unused ring buffer refines a queue.
  \<^item> \<open>Handler\<close>, \<open>Handler_Properties\<close>: \<^verbatim>\<open>internal/handler\<close>.  \<open>Transport\<close>, \<open>Inference_Service\<close>, \<open>Transport_Properties\<close>, \<open>Startup\<close>:
    \<^verbatim>\<open>internal/transport\<close>, cross-origin access, the admin service, both inference calls, start and stop of the servers.
  \<^item> \<open>Rpc_Clients\<close>, \<open>Rpc_Properties\<close>: \<^verbatim>\<open>cmd/client\<close> and the generated stubs and routes of the three services; that a call posts to an
    address which is routed to the method it names, also behind the gate of the engine's server.
  \<^item> \<open>Engine\<close>, \<open>Engine_Demo\<close>: \<^verbatim>\<open>cmd/server\<close>, the wiring and the engine as a transition system in which whole operations take
    turns (\<open>sys_step\<close>), its invariant, and a concrete engine.  \<open>Sched_State\<close>: the locale \<open>state_law\<close>, by which what the
    request manager keeps the scheduler keeps; \<open>Isolation\<close> uses it for the ownership of channels.
  \<^item> \<open>Programs\<close>: programs of atomic actions, their runs alone, and \<open>rg\<close>, what a program keeps of an invariant while others move
    the state (locale \<open>knowledge\<close>).  \<open>Sched_Programs\<close>, \<open>Engine_Programs\<close>: the operations of the request manager, the scheduler and the
    handler cut at their locks, and the engine whose goroutines interleave these actions (\<open>go_step\<close>).  \<open>Program_Runs\<close>: an operation
    that is not interrupted does what its function says, so \<open>sys_step\<close> is a part of \<open>go_step\<close>.  \<open>Program_Safety\<close>, \<open>Engine_Safety\<close>: every
    action keeps the invariant.  \<open>Engine_Race\<close>, \<open>Engine_Properties\<close>: a concrete race, and the properties of the interleaved engine.
  \<^item> \<open>Bench\<close>, \<open>Bench_Properties\<close>: \<^verbatim>\<open>cmd/bench\<close>, the benchmark client, and its run against the engine.

  Bounds.  Channels, queues and retries have the capacities of the code.  Where a loop of the code is bounded by a
  counter (the picking loops run at most once per item that waits when they start) the recursion is over that counter;
  the other recursions are structural or come with a measure, so there is no fuel.  Executors report fewer blocks
  than 2 to the 31 (\<open>small\<close>), and reference counts are assumed to have room (\<open>refs_room\<close>) where a request takes references.

  Assumptions.  SHA-256 is defined; that block hashes separate prefixes is stated absent collisions.  The
  Qwen tokenizer, configuration files, the remote calls and \<^verbatim>\<open>ParseFloat\<close> are parameters.  In the engine's transition
  systems a prompt of no tokens is excluded on arrival, because it panics (\<open>empty_prompt_panics\<close>).  A \<^verbatim>\<open>float64\<close> of
  the benchmark is a rational number.

  Interleaving.  An action of \<open>go_step\<close> is a section under the lock of the request manager with the one registry call it
  makes, a call of the block registry, an operation on a queue, a metric, an operation on a channel, or the end of a stream.  The lock of a
  queue is held across actions where \<^verbatim>\<open>Pop\<close>, \<^verbatim>\<open>Peek\<close> and \<^verbatim>\<open>Dequeue\<close> ask the request manager about works.  A goroutine that panics
  makes no further step, although it would end the server; what is proved holds up to there.  The budget, conservation
  and contract properties of the scheduler are about operations that are not interrupted.

  Not modelled.  The generated protocol buffer code, the library side of a Connect call (its encoding and transport are a
  parameter of the stubs), the \<^verbatim>\<open>Unimplemented\<close> services, which nothing uses, the multiplexer of \<^verbatim>\<open>net/http\<close>, logging, flags, HTTP and the exposition of metrics, the printing of benchmark results, the Python executor and
  the web console, which are not Go.
\<close>

end
